(* ===== verification/LB_Prelude.thy ===== *)
theory LB_Prelude
  imports Main "HOL-Library.Word" "HOL-Library.Sublist"
begin

text \<open>
  Shared ground of the development: the outcome type of C code that may run into
  undefined behaviour, C integer conversions, the C string functions the sources call
  (\<^verbatim>\<open>strchr\<close>, \<^verbatim>\<open>strstr\<close>, \<^verbatim>\<open>strcasecmp\<close>, \<^verbatim>\<open>strcmp\<close>, \<^verbatim>\<open>snprintf\<close>),
  decimal scanning (\<^verbatim>\<open>sscanf("%d")\<close>, \<^verbatim>\<open>atoi\<close>) and printing (\<^verbatim>\<open>"%d"\<close>,
  \<^verbatim>\<open>"%06d"\<close>), with the lemmas the components share.
\<close>

section \<open>Outcomes of C code\<close>

text \<open>
  A C function either returns a value (\<open>Inr\<close>) or performs an operation whose
  behaviour the language leaves undefined or that stops the process (\<open>Inl\<close>).
\<close>

datatype c_fault =
    Null_deref
  | Out_of_bounds
  | Assert_fail
  | Heap_overflow
  | Use_after_free
  | Diverges

type_synonym 'a res = "c_fault + 'a"

text \<open>Error codes that functions return to their callers.\<close>

datatype errno = EINVAL | ENOMEM

definition rbind :: "'a res \<Rightarrow> ('a \<Rightarrow> 'b res) \<Rightarrow> 'b res" where
  "rbind m f = (case m of Inl e \<Rightarrow> Inl e | Inr x \<Rightarrow> f x)"

named_theorems res_simps \<open>rewriting of outcomes\<close>
named_theorems text_simps \<open>rewriting of printed and scanned text\<close>

lemma rbind_Inl [simp]: "rbind (Inl e) f = Inl e"
  by (simp add: rbind_def)

lemma rbind_Inr [simp]: "rbind (Inr x) f = f x"
  by (simp add: rbind_def)

lemma rbind_eq_Inr [res_simps]:
  "(rbind m f = Inr y) = (\<exists>x. m = Inr x \<and> f x = Inr y)"
  by (cases m) auto

lemma rbind_eq_Inl [res_simps]:
  "(rbind m f = Inl e) = (m = Inl e \<or> (\<exists>x. m = Inr x \<and> f x = Inl e))"
  by (cases m) auto

lemma rbind_assoc: "rbind (rbind m f) g = rbind m (\<lambda>x. rbind (f x) g)"
  by (cases m) auto

lemma rbind_InrE:
  assumes "rbind m f = Inr y"
  obtains x where "m = Inr x" and "f x = Inr y"
  using assms by (auto simp: res_simps)

text \<open>A property of the value of an outcome, if there is one (partial correctness).\<close>

definition ok_res :: "('a \<Rightarrow> bool) \<Rightarrow> 'a res \<Rightarrow> bool" where
  "ok_res P m = (case m of Inl _ \<Rightarrow> True | Inr x \<Rightarrow> P x)"

lemma ok_res_simps [simp]: "ok_res P (Inl f) = True" "ok_res P (Inr x) = P x"
  by (simp_all add: ok_res_def)

lemma ok_res_rbind [simp]: "ok_res P (rbind m f) = ok_res (\<lambda>x. ok_res P (f x)) m"
  by (cases m) simp_all

lemma ok_res_if [simp]: "ok_res P (if c then a else b) = (if c then ok_res P a else ok_res P b)"
  by simp

lemma ok_resI: "(\<And>x. m = Inr x \<Longrightarrow> P x) \<Longrightarrow> ok_res P m"
  by (cases m) simp_all

lemma ok_resD: "ok_res P m \<Longrightarrow> m = Inr x \<Longrightarrow> P x"
  by simp

lemma ok_res_mono: "ok_res P m \<Longrightarrow> (\<And>x. P x \<Longrightarrow> Q x) \<Longrightarrow> ok_res Q m"
  by (cases m) simp_all

lemma ok_res_True [simp]: "ok_res (\<lambda>x. True) m"
  by (cases m) simp_all

text \<open>Reading a pointer, and an element of an allocated array through it.\<close>

definition deref :: "'a option \<Rightarrow> 'a res" where
  "deref p = (case p of None \<Rightarrow> Inl Null_deref | Some x \<Rightarrow> Inr x)"

definition arr_store :: "'a list option \<Rightarrow> int \<Rightarrow> 'a \<Rightarrow> 'a list option res" where
  "arr_store p i v =
     (case p of
        None \<Rightarrow> Inl Null_deref
      | Some xs \<Rightarrow>
          if 0 \<le> i \<and> i < int (length xs) then Inr (Some (xs[nat i := v]))
          else Inl Out_of_bounds)"

lemma deref_Some [simp]: "deref (Some x) = Inr x"
  and deref_None [simp]: "deref None = Inl Null_deref"
  by (simp_all add: deref_def)

lemma deref_eq_Inr [res_simps]: "(deref p = Inr x) = (p = Some x)"
  by (cases p) auto

lemma arr_store_ok:
  "0 \<le> i \<Longrightarrow> i < int (length xs) \<Longrightarrow> arr_store (Some xs) i v = Inr (Some (xs[nat i := v]))"
  by (simp add: arr_store_def)

lemma arr_store_eq_Inr [res_simps]:
  "(arr_store p i v = Inr q) =
     (\<exists>xs. p = Some xs \<and> 0 \<le> i \<and> i < int (length xs) \<and> q = Some (xs[nat i := v]))"
  by (auto simp: arr_store_def split: option.splits if_splits)

section \<open>C integers\<close>

text \<open>Conversion to a 32-bit \<^verbatim>\<open>int\<close> and to a 64-bit \<^verbatim>\<open>long\<close> clamped as \<^verbatim>\<open>strtol\<close> does.\<close>

definition c_int :: "int \<Rightarrow> int" where
  "c_int x = (x + 2147483648) mod 4294967296 - 2147483648"

definition in_int :: "int \<Rightarrow> bool" where
  "in_int x \<longleftrightarrow> - 2147483648 \<le> x \<and> x < 2147483648"

definition in_long :: "int \<Rightarrow> bool" where
  "in_long x \<longleftrightarrow> - 9223372036854775808 \<le> x \<and> x < 9223372036854775808"

definition clamp_long :: "int \<Rightarrow> int" where
  "clamp_long x = max (- 9223372036854775808) (min 9223372036854775807 x)"

lemma c_int_id [simp]: "in_int x \<Longrightarrow> c_int x = x"
  by (simp add: c_int_def in_int_def)

lemma in_int_c_int [simp]: "in_int (c_int x)"
proof -
  have "0 \<le> (x + 2147483648) mod 4294967296" and "(x + 2147483648) mod 4294967296 < 4294967296"
    by simp_all
  then show ?thesis by (simp add: c_int_def in_int_def)
qed

lemma in_int_in_long: "in_int x \<Longrightarrow> in_long x"
  by (simp add: in_int_def in_long_def)

lemma clamp_long_id: "in_long x \<Longrightarrow> clamp_long x = x"
  by (simp add: clamp_long_def in_long_def)

lemma in_int_sint [simp]: "in_int (sint (w :: 32 word))"
  using sint_range_size [of w] by (simp add: in_int_def word_size)

lemma sint_word_of_int_32: "in_int v \<Longrightarrow> sint (word_of_int v :: 32 word) = v"
  by (simp add: in_int_def signed_of_int signed_take_bit_int_eq_self)

section \<open>C strings\<close>

text \<open>A C string is a list of characters; a \<^verbatim>\<open>char *\<close> that may be \<^verbatim>\<open>NULL\<close> an option.\<close>

type_synonym cstr = "string option"

text \<open>What \<^verbatim>\<open>printf\<close> writes for \<^verbatim>\<open>%s\<close> (both libc's and the bundled trio's).\<close>

definition pct_s :: "cstr \<Rightarrow> string" where
  "pct_s p = (case p of None \<Rightarrow> ''(null)'' | Some s \<Rightarrow> s)"

lemma pct_s_simps [simp]: "pct_s None = ''(null)''" "pct_s (Some s) = s"
  by (simp_all add: pct_s_def)

fun strchr :: "string \<Rightarrow> char \<Rightarrow> string option" where
  "strchr [] c = None"
| "strchr (x # xs) c = (if x = c then Some (x # xs) else strchr xs c)"

fun strstr :: "string \<Rightarrow> string \<Rightarrow> string option" where
  "strstr [] n = (if n = [] then Some [] else None)"
| "strstr (x # xs) n = (if take (length n) (x # xs) = n then Some (x # xs) else strstr xs n)"

text \<open>The last occurrence: \<^verbatim>\<open>strrchr\<close>.\<close>

fun strrchr :: "string \<Rightarrow> char \<Rightarrow> string option" where
  "strrchr [] c = None"
| "strrchr (x # xs) c =
     (case strrchr xs c of Some r \<Rightarrow> Some r | None \<Rightarrow> if x = c then Some (x # xs) else None)"

definition tolower :: "char \<Rightarrow> char" where
  "tolower c = (let k = of_char c :: nat in if 65 \<le> k \<and> k \<le> 90 then char_of (k + 32) else c)"

definition strcaseeq :: "string \<Rightarrow> string \<Rightarrow> bool" where
  "strcaseeq a b \<longleftrightarrow> map tolower a = map tolower b"

text \<open>The sign of \<^verbatim>\<open>strcmp\<close> (only the sign is specified).\<close>

fun strcmp :: "string \<Rightarrow> string \<Rightarrow> int" where
  "strcmp [] [] = 0"
| "strcmp [] (y # ys) = -1"
| "strcmp (x # xs) [] = 1"
| "strcmp (x # xs) (y # ys) =
     (if (of_char x :: nat) < of_char y then -1
      else if (of_char y :: nat) < of_char x then 1 else strcmp xs ys)"

definition isspace :: "char \<Rightarrow> bool" where
  "isspace c \<longleftrightarrow> (let k = of_char c :: nat in k = 32 \<or> (9 \<le> k \<and> k \<le> 13))"

text \<open>\<^verbatim>\<open>snprintf\<close> into a buffer of \<open>n\<close> bytes keeps \<open>n - 1\<close> characters.\<close>

definition snprintf_trunc :: "nat \<Rightarrow> string \<Rightarrow> string" where
  "snprintf_trunc n s = take (n - 1) s"

lemma strcaseeq_refl [simp]: "strcaseeq a a"
  by (simp add: strcaseeq_def)

lemma strcaseeq_sym: "strcaseeq a b = strcaseeq b a"
  by (auto simp: strcaseeq_def)

lemma strcaseeq_trans: "strcaseeq a b \<Longrightarrow> strcaseeq b c \<Longrightarrow> strcaseeq a c"
  by (simp add: strcaseeq_def)

lemma strchr_append:
  "c \<notin> set xs \<Longrightarrow> strchr (xs @ c # ys) c = Some (c # ys)"
  by (induction xs) auto

lemma strchr_None: "(strchr s c = None) = (c \<notin> set s)"
  by (induction s) auto

lemma strchr_Some: "strchr s c = Some t \<Longrightarrow> \<exists>u. s = u @ t \<and> c \<notin> set u \<and> hd t = c \<and> t \<noteq> []"
proof (induction s)
  case (Cons x xs)
  then show ?case
  proof (cases "x = c")
    case False
    with Cons.prems have "strchr xs c = Some t" by simp
    with Cons.IH obtain u where "xs = u @ t \<and> c \<notin> set u \<and> hd t = c \<and> t \<noteq> []" by blast
    with False have "x # xs = (x # u) @ t \<and> c \<notin> set (x # u) \<and> hd t = c \<and> t \<noteq> []" by auto
    then show ?thesis by blast
  qed auto
qed simp

lemma strchr_length: "strchr s c = Some t \<Longrightarrow> length t \<le> length s"
  using strchr_Some [of s c t] by auto

lemma strrchr_append:
  "c \<notin> set ys \<Longrightarrow> strrchr (xs @ c # ys) c = Some (c # ys)"
proof (induction xs)
  case Nil
  then have "strrchr ys c = None" by (induction ys) auto
  then show ?case by simp
qed simp

lemma strrchr_None: "c \<notin> set s \<Longrightarrow> strrchr s c = None"
  by (induction s) auto

lemma strcmp_refl [simp]: "strcmp s s = 0"
  by (induction s) auto

lemma strcmp_antisym: "strcmp b a = - strcmp a b"
  by (induction a b rule: strcmp.induct) auto

lemma strcmp_cases: "strcmp a b \<in> {-1, 0, 1}"
  by (induction a b rule: strcmp.induct) auto

lemma strcmp_eq_0: "(strcmp a b = 0) = (a = b)"
proof (induction a b rule: strcmp.induct)
  case (4 x xs y ys)
  have "(of_char x = (of_char y :: nat)) = (x = y)"
    by (metis char_of_char)
  then show ?case using 4 by auto
qed auto

section \<open>Decimal text\<close>

definition is_digit :: "char \<Rightarrow> bool" where
  "is_digit c \<longleftrightarrow> (let k = of_char c :: nat in 48 \<le> k \<and> k \<le> 57)"

definition digit_val :: "char \<Rightarrow> nat" where
  "digit_val c = of_char c - 48"

definition digit_char :: "nat \<Rightarrow> char" where
  "digit_char d = char_of (d + 48)"

definition digits_val :: "string \<Rightarrow> nat" where
  "digits_val ds = foldl (\<lambda>n c. 10 * n + digit_val c) 0 ds"

text \<open>
  The conversion of \<^verbatim>\<open>%d\<close>, \<^verbatim>\<open>%ld\<close> and \<^verbatim>\<open>strtol\<close>: leading white space, an optional
  sign, at least one digit; a value out of range saturates at the limits of
  \<^verbatim>\<open>long\<close>. The second component is the input that is left.
\<close>

definition scan_unsigned :: "string \<Rightarrow> (nat \<times> string) option" where
  "scan_unsigned s =
     (let ds = takeWhile is_digit s
      in if ds = [] then None else Some (digits_val ds, dropWhile is_digit s))"

definition scan_long :: "string \<Rightarrow> (int \<times> string) option" where
  "scan_long s0 =
     (case dropWhile isspace s0 of
        [] \<Rightarrow> None
      | c # cs \<Rightarrow>
          if c = CHR ''-'' then
            map_option (\<lambda>(n, r). (clamp_long (- int n), r)) (scan_unsigned cs)
          else if c = CHR ''+'' then
            map_option (\<lambda>(n, r). (clamp_long (int n), r)) (scan_unsigned cs)
          else
            map_option (\<lambda>(n, r). (clamp_long (int n), r)) (scan_unsigned (c # cs)))"

definition scan_int :: "string \<Rightarrow> (int \<times> string) option" where
  "scan_int s = map_option (\<lambda>(v, r). (c_int v, r)) (scan_long s)"

definition atoi :: "string \<Rightarrow> int" where
  "atoi s = (case scan_int s of None \<Rightarrow> 0 | Some (v, _) \<Rightarrow> v)"

text \<open>Printing: \<^verbatim>\<open>%d\<close> and, with a field width filled by zeros, \<^verbatim>\<open>%06d\<close>.\<close>

fun show_nat :: "nat \<Rightarrow> string" where
  "show_nat n = (if n < 10 then [digit_char n] else show_nat (n div 10) @ [digit_char (n mod 10)])"

declare show_nat.simps [simp del]

definition show_int :: "int \<Rightarrow> string" where
  "show_int i = (if i < 0 then CHR ''-'' # show_nat (nat (- i)) else show_nat (nat i))"

definition zero_pad :: "nat \<Rightarrow> string \<Rightarrow> string" where
  "zero_pad w ds = replicate (w - length ds) (CHR ''0'') @ ds"

definition show_pad :: "nat \<Rightarrow> int \<Rightarrow> string" where
  "show_pad w i =
     (if i < 0 then CHR ''-'' # zero_pad (w - 1) (show_nat (nat (- i)))
      else zero_pad w (show_nat (nat i)))"

lemma of_char_digit_char: "d < 10 \<Longrightarrow> (of_char (digit_char d) :: nat) = d + 48"
  by (simp add: digit_char_def)

lemma digit_char_facts [simp]:
  assumes "d < 10"
  shows "is_digit (digit_char d)" and "digit_val (digit_char d) = d"
  using of_char_digit_char [OF assms] assms by (simp_all add: is_digit_def digit_val_def)

lemma is_digit_zero [simp]: "is_digit (CHR ''0'')" and digit_val_zero [simp]: "digit_val (CHR ''0'') = 0"
  by (simp_all add: is_digit_def digit_val_def)

lemma digits_val_snoc: "digits_val (ds @ [c]) = 10 * digits_val ds + digit_val c"
  by (simp add: digits_val_def)

lemma digits_val_show_nat: "digits_val (show_nat n) = n"
proof (induction n rule: show_nat.induct)
  case (1 n)
  show ?case
  proof (cases "n < 10")
    case True
    then show ?thesis by (simp add: show_nat.simps [of n] digits_val_def)
  next
    case False
    with "1.IH" have "digits_val (show_nat (n div 10)) = n div 10" by simp
    with False show ?thesis
      by (simp add: show_nat.simps [of n] digits_val_snoc mult_div_mod_eq)
  qed
qed

lemma show_nat_digits: "set (show_nat n) \<subseteq> Collect is_digit"
proof (induction n rule: show_nat.induct)
  case (1 n)
  then show ?case
    by (cases "n < 10") (simp_all add: show_nat.simps [of n])
qed

lemma show_nat_nonempty [simp]: "show_nat n \<noteq> []"
  by (subst show_nat.simps) simp

lemma digits_val_zeros: "digits_val (replicate k (CHR ''0'') @ ds) = digits_val ds"
  by (induction k) (simp_all add: digits_val_def)

lemma zero_pad_facts:
  shows zero_pad_digits: "set ds \<subseteq> Collect is_digit \<Longrightarrow> set (zero_pad w ds) \<subseteq> Collect is_digit"
    and zero_pad_val: "digits_val (zero_pad w ds) = digits_val ds"
    and zero_pad_nonempty: "ds \<noteq> [] \<Longrightarrow> zero_pad w ds \<noteq> []"
  by (auto simp: zero_pad_def digits_val_zeros)

lemma length_zero_pad: "length (zero_pad w ds) = max w (length ds)"
  by (simp add: zero_pad_def)

text \<open>A number ends where the next character is not a digit.\<close>

definition no_digit_head :: "string \<Rightarrow> bool" where
  "no_digit_head r \<longleftrightarrow> (case r of [] \<Rightarrow> True | c # _ \<Rightarrow> \<not> is_digit c)"

lemma no_digit_head_simps [simp]:
  "no_digit_head []" "no_digit_head (c # r) = (\<not> is_digit c)"
  by (simp_all add: no_digit_head_def)

lemma scan_unsigned_digits:
  assumes "set ds \<subseteq> Collect is_digit" and "ds \<noteq> []" and "no_digit_head r"
  shows "scan_unsigned (ds @ r) = Some (digits_val ds, r)"
proof -
  have tw: "takeWhile is_digit (ds @ r) = ds"
    using assms(1,3) by (cases r) (auto simp: takeWhile_append2 subset_iff)
  have dw: "dropWhile is_digit (ds @ r) = r"
    using assms(1,3) by (cases r) (auto simp: dropWhile_append2 subset_iff)
  show ?thesis using assms(2) tw dw by (simp add: scan_unsigned_def)
qed

lemma digit_not_space_sign:
  "is_digit c \<Longrightarrow> \<not> isspace c \<and> c \<noteq> CHR ''-'' \<and> c \<noteq> CHR ''+'' \<and> c \<noteq> CHR '' ''"
  by (auto simp: is_digit_def isspace_def Let_def)

lemma scan_long_digits:
  assumes "set ds \<subseteq> Collect is_digit" and "ds \<noteq> []" and "no_digit_head r"
  shows "scan_long (ds @ r) = Some (clamp_long (int (digits_val ds)), r)"
proof -
  obtain c cs where ds: "ds = c # cs" using assms(2) by (cases ds) auto
  then have c: "is_digit c" using assms(1) by simp
  have "scan_unsigned ((c # cs) @ r) = Some (digits_val ds, r)"
    using scan_unsigned_digits [OF assms] ds by simp
  then show ?thesis
    using ds digit_not_space_sign [OF c] by (simp add: scan_long_def)
qed

lemma scan_long_minus:
  assumes "set ds \<subseteq> Collect is_digit" and "ds \<noteq> []" and "no_digit_head r"
  shows "scan_long (CHR ''-'' # ds @ r) = Some (clamp_long (- int (digits_val ds)), r)"
  using scan_unsigned_digits [OF assms] by (simp add: scan_long_def isspace_def)

lemma scan_long_show_pad:
  assumes "in_long i" and "no_digit_head r"
  shows "scan_long (show_pad w i @ r) = Some (i, r)"
proof (cases "i < 0")
  case True
  let ?ds = "zero_pad (w - 1) (show_nat (nat (- i)))"
  have "scan_long (CHR ''-'' # ?ds @ r) = Some (clamp_long (- int (digits_val ?ds)), r)"
    using zero_pad_digits [OF show_nat_digits] zero_pad_nonempty [OF show_nat_nonempty] assms(2)
    by (rule scan_long_minus)
  with True assms(1) show ?thesis
    by (simp add: show_pad_def zero_pad_val digits_val_show_nat clamp_long_id)
next
  case False
  let ?ds = "zero_pad w (show_nat (nat i))"
  have "scan_long (?ds @ r) = Some (clamp_long (int (digits_val ?ds)), r)"
    using zero_pad_digits [OF show_nat_digits] zero_pad_nonempty [OF show_nat_nonempty] assms(2)
    by (rule scan_long_digits)
  with False assms(1) show ?thesis
    by (simp add: show_pad_def zero_pad_val digits_val_show_nat clamp_long_id)
qed

lemma show_int_pad: "show_int i = show_pad 0 i"
  by (simp add: show_int_def show_pad_def zero_pad_def)

lemma scan_long_show_int [text_simps]:
  "in_long i \<Longrightarrow> no_digit_head r \<Longrightarrow> scan_long (show_int i @ r) = Some (i, r)"
  by (simp add: show_int_pad scan_long_show_pad)

lemma scan_int_show_pad [text_simps]:
  "in_int i \<Longrightarrow> no_digit_head r \<Longrightarrow> scan_int (show_pad w i @ r) = Some (i, r)"
  by (simp add: scan_int_def scan_long_show_pad in_int_in_long)

lemma scan_int_show_int [text_simps]:
  "in_int i \<Longrightarrow> no_digit_head r \<Longrightarrow> scan_int (show_int i @ r) = Some (i, r)"
  by (simp add: show_int_pad scan_int_show_pad)

lemma atoi_show_int: "in_int i \<Longrightarrow> atoi (show_int i) = i"
  using scan_int_show_int [of i "[]"] by (simp add: atoi_def)

lemma show_int_chars: "set (show_int i) \<subseteq> insert (CHR ''-'') (Collect is_digit)"
  using show_nat_digits by (auto simp: show_int_def)

lemma show_int_no_space [simp]: "CHR '' '' \<notin> set (show_int i)"
  using show_int_chars [of i] by (auto simp: is_digit_def Let_def)

lemma show_int_no_semicolon [simp]: "CHR '';'' \<notin> set (show_int i)"
  using show_int_chars [of i] by (auto simp: is_digit_def Let_def)

lemma show_int_nonempty [simp]: "show_int i \<noteq> []"
  by (simp add: show_int_def)

lemma strchr_show_int [text_simps]: "strchr (show_int i @ CHR '' '' # r) (CHR '' '') = Some (CHR '' '' # r)"
  by (rule strchr_append) simp

lemma length_show_nat: "n < 10 ^ k \<Longrightarrow> 0 < k \<Longrightarrow> length (show_nat n) \<le> k"
proof (induction k arbitrary: n)
  case (Suc k)
  show ?case
  proof (cases "n < 10")
    case True
    then show ?thesis by (simp add: show_nat.simps [of n])
  next
    case False
    with Suc.prems have "n div 10 < 10 ^ k" and "0 < k"
      by (auto simp: less_mult_imp_div_less mult.commute intro: ccontr)
    with Suc.IH have "length (show_nat (n div 10)) \<le> k" by blast
    with False show ?thesis by (simp add: show_nat.simps [of n])
  qed
qed simp

lemma length_show_pad:
  "0 \<le> i \<Longrightarrow> i < 10 ^ w \<Longrightarrow> 0 < w \<Longrightarrow> length (show_pad w i) = w"
proof -
  assume "0 \<le> i" and "i < 10 ^ w" and w: "0 < w"
  then have "nat i < 10 ^ w" by (simp add: nat_less_iff)
  with w have "length (show_nat (nat i)) \<le> w" by (simp add: length_show_nat)
  with \<open>0 \<le> i\<close> show ?thesis by (simp add: show_pad_def length_zero_pad)
qed

text \<open>Evaluation of decimal text on concrete strings.\<close>

lemmas decimal_eval =
  scan_int_def scan_long_def scan_unsigned_def isspace_def is_digit_def digits_val_def digit_val_def
  clamp_long_def c_int_def

end
