(* ===== verification/LB_JobId.thy ===== *)
theory LB_JobId
  imports LB_Prelude
begin

text \<open>
  Job identifiers (\<^verbatim>\<open>org.glite.jobid.api-c/src/cjobid.c\<close>): the structure, its parser and
  printer, duplication, (re)creation from server, port and unique string, and the
  accessors. Allocation is assumed to succeed. The unique string that
  \<^verbatim>\<open>glite_jobid_create\<close> derives from host name, address, process id, random number and
  time through OpenSSL's MD5 is the argument \<open>fresh\<close>.
\<close>

record glite_jobid =
  jid_id :: string
  BShost :: string
  BSport :: "32 word"
  jid_info :: cstr

abbreviation GLITE_JOBID_PROTO_PREFIX :: string where
  "GLITE_JOBID_PROTO_PREFIX \<equiv> ''https://''"

abbreviation GLITE_JOBID_DEFAULT_PORT :: "32 word" where
  "GLITE_JOBID_DEFAULT_PORT \<equiv> 9000"

text \<open>\<^verbatim>\<open>(unsigned int) strtoul(s, NULL, 10)\<close> on a 64-bit \<^verbatim>\<open>unsigned long\<close>.\<close>

definition strtoul_uint :: "string \<Rightarrow> 32 word" where
  "strtoul_uint s0 =
     (let sat = (\<lambda>n. if n < 2 ^ 64 then int n else 2 ^ 64 - 1);
          conv = (\<lambda>neg p. case p of None \<Rightarrow> 0
                     | Some (n, _) \<Rightarrow>
                         word_of_int (if neg \<and> n < 2 ^ 64 then - int n else sat n))
      in case dropWhile isspace s0 of
           [] \<Rightarrow> 0
         | c # cs \<Rightarrow>
             if c = CHR ''-'' then conv True (scan_unsigned cs)
             else if c = CHR ''+'' then conv False (scan_unsigned cs)
             else conv False (scan_unsigned (c # cs)))"

definition glite_jobid_parse :: "string \<Rightarrow> errno + glite_jobid" where
  "glite_jobid_parse idString =
     (if take 8 idString \<noteq> GLITE_JOBID_PROTO_PREFIX then Inl EINVAL
      else let pom = drop 8 idString in
        case strchr pom (CHR ''/'') of
          None \<Rightarrow> Inl EINVAL
        | Some pom1 \<Rightarrow>
            let hostport = take (length pom - length pom1) pom;
                pom2 = (case strrchr hostport (CHR '':'') of
                          None \<Rightarrow> None
                        | Some p \<Rightarrow> if strchr p (CHR '']'') \<noteq> None then None else Some p);
                host = (case pom2 of None \<Rightarrow> hostport
                        | Some p \<Rightarrow> take (length hostport - length p) hostport);
                port = (case pom2 of None \<Rightarrow> GLITE_JOBID_DEFAULT_PORT
                        | Some p \<Rightarrow> strtoul_uint (tl p));
                path = tl pom1;
                q = strchr path (CHR ''?'');
                uniq = (case q of None \<Rightarrow> path | Some r \<Rightarrow> take (length path - length r) path);
                nfo = (case q of None \<Rightarrow> None | Some r \<Rightarrow> Some (tl r))
            in if list_ex isspace host \<or> list_ex isspace uniq then Inl EINVAL
               else Inr \<lparr>jid_id = uniq, BShost = host, BSport = port, jid_info = nfo\<rparr>)"

definition port_or_default :: "glite_jobid \<Rightarrow> 32 word" where
  "port_or_default j = (if BSport j \<noteq> 0 then BSport j else GLITE_JOBID_DEFAULT_PORT)"

definition glite_jobid_unparse :: "glite_jobid option \<Rightarrow> cstr" where
  "glite_jobid_unparse jobid =
     (case jobid of
        None \<Rightarrow> None
      | Some j \<Rightarrow>
          Some (GLITE_JOBID_PROTO_PREFIX @ BShost j @ '':'' @ show_int (sint (port_or_default j))
                @ ''/'' @ jid_id j
                @ (case jid_info j of None \<Rightarrow> [] | Some i \<Rightarrow> ''?'' @ i)))"

definition glite_jobid_dup :: "glite_jobid option \<Rightarrow> glite_jobid option" where
  "glite_jobid_dup inp =
     (case inp of
        None \<Rightarrow> None
      | Some j \<Rightarrow> Some \<lparr>jid_id = jid_id j, BShost = BShost j, BSport = BSport j,
                        jid_info = (case jid_info j of None \<Rightarrow> None | Some i \<Rightarrow> Some i)\<rparr>)"

definition glite_jobid_recreate ::
  "cstr \<Rightarrow> int \<Rightarrow> cstr \<Rightarrow> string \<Rightarrow> errno + glite_jobid" where
  "glite_jobid_recreate bkserver port unique fresh =
     (case bkserver of
        None \<Rightarrow> Inl EINVAL
      | Some b \<Rightarrow>
          if take 8 b = GLITE_JOBID_PROTO_PREFIX then Inl EINVAL
          else
            let portbeg = strrchr b (CHR '':'');
                host = (case portbeg of None \<Rightarrow> b | Some p \<Rightarrow> take (length b - length p) b);
                port1 = (case portbeg of None \<Rightarrow> port
                         | Some p \<Rightarrow> if port = 0 then atoi (tl p) else port);
                port2 = (if port1 = 0 then 9000 else port1)
            in Inr \<lparr>jid_id = (case unique of Some u \<Rightarrow> u | None \<Rightarrow> fresh),
                    BShost = host, BSport = word_of_int port2, jid_info = None\<rparr>)"

definition glite_jobid_create :: "cstr \<Rightarrow> int \<Rightarrow> string \<Rightarrow> errno + glite_jobid" where
  "glite_jobid_create bkserver port fresh = glite_jobid_recreate bkserver port None fresh"

definition glite_jobid_getServer :: "glite_jobid option \<Rightarrow> cstr" where
  "glite_jobid_getServer jobid =
     map_option (\<lambda>j. BShost j @ '':'' @ show_nat (unat (port_or_default j))) jobid"

definition glite_jobid_getServerParts :: "glite_jobid option \<Rightarrow> (string \<times> 32 word) option" where
  "glite_jobid_getServerParts jobid = map_option (\<lambda>j. (BShost j, port_or_default j)) jobid"

definition glite_jobid_getUnique :: "glite_jobid option \<Rightarrow> cstr" where
  "glite_jobid_getUnique jobid = map_option jid_id jobid"

section \<open>Well-formed identifiers and the round trips\<close>

text \<open>
  What the textual form can carry: a host without slash or white space, a unique part
  without question mark or white space, a port other than 0 (0 prints as the default).
\<close>

definition wf_jobid :: "glite_jobid \<Rightarrow> bool" where
  "wf_jobid j \<longleftrightarrow>
     CHR ''/'' \<notin> set (BShost j) \<and> \<not> list_ex isspace (BShost j) \<and>
     CHR ''?'' \<notin> set (jid_id j) \<and> \<not> list_ex isspace (jid_id j) \<and> BSport j \<noteq> 0"

lemma word_of_sint_32: "word_of_int (sint (w :: 32 word)) = w"
  by simp

lemma nat_small_sint: "nat \<bar>sint (w :: 32 word)\<bar> < 2 ^ 64"
proof -
  have "in_int (sint w)" by simp
  then have "\<bar>sint w\<bar> < 2 ^ 64" by (auto simp: in_int_def)
  then show ?thesis by (simp add: nat_less_iff)
qed

lemma strtoul_show_int: "strtoul_uint (show_int (sint (w :: 32 word))) = w"
proof (cases "sint w < 0")
  case True
  have "scan_unsigned (show_nat (nat (- sint w)) @ []) = Some (digits_val (show_nat (nat (- sint w))), [])"
    using show_nat_digits by (rule scan_unsigned_digits) simp_all
  then have su: "scan_unsigned (show_nat (nat (- sint w))) = Some (nat (- sint w), [])"
    by (simp add: digits_val_show_nat)
  from nat_small_sint [of w] True have "nat (- sint w) < 2 ^ 64" by simp
  with True su show ?thesis
    by (simp add: strtoul_uint_def show_int_def isspace_def)
next
  case False
  obtain c cs where sn: "show_nat (nat (sint w)) = c # cs"
    by (cases "show_nat (nat (sint w))") auto
  then have "is_digit c" using show_nat_digits [of "nat (sint w)"] by auto
  note cc = digit_not_space_sign [OF this]
  have "scan_unsigned (show_nat (nat (sint w)) @ []) = Some (digits_val (show_nat (nat (sint w))), [])"
    using show_nat_digits by (rule scan_unsigned_digits) simp_all
  then have su: "scan_unsigned (c # cs) = Some (nat (sint w), [])"
    by (simp only: digits_val_show_nat append_Nil2 sn [symmetric])
  from nat_small_sint [of w] False have "nat (sint w) < 2 ^ 64" by simp
  with False su cc sn show ?thesis
    by (simp add: strtoul_uint_def show_int_def)
qed

lemma show_int_no_char:
  "c \<notin> Collect is_digit \<Longrightarrow> c \<noteq> CHR ''-'' \<Longrightarrow> c \<notin> set (show_int i)"
  using show_int_chars [of i] by auto

lemma show_int_no_sep [simp]:
  "CHR ''/'' \<notin> set (show_int i)" "CHR '':'' \<notin> set (show_int i)" "CHR '']'' \<notin> set (show_int i)"
  by (rule show_int_no_char; simp add: is_digit_def)+

lemma parse_unparse_parts:
  assumes "CHR ''/'' \<notin> set h" and "\<not> list_ex isspace h"
    and "CHR ''?'' \<notin> set u" and "\<not> list_ex isspace u"
  shows "glite_jobid_parse (''https://'' @ h @ '':'' @ show_int (sint w) @ ''/'' @ u @
            (case nfo of None \<Rightarrow> [] | Some i \<Rightarrow> ''?'' @ i))
         = Inr \<lparr>jid_id = u, BShost = h, BSport = w, jid_info = nfo\<rparr>"
proof -
  let ?hp = "h @ CHR '':'' # show_int (sint w)"
  let ?path = "u @ (case nfo of None \<Rightarrow> [] | Some i \<Rightarrow> ''?'' @ i)"
  have slash: "strchr (?hp @ CHR ''/'' # ?path) (CHR ''/'') = Some (CHR ''/'' # ?path)"
    by (rule strchr_append) (use assms(1) in simp)
  have colon: "strrchr ?hp (CHR '':'') = Some (CHR '':'' # show_int (sint w))"
    by (rule strrchr_append) simp
  have brk: "strchr (show_int (sint w)) (CHR '']'') = None"
    by (simp add: strchr_None)
  have qm: "strchr ?path (CHR ''?'') = (case nfo of None \<Rightarrow> None | Some i \<Rightarrow> Some (CHR ''?'' # i))"
    using assms(3) by (cases nfo) (simp_all add: strchr_None strchr_append)
  show ?thesis
    using slash colon brk qm assms(2,4)
    by (cases nfo) (simp_all add: glite_jobid_parse_def Let_def strtoul_show_int)
qed

lemma jobid_roundtrip_wf:
  "wf_jobid j \<Longrightarrow> glite_jobid_unparse (Some j) = Some s \<Longrightarrow> glite_jobid_parse s = Inr j"
  using parse_unparse_parts [of "BShost j" "jid_id j" "BSport j" "jid_info j"]
  by (auto simp: glite_jobid_unparse_def wf_jobid_def port_or_default_def)

lemma strchr_before:
  "strchr s c = Some t \<Longrightarrow> c \<notin> set (take (length s - length t) s)"
proof -
  assume "strchr s c = Some t"
  then obtain u where "s = u @ t" "c \<notin> set u" using strchr_Some by blast
  then show ?thesis by simp
qed

lemma parse_wf:
  assumes "glite_jobid_parse s = Inr j"
  shows "wf_jobid (j\<lparr>BSport := port_or_default j\<rparr>)"
proof -
  from assms obtain pom1 where p1: "strchr (drop 8 s) (CHR ''/'') = Some pom1"
    by (auto simp: glite_jobid_parse_def Let_def split: if_splits option.splits)
  define hp where "hp = take (length (drop 8 s) - length pom1) (drop 8 s)"
  define path where "path = tl pom1"
  have nosl: "CHR ''/'' \<notin> set hp" unfolding hp_def by (rule strchr_before [OF p1])
  have host: "set (BShost j) \<subseteq> set hp" and spaces: "\<not> list_ex isspace (BShost j)" "\<not> list_ex isspace (jid_id j)"
    and uniq: "jid_id j = (case strchr path (CHR ''?'') of None \<Rightarrow> path
                 | Some r \<Rightarrow> take (length path - length r) path)"
    using assms unfolding glite_jobid_parse_def Let_def p1 option.case hp_def [symmetric] path_def [symmetric]
    by (auto split: if_splits option.splits dest: in_set_takeD)
  have "CHR ''?'' \<notin> set (jid_id j)"
    using strchr_before [of path] unfolding uniq by (simp add: strchr_None split: option.split)
  moreover from nosl host have "CHR ''/'' \<notin> set (BShost j)" by blast
  ultimately show ?thesis using spaces by (simp add: wf_jobid_def port_or_default_def)
qed

text \<open>
  Printing a well-formed job identifier and parsing the text gives the identifier
  back, whatever its port (also ports that print as negative numbers) and extra information.
\<close>

theorem jobid_parse_unparse:
  assumes "wf_jobid j"
  shows "\<exists>s. glite_jobid_unparse (Some j) = Some s \<and> glite_jobid_parse s = Inr j"
  using jobid_roundtrip_wf [OF assms] by (simp add: glite_jobid_unparse_def)

abbreviation (input) example_jobid :: glite_jobid where
  "example_jobid \<equiv>
     \<lparr>jid_id = ''Xo2-_a'', BShost = ''lb.example.org'', BSport = 4294967295, jid_info = Some ''q''\<rparr>"

theorem jobid_parse_unparse_witness:
  "wf_jobid example_jobid \<and>
   (\<exists>s. glite_jobid_unparse (Some example_jobid) = Some s \<and> glite_jobid_parse s = Inr example_jobid)"
proof -
  have "wf_jobid example_jobid" by (simp add: wf_jobid_def isspace_def)
  with jobid_parse_unparse [OF this] show ?thesis by blast
qed

text \<open>
  Whatever the parser accepts prints to a canonical form that parses to the same
  identifier, with port 0 made the default port.
\<close>

theorem jobid_parse_canonical:
  assumes "glite_jobid_parse s = Inr j"
  shows "\<exists>t. glite_jobid_unparse (Some j) = Some t \<and>
             glite_jobid_parse t = Inr (j\<lparr>BSport := port_or_default j\<rparr>)"
proof -
  let ?k = "j\<lparr>BSport := port_or_default j\<rparr>"
  have k: "glite_jobid_unparse (Some ?k) = glite_jobid_unparse (Some j)"
    by (simp add: glite_jobid_unparse_def port_or_default_def)
  obtain t where "glite_jobid_unparse (Some ?k) = Some t"
    by (simp add: glite_jobid_unparse_def)
  with k jobid_roundtrip_wf [OF parse_wf [OF assms]] show ?thesis by metis
qed

theorem jobid_parse_canonical_witness:
  "\<exists>j t. glite_jobid_parse ''https://[::1]/ab?x=1'' = Inr j \<and>
         glite_jobid_unparse (Some j) = Some t \<and>
         glite_jobid_parse t = Inr (j\<lparr>BSport := port_or_default j\<rparr>)"
proof -
  obtain j where "glite_jobid_parse ''https://[::1]/ab?x=1'' = Inr j"
    by (simp add: glite_jobid_parse_def isspace_def)
  with jobid_parse_canonical [OF this] show ?thesis by blast
qed

text \<open>
  Recreating an identifier from its server name, port and unique part gives the same
  identifier when the host name holds no colon; a bracketed IPv6 address, which the parser
  accepts, is cut at its last colon.
\<close>

theorem jobid_recreate_server_parts:
  assumes "glite_jobid_parse s = Inr j" and "glite_jobid_getServerParts (Some j) = Some (name, port)"
  shows "(CHR '':'' \<notin> set name \<longrightarrow>
            glite_jobid_recreate (Some name) (sint port) (glite_jobid_getUnique (Some j)) fresh
              = Inr (j\<lparr>BSport := port_or_default j, jid_info := None\<rparr>)) \<and>
         (\<forall>u v. name = u @ '':'' @ v \<and> CHR '':'' \<notin> set v \<longrightarrow>
            (\<exists>k. glite_jobid_recreate (Some name) (sint port) (glite_jobid_getUnique (Some j)) fresh = Inr k
                 \<and> BShost k = u))"
proof -
  have w: "CHR ''/'' \<notin> set name" and n: "name = BShost j" and p: "port = port_or_default j"
    using parse_wf [OF assms(1)] assms(2) by (auto simp: wf_jobid_def glite_jobid_getServerParts_def)
  have pre: "take 8 name \<noteq> ''https://''"
  proof
    assume "take 8 name = ''https://''"
    then have "CHR ''/'' \<in> set (take 8 name)" by simp
    with w show False by (meson in_set_takeD)
  qed
  have "port \<noteq> 0" using p by (simp add: port_or_default_def)
  then have "sint port \<noteq> 0" by (metis word_of_sint_32 of_int_0)
  with pre n p show ?thesis
    by (auto simp: glite_jobid_recreate_def glite_jobid_getUnique_def Let_def strrchr_None
        strrchr_append)
qed

theorem jobid_recreate_server_parts_witness:
  "\<exists>j k name port. glite_jobid_parse ''https://[2001:db8::1]:9000/ab'' = Inr j \<and>
     glite_jobid_getServerParts (Some j) = Some (name, port) \<and> name = ''[2001:db8::1]'' \<and>
     glite_jobid_recreate (Some name) (sint port) (glite_jobid_getUnique (Some j)) [] = Inr k \<and>
     BShost k = ''[2001:db8:''"
proof -
  have j: "glite_jobid_parse ''https://[2001:db8::1]:9000/ab'' =
      Inr \<lparr>jid_id = ''ab'', BShost = ''[2001:db8::1]'', BSport = 9000, jid_info = None\<rparr>" (is "_ = Inr ?j")
    by (simp add: glite_jobid_parse_def Let_def isspace_def strtoul_uint_def scan_unsigned_def
        is_digit_def digits_val_def digit_val_def)
  have p: "glite_jobid_getServerParts (Some ?j) = Some (''[2001:db8::1]'', 9000)"
    by (simp add: glite_jobid_getServerParts_def port_or_default_def)
  from jobid_recreate_server_parts [OF j p, of "[]", THEN conjunct2, rule_format,
      of "''[2001:db8:''" "''1]''"] j p
  show ?thesis by fastforce
qed

end
