(* ===== verification/LB_Types.thy ===== *)
theory LB_Types
  imports LB_JobId
begin

text \<open>
  The data of the state machine: event sources and their names
  (\<^verbatim>\<open>org.glite.lb.common/src/context.c\<close>), the numeric codes, the event structures
  and the job status structure generated from \<^verbatim>\<open>org.glite.lb.types/events.T\<close> and
  \<^verbatim>\<open>status.T\<close>, the internal job state of
  \<^verbatim>\<open>org.glite.lb.state-machine/interface/intjobstat.h\<close>, and their initial values.

  The event union is a record of the fields common to all events and a body; the bodies
  are grouped by the flesh of \<^verbatim>\<open>events.T\<close> they belong to. Fields of type double, which no
  operation here reads, are left out. Fields that the parser requires and that the code
  dereferences without a test (the sequence code, a collection's state, a CREAM state) are
  plain strings; every other string may be \<^verbatim>\<open>NULL\<close>.

  The nested structures are record extensions: \<open>intJobStat\<close> extends the public status, as
  its first member \<^verbatim>\<open>pub\<close> does in C, and the public status is built flesh by flesh.
\<close>

section \<open>Sources\<close>

datatype edg_wll_Source =
    SOURCE_NONE
  | SOURCE_USER_INTERFACE
  | SOURCE_NETWORK_SERVER
  | SOURCE_WORKLOAD_MANAGER
  | SOURCE_BIG_HELPER
  | SOURCE_JOB_SUBMISSION
  | SOURCE_LOG_MONITOR
  | SOURCE_LRMS
  | SOURCE_APPLICATION
  | SOURCE_LB_SERVER
  | SOURCE_CREAM_INTERFACE
  | SOURCE_CREAM_EXECUTOR
  | SOURCE_PBS_CLIENT
  | SOURCE_PBS_SERVER
  | SOURCE_PBS_SMOM
  | SOURCE_PBS_MOM
  | SOURCE_PBS_SCHEDULER
  | SOURCE_CLOUD_MANAGER
  | SOURCE_VM_MANAGER
  | SOURCE_VM_SYSTEM

definition edg_wll_Sources :: "edg_wll_Source list" where
  "edg_wll_Sources =
     [SOURCE_NONE, SOURCE_USER_INTERFACE, SOURCE_NETWORK_SERVER, SOURCE_WORKLOAD_MANAGER,
      SOURCE_BIG_HELPER, SOURCE_JOB_SUBMISSION, SOURCE_LOG_MONITOR, SOURCE_LRMS,
      SOURCE_APPLICATION, SOURCE_LB_SERVER, SOURCE_CREAM_INTERFACE, SOURCE_CREAM_EXECUTOR,
      SOURCE_PBS_CLIENT, SOURCE_PBS_SERVER, SOURCE_PBS_SMOM, SOURCE_PBS_MOM,
      SOURCE_PBS_SCHEDULER, SOURCE_CLOUD_MANAGER, SOURCE_VM_MANAGER, SOURCE_VM_SYSTEM]"

definition srcNames :: "string list" where
  "srcNames =
     [''Undefined'', ''UserInterface'', ''NetworkServer'', ''WorkloadManager'', ''BigHelper'',
      ''JobController'', ''LogMonitor'', ''LRMS'', ''Application'', ''LBServer'',
      ''CREAMInterface'', ''CREAMExecutor'', ''PBSClient'', ''PBSServer'', ''PBSMomSuperior'',
      ''PBSMom'', ''PBSScheduler'', ''CloudManager'', ''VMManager'', ''VMSystem'']"

primrec source_index :: "edg_wll_Source \<Rightarrow> nat" where
  "source_index SOURCE_NONE = 0"
| "source_index SOURCE_USER_INTERFACE = 1"
| "source_index SOURCE_NETWORK_SERVER = 2"
| "source_index SOURCE_WORKLOAD_MANAGER = 3"
| "source_index SOURCE_BIG_HELPER = 4"
| "source_index SOURCE_JOB_SUBMISSION = 5"
| "source_index SOURCE_LOG_MONITOR = 6"
| "source_index SOURCE_LRMS = 7"
| "source_index SOURCE_APPLICATION = 8"
| "source_index SOURCE_LB_SERVER = 9"
| "source_index SOURCE_CREAM_INTERFACE = 10"
| "source_index SOURCE_CREAM_EXECUTOR = 11"
| "source_index SOURCE_PBS_CLIENT = 12"
| "source_index SOURCE_PBS_SERVER = 13"
| "source_index SOURCE_PBS_SMOM = 14"
| "source_index SOURCE_PBS_MOM = 15"
| "source_index SOURCE_PBS_SCHEDULER = 16"
| "source_index SOURCE_CLOUD_MANAGER = 17"
| "source_index SOURCE_VM_MANAGER = 18"
| "source_index SOURCE_VM_SYSTEM = 19"

definition edg_wll_SourceToString :: "edg_wll_Source \<Rightarrow> string" where
  "edg_wll_SourceToString src = srcNames ! source_index src"

text \<open>First match among the names from index 1 on, case-insensitively.\<close>

fun find_name :: "string \<Rightarrow> string list \<Rightarrow> nat \<Rightarrow> nat option" where
  "find_name name [] i = None"
| "find_name name (x # xs) i = (if strcaseeq x name then Some i else find_name name xs (Suc i))"

definition edg_wll_StringToSource :: "string \<Rightarrow> edg_wll_Source" where
  "edg_wll_StringToSource name =
     (case find_name name (tl srcNames) 1 of
        None \<Rightarrow> SOURCE_NONE
      | Some i \<Rightarrow> edg_wll_Sources ! i)"

section \<open>Numeric codes\<close>

text \<open>Job states (\<^verbatim>\<open>edg_wll_JobStatCode\<close>).\<close>

abbreviation (input) EDG_WLL_JOB_UNDEF :: int where "EDG_WLL_JOB_UNDEF \<equiv> 0"
abbreviation (input) EDG_WLL_JOB_SUBMITTED :: int where "EDG_WLL_JOB_SUBMITTED \<equiv> 1"
abbreviation (input) EDG_WLL_JOB_WAITING :: int where "EDG_WLL_JOB_WAITING \<equiv> 2"
abbreviation (input) EDG_WLL_JOB_READY :: int where "EDG_WLL_JOB_READY \<equiv> 3"
abbreviation (input) EDG_WLL_JOB_SCHEDULED :: int where "EDG_WLL_JOB_SCHEDULED \<equiv> 4"
abbreviation (input) EDG_WLL_JOB_RUNNING :: int where "EDG_WLL_JOB_RUNNING \<equiv> 5"
abbreviation (input) EDG_WLL_JOB_DONE :: int where "EDG_WLL_JOB_DONE \<equiv> 6"
abbreviation (input) EDG_WLL_JOB_CLEARED :: int where "EDG_WLL_JOB_CLEARED \<equiv> 7"
abbreviation (input) EDG_WLL_JOB_ABORTED :: int where "EDG_WLL_JOB_ABORTED \<equiv> 8"
abbreviation (input) EDG_WLL_JOB_CANCELLED :: int where "EDG_WLL_JOB_CANCELLED \<equiv> 9"
abbreviation (input) EDG_WLL_JOB_UNKNOWN :: int where "EDG_WLL_JOB_UNKNOWN \<equiv> 10"
abbreviation (input) EDG_WLL_JOB_PURGED :: int where "EDG_WLL_JOB_PURGED \<equiv> 11"
abbreviation (input) EDG_WLL_NUMBER_OF_STATCODES :: int where "EDG_WLL_NUMBER_OF_STATCODES \<equiv> 12"

text \<open>Job types in the status.\<close>

abbreviation (input) EDG_WLL_STAT_SIMPLE :: int where "EDG_WLL_STAT_SIMPLE \<equiv> 0"
abbreviation (input) EDG_WLL_STAT_DAG :: int where "EDG_WLL_STAT_DAG \<equiv> 1"
abbreviation (input) EDG_WLL_STAT_COLLECTION :: int where "EDG_WLL_STAT_COLLECTION \<equiv> 4"
abbreviation (input) EDG_WLL_STAT_PBS :: int where "EDG_WLL_STAT_PBS \<equiv> 5"
abbreviation (input) EDG_WLL_STAT_CONDOR :: int where "EDG_WLL_STAT_CONDOR \<equiv> 6"
abbreviation (input) EDG_WLL_STAT_CREAM :: int where "EDG_WLL_STAT_CREAM \<equiv> 7"
abbreviation (input) EDG_WLL_STAT_FILE_TRANSFER_COLLECTION :: int where "EDG_WLL_STAT_FILE_TRANSFER_COLLECTION \<equiv> 8"
abbreviation (input) EDG_WLL_STAT_FILE_TRANSFER :: int where "EDG_WLL_STAT_FILE_TRANSFER \<equiv> 9"
abbreviation (input) EDG_WLL_STAT_VIRTUAL_MACHINE :: int where "EDG_WLL_STAT_VIRTUAL_MACHINE \<equiv> 10"

text \<open>Done codes, sandbox flags, job wrapper status, sandbox type.\<close>

abbreviation (input) EDG_WLL_STAT_OK :: int where "EDG_WLL_STAT_OK \<equiv> 0"
abbreviation (input) EDG_WLL_STAT_FAILED :: int where "EDG_WLL_STAT_FAILED \<equiv> 1"
abbreviation (input) EDG_WLL_STAT_CANCELLED :: int where "EDG_WLL_STAT_CANCELLED \<equiv> 2"
abbreviation (input) EDG_WLL_STAT_USER :: int where "EDG_WLL_STAT_USER \<equiv> 1"
abbreviation (input) EDG_WLL_STAT_TIMEOUT :: int where "EDG_WLL_STAT_TIMEOUT \<equiv> 2"
abbreviation (input) EDG_WLL_STAT_NOOUTPUT :: int where "EDG_WLL_STAT_NOOUTPUT \<equiv> 3"
abbreviation (input) EDG_WLL_STAT_UNKNOWN :: int where "EDG_WLL_STAT_UNKNOWN \<equiv> 0"
abbreviation (input) EDG_WLL_STAT_WRAPPER_RUNNING :: int where "EDG_WLL_STAT_WRAPPER_RUNNING \<equiv> 1"
abbreviation (input) EDG_WLL_STAT_PAYLOAD_RUNNING :: int where "EDG_WLL_STAT_PAYLOAD_RUNNING \<equiv> 2"
abbreviation (input) EDG_WLL_STAT_DONE :: int where "EDG_WLL_STAT_DONE \<equiv> 3"
abbreviation (input) EDG_WLL_STAT_INPUT :: int where "EDG_WLL_STAT_INPUT \<equiv> 0"
abbreviation (input) EDG_WLL_STAT_OUTPUT :: int where "EDG_WLL_STAT_OUTPUT \<equiv> 1"

text \<open>CREAM and virtual machine states.\<close>

abbreviation (input) EDG_WLL_STAT_CREAM_REGISTERED :: int where "EDG_WLL_STAT_CREAM_REGISTERED \<equiv> 0"
abbreviation (input) EDG_WLL_STAT_CREAM_PENDING :: int where "EDG_WLL_STAT_CREAM_PENDING \<equiv> 1"
abbreviation (input) EDG_WLL_STAT_CREAM_IDLE :: int where "EDG_WLL_STAT_CREAM_IDLE \<equiv> 2"
abbreviation (input) EDG_WLL_STAT_CREAM_RUNNING :: int where "EDG_WLL_STAT_CREAM_RUNNING \<equiv> 3"
abbreviation (input) EDG_WLL_STAT_CREAM_REALLY_RUNNING :: int where "EDG_WLL_STAT_CREAM_REALLY_RUNNING \<equiv> 4"
abbreviation (input) EDG_WLL_STAT_CREAM_HELD :: int where "EDG_WLL_STAT_CREAM_HELD \<equiv> 5"
abbreviation (input) EDG_WLL_STAT_CREAM_DONE_OK :: int where "EDG_WLL_STAT_CREAM_DONE_OK \<equiv> 6"
abbreviation (input) EDG_WLL_STAT_CREAM_DONE_FAILED :: int where "EDG_WLL_STAT_CREAM_DONE_FAILED \<equiv> 7"
abbreviation (input) EDG_WLL_STAT_CREAM_ABORTED :: int where "EDG_WLL_STAT_CREAM_ABORTED \<equiv> 8"
abbreviation (input) EDG_WLL_STAT_CREAM_CANCELLED :: int where "EDG_WLL_STAT_CREAM_CANCELLED \<equiv> 9"
abbreviation (input) EDG_WLL_STAT_CREAM_PURGED :: int where "EDG_WLL_STAT_CREAM_PURGED \<equiv> 10"
abbreviation (input) EDG_WLL_STAT_VM_PENDING :: int where "EDG_WLL_STAT_VM_PENDING \<equiv> 0"
abbreviation (input) EDG_WLL_STAT_VM_BOOT :: int where "EDG_WLL_STAT_VM_BOOT \<equiv> 1"
abbreviation (input) EDG_WLL_STAT_VM_RUNNING :: int where "EDG_WLL_STAT_VM_RUNNING \<equiv> 2"
abbreviation (input) EDG_WLL_STAT_VM_REALLY_RUNNING :: int where "EDG_WLL_STAT_VM_REALLY_RUNNING \<equiv> 3"
abbreviation (input) EDG_WLL_STAT_VM_SHUTDOWN :: int where "EDG_WLL_STAT_VM_SHUTDOWN \<equiv> 4"
abbreviation (input) EDG_WLL_STAT_VM_STOPPED :: int where "EDG_WLL_STAT_VM_STOPPED \<equiv> 5"
abbreviation (input) EDG_WLL_STAT_VM_DONE :: int where "EDG_WLL_STAT_VM_DONE \<equiv> 6"
abbreviation (input) EDG_WLL_STAT_VM_FAILURE :: int where "EDG_WLL_STAT_VM_FAILURE \<equiv> 7"

text \<open>Codes inside events; 0 is the undefined code of each.\<close>

abbreviation (input) EDG_WLL_TRANSFER_START :: int where "EDG_WLL_TRANSFER_START \<equiv> 1"
abbreviation (input) EDG_WLL_TRANSFER_OK :: int where "EDG_WLL_TRANSFER_OK \<equiv> 2"
abbreviation (input) EDG_WLL_TRANSFER_REFUSED :: int where "EDG_WLL_TRANSFER_REFUSED \<equiv> 3"
abbreviation (input) EDG_WLL_TRANSFER_FAIL :: int where "EDG_WLL_TRANSFER_FAIL \<equiv> 4"
abbreviation (input) EDG_WLL_ENQUEUED_START :: int where "EDG_WLL_ENQUEUED_START \<equiv> 1"
abbreviation (input) EDG_WLL_ENQUEUED_OK :: int where "EDG_WLL_ENQUEUED_OK \<equiv> 2"
abbreviation (input) EDG_WLL_ENQUEUED_REFUSED :: int where "EDG_WLL_ENQUEUED_REFUSED \<equiv> 3"
abbreviation (input) EDG_WLL_ENQUEUED_FAIL :: int where "EDG_WLL_ENQUEUED_FAIL \<equiv> 4"
abbreviation (input) EDG_WLL_REGJOB_SIMPLE :: int where "EDG_WLL_REGJOB_SIMPLE \<equiv> 1"
abbreviation (input) EDG_WLL_REGJOB_DAG :: int where "EDG_WLL_REGJOB_DAG \<equiv> 2"
abbreviation (input) EDG_WLL_REGJOB_PARTITIONABLE :: int where "EDG_WLL_REGJOB_PARTITIONABLE \<equiv> 3"
abbreviation (input) EDG_WLL_REGJOB_PARTITIONED :: int where "EDG_WLL_REGJOB_PARTITIONED \<equiv> 4"
abbreviation (input) EDG_WLL_REGJOB_COLLECTION :: int where "EDG_WLL_REGJOB_COLLECTION \<equiv> 5"
abbreviation (input) EDG_WLL_REGJOB_PBS :: int where "EDG_WLL_REGJOB_PBS \<equiv> 6"
abbreviation (input) EDG_WLL_REGJOB_CONDOR :: int where "EDG_WLL_REGJOB_CONDOR \<equiv> 7"
abbreviation (input) EDG_WLL_REGJOB_CREAM :: int where "EDG_WLL_REGJOB_CREAM \<equiv> 8"
abbreviation (input) EDG_WLL_REGJOB_FILE_TRANSFER_COLLECTION :: int where "EDG_WLL_REGJOB_FILE_TRANSFER_COLLECTION \<equiv> 9"
abbreviation (input) EDG_WLL_REGJOB_FILE_TRANSFER :: int where "EDG_WLL_REGJOB_FILE_TRANSFER \<equiv> 10"
abbreviation (input) EDG_WLL_REGJOB_VIRTUAL_MACHINE :: int where "EDG_WLL_REGJOB_VIRTUAL_MACHINE \<equiv> 11"
abbreviation (input) EDG_WLL_RESUBMISSION_WILLRESUB :: int where "EDG_WLL_RESUBMISSION_WILLRESUB \<equiv> 1"
abbreviation (input) EDG_WLL_RESUBMISSION_WONTRESUB :: int where "EDG_WLL_RESUBMISSION_WONTRESUB \<equiv> 2"
abbreviation (input) EDG_WLL_RESUBMISSION_SHALLOW :: int where "EDG_WLL_RESUBMISSION_SHALLOW \<equiv> 3"
abbreviation (input) EDG_WLL_DONE_OK :: int where "EDG_WLL_DONE_OK \<equiv> 1"
abbreviation (input) EDG_WLL_DONE_FAILED :: int where "EDG_WLL_DONE_FAILED \<equiv> 2"
abbreviation (input) EDG_WLL_DONE_CANCELLED :: int where "EDG_WLL_DONE_CANCELLED \<equiv> 3"
abbreviation (input) EDG_WLL_DONE_KILLED :: int where "EDG_WLL_DONE_KILLED \<equiv> 4"
abbreviation (input) EDG_WLL_CANCEL_REQ :: int where "EDG_WLL_CANCEL_REQ \<equiv> 1"
abbreviation (input) EDG_WLL_CANCEL_REFUSE :: int where "EDG_WLL_CANCEL_REFUSE \<equiv> 2"
abbreviation (input) EDG_WLL_CANCEL_DONE :: int where "EDG_WLL_CANCEL_DONE \<equiv> 3"
abbreviation (input) EDG_WLL_CANCEL_ABORT :: int where "EDG_WLL_CANCEL_ABORT \<equiv> 4"
abbreviation (input) EDG_WLL_CLEAR_USER :: int where "EDG_WLL_CLEAR_USER \<equiv> 1"
abbreviation (input) EDG_WLL_CLEAR_TIMEOUT :: int where "EDG_WLL_CLEAR_TIMEOUT \<equiv> 2"
abbreviation (input) EDG_WLL_CLEAR_NOOUTPUT :: int where "EDG_WLL_CLEAR_NOOUTPUT \<equiv> 3"
abbreviation (input) EDG_WLL_PBSTRANSFER_START :: int where "EDG_WLL_PBSTRANSFER_START \<equiv> 1"
abbreviation (input) EDG_WLL_PBSTRANSFER_OK :: int where "EDG_WLL_PBSTRANSFER_OK \<equiv> 2"
abbreviation (input) EDG_WLL_PBSTRANSFER_REFUSED :: int where "EDG_WLL_PBSTRANSFER_REFUSED \<equiv> 3"
abbreviation (input) EDG_WLL_PBSTRANSFER_FAIL :: int where "EDG_WLL_PBSTRANSFER_FAIL \<equiv> 4"
abbreviation (input) EDG_WLL_PBSRESOURCEUSAGE_REQUESTED :: int where "EDG_WLL_PBSRESOURCEUSAGE_REQUESTED \<equiv> 1"
abbreviation (input) EDG_WLL_PBSRESOURCEUSAGE_USED :: int where "EDG_WLL_PBSRESOURCEUSAGE_USED \<equiv> 2"
abbreviation (input) EDG_WLL_CONDORREJECT_NOMATCH :: int where "EDG_WLL_CONDORREJECT_NOMATCH \<equiv> 1"
abbreviation (input) EDG_WLL_CONDORREJECT_OTHER :: int where "EDG_WLL_CONDORREJECT_OTHER \<equiv> 2"
abbreviation (input) EDG_WLL_CREAMSTORE_CMDSTART :: int where "EDG_WLL_CREAMSTORE_CMDSTART \<equiv> 1"
abbreviation (input) EDG_WLL_CREAMSTORE_CMDCANCEL :: int where "EDG_WLL_CREAMSTORE_CMDCANCEL \<equiv> 2"
abbreviation (input) EDG_WLL_CREAMSTORE_CMDPURGE :: int where "EDG_WLL_CREAMSTORE_CMDPURGE \<equiv> 3"
abbreviation (input) EDG_WLL_CREAMSTORE_CMDSUSPEND :: int where "EDG_WLL_CREAMSTORE_CMDSUSPEND \<equiv> 4"
abbreviation (input) EDG_WLL_CREAMSTORE_CMDRESUME :: int where "EDG_WLL_CREAMSTORE_CMDRESUME \<equiv> 5"
abbreviation (input) EDG_WLL_CREAMSTORE_START :: int where "EDG_WLL_CREAMSTORE_START \<equiv> 1"
abbreviation (input) EDG_WLL_CREAMSTORE_OK :: int where "EDG_WLL_CREAMSTORE_OK \<equiv> 2"
abbreviation (input) EDG_WLL_CREAMSTORE_FAILED :: int where "EDG_WLL_CREAMSTORE_FAILED \<equiv> 3"
abbreviation (input) EDG_WLL_CREAMCALL_CMDSTART :: int where "EDG_WLL_CREAMCALL_CMDSTART \<equiv> 1"
abbreviation (input) EDG_WLL_CREAMCALL_CMDCANCEL :: int where "EDG_WLL_CREAMCALL_CMDCANCEL \<equiv> 2"
abbreviation (input) EDG_WLL_CREAMCALL_CMDPURGE :: int where "EDG_WLL_CREAMCALL_CMDPURGE \<equiv> 3"
abbreviation (input) EDG_WLL_CREAMCALL_CMDSUSPEND :: int where "EDG_WLL_CREAMCALL_CMDSUSPEND \<equiv> 4"
abbreviation (input) EDG_WLL_CREAMCALL_CMDRESUME :: int where "EDG_WLL_CREAMCALL_CMDRESUME \<equiv> 5"
abbreviation (input) EDG_WLL_CREAMCALL_START :: int where "EDG_WLL_CREAMCALL_START \<equiv> 1"
abbreviation (input) EDG_WLL_CREAMCALL_OK :: int where "EDG_WLL_CREAMCALL_OK \<equiv> 2"
abbreviation (input) EDG_WLL_CREAMCALL_FAILED :: int where "EDG_WLL_CREAMCALL_FAILED \<equiv> 3"
abbreviation (input) EDG_WLL_CREAMCANCEL_REQ :: int where "EDG_WLL_CREAMCANCEL_REQ \<equiv> 1"
abbreviation (input) EDG_WLL_CREAMCANCEL_REFUSE :: int where "EDG_WLL_CREAMCANCEL_REFUSE \<equiv> 2"
abbreviation (input) EDG_WLL_CREAMCANCEL_DONE :: int where "EDG_WLL_CREAMCANCEL_DONE \<equiv> 3"
abbreviation (input) EDG_WLL_CREAMCANCEL_ABORT :: int where "EDG_WLL_CREAMCANCEL_ABORT \<equiv> 4"
abbreviation (input) EDG_WLL_CREAMSTATUS_ARRIVED :: int where "EDG_WLL_CREAMSTATUS_ARRIVED \<equiv> 1"
abbreviation (input) EDG_WLL_CREAMSTATUS_DONE :: int where "EDG_WLL_CREAMSTATUS_DONE \<equiv> 2"
abbreviation (input) EDG_WLL_FILETRANSFER_START :: int where "EDG_WLL_FILETRANSFER_START \<equiv> 1"
abbreviation (input) EDG_WLL_FILETRANSFER_OK :: int where "EDG_WLL_FILETRANSFER_OK \<equiv> 2"
abbreviation (input) EDG_WLL_FILETRANSFER_FAIL :: int where "EDG_WLL_FILETRANSFER_FAIL \<equiv> 3"
abbreviation (input) EDG_WLL_SANDBOX_INPUT :: int where "EDG_WLL_SANDBOX_INPUT \<equiv> 1"
abbreviation (input) EDG_WLL_SANDBOX_OUTPUT :: int where "EDG_WLL_SANDBOX_OUTPUT \<equiv> 2"
abbreviation (input) EDG_WLL_VMDONE_OK :: int where "EDG_WLL_VMDONE_OK \<equiv> 1"
abbreviation (input) EDG_WLL_VMDONE_DELETE :: int where "EDG_WLL_VMDONE_DELETE \<equiv> 2"
abbreviation (input) EDG_WLL_VMDONE_FAILURE :: int where "EDG_WLL_VMDONE_FAILURE \<equiv> 3"
abbreviation (input) EDG_WLL_EVENT_REGJOB :: int where "EDG_WLL_EVENT_REGJOB \<equiv> 17"

text \<open>Results of event processing (\<^verbatim>\<open>RET_FATAL\<close> is \<^verbatim>\<open>RET_FAIL\<close>).\<close>

datatype ret_code =
    RET_FAIL | RET_OK | RET_SOON | RET_LATE | RET_BADSEQ | RET_SUSPECT | RET_IGNORE
  | RET_BADBRANCH | RET_GOODBRANCH | RET_TOOOLD | RET_UNREG | RET_INTERNAL

section \<open>Events\<close>

record timeval =
  tv_sec :: int
  tv_usec :: int

definition null_timeval :: timeval where
  "null_timeval = \<lparr>tv_sec = 0, tv_usec = 0\<rparr>"

type_synonym tag_value = "string \<times> string"

datatype glite_event =
    EvTransfer (transfer_destination: edg_wll_Source) (transfer_dest_host: cstr)
      (transfer_dest_instance: cstr) (transfer_job: cstr) (transfer_result: int)
      (transfer_reason: cstr) (transfer_dest_jobid: cstr)
  | EvAccepted (accepted_from: edg_wll_Source) (accepted_from_host: cstr)
      (accepted_from_instance: cstr) (accepted_local_jobid: cstr)
  | EvRefused (refused_from: edg_wll_Source) (refused_from_host: cstr)
      (refused_from_instance: cstr) (refused_reason: cstr)
  | EvEnQueued (enQueued_queue: cstr) (enQueued_job: cstr) (enQueued_result: int)
      (enQueued_reason: cstr)
  | EvDeQueued (deQueued_queue: cstr) (deQueued_local_jobid: cstr)
  | EvHelperCall (helperCall_helper_name: cstr) (helperCall_helper_params: cstr)
      (helperCall_src_role: int)
  | EvHelperReturn (helperReturn_helper_name: cstr) (helperReturn_retval: cstr)
      (helperReturn_src_role: int)
  | EvRunning (running_node: cstr)
  | EvResubmission (resubmission_result: int) (resubmission_reason: cstr)
      (resubmission_tag: cstr)
  | EvDone (done_status_code: int) (done_reason: cstr) (done_exit_code: int)
  | EvCancel (cancel_status_code: int) (cancel_reason: cstr)
  | EvAbort (abort_reason: cstr)
  | EvClear (clear_reason: int)
  | EvPurge
  | EvMatch (match_dest_id: cstr)
  | EvPending (pending_reason: cstr)
  | EvRegJob (regJob_jdl: cstr) (regJob_ns: cstr) (regJob_parent: "glite_jobid option")
      (regJob_jobtype: int) (regJob_nsubjobs: int) (regJob_seed: cstr) (regJob_wms_dn: cstr)
  | EvChkpt (chkpt_tag: cstr) (chkpt_classad: cstr)
  | EvListener (listener_svc_name: cstr) (listener_svc_host: cstr) (listener_svc_port: int)
  | EvCurDescr (curDescr_descr: cstr)
  | EvUserTag (userTag_name: cstr) (userTag_value: cstr)
  | EvChangeACL (changeACL_user_id: cstr) (changeACL_user_id_type: int)
      (changeACL_permission: int) (changeACL_permission_type: int) (changeACL_operation: int)
  | EvNotification (notification_notifId: cstr) (notification_owner: cstr)
      (notification_dest_host: cstr) (notification_dest_port: int) (notification_expires: int)
      (notification_jobstat: cstr) (notification_dest_url: cstr)
  | EvResourceUsage (resourceUsage_resource: cstr) (resourceUsage_unit: cstr)
  | EvReallyRunning (reallyRunning_wn_seq: cstr)
  | EvSuspend (suspend_ev_reason: cstr)
  | EvResume (resume_reason: cstr)
  | EvCollectionState (collectionState_state: string) (collectionState_done_code: int)
      (collectionState_histogram: cstr) (collectionState_child: "glite_jobid option")
      (collectionState_child_event: cstr)
  | EvGrantPayloadOwnership (grantPayloadOwnership_payload_owner: cstr)
  | EvTakePayloadOwnership
  | EvConnectJob (connectJob_dest_jobid: cstr) (connectJob_jobtype: int)
  | EvDisconnectJob (disconnectJob_dest_jobid: cstr)

datatype pbs_event =
    EvPBSInternalStateChange (pBSInternalStateChange_oldstate: int)
      (pBSInternalStateChange_oldsubstate: int) (pBSInternalStateChange_newstate: int)
      (pBSInternalStateChange_newsubstate: int)
  | EvPBSTransfer (pBSTransfer_destination: edg_wll_Source) (pBSTransfer_dest_instance: cstr)
      (pBSTransfer_result: int) (pBSTransfer_reason: cstr) (pBSTransfer_dest_jobid: cstr)
  | EvPBSAccepted (pBSAccepted_from: edg_wll_Source) (pBSAccepted_from_instance: cstr)
      (pBSAccepted_local_jobid: cstr)
  | EvPBSRefused (pBSRefused_from: edg_wll_Source) (pBSRefused_from_instance: cstr)
      (pBSRefused_reason: cstr)
  | EvPBSQueued (pBSQueued_queue: cstr) (pBSQueued_name: cstr) (pBSQueued_owner: cstr)
  | EvPBSDequeued
  | EvPBSMatch (pBSMatch_dest_host: cstr)
  | EvPBSPending (pBSPending_reason: cstr)
  | EvPBSWaiting
  | EvPBSRun (pBSRun_scheduler: cstr) (pBSRun_dest_host: cstr) (pBSRun_pid: int)
  | EvPBSRerun
  | EvPBSAbort
  | EvPBSDone (pBSDone_exit_status: int)
  | EvPBSResourceUsage (pBSResourceUsage_usage: int)
      (pBSResourceUsage_resources: "tag_value list option")
  | EvPBSError (pBSError_error_desc: cstr)

datatype condor_event =
    EvCondorMatch (condorMatch_owner: cstr) (condorMatch_dest_host: cstr)
      (condorMatch_preempting: cstr)
  | EvCondorReject (condorReject_owner: cstr) (condorReject_status_code: int)
  | EvCondorShadowStarted (condorShadowStarted_shadow_host: cstr)
      (condorShadowStarted_shadow_port: int) (condorShadowStarted_shadow_pid: int)
      (condorShadowStarted_shadow_status: cstr)
  | EvCondorShadowExited (condorShadowExited_shadow_pid: int)
      (condorShadowExited_shadow_exit_status: int)
  | EvCondorStarterStarted (condorStarterStarted_starter_pid: int)
      (condorStarterStarted_universe: cstr)
  | EvCondorStarterExited (condorStarterExited_starter_pid: int)
      (condorStarterExited_starter_exit_status: int) (condorStarterExited_job_pid: int)
      (condorStarterExited_job_exit_status: int)
  | EvCondorResourceUsage (condorResourceUsage_usage: int) (condorResourceUsage_name: cstr)
      (condorResourceUsage_unit: cstr)
  | EvCondorError (condorError_error_desc: cstr)

datatype cream_event =
    EvCREAMStart
  | EvCREAMPurge
  | EvCREAMAccepted (cREAMAccepted_local_jobid: cstr)
  | EvCREAMStore (cREAMStore_command: int) (cREAMStore_cmdid: cstr) (cREAMStore_result: int)
      (cREAMStore_reason: cstr)
  | EvCREAMCall (cREAMCall_callee: edg_wll_Source) (cREAMCall_command: int)
      (cREAMCall_cmdid: cstr) (cREAMCall_destid: cstr) (cREAMCall_result: int)
      (cREAMCall_reason: cstr)
  | EvCREAMRunning (cREAMRunning_node: cstr)
  | EvCREAMReallyRunning
  | EvCREAMDone (cREAMDone_status_code: int) (cREAMDone_reason: cstr)
      (cREAMDone_exit_code: cstr)
  | EvCREAMCancel (cREAMCancel_status_code: int) (cREAMCancel_reason: cstr)
  | EvCREAMAbort (cREAMAbort_reason: cstr)
  | EvCREAMStatus (cREAMStatus_old_state: cstr) (cREAMStatus_new_state: string)
      (cREAMStatus_orig_timestamp: timeval) (cREAMStatus_result: int) (cREAMStatus_descr: cstr)
      (cREAMStatus_exit_code: cstr) (cREAMStatus_failure_reason: cstr)
      (cREAMStatus_worker_node: cstr) (cREAMStatus_LRMS_jobid: cstr)
  | EvCREAMSuspend (cREAMSuspend_status_code: int) (cREAMSuspend_reason: cstr)
  | EvCREAMResume (cREAMResume_status_code: int) (cREAMResume_reason: cstr)

datatype transfer_event =
    EvFileTransferRegister (fileTransferRegister_src: cstr) (fileTransferRegister_dest: cstr)
  | EvFileTransfer (fileTransfer_result: int) (fileTransfer_reason: cstr)
  | EvSandbox (sandbox_sandbox_type: int) (sandbox_transfer_job: cstr)
      (sandbox_compute_job: cstr)

datatype vm_event =
    EvVMCreate (vMCreate_require: cstr) (vMCreate_id: cstr) (vMCreate_name: cstr)
      (vMCreate_owner: cstr) (vMCreate_hostname: cstr) (vMCreate_manager: cstr)
      (vMCreate_image: cstr)
  | EvVMHost (vMHost_hostname: cstr)
  | EvVMImage (vMImage_image: cstr)
  | EvVMRunning
  | EvVMShutdown (vMShutdown_usage: cstr)
  | EvVMStop
  | EvVMResume
  | EvVMDone (vMDone_status_code: int) (vMDone_usage: cstr)

datatype event_body =
    EvUndef
  | EvGlite glite_event
  | EvPbs pbs_event
  | EvCondor condor_event
  | EvCream cream_event
  | EvFt transfer_event
  | EvVm vm_event

record edg_wll_Event =
  any_timestamp :: timeval
  any_arrived :: timeval
  any_host :: cstr
  any_level :: int
  any_priority :: int
  any_jobId :: "glite_jobid option"
  any_seqcode :: string
  any_user :: cstr
  any_source :: edg_wll_Source
  any_src_instance :: cstr
  ev_body :: event_body

section \<open>Job status\<close>

record jobstat_common =
  state :: int
  jobId :: "glite_jobid option"
  owner :: cstr
  jobtype :: int
  parent_job :: "glite_jobid option"
  seed :: cstr
  children_num :: int
  children :: "string list option"
  children_hist :: "int list option"
  condorId :: cstr
  globusId :: cstr
  localId :: cstr
  jdl :: cstr
  matched_jdl :: cstr
  destination :: cstr
  condor_jdl :: cstr
  rsl :: cstr
  reason :: cstr
  location :: cstr
  ce_node :: cstr
  network_server :: cstr
  subjob_failed :: int
  done_code :: int
  exit_code :: int
  resubmitted :: int
  cancelling :: int
  cancelReason :: cstr
  cpuTime :: int
  user_tags :: "tag_value list option"
  stateEnterTime :: timeval
  lastUpdateTime :: timeval
  stateEnterTimes :: "int list option"
  expectUpdate :: int
  expectFrom :: cstr
  acl :: cstr
  payload_running :: int
  possible_destinations :: "string list option"
  possible_ce_nodes :: "string list option"
  suspended :: int
  suspend_reason :: cstr
  failure_reasons :: cstr
  remove_from_proxy :: int
  ui_host :: cstr
  user_fqans :: "string list option"
  sandbox_retrieved :: int
  jw_status :: int
  isb_transfer :: "glite_jobid option"
  osb_transfer :: "glite_jobid option"
  payload_owner :: cstr
  access_rights :: cstr
  history :: cstr

record jobstat_pbs = jobstat_common +
  pbs_state :: cstr
  pbs_substate :: int
  pbs_queue :: cstr
  pbs_owner :: cstr
  pbs_name :: cstr
  pbs_reason :: cstr
  pbs_scheduler :: cstr
  pbs_dest_host :: cstr
  pbs_pid :: int
  pbs_resource_requested :: "tag_value list option"
  pbs_resource_usage :: "tag_value list option"
  pbs_exit_status :: int
  pbs_error_desc :: cstr

record jobstat_condor = jobstat_pbs +
  condor_status :: cstr
  condor_universe :: cstr
  condor_owner :: cstr
  condor_preempting :: cstr
  condor_shadow_pid :: int
  condor_shadow_exit_status :: int
  condor_starter_pid :: int
  condor_starter_exit_status :: int
  condor_job_pid :: int
  condor_job_exit_status :: int
  condor_dest_host :: cstr
  condor_reason :: cstr
  condor_error_desc :: cstr

record jobstat_cream = jobstat_condor +
  cream_state :: int
  cream_id :: cstr
  cream_owner :: cstr
  cream_endpoint :: cstr
  cream_jdl :: cstr
  cream_reason :: cstr
  cream_failure_reason :: cstr
  cream_lrms_id :: cstr
  cream_node :: cstr
  cream_done_code :: int
  cream_exit_code :: int
  cream_cancelling :: int
  cream_cpu_time :: int
  cream_jw_status :: int

record jobstat_ft = jobstat_cream +
  ft_compute_job :: "glite_jobid option"
  ft_sandbox_type :: int
  ft_src :: cstr
  ft_dest :: cstr

record edg_wll_JobStat = jobstat_ft +
  vm_state :: int
  vm_image :: cstr
  vm_require :: cstr
  vm_usage :: cstr
  vm_hostname :: cstr
  vm_machine :: cstr
  vm_id :: cstr
  vm_name :: cstr
  vm_phy_hostname :: cstr
  vm_system_halting :: int
  vm_manager :: cstr

text \<open>
  One branch of a shallow resubmission. The C array ends with an element whose
  \<^verbatim>\<open>branch\<close> is 0; the list holds the elements before it.
\<close>

record branch_state =
  branch :: int
  bs_destination :: cstr
  bs_ce_node :: cstr
  bs_jdl :: cstr

record intJobStat = edg_wll_JobStat +
  resubmit_type :: int
  last_seqcode :: cstr
  last_cancel_seqcode :: cstr
  branch_tag_seqcode :: cstr
  last_branch_seqcode :: cstr
  deep_resubmit_seqcode :: cstr
  branch_states :: "branch_state list option"
  last_pbs_event_timestamp :: timeval
  pbs_reruning :: int
  tag_seq_codes :: "string list option"
  payload_owner_pending :: cstr
  payload_owner_unconfirmed :: cstr

text \<open>\<^verbatim>\<open>edg_wll_InitStatus\<close>: every field at its null value.\<close>

definition edg_wll_InitStatus :: edg_wll_JobStat where
  "edg_wll_InitStatus =
     \<lparr>state = 0, jobId = None, owner = None, jobtype = - 1, parent_job = None, seed = None,
       children_num = 0, children = None, children_hist = None, condorId = None, globusId =
       None, localId = None, jdl = None, matched_jdl = None, destination = None, condor_jdl =
       None, rsl = None, reason = None, location = None, ce_node = None, network_server = None,
       subjob_failed = 0, done_code = - 1, exit_code = 0, resubmitted = 0, cancelling = 0,
       cancelReason = None, cpuTime = - 1, user_tags = None, stateEnterTime = null_timeval,
       lastUpdateTime = null_timeval, stateEnterTimes = None, expectUpdate = 0, expectFrom =
       None, acl = None, payload_running = 0, possible_destinations = None, possible_ce_nodes =
       None, suspended = 0, suspend_reason = None, failure_reasons = None, remove_from_proxy =
       0, ui_host = None, user_fqans = None, sandbox_retrieved = 0, jw_status = 0, isb_transfer
       = None, osb_transfer = None, payload_owner = None, access_rights = None, history = None,
       pbs_state = None, pbs_substate = 0, pbs_queue = None, pbs_owner = None, pbs_name = None,
       pbs_reason = None, pbs_scheduler = None, pbs_dest_host = None, pbs_pid = 0,
       pbs_resource_requested = None, pbs_resource_usage = None, pbs_exit_status = 0,
       pbs_error_desc = None, condor_status = None, condor_universe = None, condor_owner = None,
       condor_preempting = None, condor_shadow_pid = 0, condor_shadow_exit_status = 0,
       condor_starter_pid = 0, condor_starter_exit_status = 0, condor_job_pid = 0,
       condor_job_exit_status = 0, condor_dest_host = None, condor_reason = None,
       condor_error_desc = None, cream_state = - 1, cream_id = None, cream_owner = None,
       cream_endpoint = None, cream_jdl = None, cream_reason = None, cream_failure_reason =
       None, cream_lrms_id = None, cream_node = None, cream_done_code = - 1, cream_exit_code = -
       1, cream_cancelling = 0, cream_cpu_time = 0, cream_jw_status = - 1, ft_compute_job =
       None, ft_sandbox_type = - 1, ft_src = None, ft_dest = None, vm_state = - 1, vm_image =
       None, vm_require = None, vm_usage = None, vm_hostname = None, vm_machine = None, vm_id =
       None, vm_name = None, vm_phy_hostname = None, vm_system_halting = 0, vm_manager = None\<rparr>"

text \<open>A zero-filled structure (\<^verbatim>\<open>memset\<close>, \<^verbatim>\<open>calloc\<close>).\<close>

definition zero_intJobStat :: intJobStat where
  "zero_intJobStat =
     \<lparr>state = 0, jobId = None, owner = None, jobtype = 0, parent_job = None, seed = None,
       children_num = 0, children = None, children_hist = None, condorId = None, globusId =
       None, localId = None, jdl = None, matched_jdl = None, destination = None, condor_jdl =
       None, rsl = None, reason = None, location = None, ce_node = None, network_server = None,
       subjob_failed = 0, done_code = 0, exit_code = 0, resubmitted = 0, cancelling = 0,
       cancelReason = None, cpuTime = 0, user_tags = None, stateEnterTime = null_timeval,
       lastUpdateTime = null_timeval, stateEnterTimes = None, expectUpdate = 0, expectFrom =
       None, acl = None, payload_running = 0, possible_destinations = None, possible_ce_nodes =
       None, suspended = 0, suspend_reason = None, failure_reasons = None, remove_from_proxy =
       0, ui_host = None, user_fqans = None, sandbox_retrieved = 0, jw_status = 0, isb_transfer
       = None, osb_transfer = None, payload_owner = None, access_rights = None, history = None,
       pbs_state = None, pbs_substate = 0, pbs_queue = None, pbs_owner = None, pbs_name = None,
       pbs_reason = None, pbs_scheduler = None, pbs_dest_host = None, pbs_pid = 0,
       pbs_resource_requested = None, pbs_resource_usage = None, pbs_exit_status = 0,
       pbs_error_desc = None, condor_status = None, condor_universe = None, condor_owner = None,
       condor_preempting = None, condor_shadow_pid = 0, condor_shadow_exit_status = 0,
       condor_starter_pid = 0, condor_starter_exit_status = 0, condor_job_pid = 0,
       condor_job_exit_status = 0, condor_dest_host = None, condor_reason = None,
       condor_error_desc = None, cream_state = 0, cream_id = None, cream_owner = None,
       cream_endpoint = None, cream_jdl = None, cream_reason = None, cream_failure_reason =
       None, cream_lrms_id = None, cream_node = None, cream_done_code = 0, cream_exit_code = 0,
       cream_cancelling = 0, cream_cpu_time = 0, cream_jw_status = 0, ft_compute_job = None,
       ft_sandbox_type = 0, ft_src = None, ft_dest = None, vm_state = 0, vm_image = None,
       vm_require = None, vm_usage = None, vm_hostname = None, vm_machine = None, vm_id = None,
       vm_name = None, vm_phy_hostname = None, vm_system_halting = 0, vm_manager = None,
       resubmit_type = 0, last_seqcode = None, last_cancel_seqcode = None, branch_tag_seqcode =
       None, last_branch_seqcode = None, deep_resubmit_seqcode = None, branch_states = None,
       last_pbs_event_timestamp = null_timeval, pbs_reruning = 0, tag_seq_codes = None,
       payload_owner_pending = None, payload_owner_unconfirmed = None\<rparr>"

text \<open>
  \<^verbatim>\<open>init_intJobStat\<close>: clear everything, initialise the public part, then mark the job type
  as unknown and allocate the two arrays whose element 0 holds their length.
\<close>

definition init_intJobStat :: intJobStat where
  "init_intJobStat =
     (edg_wll_JobStat.extend edg_wll_InitStatus
        (intJobStat.fields 0 None None None None None None null_timeval 0 None None None))
       \<lparr>jobtype := - 1,
        children_hist := Some (EDG_WLL_NUMBER_OF_STATCODES # replicate 12 0),
        stateEnterTimes := Some (EDG_WLL_NUMBER_OF_STATCODES # replicate 12 0)\<rparr>"

definition intJobStat_to_JobStat :: "intJobStat \<Rightarrow> edg_wll_JobStat" where
  "intJobStat_to_JobStat js = edg_wll_JobStat.truncate js"

section \<open>Names of states\<close>

definition statNames :: "string list" where
  "statNames =
     [''Undefined'', ''Submitted'', ''Waiting'', ''Ready'', ''Scheduled'', ''Running'', ''Done'',
      ''Cleared'', ''Aborted'', ''Cancelled'', ''Unknown'', ''Purged'']"

text \<open>An unknown name gives \<^verbatim>\<open>(edg_wll_JobStatCode) -1\<close>.\<close>

definition edg_wll_StringToStat :: "string \<Rightarrow> int" where
  "edg_wll_StringToStat name =
     (case find_name name statNames 0 of None \<Rightarrow> - 1 | Some i \<Rightarrow> int i)"

definition edg_wll_StatToString :: "int \<Rightarrow> cstr" where
  "edg_wll_StatToString statCode =
     (if statCode < 0 \<or> statCode \<ge> int (length statNames) then None
      else Some (statNames ! nat statCode))"

definition cream_statNames :: "string list" where
  "cream_statNames =
     [''registered'', ''pending'', ''idle'', ''running'', ''really-running'', ''held'', ''done-ok'',
      ''done-failed'', ''aborted'', ''cancelled'', ''purged'']"

definition edg_wll_StringToCreamStat :: "string \<Rightarrow> int" where
  "edg_wll_StringToCreamStat name =
     (case find_name name cream_statNames 0 of None \<Rightarrow> - 1 | Some i \<Rightarrow> int i)"

lemma find_name_bounds: "find_name name xs i = Some k \<Longrightarrow> i \<le> k \<and> k < i + length xs"
proof (induction xs arbitrary: i)
  case (Cons x xs)
  then show ?case
    by (cases "strcaseeq x name") (fastforce dest: Cons.IH)+
qed simp

lemma StringToStat_range: "- 1 \<le> edg_wll_StringToStat name \<and> edg_wll_StringToStat name < 12"
  using find_name_bounds [of name statNames 0]
  by (auto simp: edg_wll_StringToStat_def statNames_def split: option.splits)

lemma edg_wll_Sources_nth: "edg_wll_Sources ! source_index s = s"
  by (cases s) (simp_all add: edg_wll_Sources_def)

text \<open>The fields of the initial status that processing consults.\<close>

lemma init_intJobStat_fields [simp]:
  "state init_intJobStat = 0" "jobtype init_intJobStat = - 1"
  "stateEnterTimes init_intJobStat = Some (12 # replicate 12 0)"
  "children_hist init_intJobStat = Some (12 # replicate 12 0)"
  "user_tags init_intJobStat = None" "tag_seq_codes init_intJobStat = None"
  "last_seqcode init_intJobStat = None" "last_cancel_seqcode init_intJobStat = None"
  "branch_tag_seqcode init_intJobStat = None" "last_branch_seqcode init_intJobStat = None"
  "deep_resubmit_seqcode init_intJobStat = None" "branch_states init_intJobStat = None"
  "payload_owner_pending init_intJobStat = None" "payload_owner_unconfirmed init_intJobStat = None"
  "network_server init_intJobStat = None" "location init_intJobStat = None"
  "last_pbs_event_timestamp init_intJobStat = null_timeval" "pbs_reruning init_intJobStat = 0"
  by (simp_all add: init_intJobStat_def edg_wll_InitStatus_def edg_wll_JobStat.defs intJobStat.defs)

end
