(* ===== verification/LB_Seqcode.thy ===== *)
theory LB_Seqcode
  imports LB_Types "HOL-Library.Multiset"
begin

text \<open>
  Sequence codes (\<^verbatim>\<open>org.glite.lb.state-machine/src/seqcode_aux.c\<close>, formats from
  \<^verbatim>\<open>org.glite.lb.common/interface/context-int.h\<close>): scanning and printing, reading and
  replacing one component, the three comparison functions, the order of events, and the
  list of user tags, which keeps for every tag the value with the newest code.

  Components are 32-bit unsigned words, scanned and printed as signed decimal numbers.
  \<^verbatim>\<open>edg_wll_compare_pbs_seq\<close> compares one array element more than it has scanned; the two
  indeterminate values are the argument \<open>junk\<close>, a function of the compared codes. The
  scanning of Condor codes stores one byte more than its buffers hold (see
  \<open>condor_scan_lengths\<close>); the model gives what the code computes where that byte does no
  harm.
\<close>

section \<open>Formats\<close>

abbreviation EDG_WLL_SEQ_NULL :: string where
  "EDG_WLL_SEQ_NULL \<equiv>
     ''UI=000000:NS=0000000000:WM=000000:BH=0000000000:JSS=000000:LM=000000:LRMS=000000:APP=000000:LBS=000000''"

definition EDG_WLL_SEQ_SIZE :: nat where
  "EDG_WLL_SEQ_SIZE = length EDG_WLL_SEQ_NULL + 1"

definition EDG_WLL_SEQ_CONDOR_SIZE :: nat where
  "EDG_WLL_SEQ_CONDOR_SIZE =
     length ''CLIENT=000000:SERVER=0000000000:SCHED=000000:SMOM=000000:MOM=000000'' + 1"

definition seq_labels :: "string list" where
  "seq_labels =
     [''UI='', '':NS='', '':WM='', '':BH='', '':JSS='', '':LM='', '':LRMS='', '':APP='', '':LBS='']"

definition seq_widths :: "nat list" where
  "seq_widths = [6, 10, 6, 10, 6, 6, 6, 6, 6]"

definition pbs_labels :: "string list" where
  "pbs_labels = [''CLIENT='', '':SERVER='', '':SCHED='', '':SMOM='', '':MOM='']"

definition pbs_widths :: "nat list" where
  "pbs_widths = [6, 10, 6, 6, 6]"

text \<open>
  \<^verbatim>\<open>sscanf\<close> with a format of labels each followed by \<^verbatim>\<open>%d\<close>: the values converted before
  the first mismatch (its result is their number).
\<close>

fun sscanf_ints :: "string list \<Rightarrow> string \<Rightarrow> 32 word list" where
  "sscanf_ints [] s = []"
| "sscanf_ints (l # ls) s =
     (if take (length l) s = l then
        (case scan_int (drop (length l) s) of
           None \<Rightarrow> []
         | Some (v, r) \<Rightarrow> word_of_int v # sscanf_ints ls r)
      else [])"

fun sprintf_ints :: "string list \<Rightarrow> nat list \<Rightarrow> 32 word list \<Rightarrow> string" where
  "sprintf_ints (l # ls) (w # ws) (c # cs) = l @ show_pad w (sint c) @ sprintf_ints ls ws cs"
| "sprintf_ints _ _ _ = []"

definition seq_parse :: "string \<Rightarrow> 32 word list option" where
  "seq_parse s = (let c = sscanf_ints seq_labels s in if length c = 9 then Some c else None)"

definition seq_print :: "32 word list \<Rightarrow> string" where
  "seq_print c = sprintf_ints seq_labels seq_widths c"

text \<open>Codes from before the LB server component get one that is 0; the buffer is bounded.\<close>

definition with_lbs :: "string \<Rightarrow> string" where
  "with_lbs a =
     snprintf_trunc EDG_WLL_SEQ_SIZE (if strstr a ''LBS'' = None then a @ '':LBS=000000'' else a)"

section \<open>Components\<close>

text \<open>
  The array element of a source. Callers pass only the nine sources that have one; for
  any other the C code reads an element it never set.
\<close>

definition seq_component :: "32 word list \<Rightarrow> edg_wll_Source \<Rightarrow> 32 word" where
  "seq_component c index =
     (let i = source_index index in if 1 \<le> i \<and> i \<le> 9 then c ! (i - 1) else undefined)"

definition component_seqcode :: "string \<Rightarrow> edg_wll_Source \<Rightarrow> int" where
  "component_seqcode a index =
     (case seq_parse (with_lbs a) of None \<Rightarrow> - 1 | Some c \<Rightarrow> sint (seq_component c index))"

definition set_component_seqcode :: "string \<Rightarrow> edg_wll_Source \<Rightarrow> int \<Rightarrow> cstr" where
  "set_component_seqcode a index val =
     (case seq_parse (with_lbs a) of
        None \<Rightarrow> None
      | Some c \<Rightarrow>
          let i = source_index index
          in Some (seq_print (if 1 \<le> i \<and> i \<le> 9 then c[i - 1 := word_of_int val] else c)))"

definition before_deep_resubmission :: "string \<Rightarrow> string \<Rightarrow> bool" where
  "before_deep_resubmission a b \<longleftrightarrow>
     component_seqcode a SOURCE_WORKLOAD_MANAGER < component_seqcode b SOURCE_WORKLOAD_MANAGER"

definition same_branch :: "string \<Rightarrow> string \<Rightarrow> bool" where
  "same_branch a b \<longleftrightarrow>
     component_seqcode a SOURCE_WORKLOAD_MANAGER = component_seqcode b SOURCE_WORKLOAD_MANAGER"

section \<open>Comparison\<close>

fun cmp_words :: "32 word list \<Rightarrow> 32 word list \<Rightarrow> int" where
  "cmp_words (x # xs) (y # ys) = (if x < y then - 1 else if y < x then 1 else cmp_words xs ys)"
| "cmp_words _ _ = 0"

type_synonym junk = "string \<Rightarrow> string \<Rightarrow> 32 word \<times> 32 word"

definition edg_wll_compare_pbs_seq :: "junk \<Rightarrow> string \<Rightarrow> string \<Rightarrow> int" where
  "edg_wll_compare_pbs_seq junk a b =
     (let c = sscanf_ints pbs_labels a in
      if length c \<noteq> 5 then - 1
      else let d = sscanf_ints pbs_labels b in
           if length d \<noteq> 5 then - 1
           else cmp_words (c @ [fst (junk a b)]) (d @ [snd (junk a b)]))"

datatype edg_wll_CondorEventSource =
    CONDOR_EVENT_SOURCE_UNDEF | CONDOR_EVENT_SOURCE_COLLECTOR | CONDOR_EVENT_SOURCE_MASTER
  | CONDOR_EVENT_SOURCE_MATCH | CONDOR_EVENT_SOURCE_NEGOTIATOR | CONDOR_EVENT_SOURCE_SCHED
  | CONDOR_EVENT_SOURCE_SHADOW | CONDOR_EVENT_SOURCE_STARTER | CONDOR_EVENT_SOURCE_START
  | CONDOR_EVENT_SOURCE_JOBQUEUE

definition condor_source_of :: "char \<Rightarrow> edg_wll_CondorEventSource" where
  "condor_source_of ch =
     (if ch = CHR ''L'' then CONDOR_EVENT_SOURCE_COLLECTOR
      else if ch = CHR ''M'' then CONDOR_EVENT_SOURCE_MASTER
      else if ch = CHR ''m'' then CONDOR_EVENT_SOURCE_MATCH
      else if ch = CHR ''N'' then CONDOR_EVENT_SOURCE_NEGOTIATOR
      else if ch = CHR ''C'' then CONDOR_EVENT_SOURCE_SCHED
      else if ch = CHR ''H'' then CONDOR_EVENT_SOURCE_SHADOW
      else if ch = CHR ''s'' then CONDOR_EVENT_SOURCE_STARTER
      else if ch = CHR ''S'' then CONDOR_EVENT_SOURCE_START
      else if ch = CHR ''j'' then CONDOR_EVENT_SOURCE_JOBQUEUE
      else CONDOR_EVENT_SOURCE_UNDEF)"

text \<open>Index \<^verbatim>\<open>EDG_WLL_SEQ_CONDOR_SIZE - 2\<close>; the character after the last one is the NUL.\<close>

definition get_condor_event_source :: "string \<Rightarrow> edg_wll_CondorEventSource res" where
  "get_condor_event_source s =
     (let i = EDG_WLL_SEQ_CONDOR_SIZE - 2 in
      if i < length s then Inr (condor_source_of (s ! i))
      else if i = length s then Inr CONDOR_EVENT_SOURCE_UNDEF
      else Inl Out_of_bounds)"

text \<open>\<^verbatim>\<open>%ws\<close>, \<^verbatim>\<open>%wd\<close> with a maximal field width, and \<^verbatim>\<open>%c\<close>.\<close>

definition scan_token :: "nat \<Rightarrow> string \<Rightarrow> (string \<times> string) option" where
  "scan_token w s0 =
     (let s = dropWhile isspace s0;
          t = takeWhile (\<lambda>c. \<not> isspace c) (take w s)
      in if t = [] then None else Some (t, drop (length t) s))"

definition scan_int_width :: "nat \<Rightarrow> string \<Rightarrow> (int \<times> string) option" where
  "scan_int_width w s0 =
     (let s = dropWhile isspace s0 in
      case scan_int (take w s) of None \<Rightarrow> None | Some (v, r) \<Rightarrow> Some (v, r @ drop w s))"

definition scan_label :: "string \<Rightarrow> string \<Rightarrow> string option" where
  "scan_label l s = (if take (length l) s = l then Some (drop (length l) s) else None)"

definition scan_char :: "string \<Rightarrow> char option" where
  "scan_char s = (case s of [] \<Rightarrow> None | ch # _ \<Rightarrow> Some ch)"

definition condor_scan :: "string \<Rightarrow> (string \<times> string \<times> int \<times> char) option" where
  "condor_scan s =
     Option.bind (scan_label ''TIMESTAMP='' s) (\<lambda>s1.
     Option.bind (scan_token 14 s1) (\<lambda>(ts, s2).
     Option.bind (scan_label '':POS='' s2) (\<lambda>s3.
     Option.bind (scan_token 10 s3) (\<lambda>(pos, s4).
     Option.bind (scan_label '':EV.CODE='' s4) (\<lambda>s5.
     Option.bind (scan_int_width 3 s5) (\<lambda>(code, s6).
     Option.bind (scan_label '':SRC='' s6) (\<lambda>s7.
     Option.bind (scan_char s7) (\<lambda>ch. Some (ts, pos, code, ch)))))))))"

definition edg_wll_compare_condor_seq :: "string \<Rightarrow> string \<Rightarrow> int" where
  "edg_wll_compare_condor_seq a b =
     (case condor_scan a of
        None \<Rightarrow> - 1
      | Some (timestamp_a, pos_a, ev_code_a, src_a) \<Rightarrow>
          (case condor_scan b of
             None \<Rightarrow> - 1
           | Some (timestamp_b, pos_b, ev_code_b, src_b) \<Rightarrow>
               if ev_code_a = EDG_WLL_EVENT_REGJOB then - 1
               else if ev_code_b = EDG_WLL_EVENT_REGJOB then 1
               else if strcmp timestamp_a timestamp_b \<noteq> 0 then strcmp timestamp_a timestamp_b
               else if src_a = src_b then strcmp pos_a pos_b
               else if src_a = CHR ''m'' then 1
               else if src_b = CHR ''m'' then - 1
               else if src_a = CHR ''s'' then 1
               else if src_b = CHR ''s'' then - 1
               else 0))"

definition edg_wll_compare_seq :: "junk \<Rightarrow> string \<Rightarrow> string \<Rightarrow> int" where
  "edg_wll_compare_seq junk a b =
     (if strstr a ''SMOM='' \<noteq> None \<and> strstr b ''SMOM='' \<noteq> None then edg_wll_compare_pbs_seq junk a b
      else
        (case seq_parse (with_lbs a) of
           None \<Rightarrow> - 1
         | Some c \<Rightarrow>
             (case seq_parse (with_lbs b) of
                None \<Rightarrow> 1
              | Some d \<Rightarrow> cmp_words c d)))"

definition compare_events_by_seq :: "junk \<Rightarrow> edg_wll_Event \<Rightarrow> edg_wll_Event \<Rightarrow> int" where
  "compare_events_by_seq junk e f =
     (let ret = edg_wll_compare_seq junk (any_seqcode e) (any_seqcode f) in
      if ret \<noteq> 0 then ret
      else if tv_sec (any_timestamp e) < tv_sec (any_timestamp f) then - 1
      else if tv_sec (any_timestamp e) > tv_sec (any_timestamp f) then 1
      else if tv_usec (any_timestamp e) < tv_usec (any_timestamp f) then - 1
      else if tv_usec (any_timestamp e) > tv_usec (any_timestamp f) then 1
      else 0)"

section \<open>User tags\<close>

fun find_tag :: "string \<Rightarrow> tag_value list \<Rightarrow> nat option" where
  "find_tag n [] = None"
| "find_tag n ((t, v) # ts) = (if strcaseeq t n then Some 0 else map_option Suc (find_tag n ts))"

text \<open>
  The codes are a second array beside the tags. Where it is missing or shorter than the
  tags, the C code dereferences a null pointer or an element that was never set.
\<close>

definition add_taglist ::
  "junk \<Rightarrow> string \<Rightarrow> string \<Rightarrow> string \<Rightarrow> intJobStat \<Rightarrow> intJobStat res" where
  "add_taglist junk new_item new_item2 seq_code js =
     (case user_tags js of
        None \<Rightarrow>
          Inr (js\<lparr>user_tags := Some [(new_item, new_item2)], tag_seq_codes := Some [seq_code]\<rparr>)
      | Some tags \<Rightarrow>
          rbind (deref (tag_seq_codes js)) (\<lambda>codes.
            case find_tag new_item tags of
              Some i \<Rightarrow>
                if length codes \<le> i then Inl Null_deref
                else if edg_wll_compare_seq junk seq_code (codes ! i) = 1 then
                  Inr (js\<lparr>user_tags := Some (tags[i := (fst (tags ! i), new_item2)]),
                          tag_seq_codes := Some (codes[i := seq_code])\<rparr>)
                else Inr js
            | None \<Rightarrow>
                if length codes \<noteq> length tags then Inl Out_of_bounds
                else
                  Inr (js\<lparr>user_tags := Some (tags @ [(new_item, new_item2)]),
                          tag_seq_codes := Some (codes @ [seq_code])\<rparr>)))"

section \<open>Scanning what was printed\<close>

definition label_ok :: "string \<Rightarrow> bool" where
  "label_ok l \<longleftrightarrow> l \<noteq> [] \<and> \<not> is_digit (hd l)"

lemma labels_ok [simp]: "list_all label_ok seq_labels" "list_all label_ok pbs_labels"
  by (simp_all add: seq_labels_def pbs_labels_def label_ok_def is_digit_def)

lemma no_digit_head_sprintf:
  "list_all label_ok ls \<Longrightarrow> no_digit_head r \<Longrightarrow> no_digit_head (sprintf_ints ls ws cs @ r)"
proof (induction ls ws cs rule: sprintf_ints.induct)
  case (1 l ls w ws c cs)
  then show ?case by (cases l) (auto simp: label_ok_def)
qed simp_all

lemma sscanf_sprintf:
  "list_all label_ok ls \<Longrightarrow> length ws = length ls \<Longrightarrow> length cs = length ls \<Longrightarrow> no_digit_head r \<Longrightarrow>
   sscanf_ints ls (sprintf_ints ls ws cs @ r) = cs"
proof (induction ls ws cs rule: sprintf_ints.induct)
  case (1 l ls w ws c cs)
  then have "scan_int (show_pad w (sint c) @ sprintf_ints ls ws cs @ r) =
      Some (sint c, sprintf_ints ls ws cs @ r)"
    by (intro scan_int_show_pad no_digit_head_sprintf) simp_all
  with 1 show ?case by simp
qed auto

lemma seq_parse_print: "length c = 9 \<Longrightarrow> seq_parse (seq_print c) = Some c"
  using sscanf_sprintf [of seq_labels seq_widths c "[]"]
  by (simp add: seq_parse_def seq_print_def seq_labels_def [THEN arg_cong, of length]
      seq_widths_def [THEN arg_cong, of length])

lemma length_seq_parse: "seq_parse s = Some c \<Longrightarrow> length c = 9"
  by (auto simp: seq_parse_def Let_def split: if_splits)

text \<open>Components that fit the printed field widths.\<close>

definition seq_bounded :: "32 word list \<Rightarrow> bool" where
  "seq_bounded c \<longleftrightarrow> list_all2 (\<lambda>w x. 0 \<le> sint x \<and> sint x < 10 ^ w) seq_widths c"

lemma length_sprintf_ints:
  "length ws = length ls \<Longrightarrow> list_all2 (\<lambda>w x. 0 \<le> sint x \<and> sint x < 10 ^ w) ws cs \<Longrightarrow>
   list_all (\<lambda>w. 0 < w) ws \<Longrightarrow>
   length (sprintf_ints ls ws cs) = sum_list (map length ls) + sum_list ws"
proof (induction ls ws cs rule: sprintf_ints.induct)
  case (1 l ls w ws c cs)
  then show ?case by (simp add: length_show_pad)
qed auto

lemma length_seq_print: "seq_bounded c \<Longrightarrow> length (seq_print c) = EDG_WLL_SEQ_SIZE - 1"
  using length_sprintf_ints [of seq_widths seq_labels c]
  by (simp add: seq_bounded_def seq_print_def seq_labels_def seq_widths_def EDG_WLL_SEQ_SIZE_def)

lemma strstr_infix: "strstr (xs @ n @ ys) n \<noteq> None"
proof (induction xs)
  case Nil
  have "take (length n) (n @ ys) = n" by simp
  then show ?case by (cases "n @ ys") (auto simp del: take_append)
next
  case (Cons x xs)
  then show ?case by auto
qed

lemma sprintf_ints_has_label:
  "l \<in> set ls \<Longrightarrow> length ws = length ls \<Longrightarrow> length cs = length ls \<Longrightarrow>
   \<exists>u v. sprintf_ints ls ws cs = u @ l @ v"
proof (induction ls ws cs rule: sprintf_ints.induct)
  case (1 l' ls w ws c cs)
  show ?case
  proof (cases "l = l'")
    case True
    then have "sprintf_ints (l' # ls) (w # ws) (c # cs) = [] @ l @ (show_pad w (sint c) @ sprintf_ints ls ws cs)"
      by simp
    then show ?thesis by blast
  next
    case False
    with 1 obtain u v where "sprintf_ints ls ws cs = u @ l @ v" by auto
    then have "sprintf_ints (l' # ls) (w # ws) (c # cs) = (l' @ show_pad w (sint c) @ u) @ l @ v"
      by simp
    then show ?thesis by blast
  qed
qed auto

lemma strstr_seq_print: "length c = 9 \<Longrightarrow> strstr (seq_print c) ''LBS'' \<noteq> None"
proof -
  assume "length c = 9"
  then obtain u v where "seq_print c = u @ '':LBS='' @ v"
    using sprintf_ints_has_label [of "'':LBS=''" seq_labels seq_widths c]
    by (auto simp: seq_print_def seq_labels_def seq_widths_def)
  then have "seq_print c = (u @ '':'') @ ''LBS'' @ (''='' @ v)" by simp
  then show ?thesis by (metis strstr_infix)
qed

lemma with_lbs_seq_print:
  "seq_bounded c \<Longrightarrow> with_lbs (seq_print c) = seq_print c"
proof -
  assume b: "seq_bounded c"
  then have "length c = 9" by (auto simp: seq_bounded_def seq_widths_def dest: list_all2_lengthD)
  then have "strstr (seq_print c) ''LBS'' \<noteq> None" by (rule strstr_seq_print)
  then show ?thesis
    using length_seq_print [OF b] by (simp add: with_lbs_def snprintf_trunc_def EDG_WLL_SEQ_SIZE_def)
qed

lemma seq_bounded_length: "seq_bounded c \<Longrightarrow> length c = 9"
  by (auto simp: seq_bounded_def seq_widths_def dest: list_all2_lengthD)

lemma component_seq_print:
  "seq_bounded c \<Longrightarrow> component_seqcode (seq_print c) i = sint (seq_component c i)"
  by (simp add: component_seqcode_def with_lbs_seq_print seq_parse_print seq_bounded_length)

section \<open>Codes as an order\<close>

text \<open>
  What the consumers of sequence codes rely on: on the codes that can be compared the
  comparison is a total preorder, given by a sign.
\<close>

locale seq_order =
  fixes cmp :: "'a \<Rightarrow> 'a \<Rightarrow> int" and ok :: "'a \<Rightarrow> bool"
  assumes cmp_range: "ok a \<Longrightarrow> ok b \<Longrightarrow> cmp a b \<in> {- 1, 0, 1}"
    and cmp_antisym: "ok a \<Longrightarrow> ok b \<Longrightarrow> cmp b a = - cmp a b"
    and cmp_trans: "ok a \<Longrightarrow> ok b \<Longrightarrow> ok c \<Longrightarrow> cmp a b \<le> 0 \<Longrightarrow> cmp b c \<le> 0 \<Longrightarrow> cmp a c \<le> 0"
begin

lemma cmp_refl: "ok a \<Longrightarrow> cmp a a = 0"
  using cmp_antisym [of a a] by simp

lemma cmp_less_trans:
  assumes "ok a" "ok b" "ok c" "cmp a b < 0" "cmp b c \<le> 0"
  shows "cmp a c < 0"
proof (rule ccontr)
  assume "\<not> cmp a c < 0"
  then have "cmp c a \<le> 0" using cmp_antisym [of a c] assms by simp
  with assms have "cmp b a \<le> 0" by (blast intro: cmp_trans)
  then show False using cmp_antisym [of a b] assms by simp
qed

lemma cmp_less_trans2:
  assumes "ok a" "ok b" "ok c" "cmp a b \<le> 0" "cmp b c < 0"
  shows "cmp a c < 0"
proof (rule ccontr)
  assume "\<not> cmp a c < 0"
  then have "cmp c a \<le> 0" using cmp_antisym [of a c] assms by simp
  with assms have "cmp c b \<le> 0" by (blast intro: cmp_trans)
  then show False using cmp_antisym [of b c] assms by simp
qed

lemma not_newer: "ok a \<Longrightarrow> ok b \<Longrightarrow> cmp a b \<noteq> 1 \<Longrightarrow> cmp a b \<le> 0"
  using cmp_range [of a b] by auto

end

text \<open>Keeping the entry with the newest code, one arrival at a time.\<close>

definition upd_newest :: "('a \<Rightarrow> 'a \<Rightarrow> int) \<Rightarrow> 'a \<times> 'v \<Rightarrow> 'a \<times> 'v \<Rightarrow> 'a \<times> 'v" where
  "upd_newest cmp new old = (if cmp (fst new) (fst old) = 1 then new else old)"

context seq_order
begin

lemma fold_newest:
  assumes "ok (fst x)" and "\<And>y. y \<in> set xs \<Longrightarrow> ok (fst y)"
  shows "fold (upd_newest cmp) xs x \<in> insert x (set xs)
       \<and> (\<forall>y \<in> insert x (set xs). cmp (fst y) (fst (fold (upd_newest cmp) xs x)) \<le> 0)"
  using assms
proof (induction xs arbitrary: x)
  case Nil
  then show ?case by (simp add: cmp_refl)
next
  case (Cons a xs)
  let ?x = "upd_newest cmp a x" and ?r = "fold (upd_newest cmp) (a # xs) x"
  have oks: "ok (fst x)" "ok (fst a)" "ok (fst ?x)" using Cons.prems by (auto simp: upd_newest_def)
  have IH: "?r \<in> insert ?x (set xs) \<and> (\<forall>y \<in> insert ?x (set xs). cmp (fst y) (fst ?r) \<le> 0)"
    using Cons.IH [of ?x] Cons.prems oks by simp
  then have r: "ok (fst ?r)" using Cons.prems oks by (metis insertE list.set_intros(2))
  have "cmp (fst x) (fst ?x) \<le> 0" "cmp (fst a) (fst ?x) \<le> 0"
    using oks cmp_antisym [of "fst a" "fst x"] not_newer [of "fst a" "fst x"]
    by (auto simp: upd_newest_def cmp_refl)
  then have "cmp (fst x) (fst ?r) \<le> 0" "cmp (fst a) (fst ?r) \<le> 0"
    using IH oks r by (blast intro: cmp_trans)+
  moreover have "?x = a \<or> ?x = x" by (simp add: upd_newest_def)
  ultimately show ?case using IH by (metis insert_iff list.set(2))
qed

text \<open>When no two codes tie, the entry kept does not depend on the order of arrival.\<close>

lemma fold_newest_unique:
  assumes oks: "\<And>y. y \<in> set xs \<Longrightarrow> ok (fst y)" "\<And>y. y \<in> set ys \<Longrightarrow> ok (fst y)"
    and same: "insert x (set xs) = insert y (set ys)" and ok: "ok (fst x)" "ok (fst y)"
    and dist: "\<And>p q. p \<in> insert x (set xs) \<Longrightarrow> q \<in> insert x (set xs) \<Longrightarrow> cmp (fst p) (fst q) = 0 \<Longrightarrow> p = q"
  shows "fold (upd_newest cmp) xs x = fold (upd_newest cmp) ys y"
proof -
  let ?r = "fold (upd_newest cmp) xs x" and ?s = "fold (upd_newest cmp) ys y"
  have r: "?r \<in> insert x (set xs)" "\<forall>z \<in> insert x (set xs). cmp (fst z) (fst ?r) \<le> 0"
    using fold_newest [of x xs] oks ok by auto
  have s: "?s \<in> insert y (set ys)" "\<forall>z \<in> insert y (set ys). cmp (fst z) (fst ?s) \<le> 0"
    using fold_newest [of y ys] oks ok by auto
  have okr: "ok (fst ?r)" "ok (fst ?s)" using r(1) s(1) oks ok by (metis insertE)+
  have "cmp (fst ?r) (fst ?s) \<le> 0" "cmp (fst ?s) (fst ?r) \<le> 0"
    using r s same by auto
  then have "cmp (fst ?r) (fst ?s) = 0" using cmp_antisym [of "fst ?r" "fst ?s"] okr by simp
  with r s same dist show ?thesis by blast
qed

end

lemma cmp_words_antisym: "cmp_words ys xs = - cmp_words xs ys"
  by (induction xs ys rule: cmp_words.induct) auto

lemma cmp_words_range: "cmp_words xs ys \<in> {- 1, 0, 1}"
  by (induction xs ys rule: cmp_words.induct) auto

lemma cmp_words_eq_0: "length xs = length ys \<Longrightarrow> (cmp_words xs ys = 0) = (xs = ys)"
  by (induction xs ys rule: cmp_words.induct) auto

lemma cmp_words_trans:
  "length xs = length ys \<Longrightarrow> length ys = length zs \<Longrightarrow>
   cmp_words xs ys \<le> 0 \<Longrightarrow> cmp_words ys zs \<le> 0 \<Longrightarrow> cmp_words xs zs \<le> 0"
proof (induction xs ys arbitrary: zs rule: cmp_words.induct)
  case (1 x xs y ys)
  then obtain z zs' where "zs = z # zs'" by (cases zs) auto
  with 1 show ?case by (auto split: if_splits)
qed auto

text \<open>The codes of gLite jobs that parse.\<close>

definition comparable :: "string \<Rightarrow> bool" where
  "comparable a \<longleftrightarrow> seq_parse (with_lbs a) \<noteq> None \<and> strstr a ''SMOM='' = None"

lemma compare_seq_comparable:
  "comparable a \<Longrightarrow> comparable b \<Longrightarrow>
   edg_wll_compare_seq junk a b = cmp_words (the (seq_parse (with_lbs a))) (the (seq_parse (with_lbs b)))"
  by (auto simp: comparable_def edg_wll_compare_seq_def)

interpretation glite_codes: seq_order "edg_wll_compare_seq junk" comparable
proof
  fix a b c
  assume a: "comparable a" and b: "comparable b"
  let ?p = "\<lambda>s. the (seq_parse (with_lbs s))"
  show "edg_wll_compare_seq junk a b \<in> {- 1, 0, 1}"
    using cmp_words_range by (simp add: compare_seq_comparable a b)
  show "edg_wll_compare_seq junk b a = - edg_wll_compare_seq junk a b"
    unfolding compare_seq_comparable [OF a b] compare_seq_comparable [OF b a] by (rule cmp_words_antisym)
  assume c: "comparable c" and "edg_wll_compare_seq junk a b \<le> 0" "edg_wll_compare_seq junk b c \<le> 0"
  moreover have "length (?p a) = 9" "length (?p b) = 9" "length (?p c) = 9"
    using a b c by (auto simp: comparable_def length_seq_parse)
  ultimately show "edg_wll_compare_seq junk a c \<le> 0"
    using a b c cmp_words_trans [of "?p a" "?p b" "?p c"] by (simp add: compare_seq_comparable)
qed

section \<open>User tags keep the newest value\<close>

definition tags_wf :: "intJobStat \<Rightarrow> bool" where
  "tags_wf js \<longleftrightarrow>
     (case user_tags js of
        None \<Rightarrow> True
      | Some tags \<Rightarrow>
          (case tag_seq_codes js of None \<Rightarrow> False | Some codes \<Rightarrow> length codes = length tags))"

text \<open>The code and value stored for a tag name.\<close>

definition tag_entry :: "string \<Rightarrow> intJobStat \<Rightarrow> (string \<times> string) option" where
  "tag_entry n js =
     (case user_tags js of
        None \<Rightarrow> None
      | Some tags \<Rightarrow>
          (case tag_seq_codes js of
             None \<Rightarrow> None
           | Some codes \<Rightarrow> map_option (\<lambda>i. (codes ! i, snd (tags ! i))) (find_tag n tags)))"

text \<open>A series of tag events for one name, in order of arrival (code, value).\<close>

fun add_tags :: "junk \<Rightarrow> string \<Rightarrow> (string \<times> string) list \<Rightarrow> intJobStat \<Rightarrow> intJobStat res" where
  "add_tags junk n [] js = Inr js"
| "add_tags junk n ((s, v) # xs) js = rbind (add_taglist junk n v s js) (add_tags junk n xs)"

lemma find_tag_bound: "find_tag n tags = Some i \<Longrightarrow> i < length tags"
  by (induction n tags arbitrary: i rule: find_tag.induct) (auto split: if_splits)

lemma find_tag_update [simp]: "find_tag n (tags[i := (fst (tags ! i), v)]) = find_tag n tags"
proof (induction n tags arbitrary: i rule: find_tag.induct)
  case (2 n t v' ts)
  then show ?case by (cases i) auto
qed simp

lemma find_tag_append:
  "find_tag n (tags @ [(m, v)]) =
     (case find_tag n tags of
        Some i \<Rightarrow> Some i
      | None \<Rightarrow> if strcaseeq m n then Some (length tags) else None)"
  by (induction n tags rule: find_tag.induct) (auto split: option.splits)

lemma find_tag_differ:
  "find_tag n tags = Some i \<Longrightarrow> find_tag m tags = Some i \<Longrightarrow> strcaseeq n m"
proof (induction tags arbitrary: i)
  case (Cons t ts)
  obtain a b where t: "t = (a, b)" by (cases t)
  show ?case
  proof (cases "strcaseeq a n")
    case True
    with Cons.prems t have "i = 0" by simp
    with Cons.prems t have "strcaseeq a m" by (auto split: if_splits)
    with True show ?thesis by (metis strcaseeq_sym strcaseeq_trans)
  next
    case False
    with Cons.prems t obtain j where j: "find_tag n ts = Some j" "i = Suc j" by auto
    with Cons.prems(2) t have "find_tag m ts = Some j" by (auto split: if_splits)
    with j Cons.IH show ?thesis by blast
  qed
qed simp

text \<open>One tag event: it never fails on well-formed tags, and updates just its own entry.\<close>

lemma add_taglist_entry:
  assumes "tags_wf js"
  shows "\<exists>js'. add_taglist junk n v s js = Inr js' \<and> tags_wf js' \<and>
    tag_entry n js' = Some (case tag_entry n js of None \<Rightarrow> (s, v)
                            | Some old \<Rightarrow> upd_newest (edg_wll_compare_seq junk) (s, v) old)"
proof (cases "user_tags js")
  case None
  then show ?thesis by (simp add: add_taglist_def tags_wf_def tag_entry_def)
next
  case (Some tags)
  with assms obtain codes where c: "tag_seq_codes js = Some codes" "length codes = length tags"
    by (auto simp: tags_wf_def split: option.splits)
  show ?thesis
  proof (cases "find_tag n tags")
    case None
    with Some c show ?thesis
      by (simp add: add_taglist_def tags_wf_def tag_entry_def find_tag_append nth_append)
  next
    case (Some i)
    with \<open>user_tags js = Some tags\<close> c find_tag_bound [OF Some] show ?thesis
      by (auto simp: add_taglist_def tags_wf_def tag_entry_def upd_newest_def)
  qed
qed

lemma add_taglist_other:
  assumes "tags_wf js" and "\<not> strcaseeq n m" and "add_taglist junk n v s js = Inr js'"
  shows "tag_entry m js' = tag_entry m js"
proof (cases "user_tags js")
  case None
  with assms show ?thesis by (auto simp: add_taglist_def tag_entry_def)
next
  case (Some tags)
  with assms(1) obtain codes where c: "tag_seq_codes js = Some codes" "length codes = length tags"
    by (auto simp: tags_wf_def split: option.splits)
  show ?thesis
  proof (cases "find_tag n tags")
    case None
    with Some c assms(2,3) find_tag_bound [of m tags] show ?thesis
      by (cases "find_tag m tags") (auto simp: add_taglist_def tag_entry_def find_tag_append nth_append)
  next
    case (Some i)
    have "j \<noteq> i" if "find_tag m tags = Some j" for j
      using that Some assms(2) find_tag_differ by blast
    with Some \<open>user_tags js = Some tags\<close> c assms(3) find_tag_bound [OF Some] show ?thesis
      by (cases "find_tag m tags") (auto simp: add_taglist_def tag_entry_def split: if_splits)
  qed
qed

lemma add_tags_entry:
  assumes "tags_wf js" and "tag_entry n js = Some x"
  shows "\<exists>js'. add_tags junk n xs js = Inr js' \<and> tags_wf js' \<and>
    tag_entry n js' = Some (fold (upd_newest (edg_wll_compare_seq junk)) xs x)"
  using assms
proof (induction xs arbitrary: js x)
  case (Cons a xs)
  obtain s v where a: "a = (s, v)" by (cases a)
  obtain js1 where js1: "add_taglist junk n v s js = Inr js1" "tags_wf js1"
    "tag_entry n js1 = Some (upd_newest (edg_wll_compare_seq junk) (s, v) x)"
    using add_taglist_entry [OF Cons.prems(1), of junk n v s] Cons.prems(2) by auto
  from Cons.IH [OF js1(2,3)] js1(1) a show ?case by simp
qed simp


abbreviation (input) example_code1 :: string where
  "example_code1 \<equiv>
     ''UI=000003:NS=0000000005:WM=000007:BH=0000000000:JSS=000001:LM=000002:LRMS=000000:APP=000000:LBS=000000''"

abbreviation (input) example_code2 :: string where
  "example_code2 \<equiv>
     ''UI=000003:NS=0000000005:WM=000008:BH=0000000000:JSS=000001:LM=000002:LRMS=000000:APP=000000''"

lemma example_parse:
  "seq_parse (with_lbs example_code1) = Some [3, 5, 7, 0, 1, 2, 0, 0, 0]"
  "seq_parse (with_lbs example_code2) = Some [3, 5, 8, 0, 1, 2, 0, 0, 0]"
  by (simp_all add: with_lbs_def EDG_WLL_SEQ_SIZE_def snprintf_trunc_def seq_parse_def
      seq_labels_def decimal_eval)

lemma example_comparable: "comparable example_code1" "comparable example_code2"
  by (simp_all only: comparable_def example_parse) simp_all

lemma example_order:
  "edg_wll_compare_seq junk example_code1 example_code2 = - 1"
  "edg_wll_compare_seq junk example_code2 example_code1 = 1"
  "edg_wll_compare_seq junk example_code1 example_code1 = 0"
  "edg_wll_compare_seq junk example_code2 example_code2 = 0"
  by (simp_all only: compare_seq_comparable example_comparable example_parse) simp_all


section \<open>Properties of codes\<close>

text \<open>
  C15. On parsable gLite codes the comparison is a total order of the nine components:
  antisymmetric, transitive, and 0 exactly for equal components.
\<close>

theorem compare_seq_total_order:
  assumes "comparable a" and "comparable b" and "comparable c"
  shows "edg_wll_compare_seq junk b a = - edg_wll_compare_seq junk a b \<and>
    (edg_wll_compare_seq junk a b \<le> 0 \<longrightarrow> edg_wll_compare_seq junk b c \<le> 0 \<longrightarrow>
       edg_wll_compare_seq junk a c \<le> 0) \<and>
    (edg_wll_compare_seq junk a b = 0) = (seq_parse (with_lbs a) = seq_parse (with_lbs b))"
proof (intro conjI impI)
  show "edg_wll_compare_seq junk b a = - edg_wll_compare_seq junk a b"
    using assms(1,2) by (rule glite_codes.cmp_antisym)
  show "edg_wll_compare_seq junk a c \<le> 0"
    if "edg_wll_compare_seq junk a b \<le> 0" "edg_wll_compare_seq junk b c \<le> 0"
    using assms that by (rule glite_codes.cmp_trans)
  obtain x y where "seq_parse (with_lbs a) = Some x" "seq_parse (with_lbs b) = Some y"
    using assms by (auto simp: comparable_def)
  then show "(edg_wll_compare_seq junk a b = 0) = (seq_parse (with_lbs a) = seq_parse (with_lbs b))"
    using assms cmp_words_eq_0 [of x y]
    by (simp add: compare_seq_comparable length_seq_parse)
qed

theorem compare_seq_total_order_witness:
  "edg_wll_compare_seq (\<lambda>_ _. (0, 0)) example_code2 example_code1 =
     - edg_wll_compare_seq (\<lambda>_ _. (0, 0)) example_code1 example_code2 \<and>
   edg_wll_compare_seq (\<lambda>_ _. (0, 0)) example_code1 example_code2 = - 1"
  using compare_seq_total_order [OF example_comparable(1,2,2), of "\<lambda>_ _. (0, 0)"]
    example_order(1) [of "\<lambda>_ _. (0, 0)"] by blast

text \<open>
  An unparsable code sorts before every parsable one, from either side, but two
  unparsable codes each sort before the other: on them the comparison is no order.
\<close>

theorem compare_seq_unparsable:
  assumes "seq_parse (with_lbs a) = None" and "strstr a ''SMOM='' = None"
  shows "(comparable b \<longrightarrow>
            edg_wll_compare_seq junk a b = - 1 \<and> edg_wll_compare_seq junk b a = 1) \<and>
         (seq_parse (with_lbs b) = None \<longrightarrow>
            edg_wll_compare_seq junk a b = - 1 \<and> edg_wll_compare_seq junk b a = - 1)"
  using assms by (auto simp: edg_wll_compare_seq_def comparable_def)

theorem compare_seq_unparsable_witness:
  "seq_parse (with_lbs ''x'') = None \<and> strstr ''x'' ''SMOM='' = None \<and> comparable example_code1 \<and>
   edg_wll_compare_seq (\<lambda>_ _. (0, 0)) ''x'' example_code1 = - 1 \<and>
   edg_wll_compare_seq (\<lambda>_ _. (0, 0)) ''x'' ''y'' = - 1 \<and>
   edg_wll_compare_seq (\<lambda>_ _. (0, 0)) ''y'' ''x'' = - 1"
proof -
  have x: "seq_parse (with_lbs ''x'') = None" "strstr ''x'' ''SMOM='' = None"
    and y: "seq_parse (with_lbs ''y'') = None" by code_simp+
  show ?thesis
    using x y example_comparable(1)
      compare_seq_unparsable [OF x, of example_code1 "\<lambda>_ _. (0, 0)"]
      compare_seq_unparsable [OF x, of "''y''" "\<lambda>_ _. (0, 0)"] by blast
qed

text \<open>
  Replacing one component and reading back: while all components fit their printed
  widths, \<^verbatim>\<open>set_component_seqcode\<close> changes exactly the component it is told to.
\<close>

theorem set_component_get_component:
  assumes "seq_parse (with_lbs a) = Some c"
    and "1 \<le> source_index i" and "source_index i \<le> 9"
    and "1 \<le> source_index j" and "source_index j \<le> 9"
    and "in_int v" and "seq_bounded (c[source_index i - 1 := word_of_int v])"
  shows "\<exists>b. set_component_seqcode a i v = Some b \<and>
    component_seqcode b j = (if j = i then v else component_seqcode a j)"
proof -
  let ?d = "c[source_index i - 1 := word_of_int v]"
  have "set_component_seqcode a i v = Some (seq_print ?d)"
    using assms by (simp add: set_component_seqcode_def Let_def)
  moreover have "component_seqcode (seq_print ?d) j = sint (seq_component ?d j)"
    using assms(7) by (rule component_seq_print)
  moreover have "source_index j = source_index i \<Longrightarrow> j = i"
    by (metis edg_wll_Sources_nth)
  moreover have "sint (word_of_int v :: 32 word) = v"
    using assms(6) by (simp add: sint_word_of_int_32)
  ultimately show ?thesis
    using assms length_seq_parse [OF assms(1)]
    by (auto simp: seq_component_def component_seqcode_def nth_list_update Let_def)
qed

theorem set_component_get_component_witness:
  "\<exists>b. set_component_seqcode example_code2 SOURCE_LOG_MONITOR 0 = Some b \<and>
     component_seqcode b SOURCE_WORKLOAD_MANAGER = component_seqcode example_code2 SOURCE_WORKLOAD_MANAGER"
proof -
  have "seq_bounded ([3, 5, 8, 0, 1, 2, 0, 0, 0][source_index SOURCE_LOG_MONITOR - 1 := word_of_int 0])"
    by (simp add: seq_bounded_def seq_widths_def)
  then show ?thesis
    using set_component_get_component [OF example_parse(2),
        of SOURCE_LOG_MONITOR SOURCE_WORKLOAD_MANAGER 0]
    by (simp add: in_int_def)
qed

text \<open>
  Scanning a Condor code succeeds only on a 14 character time stamp and a 10
  character position, so the terminating NUL always falls behind the 14 and 10 byte
  buffers that \<^verbatim>\<open>edg_wll_compare_condor_seq\<close> passes.
\<close>

theorem condor_scan_lengths:
  assumes "condor_scan s = Some (ts, pos, code, src)"
  shows "length ts = 14 \<and> length pos = 10"
proof -
  have tok: "length t = w" if "scan_token w u = Some (t, v)" "scan_label l v = Some v'"
    "l \<noteq> []" "\<not> isspace (hd l)" for w u t v l v'
  proof (rule ccontr)
    let ?s = "dropWhile isspace u"
    assume ne: "length t \<noteq> w"
    from that(1) have t: "t = takeWhile (\<lambda>c. \<not> isspace c) (take w ?s)" "v = drop (length t) ?s"
      by (auto simp: scan_token_def Let_def split: if_splits)
    then have "length t \<le> w" by (metis length_take length_takeWhile_le min.bounded_iff)
    with ne have lt: "length t < w" by simp
    from that(2,3,4) obtain ch r where v: "v = ch # r" "\<not> isspace ch"
      by (cases v; cases l) (auto simp: scan_label_def split: if_splits)
    with t(2) have len: "length t < length ?s" by (metis drop_all list.distinct(1) not_le)
    have "?s ! length t = ch" using t(2) v(1) len by (metis Cons_nth_drop_Suc list.inject)
    moreover have "length t < length (take w ?s)" using lt len by simp
    ultimately have "isspace ch"
      using nth_length_takeWhile [of "\<lambda>c. \<not> isspace c" "take w ?s"] t(1) lt by simp
    with v(2) show False by simp
  qed
  from assms obtain s1 s2 s3 s4 s5 where
    "scan_token 14 s1 = Some (ts, s2)" "scan_label '':POS='' s2 = Some s3"
    "scan_token 10 s3 = Some (pos, s4)" "scan_label '':EV.CODE='' s4 = Some s5"
    by (auto simp: condor_scan_def Option.bind_eq_Some_conv)
  with tok [of 14 s1 ts s2 "'':POS=''" s3] tok [of 10 s3 pos s4 "'':EV.CODE=''" s5]
  show ?thesis by (simp add: isspace_def)
qed

theorem condor_scan_lengths_witness:
  "\<exists>ts pos code src.
     condor_scan ''TIMESTAMP=20080101120000:POS=0000000012:EV.CODE=017:SRC=C'' = Some (ts, pos, code, src)
     \<and> length ts = 14 \<and> length pos = 10"
proof -
  have "condor_scan ''TIMESTAMP=20080101120000:POS=0000000012:EV.CODE=017:SRC=C'' =
      Some (''20080101120000'', ''0000000012'', 17, CHR ''C'')" by code_simp
  from this condor_scan_lengths [OF this] show ?thesis by blast
qed

end
