(* ===== verification/LB_Branch.thy ===== *)
theory LB_Branch
  imports LB_Seqcode
begin

text \<open>
  Helpers of event processing (first part of
  \<^verbatim>\<open>org.glite.lb.state-machine/src/process_event.c\<close>, and the comparison of certificate
  subjects from \<^verbatim>\<open>org.glite.lbjp-common.gss/src/glite_gss.c\<close>): usability of an event,
  location strings, string lists, and the records of shallow resubmission branches.
\<close>

section \<open>Usability of an event\<close>

definition USABLE :: "ret_code \<Rightarrow> bool \<Rightarrow> bool" where
  "USABLE r strict \<longleftrightarrow> r = RET_OK \<or> (r = RET_SOON \<and> \<not> strict)"

definition USABLE_DATA :: "ret_code \<Rightarrow> bool \<Rightarrow> bool" where
  "USABLE_DATA r strict \<longleftrightarrow> r = RET_OK \<or> (r \<noteq> RET_FAIL \<and> \<not> strict)"

definition USABLE_BRANCH :: "ret_code \<Rightarrow> bool" where
  "USABLE_BRANCH fine_res \<longleftrightarrow> fine_res \<noteq> RET_TOOOLD \<and> fine_res \<noteq> RET_BADBRANCH"

definition LRMS_STATE :: "int \<Rightarrow> bool" where
  "LRMS_STATE st \<longleftrightarrow> st = EDG_WLL_JOB_RUNNING \<or> st = EDG_WLL_JOB_DONE"

definition PARSABLE_SEQCODE :: "cstr \<Rightarrow> bool" where
  "PARSABLE_SEQCODE code \<longleftrightarrow>
     (case code of None \<Rightarrow> False | Some c \<Rightarrow> component_seqcode c SOURCE_USER_INTERFACE \<ge> 0)"

text \<open>\<^verbatim>\<open>rep_cond\<close>: replace only by something.\<close>

definition rep_cond :: "cstr \<Rightarrow> cstr \<Rightarrow> cstr" where
  "rep_cond a b = (case b of None \<Rightarrow> a | Some s \<Rightarrow> Some s)"

definition add_stringlist :: "string list option \<Rightarrow> string \<Rightarrow> string list option" where
  "add_stringlist lptr new_item = (case lptr of None \<Rightarrow> Some [new_item] | Some xs \<Rightarrow> Some (xs @ [new_item]))"

definition location_string_source :: "edg_wll_Source \<Rightarrow> cstr \<Rightarrow> cstr \<Rightarrow> cstr" where
  "location_string_source src host inst =
     Some (edg_wll_SourceToString src @ ''/'' @ pct_s host @ ''/'' @ pct_s inst)"

definition location_string_queue :: "cstr \<Rightarrow> cstr \<Rightarrow> cstr \<Rightarrow> cstr" where
  "location_string_queue queue host inst =
     Some (pct_s queue @ ''/'' @ pct_s host @ ''/'' @ pct_s inst)"

definition after_enter_wm :: "string \<Rightarrow> string \<Rightarrow> bool" where
  "after_enter_wm es js \<longleftrightarrow>
     component_seqcode es SOURCE_NETWORK_SERVER > component_seqcode js SOURCE_NETWORK_SERVER \<or>
     component_seqcode es SOURCE_USER_INTERFACE > component_seqcode js SOURCE_USER_INTERFACE"

section \<open>Subjects of certificates\<close>

lemma strstr_prefix_length: "strstr s n = Some p \<Longrightarrow> length n \<le> length p \<and> length p \<le> length s"
proof (induction s n rule: strstr.induct)
  case (2 x xs n)
  show ?case
  proof (cases "take (length n) (x # xs) = n")
    case True
    then have "length n \<le> length (x # xs)" by (metis length_take min.cobounded1)
    with True 2 show ?thesis by simp
  next
    case False
    with 2 show ?thesis by auto
  qed
qed (auto split: if_splits)

function normalize_email :: "string \<Rightarrow> string" where
  "normalize_email s =
     (case strstr s ''/emailAddress='' of
        None \<Rightarrow> s
      | Some p \<Rightarrow> normalize_email (take (length s - length p) s @ ''/Email='' @ drop 14 p))"

  by pat_completeness auto

termination
proof (relation "measure length")
  fix s p :: string
  assume "strstr s ''/emailAddress='' = Some p"
  from strstr_prefix_length [OF this]
  show "(take (length s - length p) s @ ''/Email='' @ drop 14 p, s) \<in> measure length" by simp linarith
qed simp

declare normalize_email.simps [simp del]

fun strip_proxies :: "string \<Rightarrow> string" where
  "strip_proxies s =
     (if length s > 9 \<and> drop (length s - 9) s = ''/CN=proxy''
      then strip_proxies (take (length s - 9) s) else s)"

declare strip_proxies.simps [simp del]

definition edg_wll_gss_normalize_subj :: "cstr \<Rightarrow> cstr" where
  "edg_wll_gss_normalize_subj subj = map_option (\<lambda>s. strip_proxies (normalize_email s)) subj"

definition edg_wll_gss_equal_subj :: "cstr \<Rightarrow> cstr \<Rightarrow> bool" where
  "edg_wll_gss_equal_subj a b =
     (case (edg_wll_gss_normalize_subj a, edg_wll_gss_normalize_subj b) of
        (Some an, Some bn) \<Rightarrow> strcaseeq an bn
      | _ \<Rightarrow> False)"

section \<open>Branches\<close>

text \<open>
  The C array is the list followed by zero elements; it ends at the first element whose
  branch number is 0, and that element may carry data when an event with branch number 0
  put it there.
\<close>

definition zero_branch :: branch_state where
  "zero_branch = \<lparr>branch = 0, bs_destination = None, bs_ce_node = None, bs_jdl = None\<rparr>"

definition live_branches :: "branch_state list \<Rightarrow> branch_state list" where
  "live_branches bs = takeWhile (\<lambda>x. branch x \<noteq> 0) bs"

fun find_branch :: "int \<Rightarrow> branch_state list \<Rightarrow> nat option" where
  "find_branch br [] = None"
| "find_branch br (x # xs) =
     (if branch x = 0 then None else if branch x = br then Some 0
      else map_option Suc (find_branch br xs))"

definition update_branch_state ::
  "string \<Rightarrow> cstr \<Rightarrow> cstr \<Rightarrow> cstr \<Rightarrow> branch_state list option \<Rightarrow> branch_state list option" where
  "update_branch_state b d c j bs =
     (let br = component_seqcode b SOURCE_WORKLOAD_MANAGER;
          arr = (case bs of None \<Rightarrow> [] | Some xs \<Rightarrow> xs)
      in case find_branch br arr of
           Some i \<Rightarrow>
             let x = arr ! i in
             Some (arr[i := x\<lparr>bs_destination := rep_cond (bs_destination x) d,
                              bs_ce_node := rep_cond (bs_ce_node x) c,
                              bs_jdl := rep_cond (bs_jdl x) j\<rparr>])
         | None \<Rightarrow>
             Some (live_branches arr @
                   [\<lparr>branch = br, bs_destination = d, bs_ce_node = c, bs_jdl = j\<rparr>]))"

text \<open>
  \<^verbatim>\<open>load_branch_state\<close> sorts the branches (equal numbers, which updates never produce, keep
  their order here), finds the branch of the ReallyRunning event or else the terminating
  element, and copies that element over the two before it.
\<close>

definition copy_branch :: "branch_state \<Rightarrow> intJobStat \<Rightarrow> intJobStat" where
  "copy_branch x js =
     js\<lparr>destination := rep_cond (destination js) (bs_destination x),
        ce_node := rep_cond (ce_node js) (bs_ce_node x),
        matched_jdl := rep_cond (matched_jdl js) (bs_jdl x)\<rparr>"

definition bs_nth :: "branch_state list \<Rightarrow> nat \<Rightarrow> branch_state" where
  "bs_nth bs i = (if i < length bs then bs ! i else zero_branch)"

definition load_branch_state :: "intJobStat \<Rightarrow> intJobStat" where
  "load_branch_state js =
     (case (branch_tag_seqcode js, branch_states js) of
        (Some tag, Some arr) \<Rightarrow>
          let br = component_seqcode tag SOURCE_WORKLOAD_MANAGER;
              n = length (live_branches arr);
              sorted = sort_key branch (live_branches arr) @ drop n arr;
              i = (case find_branch br sorted of None \<Rightarrow> n | Some k \<Rightarrow> k)
          in fold (\<lambda>j js. copy_branch (bs_nth sorted j) js) [i - 2..<Suc i]
               (js\<lparr>branch_states := Some sorted\<rparr>)
      | _ \<Rightarrow> js)"

definition reset_branch :: "string \<Rightarrow> intJobStat \<Rightarrow> intJobStat" where
  "reset_branch seqcode js =
     js\<lparr>resubmit_type := EDG_WLL_RESUBMISSION_WILLRESUB,
        possible_destinations := None,
        possible_ce_nodes := None,
        branch_states := None,
        payload_running := 0,
        branch_tag_seqcode := None,
        deep_resubmit_seqcode := Some seqcode\<rparr>"

section \<open>Properties of branches\<close>

lemma USABLE_LATE [simp]: "\<not> USABLE RET_LATE strict" "\<not> USABLE RET_IGNORE strict" "USABLE RET_OK strict"
  by (simp_all add: USABLE_def)

lemma USABLE_DATA_OK [simp]: "USABLE_DATA RET_OK strict"
  by (simp add: USABLE_DATA_def)

lemma rep_cond_simps [simp]: "rep_cond a None = a" "rep_cond a (Some s) = Some s"
  by (simp_all add: rep_cond_def)

text \<open>
  The data a list of branches holds for a branch number, as a map: what
  \<^verbatim>\<open>update_branch_state\<close> promises.
\<close>

definition branch_lookup :: "int \<Rightarrow> branch_state list option \<Rightarrow> branch_state option" where
  "branch_lookup br bs =
     (case bs of None \<Rightarrow> None | Some arr \<Rightarrow> map_option (\<lambda>i. arr ! i) (find_branch br arr))"

lemma branch_lookup_Some: "branch_lookup m (Some arr) = map_option (\<lambda>i. arr ! i) (find_branch m arr)"
  by (simp add: branch_lookup_def)

lemma find_branch_Some:
  "find_branch br arr = Some i \<Longrightarrow> i < length (live_branches arr) \<and> arr ! i \<in> set (live_branches arr) \<and>
     branch (arr ! i) = br \<and> br \<noteq> 0"
proof (induction arr arbitrary: i)
  case (Cons x xs)
  show ?case
  proof (cases "branch x = 0 \<or> branch x = br")
    case True
    with Cons.prems show ?thesis by (auto simp: live_branches_def split: if_splits)
  next
    case False
    with Cons.prems obtain k where "find_branch br xs = Some k" "i = Suc k" by auto
    with Cons.IH [of k] False show ?thesis by (simp add: live_branches_def)
  qed
qed simp

lemma find_branch_None: "(find_branch br arr = None) = (br = 0 \<or> br \<notin> branch ` set (live_branches arr))"
  by (induction arr) (auto simp: live_branches_def)

lemma live_branches_append:
  "live_branches (live_branches xs @ ys) = live_branches xs @ live_branches ys"
  unfolding live_branches_def by (rule takeWhile_append2) (auto dest: set_takeWhileD)

lemma live_length: "length (live_branches arr) \<le> length arr"
  by (simp add: live_branches_def length_takeWhile_le)

lemma find_branch_update:
  "find_branch br arr = Some i \<Longrightarrow> branch x = br \<Longrightarrow> find_branch m (arr[i := x]) = find_branch m arr"
proof (induction arr arbitrary: i)
  case (Cons y ys)
  then show ?case by (cases i) (auto split: if_splits)
qed simp

lemma find_branch_append:
  "find_branch m (live_branches arr @ [x]) =
     (case find_branch m arr of Some i \<Rightarrow> Some i
      | None \<Rightarrow> if branch x \<noteq> 0 \<and> branch x = m then Some (length (live_branches arr)) else None)"
  by (induction arr) (auto simp: live_branches_def split: option.splits)

lemma live_nth: "i < length (live_branches arr) \<Longrightarrow> live_branches arr ! i = arr ! i"
  by (simp add: live_branches_def takeWhile_nth)

lemma update_branch_lookup:
  assumes "component_seqcode b SOURCE_WORKLOAD_MANAGER = br" and "br \<noteq> 0"
  shows "branch_lookup m (update_branch_state b d c j bs) =
    (if m = br then
       Some (case branch_lookup br bs of
               None \<Rightarrow> \<lparr>branch = br, bs_destination = d, bs_ce_node = c, bs_jdl = j\<rparr>
             | Some x \<Rightarrow> x\<lparr>bs_destination := rep_cond (bs_destination x) d,
                            bs_ce_node := rep_cond (bs_ce_node x) c, bs_jdl := rep_cond (bs_jdl x) j\<rparr>)
     else branch_lookup m bs)"
proof -
  define arr where "arr = (case bs of None \<Rightarrow> [] | Some xs \<Rightarrow> xs)"
  have lk: "branch_lookup k bs = map_option (\<lambda>i. arr ! i) (find_branch k arr)" for k
    by (cases bs) (simp_all add: branch_lookup_def arr_def)
  show ?thesis
  proof (cases "find_branch br arr")
    case None
    have other: "(live_branches arr @ [x]) ! i = arr ! i" if "find_branch m arr = Some i" for i x
      using find_branch_Some [OF that] by (simp add: nth_append live_nth)
    show ?thesis
      using None assms other
      by (auto simp: update_branch_state_def arr_def [symmetric] lk branch_lookup_Some find_branch_append
          split: option.splits)
  next
    case (Some i)
    let ?x = "(arr ! i)\<lparr>bs_destination := rep_cond (bs_destination (arr ! i)) d,
                bs_ce_node := rep_cond (bs_ce_node (arr ! i)) c, bs_jdl := rep_cond (bs_jdl (arr ! i)) j\<rparr>"
    note fi = find_branch_Some [OF Some]
    then have len: "i < length arr" using live_length [of arr] by simp
    have fu: "find_branch k (arr[i := ?x]) = find_branch k arr" for k
      using Some by (rule find_branch_update) (use fi in simp)
    have ne: "k \<noteq> i" if "find_branch m arr = Some k" "m \<noteq> br" for k
      using that find_branch_Some [OF that(1)] fi by auto
    show ?thesis
      using Some assms(1) len fu ne
      by (cases "find_branch m arr") (auto simp: update_branch_state_def arr_def [symmetric] Let_def lk branch_lookup_Some
          split: option.splits)
  qed
qed

lemma branch_lookup_filter:
  "branch_lookup m (Some arr) =
     (if m = 0 then None
      else case filter (\<lambda>x. branch x = m) (live_branches arr) of [] \<Rightarrow> None | x # _ \<Rightarrow> Some x)"
proof (induction arr)
  case (Cons x xs)
  have "branch_lookup m (Some (x # xs)) =
      (if branch x = 0 then None else if branch x = m then Some x else branch_lookup m (Some xs))"
    by (cases "find_branch m xs") (simp_all add: branch_lookup_Some)
  with Cons.IH show ?case by (cases "m = 0") (simp_all add: live_branches_def)
qed (simp add: branch_lookup_def live_branches_def)

lemma live_branches_drop: "live_branches (drop (length (live_branches arr)) arr) = []"
  unfolding live_branches_def by (induction arr) simp_all

lemma live_branches_sorted:
  "live_branches (sort_key branch (live_branches arr) @ drop (length (live_branches arr)) arr) =
     sort_key branch (live_branches arr)"
proof -
  have "live_branches (sort_key branch (live_branches arr) @ zs) =
      sort_key branch (live_branches arr) @ live_branches zs" for zs
    unfolding live_branches_def by (rule takeWhile_append2) (auto dest: set_takeWhileD)
  then show ?thesis by (simp add: live_branches_drop)
qed

lemma branch_lookup_sorted:
  "branch_lookup m (Some (sort_key branch (live_branches arr) @ drop (length (live_branches arr)) arr)) =
     branch_lookup m (Some arr)"
  unfolding branch_lookup_filter live_branches_sorted
  by (simp add: sort_key_stable)

text \<open>What \<^verbatim>\<open>load_branch_state\<close> leaves alone, and what it takes from the selected branch.\<close>

definition only_branch_data :: "intJobStat \<Rightarrow> intJobStat \<Rightarrow> bool" where
  "only_branch_data js js' \<longleftrightarrow>
     js' = js\<lparr>destination := destination js', ce_node := ce_node js', matched_jdl := matched_jdl js',
              branch_states := branch_states js'\<rparr>"

lemma fold_copy_only:
  "only_branch_data js (fold (\<lambda>j js. copy_branch (f j) js) is (js\<lparr>branch_states := bs\<rparr>))"
proof -
  have "only_branch_data js (fold (\<lambda>j js. copy_branch (f j) js) is k)" if "only_branch_data js k" for k
    using that
  proof (induction "is" arbitrary: k)
    case (Cons i "is")
    from Cons.prems have "only_branch_data js (copy_branch (f i) k)"
      by (cases js, cases k) (simp add: only_branch_data_def copy_branch_def)
    with Cons.IH show ?case by simp
  qed simp
  moreover have "only_branch_data js (js\<lparr>branch_states := bs\<rparr>)"
    by (cases js) (simp add: only_branch_data_def)
  ultimately show ?thesis by blast
qed

lemma load_branch_only: "only_branch_data js (load_branch_state js)"
proof -
  have "only_branch_data js js" by (cases js) (simp add: only_branch_data_def)
  then show ?thesis
    unfolding load_branch_state_def Let_def by (auto simp del: upt_Suc split: option.split intro: fold_copy_only)
qed

lemma load_branch_selects:
  assumes "branch_tag_seqcode js = Some tag"
    and "branch_lookup (component_seqcode tag SOURCE_WORKLOAD_MANAGER) (branch_states js) = Some x"
  shows "(bs_destination x \<noteq> None \<longrightarrow> destination (load_branch_state js) = bs_destination x) \<and>
         (bs_ce_node x \<noteq> None \<longrightarrow> ce_node (load_branch_state js) = bs_ce_node x) \<and>
         (bs_jdl x \<noteq> None \<longrightarrow> matched_jdl (load_branch_state js) = bs_jdl x)"
proof -
  let ?br = "component_seqcode tag SOURCE_WORKLOAD_MANAGER"
  from assms(2) obtain arr where arr: "branch_states js = Some arr"
    by (auto simp: branch_lookup_def split: option.splits)
  define sorted where
    "sorted = sort_key branch (live_branches arr) @ drop (length (live_branches arr)) arr"
  have "branch_lookup ?br (Some sorted) = Some x"
    using assms(2) unfolding sorted_def branch_lookup_sorted arr .
  then obtain i where i: "find_branch ?br sorted = Some i" "sorted ! i = x"
    by (auto simp: branch_lookup_Some)
  then have len: "i < length sorted"
    using find_branch_Some [OF i(1)] live_length [of sorted] by simp
  then have bx: "bs_nth sorted i = x" using i(2) by (simp add: bs_nth_def)
  have "load_branch_state js =
      fold (\<lambda>j js. copy_branch (bs_nth sorted j) js) ([i - 2..<i] @ [i]) (js\<lparr>branch_states := Some sorted\<rparr>)"
    using i(1) assms(1) arr by (simp add: load_branch_state_def Let_def sorted_def [symmetric])
  then obtain k where "load_branch_state js = copy_branch x k"
    using bx by simp
  then show ?thesis by (auto simp: copy_branch_def)
qed

text \<open>
  Once a ReallyRunning event has selected a branch, the destination, computing element
  and JDL last recorded for that branch are what the published status shows, whatever other
  branches were recorded before or after; loading them changes nothing else.
\<close>

theorem selected_branch_published:
  assumes "branch_tag_seqcode js = Some tag" and "same_branch b tag"
    and "component_seqcode b SOURCE_WORKLOAD_MANAGER \<noteq> 0"
  shows "let js1 = js\<lparr>branch_states := update_branch_state b d c j (branch_states js)\<rparr>;
             js2 = load_branch_state js1
         in (d \<noteq> None \<longrightarrow> destination js2 = d) \<and> (c \<noteq> None \<longrightarrow> ce_node js2 = c) \<and>
            (j \<noteq> None \<longrightarrow> matched_jdl js2 = j) \<and> only_branch_data js1 js2"
proof -
  let ?js1 = "js\<lparr>branch_states := update_branch_state b d c j (branch_states js)\<rparr>"
  have br: "component_seqcode tag SOURCE_WORKLOAD_MANAGER = component_seqcode b SOURCE_WORKLOAD_MANAGER"
    using assms(2) by (simp add: same_branch_def)
  obtain x where x: "branch_lookup (component_seqcode tag SOURCE_WORKLOAD_MANAGER) (branch_states ?js1) = Some x"
    and dat: "d \<noteq> None \<longrightarrow> bs_destination x = d" "c \<noteq> None \<longrightarrow> bs_ce_node x = c" "j \<noteq> None \<longrightarrow> bs_jdl x = j"
    using assms(3) br
    by (cases "branch_lookup (component_seqcode b SOURCE_WORKLOAD_MANAGER) (branch_states js)")
      (auto simp: update_branch_lookup rep_cond_def split: option.splits)
  from load_branch_selects [of ?js1 tag x] x assms(1) dat load_branch_only [of ?js1]
  show ?thesis by (auto simp: Let_def)
qed

lemma example_branch: "component_seqcode example_code2 SOURCE_WORKLOAD_MANAGER = 8"
  by (simp add: component_seqcode_def example_parse seq_component_def)

theorem selected_branch_published_witness:
  "destination (load_branch_state (init_intJobStat
      \<lparr>branch_tag_seqcode := Some example_code2,
       branch_states := update_branch_state example_code2 (Some ''ce1'') None None None\<rparr>)) = Some ''ce1''"
  using selected_branch_published
    [of "init_intJobStat\<lparr>branch_tag_seqcode := Some example_code2\<rparr>" example_code2 example_code2
       "Some ''ce1''" None None] example_branch
  by (simp add: same_branch_def Let_def)

section \<open>Properties of subjects\<close>

lemma take_straddle:
  assumes "x \<notin> set (tl n)" and "take (length n) ((y # ys) @ x # t) = n"
  shows "length n \<le> length (y # ys)"
proof (rule ccontr)
  assume *: "\<not> length n \<le> length (y # ys)"
  then obtain k where k: "length n = Suc (length ys) + Suc k" by (metis add_Suc less_iff_Suc_add not_le length_Cons add_Suc_right)
  then have "n = y # ys @ x # take k t" using assms(2) by simp
  with assms(1) show False by (metis list.sel(3) in_set_conv_decomp)
qed

lemma strstr_append_sep:
  assumes "x \<notin> set (tl n)" and "strstr (x # t) n = None"
  shows "strstr (s @ x # t) n = map_option (\<lambda>p. p @ x # t) (strstr s n)"
proof (induction s)
  case Nil
  from assms(2) have "n \<noteq> []" by auto
  with assms(2) show ?case by simp
next
  case (Cons y ys)
  have "(take (length n) ((y # ys) @ x # t) = n) = (take (length n) (y # ys) = n)" (is "?a = ?b")
  proof
    assume a: ?a
    from take_straddle [OF assms(1) a] have "take (length n) ((y # ys) @ x # t) = take (length n) (y # ys)"
      unfolding take_append by simp
    with a show ?b by simp
  next
    assume b: ?b
    then have "length n \<le> length (y # ys)" by (metis length_take min.cobounded1)
    with b show ?a unfolding take_append by simp
  qed
  with Cons.IH show ?case by simp
qed

abbreviation (input) proxy_cn :: string where "proxy_cn \<equiv> ''/CN=proxy''"

lemma normalize_email_proxy: "normalize_email (s @ proxy_cn) = normalize_email s @ proxy_cn"
proof (induction s rule: normalize_email.induct)
  case (1 s)
  have st: "strstr (s @ proxy_cn) ''/emailAddress='' = map_option (\<lambda>p. p @ proxy_cn) (strstr s ''/emailAddress='')"
    by (rule strstr_append_sep) simp_all
  show ?case
  proof (cases "strstr s ''/emailAddress=''")
    case None
    with st show ?thesis by (simp add: normalize_email.simps [of s] normalize_email.simps [of "s @ proxy_cn"])
  next
    case (Some p)
    from strstr_prefix_length [OF Some] have "14 \<le> length p" by simp
    with 1 [OF Some] Some st show ?thesis
      by (simp add: normalize_email.simps [of s] normalize_email.simps [of "s @ proxy_cn"])
  qed
qed

lemma normalize_email_nonempty: "s \<noteq> [] \<Longrightarrow> normalize_email s \<noteq> []"
proof (induction s rule: normalize_email.induct)
  case (1 s)
  then show ?case
    by (cases "strstr s ''/emailAddress=''") (simp_all add: normalize_email.simps [of s])
qed

lemma normalize_subj_proxies:
  "s \<noteq> [] \<Longrightarrow> edg_wll_gss_normalize_subj (Some (s @ concat (replicate n proxy_cn))) =
              edg_wll_gss_normalize_subj (Some s)"
proof (induction n)
  case (Suc n)
  let ?u = "s @ concat (replicate n proxy_cn)"
  have "s @ concat (replicate (Suc n) proxy_cn) = ?u @ proxy_cn"
    by (simp only: replicate_Suc replicate_append_same [symmetric] concat_append concat.simps append_Nil2 append_assoc)
  moreover have "0 < length (normalize_email ?u)" using Suc.prems normalize_email_nonempty [of ?u] by simp
  then have "strip_proxies (normalize_email ?u @ proxy_cn) = strip_proxies (normalize_email ?u)"
    by (subst strip_proxies.simps) simp
  ultimately show ?case
    using Suc.IH [OF Suc.prems]
    by (simp only: edg_wll_gss_normalize_subj_def option.map normalize_email_proxy)
qed simp

text \<open>
  Comparing certificate subjects is symmetric and ignores delegation: any number of
  trailing \<^verbatim>\<open>/CN=proxy\<close> parts leaves a (nonempty) subject equal to what it was equal to.
\<close>

theorem equal_subj_proxies:
  assumes "s \<noteq> []"
  shows "edg_wll_gss_equal_subj (Some (s @ concat (replicate n proxy_cn))) b =
           edg_wll_gss_equal_subj (Some s) b \<and>
         edg_wll_gss_equal_subj b (Some (s @ concat (replicate n proxy_cn))) =
           edg_wll_gss_equal_subj b (Some s) \<and>
         edg_wll_gss_equal_subj (Some (s @ concat (replicate n proxy_cn))) (Some s)"
  using normalize_subj_proxies [OF assms, of n]
  by (simp add: edg_wll_gss_equal_subj_def) (simp add: edg_wll_gss_normalize_subj_def)

theorem equal_subj_proxies_witness:
  "edg_wll_gss_equal_subj (Some ''/DC=cz/CN=A/CN=proxy/CN=proxy'') (Some ''/DC=cz/CN=A'')"
  using equal_subj_proxies [of "''/DC=cz/CN=A''" 2 None] by (simp add: numeral_2_eq_2)

end
