(* ===== verification/LB_Step.thy ===== *)
theory LB_Step
  imports LB_Branch
begin

text \<open>
  What the event processors of all job types have in common: the bookkeeping at the end of
  each \<^verbatim>\<open>processEvent_*\<close> function of \<^verbatim>\<open>org.glite.lb.state-machine/src\<close> (time of the last
  update, time of entering a state, default location), the well-formedness of a job status,
  and the contract of an event processor as a locale, from which the facts on whole
  sequences of events follow.
\<close>

section \<open>Common bookkeeping\<close>

text \<open>
  The update time, and when the state differs from \<open>old\<close> the enter time and its entry in
  the array of enter times, whose element 0 is the length.
\<close>

definition enter_state :: "int \<Rightarrow> edg_wll_Event \<Rightarrow> intJobStat \<Rightarrow> intJobStat res" where
  "enter_state old e js0 =
     (let js = js0\<lparr>lastUpdateTime := any_timestamp e\<rparr> in
      if old \<noteq> state js then
        rbind (arr_store (stateEnterTimes js) (1 + state js) (c_int (tv_sec (lastUpdateTime js)))) (\<lambda>times.
          Inr (js\<lparr>stateEnterTime := lastUpdateTime js, stateEnterTimes := times\<rparr>))
      else Inr js)"

definition default_location :: "string \<Rightarrow> intJobStat \<Rightarrow> intJobStat" where
  "default_location s js = (if location js = None then js\<lparr>location := Some s\<rparr> else js)"

text \<open>The end of the processors of Condor, PBS, CREAM and file transfer jobs.\<close>

definition finish_event :: "string \<Rightarrow> int \<Rightarrow> ret_code \<Rightarrow> edg_wll_Event \<Rightarrow> intJobStat \<Rightarrow> intJobStat res" where
  "finish_event loc old r e js =
     rbind (if r = RET_OK then enter_state old e (js\<lparr>last_seqcode := Some (any_seqcode e)\<rparr>) else Inr js)
       (\<lambda>js. Inr (default_location loc js))"

definition add_user_tag :: "junk \<Rightarrow> edg_wll_Event \<Rightarrow> cstr \<Rightarrow> cstr \<Rightarrow> intJobStat \<Rightarrow> intJobStat res" where
  "add_user_tag junk e name val js =
     (case (name, val) of
        (Some n, Some v) \<Rightarrow> add_taglist junk n v (any_seqcode e) js
      | _ \<Rightarrow> Inr js)"

text \<open>\<^verbatim>\<open>edg_wlc_JobIdParse\<close> stores a null pointer when the text is no job identifier.\<close>

definition parsed_jobid :: "string \<Rightarrow> glite_jobid option" where
  "parsed_jobid s = (case glite_jobid_parse s of Inl _ \<Rightarrow> None | Inr j \<Rightarrow> Some j)"

definition compare_timestamps :: "timeval \<Rightarrow> timeval \<Rightarrow> int" where
  "compare_timestamps a b =
     (if tv_sec a > tv_sec b \<or> (tv_sec a = tv_sec b \<and> tv_usec a > tv_usec b) then 1
      else if tv_sec a < tv_sec b \<or> (tv_sec a = tv_sec b \<and> tv_usec a < tv_usec b) then - 1
      else 0)"

section \<open>Well-formed status\<close>

definition stat_array :: "int list option \<Rightarrow> bool" where
  "stat_array a \<longleftrightarrow>
     (case a of None \<Rightarrow> False | Some xs \<Rightarrow> length xs = 13 \<and> xs ! 0 = EDG_WLL_NUMBER_OF_STATCODES)"

definition job_state :: "int \<Rightarrow> bool" where
  "job_state st \<longleftrightarrow> 0 \<le> st \<and> st < EDG_WLL_NUMBER_OF_STATCODES"

definition wf_status :: "intJobStat \<Rightarrow> bool" where
  "wf_status js \<longleftrightarrow>
     job_state (state js) \<and> stat_array (stateEnterTimes js) \<and> stat_array (children_hist js) \<and> tags_wf js"

text \<open>The state of a status and the times that go with it.\<close>

definition stamped :: "intJobStat \<Rightarrow> edg_wll_Event \<Rightarrow> bool" where
  "stamped js e \<longleftrightarrow>
     stateEnterTime js = any_timestamp e \<and> lastUpdateTime js = any_timestamp e \<and>
     (\<exists>xs. stateEnterTimes js = Some xs \<and> nat (1 + state js) < length xs \<and>
           xs ! nat (1 + state js) = c_int (tv_sec (any_timestamp e)))"

lemma job_state_simps [simp]:
  "job_state 0" "job_state 1" "job_state 2" "job_state 3" "job_state 4" "job_state 5" "job_state 6"
  "job_state 7" "job_state 8" "job_state 9" "job_state 10" "job_state 11"
  by (simp_all add: job_state_def)

lemma stat_array_store:
  "stat_array a \<Longrightarrow> job_state st \<Longrightarrow>
   \<exists>b. arr_store a (1 + st) v = Inr b \<and> stat_array b"
  by (auto simp: stat_array_def job_state_def arr_store_def split: option.splits)

lemma stat_array_store_const:
  "stat_array a \<Longrightarrow> 1 \<le> i \<Longrightarrow> i \<le> 12 \<Longrightarrow> \<exists>b. arr_store a i v = Inr b \<and> stat_array b"
  using stat_array_store [of a "i - 1" v] by (simp add: job_state_def)

definition tags_ok :: "tag_value list option \<Rightarrow> string list option \<Rightarrow> bool" where
  "tags_ok tags codes \<longleftrightarrow>
     (case tags of None \<Rightarrow> True
      | Some ts \<Rightarrow> (case codes of None \<Rightarrow> False | Some cs \<Rightarrow> length cs = length ts))"

lemma tags_wf_ok: "tags_wf js = tags_ok (user_tags js) (tag_seq_codes js)"
  by (simp add: tags_wf_def tags_ok_def)

lemmas wf_defs = wf_status_def tags_wf_ok

lemma wf_init: "wf_status init_intJobStat"
  by (simp add: wf_defs stat_array_def tags_ok_def)

text \<open>Status updates that touch neither the state, the arrays nor the tags.\<close>

definition same_core :: "intJobStat \<Rightarrow> intJobStat \<Rightarrow> bool" where
  "same_core a b \<longleftrightarrow>
     stateEnterTimes a = stateEnterTimes b \<and> children_hist a = children_hist b \<and>
     user_tags a = user_tags b \<and> tag_seq_codes a = tag_seq_codes b"

lemma wf_same_core: "same_core a b \<Longrightarrow> wf_status b \<Longrightarrow> job_state (state a) \<Longrightarrow> wf_status a"
  by (simp add: same_core_def wf_defs)

lemma enter_state_wf:
  "wf_status js \<Longrightarrow> \<exists>js'. enter_state old e js = Inr js' \<and> wf_status js'"
proof -
  assume w: "wf_status js"
  then obtain b where "arr_store (stateEnterTimes js) (1 + state js) (c_int (tv_sec (any_timestamp e))) = Inr b"
    and "stat_array b" unfolding wf_status_def by (metis stat_array_store)
  with w show ?thesis by (simp add: enter_state_def Let_def wf_defs)
qed

lemma enter_state_keeps:
  assumes "enter_state old e js = Inr js'"
  shows "state js' = state js \<and> user_tags js' = user_tags js \<and> tag_seq_codes js' = tag_seq_codes js \<and>
    children_hist js' = children_hist js \<and> jobtype js' = jobtype js \<and> last_seqcode js' = last_seqcode js \<and>
    location js' = location js \<and> lastUpdateTime js' = any_timestamp e"
  using assms by (auto simp: enter_state_def Let_def res_simps split: if_splits)

lemma enter_state_stamped:
  assumes "enter_state old e js = Inr js'" and "old \<noteq> state js"
  shows "stamped js' e"
  using assms by (auto simp: enter_state_def stamped_def Let_def res_simps nat_less_iff)

lemma default_location_simps [simp]:
  "state (default_location s js) = state js" "jobtype (default_location s js) = jobtype js"
  "stateEnterTimes (default_location s js) = stateEnterTimes js"
  "stateEnterTime (default_location s js) = stateEnterTime js"
  "lastUpdateTime (default_location s js) = lastUpdateTime js"
  "children_hist (default_location s js) = children_hist js"
  "user_tags (default_location s js) = user_tags js"
  "tag_seq_codes (default_location s js) = tag_seq_codes js"
  "last_seqcode (default_location s js) = last_seqcode js"
  "\<exists>y. location (default_location s js) = Some y"
  by (auto simp: default_location_def)

lemma stamped_default [simp]: "stamped (default_location s js) e = stamped js e"
  by (simp add: stamped_def)

lemma wf_default [simp]: "wf_status (default_location s js) = wf_status js"
  by (simp add: wf_defs)

lemma finish_event_wf:
  "wf_status js \<Longrightarrow> \<exists>js'. finish_event loc old r e js = Inr js' \<and> wf_status js'"
proof -
  assume w: "wf_status js"
  then have "wf_status (js\<lparr>last_seqcode := Some (any_seqcode e)\<rparr>)"
    by (simp add: wf_defs)
  from enter_state_wf [OF this, of old e] w show ?thesis by (auto simp: finish_event_def)
qed

lemma finish_event_keeps:
  assumes "finish_event loc old r e js = Inr js'"
  shows "state js' = state js \<and> jobtype js' = jobtype js \<and> user_tags js' = user_tags js \<and>
    tag_seq_codes js' = tag_seq_codes js \<and> location js' \<noteq> None \<and>
    (r = RET_OK \<longrightarrow> last_seqcode js' = Some (any_seqcode e) \<and> lastUpdateTime js' = any_timestamp e) \<and>
    (r = RET_OK \<longrightarrow> old \<noteq> state js \<longrightarrow> stamped js' e) \<and>
    (r \<noteq> RET_OK \<longrightarrow> js' = default_location loc js)"
proof (cases "r = RET_OK")
  case True
  with assms obtain js1 where js1: "enter_state old e (js\<lparr>last_seqcode := Some (any_seqcode e)\<rparr>) = Inr js1"
    and js': "js' = default_location loc js1" by (auto simp: finish_event_def res_simps)
  from enter_state_keeps [OF js1] enter_state_stamped [OF js1] True js' show ?thesis by simp
next
  case False
  with assms have "js' = default_location loc js" by (simp add: finish_event_def)
  with False show ?thesis by simp
qed

lemma add_user_tag_wf:
  assumes "wf_status js"
  shows "\<exists>js'. add_user_tag junk e n v js = Inr js' \<and> wf_status js' \<and> state js' = state js \<and>
    jobtype js' = jobtype js"
proof (cases "n = None \<or> v = None")
  case True
  with assms show ?thesis by (auto simp: add_user_tag_def split: option.split)
next
  case False
  then obtain n' v' where "n = Some n'" "v = Some v'" by auto
  moreover obtain js' where "add_taglist junk n' v' (any_seqcode e) js = Inr js'" "tags_wf js'"
    using add_taglist_entry assms unfolding wf_status_def by blast
  moreover from this(1) have "state js' = state js \<and> jobtype js' = jobtype js \<and>
      stateEnterTimes js' = stateEnterTimes js \<and> children_hist js' = children_hist js"
    by (auto simp: add_taglist_def res_simps split: option.splits if_splits)
  ultimately show ?thesis using assms by (simp add: add_user_tag_def wf_status_def)
qed

lemma compare_timestamps_order:
  "compare_timestamps b a = - compare_timestamps a b"
  by (auto simp: compare_timestamps_def)

section \<open>The contract of an event processor\<close>

text \<open>
  A processor maps an event and a status to a result code and a new status, or runs into
  undefined behaviour. It never does on a status with its invariant and an acceptable
  event, keeps the invariant, and when it changes the state it stamps the status with the
  time of the event. A result of \<^verbatim>\<open>RET_SUSPECT\<close> reports an event the processor refused.
\<close>

type_synonym processor = "edg_wll_Event \<Rightarrow> intJobStat \<Rightarrow> (ret_code \<times> intJobStat) res"

fun run_events :: "processor \<Rightarrow> edg_wll_Event list \<Rightarrow> intJobStat \<Rightarrow> intJobStat res" where
  "run_events proc [] js = Inr js"
| "run_events proc (e # es) js = rbind (proc e js) (\<lambda>(r, js'). run_events proc es js')"

locale event_processor =
  fixes proc :: processor and inv :: "intJobStat \<Rightarrow> bool" and acceptable :: "edg_wll_Event \<Rightarrow> bool"
  assumes inv_wf: "inv js \<Longrightarrow> wf_status js"
    and proc_inv: "inv js \<Longrightarrow> acceptable e \<Longrightarrow> \<exists>r js'. proc e js = Inr (r, js') \<and> inv js'"
    and proc_stamp: "inv js \<Longrightarrow> acceptable e \<Longrightarrow> proc e js = Inr (r, js') \<Longrightarrow> state js' \<noteq> state js \<Longrightarrow>
                       stamped js' e"
    and proc_update: "inv js \<Longrightarrow> acceptable e \<Longrightarrow> proc e js = Inr (r, js') \<Longrightarrow> state js' = state js \<Longrightarrow>
                       stateEnterTime js' = stateEnterTime js \<and>
                       lastUpdateTime js' \<in> {lastUpdateTime js, any_timestamp e}"
begin

text \<open>Processing a list of acceptable events ends, without fault, in a status with the invariant.\<close>

lemma run_total:
  "inv js \<Longrightarrow> list_all acceptable es \<Longrightarrow> \<exists>js'. run_events proc es js = Inr js' \<and> inv js'"
proof (induction es arbitrary: js)
  case (Cons e es)
  then obtain r js1 where "proc e js = Inr (r, js1)" "inv js1" using proc_inv [of js e] by auto
  with Cons show ?case by auto
qed simp

text \<open>
  The enter time of the final state is the time of one of the events, or the state and its
  enter time are those of the beginning; so is the time of the last update.
\<close>

lemma run_times:
  "inv js \<Longrightarrow> list_all acceptable es \<Longrightarrow> run_events proc es js = Inr js' \<Longrightarrow>
   (stateEnterTime js' \<in> any_timestamp ` set es \<or>
      state js' = state js \<and> stateEnterTime js' = stateEnterTime js) \<and>
   lastUpdateTime js' \<in> insert (lastUpdateTime js) (any_timestamp ` set es)"
proof (induction es arbitrary: js)
  case (Cons e es)
  then obtain r js1 where p: "proc e js = Inr (r, js1)" and i: "inv js1"
    using proc_inv [of js e] by auto
  with Cons have IH: "(stateEnterTime js' \<in> any_timestamp ` set es \<or>
      state js' = state js1 \<and> stateEnterTime js' = stateEnterTime js1) \<and>
    lastUpdateTime js' \<in> insert (lastUpdateTime js1) (any_timestamp ` set es)" by auto
  show ?case
  proof (cases "state js1 = state js")
    case True
    with Cons.prems proc_update [OF _ _ p] IH show ?thesis by auto
  next
    case False
    with Cons.prems proc_stamp [OF _ _ p] IH show ?thesis by (auto simp: stamped_def)
  qed
qed simp

end

section \<open>Establishing the contract\<close>

text \<open>What the body of a processor, before the common end, may have done to the status.\<close>

definition body_ok :: "ret_code \<Rightarrow> intJobStat \<Rightarrow> intJobStat \<Rightarrow> bool" where
  "body_ok r js js1 \<longleftrightarrow>
     wf_status js1 \<and> (state js1 = state js \<or> r = RET_OK) \<and>
     stateEnterTime js1 = stateEnterTime js \<and> lastUpdateTime js1 = lastUpdateTime js"

definition step_ok :: "edg_wll_Event \<Rightarrow> intJobStat \<Rightarrow> intJobStat \<Rightarrow> bool" where
  "step_ok e js js' \<longleftrightarrow>
     wf_status js' \<and>
     (if state js' \<noteq> state js then stamped js' e
      else stateEnterTime js' = stateEnterTime js \<and>
           lastUpdateTime js' \<in> {lastUpdateTime js, any_timestamp e})"

lemma enter_state_unchanged:
  "enter_state (state js) e js = Inr js' \<Longrightarrow> stateEnterTime js' = stateEnterTime js"
  by (auto simp: enter_state_def Let_def)

lemma enter_state_step:
  assumes "body_ok RET_OK js js1"
  shows "\<exists>js2. enter_state (state js) e js1 = Inr js2 \<and> step_ok e js js2"
proof -
  obtain js2 where js2: "enter_state (state js) e js1 = Inr js2" "wf_status js2"
    using assms enter_state_wf [of js1 "state js" e] by (auto simp: body_ok_def)
  have "stateEnterTime js2 = stateEnterTime js" if "state js1 = state js"
    using that js2(1) enter_state_unchanged [of js1 e js2] assms by (simp add: body_ok_def)
  with js2 enter_state_keeps [OF js2(1)] enter_state_stamped [OF js2(1)] show ?thesis
    by (auto simp: step_ok_def)
qed

lemma step_ok_default [simp]: "step_ok e js (default_location loc js1) = step_ok e js js1"
  by (simp add: step_ok_def)

lemma body_ok_seqcode [simp]: "body_ok r js (js1\<lparr>last_seqcode := c\<rparr>) = body_ok r js js1"
  by (simp add: body_ok_def wf_defs)

lemma finish_event_step:
  assumes "body_ok r js js1"
  shows "\<exists>js2. finish_event loc (state js) r e js1 = Inr js2 \<and> step_ok e js js2"
proof (cases "r = RET_OK")
  case True
  with assms enter_state_step [of js "js1\<lparr>last_seqcode := Some (any_seqcode e)\<rparr>" e] show ?thesis
    by (auto simp: finish_event_def)
next
  case False
  with assms have "step_ok e js js1" by (auto simp: body_ok_def step_ok_def)
  with False show ?thesis by (simp add: finish_event_def)
qed

lemma body_ok_refl: "wf_status js \<Longrightarrow> body_ok r js js"
  by (simp add: body_ok_def)

lemma switch_finish_step:
  assumes "\<exists>js1. sw = Inr js1 \<and> body_ok r js js1"
  shows "\<exists>r' js'. rbind sw (\<lambda>js1. rbind (finish_event loc (state js) r e js1) (\<lambda>js2. Inr (rc, js2)))
           = Inr (r', js') \<and> step_ok e js js'"
proof -
  from assms obtain js1 where "sw = Inr js1" "body_ok r js js1" by blast
  with finish_event_step [OF this(2), of loc e] show ?thesis by auto
qed

lemma event_processor_wf:
  assumes "\<And>js e. wf_status js \<Longrightarrow> acceptable e \<Longrightarrow> \<exists>r js'. proc e js = Inr (r, js') \<and> step_ok e js js'"
  shows "event_processor proc wf_status acceptable"
proof
  fix js e r js'
  assume w: "wf_status js" and a: "acceptable e"
  from assms [OF this] show "\<exists>r js'. proc e js = Inr (r, js') \<and> wf_status js'"
    by (auto simp: step_ok_def)
  assume "proc e js = Inr (r, js')"
  with assms [OF w a] have s: "step_ok e js js'" by auto
  show "stamped js' e" if "state js' \<noteq> state js" using s that by (simp add: step_ok_def)
  show "stateEnterTime js' = stateEnterTime js \<and> lastUpdateTime js' \<in> {lastUpdateTime js, any_timestamp e}"
    if "state js' = state js" using s that by (simp add: step_ok_def)
qed simp

lemma body_ok_core:
  "wf_status js \<Longrightarrow> same_core js1 js \<Longrightarrow> job_state (state js1) \<Longrightarrow> state js1 = state js \<or> r = RET_OK \<Longrightarrow>
   stateEnterTime js1 = stateEnterTime js \<Longrightarrow> lastUpdateTime js1 = lastUpdateTime js \<Longrightarrow> body_ok r js js1"
  by (simp add: body_ok_def wf_same_core)

text \<open>The form in which the handlers' effects are proved.\<close>

definition state_frame :: "ret_code \<Rightarrow> intJobStat \<Rightarrow> intJobStat \<Rightarrow> bool" where
  "state_frame r js js1 \<longleftrightarrow>
     same_core js1 js \<and> (state js1 = state js \<or> r = RET_OK \<and> job_state (state js1)) \<and>
     stateEnterTime js1 = stateEnterTime js \<and> lastUpdateTime js1 = lastUpdateTime js"

lemmas frame_defs = state_frame_def same_core_def

lemma state_frame_body: "wf_status js \<Longrightarrow> state_frame r js js1 \<Longrightarrow> body_ok r js js1"
  unfolding state_frame_def by (rule body_ok_core) (auto simp: wf_status_def)

lemma add_user_tag_body:
  assumes "wf_status js"
  shows "\<exists>js1. add_user_tag junk e n v js = Inr js1 \<and> body_ok r js js1"
proof -
  obtain js1 where js1: "add_user_tag junk e n v js = Inr js1" "wf_status js1" "state js1 = state js"
    using add_user_tag_wf [OF assms] by blast
  from js1(1) have "stateEnterTime js1 = stateEnterTime js \<and> lastUpdateTime js1 = lastUpdateTime js"
    by (auto simp: add_user_tag_def add_taglist_def res_simps split: option.splits if_splits)
  with js1 show ?thesis by (simp add: body_ok_def)
qed

end
