(* ===== verification/LB_Cream.thy ===== *)
theory LB_Cream
  imports LB_Step
begin

text \<open>
  Events of CREAM jobs (\<^verbatim>\<open>org.glite.lb.state-machine/src/process_event_cream.c\<close>):
  \<^verbatim>\<open>processData_Cream\<close>, which records data of CREAM events and is also used for gLite jobs
  whose events come from CREAM, and \<^verbatim>\<open>processEvent_Cream\<close>. Sequence codes are not compared,
  every event is taken in the order of arrival.
\<close>

text \<open>The reasons already known are replaced, not extended, by the new one and a newline.\<close>

definition cream_failure :: "cstr \<Rightarrow> string \<Rightarrow> string" where
  "cream_failure old new = (case old of None \<Rightarrow> new | Some _ \<Rightarrow> new @ [CHR 0x0A])"

definition cream_status_data :: "cstr \<Rightarrow> cstr \<Rightarrow> cstr \<Rightarrow> cstr \<Rightarrow> intJobStat \<Rightarrow> intJobStat" where
  "cream_status_data ex_code fail_reason worker_node lrms_jobid js =
     (let js = (case ex_code of
                  None \<Rightarrow> js
                | Some x \<Rightarrow> if x = ''N/A'' then js else js\<lparr>cream_exit_code := atoi x, exit_code := atoi x\<rparr>);
          js = (case worker_node of None \<Rightarrow> js | Some n \<Rightarrow> js\<lparr>cream_node := Some n, ce_node := Some n\<rparr>);
          js = (case lrms_jobid of None \<Rightarrow> js | Some l \<Rightarrow> js\<lparr>cream_lrms_id := Some l, localId := Some l\<rparr>)
      in case fail_reason of
           None \<Rightarrow> js
         | Some f \<Rightarrow> js\<lparr>cream_failure_reason := Some f,
                       failure_reasons := Some (cream_failure (failure_reasons js) f)\<rparr>)"

definition cream_reg_data :: "cstr \<Rightarrow> cstr \<Rightarrow> intJobStat \<Rightarrow> intJobStat" where
  "cream_reg_data j ns js =
     js\<lparr>cream_owner := rep_cond (cream_owner js) (owner js),
        jdl := rep_cond (jdl js) j,
        cream_jdl := rep_cond (cream_jdl js) j,
        cream_endpoint := rep_cond (cream_endpoint js) ns,
        destination := rep_cond (destination js) ns,
        network_server := rep_cond (network_server js) ns\<rparr>"

definition processData_Cream :: "junk \<Rightarrow> edg_wll_Event \<Rightarrow> intJobStat \<Rightarrow> intJobStat res" where
  "processData_Cream junk e js =
     rbind
       (case ev_body e of
          EvGlite (EvRegJob j ns _ _ _ _ _) \<Rightarrow> Inr (cream_reg_data j ns js)
        | EvCream (EvCREAMAccepted local_jobid) \<Rightarrow> Inr (js\<lparr>cream_id := local_jobid, globusId := local_jobid\<rparr>)
        | EvCream (EvCREAMStatus _ _ _ result _ ex_code fail_reason worker_node lrms_jobid) \<Rightarrow>
            Inr (if result = EDG_WLL_CREAMSTATUS_DONE
                 then cream_status_data ex_code fail_reason worker_node lrms_jobid js else js)
        | EvGlite (EvUserTag name val) \<Rightarrow> add_user_tag junk e name val js
        | _ \<Rightarrow> Inr js)
       (\<lambda>js. Inr (default_location ''this is CREAM'' js))"

text \<open>The CREAM state named in a status event and the job state that follows from it.\<close>

definition cream_status_state :: "string \<Rightarrow> intJobStat \<Rightarrow> intJobStat" where
  "cream_status_state new_state js0 =
     (let cs = edg_wll_StringToCreamStat new_state; js = js0\<lparr>cream_state := cs\<rparr> in
      if cs = EDG_WLL_STAT_CREAM_PENDING then js\<lparr>state := EDG_WLL_JOB_WAITING\<rparr>
      else if cs = EDG_WLL_STAT_CREAM_IDLE then js\<lparr>state := EDG_WLL_JOB_SCHEDULED\<rparr>
      else if cs = EDG_WLL_STAT_CREAM_RUNNING then
        js\<lparr>state := EDG_WLL_JOB_RUNNING, jw_status := EDG_WLL_STAT_WRAPPER_RUNNING\<rparr>
      else if cs = EDG_WLL_STAT_CREAM_REALLY_RUNNING then
        js\<lparr>state := EDG_WLL_JOB_RUNNING, jw_status := EDG_WLL_STAT_PAYLOAD_RUNNING\<rparr>
      else if cs = EDG_WLL_STAT_CREAM_DONE_OK then
        js\<lparr>state := EDG_WLL_JOB_DONE, done_code := EDG_WLL_STAT_OK, cream_done_code := EDG_WLL_STAT_OK\<rparr>
      else if cs = EDG_WLL_STAT_CREAM_DONE_FAILED then
        js\<lparr>state := EDG_WLL_JOB_DONE, done_code := EDG_WLL_STAT_FAILED, cream_done_code := EDG_WLL_STAT_FAILED\<rparr>
      else if cs = EDG_WLL_STAT_CREAM_CANCELLED then js\<lparr>state := EDG_WLL_JOB_CANCELLED\<rparr>
      else if cs = EDG_WLL_STAT_CREAM_ABORTED then js\<lparr>state := EDG_WLL_JOB_ABORTED\<rparr>
      else if cs = EDG_WLL_STAT_CREAM_PURGED then js\<lparr>state := EDG_WLL_JOB_CLEARED\<rparr>
      else js)"

definition cream_reasons_cond :: "cstr \<Rightarrow> intJobStat \<Rightarrow> intJobStat" where
  "cream_reasons_cond r js = js\<lparr>cream_reason := rep_cond (cream_reason js) r, reason := rep_cond (reason js) r\<rparr>"

definition cream_reasons :: "cstr \<Rightarrow> intJobStat \<Rightarrow> intJobStat" where
  "cream_reasons r js = js\<lparr>cream_reason := r, reason := r\<rparr>"

definition cream_store :: "int \<Rightarrow> int \<Rightarrow> cstr \<Rightarrow> intJobStat \<Rightarrow> intJobStat" where
  "cream_store command result rsn js =
     cream_reasons_cond rsn
       (if result = EDG_WLL_CREAMSTORE_OK then
          (if command = EDG_WLL_CREAMSTORE_CMDSTART then
             js\<lparr>state := EDG_WLL_JOB_WAITING, cream_state := EDG_WLL_STAT_CREAM_PENDING\<rparr>
           else if command = EDG_WLL_CREAMSTORE_CMDSUSPEND then js\<lparr>suspended := 1\<rparr>
           else if command = EDG_WLL_CREAMSTORE_CMDRESUME then js\<lparr>suspended := 0\<rparr>
           else js)
        else js)"

definition handle_cream :: "edg_wll_Event \<Rightarrow> cream_event \<Rightarrow> intJobStat \<Rightarrow> intJobStat" where
  "handle_cream e ev js =
     (case ev of
        EvCREAMStore command cmdid result rsn \<Rightarrow> cream_store command result rsn js
      | EvCREAMCall callee command cmdid destid result rsn \<Rightarrow>
          let js = (if any_source e = SOURCE_CREAM_EXECUTOR \<and> callee = SOURCE_LRMS \<and>
                       command = EDG_WLL_CREAMCALL_CMDSTART \<and> result = EDG_WLL_CREAMCALL_OK
                    then cream_reasons rsn
                           (cream_reasons_cond rsn
                              (js\<lparr>state := EDG_WLL_JOB_SCHEDULED, cream_state := EDG_WLL_STAT_CREAM_IDLE\<rparr>))
                    else js);
              js = (if command = EDG_WLL_CREAMCALL_CMDCANCEL \<and> result = EDG_WLL_CREAMCALL_OK
                    then cream_reasons_cond rsn (js\<lparr>cream_cancelling := 1, cancelling := 1\<rparr>)
                    else js)
          in if command = EDG_WLL_CREAMCALL_CMDPURGE \<and> result = EDG_WLL_CREAMCALL_OK
             then cream_reasons_cond rsn
                    (js\<lparr>state := EDG_WLL_JOB_CLEARED, cream_state := EDG_WLL_STAT_CREAM_PURGED\<rparr>)
             else js
      | EvCREAMCancel status_code rsn \<Rightarrow>
          cream_reasons rsn
            (if status_code = EDG_WLL_CANCEL_DONE
             then js\<lparr>state := EDG_WLL_JOB_CANCELLED, cream_state := EDG_WLL_STAT_CREAM_ABORTED\<rparr> else js)
      | EvCREAMAbort rsn \<Rightarrow>
          cream_reasons rsn (js\<lparr>state := EDG_WLL_JOB_ABORTED, cream_state := EDG_WLL_STAT_CREAM_ABORTED\<rparr>)
      | EvCREAMStatus old_state new_state orig_timestamp result _ _ _ _ _ \<Rightarrow>
          if result = EDG_WLL_CREAMSTATUS_DONE then cream_status_state new_state js else js
      | _ \<Rightarrow> js)"

definition cream_switch :: "edg_wll_Event \<Rightarrow> intJobStat \<Rightarrow> intJobStat" where
  "cream_switch e js =
     (case ev_body e of
        EvCream ev \<Rightarrow> handle_cream e ev js
      | EvGlite (EvRegJob _ _ _ _ _ _ _) \<Rightarrow>
          js\<lparr>state := EDG_WLL_JOB_SUBMITTED, cream_state := EDG_WLL_STAT_CREAM_REGISTERED\<rparr>
      | _ \<Rightarrow> js)"

definition processEvent_Cream :: "junk \<Rightarrow> edg_wll_Event \<Rightarrow> intJobStat \<Rightarrow> (ret_code \<times> intJobStat) res" where
  "processEvent_Cream junk e js =
     rbind (finish_event ''this is CREAM'' (state js) RET_OK e (cream_switch e js)) (\<lambda>js1.
     rbind (processData_Cream junk e js1) (\<lambda>js2. Inr (RET_OK, js2)))"

section \<open>Correctness\<close>

lemma cream_status_data_frame: "state_frame r js (cream_status_data x f w l js)"
  by (simp add: cream_status_data_def Let_def frame_defs split: option.split)

lemma cream_status_state_frame: "state_frame RET_OK js (cream_status_state n js)"
  by (simp add: cream_status_state_def Let_def frame_defs)

lemma cream_store_frame: "state_frame RET_OK js (cream_store c r x js)"
  by (simp add: cream_store_def cream_reasons_cond_def frame_defs)

lemma handle_cream_frame: "state_frame RET_OK js (handle_cream e ev js)"
  by (cases ev; simp add: handle_cream_def Let_def cream_store_frame cream_status_state_frame)
    (simp_all add: cream_reasons_def cream_reasons_cond_def frame_defs)

lemma cream_switch_body: "wf_status js \<Longrightarrow> body_ok RET_OK js (cream_switch e js)"
proof (rule state_frame_body)
  have refl: "state_frame RET_OK js js" by (simp add: frame_defs)
  show "state_frame RET_OK js (cream_switch e js)"
  proof (cases "ev_body e")
    case (EvGlite g)
    with refl show ?thesis by (cases g; simp add: cream_switch_def; simp add: frame_defs)
  qed (simp_all add: cream_switch_def handle_cream_frame refl)
qed

text \<open>
  Recording data changes neither the state nor its times; \<open>RET_LATE\<close> in the statement stands
  for any result that forbids a change of state.
\<close>

lemma processData_Cream_body:
  assumes "wf_status js"
  shows "\<exists>js1. processData_Cream junk e js = Inr js1 \<and> body_ok RET_LATE js js1"
proof -
  have df: "body_ok RET_LATE js (default_location s js1) = body_ok RET_LATE js js1" for s js1
    by (simp add: body_ok_def)
  note refl = body_ok_refl [OF assms]
  show ?thesis
  proof (cases "ev_body e")
    case (EvGlite g)
    have reg: "body_ok RET_LATE js (cream_reg_data j ns js)" for j ns
      using assms by (simp add: body_ok_def wf_defs cream_reg_data_def)
    show ?thesis
    proof (cases g)
      case (EvUserTag n v)
      with EvGlite add_user_tag_body [OF assms, of junk e n v RET_LATE] df show ?thesis
        by (auto simp: processData_Cream_def)
    qed (simp_all add: processData_Cream_def EvGlite df refl reg)
  next
    case (EvCream c)
    have acc: "body_ok RET_LATE js (js\<lparr>cream_id := l, globusId := l\<rparr>)" for l
      using assms by (simp add: body_ok_def wf_defs)
    have st: "body_ok RET_LATE js (cream_status_data x f w l js)" for x f w l
      using assms cream_status_data_frame by (rule state_frame_body)
    show ?thesis by (cases c) (simp_all add: processData_Cream_def EvCream df refl acc st)
  qed (simp_all add: processData_Cream_def df refl)
qed

lemma step_ok_body_late:
  assumes "step_ok e js js1" and "body_ok RET_LATE js1 js2" and "stateEnterTimes js2 = stateEnterTimes js1"
  shows "step_ok e js js2"
  using assms by (auto simp: step_ok_def body_ok_def stamped_def)

definition same_codes :: "intJobStat \<Rightarrow> intJobStat \<Rightarrow> bool" where
  "same_codes js js1 \<longleftrightarrow>
     stateEnterTimes js1 = stateEnterTimes js \<and> last_seqcode js1 = last_seqcode js \<and>
     last_branch_seqcode js1 = last_branch_seqcode js \<and> branch_tag_seqcode js1 = branch_tag_seqcode js \<and>
     deep_resubmit_seqcode js1 = deep_resubmit_seqcode js \<and> last_cancel_seqcode js1 = last_cancel_seqcode js"

lemma processData_Cream_codes: "ok_res (same_codes js) (processData_Cream junk e js)"
proof -
  have "ok_res (same_codes js) (add_user_tag junk e n v js)" for n v
    by (simp add: same_codes_def add_user_tag_def add_taglist_def Let_def deref_def split: option.split)
  moreover have "same_codes js (default_location s js1) = same_codes js js1" for s js1
    by (simp add: same_codes_def default_location_def)
  moreover have "same_codes js js" "same_codes js (cream_status_data x f w l js)"
    "same_codes js (cream_reg_data j ns js)" "same_codes js (js\<lparr>cream_id := i, globusId := i\<rparr>)" for x f w l j ns i
    by (simp_all add: same_codes_def cream_status_data_def cream_reg_data_def Let_def split: option.split)
  ultimately show ?thesis
    by (cases "ev_body e"; simp add: processData_Cream_def split: glite_event.split cream_event.split)
qed

lemma processEvent_Cream_step:
  assumes "wf_status js"
  shows "\<exists>r js'. processEvent_Cream junk e js = Inr (r, js') \<and> step_ok e js js'"
proof -
  obtain js1 where js1: "finish_event ''this is CREAM'' (state js) RET_OK e (cream_switch e js) = Inr js1"
    and st: "step_ok e js js1"
    using finish_event_step [OF cream_switch_body [OF assms]] by blast
  then have "wf_status js1" by (simp add: step_ok_def)
  then obtain js2 where js2: "processData_Cream junk e js1 = Inr js2" "body_ok RET_LATE js1 js2"
    using processData_Cream_body by blast
  from processData_Cream_codes [of js1 junk e] js2(1) have "stateEnterTimes js2 = stateEnterTimes js1"
    by (simp add: same_codes_def)
  with step_ok_body_late [OF st js2(2)] js1 js2(1) show ?thesis by (simp add: processEvent_Cream_def)
qed

interpretation cream: event_processor "processEvent_Cream junk" wf_status "\<lambda>e. True"
  using processEvent_Cream_step by (rule event_processor_wf)

text \<open>
  No sequence of events whatsoever makes the CREAM processor fault: from a fresh status
  it always ends in a well-formed status whose enter time is that of one of the events,
  unless the job is still in its initial state.
\<close>

theorem cream_run_sound:
  "\<exists>js. run_events (processEvent_Cream junk) es init_intJobStat = Inr js \<and> wf_status js \<and>
     (stateEnterTime js \<in> any_timestamp ` set es \<or> state js = EDG_WLL_JOB_UNDEF)"
proof -
  have "list_all (\<lambda>e :: edg_wll_Event. True) es" by (simp add: list_all_iff)
  with cream.run_total [OF wf_init this, of junk] cream.run_times [OF wf_init this, of junk]
  show ?thesis by fastforce
qed

text \<open>What a CREAM state means for the job: the job state it gives, if any.\<close>

definition cream_job_state :: "int \<Rightarrow> int option" where
  "cream_job_state cs =
     map_of [(EDG_WLL_STAT_CREAM_PENDING, EDG_WLL_JOB_WAITING), (EDG_WLL_STAT_CREAM_IDLE, EDG_WLL_JOB_SCHEDULED),
             (EDG_WLL_STAT_CREAM_RUNNING, EDG_WLL_JOB_RUNNING),
             (EDG_WLL_STAT_CREAM_REALLY_RUNNING, EDG_WLL_JOB_RUNNING),
             (EDG_WLL_STAT_CREAM_DONE_OK, EDG_WLL_JOB_DONE), (EDG_WLL_STAT_CREAM_DONE_FAILED, EDG_WLL_JOB_DONE),
             (EDG_WLL_STAT_CREAM_CANCELLED, EDG_WLL_JOB_CANCELLED),
             (EDG_WLL_STAT_CREAM_ABORTED, EDG_WLL_JOB_ABORTED), (EDG_WLL_STAT_CREAM_PURGED, EDG_WLL_JOB_CLEARED)] cs"

lemma cream_status_state_spec:
  "state (cream_status_state n js) =
     (case cream_job_state (edg_wll_StringToCreamStat n) of None \<Rightarrow> state js | Some st \<Rightarrow> st)"
  "cream_state (cream_status_state n js) = edg_wll_StringToCreamStat n"
  by (simp_all add: cream_status_state_def cream_job_state_def Let_def)

lemma cream_status_data_keeps:
  "cream_state (cream_status_data x f w l js) = cream_state js"
  "state (cream_status_data x f w l js) = state js"
  "failure_reasons (cream_status_data x (Some g) w l js) = Some (cream_failure (failure_reasons js) g)"
  "failure_reasons (cream_status_data x None w l js) = failure_reasons js"
  by (simp_all add: cream_status_data_def Let_def split: option.split)

lemma finish_event_other:
  assumes "finish_event loc old r e js = Inr js'"
  shows "failure_reasons js' = failure_reasons js \<and> cream_state js' = cream_state js"
proof -
  have "ok_res (\<lambda>js'. failure_reasons js' = failure_reasons js \<and> cream_state js' = cream_state js)
      (finish_event loc old r e js)"
    by (simp add: finish_event_def enter_state_def default_location_def Let_def ok_resI)
  with assms show ?thesis by simp
qed

text \<open>
  A CREAM status event puts the job into the state that corresponds to the CREAM state
  it names (and leaves the state alone for registered, held and unknown ones), records the
  CREAM state, and replaces the failure reasons known so far by the new one instead of
  adding to them.
\<close>

theorem cream_status_event:
  assumes "wf_status js"
    and "ev_body e = EvCream (EvCREAMStatus old new ts EDG_WLL_CREAMSTATUS_DONE descr x f w l)"
  shows "\<exists>js'. processEvent_Cream junk e js = Inr (RET_OK, js') \<and>
    state js' = (case cream_job_state (edg_wll_StringToCreamStat new) of None \<Rightarrow> state js | Some st \<Rightarrow> st) \<and>
    cream_state js' = edg_wll_StringToCreamStat new \<and>
    failure_reasons js' =
      (case f of None \<Rightarrow> failure_reasons js
       | Some g \<Rightarrow> Some (g @ (if failure_reasons js = None then [] else [CHR 0x0A])))"
proof -
  have sw: "cream_switch e js = cream_status_state new js"
    using assms(2) by (simp add: cream_switch_def handle_cream_def)
  obtain js1 where fin: "finish_event ''this is CREAM'' (state js) RET_OK e (cream_status_state new js) = Inr js1"
    using finish_event_step [OF cream_switch_body [OF assms(1), of e]] sw by auto
  have fr: "failure_reasons (cream_status_state new js) = failure_reasons js"
    by (simp add: cream_status_state_def Let_def)
  have "processEvent_Cream junk e js =
      Inr (RET_OK, default_location ''this is CREAM'' (cream_status_data x f w l js1))"
    using fin sw assms(2) by (simp add: processEvent_Cream_def processData_Cream_def)
  moreover have "cream_state (default_location s k) = cream_state k"
    "failure_reasons (default_location s k) = failure_reasons k" for s k
    by (simp_all add: default_location_def)
  ultimately show ?thesis
    using finish_event_keeps [OF fin] finish_event_other [OF fin] fr
    by (cases f) (auto simp: cream_status_data_keeps cream_status_state_spec cream_failure_def split: option.split)
qed

definition example_cream_event :: edg_wll_Event where
  "example_cream_event =
     \<lparr>any_timestamp = \<lparr>tv_sec = 1200000000, tv_usec = 5\<rparr>, any_arrived = null_timeval,
      any_host = Some ''ce1'', any_level = 8, any_priority = 0, any_jobId = None,
      any_seqcode = example_code1, any_user = None, any_source = SOURCE_CREAM_EXECUTOR, any_src_instance = None,
      ev_body = EvCream (EvCREAMStatus None ''done-failed'' null_timeval EDG_WLL_CREAMSTATUS_DONE None
                           (Some ''1'') (Some ''disk full'') None None)\<rparr>"

theorem cream_status_event_witness:
  "\<exists>js'. processEvent_Cream (\<lambda>_ _. (0, 0)) example_cream_event
       (init_intJobStat\<lparr>failure_reasons := Some ''no proxy''\<rparr>) = Inr (RET_OK, js') \<and>
     state js' = EDG_WLL_JOB_DONE \<and> failure_reasons js' = Some (''disk full'' @ [CHR 0x0A])"
proof -
  let ?js = "init_intJobStat\<lparr>failure_reasons := Some ''no proxy''\<rparr>"
  have w: "wf_status ?js" using wf_init by (simp add: wf_defs)
  have c: "edg_wll_StringToCreamStat ''done-failed'' = 7" by code_simp
  have b: "ev_body example_cream_event =
      EvCream (EvCREAMStatus None ''done-failed'' null_timeval EDG_WLL_CREAMSTATUS_DONE None
                           (Some ''1'') (Some ''disk full'') None None)"
    by (simp add: example_cream_event_def)
  from cream_status_event [OF w b, of "\<lambda>_ _. (0, 0)"] show ?thesis
    by (auto simp: c cream_job_state_def)
qed

end
