(* ===== verification/LB_FileTransfer.thy ===== *)
theory LB_FileTransfer
  imports LB_Step
begin

text \<open>
  Events of file transfer jobs and of collections of them
  (\<^verbatim>\<open>org.glite.lb.state-machine/src/process_event_file_transfer.c\<close> and
  \<^verbatim>\<open>process_event_file_transfer_collection.c\<close>). Sequence codes are not compared.
\<close>

definition sandbox_data :: "int \<Rightarrow> cstr \<Rightarrow> intJobStat \<Rightarrow> intJobStat" where
  "sandbox_data sandbox_type compute_job js =
     (let js = (if sandbox_type = EDG_WLL_SANDBOX_INPUT then js\<lparr>ft_sandbox_type := EDG_WLL_STAT_INPUT\<rparr> else js);
          js = (if sandbox_type = EDG_WLL_SANDBOX_OUTPUT then js\<lparr>ft_sandbox_type := EDG_WLL_STAT_OUTPUT\<rparr> else js)
      in case compute_job of None \<Rightarrow> js | Some s \<Rightarrow> js\<lparr>ft_compute_job := parsed_jobid s\<rparr>)"

definition ft_transfer :: "int \<Rightarrow> cstr \<Rightarrow> intJobStat \<Rightarrow> intJobStat" where
  "ft_transfer result rsn js =
     (if result = EDG_WLL_FILETRANSFER_START then js\<lparr>state := EDG_WLL_JOB_RUNNING\<rparr>
      else if result = EDG_WLL_FILETRANSFER_OK then
        js\<lparr>state := EDG_WLL_JOB_DONE, done_code := EDG_WLL_STAT_OK\<rparr>
      else if result = EDG_WLL_FILETRANSFER_FAIL then
        js\<lparr>state := EDG_WLL_JOB_DONE, done_code := EDG_WLL_STAT_FAILED, failure_reasons := rsn\<rparr>
      else js)"

definition ft_switch :: "edg_wll_Event \<Rightarrow> intJobStat \<Rightarrow> intJobStat" where
  "ft_switch e js =
     (case ev_body e of
        EvGlite (EvRegJob _ _ par _ _ _ _) \<Rightarrow>
          js\<lparr>state := EDG_WLL_JOB_SUBMITTED, parent_job := glite_jobid_dup par\<rparr>
      | EvFt (EvFileTransferRegister src dst) \<Rightarrow> js\<lparr>ft_src := src, ft_dest := dst\<rparr>
      | EvFt (EvFileTransfer result rsn) \<Rightarrow> ft_transfer result rsn js
      | EvGlite (EvAbort rsn) \<Rightarrow>
          js\<lparr>state := EDG_WLL_JOB_ABORTED, remove_from_proxy := 1, reason := rsn, location := Some ''none''\<rparr>
      | EvFt (EvSandbox sandbox_type _ compute_job) \<Rightarrow> sandbox_data sandbox_type compute_job js
      | EvGlite (EvResubmission result rsn _) \<Rightarrow>
          if result = EDG_WLL_RESUBMISSION_WONTRESUB then js\<lparr>reason := rsn\<rparr> else js
      | _ \<Rightarrow> js)"

definition processEvent_FileTransfer :: "edg_wll_Event \<Rightarrow> intJobStat \<Rightarrow> (ret_code \<times> intJobStat) res" where
  "processEvent_FileTransfer e js =
     rbind (Inr (ft_switch e js)) (\<lambda>js1.
     rbind (finish_event ''this is FILE TRANSFER'' (state js) RET_OK e js1) (\<lambda>js2. Inr (RET_OK, js2)))"

text \<open>The histogram element for subjobs in an unknown state gets the number of all of them.\<close>

definition register_children :: "int \<Rightarrow> intJobStat \<Rightarrow> intJobStat res" where
  "register_children nsubjobs js =
     rbind (arr_store (children_hist js) (EDG_WLL_JOB_UNKNOWN + 1) nsubjobs) (\<lambda>h.
       Inr (js\<lparr>children_num := nsubjobs, children_hist := h\<rparr>))"

text \<open>A state given by name; one that is no state name is stored as \<^verbatim>\<open>-1\<close>.\<close>

definition collection_state :: "string \<Rightarrow> int \<Rightarrow> intJobStat \<Rightarrow> intJobStat" where
  "collection_state name done_c js =
     (let new_state = edg_wll_StringToStat name in
      if new_state = EDG_WLL_JOB_DONE then js\<lparr>state := new_state, done_code := done_c\<rparr>
      else js\<lparr>state := new_state\<rparr>)"

definition ftc_switch :: "edg_wll_Event \<Rightarrow> intJobStat \<Rightarrow> intJobStat res" where
  "ftc_switch e js =
     (case ev_body e of
        EvGlite (EvRegJob _ _ _ _ nsubjobs _ _) \<Rightarrow>
          register_children nsubjobs (js\<lparr>state := EDG_WLL_JOB_SUBMITTED\<rparr>)
      | EvFt (EvSandbox sandbox_type _ compute_job) \<Rightarrow> Inr (sandbox_data sandbox_type compute_job js)
      | EvGlite (EvCollectionState name done_c _ _ _) \<Rightarrow> Inr (collection_state name done_c js)
      | _ \<Rightarrow> Inr js)"

definition processEvent_FileTransferCollection ::
  "edg_wll_Event \<Rightarrow> intJobStat \<Rightarrow> (ret_code \<times> intJobStat) res" where
  "processEvent_FileTransferCollection e js =
     rbind (ftc_switch e js) (\<lambda>js1.
     rbind (finish_event ''this is FILE TRANSFER'' (state js) RET_OK e js1) (\<lambda>js2. Inr (RET_OK, js2)))"

section \<open>Correctness\<close>

lemma sandbox_data_frame: "state_frame r js (sandbox_data t c js)"
  by (simp add: sandbox_data_def Let_def frame_defs split: option.split)

lemma ft_transfer_frame: "state_frame RET_OK js (ft_transfer x rsn js)"
  by (simp add: ft_transfer_def frame_defs)

lemma ft_switch_frame: "state_frame RET_OK js (ft_switch e js)"
proof -
  have refl: "state_frame RET_OK js js" by (simp add: frame_defs)
  show ?thesis
  proof (cases "ev_body e")
    case (EvGlite g)
    with refl show ?thesis by (cases g; simp add: ft_switch_def; simp add: frame_defs)
  next
    case (EvFt t)
    with refl show ?thesis
      by (cases t; simp add: ft_switch_def ft_transfer_frame sandbox_data_frame; simp add: frame_defs)
  qed (simp_all add: ft_switch_def refl)
qed

lemma processEvent_FileTransfer_step:
  assumes "wf_status js"
  shows "\<exists>r js'. processEvent_FileTransfer e js = Inr (r, js') \<and> step_ok e js js'"
  unfolding processEvent_FileTransfer_def
  by (rule switch_finish_step) (simp add: state_frame_body [OF assms ft_switch_frame])

interpretation ft: event_processor processEvent_FileTransfer wf_status "\<lambda>e. True"
  using processEvent_FileTransfer_step by (rule event_processor_wf)

lemma register_children_body:
  assumes "wf_status js"
  shows "\<exists>js1. register_children n js = Inr js1 \<and> body_ok r js js1 \<and> children_num js1 = n \<and>
    (\<exists>h. children_hist js1 = Some h \<and> h ! 11 = n)"
proof -
  from assms obtain xs where xs: "children_hist js = Some xs" "length xs = 13" "xs ! 0 = 12"
    by (auto simp: wf_status_def stat_array_def split: option.splits)
  with assms show ?thesis
    by (simp add: register_children_def arr_store_def body_ok_def wf_defs stat_array_def)
qed

definition known_state_name :: "string \<Rightarrow> bool" where
  "known_state_name name \<longleftrightarrow> edg_wll_StringToStat name \<noteq> - 1"

definition ftc_acceptable :: "edg_wll_Event \<Rightarrow> bool" where
  "ftc_acceptable e =
     (case ev_body e of
        EvGlite (EvCollectionState name _ _ _ _) \<Rightarrow> known_state_name name
      | _ \<Rightarrow> True)"

lemma known_state_range: "known_state_name name \<Longrightarrow> job_state (edg_wll_StringToStat name)"
  using StringToStat_range [of name] by (auto simp: known_state_name_def job_state_def)

lemma collection_state_frame:
  "known_state_name name \<Longrightarrow> state_frame RET_OK js (collection_state name d js)"
  using known_state_range [of name] by (simp add: collection_state_def Let_def frame_defs)

lemma ftc_switch_body:
  assumes "wf_status js" and "ftc_acceptable e"
  shows "\<exists>js1. ftc_switch e js = Inr js1 \<and> body_ok RET_OK js js1"
proof (cases "ev_body e")
  case (EvGlite g)
  show ?thesis
  proof (cases g)
    case (EvRegJob a b c d n f h)
    have "wf_status (js\<lparr>state := 1\<rparr>)" using assms(1) by (simp add: wf_defs)
    from register_children_body [OF this, of n RET_OK] EvGlite EvRegJob show ?thesis
      by (auto simp: ftc_switch_def body_ok_def)
  next
    case (EvCollectionState name d a b c)
    with EvGlite assms state_frame_body collection_state_frame show ?thesis
      by (simp add: ftc_switch_def ftc_acceptable_def)
  qed (simp_all add: ftc_switch_def EvGlite body_ok_refl assms(1))
next
  case (EvFt t)
  with assms(1) state_frame_body [OF assms(1) sandbox_data_frame] show ?thesis
    by (cases t) (simp_all add: ftc_switch_def body_ok_refl)
qed (simp_all add: ftc_switch_def body_ok_refl assms(1))

lemma processEvent_FTC_step:
  assumes "wf_status js" and "ftc_acceptable e"
  shows "\<exists>r js'. processEvent_FileTransferCollection e js = Inr (r, js') \<and> step_ok e js js'"
  unfolding processEvent_FileTransferCollection_def
  by (rule switch_finish_step [OF ftc_switch_body [OF assms]])

interpretation ftc: event_processor processEvent_FileTransferCollection wf_status ftc_acceptable
  using processEvent_FTC_step by (rule event_processor_wf)

text \<open>
  Any sequence of events whose collection states are real state names is processed,
  from a fresh status of a collection of transfers, without fault; the status stays
  well-formed (both arrays keep their length fields), and its enter time is that of one of
  the events unless the job is still in its initial state.
\<close>

theorem ftc_run_sound:
  assumes "list_all ftc_acceptable es"
  shows "\<exists>js. run_events processEvent_FileTransferCollection es init_intJobStat = Inr js \<and> wf_status js \<and>
    (stateEnterTime js \<in> any_timestamp ` set es \<or> state js = EDG_WLL_JOB_UNDEF)"
  using ftc.run_total [OF wf_init assms] ftc.run_times [OF wf_init assms] by fastforce

definition example_collection_event :: "string \<Rightarrow> edg_wll_Event" where
  "example_collection_event name =
     \<lparr>any_timestamp = \<lparr>tv_sec = 1200000000, tv_usec = 5\<rparr>, any_arrived = null_timeval,
      any_host = Some ''lb1'', any_level = 8, any_priority = 0, any_jobId = None,
      any_seqcode = example_code1, any_user = None, any_source = SOURCE_LB_SERVER, any_src_instance = None,
      ev_body = EvGlite (EvCollectionState name 0 None None None)\<rparr>"

lemma example_state_names:
  "edg_wll_StringToStat ''Running'' = 5" "edg_wll_StringToStat ''Finished'' = - 1"
  by code_simp+

theorem ftc_run_sound_witness:
  "\<exists>js. run_events processEvent_FileTransferCollection [example_collection_event ''Running''] init_intJobStat
     = Inr js \<and> wf_status js"
proof -
  have "list_all ftc_acceptable [example_collection_event ''Running'']"
    by (simp add: ftc_acceptable_def example_collection_event_def known_state_name_def example_state_names)
  from ftc_run_sound [OF this] show ?thesis by blast
qed

text \<open>
  A collection state event with a name that is no state name makes the state \<^verbatim>\<open>-1\<close> and
  overwrites the length field of the array of enter times with the time of the event.
\<close>

theorem collection_state_unknown_name:
  assumes "wf_status js" and "ev_body e = EvGlite (EvCollectionState name d h c ce)"
    and "\<not> known_state_name name"
  shows "\<exists>js' xs. processEvent_FileTransferCollection e js = Inr (RET_OK, js') \<and> state js' = - 1 \<and>
    stateEnterTimes js' = Some xs \<and> xs ! 0 = c_int (tv_sec (any_timestamp e))"
proof -
  from assms(1) obtain xs where xs: "stateEnterTimes js = Some xs" "length xs = 13"
    by (auto simp: wf_status_def stat_array_def split: option.splits)
  have "state js \<noteq> - 1" using assms(1) by (simp add: wf_status_def job_state_def)
  with xs assms(2,3) show ?thesis
    by (simp add: processEvent_FileTransferCollection_def ftc_switch_def collection_state_def known_state_name_def
        finish_event_def enter_state_def arr_store_def Let_def default_location_def)
qed

theorem collection_state_unknown_name_witness:
  "\<exists>js' xs. processEvent_FileTransferCollection (example_collection_event ''Finished'') init_intJobStat =
       Inr (RET_OK, js') \<and> stateEnterTimes js' = Some xs \<and> xs ! 0 = 1200000000"
proof -
  have b: "ev_body (example_collection_event ''Finished'') = EvGlite (EvCollectionState ''Finished'' 0 None None None)"
    and t: "c_int (tv_sec (any_timestamp (example_collection_event ''Finished''))) = 1200000000"
    by (simp_all add: example_collection_event_def c_int_def)
  have n: "\<not> known_state_name ''Finished''" by (simp add: known_state_name_def example_state_names)
  from collection_state_unknown_name [OF wf_init b n] t show ?thesis by auto
qed

end
