(* ===== verification/LB_Glite.thy ===== *)
theory LB_Glite
  imports LB_Cream LB_FileTransfer
begin

text \<open>
  Events of gLite jobs, DAGs and collections: \<^verbatim>\<open>processEvent_glite\<close> of
  \<^verbatim>\<open>org.glite.lb.state-machine/src/process_event.c\<close>. The function first classifies the event
  by sequence codes, resubmissions and branches (\<open>classify_event\<close>), lets CREAM data be
  recorded, then runs one handler per event type, and ends with the bookkeeping
  (\<open>finish_glite\<close>). A handler returns the new status with the result code and the two
  flags \<^verbatim>\<open>lm_favour_lrms\<close> and \<^verbatim>\<open>ignore_seq_code\<close>, or jumps to \<^verbatim>\<open>bad_event\<close>, which ends the
  function with \<^verbatim>\<open>RET_SUSPECT\<close> and the status as it is at that moment.
\<close>

datatype outcome = Handled intJobStat ret_code bool bool | BadEvent intJobStat

definition handled :: "ret_code \<Rightarrow> intJobStat \<Rightarrow> outcome res" where
  "handled r js = Inr (Handled js r False False)"

definition bad_event :: "intJobStat \<Rightarrow> outcome res" where
  "bad_event js = Inr (BadEvent js)"

section \<open>Classification\<close>

definition is_cancel :: "edg_wll_Event \<Rightarrow> bool" where
  "is_cancel e = (case ev_body e of EvGlite (EvCancel _ _) \<Rightarrow> True | _ \<Rightarrow> False)"

definition is_collection_state :: "edg_wll_Event \<Rightarrow> bool" where
  "is_collection_state e = (case ev_body e of EvGlite (EvCollectionState _ _ _ _ _) \<Rightarrow> True | _ \<Rightarrow> False)"

definition older :: "junk \<Rightarrow> edg_wll_Event \<Rightarrow> cstr \<Rightarrow> bool" where
  "older junk e code \<longleftrightarrow>
     (case code of None \<Rightarrow> False | Some c \<Rightarrow> edg_wll_compare_seq junk (any_seqcode e) c < 0)"

text \<open>A new event from the network server or user interface ends all resubmission loops.\<close>

definition forget_loops :: "edg_wll_Event \<Rightarrow> intJobStat \<Rightarrow> intJobStat" where
  "forget_loops e js =
     (if \<not> is_cancel e \<and>
         (case last_seqcode js of None \<Rightarrow> False | Some l \<Rightarrow> after_enter_wm (any_seqcode e) l)
      then js\<lparr>branch_tag_seqcode := None, deep_resubmit_seqcode := None, last_branch_seqcode := None\<rparr>
      else js)"

definition finished_before :: "edg_wll_Event \<Rightarrow> intJobStat \<Rightarrow> bool" where
  "finished_before e js \<longleftrightarrow>
     (state js = EDG_WLL_JOB_ABORTED \<and> \<not> is_collection_state e) \<or>
     state js = EDG_WLL_JOB_CANCELLED \<or> state js = EDG_WLL_JOB_CLEARED"

definition too_old :: "edg_wll_Event \<Rightarrow> intJobStat \<Rightarrow> bool" where
  "too_old e js \<longleftrightarrow>
     (case deep_resubmit_seqcode js of
        None \<Rightarrow> False
      | Some d \<Rightarrow> before_deep_resubmission (any_seqcode e) d)"

definition classify_event :: "junk \<Rightarrow> edg_wll_Event \<Rightarrow> intJobStat \<Rightarrow> ret_code \<times> ret_code" where
  "classify_event junk e js =
     (let r0 = (if finished_before e js then RET_LATE else RET_OK) in
      if too_old e js then (RET_LATE, RET_TOOOLD)
      else
        (case branch_tag_seqcode js of
           Some tag \<Rightarrow>
             if same_branch (any_seqcode e) tag then
               (if older junk e (last_branch_seqcode js) then RET_LATE else r0, RET_GOODBRANCH)
             else (RET_LATE, RET_BADBRANCH)
         | None \<Rightarrow> (if older junk e (last_seqcode js) then RET_LATE else r0, RET_OK)))"

section \<open>Handlers\<close>

definition handle_transfer ::
  "bool \<Rightarrow> edg_wll_Event \<Rightarrow> int \<Rightarrow> ret_code \<Rightarrow> edg_wll_Source \<Rightarrow> cstr \<Rightarrow> cstr \<Rightarrow> cstr \<Rightarrow> int \<Rightarrow> cstr \<Rightarrow>
   intJobStat \<Rightarrow> outcome res" where
  "handle_transfer strict e old r0 dest dest_host dest_instance job result rsn js0 =
     (let src = any_source e;
          lrms = LRMS_STATE old;
          target =
            (if result = EDG_WLL_TRANSFER_OK then
               (if src = SOURCE_USER_INTERFACE then Some (EDG_WLL_JOB_WAITING, r0, False)
                else if src = SOURCE_JOB_SUBMISSION then Some (EDG_WLL_JOB_READY, r0, False)
                else if src = SOURCE_LOG_MONITOR then
                  Some (EDG_WLL_JOB_SCHEDULED, if lrms then RET_LATE else r0, True)
                else None)
             else if result = EDG_WLL_TRANSFER_FAIL then
               (if src = SOURCE_USER_INTERFACE then Some (EDG_WLL_JOB_SUBMITTED, r0, False)
                else if src = SOURCE_JOB_SUBMISSION \<or> src = SOURCE_LOG_MONITOR then
                  Some (EDG_WLL_JOB_READY, if lrms then RET_LATE else r0, False)
                else None)
             else Some (EDG_WLL_JOB_UNKNOWN, RET_IGNORE, False))
      in case target of
           None \<Rightarrow> bad_event js0
         | Some (new_state, r, lm_favour_lrms) \<Rightarrow>
             rbind (if result = EDG_WLL_TRANSFER_OK \<and> src = SOURCE_LOG_MONITOR \<and> lrms then
                      rbind (arr_store (stateEnterTimes js0) (1 + EDG_WLL_JOB_SCHEDULED)
                               (c_int (tv_sec (any_timestamp e)))) (\<lambda>times.
                        Inr (js0\<lparr>stateEnterTimes := times\<rparr>))
                    else Inr js0) (\<lambda>js1.
             let js = (if USABLE r strict then
                         js1\<lparr>state := new_state, reason := rsn,
                            location :=
                              (if result = EDG_WLL_TRANSFER_OK
                               then location_string_source dest dest_host dest_instance
                               else location_string_source src (any_host e) (any_src_instance e))\<rparr>
                       else js1)
             in if USABLE_DATA r strict then
                  (if src = SOURCE_USER_INTERFACE then
                     Inr (Handled (if jdl js = None then js\<lparr>jdl := job\<rparr> else js) r lm_favour_lrms False)
                   else if src = SOURCE_JOB_SUBMISSION then
                     Inr (Handled (js\<lparr>condor_jdl := job\<rparr>) r lm_favour_lrms False)
                   else if src = SOURCE_LOG_MONITOR then
                     Inr (Handled (js\<lparr>rsl := job\<rparr>) r lm_favour_lrms False)
                   else bad_event js)
                else Inr (Handled js r lm_favour_lrms False)))"

definition handle_accepted ::
  "bool \<Rightarrow> edg_wll_Event \<Rightarrow> int \<Rightarrow> ret_code \<Rightarrow> cstr \<Rightarrow> cstr \<Rightarrow> intJobStat \<Rightarrow> outcome res" where
  "handle_accepted strict e old r0 from_host local_jobid js0 =
     (let src = any_source e;
          target =
            (if src = SOURCE_NETWORK_SERVER then Some (EDG_WLL_JOB_WAITING, r0, False)
             else if src = SOURCE_LOG_MONITOR then
               Some (EDG_WLL_JOB_READY, if LRMS_STATE old then RET_LATE else r0, True)
             else if src = SOURCE_LRMS then Some (EDG_WLL_JOB_SCHEDULED, r0, False)
             else None)
      in case target of
           None \<Rightarrow> bad_event js0
         | Some (new_state, r, lm_favour_lrms) \<Rightarrow>
             let js = (if USABLE r strict then
                         js0\<lparr>state := new_state,
                            location := location_string_source src (any_host e) (any_src_instance e)\<rparr>
                       else js0);
                 js = (if USABLE_DATA r strict then
                         (if src = SOURCE_NETWORK_SERVER then js\<lparr>ui_host := from_host\<rparr>
                          else if src = SOURCE_LOG_MONITOR then js\<lparr>condorId := local_jobid\<rparr>
                          else js\<lparr>globusId := local_jobid\<rparr>)
                       else js)
             in Inr (Handled js r lm_favour_lrms False))"

definition handle_refused ::
  "bool \<Rightarrow> edg_wll_Event \<Rightarrow> ret_code \<Rightarrow> edg_wll_Source \<Rightarrow> cstr \<Rightarrow> cstr \<Rightarrow> cstr \<Rightarrow> intJobStat \<Rightarrow> outcome res" where
  "handle_refused strict e r from from_host from_instance rsn js =
     (let src = any_source e in
      if src = SOURCE_NETWORK_SERVER \<or> src = SOURCE_LOG_MONITOR \<or> src = SOURCE_LRMS then
        handled r
          (if USABLE r strict then
             js\<lparr>state := (if src = SOURCE_NETWORK_SERVER then EDG_WLL_JOB_SUBMITTED else EDG_WLL_JOB_READY),
                reason := rsn,
                location := location_string_source from from_host from_instance\<rparr>
           else js)
      else bad_event js)"

definition handle_enqueued ::
  "bool \<Rightarrow> edg_wll_Event \<Rightarrow> int \<Rightarrow> ret_code \<Rightarrow> cstr \<Rightarrow> cstr \<Rightarrow> int \<Rightarrow> cstr \<Rightarrow> intJobStat \<Rightarrow> outcome res" where
  "handle_enqueued strict e old r0 queue job result rsn js0 =
     (let src = any_source e;
          target =
            (if result = EDG_WLL_ENQUEUED_OK then
               (if src = SOURCE_NETWORK_SERVER then Some (EDG_WLL_JOB_WAITING, r0)
                else if src = SOURCE_WORKLOAD_MANAGER then
                  Some (EDG_WLL_JOB_READY, if LRMS_STATE old then RET_LATE else r0)
                else if src = SOURCE_LOG_MONITOR then Some (EDG_WLL_JOB_WAITING, r0)
                else None)
             else if result = EDG_WLL_ENQUEUED_FAIL then
               (if src = SOURCE_NETWORK_SERVER then Some (EDG_WLL_JOB_WAITING, r0)
                else if src = SOURCE_WORKLOAD_MANAGER then Some (EDG_WLL_JOB_WAITING, r0)
                else if src = SOURCE_LOG_MONITOR then Some (old, r0)
                else None)
             else Some (EDG_WLL_JOB_UNKNOWN, RET_IGNORE))
      in case target of
           None \<Rightarrow> bad_event js0
         | Some (new_state, r) \<Rightarrow>
             let js = (if result = EDG_WLL_ENQUEUED_OK \<and> src = SOURCE_WORKLOAD_MANAGER
                       then js0\<lparr>branch_states :=
                              update_branch_state (any_seqcode e) None None job (branch_states js0)\<rparr>
                       else js0);
                 js = (if USABLE r strict then
                         (if result = EDG_WLL_ENQUEUED_OK then
                            js\<lparr>state := new_state, reason := rsn,
                               location := location_string_queue queue (any_host e) (any_src_instance e),
                               resubmitted := (if src = SOURCE_LOG_MONITOR then 1 else resubmitted js)\<rparr>
                          else
                            js\<lparr>state := new_state, reason := rsn,
                               location := location_string_source src (any_host e) (any_src_instance e)\<rparr>)
                       else js)
             in if USABLE_DATA r strict then
                  (if src = SOURCE_NETWORK_SERVER then
                     handled r (if jdl js = None \<or> result = EDG_WLL_ENQUEUED_OK then js\<lparr>jdl := job\<rparr> else js)
                   else if src = SOURCE_WORKLOAD_MANAGER then
                     handled r (if USABLE_BRANCH r then js\<lparr>matched_jdl := job\<rparr> else js)
                   else if src = SOURCE_LOG_MONITOR then handled r js
                   else bad_event js)
                else handled r js)"

definition handle_dequeued :: "bool \<Rightarrow> edg_wll_Event \<Rightarrow> int \<Rightarrow> ret_code \<Rightarrow> intJobStat \<Rightarrow> outcome res" where
  "handle_dequeued strict e old r0 js =
     (let src = any_source e;
          target =
            (if src = SOURCE_WORKLOAD_MANAGER then Some (EDG_WLL_JOB_WAITING, r0)
             else if src = SOURCE_JOB_SUBMISSION then
               Some (EDG_WLL_JOB_READY, if LRMS_STATE old then RET_LATE else r0)
             else None)
      in case target of
           None \<Rightarrow> bad_event js
         | Some (new_state, r) \<Rightarrow>
             handled r
               (if USABLE r strict then
                  js\<lparr>state := new_state,
                     location := location_string_source src (any_host e) (any_src_instance e)\<rparr>
                else js))"

definition handle_helper_call :: "bool \<Rightarrow> edg_wll_Event \<Rightarrow> ret_code \<Rightarrow> cstr \<Rightarrow> intJobStat \<Rightarrow> outcome res" where
  "handle_helper_call strict e r helper_name js =
     handled r
       (if USABLE r strict then
          js\<lparr>state := EDG_WLL_JOB_WAITING,
             location := location_string_queue helper_name (any_host e) (any_src_instance e)\<rparr>
        else js)"

definition handle_helper_return :: "bool \<Rightarrow> edg_wll_Event \<Rightarrow> ret_code \<Rightarrow> intJobStat \<Rightarrow> outcome res" where
  "handle_helper_return strict e r js =
     handled r
       (if USABLE r strict then
          js\<lparr>state := EDG_WLL_JOB_WAITING,
             location := location_string_source SOURCE_WORKLOAD_MANAGER (any_host e) (any_src_instance e)\<rparr>
        else js)"

definition handle_running ::
  "bool \<Rightarrow> edg_wll_Event \<Rightarrow> ret_code \<Rightarrow> ret_code \<Rightarrow> cstr \<Rightarrow> intJobStat \<Rightarrow> outcome res" where
  "handle_running strict e r fine_res node js0 =
     (let js = (if USABLE r strict then
                  js0\<lparr>state := EDG_WLL_JOB_RUNNING, jw_status := EDG_WLL_STAT_WRAPPER_RUNNING,
                     location := location_string_source SOURCE_LRMS (Some ''worknode'') node\<rparr>
                else js0);
          js = (if USABLE_DATA r strict then
                  let js = (if USABLE_BRANCH fine_res then js\<lparr>ce_node := node\<rparr> else js)
                  in case node of
                       None \<Rightarrow> js
                     | Some n \<Rightarrow>
                         js\<lparr>branch_states := update_branch_state (any_seqcode e) None node None (branch_states js),
                            possible_ce_nodes := add_stringlist (possible_ce_nodes js) n\<rparr>
                else js)
      in handled r js)"

text \<open>
  ReallyRunning: the branch is chosen. \<open>really_running_lm\<close> is the part for the log monitor,
  whose event carries the worker node's sequence code; \<open>None\<close> is the jump to \<^verbatim>\<open>bad_event\<close>,
  with the status at that moment.
\<close>

definition really_running_lrms :: "edg_wll_Event \<Rightarrow> ret_code \<Rightarrow> intJobStat \<Rightarrow> intJobStat" where
  "really_running_lrms e r js =
     (let js = js\<lparr>branch_tag_seqcode := Some (any_seqcode e)\<rparr> in
      if r = RET_OK then js\<lparr>last_branch_seqcode := Some (any_seqcode e), state := EDG_WLL_JOB_RUNNING\<rparr>
      else js)"

definition really_running_lm :: "ret_code \<Rightarrow> cstr \<Rightarrow> intJobStat \<Rightarrow> intJobStat + intJobStat" where
  "really_running_lm r wn_seq js0 =
     (if branch_tag_seqcode js0 = None \<and> \<not> PARSABLE_SEQCODE wn_seq then Inl js0
      else let js = (if branch_tag_seqcode js0 = None then js0\<lparr>branch_tag_seqcode := wn_seq\<rparr> else js0) in
           if last_branch_seqcode js \<noteq> None then Inr js
           else if \<not> PARSABLE_SEQCODE wn_seq then Inl js
           else if r = RET_OK then Inr (js\<lparr>last_branch_seqcode := wn_seq, state := EDG_WLL_JOB_RUNNING\<rparr>)
           else Inr js)"

definition really_running_end :: "ret_code \<Rightarrow> intJobStat \<Rightarrow> outcome res" where
  "really_running_end r js =
     rbind (if r = RET_LATE \<and> last_branch_seqcode js = None then
              rbind (deref (last_seqcode js)) (\<lambda>l.
              rbind (deref (branch_tag_seqcode js)) (\<lambda>t.
              Inr (if same_branch l t then js\<lparr>last_branch_seqcode := Some l\<rparr> else js)))
            else Inr js) (\<lambda>js.
     handled r (load_branch_state (js\<lparr>jw_status := EDG_WLL_STAT_PAYLOAD_RUNNING, payload_running := 1\<rparr>)))"

definition handle_really_running ::
  "edg_wll_Event \<Rightarrow> ret_code \<Rightarrow> ret_code \<Rightarrow> cstr \<Rightarrow> intJobStat \<Rightarrow> outcome res" where
  "handle_really_running e r fine_res wn_seq js0 =
     (if fine_res = RET_BADBRANCH then handled r js0
      else if r = RET_LATE \<and> fine_res = RET_TOOOLD then handled r js0
      else
        let js = (if any_source e = SOURCE_LRMS then really_running_lrms e r js0 else js0) in
        if any_source e = SOURCE_LOG_MONITOR then
          (case really_running_lm r wn_seq js of
             Inl js \<Rightarrow> bad_event js
           | Inr js \<Rightarrow> really_running_end r js)
        else really_running_end r js)"

definition handle_suspend :: "bool \<Rightarrow> ret_code \<Rightarrow> int \<Rightarrow> cstr \<Rightarrow> intJobStat \<Rightarrow> outcome res" where
  "handle_suspend strict r flag rsn js =
     handled r
       (if USABLE r strict \<and> state js = EDG_WLL_JOB_RUNNING then js\<lparr>suspended := flag, suspend_reason := rsn\<rparr>
        else js)"

definition handle_resubmission ::
  "bool \<Rightarrow> edg_wll_Event \<Rightarrow> ret_code \<Rightarrow> int \<Rightarrow> cstr \<Rightarrow> intJobStat \<Rightarrow> outcome res" where
  "handle_resubmission strict e r result rsn js0 =
     (let js = (if USABLE r strict \<and> result = EDG_WLL_RESUBMISSION_WONTRESUB then js0\<lparr>reason := rsn\<rparr> else js0);
          js = (if USABLE_DATA r strict then
                  (if result = EDG_WLL_RESUBMISSION_WONTRESUB then
                     js\<lparr>resubmit_type := EDG_WLL_RESUBMISSION_WONTRESUB\<rparr>
                   else if result = EDG_WLL_RESUBMISSION_WILLRESUB \<and> any_source e = SOURCE_WORKLOAD_MANAGER then
                     reset_branch (any_seqcode e) js
                   else if result = EDG_WLL_RESUBMISSION_SHALLOW then
                     js\<lparr>resubmit_type := EDG_WLL_RESUBMISSION_SHALLOW\<rparr>
                   else js)
                else js)
      in handled r js)"

text \<open>Done: a failure adds its reason, with the destination if the event is in order.\<close>

definition newline :: string where
  "newline = [CHR 0x0A]"

definition glue_reasons :: "cstr \<Rightarrow> string \<Rightarrow> cstr" where
  "glue_reasons old new = Some (case old of None \<Rightarrow> new | Some o' \<Rightarrow> o' @ newline @ new)"

definition done_state ::
  "edg_wll_Event \<Rightarrow> ret_code \<Rightarrow> int \<Rightarrow> cstr \<Rightarrow> intJobStat \<Rightarrow> intJobStat" where
  "done_state e fine_res status_code rsn js0 =
     (let js = js0\<lparr>state := EDG_WLL_JOB_DONE, jw_status := EDG_WLL_STAT_DONE, reason := rsn,
                   payload_running := (if fine_res = RET_GOODBRANCH then 0 else payload_running js0)\<rparr>;
          here = location_string_source (any_source e) (any_host e) (any_src_instance e)
      in if status_code = EDG_WLL_DONE_CANCELLED then
           js\<lparr>state := EDG_WLL_JOB_CANCELLED, location := Some ''none''\<rparr>
         else if status_code = EDG_WLL_DONE_OK then js\<lparr>location := Some ''none''\<rparr>
         else if status_code = EDG_WLL_DONE_FAILED then
           js\<lparr>failure_reasons :=
                glue_reasons (failure_reasons js) (pct_s rsn @ '' ['' @ pct_s (destination js) @ '']''),
              location := here\<rparr>
         else js\<lparr>location := here\<rparr>)"

definition done_data :: "bool \<Rightarrow> ret_code \<Rightarrow> int \<Rightarrow> cstr \<Rightarrow> int \<Rightarrow> intJobStat \<Rightarrow> outcome res" where
  "done_data strict r status_code rsn ex_code js =
     (if status_code = EDG_WLL_DONE_OK then
        handled r (js\<lparr>exit_code := ex_code, done_code := EDG_WLL_STAT_OK\<rparr>)
      else if status_code = EDG_WLL_DONE_CANCELLED then
        handled r (js\<lparr>exit_code := 0, done_code := EDG_WLL_STAT_CANCELLED\<rparr>)
      else if status_code = EDG_WLL_DONE_FAILED then
        let js = (if \<not> USABLE r strict then
                    js\<lparr>failure_reasons :=
                         glue_reasons (failure_reasons js)
                           (pct_s rsn @ '' [delayed event, destination unreliable]'')\<rparr>
                  else js)
        in handled r (js\<lparr>exit_code := 0, done_code := EDG_WLL_STAT_FAILED\<rparr>)
      else bad_event js)"

definition handle_done ::
  "bool \<Rightarrow> edg_wll_Event \<Rightarrow> ret_code \<Rightarrow> ret_code \<Rightarrow> int \<Rightarrow> cstr \<Rightarrow> int \<Rightarrow> intJobStat \<Rightarrow> outcome res" where
  "handle_done strict e r fine_res status_code rsn ex_code js =
     (if any_source e = SOURCE_LRMS then
        handled r (if USABLE r strict then js\<lparr>jw_status := EDG_WLL_STAT_DONE, payload_running := 0\<rparr> else js)
      else
        let js = (if USABLE r strict then done_state e fine_res status_code rsn js else js) in
        if USABLE_DATA r strict then done_data strict r status_code rsn ex_code js else handled r js)"

definition handle_cancel ::
  "junk \<Rightarrow> bool \<Rightarrow> edg_wll_Event \<Rightarrow> ret_code \<Rightarrow> ret_code \<Rightarrow> int \<Rightarrow> cstr \<Rightarrow> intJobStat \<Rightarrow> outcome res" where
  "handle_cancel junk strict e r0 fine_res status_code rsn js0 =
     (let r = (if fine_res \<noteq> RET_BADBRANCH then
                 (if older junk e (last_cancel_seqcode js0) then RET_LATE else r0)
               else RET_LATE);
          js = (if USABLE r strict then
                  (if status_code = EDG_WLL_CANCEL_REQ then js0\<lparr>cancelling := 1\<rparr>
                   else if status_code = EDG_WLL_CANCEL_DONE then
                     js0\<lparr>state := EDG_WLL_JOB_CANCELLED, remove_from_proxy := 1, reason := rsn,
                        last_seqcode := Some (any_seqcode e), location := Some ''none'', cancelling := 0\<rparr>
                   else if status_code = EDG_WLL_CANCEL_ABORT then js0\<lparr>cancelling := 0\<rparr>
                   else js0)
                else js0)
      in handled r (if USABLE_DATA r strict then js\<lparr>cancelReason := rsn\<rparr> else js))"

definition handle_abort :: "bool \<Rightarrow> edg_wll_Event \<Rightarrow> ret_code \<Rightarrow> cstr \<Rightarrow> intJobStat \<Rightarrow> outcome res" where
  "handle_abort strict e r0 rsn js =
     (let r = (if any_source e = SOURCE_WORKLOAD_MANAGER then RET_OK else r0) in
      handled r
        (if USABLE r strict then
           reset_branch (any_seqcode e)
             (js\<lparr>state := EDG_WLL_JOB_ABORTED, remove_from_proxy := 1, reason := rsn, location := Some ''none''\<rparr>)
         else js))"

definition clear_reason_text :: "int \<Rightarrow> cstr" where
  "clear_reason_text rsn =
     (if rsn = EDG_WLL_CLEAR_USER then Some ''user retrieved output sandbox''
      else if rsn = EDG_WLL_CLEAR_TIMEOUT then Some ''timed out, resource purge forced''
      else if rsn = EDG_WLL_CLEAR_NOOUTPUT then Some ''no output was generated''
      else None)"

definition clear_sandbox :: "int \<Rightarrow> int option" where
  "clear_sandbox rsn =
     (if rsn = EDG_WLL_CLEAR_USER then Some EDG_WLL_STAT_USER
      else if rsn = EDG_WLL_CLEAR_TIMEOUT then Some EDG_WLL_STAT_TIMEOUT
      else if rsn = EDG_WLL_CLEAR_NOOUTPUT then Some EDG_WLL_STAT_NOOUTPUT
      else None)"

definition clear_data :: "bool \<Rightarrow> ret_code \<Rightarrow> int \<Rightarrow> intJobStat \<Rightarrow> outcome res" where
  "clear_data strict r rsn js =
     (if USABLE_DATA r strict then
        (case clear_sandbox rsn of
           None \<Rightarrow> bad_event js
         | Some sb \<Rightarrow> handled r (js\<lparr>sandbox_retrieved := sb\<rparr>))
      else handled r js)"

definition handle_clear :: "bool \<Rightarrow> ret_code \<Rightarrow> int \<Rightarrow> intJobStat \<Rightarrow> outcome res" where
  "handle_clear strict r rsn js =
     (if USABLE r strict then
        let js = js\<lparr>state := EDG_WLL_JOB_CLEARED, remove_from_proxy := 1, location := Some ''none''\<rparr> in
        case clear_reason_text rsn of
          None \<Rightarrow> bad_event js
        | Some t \<Rightarrow> clear_data strict r rsn (js\<lparr>reason := Some t\<rparr>)
      else clear_data strict r rsn js)"

definition handle_match ::
  "bool \<Rightarrow> edg_wll_Event \<Rightarrow> ret_code \<Rightarrow> ret_code \<Rightarrow> cstr \<Rightarrow> intJobStat \<Rightarrow> outcome res" where
  "handle_match strict e r fine_res dest_id js0 =
     (let js = (if USABLE r strict then
                  js0\<lparr>state := EDG_WLL_JOB_WAITING,
                     location := location_string_source SOURCE_WORKLOAD_MANAGER (any_host e) (any_src_instance e)\<rparr>
                else js0);
          js = (if USABLE_DATA r strict then
                  let js = (if USABLE_BRANCH fine_res then js\<lparr>destination := dest_id\<rparr> else js)
                  in case dest_id of
                       None \<Rightarrow> js
                     | Some d \<Rightarrow>
                         js\<lparr>branch_states := update_branch_state (any_seqcode e) dest_id None None (branch_states js),
                            possible_destinations := add_stringlist (possible_destinations js) d\<rparr>
                else js)
      in handled r js)"

definition handle_pending :: "bool \<Rightarrow> edg_wll_Event \<Rightarrow> ret_code \<Rightarrow> cstr \<Rightarrow> intJobStat \<Rightarrow> outcome res" where
  "handle_pending strict e r rsn js =
     handled r
       (if USABLE r strict then
          js\<lparr>state := EDG_WLL_JOB_WAITING, reason := rsn,
             location := location_string_source SOURCE_WORKLOAD_MANAGER (any_host e) (any_src_instance e)\<rparr>
        else js)"

definition handle_regjob ::
  "bool \<Rightarrow> ret_code \<Rightarrow> cstr \<Rightarrow> cstr \<Rightarrow> glite_jobid option \<Rightarrow> int \<Rightarrow> int \<Rightarrow> cstr \<Rightarrow> intJobStat \<Rightarrow> outcome res" where
  "handle_regjob strict r j ns par jtype nsubjobs sd js0 =
     (let js = (if USABLE r strict then js0\<lparr>state := EDG_WLL_JOB_SUBMITTED\<rparr> else js0) in
      if USABLE_DATA r strict then
        let js = js\<lparr>jdl := rep_cond (jdl js) j, parent_job := glite_jobid_dup par, network_server := ns,
                    children_num := nsubjobs\<rparr>;
            newtype = (if jtype = EDG_WLL_REGJOB_DAG \<or> jtype = EDG_WLL_REGJOB_PARTITIONED
                       then Some EDG_WLL_STAT_DAG
                       else if jtype = EDG_WLL_REGJOB_COLLECTION then Some EDG_WLL_STAT_COLLECTION
                       else if jtype = EDG_WLL_REGJOB_FILE_TRANSFER_COLLECTION
                       then Some EDG_WLL_STAT_FILE_TRANSFER_COLLECTION
                       else None)
        in rbind
             (case newtype of
                None \<Rightarrow> Inr js
              | Some t \<Rightarrow> register_children nsubjobs (js\<lparr>jobtype := t\<rparr>)) (\<lambda>js.
           handled r (js\<lparr>seed := sd\<rparr>))
      else handled r js)"

definition handle_usertag ::
  "junk \<Rightarrow> bool \<Rightarrow> edg_wll_Event \<Rightarrow> ret_code \<Rightarrow> cstr \<Rightarrow> cstr \<Rightarrow> intJobStat \<Rightarrow> outcome res" where
  "handle_usertag junk strict e r name val js =
     (if USABLE_DATA r strict then
        (if name \<noteq> None \<and> val \<noteq> None then
           rbind (add_user_tag junk e name val js) (\<lambda>js. handled r js)
         else bad_event js)
      else handled r js)"

definition handle_collection_state :: "bool \<Rightarrow> ret_code \<Rightarrow> string \<Rightarrow> int \<Rightarrow> intJobStat \<Rightarrow> outcome res" where
  "handle_collection_state strict r name done_c js =
     handled r (if USABLE r strict then collection_state name done_c js else js)"

definition handle_sandbox :: "bool \<Rightarrow> ret_code \<Rightarrow> int \<Rightarrow> cstr \<Rightarrow> intJobStat \<Rightarrow> outcome res" where
  "handle_sandbox strict r sandbox_type tjob js =
     handled r
       (if USABLE_DATA r strict then
          (case tjob of
             None \<Rightarrow> js
           | Some t \<Rightarrow>
               let js = (if sandbox_type = EDG_WLL_SANDBOX_INPUT then js\<lparr>isb_transfer := parsed_jobid t\<rparr> else js)
               in if sandbox_type = EDG_WLL_SANDBOX_OUTPUT then js\<lparr>osb_transfer := parsed_jobid t\<rparr> else js)
        else js)"

text \<open>
  Payload ownership: granted by the job's owner, taken by the new one, in either order. These
  events are processed whatever the classification says.
\<close>

definition handle_grant :: "ret_code \<Rightarrow> cstr \<Rightarrow> intJobStat \<Rightarrow> outcome res" where
  "handle_grant r p_owner js =
     Inr (Handled
       (if payload_owner_pending js \<noteq> None then
          (if edg_wll_gss_equal_subj p_owner (payload_owner_pending js)
           then js\<lparr>payload_owner := payload_owner_pending js, payload_owner_pending := None\<rparr>
           else js\<lparr>payload_owner_pending := None\<rparr>)
        else js\<lparr>payload_owner_unconfirmed := p_owner\<rparr>) r False True)"

definition handle_take :: "edg_wll_Event \<Rightarrow> ret_code \<Rightarrow> intJobStat \<Rightarrow> outcome res" where
  "handle_take e r js =
     Inr (Handled
       (if payload_owner_unconfirmed js \<noteq> None \<and>
           edg_wll_gss_equal_subj (any_user e) (payload_owner_unconfirmed js)
        then js\<lparr>payload_owner := payload_owner_unconfirmed js, payload_owner_unconfirmed := None\<rparr>
        else js\<lparr>payload_owner_pending := any_user e\<rparr>) r False True)"

definition handle_glite_cream :: "bool \<Rightarrow> edg_wll_Event \<Rightarrow> ret_code \<Rightarrow> cream_event \<Rightarrow> intJobStat \<Rightarrow> outcome res" where
  "handle_glite_cream strict e r ev js =
     (let usable = USABLE r strict in
      case ev of
        EvCREAMStart \<Rightarrow> handled r js
      | EvCREAMPurge \<Rightarrow> handled r js
      | EvCREAMAccepted _ \<Rightarrow> handled r js
      | EvCREAMStore command cmdid result rsn \<Rightarrow>
          handled r (if usable then cream_store command result rsn js else js)
      | EvCREAMCall callee command cmdid destid result rsn \<Rightarrow>
          let js = (if any_source e = SOURCE_CREAM_EXECUTOR \<and> callee = SOURCE_LRMS \<and>
                       command = EDG_WLL_CREAMCALL_CMDSTART \<and> result = EDG_WLL_CREAMCALL_OK \<and> usable
                    then cream_reasons_cond rsn
                           (js\<lparr>state := EDG_WLL_JOB_SCHEDULED, cream_state := EDG_WLL_STAT_CREAM_IDLE\<rparr>)
                    else js)
          in handled r
               (if command = EDG_WLL_CREAMCALL_CMDCANCEL \<and> result = EDG_WLL_CREAMCALL_OK \<and> usable
                then cream_reasons_cond rsn (js\<lparr>cream_cancelling := 1, cancelling := 1\<rparr>)
                else js)
      | EvCREAMCancel status_code rsn \<Rightarrow>
          handled r
            (if usable then
               cream_reasons rsn
                 (if status_code = EDG_WLL_CREAMCANCEL_DONE
                  then js\<lparr>state := EDG_WLL_JOB_CANCELLED, cream_state := EDG_WLL_STAT_CREAM_ABORTED\<rparr> else js)
             else js)
      | EvCREAMAbort rsn \<Rightarrow>
          handled r
            (if usable then
               cream_reasons rsn (js\<lparr>state := EDG_WLL_JOB_ABORTED, cream_state := EDG_WLL_STAT_CREAM_ABORTED\<rparr>)
             else js)
      | EvCREAMStatus old_state new_state orig_timestamp result _ _ _ _ _ \<Rightarrow>
          handled r (if usable \<and> result = EDG_WLL_CREAMSTATUS_DONE then cream_status_state new_state js else js)
      | _ \<Rightarrow> bad_event js)"

section \<open>The whole function\<close>

definition glite_switch ::
  "junk \<Rightarrow> bool \<Rightarrow> edg_wll_Event \<Rightarrow> int \<Rightarrow> ret_code \<Rightarrow> ret_code \<Rightarrow> intJobStat \<Rightarrow> outcome res" where
  "glite_switch junk strict e old r fine_res js =
     (case ev_body e of
        EvGlite ev \<Rightarrow>
          (case ev of
             EvTransfer dest dest_host dest_instance job result rsn dest_jobid \<Rightarrow>
               handle_transfer strict e old r dest dest_host dest_instance job result rsn js
           | EvAccepted from from_host from_instance local_jobid \<Rightarrow>
               handle_accepted strict e old r from_host local_jobid js
           | EvRefused from from_host from_instance rsn \<Rightarrow>
               handle_refused strict e r from from_host from_instance rsn js
           | EvEnQueued queue job result rsn \<Rightarrow> handle_enqueued strict e old r queue job result rsn js
           | EvDeQueued _ _ \<Rightarrow> handle_dequeued strict e old r js
           | EvHelperCall helper_name _ _ \<Rightarrow> handle_helper_call strict e r helper_name js
           | EvHelperReturn _ _ _ \<Rightarrow> handle_helper_return strict e r js
           | EvRunning node \<Rightarrow> handle_running strict e r fine_res node js
           | EvReallyRunning wn_seq \<Rightarrow> handle_really_running e r fine_res wn_seq js
           | EvSuspend rsn \<Rightarrow> handle_suspend strict r 1 rsn js
           | EvResume rsn \<Rightarrow> handle_suspend strict r 0 rsn js
           | EvResubmission result rsn _ \<Rightarrow> handle_resubmission strict e r result rsn js
           | EvDone status_code rsn ex_code \<Rightarrow> handle_done strict e r fine_res status_code rsn ex_code js
           | EvCancel status_code rsn \<Rightarrow> handle_cancel junk strict e r fine_res status_code rsn js
           | EvAbort rsn \<Rightarrow> handle_abort strict e r rsn js
           | EvClear rsn \<Rightarrow> handle_clear strict r rsn js
           | EvPurge \<Rightarrow> handled r js
           | EvMatch dest_id \<Rightarrow> handle_match strict e r fine_res dest_id js
           | EvPending rsn \<Rightarrow> handle_pending strict e r rsn js
           | EvRegJob j ns par jtype nsubjobs sd _ \<Rightarrow> handle_regjob strict r j ns par jtype nsubjobs sd js
           | EvUserTag name val \<Rightarrow> handle_usertag junk strict e r name val js
           | EvListener _ _ _ \<Rightarrow> handled r js
           | EvCurDescr _ \<Rightarrow> handled r js
           | EvChkpt _ _ \<Rightarrow> handled r js
           | EvResourceUsage _ _ \<Rightarrow> handled r js
           | EvChangeACL _ _ _ _ _ \<Rightarrow> Inr (Handled js r False True)
           | EvCollectionState name done_c _ _ _ \<Rightarrow> handle_collection_state strict r name done_c js
           | EvGrantPayloadOwnership p_owner \<Rightarrow> handle_grant r p_owner js
           | EvTakePayloadOwnership \<Rightarrow> handle_take e r js
           | EvNotification _ _ _ _ _ _ _ \<Rightarrow> bad_event js
           | EvConnectJob _ _ \<Rightarrow> bad_event js
           | EvDisconnectJob _ \<Rightarrow> bad_event js)
      | EvFt (EvSandbox sandbox_type tjob _) \<Rightarrow> handle_sandbox strict r sandbox_type tjob js
      | EvCream ev \<Rightarrow> handle_glite_cream strict e r ev js
      | _ \<Rightarrow> bad_event js)"

definition finish_usable ::
  "edg_wll_Event \<Rightarrow> int \<Rightarrow> ret_code \<Rightarrow> bool \<Rightarrow> bool \<Rightarrow> intJobStat \<Rightarrow> intJobStat" where
  "finish_usable e old fine_res lm_favour_lrms ignore_seq_code js0 =
     (let js = (if old \<noteq> state js0 \<and>
                   (state js0 = EDG_WLL_JOB_WAITING \<or> state js0 = EDG_WLL_JOB_READY \<or>
                    state js0 = EDG_WLL_JOB_SCHEDULED)
                then js0\<lparr>jw_status := EDG_WLL_STAT_UNKNOWN\<rparr> else js0);
          js = (if is_cancel e then js\<lparr>last_cancel_seqcode := Some (any_seqcode e)\<rparr>
                else if lm_favour_lrms then
                  js\<lparr>last_seqcode := set_component_seqcode (any_seqcode e) SOURCE_LOG_MONITOR 0\<rparr>
                else if \<not> ignore_seq_code then js\<lparr>last_seqcode := Some (any_seqcode e)\<rparr>
                else js);
          js = (if state js \<noteq> EDG_WLL_JOB_RUNNING then js\<lparr>suspended := 0, suspend_reason := None\<rparr> else js)
      in if fine_res = RET_GOODBRANCH then js\<lparr>last_branch_seqcode := Some (any_seqcode e)\<rparr> else js)"

definition fill_network_server :: "bool \<Rightarrow> edg_wll_Event \<Rightarrow> ret_code \<Rightarrow> intJobStat \<Rightarrow> intJobStat" where
  "fill_network_server strict e r js =
     (if USABLE_DATA r strict \<and> any_source e = SOURCE_NETWORK_SERVER \<and> network_server js = None then
        js\<lparr>network_server :=
             Some (pct_s (any_host e) @
                   (case any_src_instance e of None \<Rightarrow> '' '' | Some inst \<Rightarrow> '':'' @ inst))\<rparr>
      else js)"

definition finish_glite ::
  "bool \<Rightarrow> edg_wll_Event \<Rightarrow> int \<Rightarrow> ret_code \<Rightarrow> ret_code \<Rightarrow> bool \<Rightarrow> bool \<Rightarrow> intJobStat \<Rightarrow> intJobStat res" where
  "finish_glite strict e old r fine_res lm_favour_lrms ignore_seq_code js =
     rbind
       (if USABLE r strict then
          rbind (enter_state old e js) (\<lambda>js. Inr (finish_usable e old fine_res lm_favour_lrms ignore_seq_code js))
        else Inr js)
       (\<lambda>js. Inr (fill_network_server strict e r js))"

definition from_cream :: "edg_wll_Event \<Rightarrow> bool" where
  "from_cream e \<longleftrightarrow> any_source e = SOURCE_CREAM_EXECUTOR \<or> any_source e = SOURCE_CREAM_INTERFACE"

definition glite_prepare :: "junk \<Rightarrow> edg_wll_Event \<Rightarrow> intJobStat \<Rightarrow> intJobStat res" where
  "glite_prepare junk e js = (if from_cream e then processData_Cream junk e js else Inr js)"

definition processEvent_glite ::
  "junk \<Rightarrow> bool \<Rightarrow> edg_wll_Event \<Rightarrow> intJobStat \<Rightarrow> (ret_code \<times> intJobStat) res" where
  "processEvent_glite junk strict e js0 =
     (let js = forget_loops e js0; (r, fine_res) = classify_event junk e js in
      rbind (glite_prepare junk e js) (\<lambda>js1.
      rbind (glite_switch junk strict e (state js0) r fine_res js1) (\<lambda>out.
      case out of
        BadEvent js2 \<Rightarrow> Inr (RET_SUSPECT, js2)
      | Handled js2 r2 lm_favour_lrms ignore_seq_code \<Rightarrow>
          rbind (finish_glite strict e (state js0) r2 fine_res lm_favour_lrms ignore_seq_code js2) (\<lambda>js3.
          Inr (r2, js3)))))"

end
