(* ===== verification/LB_GliteProps.thy ===== *)
theory LB_GliteProps
  imports LB_Glite
begin

text \<open>
  Correctness of the processing of gLite events (\<open>LB_Glite\<close>): what each handler may do to a
  status, that the function is an event processor in the sense of \<open>LB_Step\<close>, and the
  behaviour of terminal states, late events, branches and deep resubmission.
\<close>

section \<open>Effects of handlers\<close>

definition terminal :: "int \<Rightarrow> bool" where
  "terminal st \<longleftrightarrow> st = EDG_WLL_JOB_CLEARED \<or> st = EDG_WLL_JOB_ABORTED \<or> st = EDG_WLL_JOB_CANCELLED"

definition arrays_ok :: "intJobStat \<Rightarrow> bool" where
  "arrays_ok js \<longleftrightarrow> stat_array (stateEnterTimes js) \<and> stat_array (children_hist js) \<and> tags_wf js"

definition times_kept :: "intJobStat \<Rightarrow> intJobStat \<Rightarrow> bool" where
  "times_kept js js1 \<longleftrightarrow> stateEnterTime js1 = stateEnterTime js \<and> lastUpdateTime js1 = lastUpdateTime js"

definition out_ok :: "intJobStat \<Rightarrow> outcome \<Rightarrow> bool" where
  "out_ok js out =
     (case out of
        Handled js1 r lm ig \<Rightarrow>
          arrays_ok js1 \<and> times_kept js js1 \<and> r \<noteq> RET_SOON \<and> r \<noteq> RET_SUSPECT \<and>
          (state js1 = state js \<or> r = RET_OK \<and> job_state (state js1)) \<and>
          (r = RET_OK \<and> lm \<longrightarrow> \<not> terminal (state js1)) \<and>
          (ig \<longrightarrow> state js1 = state js) \<and>
          (last_seqcode js1 = last_seqcode js \<or> last_seqcode js1 \<noteq> None)
      | BadEvent js1 \<Rightarrow>
          arrays_ok js1 \<and> times_kept js js1 \<and> state js1 = state js \<and> last_seqcode js1 = last_seqcode js)"

definition run_ok :: "intJobStat \<Rightarrow> outcome res \<Rightarrow> bool" where
  "run_ok js m = (case m of Inl _ \<Rightarrow> False | Inr out \<Rightarrow> out_ok js out)"

lemma run_ok_simps [simp]:
  "run_ok js (Inr out) = out_ok js out"
  "run_ok js (handled r js1) = out_ok js (Handled js1 r False False)"
  "run_ok js (bad_event js1) = out_ok js (BadEvent js1)"
  "run_ok js (if c then a else b) = (if c then run_ok js a else run_ok js b)"
  by (simp_all add: run_ok_def handled_def bad_event_def)

lemma run_okE:
  assumes "run_ok js m"
  obtains out where "m = Inr out" and "out_ok js out"
  using assms by (cases m) (simp_all add: run_ok_def)

lemma wf_status_arrays: "wf_status js = (job_state (state js) \<and> arrays_ok js)"
  by (simp add: wf_status_def arrays_ok_def conj_assoc)

lemma USABLE_plain: "r \<noteq> RET_SOON \<Longrightarrow> USABLE r strict = (r = RET_OK)"
  by (simp add: USABLE_def)

lemma USABLE_if: "USABLE (if c then a else b) strict = (if c then USABLE a strict else USABLE b strict)"
  by simp

lemmas out_defs = out_ok_def arrays_ok_def tags_wf_ok times_kept_def terminal_def

lemma handle_transfer_ok:
  assumes "arrays_ok js" and "r \<noteq> RET_SOON" and "r \<noteq> RET_SUSPECT"
  shows "run_ok js (handle_transfer strict e old r dest dh di job result rsn js)"
proof -
  obtain b where b: "arr_store (stateEnterTimes js) 5 (c_int (tv_sec (any_timestamp e))) = Inr b" "stat_array b"
    using assms(1) stat_array_store_const [of "stateEnterTimes js" 5] by (auto simp: arrays_ok_def)
  show ?thesis
    using assms b
    by (simp add: handle_transfer_def Let_def out_defs USABLE_plain)
qed

lemma handle_accepted_ok:
  assumes "arrays_ok js" and "r \<noteq> RET_SOON" and "r \<noteq> RET_SUSPECT"
  shows "run_ok js (handle_accepted strict e old r fh lj js)"
  using assms by (simp add: handle_accepted_def Let_def out_defs USABLE_plain)

lemma handle_refused_ok:
  assumes "arrays_ok js" and "r \<noteq> RET_SOON" and "r \<noteq> RET_SUSPECT"
  shows "run_ok js (handle_refused strict e r from fh fi rsn js)"
  using assms by (simp add: handle_refused_def Let_def out_defs USABLE_plain)

lemma handle_enqueued_ok:
  assumes "arrays_ok js" and "r \<noteq> RET_SOON" and "r \<noteq> RET_SUSPECT" and "old = state js"
  shows "run_ok js (handle_enqueued strict e old r q job result rsn js)"
  using assms by (simp add: handle_enqueued_def Let_def out_defs USABLE_plain)

lemma handle_dequeued_ok:
  assumes "arrays_ok js" and "r \<noteq> RET_SOON" and "r \<noteq> RET_SUSPECT"
  shows "run_ok js (handle_dequeued strict e old r js)"
  using assms by (simp add: handle_dequeued_def Let_def out_defs USABLE_plain)

lemma handle_running_ok:
  assumes "arrays_ok js" and "r \<noteq> RET_SOON" and "r \<noteq> RET_SUSPECT"
  shows "run_ok js (handle_running strict e r fine node js)"
  using assms by (simp add: handle_running_def Let_def out_defs USABLE_plain split: option.split)

lemma only_branch_dataE:
  assumes "only_branch_data js js'"
  obtains d c m b where "js' = js\<lparr>destination := d, ce_node := c, matched_jdl := m, branch_states := b\<rparr>"
  using assms unfolding only_branch_data_def by blast

lemma load_branch_fields [simp]:
  "state (load_branch_state js) = state js" "stateEnterTime (load_branch_state js) = stateEnterTime js"
  "lastUpdateTime (load_branch_state js) = lastUpdateTime js"
  "stateEnterTimes (load_branch_state js) = stateEnterTimes js"
  "children_hist (load_branch_state js) = children_hist js" "user_tags (load_branch_state js) = user_tags js"
  "tag_seq_codes (load_branch_state js) = tag_seq_codes js" "last_seqcode (load_branch_state js) = last_seqcode js"
  "jobtype (load_branch_state js) = jobtype js"
  by (rule only_branch_dataE [OF load_branch_only [of js]]; simp)+

lemma really_running_end_ok:
  assumes "arrays_ok js1" and "times_kept js js1" and "r \<noteq> RET_SOON" and "r \<noteq> RET_SUSPECT"
    and "state js1 = state js \<or> r = RET_OK \<and> job_state (state js1)" and "last_seqcode js1 = last_seqcode js"
    and "r = RET_LATE \<Longrightarrow> last_branch_seqcode js1 = None \<Longrightarrow> last_seqcode js1 \<noteq> None \<and> branch_tag_seqcode js1 \<noteq> None"
  shows "run_ok js (really_running_end r js1)"
proof (cases "r = RET_LATE \<and> last_branch_seqcode js1 = None")
  case True
  with assms(7) obtain l t where "last_seqcode js1 = Some l" "branch_tag_seqcode js1 = Some t" by auto
  with True have "really_running_end r js1 =
      handled r (load_branch_state ((if same_branch l t then js1\<lparr>last_branch_seqcode := Some l\<rparr> else js1)
        \<lparr>jw_status := EDG_WLL_STAT_PAYLOAD_RUNNING, payload_running := 1\<rparr>))"
    by (simp add: really_running_end_def)
  with assms show ?thesis by (simp add: out_defs)
next
  case False
  then have "really_running_end r js1 =
      handled r (load_branch_state (js1\<lparr>jw_status := EDG_WLL_STAT_PAYLOAD_RUNNING, payload_running := 1\<rparr>))"
    by (auto simp: really_running_end_def)
  with assms show ?thesis by (simp add: out_defs)
qed

lemma PARSABLE_not_None: "PARSABLE_SEQCODE c \<Longrightarrow> c \<noteq> None"
  by (auto simp: PARSABLE_SEQCODE_def split: option.splits)

lemma handle_really_running_ok:
  assumes "arrays_ok js" and "r \<noteq> RET_SOON" and "r \<noteq> RET_SUSPECT"
    and "any_source e = SOURCE_LRMS \<or> any_source e = SOURCE_LOG_MONITOR"
    and "r = RET_LATE \<Longrightarrow> fine \<noteq> RET_TOOOLD \<Longrightarrow> fine \<noteq> RET_BADBRANCH \<Longrightarrow>
           last_branch_seqcode js = None \<Longrightarrow> last_seqcode js \<noteq> None"
  shows "run_ok js (handle_really_running e r fine wn js)"
proof (cases "fine = RET_BADBRANCH \<or> r = RET_LATE \<and> fine = RET_TOOOLD")
  case True
  with assms show ?thesis by (auto simp: handle_really_running_def out_defs)
next
  case False
  with assms(5) have l: "r = RET_LATE \<Longrightarrow> last_branch_seqcode js = None \<Longrightarrow> last_seqcode js \<noteq> None" by auto
  from assms(4) show ?thesis
  proof
    assume src: "any_source e = SOURCE_LRMS"
    have "run_ok js (really_running_end r (really_running_lrms e r js))"
      using assms(1-3) l by (intro really_running_end_ok) (auto simp: really_running_lrms_def Let_def out_defs)
    with False src show ?thesis by (auto simp: handle_really_running_def)
  next
    assume src: "any_source e = SOURCE_LOG_MONITOR"
    show ?thesis
    proof (cases "really_running_lm r wn js")
      case (Inl js1)
      then have "out_ok js (BadEvent js1)"
        using assms(1) by (auto simp: really_running_lm_def Let_def out_defs split: if_splits)
      with False src Inl show ?thesis by (auto simp: handle_really_running_def)
    next
      case (Inr js1)
      then have "run_ok js (really_running_end r js1)"
        using assms(1-3) l
        by (intro really_running_end_ok)
          (auto simp: really_running_lm_def Let_def out_defs dest: PARSABLE_not_None split: if_splits)
      with False src Inr show ?thesis by (auto simp: handle_really_running_def)
    qed
  qed
qed

lemma reset_branch_fields [simp]:
  "state (reset_branch s js) = state js" "stateEnterTime (reset_branch s js) = stateEnterTime js"
  "lastUpdateTime (reset_branch s js) = lastUpdateTime js" "stateEnterTimes (reset_branch s js) = stateEnterTimes js"
  "children_hist (reset_branch s js) = children_hist js" "user_tags (reset_branch s js) = user_tags js"
  "tag_seq_codes (reset_branch s js) = tag_seq_codes js" "last_seqcode (reset_branch s js) = last_seqcode js"
  by (simp_all add: reset_branch_def)

lemma handle_resubmission_ok:
  assumes "arrays_ok js" and "r \<noteq> RET_SOON" and "r \<noteq> RET_SUSPECT"
  shows "run_ok js (handle_resubmission strict e r result rsn js)"
  using assms by (simp add: handle_resubmission_def Let_def out_defs)

text \<open>Codes the handlers of Done and Clear know.\<close>

definition known_done :: "int \<Rightarrow> bool" where
  "known_done c \<longleftrightarrow> c = EDG_WLL_DONE_OK \<or> c = EDG_WLL_DONE_FAILED \<or> c = EDG_WLL_DONE_CANCELLED"

definition known_clear :: "int \<Rightarrow> bool" where
  "known_clear c \<longleftrightarrow> c = EDG_WLL_CLEAR_USER \<or> c = EDG_WLL_CLEAR_TIMEOUT \<or> c = EDG_WLL_CLEAR_NOOUTPUT"

lemma done_state_fields [simp]:
  "job_state (state (done_state e f c rsn js))"
  "stateEnterTime (done_state e f c rsn js) = stateEnterTime js"
  "lastUpdateTime (done_state e f c rsn js) = lastUpdateTime js"
  "stateEnterTimes (done_state e f c rsn js) = stateEnterTimes js"
  "children_hist (done_state e f c rsn js) = children_hist js"
  "user_tags (done_state e f c rsn js) = user_tags js" "tag_seq_codes (done_state e f c rsn js) = tag_seq_codes js"
  "last_seqcode (done_state e f c rsn js) = last_seqcode js"
  by (simp_all add: done_state_def Let_def)

lemma handle_done_ok:
  assumes "arrays_ok js" and "r \<noteq> RET_SOON" and "r \<noteq> RET_SUSPECT"
    and "known_done c \<or> any_source e = SOURCE_LRMS"
  shows "run_ok js (handle_done strict e r fine c rsn x js)"
  using assms by (auto simp: handle_done_def done_data_def known_done_def Let_def out_defs USABLE_plain)

lemma handle_cancel_ok:
  assumes "arrays_ok js" and "r \<noteq> RET_SOON" and "r \<noteq> RET_SUSPECT"
  shows "run_ok js (handle_cancel junk strict e r fine c rsn js)"
  using assms by (simp add: handle_cancel_def Let_def out_defs USABLE_plain)

lemma handle_abort_ok:
  assumes "arrays_ok js" and "r \<noteq> RET_SOON" and "r \<noteq> RET_SUSPECT"
  shows "run_ok js (handle_abort strict e r rsn js)"
  using assms by (simp add: handle_abort_def Let_def out_defs USABLE_plain)

lemma handle_clear_ok:
  assumes "arrays_ok js" and "r \<noteq> RET_SOON" and "r \<noteq> RET_SUSPECT" and "known_clear c"
  shows "run_ok js (handle_clear strict r c js)"
  using assms
  by (auto simp: handle_clear_def clear_data_def clear_reason_text_def clear_sandbox_def known_clear_def Let_def
      out_defs USABLE_plain)

lemma handle_match_ok:
  assumes "arrays_ok js" and "r \<noteq> RET_SOON" and "r \<noteq> RET_SUSPECT"
  shows "run_ok js (handle_match strict e r fine d js)"
  using assms by (simp add: handle_match_def Let_def out_defs USABLE_plain split: option.split)

lemma register_children_ok:
  assumes "arrays_ok js"
  shows "\<exists>js1. register_children n js = Inr js1 \<and> arrays_ok js1 \<and> times_kept js js1 \<and> state js1 = state js \<and>
    last_seqcode js1 = last_seqcode js"
proof -
  obtain b where "arr_store (children_hist js) 11 n = Inr b" "stat_array b"
    using assms stat_array_store_const [of "children_hist js" 11] by (auto simp: arrays_ok_def)
  with assms show ?thesis by (simp add: register_children_def out_defs)
qed

lemma handle_regjob_ok:
  assumes "arrays_ok js" and "r \<noteq> RET_SOON" and "r \<noteq> RET_SUSPECT"
  shows "run_ok js (handle_regjob strict r j ns par jt n sd js)"
proof -
  define js1 where "js1 = (if USABLE r strict then js\<lparr>state := EDG_WLL_JOB_SUBMITTED\<rparr> else js)"
  define js2 where "js2 = js1\<lparr>jdl := rep_cond (jdl js1) j, parent_job := glite_jobid_dup par,
      network_server := ns, children_num := n\<rparr>"
  have fields: "arrays_ok js2" "times_kept js js2" "last_seqcode js2 = last_seqcode js"
      "state js2 = state js \<or> r = RET_OK \<and> job_state (state js2)"
    using assms by (simp_all add: js2_def js1_def out_defs USABLE_plain)
  have reg: "run_ok js (rbind (register_children n (js2\<lparr>jobtype := t\<rparr>)) (\<lambda>js. handled r (js\<lparr>seed := sd\<rparr>)))" for t
  proof -
    have "arrays_ok (js2\<lparr>jobtype := t\<rparr>)" using fields by (simp add: out_defs)
    then obtain js3 where "register_children n (js2\<lparr>jobtype := t\<rparr>) = Inr js3" "arrays_ok js3"
      "times_kept (js2\<lparr>jobtype := t\<rparr>) js3" "state js3 = state js2" "last_seqcode js3 = last_seqcode js2"
      using register_children_ok by fastforce
    with fields assms show ?thesis by (simp add: out_defs)
  qed
  have plain: "run_ok js (handled r (js2\<lparr>seed := sd\<rparr>))" "run_ok js (handled r js1)"
    using fields assms by (simp_all add: out_defs js1_def USABLE_plain)
  show ?thesis
    unfolding handle_regjob_def Let_def js1_def [symmetric] js2_def [symmetric]
    using reg plain by (simp split: option.split)
qed

lemma handle_usertag_ok:
  assumes "arrays_ok js" and "job_state (state js)" and "r \<noteq> RET_SOON" and "r \<noteq> RET_SUSPECT"
  shows "run_ok js (handle_usertag junk strict e r n v js)"
proof -
  have w: "wf_status js" using assms(1,2) by (simp add: wf_status_arrays)
  obtain js1 where js1: "add_user_tag junk e n v js = Inr js1" "body_ok RET_LATE js js1"
    using add_user_tag_body [OF w] by blast
  have "last_seqcode js1 = last_seqcode js"
    using js1(1) by (auto simp: add_user_tag_def add_taglist_def res_simps split: option.splits if_splits)
  with js1 assms show ?thesis
    by (simp add: handle_usertag_def out_ok_def body_ok_def wf_status_arrays times_kept_def)
qed

lemma handle_collection_ok:
  assumes "arrays_ok js" and "r \<noteq> RET_SOON" and "r \<noteq> RET_SUSPECT" and "known_state_name n"
  shows "run_ok js (handle_collection_state strict r n d js)"
  using assms known_state_range [OF assms(4)]
  by (simp add: handle_collection_state_def collection_state_def Let_def out_defs USABLE_plain)

lemma handle_cream_ok:
  assumes "arrays_ok js" and "r \<noteq> RET_SOON" and "r \<noteq> RET_SUSPECT"
  shows "run_ok js (handle_glite_cream strict e r ev js)"
proof -
  have st: "out_ok js (Handled (cream_store a b c js) r False False)"
    "out_ok js (Handled (cream_status_state n js) r False False)" if "r = RET_OK" for a b c n
    using that assms by (simp_all add: cream_store_def cream_reasons_cond_def cream_status_state_def Let_def out_defs)
  have same: "out_ok js (Handled js r False False)" "out_ok js (BadEvent js)" using assms by (simp_all add: out_defs)
  show ?thesis
  proof (cases ev)
    case (EvCREAMCall a b c d f g)
    then show ?thesis
      using assms by (simp add: handle_glite_cream_def Let_def USABLE_plain cream_reasons_cond_def out_defs)
  next
    case (EvCREAMCancel a b)
    then show ?thesis
      using assms by (simp add: handle_glite_cream_def Let_def USABLE_plain cream_reasons_def out_defs)
  next
    case (EvCREAMAbort a)
    then show ?thesis
      using assms by (simp add: handle_glite_cream_def Let_def USABLE_plain cream_reasons_def out_defs)
  qed (use assms st same in \<open>simp_all add: handle_glite_cream_def USABLE_plain\<close>)
qed

section \<open>The contract\<close>

definition glite_acceptable :: "edg_wll_Event \<Rightarrow> bool" where
  "glite_acceptable e =
     (case ev_body e of
        EvGlite (EvReallyRunning _) \<Rightarrow> any_source e = SOURCE_LRMS \<or> any_source e = SOURCE_LOG_MONITOR
      | EvGlite (EvDone c _ _) \<Rightarrow> known_done c \<or> any_source e = SOURCE_LRMS
      | EvGlite (EvClear c) \<Rightarrow> known_clear c
      | EvGlite (EvCollectionState n _ _ _ _) \<Rightarrow> known_state_name n
      | _ \<Rightarrow> True)"

definition glite_inv :: "intJobStat \<Rightarrow> bool" where
  "glite_inv js \<longleftrightarrow> wf_status js \<and> (terminal (state js) \<longrightarrow> last_seqcode js \<noteq> None)"

lemma glite_switch_ok:
  assumes "arrays_ok js" and "job_state (state js)" and "r \<noteq> RET_SOON" and "r \<noteq> RET_SUSPECT" and "old = state js"
    and "glite_acceptable e"
    and "r = RET_LATE \<Longrightarrow> fine \<noteq> RET_TOOOLD \<Longrightarrow> fine \<noteq> RET_BADBRANCH \<Longrightarrow>
           last_branch_seqcode js = None \<Longrightarrow> last_seqcode js \<noteq> None"
  shows "run_ok js (glite_switch junk strict e old r fine js)"
proof -
  have bad: "out_ok js (BadEvent js)" and keep: "out_ok js (Handled js r False ig)" for ig
    using assms(1,3,4) by (simp_all add: out_defs)
  show ?thesis
  proof (cases "ev_body e")
    case (EvGlite g)
    note hs = handle_transfer_ok handle_accepted_ok handle_refused_ok handle_enqueued_ok handle_dequeued_ok
      handle_running_ok handle_resubmission_ok handle_cancel_ok handle_abort_ok handle_match_ok handle_regjob_ok
      handle_usertag_ok
    show ?thesis
    proof (cases g)
      case (EvReallyRunning wn)
      with EvGlite assms show ?thesis
        by (simp add: glite_switch_def glite_acceptable_def handle_really_running_ok)
    next
      case (EvDone c rsn x)
      with EvGlite assms show ?thesis by (simp add: glite_switch_def glite_acceptable_def handle_done_ok)
    next
      case (EvClear c)
      with EvGlite assms show ?thesis by (simp add: glite_switch_def glite_acceptable_def handle_clear_ok)
    next
      case (EvCollectionState n d h c ce)
      with EvGlite assms show ?thesis by (simp add: glite_switch_def glite_acceptable_def handle_collection_ok)
    next
      case (EvHelperCall a b c)
      with EvGlite assms show ?thesis
        by (simp add: glite_switch_def handle_helper_call_def out_defs USABLE_plain)
    next
      case (EvHelperReturn a b c)
      with EvGlite assms show ?thesis
        by (simp add: glite_switch_def handle_helper_return_def out_defs USABLE_plain)
    next
      case (EvSuspend a)
      with EvGlite assms show ?thesis by (simp add: glite_switch_def handle_suspend_def out_defs)
    next
      case (EvResume a)
      with EvGlite assms show ?thesis by (simp add: glite_switch_def handle_suspend_def out_defs)
    next
      case (EvPending a)
      with EvGlite assms show ?thesis by (simp add: glite_switch_def handle_pending_def out_defs USABLE_plain)
    next
      case (EvGrantPayloadOwnership a)
      with EvGlite assms show ?thesis by (simp add: glite_switch_def handle_grant_def out_defs)
    next
      case EvTakePayloadOwnership
      with EvGlite assms show ?thesis by (simp add: glite_switch_def handle_take_def out_defs)
    qed (use EvGlite assms hs bad keep in \<open>simp_all add: glite_switch_def\<close>)
  next
    case (EvFt t)
    with assms bad show ?thesis
      by (cases t) (simp_all add: glite_switch_def handle_sandbox_def Let_def out_defs split: option.split)
  next
    case (EvCream c)
    with assms show ?thesis by (simp add: glite_switch_def handle_cream_ok)
  qed (simp_all add: glite_switch_def bad)
qed

lemma classify_late:
  assumes "classify_event junk e js = (r, fine)"
  shows "(r = RET_OK \<or> r = RET_LATE) \<and>
    (r = RET_LATE \<longrightarrow> fine \<noteq> RET_TOOOLD \<longrightarrow> fine \<noteq> RET_BADBRANCH \<longrightarrow> last_branch_seqcode js = None \<longrightarrow>
       last_seqcode js \<noteq> None \<or> terminal (state js))"
  using assms
  by (auto simp: classify_event_def Let_def older_def finished_before_def terminal_def
      split: option.splits if_splits)

lemma forget_loops_fields [simp]:
  "state (forget_loops e js) = state js" "last_seqcode (forget_loops e js) = last_seqcode js"
  "stateEnterTime (forget_loops e js) = stateEnterTime js" "lastUpdateTime (forget_loops e js) = lastUpdateTime js"
  "stateEnterTimes (forget_loops e js) = stateEnterTimes js" "children_hist (forget_loops e js) = children_hist js"
  "user_tags (forget_loops e js) = user_tags js" "tag_seq_codes (forget_loops e js) = tag_seq_codes js"
  "jobtype (forget_loops e js) = jobtype js"
  by (simp_all add: forget_loops_def)

lemma glite_prepare_ok:
  assumes "wf_status js"
  shows "\<exists>js1. glite_prepare junk e js = Inr js1 \<and> body_ok RET_LATE js js1 \<and> same_codes js js1"
proof (cases "from_cream e")
  case True
  obtain js1 where "processData_Cream junk e js = Inr js1" "body_ok RET_LATE js js1"
    using processData_Cream_body [OF assms] by blast
  moreover from this processData_Cream_codes [of js junk e] have "same_codes js js1" by simp
  ultimately show ?thesis using True by (simp add: glite_prepare_def)
next
  case False
  with assms show ?thesis by (simp add: glite_prepare_def body_ok_refl same_codes_def)
qed

lemma finish_usable_fields [simp]:
  "state (finish_usable e old f lm ig js) = state js"
  "stateEnterTime (finish_usable e old f lm ig js) = stateEnterTime js"
  "lastUpdateTime (finish_usable e old f lm ig js) = lastUpdateTime js"
  "stateEnterTimes (finish_usable e old f lm ig js) = stateEnterTimes js"
  "children_hist (finish_usable e old f lm ig js) = children_hist js"
  "user_tags (finish_usable e old f lm ig js) = user_tags js"
  "tag_seq_codes (finish_usable e old f lm ig js) = tag_seq_codes js"
  "last_seqcode (finish_usable e old f lm ig js) =
     (if is_cancel e then last_seqcode js
      else if lm then set_component_seqcode (any_seqcode e) SOURCE_LOG_MONITOR 0
      else if ig then last_seqcode js else Some (any_seqcode e))"
  by (simp_all add: finish_usable_def Let_def)

lemma fill_network_server_fields [simp]:
  "state (fill_network_server s e r js) = state js"
  "stateEnterTime (fill_network_server s e r js) = stateEnterTime js"
  "lastUpdateTime (fill_network_server s e r js) = lastUpdateTime js"
  "stateEnterTimes (fill_network_server s e r js) = stateEnterTimes js"
  "children_hist (fill_network_server s e r js) = children_hist js"
  "user_tags (fill_network_server s e r js) = user_tags js"
  "tag_seq_codes (fill_network_server s e r js) = tag_seq_codes js"
  "last_seqcode (fill_network_server s e r js) = last_seqcode js"
  by (simp_all add: fill_network_server_def)

definition same_view :: "intJobStat \<Rightarrow> intJobStat \<Rightarrow> bool" where
  "same_view a b \<longleftrightarrow>
     state a = state b \<and> stateEnterTime a = stateEnterTime b \<and> lastUpdateTime a = lastUpdateTime b \<and>
     same_core a b"

lemma step_ok_same_view: "step_ok e js a \<Longrightarrow> same_view b a \<Longrightarrow> step_ok e js b"
  by (auto simp: step_ok_def same_view_def same_core_def wf_defs stamped_def)

lemma finish_glite_step:
  assumes "wf_status js" and "out_ok js (Handled js2 r lm ig)"
  shows "\<exists>js3. finish_glite strict e (state js) r fine lm ig js2 = Inr js3 \<and> step_ok e js js3 \<and>
    last_seqcode js3 =
      (if r = RET_OK \<and> \<not> is_cancel e then
         (if lm then set_component_seqcode (any_seqcode e) SOURCE_LOG_MONITOR 0
          else if ig then last_seqcode js2 else Some (any_seqcode e))
       else last_seqcode js2)"
proof -
  have plain: "r \<noteq> RET_SOON" and body: "body_ok r js js2"
    using assms by (auto simp: out_ok_def body_ok_def wf_status_arrays times_kept_def)
  show ?thesis
  proof (cases "r = RET_OK")
    case True
    with body obtain js3 where js3: "enter_state (state js) e js2 = Inr js3" "step_ok e js js3"
      using enter_state_step by blast
    let ?f = "fill_network_server strict e r (finish_usable e (state js) fine lm ig js3)"
    have "same_view ?f js3" by (simp add: same_view_def same_core_def)
    with js3 have "step_ok e js ?f" by (blast intro: step_ok_same_view)
    with js3(1) enter_state_keeps [OF js3(1)] True show ?thesis by (simp add: finish_glite_def)
  next
    case False
    have "same_view (fill_network_server strict e r js2) js2" by (simp add: same_view_def same_core_def)
    moreover have "step_ok e js js2" using body False by (auto simp: body_ok_def step_ok_def)
    ultimately have "step_ok e js (fill_network_server strict e r js2)" by (blast intro: step_ok_same_view)
    with False plain show ?thesis by (simp add: finish_glite_def USABLE_plain)
  qed
qed

lemma handle_cancel_code:
  assumes "r0 \<noteq> RET_SOON" and "handle_cancel junk strict e r0 fine c rsn js = Inr (Handled js1 r lm ig)"
    and "state js1 \<noteq> state js"
  shows "last_seqcode js1 \<noteq> None"
  using assms by (auto simp: handle_cancel_def handled_def Let_def USABLE_plain split: if_splits)

lemma out_ok_base:
  assumes "state js' = state js" and "times_kept js js'" and "last_seqcode js' = last_seqcode js"
  shows "out_ok js' out = out_ok js out"
  using assms by (simp add: out_ok_def times_kept_def split: outcome.split)

lemma processEvent_glite_unfold:
  assumes "classify_event junk e (forget_loops e js) = (r, fine)"
    and "glite_prepare junk e (forget_loops e js) = Inr js1"
  shows "processEvent_glite junk strict e js =
    rbind (glite_switch junk strict e (state js) r fine js1) (\<lambda>out.
      case out of
        BadEvent js2 \<Rightarrow> Inr (RET_SUSPECT, js2)
      | Handled js2 r2 lm ig \<Rightarrow>
          rbind (finish_glite strict e (state js) r2 fine lm ig js2) (\<lambda>js3. Inr (r2, js3)))"
  using assms by (simp add: processEvent_glite_def)

text \<open>What has been set up when the handlers start.\<close>

lemma glite_start:
  assumes "glite_inv js"
  obtains r fine js1 where "classify_event junk e (forget_loops e js) = (r, fine)"
    and "r = RET_OK \<or> r = RET_LATE"
    and "glite_prepare junk e (forget_loops e js) = Inr js1" and "arrays_ok js1" and "state js1 = state js"
    and "times_kept js js1" and "last_seqcode js1 = last_seqcode js" and "same_codes (forget_loops e js) js1"
    and "r = RET_LATE \<Longrightarrow> fine \<noteq> RET_TOOOLD \<Longrightarrow> fine \<noteq> RET_BADBRANCH \<Longrightarrow>
           last_branch_seqcode js1 = None \<Longrightarrow> last_seqcode js1 \<noteq> None"
proof -
  obtain r fine where cl: "classify_event junk e (forget_loops e js) = (r, fine)" by (cases "classify_event junk e (forget_loops e js)")
  have "wf_status (forget_loops e js)" using assms by (simp add: glite_inv_def wf_defs)
  then obtain js1 where js1: "glite_prepare junk e (forget_loops e js) = Inr js1"
    "body_ok RET_LATE (forget_loops e js) js1" "same_codes (forget_loops e js) js1"
    using glite_prepare_ok by blast
  show ?thesis
  proof (rule that [OF cl _ js1(1) _ _ _ _ js1(3)])
    show "r = RET_OK \<or> r = RET_LATE" using classify_late [OF cl] by blast
    show "arrays_ok js1" "state js1 = state js" "times_kept js js1" "last_seqcode js1 = last_seqcode js"
      using js1(2,3) by (simp_all add: body_ok_def same_codes_def wf_status_arrays times_kept_def)
    show "last_seqcode js1 \<noteq> None" if "r = RET_LATE" "fine \<noteq> RET_TOOOLD" "fine \<noteq> RET_BADBRANCH"
      "last_branch_seqcode js1 = None"
      using classify_late [OF cl] that js1(3) assms by (auto simp: same_codes_def glite_inv_def)
  qed
qed

lemma processEvent_glite_step:
  assumes "glite_inv js" and "glite_acceptable e"
  shows "\<exists>r js'. processEvent_glite junk strict e js = Inr (r, js') \<and> step_ok e js js' \<and> glite_inv js'"
proof -
  obtain r fine js1 where cl: "classify_event junk e (forget_loops e js) = (r, fine)"
    and r: "r = RET_OK \<or> r = RET_LATE" and pr: "glite_prepare junk e (forget_loops e js) = Inr js1"
    and a1: "arrays_ok js1" and s1: "state js1 = state js" and t1: "times_kept js js1"
    and l1: "last_seqcode js1 = last_seqcode js"
    and rr: "r = RET_LATE \<Longrightarrow> fine \<noteq> RET_TOOOLD \<Longrightarrow> fine \<noteq> RET_BADBRANCH \<Longrightarrow>
           last_branch_seqcode js1 = None \<Longrightarrow> last_seqcode js1 \<noteq> None"
    using glite_start [OF assms(1)] by metis
  have w: "wf_status js" and inv: "terminal (state js) \<Longrightarrow> last_seqcode js \<noteq> None"
    using assms(1) by (simp_all add: glite_inv_def)
  have "run_ok js1 (glite_switch junk strict e (state js) r fine js1)"
    using a1 w s1 r assms(2) rr by (intro glite_switch_ok) (auto simp: wf_status_def)
  then obtain out where out: "glite_switch junk strict e (state js) r fine js1 = Inr out" "out_ok js1 out"
    by (rule run_okE)
  then have ok: "out_ok js out" using out_ok_base [OF s1 t1 l1] by simp
  show ?thesis
  proof (cases out)
    case (BadEvent js2)
    with ok w have "step_ok e js js2 \<and> glite_inv js2"
      using inv by (auto simp: out_ok_def step_ok_def times_kept_def wf_status_arrays glite_inv_def)
    with BadEvent out(1) show ?thesis by (simp add: processEvent_glite_unfold [OF cl pr])
  next
    case (Handled js2 r2 lm ig)
    then obtain js3 where js3: "finish_glite strict e (state js) r2 fine lm ig js2 = Inr js3" "step_ok e js js3"
      and l3: "last_seqcode js3 =
        (if r2 = RET_OK \<and> \<not> is_cancel e then
           (if lm then set_component_seqcode (any_seqcode e) SOURCE_LOG_MONITOR 0
            else if ig then last_seqcode js2 else Some (any_seqcode e))
         else last_seqcode js2)"
      using finish_glite_step [OF w] ok by blast
    have st: "state js3 = state js2"
    proof (cases "USABLE r2 strict")
      case True
      with js3(1) obtain k where "enter_state (state js) e js2 = Inr k"
        "js3 = fill_network_server strict e r2 (finish_usable e (state js) fine lm ig k)"
        by (auto simp: finish_glite_def res_simps)
      with enter_state_keeps show ?thesis by simp
    next
      case False
      with js3(1) show ?thesis by (auto simp: finish_glite_def)
    qed
    have cancel: "last_seqcode js2 \<noteq> None" if "is_cancel e" "state js2 \<noteq> state js"
    proof -
      from that(1) obtain c rsn where "ev_body e = EvGlite (EvCancel c rsn)"
        by (auto simp: is_cancel_def split: event_body.splits glite_event.splits)
      with out(1) Handled that(2) s1 r show ?thesis
        using handle_cancel_code [of r junk strict e fine c rsn js1 js2 r2 lm ig] by (auto simp: glite_switch_def)
    qed
    have "last_seqcode js3 \<noteq> None" if "terminal (state js3)"
      using that ok Handled inv cancel st l3 l1
      by (cases "state js2 = state js"; cases "r2 = RET_OK"; cases "is_cancel e"; cases lm; cases ig)
        (auto simp: out_ok_def)
    with js3 have "glite_inv js3" by (simp add: glite_inv_def step_ok_def)
    with js3 Handled out(1) show ?thesis by (simp add: processEvent_glite_unfold [OF cl pr])
  qed
qed

interpretation glite: event_processor "processEvent_glite junk strict" glite_inv glite_acceptable
proof
  fix js e r js'
  show "wf_status js" if "glite_inv js" using that by (simp add: glite_inv_def)
  assume i: "glite_inv js" and a: "glite_acceptable e"
  from processEvent_glite_step [OF this, of junk strict]
  show "\<exists>r js'. processEvent_glite junk strict e js = Inr (r, js') \<and> glite_inv js'" by blast
  assume "processEvent_glite junk strict e js = Inr (r, js')"
  with processEvent_glite_step [OF i a, of junk strict] have s: "step_ok e js js'" by auto
  show "stamped js' e" if "state js' \<noteq> state js" using s that by (simp add: step_ok_def)
  show "stateEnterTime js' = stateEnterTime js \<and> lastUpdateTime js' \<in> {lastUpdateTime js, any_timestamp e}"
    if "state js' = state js" using s that by (simp add: step_ok_def)
qed

end
