(* ===== verification/LB_GliteLate.thy ===== *)
theory LB_GliteLate
  imports LB_GliteProps
begin

text \<open>
  Late events of gLite jobs: events of a finished job, from before a deep resubmission, from
  another branch than the one whose payload runs, or older than what was processed. They
  may add data but never move the job; and what makes events late.
\<close>

definition abort_from_wm :: "edg_wll_Event \<Rightarrow> bool" where
  "abort_from_wm e \<longleftrightarrow>
     any_source e = SOURCE_WORKLOAD_MANAGER \<and>
     (case ev_body e of EvGlite (EvAbort _) \<Rightarrow> True | _ \<Rightarrow> False)"

definition unmoved :: "intJobStat \<Rightarrow> intJobStat \<Rightarrow> bool" where
  "unmoved js js1 \<longleftrightarrow>
     state js1 = state js \<and> stateEnterTime js1 = stateEnterTime js \<and> lastUpdateTime js1 = lastUpdateTime js \<and>
     last_seqcode js1 = last_seqcode js"

definition late_out :: "intJobStat \<Rightarrow> outcome \<Rightarrow> bool" where
  "late_out js out =
     (case out of
        Handled js1 r lm ig \<Rightarrow> (r = RET_LATE \<or> r = RET_IGNORE) \<and> unmoved js js1
      | BadEvent js1 \<Rightarrow> unmoved js js1)"

lemma late_out_simps [simp]:
  "late_out js (Handled js1 r lm ig) = ((r = RET_LATE \<or> r = RET_IGNORE) \<and> unmoved js js1)"
  "late_out js (BadEvent js1) = unmoved js js1"
  by (simp_all add: late_out_def)

lemma ok_res_late [simp]:
  "ok_res P (handled r js1) = P (Handled js1 r False False)" "ok_res P (bad_event js1) = P (BadEvent js1)"
  by (simp_all add: handled_def bad_event_def)

lemma unmoved_refl [simp]: "unmoved js js"
  by (simp add: unmoved_def)

lemma late_transfer: "ok_res (late_out js) (handle_transfer strict e old RET_LATE d dh di j x rsn js)"
  by (simp add: handle_transfer_def Let_def unmoved_def ok_resI)

lemma late_enqueued: "ok_res (late_out js) (handle_enqueued strict e old RET_LATE q j x rsn js)"
  by (simp add: handle_enqueued_def Let_def unmoved_def)

lemma late_accepted: "ok_res (late_out js) (handle_accepted strict e old RET_LATE fh lj js)"
  by (simp add: handle_accepted_def Let_def unmoved_def)

lemma late_running: "ok_res (late_out js) (handle_running strict e RET_LATE fine node js)"
  by (simp add: handle_running_def Let_def unmoved_def split: option.split)

lemma late_match: "ok_res (late_out js) (handle_match strict e RET_LATE fine d js)"
  by (simp add: handle_match_def Let_def unmoved_def split: option.split)

lemma late_really_running_end:
  "unmoved js js1 \<Longrightarrow> ok_res (late_out js) (really_running_end RET_LATE js1)"
  by (simp add: really_running_end_def unmoved_def ok_resI)

lemma late_really_running: "ok_res (late_out js) (handle_really_running e RET_LATE fine wn js)"
proof -
  have "unmoved js (really_running_lrms e RET_LATE js)"
    by (simp add: really_running_lrms_def unmoved_def)
  moreover have "unmoved js js1" if "really_running_lm RET_LATE wn js = Inl js1 \<or> really_running_lm RET_LATE wn js = Inr js1" for js1
    using that by (auto simp: really_running_lm_def Let_def unmoved_def split: if_splits)
  ultimately show ?thesis
    using late_really_running_end by (auto simp: handle_really_running_def split: sum.split)
qed

lemma late_resubmission: "ok_res (late_out js) (handle_resubmission strict e RET_LATE x rsn js)"
  by (simp add: handle_resubmission_def Let_def unmoved_def reset_branch_def)

lemma late_done: "ok_res (late_out js) (handle_done strict e RET_LATE fine c rsn x js)"
  by (simp add: handle_done_def done_data_def Let_def unmoved_def)

lemma late_cancel: "ok_res (late_out js) (handle_cancel junk strict e RET_LATE fine c rsn js)"
  by (simp add: handle_cancel_def Let_def unmoved_def)

lemma late_clear: "ok_res (late_out js) (handle_clear strict RET_LATE c js)"
  by (simp add: handle_clear_def clear_data_def unmoved_def split: option.split)

lemma late_regjob: "ok_res (late_out js) (handle_regjob strict RET_LATE j ns par jt n sd js)"
  by (simp add: handle_regjob_def register_children_def Let_def unmoved_def ok_resI)

lemma late_usertag: "ok_res (late_out js) (handle_usertag junk strict e RET_LATE n v js)"
  by (simp add: handle_usertag_def add_user_tag_def add_taglist_def Let_def deref_def unmoved_def split: option.split)

lemma late_cream: "ok_res (late_out js) (handle_glite_cream strict e RET_LATE ev js)"
  by (cases ev; simp add: handle_glite_cream_def Let_def)

lemma glite_switch_late:
  assumes "\<not> abort_from_wm e"
  shows "ok_res (late_out js) (glite_switch junk strict e old RET_LATE fine js)"
proof (cases "ev_body e")
  case (EvGlite g)
  then show ?thesis
    using assms
    by (cases g)
      (simp_all add: glite_switch_def late_transfer late_enqueued late_accepted late_running late_match
        late_really_running late_resubmission late_done late_cancel late_clear late_regjob late_usertag
        handle_refused_def handle_dequeued_def handle_helper_call_def handle_helper_return_def handle_suspend_def
        handle_abort_def handle_pending_def handle_collection_state_def handle_grant_def handle_take_def
        abort_from_wm_def Let_def unmoved_def)
next
  case (EvFt t)
  then show ?thesis
    by (cases t) (simp_all add: glite_switch_def handle_sandbox_def Let_def unmoved_def split: option.split)
next
  case (EvCream c)
  then show ?thesis by (simp add: glite_switch_def late_cream)
qed (simp_all add: glite_switch_def)

lemma prepare_unmoved: "ok_res (unmoved js) (glite_prepare junk e (forget_loops e js))"
proof -
  have tag: "ok_res (unmoved js) (add_user_tag junk e n v js1)" if "unmoved js js1" for n v js1
    using that
    by (simp add: add_user_tag_def add_taglist_def Let_def deref_def unmoved_def split: option.split)
  have f: "unmoved js (forget_loops e js)" by (simp add: unmoved_def)
  moreover have "unmoved js (default_location s js1) = unmoved js js1" for s js1
    by (simp add: unmoved_def)
  moreover have "unmoved js (cream_status_data x f w l js1) = unmoved js js1"
    "unmoved js (cream_reg_data j ns js1) = unmoved js js1"
    "unmoved js (js1\<lparr>cream_id := i, globusId := i\<rparr>) = unmoved js js1" for x f w l j ns i js1
    by (simp_all add: unmoved_def cream_status_data_def cream_reg_data_def Let_def split: option.split)
  ultimately show ?thesis
    using tag by (cases "ev_body e"; simp add: glite_prepare_def processData_Cream_def split: glite_event.split cream_event.split)
qed

lemma fill_unmoved [simp]: "unmoved js (fill_network_server s e r js1) = unmoved js js1"
  by (simp add: unmoved_def)

lemma late_unmoved:
  assumes "classify_event junk e (forget_loops e js) = (RET_LATE, fine)" and "\<not> abort_from_wm e"
    and "processEvent_glite junk strict e js = Inr (r, js')"
  shows "unmoved js js' \<and> r \<noteq> RET_OK"
proof -
  from assms(1,3) obtain js1 where pr: "glite_prepare junk e (forget_loops e js) = Inr js1"
    by (auto simp: processEvent_glite_def res_simps)
  then have u1: "unmoved js js1" using prepare_unmoved [of js junk e] by simp
  from assms(3) obtain out where sw: "glite_switch junk strict e (state js) RET_LATE fine js1 = Inr out"
    unfolding processEvent_glite_unfold [OF assms(1) pr] by (auto simp: res_simps)
  then have "late_out js1 out" using glite_switch_late [OF assms(2), of js1 junk strict "state js" fine] by simp
  with assms(3) sw u1 show ?thesis
    unfolding processEvent_glite_unfold [OF assms(1) pr]
    by (cases out) (auto simp: finish_glite_def unmoved_def)
qed

text \<open>The four ways in which an event is late.\<close>

lemma classify_late_cases:
  assumes "finished_before e js \<or> too_old e js \<or>
           (\<exists>tag. branch_tag_seqcode js = Some tag \<and>
              (\<not> same_branch (any_seqcode e) tag \<or> older junk e (last_branch_seqcode js))) \<or>
           (branch_tag_seqcode js = None \<and> older junk e (last_seqcode js))"
  shows "\<exists>fine. classify_event junk e js = (RET_LATE, fine)"
  using assms by (auto simp: classify_event_def Let_def split: option.split)

text \<open>
  C2. A late event never moves a gLite job, whatever it reports: if the job is finished, or
  the event dates from before the last deep resubmission, or belongs to another branch than
  the one whose payload runs, or is older than the last event of that branch (or, with no
  branch chosen, than the last event), then state, enter time, update time and last
  sequence code stay as they are and the result is not \<^verbatim>\<open>RET_OK\<close>. The one exception is an
  abort reported by the workload manager.
\<close>

theorem late_event_never_moves:
  assumes "processEvent_glite junk strict e js = Inr (r, js')" and "\<not> abort_from_wm e"
    and "js1 = forget_loops e js"
    and "finished_before e js \<or> too_old e js1 \<or>
         (\<exists>tag. branch_tag_seqcode js1 = Some tag \<and>
            (\<not> same_branch (any_seqcode e) tag \<or> older junk e (last_branch_seqcode js1))) \<or>
         (branch_tag_seqcode js1 = None \<and> older junk e (last_seqcode js))"
  shows "state js' = state js \<and> stateEnterTime js' = stateEnterTime js \<and>
    lastUpdateTime js' = lastUpdateTime js \<and> last_seqcode js' = last_seqcode js \<and> r \<noteq> RET_OK"
proof -
  have "finished_before e js1 = finished_before e js" using assms(3) by (simp add: finished_before_def)
  with assms(3,4) obtain fine where "classify_event junk e (forget_loops e js) = (RET_LATE, fine)"
    using classify_late_cases [of e js1 junk] by auto
  from late_unmoved [OF this assms(2,1)] show ?thesis by (simp add: unmoved_def)
qed

definition example_event :: "string \<Rightarrow> edg_wll_Source \<Rightarrow> glite_event \<Rightarrow> edg_wll_Event" where
  "example_event code src ev =
     \<lparr>any_timestamp = \<lparr>tv_sec = 1300000000, tv_usec = 7\<rparr>, any_arrived = null_timeval,
      any_host = Some ''wms1'', any_level = 8, any_priority = 0, any_jobId = None,
      any_seqcode = code, any_user = Some ''/CN=A'', any_source = src, any_src_instance = None,
      ev_body = EvGlite ev\<rparr>"

lemma example_event_fields [simp]:
  "any_seqcode (example_event c s ev) = c" "any_source (example_event c s ev) = s"
  "ev_body (example_event c s ev) = EvGlite ev" "any_host (example_event c s ev) = Some ''wms1''"
  "any_src_instance (example_event c s ev) = None"
  "any_timestamp (example_event c s ev) = \<lparr>tv_sec = 1300000000, tv_usec = 7\<rparr>"
  by (simp_all add: example_event_def)

lemma glite_inv_init: "glite_inv init_intJobStat"
  using wf_init by (simp add: glite_inv_def terminal_def)

lemma glite_inv_update:
  "job_state st \<Longrightarrow> glite_inv (init_intJobStat\<lparr>state := st, last_seqcode := Some c\<rparr>)"
  using wf_init by (simp add: glite_inv_def wf_defs)

theorem late_event_never_moves_witness:
  "\<exists>r js'. processEvent_glite (\<lambda>_ _. (0, 0)) False (example_event example_code1 SOURCE_LRMS (EvRunning (Some ''wn7'')))
      (init_intJobStat\<lparr>state := EDG_WLL_JOB_CANCELLED, last_seqcode := Some example_code2\<rparr>) = Inr (r, js') \<and>
    state js' = EDG_WLL_JOB_CANCELLED \<and> r \<noteq> RET_OK"
proof -
  let ?e = "example_event example_code1 SOURCE_LRMS (EvRunning (Some ''wn7''))"
  let ?js = "init_intJobStat\<lparr>state := EDG_WLL_JOB_CANCELLED, last_seqcode := Some example_code2\<rparr>"
  have "glite_acceptable ?e" by (simp add: glite_acceptable_def)
  with glite.proc_inv [OF glite_inv_update [of 9 example_code2], of ?e "\<lambda>_ _. (0, 0)" False]
  obtain r js' where p: "processEvent_glite (\<lambda>_ _. (0, 0)) False ?e ?js = Inr (r, js')" by auto
  have "\<not> abort_from_wm ?e" "finished_before ?e ?js" by (simp_all add: abort_from_wm_def finished_before_def)
  with late_event_never_moves [OF p _ refl] p show ?thesis by auto
qed

text \<open>
  C11. A cleared, cancelled or aborted job stays so: any sequence of acceptable events, as long
  as it holds no abort from the workload manager and no collection state, is processed
  without fault and leaves the state and its enter time alone.
\<close>

theorem finished_job_stays_finished:
  assumes "glite_inv js" and "terminal (state js)" and "list_all glite_acceptable es"
    and "list_all (\<lambda>e. \<not> abort_from_wm e \<and> \<not> is_collection_state e) es"
  shows "\<exists>js'. run_events (processEvent_glite junk strict) es js = Inr js' \<and>
    state js' = state js \<and> stateEnterTime js' = stateEnterTime js"
  using assms
proof (induction es arbitrary: js)
  case (Cons e es)
  then obtain r js1 where p: "processEvent_glite junk strict e js = Inr (r, js1)" "glite_inv js1"
    using glite.proc_inv [of js e junk strict] by auto
  have fb: "finished_before e js" using Cons.prems by (auto simp: finished_before_def terminal_def)
  then have "finished_before e (forget_loops e js)" by (simp add: finished_before_def)
  then obtain fine where "classify_event junk e (forget_loops e js) = (RET_LATE, fine)"
    using classify_late_cases by blast
  with late_unmoved [OF this _ p(1)] Cons.prems have "unmoved js js1" by auto
  with Cons.IH [OF p(2)] Cons.prems p(1) show ?case by (auto simp: unmoved_def)
qed simp

theorem finished_job_stays_finished_witness:
  "\<exists>js'. run_events (processEvent_glite (\<lambda>_ _. (0, 0)) False)
      [example_event example_code2 SOURCE_LRMS (EvRunning (Some ''wn7'')),
       example_event example_code2 SOURCE_LOG_MONITOR (EvDone EDG_WLL_DONE_OK None 0)]
      (init_intJobStat\<lparr>state := EDG_WLL_JOB_CLEARED, last_seqcode := Some example_code1\<rparr>) = Inr js' \<and>
    state js' = EDG_WLL_JOB_CLEARED"
proof -
  let ?es = "[example_event example_code2 SOURCE_LRMS (EvRunning (Some ''wn7'')),
       example_event example_code2 SOURCE_LOG_MONITOR (EvDone EDG_WLL_DONE_OK None 0)]"
  let ?js = "init_intJobStat\<lparr>state := EDG_WLL_JOB_CLEARED, last_seqcode := Some example_code1\<rparr>"
  have "list_all glite_acceptable ?es" by (simp add: glite_acceptable_def known_done_def)
  moreover have "list_all (\<lambda>e. \<not> abort_from_wm e \<and> \<not> is_collection_state e) ?es"
    by (simp add: abort_from_wm_def is_collection_state_def)
  moreover have "terminal (state ?js)" "glite_inv ?js" using glite_inv_update [of 7] by (simp_all add: terminal_def)
  ultimately show ?thesis using finished_job_stays_finished [of ?js ?es "\<lambda>_ _. (0, 0)" False] by auto
qed

section \<open>Aborts, deep resubmissions and branches\<close>

lemma glite_prepare_not_cream: "\<not> from_cream e \<Longrightarrow> glite_prepare junk e js = Inr js"
  by (simp add: glite_prepare_def)

lemma processEvent_glite_handled:
  assumes "classify_event junk e (forget_loops e js) = (r, fine)" and "\<not> from_cream e"
    and "glite_switch junk strict e (state js) r fine (forget_loops e js) = Inr (Handled js2 r2 lm ig)"
    and "wf_status js" and "out_ok js (Handled js2 r2 lm ig)"
  shows "\<exists>js3. processEvent_glite junk strict e js = Inr (r2, js3) \<and> state js3 = state js2 \<and>
    finish_glite strict e (state js) r2 fine lm ig js2 = Inr js3"
proof -
  obtain js3 where js3: "finish_glite strict e (state js) r2 fine lm ig js2 = Inr js3"
    using finish_glite_step [OF assms(4,5)] by blast
  then have "state js3 = state js2"
    using enter_state_keeps by (auto simp: finish_glite_def res_simps split: if_splits)
  with assms(3) js3 show ?thesis
    by (simp add: processEvent_glite_unfold [OF assms(1) glite_prepare_not_cream [OF assms(2)]])
qed

lemma finish_glite_codes:
  assumes "finish_glite strict e old r fine lm ig js = Inr js'"
  shows "branch_tag_seqcode js' = branch_tag_seqcode js \<and> deep_resubmit_seqcode js' = deep_resubmit_seqcode js \<and>
    remove_from_proxy js' = remove_from_proxy js \<and> payload_running js' = payload_running js \<and>
    branch_states js' = branch_states js \<and>
    last_branch_seqcode js' =
      (if USABLE r strict \<and> fine = RET_GOODBRANCH then Some (any_seqcode e) else last_branch_seqcode js) \<and>
    last_seqcode js' =
      (if USABLE r strict \<and> \<not> is_cancel e then
         (if lm then set_component_seqcode (any_seqcode e) SOURCE_LOG_MONITOR 0
          else if ig then last_seqcode js else Some (any_seqcode e))
       else last_seqcode js)"
proof -
  have en: "ok_res (\<lambda>k. branch_tag_seqcode k = branch_tag_seqcode js \<and> deep_resubmit_seqcode k = deep_resubmit_seqcode js \<and>
      remove_from_proxy k = remove_from_proxy js \<and> payload_running k = payload_running js \<and>
      branch_states k = branch_states js \<and> last_branch_seqcode k = last_branch_seqcode js \<and>
      last_seqcode k = last_seqcode js) (enter_state old e js)"
    by (simp add: enter_state_def Let_def ok_resI)
  show ?thesis
  proof (cases "USABLE r strict")
    case True
    with assms obtain k where "enter_state old e js = Inr k"
      "js' = fill_network_server strict e r (finish_usable e old fine lm ig k)"
      by (auto simp: finish_glite_def res_simps)
    with True en show ?thesis by (simp add: fill_network_server_def finish_usable_def Let_def)
  next
    case False
    with assms show ?thesis by (auto simp: finish_glite_def fill_network_server_def)
  qed
qed

text \<open>
  An abort reported by the workload manager is obeyed in every state and however late it
  comes: the job is aborted, leaves the proxy, its branches are forgotten and the event's
  code becomes the deadline for all that follows.
\<close>

theorem abort_from_wm_always_aborts:
  assumes "glite_inv js" and "abort_from_wm e"
  shows "\<exists>js'. processEvent_glite junk strict e js = Inr (RET_OK, js') \<and> state js' = EDG_WLL_JOB_ABORTED \<and>
    remove_from_proxy js' = 1 \<and> branch_tag_seqcode js' = None \<and> branch_states js' = None \<and>
    deep_resubmit_seqcode js' = Some (any_seqcode e) \<and> last_seqcode js' = Some (any_seqcode e)"
proof -
  from assms(2) obtain rsn where src: "any_source e = SOURCE_WORKLOAD_MANAGER"
    and b: "ev_body e = EvGlite (EvAbort rsn)"
    by (auto simp: abort_from_wm_def split: event_body.splits glite_event.splits)
  obtain r fine where cl: "classify_event junk e (forget_loops e js) = (r, fine)"
    by (cases "classify_event junk e (forget_loops e js)")
  let ?js2 = "reset_branch (any_seqcode e)
     ((forget_loops e js)\<lparr>state := EDG_WLL_JOB_ABORTED, remove_from_proxy := 1, reason := rsn, location := Some ''none''\<rparr>)"
  have sw: "glite_switch junk strict e (state js) r fine (forget_loops e js) = Inr (Handled ?js2 RET_OK False False)"
    using src b by (simp add: glite_switch_def handle_abort_def handled_def)
  have nc: "\<not> from_cream e" "\<not> is_cancel e" using src b by (simp_all add: from_cream_def is_cancel_def)
  have w: "wf_status js" using assms(1) by (simp add: glite_inv_def)
  then have "out_ok js (Handled ?js2 RET_OK False False)" by (simp add: out_defs wf_status_arrays)
  from processEvent_glite_handled [OF cl nc(1) sw w this]
  obtain js3 where js3: "processEvent_glite junk strict e js = Inr (RET_OK, js3)" "state js3 = state ?js2"
    "finish_glite strict e (state js) RET_OK fine False False ?js2 = Inr js3" by blast
  with finish_glite_codes [OF js3(3)] nc(2) show ?thesis by (simp add: reset_branch_def)
qed

theorem abort_from_wm_always_aborts_witness:
  "\<exists>js'. processEvent_glite (\<lambda>_ _. (0, 0)) False (example_event example_code1 SOURCE_WORKLOAD_MANAGER (EvAbort None))
      (init_intJobStat\<lparr>state := EDG_WLL_JOB_CLEARED, last_seqcode := Some example_code2\<rparr>) = Inr (RET_OK, js') \<and>
    state js' = EDG_WLL_JOB_ABORTED"
proof -
  have i: "glite_inv (init_intJobStat\<lparr>state := EDG_WLL_JOB_CLEARED, last_seqcode := Some example_code2\<rparr>)"
    by (rule glite_inv_update) simp
  have "abort_from_wm (example_event example_code1 SOURCE_WORKLOAD_MANAGER (EvAbort None))"
    by (simp add: abort_from_wm_def)
  from abort_from_wm_always_aborts [OF i this, of "\<lambda>_ _. (0, 0)" False]
  show ?thesis by auto
qed

text \<open>
  Deep resubmission is a deadline: once the workload manager's resubmission event has
  been processed in order, every event from before it (with a smaller workload manager
  component, and not logged anew by the network server or user interface) leaves the job
  where it is, unless it is the workload manager's abort.
\<close>

theorem deep_resubmission_deadline:
  assumes "glite_inv js" and "any_source e1 = SOURCE_WORKLOAD_MANAGER"
    and "ev_body e1 = EvGlite (EvResubmission EDG_WLL_RESUBMISSION_WILLRESUB rsn tag)"
    and "processEvent_glite junk strict e1 js = Inr (RET_OK, js1)"
    and "before_deep_resubmission (any_seqcode e2) (any_seqcode e1)"
    and "\<not> after_enter_wm (any_seqcode e2) (any_seqcode e1)" and "\<not> abort_from_wm e2"
    and "processEvent_glite junk strict e2 js1 = Inr (r, js2)"
  shows "branch_tag_seqcode js1 = None \<and> deep_resubmit_seqcode js1 = Some (any_seqcode e1) \<and>
    state js2 = state js1 \<and> r \<noteq> RET_OK"
proof -
  obtain r1 fine where cl: "classify_event junk e1 (forget_loops e1 js) = (r1, fine)"
    by (cases "classify_event junk e1 (forget_loops e1 js)")
  have nc: "\<not> from_cream e1" "\<not> is_cancel e1" using assms(2,3) by (simp_all add: from_cream_def is_cancel_def)
  obtain js0 where fin: "finish_glite strict e1 (state js) r1 fine False False js0 = Inr js1" and r1: "r1 = RET_OK"
    and js0: "js0 = (if USABLE_DATA r1 strict then reset_branch (any_seqcode e1) (forget_loops e1 js)
                     else forget_loops e1 js)"
    using assms(2-4) unfolding processEvent_glite_unfold [OF cl glite_prepare_not_cream [OF nc(1)]]
    by (auto simp: glite_switch_def handle_resubmission_def handled_def Let_def res_simps)
  from finish_glite_codes [OF fin] r1 js0 nc(2)
  have codes: "branch_tag_seqcode js1 = None" "deep_resubmit_seqcode js1 = Some (any_seqcode e1)"
    "last_seqcode js1 = Some (any_seqcode e1)"
    by (simp_all add: reset_branch_def)
  with assms(6) have "forget_loops e2 js1 = js1" by (simp add: forget_loops_def)
  moreover have "too_old e2 js1" using codes(2) assms(5) by (simp add: too_old_def)
  ultimately obtain f2 where "classify_event junk e2 (forget_loops e2 js1) = (RET_LATE, f2)"
    using classify_late_cases [of e2 js1 junk] by auto
  from late_unmoved [OF this assms(7,8)] codes show ?thesis by (simp add: unmoved_def)
qed

lemma example_components:
  "component_seqcode example_code1 SOURCE_WORKLOAD_MANAGER = 7"
  "component_seqcode example_code2 SOURCE_WORKLOAD_MANAGER = 8"
  "component_seqcode example_code1 SOURCE_NETWORK_SERVER = 5" "component_seqcode example_code2 SOURCE_NETWORK_SERVER = 5"
  "component_seqcode example_code1 SOURCE_USER_INTERFACE = 3" "component_seqcode example_code2 SOURCE_USER_INTERFACE = 3"
  by (simp_all add: component_seqcode_def example_parse seq_component_def)

lemma example_code_relations:
  "before_deep_resubmission example_code1 example_code2" "\<not> same_branch example_code1 example_code2"
  "same_branch example_code2 example_code2"
  "\<not> after_enter_wm example_code1 example_code2" "\<not> after_enter_wm example_code2 example_code1"
  by (simp_all add: before_deep_resubmission_def same_branch_def after_enter_wm_def example_components)

lemma fresh_forget: "last_seqcode js = None \<Longrightarrow> forget_loops e js = js"
  by (simp add: forget_loops_def)

lemma fresh_classify:
  "last_seqcode js = None \<Longrightarrow> branch_tag_seqcode js = None \<Longrightarrow> deep_resubmit_seqcode js = None \<Longrightarrow>
   \<not> terminal (state js) \<Longrightarrow> classify_event junk e (forget_loops e js) = (RET_OK, RET_OK)"
  by (auto simp: fresh_forget classify_event_def too_old_def older_def finished_before_def terminal_def)

theorem deep_resubmission_deadline_witness:
  "\<exists>js1 r js2. processEvent_glite (\<lambda>_ _. (0, 0)) False
       (example_event example_code2 SOURCE_WORKLOAD_MANAGER
          (EvResubmission EDG_WLL_RESUBMISSION_WILLRESUB None None)) init_intJobStat = Inr (RET_OK, js1) \<and>
     processEvent_glite (\<lambda>_ _. (0, 0)) False
       (example_event example_code1 SOURCE_LRMS (EvRunning (Some ''wn7''))) js1 = Inr (r, js2) \<and>
     state js2 = state js1 \<and> r \<noteq> RET_OK"
proof -
  let ?J = "\<lambda>_ _. (0, 0)" and ?js = init_intJobStat
  let ?e1 = "example_event example_code2 SOURCE_WORKLOAD_MANAGER
      (EvResubmission EDG_WLL_RESUBMISSION_WILLRESUB None None)"
  let ?e2 = "example_event example_code1 SOURCE_LRMS (EvRunning (Some ''wn7''))"
  have cl: "classify_event ?J ?e1 (forget_loops ?e1 ?js) = (RET_OK, RET_OK)"
    by (rule fresh_classify) (simp_all add: terminal_def)
  have sw: "glite_switch ?J False ?e1 (state ?js) RET_OK RET_OK (forget_loops ?e1 ?js) =
      Inr (Handled (reset_branch example_code2 ?js) RET_OK False False)"
    by (simp add: fresh_forget glite_switch_def handle_resubmission_def handled_def)
  have "out_ok ?js (Handled (reset_branch example_code2 ?js) RET_OK False False)"
    using wf_init by (simp add: out_defs wf_status_arrays terminal_def)
  from processEvent_glite_handled [OF cl _ sw wf_init this]
  obtain js1 where p1: "processEvent_glite ?J False ?e1 ?js = Inr (RET_OK, js1)"
    by (auto simp: from_cream_def)
  have "glite_acceptable ?e1" "glite_acceptable ?e2" by (simp_all add: glite_acceptable_def)
  with glite.proc_inv [OF glite_inv_init, of ?e1 ?J False] p1 obtain r js2
    where p2: "processEvent_glite ?J False ?e2 js1 = Inr (r, js2)"
    using glite.proc_inv [of js1 ?e2 ?J False] by auto
  from deep_resubmission_deadline [OF glite_inv_init _ _ p1 _ _ _ p2, of None None] p1 p2 example_code_relations
  show ?thesis by (auto simp: abort_from_wm_def)
qed

text \<open>
  A ReallyRunning event of the worker node, in order, selects its branch: the job runs,
  its payload is marked as running, and from then on an event of another branch of the same
  submission never moves the job (unless the workload manager aborts it).
\<close>

theorem really_running_selects_branch:
  assumes "glite_inv js" and "any_source e1 = SOURCE_LRMS" and "ev_body e1 = EvGlite (EvReallyRunning wn)"
    and "processEvent_glite junk strict e1 js = Inr (RET_OK, js1)"
    and "\<not> same_branch (any_seqcode e2) (any_seqcode e1)"
    and "\<not> after_enter_wm (any_seqcode e2) (any_seqcode e1)" and "\<not> abort_from_wm e2"
    and "processEvent_glite junk strict e2 js1 = Inr (r, js2)"
  shows "state js1 = EDG_WLL_JOB_RUNNING \<and> payload_running js1 = 1 \<and>
    branch_tag_seqcode js1 = Some (any_seqcode e1) \<and> state js2 = EDG_WLL_JOB_RUNNING \<and> r \<noteq> RET_OK"
proof -
  obtain r1 fine where cl: "classify_event junk e1 (forget_loops e1 js) = (r1, fine)"
    by (cases "classify_event junk e1 (forget_loops e1 js)")
  have nc: "\<not> from_cream e1" "\<not> is_cancel e1" using assms(2,3) by (simp_all add: from_cream_def is_cancel_def)
  have r1f: "r1 = RET_OK \<Longrightarrow> fine \<noteq> RET_BADBRANCH"
    using cl by (auto simp: classify_event_def Let_def split: if_splits option.splits)
  let ?jl = "load_branch_state ((really_running_lrms e1 RET_OK (forget_loops e1 js))
      \<lparr>jw_status := EDG_WLL_STAT_PAYLOAD_RUNNING, payload_running := 1\<rparr>)"
  have r1: "r1 = RET_OK"
  proof (rule ccontr)
    assume "r1 \<noteq> RET_OK"
    then have "r1 = RET_LATE" using classify_late [OF cl] by blast
    moreover have "\<not> abort_from_wm e1" using assms(3) by (simp add: abort_from_wm_def)
    ultimately show False using late_unmoved [OF _ _ assms(4)] cl by blast
  qed
  have "glite_switch junk strict e1 (state js) RET_OK fine (forget_loops e1 js) = Inr (Handled ?jl RET_OK False False)"
    using assms(2,3) r1f [OF r1]
    by (simp add: glite_switch_def handle_really_running_def really_running_end_def handled_def)
  then have fin: "finish_glite strict e1 (state js) RET_OK fine False False ?jl = Inr js1"
    using assms(4) r1 unfolding processEvent_glite_unfold [OF cl glite_prepare_not_cream [OF nc(1)]]
    by (auto simp: res_simps)
  have lb: "branch_tag_seqcode (load_branch_state k) = branch_tag_seqcode k"
    "payload_running (load_branch_state k) = payload_running k" for k
    by (rule only_branch_dataE [OF load_branch_only [of k]]; simp)+
  have st: "state js1 = 5"
    using fin enter_state_keeps
    by (auto simp: finish_glite_def res_simps really_running_lrms_def Let_def)
  from finish_glite_codes [OF fin] nc(2)
  have codes: "branch_tag_seqcode js1 = Some (any_seqcode e1)" "last_seqcode js1 = Some (any_seqcode e1)"
    "payload_running js1 = 1"
    by (simp_all add: lb really_running_lrms_def Let_def)
  with assms(6) have "forget_loops e2 js1 = js1" by (simp add: forget_loops_def)
  with codes(1) assms(5) obtain f2 where "classify_event junk e2 (forget_loops e2 js1) = (RET_LATE, f2)"
    using classify_late_cases [of e2 js1 junk] by auto
  from late_unmoved [OF this assms(7,8)] codes st show ?thesis by (simp add: unmoved_def)
qed

theorem really_running_selects_branch_witness:
  "\<exists>js1 r js2. processEvent_glite (\<lambda>_ _. (0, 0)) False
       (example_event example_code2 SOURCE_LRMS (EvReallyRunning None)) init_intJobStat = Inr (RET_OK, js1) \<and>
     processEvent_glite (\<lambda>_ _. (0, 0)) False
       (example_event example_code1 SOURCE_LOG_MONITOR (EvDone EDG_WLL_DONE_FAILED None 0)) js1 = Inr (r, js2) \<and>
     state js2 = EDG_WLL_JOB_RUNNING \<and> r \<noteq> RET_OK"
proof -
  let ?J = "\<lambda>_ _. (0, 0)" and ?js = init_intJobStat
  let ?e1 = "example_event example_code2 SOURCE_LRMS (EvReallyRunning None)"
  let ?e2 = "example_event example_code1 SOURCE_LOG_MONITOR (EvDone EDG_WLL_DONE_FAILED None 0)"
  let ?jl = "load_branch_state ((really_running_lrms ?e1 RET_OK ?js)
      \<lparr>jw_status := EDG_WLL_STAT_PAYLOAD_RUNNING, payload_running := 1\<rparr>)"
  have cl: "classify_event ?J ?e1 (forget_loops ?e1 ?js) = (RET_OK, RET_OK)"
    by (rule fresh_classify) (simp_all add: terminal_def)
  have sw: "glite_switch ?J False ?e1 (state ?js) RET_OK RET_OK (forget_loops ?e1 ?js) =
      Inr (Handled ?jl RET_OK False False)"
    by (simp add: fresh_forget glite_switch_def handle_really_running_def really_running_end_def handled_def)
  have "out_ok ?js (Handled ?jl RET_OK False False)"
    using wf_init by (simp add: out_defs wf_status_arrays really_running_lrms_def Let_def)
  from processEvent_glite_handled [OF cl _ sw wf_init this]
  obtain js1 where p1: "processEvent_glite ?J False ?e1 ?js = Inr (RET_OK, js1)"
    by (auto simp: from_cream_def)
  have "glite_acceptable ?e1" "glite_acceptable ?e2" by (simp_all add: glite_acceptable_def known_done_def)
  with glite.proc_inv [OF glite_inv_init, of ?e1 ?J False] p1 obtain r js2
    where p2: "processEvent_glite ?J False ?e2 js1 = Inr (r, js2)"
    using glite.proc_inv [of js1 ?e2 ?J False] by auto
  from really_running_selects_branch [OF glite_inv_init _ _ p1 _ _ _ p2, of None] p1 p2 example_code_relations
  show ?thesis by (auto simp: abort_from_wm_def)
qed

text \<open>
  A late ReallyRunning event from any source other than the worker node or the log
  monitor, when no branch has been chosen yet, makes the processor follow a null pointer.
\<close>

theorem really_running_null_branch:
  assumes "ev_body e = EvGlite (EvReallyRunning wn)"
    and "any_source e \<noteq> SOURCE_LRMS" and "any_source e \<noteq> SOURCE_LOG_MONITOR" and "\<not> from_cream e"
    and "js1 = forget_loops e js" and "branch_tag_seqcode js1 = None" and "last_branch_seqcode js1 = None"
    and "\<not> too_old e js1" and "finished_before e js \<or> older junk e (last_seqcode js)"
  shows "processEvent_glite junk strict e js = Inl Null_deref"
proof -
  have "finished_before e js1 = finished_before e js" using assms(5) by (simp add: finished_before_def)
  with assms(5-9) have cl: "classify_event junk e (forget_loops e js) = (RET_LATE, RET_OK)"
    by (auto simp: classify_event_def Let_def)
  have "glite_switch junk strict e (state js) RET_LATE RET_OK (forget_loops e js) = Inl Null_deref"
    using assms(1-3,5-7)
    by (cases "last_seqcode js") (simp_all add: glite_switch_def handle_really_running_def really_running_end_def)
  then show ?thesis by (simp add: processEvent_glite_unfold [OF cl glite_prepare_not_cream [OF assms(4)]])
qed

theorem really_running_null_branch_witness:
  "processEvent_glite (\<lambda>_ _. (0, 0)) False (example_event example_code2 SOURCE_JOB_SUBMISSION (EvReallyRunning None))
     (init_intJobStat\<lparr>state := EDG_WLL_JOB_CLEARED\<rparr>) = Inl Null_deref"
  by (rule really_running_null_branch [OF _ _ _ _ refl, of _ None])
    (simp_all add: from_cream_def fresh_forget too_old_def finished_before_def)

text \<open>
  A Clear event, in order, with a reason the processor does not know is refused as
  suspect, yet the job has already been moved to the cleared state, without any time of the
  change and without the event's code.
\<close>

theorem clear_unknown_reason_clears:
  assumes "ev_body e = EvGlite (EvClear c)" and "\<not> known_clear c" and "\<not> from_cream e"
    and "classify_event junk e (forget_loops e js) = (RET_OK, fine)"
  shows "\<exists>js'. processEvent_glite junk strict e js = Inr (RET_SUSPECT, js') \<and> state js' = EDG_WLL_JOB_CLEARED \<and>
    stateEnterTime js' = stateEnterTime js \<and> lastUpdateTime js' = lastUpdateTime js \<and>
    last_seqcode js' = last_seqcode js"
proof -
  have "clear_reason_text c = None" using assms(2) by (simp add: clear_reason_text_def known_clear_def)
  with assms(1) show ?thesis
    unfolding processEvent_glite_unfold [OF assms(4) glite_prepare_not_cream [OF assms(3)]]
    by (simp add: glite_switch_def handle_clear_def bad_event_def)
qed

theorem clear_unknown_reason_clears_witness:
  "\<exists>js'. processEvent_glite (\<lambda>_ _. (0, 0)) False (example_event example_code1 SOURCE_NETWORK_SERVER (EvClear 0))
      init_intJobStat = Inr (RET_SUSPECT, js') \<and> state js' = EDG_WLL_JOB_CLEARED \<and> last_seqcode js' = None"
proof -
  let ?e = "example_event example_code1 SOURCE_NETWORK_SERVER (EvClear 0)"
  have "classify_event (\<lambda>_ _. (0, 0)) ?e (forget_loops ?e init_intJobStat) = (RET_OK, RET_OK)"
    by (rule fresh_classify) (simp_all add: terminal_def)
  from clear_unknown_reason_clears [OF _ _ _ this, of 0] show ?thesis
    by (auto simp: known_clear_def from_cream_def)
qed

end
