(* ===== verification/LB_Pbs.thy ===== *)
theory LB_Pbs
  imports LB_Step
begin

text \<open>
  Events of PBS jobs (\<^verbatim>\<open>org.glite.lb.state-machine/src/process_event_pbs.c\<close>). An event with
  an older sequence code than the last one is late: its data are recorded, the state stays.
  The processor reports success for every event.
\<close>

definition PBSstate2char :: "string list" where
  "PBSstate2char = [''T'', ''Q'', ''H'', ''W'', ''R'', ''E'', ''C'']"

definition pbs_letter :: "int \<Rightarrow> string res" where
  "pbs_letter newstate =
     (if 0 \<le> newstate \<and> newstate < int (length PBSstate2char) then Inr (PBSstate2char ! nat newstate)
      else Inl Out_of_bounds)"

text \<open>Running, rerun and done events come from the server or one of the two MOMs, or the process stops.\<close>

definition pbs_by_source :: "edg_wll_Source \<Rightarrow> 'a \<Rightarrow> 'a \<Rightarrow> 'a res" where
  "pbs_by_source src server mom =
     (if src = SOURCE_PBS_SERVER then Inr server
      else if src = SOURCE_PBS_SMOM \<or> src = SOURCE_PBS_MOM then Inr mom
      else Inl Assert_fail)"

definition pbs_error_text :: "cstr \<Rightarrow> cstr \<Rightarrow> string" where
  "pbs_error_text old new =
     (case old of None \<Rightarrow> [] | Some s \<Rightarrow> s @ [CHR 0x0A]) @ [CHR 0x09] @ pct_s new"

definition handle_pbs :: "edg_wll_Event \<Rightarrow> ret_code \<Rightarrow> pbs_event \<Rightarrow> intJobStat \<Rightarrow> intJobStat res" where
  "handle_pbs e r ev js =
     (let usable = (r = RET_OK); src = any_source e; inst = any_src_instance e in
      case ev of
        EvPBSInternalStateChange oldstate oldsubstate newstate newsubstate \<Rightarrow>
          if usable then
            rbind (pbs_letter newstate) (\<lambda>c. Inr (js\<lparr>pbs_state := Some c, pbs_substate := newsubstate\<rparr>))
          else Inr js
      | EvPBSTransfer dest dest_instance result rsn dest_jobid \<Rightarrow>
          Inr (if result = EDG_WLL_PBSTRANSFER_OK then
                 (if dest = SOURCE_PBS_SERVER then js\<lparr>location := dest_instance\<rparr>
                  else if dest = SOURCE_PBS_MOM \<or> dest = SOURCE_PBS_SMOM then js\<lparr>ce_node := dest_instance\<rparr>
                  else js)
               else js)
      | EvPBSAccepted from from_instance local_jobid \<Rightarrow>
          Inr (if usable then
                 (if src = SOURCE_PBS_SERVER then js\<lparr>state := EDG_WLL_JOB_SUBMITTED, location := inst\<rparr>
                  else if src = SOURCE_PBS_SMOM \<or> src = SOURCE_PBS_MOM then
                    js\<lparr>state := EDG_WLL_JOB_SCHEDULED, ce_node := inst\<rparr>
                  else js)
               else js)
      | EvPBSRefused _ _ _ \<Rightarrow> Inr js
      | EvPBSQueued queue name ownr \<Rightarrow>
          let js = (if usable then js\<lparr>state := EDG_WLL_JOB_WAITING\<rparr> else js) in
          Inr (if src = SOURCE_PBS_SERVER then
                 js\<lparr>pbs_queue := queue,
                    pbs_owner := (if pbs_owner js = None then rep_cond (pbs_owner js) ownr else pbs_owner js),
                    pbs_name := (if pbs_name js = None then rep_cond (pbs_name js) name else pbs_name js)\<rparr>
               else js)
      | EvPBSDequeued \<Rightarrow> Inr js
      | EvPBSMatch dest_host \<Rightarrow>
          let js = (if usable then js\<lparr>state := EDG_WLL_JOB_READY\<rparr> else js) in
          Inr (js\<lparr>pbs_dest_host := rep_cond (pbs_dest_host js) dest_host\<rparr>)
      | EvPBSPending rsn \<Rightarrow>
          let js = (if usable then js\<lparr>state := EDG_WLL_JOB_WAITING, pbs_reruning := 0\<rparr> else js) in
          Inr (js\<lparr>pbs_reason := rep_cond (pbs_reason js) rsn\<rparr>)
      | EvPBSWaiting \<Rightarrow> Inr js
      | EvPBSRun scheduler dest_host pid \<Rightarrow>
          rbind (if usable then
                   pbs_by_source src (js\<lparr>state := EDG_WLL_JOB_SCHEDULED\<rparr>) (js\<lparr>state := EDG_WLL_JOB_RUNNING\<rparr>)
                 else Inr js) (\<lambda>js.
            Inr (js\<lparr>pbs_scheduler := rep_cond (pbs_scheduler js) scheduler,
                    pbs_dest_host := rep_cond (pbs_dest_host js) dest_host,
                    pbs_pid := pid\<rparr>))
      | EvPBSRerun \<Rightarrow>
          if usable then
            pbs_by_source src (js\<lparr>state := EDG_WLL_JOB_WAITING\<rparr>)
              (js\<lparr>state := EDG_WLL_JOB_WAITING, pbs_reruning := 1\<rparr>)
          else Inr js
      | EvPBSAbort \<Rightarrow> Inr js
      | EvPBSDone exit_status \<Rightarrow>
          rbind (if usable then
                   pbs_by_source src (js\<lparr>state := EDG_WLL_JOB_DONE, done_code := EDG_WLL_STAT_OK\<rparr>) js
                 else Inr js) (\<lambda>js.
            Inr (js\<lparr>pbs_exit_status := exit_status\<rparr>))
      | EvPBSResourceUsage usage resources \<Rightarrow>
          Inr (if usage = EDG_WLL_PBSRESOURCEUSAGE_REQUESTED then js\<lparr>pbs_resource_requested := resources\<rparr>
               else if usage = EDG_WLL_PBSRESOURCEUSAGE_USED then js\<lparr>pbs_resource_usage := resources\<rparr>
               else js)
      | EvPBSError error_desc \<Rightarrow>
          let js = (if usable then
                      js\<lparr>state := EDG_WLL_JOB_DONE, done_code := EDG_WLL_STAT_FAILED, pbs_state := Some ''C''\<rparr>
                    else js) in
          Inr (js\<lparr>pbs_error_desc := Some (pbs_error_text (pbs_error_desc js) error_desc)\<rparr>))"

definition pbs_late :: "junk \<Rightarrow> edg_wll_Event \<Rightarrow> intJobStat \<Rightarrow> bool" where
  "pbs_late junk e js \<longleftrightarrow>
     (case last_seqcode js of
        None \<Rightarrow> False
      | Some lst \<Rightarrow> edg_wll_compare_pbs_seq junk lst (any_seqcode e) > 0)"

text \<open>The \<^verbatim>\<open>switch\<close> over the event types.\<close>

definition pbs_switch :: "junk \<Rightarrow> edg_wll_Event \<Rightarrow> ret_code \<Rightarrow> intJobStat \<Rightarrow> intJobStat res" where
  "pbs_switch junk e r js =
     (case ev_body e of
        EvPbs ev \<Rightarrow> handle_pbs e r ev js
      | EvGlite (EvRegJob _ ns _ _ _ _ _) \<Rightarrow>
          Inr ((if r = RET_OK then js\<lparr>state := EDG_WLL_JOB_SUBMITTED\<rparr> else js)\<lparr>network_server := ns\<rparr>)
      | EvGlite (EvUserTag name val) \<Rightarrow> add_user_tag junk e name val js
      | _ \<Rightarrow> Inr js)"

definition processEvent_PBS :: "junk \<Rightarrow> edg_wll_Event \<Rightarrow> intJobStat \<Rightarrow> (ret_code \<times> intJobStat) res" where
  "processEvent_PBS junk e js =
     (let r = (if pbs_late junk e js then RET_LATE else RET_OK) in
      rbind (pbs_switch junk e r js) (\<lambda>js1.
      rbind (finish_event ''this is PBS'' (state js) r e js1) (\<lambda>js2. Inr (RET_OK, js2))))"

section \<open>Correctness\<close>

text \<open>The events the processor accepts without undefined behaviour or stopping.\<close>

definition pbs_source :: "edg_wll_Source \<Rightarrow> bool" where
  "pbs_source s \<longleftrightarrow> s = SOURCE_PBS_SERVER \<or> s = SOURCE_PBS_SMOM \<or> s = SOURCE_PBS_MOM"

definition pbs_acceptable :: "edg_wll_Event \<Rightarrow> bool" where
  "pbs_acceptable e =
     (case ev_body e of
        EvPbs ev \<Rightarrow>
          (case ev of
             EvPBSInternalStateChange _ _ n _ \<Rightarrow> 0 \<le> n \<and> n < 7
           | EvPBSRun _ _ _ \<Rightarrow> pbs_source (any_source e)
           | EvPBSRerun \<Rightarrow> pbs_source (any_source e)
           | EvPBSDone _ \<Rightarrow> pbs_source (any_source e)
           | _ \<Rightarrow> True)
      | _ \<Rightarrow> True)"

lemma pbs_by_source_cases:
  "pbs_by_source s a b = Inr x \<Longrightarrow> pbs_source s \<and> (x = a \<or> x = b)"
  by (auto simp: pbs_by_source_def pbs_source_def split: if_splits)

lemma pbs_by_source_ok: "pbs_source s \<Longrightarrow> \<exists>x. pbs_by_source s a b = Inr x"
  by (auto simp: pbs_by_source_def pbs_source_def)

lemma handle_pbs_total:
  assumes "pbs_acceptable e" and "ev_body e = EvPbs ev"
  shows "\<exists>js'. handle_pbs e r ev js = Inr js'"
proof (cases ev)
  case (EvPBSInternalStateChange a b n d)
  with assms show ?thesis by (simp add: pbs_acceptable_def handle_pbs_def pbs_letter_def PBSstate2char_def)
next
  case (EvPBSRun a b c)
  with assms pbs_by_source_ok [of "any_source e" "js\<lparr>state := 4\<rparr>" "js\<lparr>state := 5\<rparr>"] show ?thesis
    by (auto simp: pbs_acceptable_def handle_pbs_def Let_def)
next
  case EvPBSRerun
  with assms pbs_by_source_ok [of "any_source e" "js\<lparr>state := 2\<rparr>" "js\<lparr>state := 2, pbs_reruning := 1\<rparr>"]
  show ?thesis by (auto simp: pbs_acceptable_def handle_pbs_def Let_def)
next
  case (EvPBSDone x)
  with assms pbs_by_source_ok [of "any_source e" "js\<lparr>state := 6, done_code := 0\<rparr>" js] show ?thesis
    by (auto simp: pbs_acceptable_def handle_pbs_def Let_def)
qed (simp_all add: handle_pbs_def Let_def)

lemma handle_pbs_core:
  assumes "handle_pbs e r ev js = Inr js'"
  shows "same_core js' js \<and> jobtype js' = jobtype js \<and> (state js' = state js \<or> r = RET_OK \<and> job_state (state js')) \<and>
    last_seqcode js' = last_seqcode js \<and> stateEnterTime js' = stateEnterTime js \<and>
    lastUpdateTime js' = lastUpdateTime js"
  using assms
  by (cases ev) (auto simp: handle_pbs_def Let_def res_simps same_core_def split: if_splits
      dest!: pbs_by_source_cases)

lemma handle_pbs_body:
  assumes "wf_status js" and "handle_pbs e r ev js = Inr js1"
  shows "body_ok r js js1"
  using handle_pbs_core [OF assms(2)] assms(1)
  by (intro body_ok_core) (auto simp: wf_status_def)

lemma pbs_switch_body:
  assumes "wf_status js" and "pbs_acceptable e"
  shows "\<exists>js1. pbs_switch junk e r js = Inr js1 \<and> body_ok r js js1"
proof (cases "ev_body e")
  case (EvPbs ev)
  with handle_pbs_total [OF assms(2) EvPbs] handle_pbs_body [OF assms(1)] show ?thesis
    by (fastforce simp: pbs_switch_def)
next
  case (EvGlite g)
  have "body_ok r js ((if r = RET_OK then js\<lparr>state := 1\<rparr> else js)\<lparr>network_server := ns\<rparr>)" for ns
    using assms(1) by (simp add: body_ok_def wf_defs)
  with EvGlite body_ok_refl [OF assms(1)] add_user_tag_body [OF assms(1)] show ?thesis
    by (cases g) (simp_all add: pbs_switch_def)
qed (simp_all add: pbs_switch_def body_ok_refl assms(1))

lemma processEvent_PBS_step:
  assumes "wf_status js" and "pbs_acceptable e"
  shows "\<exists>r js'. processEvent_PBS junk e js = Inr (r, js') \<and> step_ok e js js'"
  unfolding processEvent_PBS_def Let_def
  by (rule switch_finish_step [OF pbs_switch_body [OF assms]])

interpretation pbs: event_processor "processEvent_PBS junk" wf_status pbs_acceptable
  using processEvent_PBS_step by (rule event_processor_wf)

lemma handle_pbs_late_total: "r \<noteq> RET_OK \<Longrightarrow> \<exists>js'. handle_pbs e r ev js = Inr js'"
  by (cases ev) (simp_all add: handle_pbs_def Let_def)

lemma pbs_switch_late:
  assumes "wf_status js" and "r \<noteq> RET_OK"
  shows "\<exists>js1. pbs_switch junk e r js = Inr js1 \<and> body_ok r js js1 \<and> last_seqcode js1 = last_seqcode js \<and>
    stateEnterTimes js1 = stateEnterTimes js"
proof (cases "ev_body e")
  case (EvPbs ev)
  from handle_pbs_late_total [OF assms(2)] obtain js1 where "handle_pbs e r ev js = Inr js1" by blast
  with EvPbs handle_pbs_body [OF assms(1) this] handle_pbs_core [OF this] show ?thesis
    by (simp add: pbs_switch_def same_core_def)
next
  case (EvGlite g)
  have tt: "last_seqcode js1 = last_seqcode js \<and> stateEnterTimes js1 = stateEnterTimes js"
    if "add_user_tag junk e n v js = Inr js1" for n v js1
    using that by (auto simp: add_user_tag_def add_taglist_def res_simps split: option.splits if_splits)
  have "body_ok r js (js\<lparr>network_server := ns\<rparr>)" for ns
    using assms(1) by (simp add: body_ok_def wf_defs)
  with EvGlite assms(2) body_ok_refl [OF assms(1)] add_user_tag_body [OF assms(1), of junk e _ _ r] tt
  show ?thesis by (cases g) (auto simp: pbs_switch_def, metis)
qed (simp_all add: pbs_switch_def body_ok_refl assms(1))

text \<open>
  An event that is late by its sequence code never moves a PBS job: whatever the
  event, the state, its enter times, the update time and the last sequence code stay, and
  no fault occurs even where the same event in order would stop the process.
\<close>

theorem pbs_late_event_keeps_state:
  assumes "wf_status js" and "pbs_late junk e js"
  shows "\<exists>js'. processEvent_PBS junk e js = Inr (RET_OK, js') \<and> wf_status js' \<and> state js' = state js \<and>
    stateEnterTime js' = stateEnterTime js \<and> stateEnterTimes js' = stateEnterTimes js \<and>
    lastUpdateTime js' = lastUpdateTime js \<and> last_seqcode js' = last_seqcode js"
proof -
  obtain js1 where "pbs_switch junk e RET_LATE js = Inr js1" "body_ok RET_LATE js js1"
    "last_seqcode js1 = last_seqcode js" "stateEnterTimes js1 = stateEnterTimes js"
    using pbs_switch_late [OF assms(1)] by blast
  with assms(2) show ?thesis
    by (simp add: processEvent_PBS_def Let_def finish_event_def body_ok_def)
qed

definition example_pbs_event :: "string \<Rightarrow> edg_wll_Source \<Rightarrow> pbs_event \<Rightarrow> edg_wll_Event" where
  "example_pbs_event code src ev =
     \<lparr>any_timestamp = \<lparr>tv_sec = 1200000000, tv_usec = 5\<rparr>, any_arrived = null_timeval,
      any_host = Some ''skurut1'', any_level = 8, any_priority = 0, any_jobId = None,
      any_seqcode = code, any_user = None, any_source = src, any_src_instance = Some ''mom1'',
      ev_body = EvPbs ev\<rparr>"

abbreviation (input) pbs_code1 :: string where
  "pbs_code1 \<equiv> ''CLIENT=000001:SERVER=0000000002:SCHED=000000:SMOM=000000:MOM=000000''"

abbreviation (input) pbs_code2 :: string where
  "pbs_code2 \<equiv> ''CLIENT=000001:SERVER=0000000003:SCHED=000000:SMOM=000000:MOM=000000''"

lemma pbs_codes_ordered: "edg_wll_compare_pbs_seq junk pbs_code2 pbs_code1 = 1"
  by (simp add: edg_wll_compare_pbs_seq_def pbs_labels_def decimal_eval)

theorem pbs_late_event_keeps_state_witness:
  "\<exists>js'. processEvent_PBS (\<lambda>_ _. (0, 0)) (example_pbs_event pbs_code1 SOURCE_APPLICATION (EvPBSDone 0))
       (init_intJobStat\<lparr>last_seqcode := Some pbs_code2, state := 5\<rparr>) = Inr (RET_OK, js') \<and> state js' = 5"
proof -
  let ?js = "init_intJobStat\<lparr>last_seqcode := Some pbs_code2, state := 5\<rparr>"
  have "wf_status ?js" using wf_init by (simp add: wf_defs)
  moreover have "pbs_late (\<lambda>_ _. (0, 0)) (example_pbs_event pbs_code1 SOURCE_APPLICATION (EvPBSDone 0)) ?js"
    using pbs_codes_ordered by (simp add: pbs_late_def example_pbs_event_def)
  ultimately show ?thesis using pbs_late_event_keeps_state by fastforce
qed

text \<open>
  Exactly which PBS events bring the server down: on a well-formed status the processor
  faults just when the event is in order and is a run, rerun or done event that comes from
  neither the PBS server nor a MOM (the assertion), or a state change to a state number
  outside 0 to 6 (reading past the table of letters).
\<close>

theorem pbs_fault_iff:
  assumes "wf_status js"
  shows "(\<exists>f. processEvent_PBS junk e js = Inl f) = (\<not> pbs_late junk e js \<and> \<not> pbs_acceptable e)"
proof
  assume l: "\<exists>f. processEvent_PBS junk e js = Inl f"
  show "\<not> pbs_late junk e js \<and> \<not> pbs_acceptable e"
  proof
    show "\<not> pbs_late junk e js"
    proof
      assume "pbs_late junk e js"
      then obtain js1 where "pbs_switch junk e RET_LATE js = Inr js1"
        using pbs_switch_late [OF assms] by blast
      with l \<open>pbs_late junk e js\<close> show False by (simp add: processEvent_PBS_def finish_event_def)
    qed
    show "\<not> pbs_acceptable e" using l processEvent_PBS_step [OF assms, of e junk] by auto
  qed
next
  assume a: "\<not> pbs_late junk e js \<and> \<not> pbs_acceptable e"
  then obtain ev where ev: "ev_body e = EvPbs ev"
    by (cases "ev_body e") (auto simp: pbs_acceptable_def)
  then have "\<exists>f. handle_pbs e RET_OK ev js = Inl f"
    using a by (cases ev) (auto simp: pbs_acceptable_def handle_pbs_def Let_def pbs_by_source_def
        pbs_source_def pbs_letter_def PBSstate2char_def)
  with a ev show "\<exists>f. processEvent_PBS junk e js = Inl f"
    by (auto simp: processEvent_PBS_def pbs_switch_def)
qed

theorem pbs_fault_iff_witness:
  "(\<exists>f. processEvent_PBS (\<lambda>_ _. (0, 0)) (example_pbs_event pbs_code1 SOURCE_APPLICATION EvPBSRerun)
      init_intJobStat = Inl f)"
  unfolding pbs_fault_iff [OF wf_init]
  by (simp add: pbs_late_def pbs_acceptable_def example_pbs_event_def pbs_source_def)

text \<open>
  Any sequence of acceptable events, from a fresh status, is processed to the end
  without fault; the result is well-formed and its enter time is that of one of the events
  unless the job is still in its initial state.
\<close>

theorem pbs_run_sound:
  assumes "list_all pbs_acceptable es"
  shows "\<exists>js. run_events (processEvent_PBS junk) es init_intJobStat = Inr js \<and> wf_status js \<and>
    (stateEnterTime js \<in> any_timestamp ` set es \<or> state js = EDG_WLL_JOB_UNDEF)"
  using pbs.run_total [OF wf_init assms] pbs.run_times [OF wf_init assms] by fastforce

theorem pbs_run_sound_witness:
  "\<exists>js. run_events (processEvent_PBS (\<lambda>_ _. (0, 0)))
      [example_pbs_event pbs_code1 SOURCE_PBS_SERVER (EvPBSQueued (Some ''q'') None None),
       example_pbs_event pbs_code2 SOURCE_PBS_MOM (EvPBSRun None (Some ''node1'') 77)] init_intJobStat = Inr js \<and>
    wf_status js"
proof -
  have "list_all pbs_acceptable
      [example_pbs_event pbs_code1 SOURCE_PBS_SERVER (EvPBSQueued (Some ''q'') None None),
       example_pbs_event pbs_code2 SOURCE_PBS_MOM (EvPBSRun None (Some ''node1'') 77)]"
    by (simp add: pbs_acceptable_def example_pbs_event_def pbs_source_def)
  from pbs_run_sound [OF this, of "\<lambda>_ _. (0, 0)"] show ?thesis by blast
qed

text \<open>
  Comparing a PBS code with itself gives the order of two values that were never set:
  the loop runs over six elements of arrays of which five were scanned.
\<close>

theorem pbs_compare_indeterminate:
  assumes "length (sscanf_ints pbs_labels a) = 5"
  shows "edg_wll_compare_pbs_seq junk a a =
    (if fst (junk a a) < snd (junk a a) then - 1 else if snd (junk a a) < fst (junk a a) then 1 else 0)"
proof -
  have "cmp_words (c @ [x]) (c @ [y]) = cmp_words [x] [y]" for c x y by (induction c) auto
  with assms show ?thesis by (simp add: edg_wll_compare_pbs_seq_def)
qed

theorem pbs_compare_indeterminate_witness:
  "edg_wll_compare_pbs_seq (\<lambda>_ _. (1, 0)) pbs_code1 pbs_code1 = 1"
  using pbs_compare_indeterminate [of pbs_code1 "\<lambda>_ _. (1, 0)"]
  by (simp add: pbs_labels_def decimal_eval)

end
