(* ===== verification/LB_Condor.thy ===== *)
theory LB_Condor
  imports LB_Step
begin

text \<open>
  Events of Condor jobs (\<^verbatim>\<open>org.glite.lb.state-machine/src/process_event_condor.c\<close>). The
  daemon an event comes from is read from its sequence code at a fixed position; the
  debugging output is not modelled.
\<close>

text \<open>\<^verbatim>\<open>USABLE(res)\<close>: a state and its Condor name together.\<close>

definition condor_state :: "ret_code \<Rightarrow> int \<Rightarrow> string \<Rightarrow> intJobStat \<Rightarrow> intJobStat" where
  "condor_state r st name js = (if r = RET_OK then js\<lparr>state := st, condor_status := Some name\<rparr> else js)"

definition handle_condor :: "edg_wll_Event \<Rightarrow> ret_code \<Rightarrow> condor_event \<Rightarrow> intJobStat \<Rightarrow> intJobStat res" where
  "handle_condor e r ev js =
     (case ev of
        EvCondorMatch _ dest_host _ \<Rightarrow>
          let js = condor_state r EDG_WLL_JOB_READY ''Idle'' js in
          Inr (js\<lparr>condor_dest_host := rep_cond (condor_dest_host js) dest_host\<rparr>)
      | EvCondorReject _ status_code \<Rightarrow>
          let js = condor_state r EDG_WLL_JOB_ABORTED ''Unexpanded'' js in
          Inr (if status_code = EDG_WLL_CONDORREJECT_NOMATCH
               then js\<lparr>condor_reason := Some ''No match found.''\<rparr> else js)
      | EvCondorShadowStarted _ _ shadow_pid _ \<Rightarrow>
          let js = condor_state r EDG_WLL_JOB_READY ''Idle'' js in
          rbind (get_condor_event_source (any_seqcode e)) (\<lambda>src.
            Inr (if src = CONDOR_EVENT_SOURCE_SCHED then js\<lparr>condor_shadow_pid := shadow_pid\<rparr> else js))
      | EvCondorShadowExited _ shadow_exit_status \<Rightarrow>
          let js = condor_state r EDG_WLL_JOB_DONE ''Completed'' js in
          rbind (get_condor_event_source (any_seqcode e)) (\<lambda>src.
            Inr (if src = CONDOR_EVENT_SOURCE_SHADOW
                 then js\<lparr>condor_shadow_exit_status := shadow_exit_status\<rparr> else js))
      | EvCondorStarterStarted starter_pid universe \<Rightarrow>
          rbind (get_condor_event_source (any_seqcode e)) (\<lambda>src.
            let js = (if src = CONDOR_EVENT_SOURCE_START then condor_state r EDG_WLL_JOB_SCHEDULED ''Idle'' js
                      else if src = CONDOR_EVENT_SOURCE_STARTER then
                        condor_state r EDG_WLL_JOB_RUNNING ''Running'' js
                      else js) in
            Inr (if src = CONDOR_EVENT_SOURCE_STARTER
                 then js\<lparr>condor_universe := universe, condor_starter_pid := starter_pid\<rparr> else js))
      | EvCondorStarterExited starter_pid starter_exit_status job_pid job_exit_status \<Rightarrow>
          let js = condor_state r EDG_WLL_JOB_DONE ''Completed'' js in
          rbind (get_condor_event_source (any_seqcode e)) (\<lambda>src.
            Inr (if src = CONDOR_EVENT_SOURCE_START then
                   js\<lparr>condor_starter_pid := starter_pid, condor_starter_exit_status := starter_exit_status\<rparr>
                 else if src = CONDOR_EVENT_SOURCE_STARTER then
                   js\<lparr>condor_starter_pid := starter_pid, condor_job_pid := job_pid,
                      condor_job_exit_status := job_exit_status\<rparr>
                 else js))
      | EvCondorResourceUsage _ _ _ \<Rightarrow> Inr js
      | EvCondorError _ \<Rightarrow> Inr js)"

definition condor_late :: "edg_wll_Event \<Rightarrow> intJobStat \<Rightarrow> bool" where
  "condor_late e js \<longleftrightarrow>
     (case last_seqcode js of
        None \<Rightarrow> False
      | Some lst \<Rightarrow> edg_wll_compare_condor_seq lst (any_seqcode e) > 0)"

definition condor_switch :: "edg_wll_Event \<Rightarrow> ret_code \<Rightarrow> intJobStat \<Rightarrow> intJobStat res" where
  "condor_switch e r js =
     (case ev_body e of
        EvCondor ev \<Rightarrow> handle_condor e r ev js
      | EvGlite (EvRegJob j _ _ _ _ _ _) \<Rightarrow>
          Inr ((condor_state r EDG_WLL_JOB_SUBMITTED ''Idle'' js)\<lparr>jdl := j\<rparr>)
      | _ \<Rightarrow> Inr js)"

definition processEvent_Condor :: "edg_wll_Event \<Rightarrow> intJobStat \<Rightarrow> (ret_code \<times> intJobStat) res" where
  "processEvent_Condor e js =
     (let r = (if condor_late e js then RET_LATE else RET_OK) in
      rbind (condor_switch e r js) (\<lambda>js1.
      rbind (finish_event ''this is CONDOR'' (state js) r e js1) (\<lambda>js2. Inr (RET_OK, js2))))"

section \<open>Correctness\<close>

text \<open>The events whose handling reads the daemon from the sequence code.\<close>

definition reads_source :: "event_body \<Rightarrow> bool" where
  "reads_source b =
     (case b of
        EvCondor (EvCondorShadowStarted _ _ _ _) \<Rightarrow> True
      | EvCondor (EvCondorShadowExited _ _) \<Rightarrow> True
      | EvCondor (EvCondorStarterStarted _ _) \<Rightarrow> True
      | EvCondor (EvCondorStarterExited _ _ _ _) \<Rightarrow> True
      | _ \<Rightarrow> False)"

definition condor_acceptable :: "edg_wll_Event \<Rightarrow> bool" where
  "condor_acceptable e \<longleftrightarrow> reads_source (ev_body e) \<longrightarrow> EDG_WLL_SEQ_CONDOR_SIZE - 2 \<le> length (any_seqcode e)"

lemma get_condor_event_source_ok:
  "(\<exists>src. get_condor_event_source s = Inr src) = (EDG_WLL_SEQ_CONDOR_SIZE - 2 \<le> length s)"
  by (auto simp: get_condor_event_source_def Let_def)

lemma condor_state_simps [simp]:
  "state (condor_state r st n js) = (if r = RET_OK then st else state js)"
  "stateEnterTime (condor_state r st n js) = stateEnterTime js"
  "lastUpdateTime (condor_state r st n js) = lastUpdateTime js"
  "stateEnterTimes (condor_state r st n js) = stateEnterTimes js"
  "children_hist (condor_state r st n js) = children_hist js"
  "user_tags (condor_state r st n js) = user_tags js"
  "tag_seq_codes (condor_state r st n js) = tag_seq_codes js"
  "last_seqcode (condor_state r st n js) = last_seqcode js"
  by (simp_all add: condor_state_def)

lemma handle_condor_frame: "ok_res (state_frame r js) (handle_condor e r ev js)"
  by (cases ev; simp add: handle_condor_def Let_def frame_defs ok_resI)

lemma handle_condor_total:
  assumes "condor_acceptable e" and "ev_body e = EvCondor ev"
  shows "\<exists>js'. handle_condor e r ev js = Inr js'"
proof (cases "reads_source (EvCondor ev)")
  case True
  with assms obtain src where "get_condor_event_source (any_seqcode e) = Inr src"
    using get_condor_event_source_ok by (auto simp: condor_acceptable_def)
  then show ?thesis by (cases ev) (simp_all add: handle_condor_def Let_def)
next
  case False
  then show ?thesis by (cases ev) (simp_all add: handle_condor_def Let_def reads_source_def)
qed

lemma condor_switch_body:
  assumes "wf_status js" and "condor_acceptable e"
  shows "\<exists>js1. condor_switch e r js = Inr js1 \<and> body_ok r js js1"
proof (cases "ev_body e")
  case (EvCondor ev)
  from handle_condor_total [OF assms(2) EvCondor] obtain js1 where h: "handle_condor e r ev js = Inr js1"
    by blast
  with handle_condor_frame [of r js e ev] assms(1) have "body_ok r js js1"
    by (simp add: state_frame_body)
  with h EvCondor show ?thesis by (simp add: condor_switch_def)
next
  case (EvGlite g)
  have "body_ok r js ((condor_state r 1 ''Idle'' js)\<lparr>jdl := j\<rparr>)" for j
    using assms(1) by (simp add: body_ok_def wf_defs)
  with EvGlite body_ok_refl [OF assms(1)] show ?thesis by (cases g) (simp_all add: condor_switch_def)
qed (simp_all add: condor_switch_def body_ok_refl assms(1))

lemma processEvent_Condor_step:
  assumes "wf_status js" and "condor_acceptable e"
  shows "\<exists>r js'. processEvent_Condor e js = Inr (r, js') \<and> step_ok e js js'"
  unfolding processEvent_Condor_def Let_def
  by (rule switch_finish_step [OF condor_switch_body [OF assms]])

interpretation condor: event_processor processEvent_Condor wf_status condor_acceptable
  using processEvent_Condor_step by (rule event_processor_wf)

text \<open>
  Any sequence of acceptable Condor events is processed from a fresh status without
  fault, into a well-formed status whose enter time is that of one of the events unless the
  job is still in its initial state.
\<close>

theorem condor_run_sound:
  assumes "list_all condor_acceptable es"
  shows "\<exists>js. run_events processEvent_Condor es init_intJobStat = Inr js \<and> wf_status js \<and>
    (stateEnterTime js \<in> any_timestamp ` set es \<or> state js = EDG_WLL_JOB_UNDEF)"
  using condor.run_total [OF wf_init assms] condor.run_times [OF wf_init assms] by fastforce

definition example_condor_event :: "string \<Rightarrow> condor_event \<Rightarrow> edg_wll_Event" where
  "example_condor_event code ev =
     \<lparr>any_timestamp = \<lparr>tv_sec = 1200000000, tv_usec = 5\<rparr>, any_arrived = null_timeval,
      any_host = Some ''skurut1'', any_level = 8, any_priority = 0, any_jobId = None,
      any_seqcode = code, any_user = None, any_source = SOURCE_LRMS, any_src_instance = None,
      ev_body = EvCondor ev\<rparr>"

abbreviation (input) condor_code :: string where
  "condor_code \<equiv> ''TIMESTAMP=20080101120000:POS=0000000012:EV.CODE=017:SRC=s''"

theorem condor_run_sound_witness:
  "\<exists>js. run_events processEvent_Condor
      [example_condor_event condor_code (EvCondorMatch None (Some ''node1'') None)] init_intJobStat = Inr js \<and>
    wf_status js"
proof -
  have "list_all condor_acceptable [example_condor_event condor_code (EvCondorMatch None (Some ''node1'') None)]"
    by (simp add: condor_acceptable_def reads_source_def example_condor_event_def)
  from condor_run_sound [OF this] show ?thesis by blast
qed

text \<open>
  An event of a shadow or starter makes the processor read beyond the end of its
  sequence code whenever the code is shorter than 66 characters: the position of the daemon
  letter is computed from the length of a PBS code, while a well-formed Condor code has 57
  (as in the witness).
\<close>

theorem condor_source_out_of_bounds:
  assumes "reads_source (ev_body e)" and "length (any_seqcode e) < EDG_WLL_SEQ_CONDOR_SIZE - 2"
  shows "processEvent_Condor e js = Inl Out_of_bounds"
proof -
  obtain ev where ev: "ev_body e = EvCondor ev"
    using assms(1) by (cases "ev_body e") (simp_all add: reads_source_def)
  have src: "get_condor_event_source (any_seqcode e) = Inl Out_of_bounds"
    using assms(2) by (simp add: get_condor_event_source_def Let_def)
  have "handle_condor e r ev js = Inl Out_of_bounds" for r
    using assms(1) ev src by (cases ev) (simp_all add: handle_condor_def reads_source_def Let_def)
  then show ?thesis using ev by (simp add: processEvent_Condor_def condor_switch_def Let_def)
qed

theorem condor_source_out_of_bounds_witness:
  "condor_scan condor_code \<noteq> None \<and>
   processEvent_Condor (example_condor_event condor_code (EvCondorStarterStarted 42 None)) init_intJobStat
     = Inl Out_of_bounds"
proof
  show "condor_scan condor_code \<noteq> None" by code_simp
  show "processEvent_Condor (example_condor_event condor_code (EvCondorStarterStarted 42 None)) init_intJobStat
     = Inl Out_of_bounds"
    by (rule condor_source_out_of_bounds)
      (simp_all add: reads_source_def example_condor_event_def EDG_WLL_SEQ_CONDOR_SIZE_def)
qed

end
