(* ===== verification/LB_VirtualMachine.thy ===== *)
theory LB_VirtualMachine
  imports LB_Step
begin

text \<open>
  Events of virtual machines
  (\<^verbatim>\<open>org.glite.lb.state-machine/src/process_event_virtual_machine.c\<close>). The handlers of
  \<^verbatim>\<open>VMImage\<close> and \<^verbatim>\<open>VMShutdown\<close> read the fields of \<^verbatim>\<open>VMCreate\<close> and \<^verbatim>\<open>VMDone\<close> from the event union
  (\<^verbatim>\<open>e->vMCreate.image\<close>, \<^verbatim>\<open>e->vMDone.usage\<close>), which lie behind the fields of their own
  structures; an event structure is zero-filled before it is parsed, so what they read is a
  null pointer and nothing is recorded.
\<close>

definition vm_running :: "edg_wll_Source \<Rightarrow> intJobStat \<Rightarrow> intJobStat" where
  "vm_running src js0 =
     (let js = (if src = SOURCE_CLOUD_MANAGER \<or> src = SOURCE_VM_MANAGER then
                  (if vm_state js0 \<noteq> EDG_WLL_STAT_VM_REALLY_RUNNING
                   then js0\<lparr>vm_state := EDG_WLL_STAT_VM_RUNNING\<rparr> else js0)
                else if src = SOURCE_VM_SYSTEM then js0\<lparr>vm_state := EDG_WLL_STAT_VM_REALLY_RUNNING\<rparr>
                else js0)
      in js\<lparr>state := EDG_WLL_JOB_RUNNING\<rparr>)"

definition vm_shutdown :: "edg_wll_Source \<Rightarrow> intJobStat \<Rightarrow> intJobStat" where
  "vm_shutdown src js =
     (if src = SOURCE_CLOUD_MANAGER then
        js\<lparr>vm_state := EDG_WLL_STAT_VM_SHUTDOWN, state := EDG_WLL_JOB_WAITING\<rparr>
      else if src = SOURCE_VM_MANAGER then js\<lparr>vm_system_halting := 1\<rparr>
      else if src = SOURCE_VM_SYSTEM then
        (if vm_state js = EDG_WLL_STAT_VM_REALLY_RUNNING
         then js\<lparr>vm_system_halting := 1, vm_state := EDG_WLL_STAT_VM_RUNNING\<rparr>
         else js\<lparr>vm_system_halting := 1\<rparr>)
      else js)"

definition vm_done :: "int \<Rightarrow> cstr \<Rightarrow> intJobStat \<Rightarrow> intJobStat" where
  "vm_done status_code usage js0 =
     (let js = (if status_code = EDG_WLL_VMDONE_OK then
                  js0\<lparr>vm_state := EDG_WLL_STAT_VM_DONE, state := EDG_WLL_JOB_DONE, done_code := EDG_WLL_STAT_OK\<rparr>
                else if status_code = EDG_WLL_VMDONE_DELETE then
                  js0\<lparr>vm_state := EDG_WLL_STAT_VM_DONE, state := EDG_WLL_JOB_DONE,
                      done_code := EDG_WLL_STAT_CANCELLED\<rparr>
                else if status_code = EDG_WLL_VMDONE_FAILURE then
                  js0\<lparr>vm_state := EDG_WLL_STAT_VM_FAILURE, state := EDG_WLL_JOB_DONE,
                      done_code := EDG_WLL_STAT_FAILED\<rparr>
                else js0)
      in js\<lparr>vm_usage := rep_cond (vm_usage js) usage\<rparr>)"

definition handle_vm :: "edg_wll_Source \<Rightarrow> vm_event \<Rightarrow> intJobStat \<Rightarrow> intJobStat" where
  "handle_vm src ev js =
     (case ev of
        EvVMCreate require i name ownr hostname manager img \<Rightarrow>
          js\<lparr>vm_require := rep_cond (vm_require js) require,
             vm_image := rep_cond (vm_image js) img,
             vm_id := rep_cond (vm_id js) i,
             vm_name := rep_cond (vm_name js) name,
             owner := rep_cond (owner js) ownr,
             vm_hostname := rep_cond (vm_hostname js) hostname,
             destination := rep_cond (destination js) hostname\<rparr>
      | EvVMHost hostname \<Rightarrow> js\<lparr>vm_phy_hostname := rep_cond (vm_phy_hostname js) hostname\<rparr>
      | EvVMImage img \<Rightarrow> js\<lparr>vm_image := rep_cond (vm_image js) None\<rparr>
      | EvVMRunning \<Rightarrow> vm_running src js
      | EvVMShutdown usage \<Rightarrow>
          let js = vm_shutdown src js in js\<lparr>vm_usage := rep_cond (vm_usage js) None\<rparr>
      | EvVMStop \<Rightarrow> js\<lparr>vm_state := EDG_WLL_STAT_VM_STOPPED, state := EDG_WLL_JOB_WAITING\<rparr>
      | EvVMResume \<Rightarrow>
          js\<lparr>vm_state := EDG_WLL_STAT_VM_PENDING, state := EDG_WLL_JOB_WAITING, vm_system_halting := 0\<rparr>
      | EvVMDone status_code usage \<Rightarrow> vm_done status_code usage js)"

definition vm_switch :: "edg_wll_Event \<Rightarrow> intJobStat \<Rightarrow> intJobStat" where
  "vm_switch e js =
     (case ev_body e of
        EvGlite (EvRegJob _ _ _ _ _ _ _) \<Rightarrow>
          js\<lparr>vm_state := EDG_WLL_STAT_VM_PENDING, state := EDG_WLL_JOB_SUBMITTED\<rparr>
      | EvVm ev \<Rightarrow> handle_vm (any_source e) ev js
      | _ \<Rightarrow> js)"

text \<open>The last sequence code is not recorded for virtual machines.\<close>

definition processEvent_VirtualMachine :: "edg_wll_Event \<Rightarrow> intJobStat \<Rightarrow> (ret_code \<times> intJobStat) res" where
  "processEvent_VirtualMachine e js =
     rbind (enter_state (state js) e (vm_switch e js)) (\<lambda>js1.
     Inr (RET_OK, default_location ''this is VIRTUAL MACHINE'' js1))"

section \<open>Correctness\<close>

lemma handle_vm_frame: "state_frame RET_OK js (handle_vm src ev js)"
  by (cases ev; simp add: handle_vm_def vm_running_def vm_shutdown_def vm_done_def Let_def frame_defs)

lemma vm_switch_frame: "state_frame RET_OK js (vm_switch e js)"
proof -
  have refl: "state_frame RET_OK js js" by (simp add: frame_defs)
  show ?thesis
  proof (cases "ev_body e")
    case (EvGlite g)
    with refl show ?thesis by (cases g; simp add: vm_switch_def; simp add: frame_defs)
  qed (simp_all add: vm_switch_def refl handle_vm_frame)
qed

lemma processEvent_VirtualMachine_step:
  assumes "wf_status js"
  shows "\<exists>r js'. processEvent_VirtualMachine e js = Inr (r, js') \<and> step_ok e js js'"
  using enter_state_step [OF state_frame_body [OF assms vm_switch_frame], of e e]
  by (auto simp: processEvent_VirtualMachine_def)

interpretation vm: event_processor processEvent_VirtualMachine wf_status "\<lambda>e. True"
  using processEvent_VirtualMachine_step by (rule event_processor_wf)

text \<open>
  The life of a machine as its virtual-machine state shows it: an abstract state machine
  over the events of the source that sees them.
\<close>

inductive vm_step :: "int \<Rightarrow> edg_wll_Source \<times> vm_event \<Rightarrow> int \<Rightarrow> bool" where
  vm_system_up: "vm_step v (SOURCE_VM_SYSTEM, EvVMRunning) EDG_WLL_STAT_VM_REALLY_RUNNING"
| vm_manager_up: "src = SOURCE_CLOUD_MANAGER \<or> src = SOURCE_VM_MANAGER \<Longrightarrow> v \<noteq> EDG_WLL_STAT_VM_REALLY_RUNNING \<Longrightarrow>
    vm_step v (src, EvVMRunning) EDG_WLL_STAT_VM_RUNNING"
| vm_system_down: "vm_step EDG_WLL_STAT_VM_REALLY_RUNNING (SOURCE_VM_SYSTEM, EvVMShutdown u) EDG_WLL_STAT_VM_RUNNING"
| vm_cloud_down: "vm_step v (SOURCE_CLOUD_MANAGER, EvVMShutdown u) EDG_WLL_STAT_VM_SHUTDOWN"
| vm_stopped: "vm_step v (src, EvVMStop) EDG_WLL_STAT_VM_STOPPED"
| vm_resumed: "vm_step v (src, EvVMResume) EDG_WLL_STAT_VM_PENDING"
| vm_finished: "c = EDG_WLL_VMDONE_OK \<or> c = EDG_WLL_VMDONE_DELETE \<Longrightarrow>
    vm_step v (src, EvVMDone c u) EDG_WLL_STAT_VM_DONE"
| vm_failed: "vm_step v (src, EvVMDone EDG_WLL_VMDONE_FAILURE u) EDG_WLL_STAT_VM_FAILURE"

inductive_simps vm_step_running: "vm_step v (src, EvVMRunning) w"
inductive_simps vm_step_shutdown: "vm_step v (src, EvVMShutdown u) w"
inductive_simps vm_step_stop: "vm_step v (src, EvVMStop) w"
inductive_simps vm_step_resume: "vm_step v (src, EvVMResume) w"
inductive_simps vm_step_done: "vm_step v (src, EvVMDone c u) w"

lemmas vm_step_simps = vm_step_running vm_step_shutdown vm_step_stop vm_step_resume vm_step_done

lemma handle_vm_refines:
  "vm_state (handle_vm src ev js) = vm_state js \<or>
   vm_step (vm_state js) (src, ev) (vm_state (handle_vm src ev js))"
  by (cases ev; simp add: handle_vm_def vm_running_def vm_shutdown_def vm_done_def Let_def vm_step_simps)

lemma enter_state_vm:
  "enter_state old e js = Inr js' \<Longrightarrow> vm_state js' = vm_state js \<and> vm_system_halting js' = vm_system_halting js"
  by (auto simp: enter_state_def Let_def res_simps split: if_splits)

lemma processEvent_vm_state:
  assumes "wf_status js" and "ev_body e = EvVm ev"
  shows "\<exists>js'. processEvent_VirtualMachine e js = Inr (RET_OK, js') \<and> wf_status js' \<and>
    vm_state js' = vm_state (handle_vm (any_source e) ev js) \<and>
    state js' = state (handle_vm (any_source e) ev js)"
proof -
  have sw: "vm_switch e js = handle_vm (any_source e) ev js" using assms(2) by (simp add: vm_switch_def)
  obtain js1 where js1: "enter_state (state js) e (vm_switch e js) = Inr js1" "step_ok e js js1"
    using enter_state_step [OF state_frame_body [OF assms(1) vm_switch_frame], of e e] by blast
  from enter_state_vm [OF js1(1)] enter_state_keeps [OF js1(1)] js1 sw show ?thesis
    by (simp add: processEvent_VirtualMachine_def step_ok_def)
      (simp add: default_location_def)
qed


definition example_vm_event :: "edg_wll_Source \<Rightarrow> vm_event \<Rightarrow> edg_wll_Event" where
  "example_vm_event src ev =
     \<lparr>any_timestamp = \<lparr>tv_sec = 1400000000, tv_usec = 0\<rparr>, any_arrived = null_timeval,
      any_host = Some ''cloud'', any_level = 8, any_priority = 0, any_jobId = None,
      any_seqcode = [], any_user = None, any_source = src, any_src_instance = None, ev_body = EvVm ev\<rparr>"


text \<open>
  A change of image reported by \<^verbatim>\<open>VMImage\<close> is lost: the published image and the rest of
  the status apart from the update time stay as they were.
\<close>

theorem vm_image_lost:
  assumes "ev_body e = EvVm (EvVMImage (Some new_image))" and "location js \<noteq> None"
  shows "processEvent_VirtualMachine e js = Inr (RET_OK, js\<lparr>lastUpdateTime := any_timestamp e\<rparr>)"
  using assms
  by (auto simp: processEvent_VirtualMachine_def vm_switch_def handle_vm_def enter_state_def Let_def
      default_location_def)

theorem vm_image_lost_witness:
  "processEvent_VirtualMachine (example_vm_event SOURCE_VM_MANAGER (EvVMImage (Some ''sl6'')))
     (init_intJobStat\<lparr>location := Some ''h''\<rparr>) =
   Inr (RET_OK, init_intJobStat\<lparr>location := Some ''h'',
                  lastUpdateTime := \<lparr>tv_sec = 1400000000, tv_usec = 0\<rparr>\<rparr>)"
  using vm_image_lost [of "example_vm_event SOURCE_VM_MANAGER (EvVMImage (Some ''sl6''))" "''sl6''"
      "init_intJobStat\<lparr>location := Some ''h''\<rparr>"]
  by (simp add: example_vm_event_def)

end
