(* ===== verification/LB_Process.thy ===== *)
theory LB_Process
  imports LB_GliteLate LB_Pbs LB_Condor LB_VirtualMachine
begin

text \<open>
  The entry point of the state machine: \<^verbatim>\<open>processEvent\<close> of
  \<^verbatim>\<open>org.glite.lb.state-machine/src/process_event.c\<close>, which fixes the type of a job from its
  registration and hands every event to the processor of that type; and the facts on whole
  sequences of events that hold for jobs of all types.
\<close>

definition reg_jobtype :: "int \<Rightarrow> int option" where
  "reg_jobtype t =
     (if t = EDG_WLL_REGJOB_SIMPLE then Some EDG_WLL_STAT_SIMPLE
      else if t = EDG_WLL_REGJOB_DAG \<or> t = EDG_WLL_REGJOB_PARTITIONABLE \<or> t = EDG_WLL_REGJOB_PARTITIONED
      then Some EDG_WLL_STAT_DAG
      else if t = EDG_WLL_REGJOB_COLLECTION then Some EDG_WLL_STAT_COLLECTION
      else if t = EDG_WLL_REGJOB_PBS then Some EDG_WLL_STAT_PBS
      else if t = EDG_WLL_REGJOB_CONDOR then Some EDG_WLL_STAT_CONDOR
      else if t = EDG_WLL_REGJOB_CREAM then Some EDG_WLL_STAT_CREAM
      else if t = EDG_WLL_REGJOB_FILE_TRANSFER then Some EDG_WLL_STAT_FILE_TRANSFER
      else if t = EDG_WLL_REGJOB_FILE_TRANSFER_COLLECTION then Some EDG_WLL_STAT_FILE_TRANSFER_COLLECTION
      else if t = EDG_WLL_REGJOB_VIRTUAL_MACHINE then Some EDG_WLL_STAT_VIRTUAL_MACHINE
      else None)"

definition registration :: "edg_wll_Event \<Rightarrow> int option" where
  "registration e = (case ev_body e of EvGlite (EvRegJob _ _ _ t _ _ _) \<Rightarrow> Some t | _ \<Rightarrow> None)"

definition dispatch :: "junk \<Rightarrow> bool \<Rightarrow> edg_wll_Event \<Rightarrow> intJobStat \<Rightarrow> (ret_code \<times> intJobStat) res" where
  "dispatch junk strict e js =
     (let t = jobtype js in
      if t = EDG_WLL_STAT_SIMPLE \<or> t = EDG_WLL_STAT_DAG \<or> t = EDG_WLL_STAT_COLLECTION
      then processEvent_glite junk strict e js
      else if t = EDG_WLL_STAT_PBS then processEvent_PBS junk e js
      else if t = EDG_WLL_STAT_CONDOR then processEvent_Condor e js
      else if t = EDG_WLL_STAT_CREAM then processEvent_Cream junk e js
      else if t = EDG_WLL_STAT_FILE_TRANSFER then processEvent_FileTransfer e js
      else if t = EDG_WLL_STAT_FILE_TRANSFER_COLLECTION then processEvent_FileTransferCollection e js
      else if t = EDG_WLL_STAT_VIRTUAL_MACHINE then processEvent_VirtualMachine e js
      else if t = - 1 then Inr (RET_UNREG, js)
      else Inr (RET_FAIL, js))"

definition processEvent :: "junk \<Rightarrow> bool \<Rightarrow> edg_wll_Event \<Rightarrow> intJobStat \<Rightarrow> (ret_code \<times> intJobStat) res" where
  "processEvent junk strict e js =
     (case (jobtype js = - 1, registration e) of
        (True, Some t) \<Rightarrow>
          (case reg_jobtype t of
             None \<Rightarrow> Inr (RET_FAIL, js)
           | Some jt \<Rightarrow> dispatch junk strict e (js\<lparr>jobtype := jt\<rparr>))
      | _ \<Rightarrow> dispatch junk strict e js)"

section \<open>The job type\<close>

definition glite_type :: "int \<Rightarrow> bool" where
  "glite_type t \<longleftrightarrow> t = EDG_WLL_STAT_SIMPLE \<or> t = EDG_WLL_STAT_DAG \<or> t = EDG_WLL_STAT_COLLECTION"

lemma finish_event_type: "ok_res (\<lambda>js'. jobtype js' = jobtype js) (finish_event loc old r e js)"
  using finish_event_keeps by (blast intro: ok_resI)

lemma add_user_tag_type: "ok_res (\<lambda>js'. jobtype js' = jobtype js) (add_user_tag junk e n v js)"
  by (simp add: add_user_tag_def add_taglist_def Let_def deref_def split: option.split)

lemma switch_finish_type:
  assumes "ok_res (\<lambda>js1. jobtype js1 = jobtype js) sw"
    and "rbind sw (\<lambda>js1. rbind (finish_event loc old r e js1) (\<lambda>js2. Inr (rc, js2))) = Inr (r', js')"
  shows "jobtype js' = jobtype js"
proof -
  from assms(2) obtain js1 where js1: "sw = Inr js1" "finish_event loc old r e js1 = Inr js'"
    by (auto simp: res_simps)
  with assms(1) finish_event_keeps [OF js1(2)] show ?thesis by simp
qed

lemma handle_pbs_type: "ok_res (\<lambda>js1. jobtype js1 = jobtype js) (handle_pbs e r ev js)"
  using handle_pbs_core by (blast intro: ok_resI)

lemma pbs_type: "processEvent_PBS junk e js = Inr (r, js') \<Longrightarrow> jobtype js' = jobtype js"
proof -
  assume p: "processEvent_PBS junk e js = Inr (r, js')"
  have "ok_res (\<lambda>js1. jobtype js1 = jobtype js) (pbs_switch junk e r0 js)" for r0
    using add_user_tag_type handle_pbs_type
    by (cases "ev_body e"; simp add: pbs_switch_def split: glite_event.split)
  from switch_finish_type [OF this p [unfolded processEvent_PBS_def Let_def]] show ?thesis .
qed

lemma condor_type: "processEvent_Condor e js = Inr (r, js') \<Longrightarrow> jobtype js' = jobtype js"
proof -
  assume p: "processEvent_Condor e js = Inr (r, js')"
  have "jobtype (condor_state r0 st n js) = jobtype js" for r0 st n by (simp add: condor_state_def)
  then have "ok_res (\<lambda>js1. jobtype js1 = jobtype js) (handle_condor e r0 ev js)" for r0 ev
    by (cases ev; simp add: handle_condor_def Let_def ok_resI)
  then have "ok_res (\<lambda>js1. jobtype js1 = jobtype js) (condor_switch e r0 js)" for r0
    by (cases "ev_body e"; simp add: condor_switch_def condor_state_def split: glite_event.split)
  from switch_finish_type [OF this p [unfolded processEvent_Condor_def Let_def]] show ?thesis .
qed

lemma cream_data_type: "ok_res (\<lambda>js1. jobtype js1 = jobtype js) (processData_Cream junk e js)"
  using add_user_tag_type
  by (cases "ev_body e"; simp add: processData_Cream_def cream_reg_data_def cream_status_data_def Let_def
      split: glite_event.split cream_event.split option.split)

lemma cream_type: "processEvent_Cream junk e js = Inr (r, js') \<Longrightarrow> jobtype js' = jobtype js"
proof -
  assume p: "processEvent_Cream junk e js = Inr (r, js')"
  have "jobtype (handle_cream e ev js) = jobtype js" for ev
    by (cases ev; simp add: handle_cream_def cream_store_def cream_reasons_def cream_reasons_cond_def
        cream_status_state_def Let_def)
  then have sw: "jobtype (cream_switch e js) = jobtype js"
    by (cases "ev_body e"; simp add: cream_switch_def split: glite_event.split)
  from p obtain js1 where js1: "finish_event ''this is CREAM'' (state js) RET_OK e (cream_switch e js) = Inr js1"
    "processData_Cream junk e js1 = Inr js'" by (auto simp: processEvent_Cream_def res_simps)
  with finish_event_keeps [OF js1(1)] cream_data_type [of js1 junk e] sw show ?thesis by simp
qed

lemma ft_type: "processEvent_FileTransfer e js = Inr (r, js') \<Longrightarrow> jobtype js' = jobtype js"
proof -
  assume p: "processEvent_FileTransfer e js = Inr (r, js')"
  have "ok_res (\<lambda>js1. jobtype js1 = jobtype js) (Inr (ft_switch e js))"
    by (cases "ev_body e"; simp add: ft_switch_def ft_transfer_def sandbox_data_def Let_def
        split: glite_event.split transfer_event.split option.split)
  from switch_finish_type [OF this p [unfolded processEvent_FileTransfer_def]] show ?thesis .
qed

lemma ftc_type: "processEvent_FileTransferCollection e js = Inr (r, js') \<Longrightarrow> jobtype js' = jobtype js"
proof -
  assume p: "processEvent_FileTransferCollection e js = Inr (r, js')"
  have "ok_res (\<lambda>js1. jobtype js1 = jobtype js) (ftc_switch e js)"
    by (cases "ev_body e"; simp add: ftc_switch_def collection_state_def register_children_def sandbox_data_def
        Let_def ok_resI split: glite_event.split transfer_event.split option.split)
  from switch_finish_type [OF this p [unfolded processEvent_FileTransferCollection_def]] show ?thesis .
qed

lemma vm_type: "processEvent_VirtualMachine e js = Inr (r, js') \<Longrightarrow> jobtype js' = jobtype js"
proof -
  assume p: "processEvent_VirtualMachine e js = Inr (r, js')"
  have "jobtype (handle_vm src ev js) = jobtype js" for src ev
    by (cases ev; simp add: handle_vm_def vm_running_def vm_shutdown_def vm_done_def Let_def)
  then have sw: "jobtype (vm_switch e js) = jobtype js"
    by (cases "ev_body e"; simp add: vm_switch_def split: glite_event.split)
  from p obtain js1 where js1: "enter_state (state js) e (vm_switch e js) = Inr js1"
    "js' = default_location ''this is VIRTUAL MACHINE'' js1"
    by (auto simp: processEvent_VirtualMachine_def res_simps)
  with enter_state_keeps [OF js1(1)] sw show ?thesis by simp
qed

text \<open>A gLite job may become a DAG or a collection when its registration is processed.\<close>

definition type_kept :: "edg_wll_Event \<Rightarrow> intJobStat \<Rightarrow> intJobStat \<Rightarrow> bool" where
  "type_kept e js js1 \<longleftrightarrow>
     jobtype js1 = jobtype js \<or>
     registration e \<noteq> None \<and>
     (jobtype js1 = EDG_WLL_STAT_DAG \<or> jobtype js1 = EDG_WLL_STAT_COLLECTION \<or>
      jobtype js1 = EDG_WLL_STAT_FILE_TRANSFER_COLLECTION)"

definition out_type :: "edg_wll_Event \<Rightarrow> intJobStat \<Rightarrow> outcome \<Rightarrow> bool" where
  "out_type e js out = (case out of Handled js1 r lm ig \<Rightarrow> type_kept e js js1 | BadEvent js1 \<Rightarrow> type_kept e js js1)"

lemma out_type_simps [simp]:
  "out_type e js (Handled js1 r lm ig) = type_kept e js js1" "out_type e js (BadEvent js1) = type_kept e js js1"
  by (simp_all add: out_type_def)

lemma type_kept_same: "jobtype js1 = jobtype js \<Longrightarrow> type_kept e js js1"
  by (simp add: type_kept_def)

lemma type_really_running: "ok_res (out_type e js) (handle_really_running e r fine wn js)"
proof -
  have fin: "ok_res (out_type e js) (really_running_end r js1)" if "jobtype js1 = jobtype js" for js1
    using that by (simp add: really_running_end_def type_kept_def ok_resI)
  have "jobtype (really_running_lrms e r js) = jobtype js"
    by (simp add: really_running_lrms_def Let_def)
  moreover have "jobtype js1 = jobtype js" if "really_running_lm r wn js = Inl js1 \<or> really_running_lm r wn js = Inr js1" for js1
    using that by (auto simp: really_running_lm_def Let_def split: if_splits)
  ultimately show ?thesis
    using fin by (auto simp: handle_really_running_def type_kept_def split: sum.split)
qed

lemma type_regjob:
  "registration e \<noteq> None \<Longrightarrow> ok_res (out_type e js) (handle_regjob strict r j ns par jt n sd js)"
  by (simp add: handle_regjob_def register_children_def Let_def type_kept_def ok_resI)

lemma type_usertag: "ok_res (out_type e js) (handle_usertag junk strict e r n v js)"
proof -
  have "ok_res (\<lambda>x. type_kept e js x) (add_user_tag junk e n v js)"
    using add_user_tag_type [of js junk e n v] by (rule ok_res_mono) (rule type_kept_same)
  then show ?thesis by (simp add: handle_usertag_def type_kept_same)
qed

lemma type_transfer: "ok_res (out_type e js) (handle_transfer strict e old r d dh di j x rsn js)"
  by (simp add: handle_transfer_def Let_def type_kept_same ok_resI)

lemma type_enqueued: "ok_res (out_type e js) (handle_enqueued strict e old r q j x rsn js)"
  by (simp add: handle_enqueued_def Let_def type_kept_same)

lemma type_accepted: "ok_res (out_type e js) (handle_accepted strict e old r fh lj js)"
  by (simp add: handle_accepted_def Let_def type_kept_same)

lemma type_cream: "ok_res (out_type e js) (handle_glite_cream strict e r ev js)"
  by (cases ev; simp add: handle_glite_cream_def cream_store_def cream_reasons_def cream_reasons_cond_def
      cream_status_state_def Let_def type_kept_same)

lemma glite_switch_type: "ok_res (out_type e js) (glite_switch junk strict e old r fine js)"
proof (cases "ev_body e")
  case (EvGlite g)
  show ?thesis
  proof (cases g)
    case (EvRegJob a b c d n f h)
    then have "registration e \<noteq> None" using EvGlite by (simp add: registration_def)
    with EvGlite EvRegJob show ?thesis by (simp add: glite_switch_def type_regjob)
  qed (use EvGlite in \<open>simp_all add: glite_switch_def type_really_running type_usertag type_transfer
        type_enqueued type_accepted handle_refused_def handle_dequeued_def handle_helper_call_def
        handle_helper_return_def handle_running_def handle_suspend_def handle_resubmission_def reset_branch_def
        handle_done_def done_state_def done_data_def handle_cancel_def handle_abort_def handle_clear_def
        clear_data_def handle_match_def handle_pending_def handle_collection_state_def collection_state_def
        handle_grant_def handle_take_def Let_def type_kept_same split: option.split\<close>)
next
  case (EvFt t)
  then show ?thesis
    by (cases t) (simp_all add: glite_switch_def handle_sandbox_def Let_def type_kept_same split: option.split)
next
  case (EvCream c)
  then show ?thesis by (simp add: glite_switch_def type_cream)
qed (simp_all add: glite_switch_def type_kept_same)

lemma finish_glite_type: "ok_res (\<lambda>js'. jobtype js' = jobtype js) (finish_glite strict e old r fine lm ig js)"
proof -
  have "ok_res (\<lambda>js'. jobtype js' = jobtype js) (enter_state old e js)"
    using enter_state_keeps by (blast intro: ok_resI)
  moreover have "jobtype (finish_usable e old fine lm ig k) = jobtype k"
    "jobtype (fill_network_server strict e r k) = jobtype k" for k
    by (simp_all add: finish_usable_def fill_network_server_def Let_def)
  ultimately show ?thesis by (simp add: finish_glite_def)
qed

lemma glite_type_step:
  assumes "processEvent_glite junk strict e js = Inr (r, js')"
  shows "type_kept e js js'"
proof -
  obtain r0 fine where cl: "classify_event junk e (forget_loops e js) = (r0, fine)"
    by (cases "classify_event junk e (forget_loops e js)")
  from assms cl obtain js1 where pr: "glite_prepare junk e (forget_loops e js) = Inr js1"
    by (auto simp: processEvent_glite_def res_simps)
  then have t1: "jobtype js1 = jobtype js"
    using cream_data_type [of "forget_loops e js" junk e] by (auto simp: glite_prepare_def split: if_splits)
  from assms obtain out where sw: "glite_switch junk strict e (state js) r0 fine js1 = Inr out"
    unfolding processEvent_glite_unfold [OF cl pr] by (auto simp: res_simps)
  then have out: "out_type e js1 out" using glite_switch_type [of e js1 junk strict "state js" r0 fine] by simp
  show ?thesis
  proof (cases out)
    case (BadEvent js2)
    with assms sw out t1 show ?thesis
      unfolding processEvent_glite_unfold [OF cl pr] by (simp add: type_kept_def)
  next
    case (Handled js2 r2 lm ig)
    with assms sw have fin: "finish_glite strict e (state js) r2 fine lm ig js2 = Inr js'"
      unfolding processEvent_glite_unfold [OF cl pr] by (auto simp: res_simps)
    then have "jobtype js' = jobtype js2"
      using finish_glite_type [of js2 strict e "state js" r2 fine lm ig] by simp
    with out Handled t1 show ?thesis by (simp add: type_kept_def)
  qed
qed

lemma dispatch_type:
  assumes "dispatch junk strict e js = Inr (r, js')" and "\<not> glite_type (jobtype js)"
  shows "jobtype js' = jobtype js"
  using assms pbs_type condor_type cream_type ft_type ftc_type vm_type
  by (auto simp: dispatch_def glite_type_def Let_def split: if_splits)

section \<open>The contract for all types\<close>

definition status_inv :: "intJobStat \<Rightarrow> bool" where
  "status_inv js \<longleftrightarrow> wf_status js \<and> (if glite_type (jobtype js) then glite_inv js else jobtype js = - 1 \<longrightarrow> \<not> terminal (state js))"

definition event_acceptable :: "edg_wll_Event \<Rightarrow> bool" where
  "event_acceptable e \<longleftrightarrow> glite_acceptable e \<and> pbs_acceptable e \<and> condor_acceptable e \<and> ftc_acceptable e"

lemma dispatch_step:
  assumes "wf_status js" and "glite_type (jobtype js) \<Longrightarrow> glite_inv js" and "event_acceptable e"
  shows "\<exists>r js'. dispatch junk strict e js = Inr (r, js') \<and> step_ok e js js' \<and>
    (glite_type (jobtype js) \<longrightarrow> glite_inv js')"
proof -
  note acc = assms(3) [unfolded event_acceptable_def]
  have self: "step_ok e js js" using assms(1) by (simp add: step_ok_def)
  consider "glite_type (jobtype js)" | "jobtype js = 5" | "jobtype js = 6" | "jobtype js = 7" | "jobtype js = 9"
    | "jobtype js = 8" | "jobtype js = 10"
    | "\<not> glite_type (jobtype js)" "jobtype js \<notin> {5, 6, 7, 8, 9, 10}" by blast
  then show ?thesis
  proof cases
    case 1
    with processEvent_glite_step [OF assms(2) [OF 1], of e junk strict] acc show ?thesis
      by (auto simp: dispatch_def glite_type_def)
  next
    case 2
    with processEvent_PBS_step [OF assms(1), of e junk] acc show ?thesis by (simp add: dispatch_def glite_type_def)
  next
    case 3
    with processEvent_Condor_step [OF assms(1), of e] acc show ?thesis by (simp add: dispatch_def glite_type_def)
  next
    case 4
    with processEvent_Cream_step [OF assms(1), of junk e] show ?thesis by (simp add: dispatch_def glite_type_def)
  next
    case 5
    with processEvent_FileTransfer_step [OF assms(1), of e] show ?thesis by (simp add: dispatch_def glite_type_def)
  next
    case 6
    with processEvent_FTC_step [OF assms(1), of e] acc show ?thesis by (simp add: dispatch_def glite_type_def)
  next
    case 7
    with processEvent_VirtualMachine_step [OF assms(1), of e] show ?thesis
      by (simp add: dispatch_def glite_type_def)
  next
    case 8
    with self show ?thesis by (auto simp: dispatch_def glite_type_def)
  qed
qed

lemma wf_jobtype [simp]: "wf_status (js\<lparr>jobtype := t\<rparr>) = wf_status js"
  by (simp add: wf_defs)

lemma step_ok_jobtype [simp]: "step_ok e (js\<lparr>jobtype := t\<rparr>) js' = step_ok e js js'"
  by (simp add: step_ok_def)

lemma reg_jobtype_not_unset: "reg_jobtype t = Some jt \<Longrightarrow> jt \<noteq> - 1"
  by (auto simp: reg_jobtype_def split: if_splits)

lemma glite_type_unset [simp]: "\<not> glite_type (- 1)"
  by (simp add: glite_type_def)

lemma dispatch_status_inv:
  assumes "dispatch junk strict e js = Inr (r, js')" and "step_ok e js js'" and "jobtype js \<noteq> - 1"
    and "glite_type (jobtype js) \<longrightarrow> glite_inv js'"
  shows "status_inv js'"
proof (cases "glite_type (jobtype js)")
  case True
  then have "processEvent_glite junk strict e js = Inr (r, js')"
    using assms(1) by (auto simp: dispatch_def glite_type_def)
  from glite_type_step [OF this] assms True show ?thesis by (auto simp: status_inv_def step_ok_def type_kept_def)
next
  case False
  with dispatch_type [OF assms(1) False] assms show ?thesis by (simp add: status_inv_def step_ok_def)
qed

lemma status_inv_glite: "status_inv js \<Longrightarrow> glite_type (jobtype js) \<Longrightarrow> glite_inv js"
  by (simp add: status_inv_def)

lemma processEvent_step:
  assumes "status_inv js" and "event_acceptable e"
  shows "\<exists>r js'. processEvent junk strict e js = Inr (r, js') \<and> step_ok e js js' \<and> status_inv js'"
proof (cases "jobtype js = - 1")
  case unset: True
  have w: "wf_status js" and nt: "\<not> terminal (state js)"
    using assms(1) unset by (simp_all add: status_inv_def)
  have self: "step_ok e js js" using w by (simp add: step_ok_def)
  show ?thesis
  proof (cases "registration e")
    case None
    with unset assms(1) self show ?thesis by (simp add: processEvent_def dispatch_def)
  next
    case (Some t)
    show ?thesis
    proof (cases "reg_jobtype t")
      case None
      with Some unset assms(1) self show ?thesis by (simp add: processEvent_def)
    next
      case (Some jt)
      let ?js = "js\<lparr>jobtype := jt\<rparr>"
      have "wf_status ?js" "glite_type (jobtype ?js) \<Longrightarrow> glite_inv ?js"
        using w nt by (simp_all add: glite_inv_def)
      from dispatch_step [OF this assms(2), of junk strict] obtain r js'
        where d: "dispatch junk strict e ?js = Inr (r, js')" "step_ok e ?js js'"
          "glite_type (jobtype ?js) \<longrightarrow> glite_inv js'" by blast
      then have "status_inv js'"
        using dispatch_status_inv [OF d(1,2)] reg_jobtype_not_unset [OF Some] by simp
      with d Some \<open>registration e = Some t\<close> unset show ?thesis by (simp add: processEvent_def)
    qed
  qed
next
  case False
  have "wf_status js" using assms(1) by (simp add: status_inv_def)
  from dispatch_step [OF this status_inv_glite [OF assms(1)] assms(2), of junk strict] obtain r js'
    where d: "dispatch junk strict e js = Inr (r, js')" "step_ok e js js'"
      "glite_type (jobtype js) \<longrightarrow> glite_inv js'" by blast
  with False dispatch_status_inv [OF d(1,2)] show ?thesis by (simp add: processEvent_def)
qed

interpretation lb: event_processor "processEvent junk strict" status_inv event_acceptable
proof
  fix js e r js'
  show "wf_status js" if "status_inv js" using that by (simp add: status_inv_def)
  assume i: "status_inv js" and a: "event_acceptable e"
  from processEvent_step [OF this, of junk strict]
  show "\<exists>r js'. processEvent junk strict e js = Inr (r, js') \<and> status_inv js'" by blast
  assume "processEvent junk strict e js = Inr (r, js')"
  with processEvent_step [OF i a, of junk strict] have s: "step_ok e js js'" by auto
  show "stamped js' e" if "state js' \<noteq> state js" using s that by (simp add: step_ok_def)
  show "stateEnterTime js' = stateEnterTime js \<and> lastUpdateTime js' \<in> {lastUpdateTime js, any_timestamp e}"
    if "state js' = state js" using s that by (simp add: step_ok_def)
qed

lemma status_inv_init: "status_inv init_intJobStat"
  using wf_init by (simp add: status_inv_def terminal_def)

section \<open>Properties of the state machine\<close>

text \<open>
  C1. The state machine is total on acceptable events: from the initial status, whatever the
  type the job registers with and whatever sequence of acceptable events follows, every
  event is processed without fault and the status stays well-formed (a known state, both
  arrays of 13 elements with their length fields, tags and their codes in step). The enter
  time of the state is the time of one of the events, unless the state is still undefined.
\<close>

theorem state_machine_sound:
  assumes "list_all event_acceptable es"
  shows "\<exists>js. run_events (processEvent junk strict) es init_intJobStat = Inr js \<and> wf_status js \<and>
    (stateEnterTime js \<in> any_timestamp ` set es \<or> state js = EDG_WLL_JOB_UNDEF)"
proof -
  obtain js where js: "run_events (processEvent junk strict) es init_intJobStat = Inr js" "status_inv js"
    using lb.run_total [OF status_inv_init assms] by blast
  with lb.run_times [OF status_inv_init assms js(1)] show ?thesis by (auto simp: status_inv_def)
qed

definition example_regjob :: "int \<Rightarrow> edg_wll_Event" where
  "example_regjob t =
     example_event example_code1 SOURCE_USER_INTERFACE (EvRegJob (Some ''[ executable ]'') None None t 0 None None)"

theorem state_machine_sound_witness:
  "\<exists>js. run_events (processEvent (\<lambda>_ _. (0, 0)) False)
      [example_regjob EDG_WLL_REGJOB_SIMPLE,
       example_event example_code2 SOURCE_LRMS (EvReallyRunning None),
       example_event example_code2 SOURCE_LOG_MONITOR (EvDone EDG_WLL_DONE_OK None 0)] init_intJobStat = Inr js \<and>
    wf_status js"
proof -
  have "list_all event_acceptable
      [example_regjob EDG_WLL_REGJOB_SIMPLE,
       example_event example_code2 SOURCE_LRMS (EvReallyRunning None),
       example_event example_code2 SOURCE_LOG_MONITOR (EvDone EDG_WLL_DONE_OK None 0)]"
    by (simp add: event_acceptable_def glite_acceptable_def pbs_acceptable_def condor_acceptable_def
        ftc_acceptable_def reads_source_def example_regjob_def known_done_def)
  from state_machine_sound [OF this, of "\<lambda>_ _. (0, 0)" False] show ?thesis by blast
qed

text \<open>
  C12. Whenever an acceptable event changes the state of a job of any type, the status records
  the event's time as the time of entering the state, as the time of the last update, and
  (in seconds, as a 32-bit integer) in the array of enter times at the new state's place;
  an event that does not change the state leaves the enter time alone.
\<close>

theorem state_change_is_stamped:
  assumes "status_inv js" and "event_acceptable e" and "processEvent junk strict e js = Inr (r, js')"
  shows "if state js' \<noteq> state js then
           stateEnterTime js' = any_timestamp e \<and> lastUpdateTime js' = any_timestamp e \<and>
           (\<exists>xs. stateEnterTimes js' = Some xs \<and> length xs = 13 \<and>
                 xs ! nat (1 + state js') = c_int (tv_sec (any_timestamp e)))
         else stateEnterTime js' = stateEnterTime js"
proof (cases "state js' = state js")
  case True
  then show ?thesis using lb.proc_update [OF assms] by simp
next
  case False
  have "wf_status js'" using processEvent_step [OF assms(1,2), of junk strict] assms(3) by (auto simp: status_inv_def)
  then obtain xs where "stateEnterTimes js' = Some xs" "length xs = 13"
    by (auto simp: wf_status_def stat_array_def split: option.splits)
  with False lb.proc_stamp [OF assms False] show ?thesis by (auto simp: stamped_def)
qed

lemma example_regjob_acceptable: "event_acceptable (example_regjob t)"
  by (simp add: event_acceptable_def glite_acceptable_def pbs_acceptable_def condor_acceptable_def
      ftc_acceptable_def reads_source_def example_regjob_def)

lemma example_registration: "registration (example_regjob t) = Some t"
  by (simp add: registration_def example_regjob_def)

lemma vm_registration:
  "\<exists>js'. processEvent junk strict (example_regjob EDG_WLL_REGJOB_VIRTUAL_MACHINE) init_intJobStat = Inr (RET_OK, js') \<and>
     state js' = 1"
  by (simp add: processEvent_def registration_def reg_jobtype_def dispatch_def Let_def
      processEvent_VirtualMachine_def vm_switch_def example_regjob_def enter_state_def arr_store_def)

theorem state_change_is_stamped_witness:
  "\<exists>js'. processEvent (\<lambda>_ _. (0, 0)) False (example_regjob EDG_WLL_REGJOB_VIRTUAL_MACHINE) init_intJobStat =
      Inr (RET_OK, js') \<and>
    stateEnterTime js' = \<lparr>tv_sec = 1300000000, tv_usec = 7\<rparr>"
proof -
  obtain js' where p: "processEvent (\<lambda>_ _. (0, 0)) False (example_regjob 11) init_intJobStat = Inr (RET_OK, js')"
    "state js' = 1" using vm_registration by blast
  with state_change_is_stamped [OF status_inv_init example_regjob_acceptable p(1)] show ?thesis
    by (simp add: example_regjob_def)
qed

text \<open>
  An event of a job that has not registered, and a registration with an unknown type,
  are refused (\<^verbatim>\<open>RET_UNREG\<close> and \<^verbatim>\<open>RET_FAIL\<close>) with the status untouched; so is every event of a job
  whose type is none of the known ones.
\<close>

theorem unregistered_refused:
  "(jobtype js = - 1 \<longrightarrow> registration e = None \<longrightarrow> processEvent junk strict e js = Inr (RET_UNREG, js)) \<and>
   (jobtype js = - 1 \<longrightarrow> (\<forall>t. registration e = Some t \<longrightarrow> reg_jobtype t = None \<longrightarrow>
      processEvent junk strict e js = Inr (RET_FAIL, js))) \<and>
   (jobtype js \<notin> {- 1, 0, 1, 4, 5, 6, 7, 8, 9, 10} \<longrightarrow> processEvent junk strict e js = Inr (RET_FAIL, js))"
  by (auto simp: processEvent_def dispatch_def Let_def)

theorem unregistered_refused_witness:
  "processEvent (\<lambda>_ _. (0, 0)) False (example_regjob 99) init_intJobStat = Inr (RET_FAIL, init_intJobStat)"
proof -
  have "reg_jobtype 99 = None" by (simp add: reg_jobtype_def)
  then show ?thesis
    using unregistered_refused [of init_intJobStat "example_regjob 99" "\<lambda>_ _. (0, 0)" False] example_registration
    by simp
qed

text \<open>
  A registered job keeps its type: no event changes it, except that the registration of
  a gLite job can turn it into a DAG, a collection or a collection of file transfers.
\<close>

theorem jobtype_is_kept:
  assumes "processEvent junk strict e js = Inr (r, js')" and "jobtype js \<noteq> - 1"
  shows "jobtype js' = jobtype js \<or>
    glite_type (jobtype js) \<and> registration e \<noteq> None \<and>
    jobtype js' \<in> {EDG_WLL_STAT_DAG, EDG_WLL_STAT_COLLECTION, EDG_WLL_STAT_FILE_TRANSFER_COLLECTION}"
proof -
  have d: "dispatch junk strict e js = Inr (r, js')"
    using assms by (simp add: processEvent_def split: option.splits)
  show ?thesis
  proof (cases "glite_type (jobtype js)")
    case True
    then have "processEvent_glite junk strict e js = Inr (r, js')"
      using d by (auto simp: dispatch_def glite_type_def)
    from glite_type_step [OF this] True show ?thesis by (auto simp: type_kept_def)
  next
    case False
    with dispatch_type [OF d] show ?thesis by simp
  qed
qed

theorem jobtype_is_kept_witness:
  "\<exists>r js'. processEvent (\<lambda>_ _. (0, 0)) False (example_regjob EDG_WLL_REGJOB_DAG)
      (init_intJobStat\<lparr>jobtype := EDG_WLL_STAT_VIRTUAL_MACHINE\<rparr>) = Inr (r, js') \<and>
    jobtype js' = EDG_WLL_STAT_VIRTUAL_MACHINE"
proof -
  let ?js = "init_intJobStat\<lparr>jobtype := EDG_WLL_STAT_VIRTUAL_MACHINE\<rparr>"
  have "status_inv ?js" using wf_init by (simp add: status_inv_def glite_type_def)
  from lb.proc_inv [OF this example_regjob_acceptable] obtain r js'
    where p: "processEvent (\<lambda>_ _. (0, 0)) False (example_regjob EDG_WLL_REGJOB_DAG) ?js = Inr (r, js')" by blast
  with jobtype_is_kept [OF p] show ?thesis by (simp add: glite_type_def)
qed

end
