(* ===== verification/LB_Base64.thy ===== *)
theory LB_Base64
  imports LB_Prelude
begin

unbundle bit_operations_syntax

text \<open>
  The textual digests of \<^verbatim>\<open>org.glite.jobid.api-c/src/strmd5.c\<close>: base64 with the URL alphabet,
  the decoding table that \<^verbatim>\<open>gen-b64r.pl\<close> generates, and the digests built on them. The MD5
  function itself belongs to OpenSSL and is the argument \<open>md5\<close>, a function from strings to
  digests; it yields 16 bytes.
\<close>

section \<open>Encoding\<close>

definition b64 :: string where
  "b64 = ''ABCDEFGHIJKLMNOPQRSTUVWXYZabcdefghijklmnopqrstuvwxyz0123456789-_''"

text \<open>The inner loop: the upper six bits of the \<open>shift\<close> pending ones, as long as there are six.\<close>

fun emit6 :: "32 word \<Rightarrow> nat \<Rightarrow> string" where
  "emit6 bits shift =
     (if shift < 6 then []
      else b64 ! unat (drop_bit (shift - 6) bits AND 0x3F) # emit6 bits (shift - 6))"

declare emit6.simps [simp del]

text \<open>
  The outer loop. It ends with the text and its terminator, or with \<open>None\<close> where the code
  returns \<^verbatim>\<open>-1\<close> because the output has reached its limit.
\<close>

function base64_loop :: "8 word list \<Rightarrow> 32 word \<Rightarrow> nat \<Rightarrow> int \<Rightarrow> string \<Rightarrow> string option" where
  "base64_loop enc bits shift out_max_size out =
     (if int (length out) \<ge> out_max_size then None
      else
        (case enc of
           b # enc' \<Rightarrow>
             let bits' = push_bit 8 bits OR ucast b in
             base64_loop enc' bits' ((shift + 8) mod 6) out_max_size (out @ emit6 bits' (shift + 8))
         | [] \<Rightarrow>
             if shift > 0 then
               let bits' = push_bit (6 - shift) bits in
               base64_loop [] bits' 0 out_max_size (out @ emit6 bits' 6)
             else Some (out @ ''='')))"
  by pat_completeness auto

termination
  by (relation "measures [\<lambda>(enc, _). length enc, \<lambda>(_, _, shift, _). shift]") auto

declare base64_loop.simps [simp del]

definition base64_encode :: "8 word list \<Rightarrow> int \<Rightarrow> string option" where
  "base64_encode enc out_max_size = base64_loop enc 0 0 out_max_size []"

section \<open>Decoding\<close>

text \<open>The generated table ends with the code of the letter z.\<close>

definition b64r_table :: "nat list" where
  "b64r_table =
     map (\<lambda>k. case find (\<lambda>i. of_char (b64 ! i) = k) [0..<64] of None \<Rightarrow> 0 | Some i \<Rightarrow> i) [0..<123]"

text \<open>Other characters, which are negative or too large as an index, lie outside of the table.\<close>

definition b64r :: "char \<Rightarrow> 32 word res" where
  "b64r c =
     (let k = of_char c in
      if k < length b64r_table then Inr (of_nat (b64r_table ! k)) else Inl Out_of_bounds)"

fun emit8 :: "32 word \<Rightarrow> nat \<Rightarrow> int \<Rightarrow> 8 word list \<Rightarrow> (8 word list \<times> nat) option" where
  "emit8 bits shift max_out_size out =
     (if shift < 8 then Some (out, shift)
      else if int (length out) \<ge> max_out_size then None
      else emit8 bits (shift - 8) max_out_size (out @ [ucast (drop_bit (shift - 8) bits AND 0xFF)]))"

declare emit8.simps [simp del]

fun decode_loop :: "string \<Rightarrow> 32 word \<Rightarrow> nat \<Rightarrow> int \<Rightarrow> 8 word list \<Rightarrow> 8 word list option res" where
  "decode_loop [] bits shift max_out_size out = Inr (Some out)"
| "decode_loop (c # enc) bits shift max_out_size out =
     (if c = CHR ''='' then Inr (Some out)
      else rbind (b64r c) (\<lambda>v.
        let bits' = push_bit 6 bits OR v in
        case emit8 bits' (shift + 6) max_out_size out of
          None \<Rightarrow> Inr None
        | Some (out', shift') \<Rightarrow> decode_loop enc bits' shift' max_out_size out'))"

definition base64_decode :: "string \<Rightarrow> int \<Rightarrow> 8 word list option res" where
  "base64_decode enc max_out_size = decode_loop enc 0 0 max_out_size []"

section \<open>Digests\<close>

definition hex_digit :: "nat \<Rightarrow> char" where
  "hex_digit dd = (if dd < 10 then char_of (dd + 48) else char_of (dd - 10 + 97))"

definition str2md5 :: "(string \<Rightarrow> 8 word list) \<Rightarrow> string \<Rightarrow> string" where
  "str2md5 md5 s =
     concat (map (\<lambda>b. [hex_digit (unat (drop_bit 4 b)), hex_digit (unat (b AND 0x0F))]) (md5 s))"

text \<open>The terminator is cut off.\<close>

definition str2md5base64 :: "(string \<Rightarrow> 8 word list) \<Rightarrow> string \<Rightarrow> cstr" where
  "str2md5base64 md5 s = map_option butlast (base64_encode (md5 s) 49)"

section \<open>Streams of bits\<close>

text \<open>The \<open>n\<close> lowest bits of a word, the most significant one first.\<close>

definition low :: "nat \<Rightarrow> 'a::len word \<Rightarrow> bool list" where
  "low n w = map (bit w) (rev [0..<n])"

lemma length_low [simp]: "length (low n w) = n"
  by (simp add: low_def)

lemma low_0 [simp]: "low 0 w = []"
  by (simp add: low_def)

lemma nth_low: "i < n \<Longrightarrow> low n w ! i = bit w (n - 1 - i)"
  by (simp add: low_def rev_nth)

lemma low_split: "k \<le> n \<Longrightarrow> low n w = low (n - k) (drop_bit k w) @ low k w"
  by (rule nth_equalityI) (auto simp: nth_low nth_append bit_drop_bit_eq ac_simps)

lemma low_eqI: "(\<And>i. i < n \<Longrightarrow> bit v i = bit w i) \<Longrightarrow> low n v = low n w"
  by (simp add: low_def)

lemma low_mask: "low 6 (w AND 0x3F :: 32 word) = low 6 w"
proof -
  have m: "(0x3F :: 32 word) = mask 6" by (simp add: mask_eq_exp_minus_1)
  show ?thesis unfolding m by (rule low_eqI) (simp add: bit_and_iff bit_mask_iff)
qed

lemma low_shift_in:
  fixes w :: "32 word" and v :: "'b::len word"
  assumes "s + k \<le> 32" and v: "\<And>i. bit v i \<Longrightarrow> i < k"
  shows "low (s + k) (push_bit k w OR ucast v) = low s w @ low k v"
proof -
  let ?x = "push_bit k w OR ucast v"
  have "low s (drop_bit k ?x) = low s w"
    using assms(1) v by (intro low_eqI) (auto simp: bit_drop_bit_eq bit_or_iff bit_push_bit_iff bit_ucast_iff)
  moreover have "low k ?x = low k v"
    using assms(1) by (simp add: low_def bit_or_iff bit_push_bit_iff bit_ucast_iff)
  ultimately show ?thesis using low_split [of k "s + k" ?x] by simp
qed

lemma low_push_zeros:
  fixes w :: "32 word"
  assumes "s + k \<le> 32"
  shows "low (s + k) (push_bit k w) = low s w @ replicate k False"
proof -
  have "low k (0 :: 8 word) = replicate k False" by (rule nth_equalityI) (simp_all add: nth_low)
  with low_shift_in [of s k "0 :: 8 word" w] assms show ?thesis by simp
qed

lemma low8_inj: "low 8 v = low 8 w \<Longrightarrow> v = (w :: 8 word)"
  by (rule bit_word_eqI) (auto simp: low_def)

lemma bytes_inj:
  fixes xs ys :: "8 word list"
  shows "length xs = length ys \<Longrightarrow> concat (map (low 8) xs) = concat (map (low 8) ys) \<Longrightarrow> xs = ys"
  by (induction xs ys rule: list_induct2) (auto dest: low8_inj)

section \<open>Round trip\<close>

lemma div_carry: "0 < k \<Longrightarrow> a div k + (a mod k + c) div k = (a + c) div (k :: nat)"
proof -
  assume k: "0 < k"
  have "(a + c) div k = (a div k * k + (a mod k + c)) div k"
    by (simp only: add.assoc [symmetric] div_mult_mod_eq)
  also have "\<dots> = a div k + (a mod k + c) div k" using k by (intro div_mult_self3) simp
  finally show ?thesis by simp
qed

lemma b64_no_terminator: "CHR ''='' \<notin> set b64"
  and length_b64: "length b64 = 64" and distinct_b64: "distinct b64"
  and b64_codes: "list_all (\<lambda>c. (of_char c :: nat) < 123) b64"
  by (simp_all add: b64_def)

lemma b64r_b64:
  assumes i: "i < 64"
  shows "b64r (b64 ! i) = Inr (of_nat i)"
proof -
  let ?k = "of_char (b64 ! i) :: nat"
  have k: "?k < 123" using b64_codes i by (simp add: list_all_length length_b64)
  have same: "(of_char (b64 ! j) = ?k) = (j = i)" if "j < 64" for j
    using that i distinct_b64 by (metis char_of_char length_b64 nth_eq_iff_index_eq)
  have "find (\<lambda>j. of_char (b64 ! j) = ?k) [0..<64] = Some i"
    unfolding find_Some_iff using i same by (intro exI [of _ i]) simp
  then have "b64r_table ! ?k = i" using k by (simp add: b64r_table_def)
  then show ?thesis using k by (simp add: b64r_def b64r_table_def)
qed

text \<open>The six bits that a character of the alphabet stands for.\<close>

definition char_bits :: "char \<Rightarrow> bool list" where
  "char_bits c = (case b64r c of Inl _ \<Rightarrow> [] | Inr v \<Rightarrow> low 6 v)"

abbreviation text_bits :: "string \<Rightarrow> bool list" where
  "text_bits s \<equiv> concat (map char_bits s)"

lemma sextet:
  fixes w :: "32 word"
  shows "b64 ! unat (w AND 0x3F) \<in> set b64" and "char_bits (b64 ! unat (w AND 0x3F)) = low 6 w"
proof -
  have "w AND 0x3F \<le> 0x3F" by (rule word_and_le1)
  then have u: "unat (w AND 0x3F) < 64" by (simp add: word_le_nat_alt)
  then show "b64 ! unat (w AND 0x3F) \<in> set b64" by (simp add: length_b64)
  show "char_bits (b64 ! unat (w AND 0x3F)) = low 6 w"
    using b64r_b64 [OF u] by (simp add: char_bits_def low_mask)
qed

lemma emit6_bits:
  "set (emit6 bits shift) \<subseteq> set b64 \<and> text_bits (emit6 bits shift) @ low (shift mod 6) bits = low shift bits"
proof (induction bits shift rule: emit6.induct)
  case (1 bits shift)
  show ?case
  proof (cases "shift < 6")
    case False
    then have "low shift bits = low 6 (drop_bit (shift - 6) bits) @ low (shift - 6) bits"
      using low_split [of "shift - 6" shift bits] by simp
    moreover have "shift mod 6 = (shift - 6) mod 6" using False by (simp add: le_mod_geq)
    ultimately show ?thesis
      using 1 False by (simp add: emit6.simps [of bits shift] sextet)
  qed (simp add: emit6.simps [of bits shift])
qed

lemma base64_loop_steps:
  assumes "int (length out) < m"
  shows "base64_loop (b # enc) bits shift m out =
      base64_loop enc (push_bit 8 bits OR ucast b) ((shift + 8) mod 6) m
        (out @ emit6 (push_bit 8 bits OR ucast b) (shift + 8))"
    and "base64_loop [] bits 0 m out = Some (out @ ''='')"
    and "0 < shift \<Longrightarrow> base64_loop [] bits shift m out =
      base64_loop [] (push_bit (6 - shift) bits) 0 m (out @ emit6 (push_bit (6 - shift) bits) 6)"
  using assms by (simp_all add: base64_loop.simps [of "b # enc"] base64_loop.simps [of "[]" bits] Let_def)

lemma base64_loop_bits:
  assumes "base64_loop enc bits shift m out = Some r" and "shift < 6"
  shows "\<exists>s p. r = out @ s @ ''='' \<and> set s \<subseteq> set b64 \<and> p < 6 \<and>
    text_bits s = low shift bits @ concat (map (low 8) enc) @ replicate p False"
  using assms
proof (induction enc bits shift m out rule: base64_loop.induct)
  case (1 enc bits shift m out)
  have room: "\<not> int (length out) \<ge> m"
    using "1.prems"(1) by (auto simp: base64_loop.simps [of enc bits shift m out])
  show ?case
  proof (cases enc)
    case (Cons b enc')
    let ?bits = "push_bit 8 bits OR ucast b" and ?sh = "(shift + 8) mod 6"
    let ?e = "emit6 ?bits (shift + 8)"
    have "base64_loop enc' ?bits ?sh m (out @ ?e) = Some r"
      using "1.prems"(1) room Cons by (simp add: base64_loop_steps)
    from "1.IH"(2) [OF room Cons refl this] obtain s p where
      s: "r = (out @ ?e) @ s @ ''=''" "set s \<subseteq> set b64" "p < 6"
        "text_bits s = low ?sh ?bits @ concat (map (low 8) enc') @ replicate p False"
      by auto
    have "low (shift + 8) ?bits = low shift bits @ low 8 b"
      using "1.prems"(2) by (intro low_shift_in) (auto dest: bit_imp_le_length)
    then have "text_bits (?e @ s) = low shift bits @ concat (map (low 8) enc) @ replicate p False"
      using s(4) emit6_bits [of ?bits "shift + 8"] Cons by (simp flip: append_assoc) 
    moreover have "set (?e @ s) \<subseteq> set b64" using s(2) emit6_bits [of ?bits "shift + 8"] by simp
    ultimately show ?thesis using s(1,3) by (intro exI [of _ "?e @ s"] exI [of _ p]) simp
  next
    case Nil
    show ?thesis
    proof (cases "shift > 0")
      case True
      let ?bits = "push_bit (6 - shift) bits"
      have "base64_loop [] ?bits 0 m (out @ emit6 ?bits 6) = Some r"
        using "1.prems"(1) room Nil True by (simp add: base64_loop_steps)
      then have r: "r = out @ emit6 ?bits 6 @ ''=''"
        by (simp add: base64_loop.simps [of "[]" ?bits 0] split: if_splits)
      have "low 6 ?bits = low shift bits @ replicate (6 - shift) False"
        using low_push_zeros [of shift "6 - shift" bits] "1.prems"(2) by simp
      then have "text_bits (emit6 ?bits 6) = low shift bits @ replicate (6 - shift) False"
        using emit6_bits [of ?bits 6] by simp
      then show ?thesis
        using r True Nil emit6_bits [of ?bits 6] by (intro exI [of _ "emit6 ?bits 6"] exI [of _ "6 - shift"]) simp
    next
      case False
      with "1.prems"(1) room Nil have "r = out @ ''=''"
        by (simp add: base64_loop_steps)
      with False Nil show ?thesis by (intro exI [of _ "[]"] exI [of _ 0]) simp
    qed
  qed
qed

lemma length_emit6: "length (emit6 bits shift) = shift div 6"
proof (induction bits shift rule: emit6.induct)
  case (1 bits shift)
  then show ?case
    by (cases "shift < 6") (simp_all add: emit6.simps [of bits shift] le_div_geq)
qed

lemma base64_loop_room:
  assumes "int (length out) + int ((shift + 8 * length enc + 5) div 6) < m" and "shift < 6"
  shows "\<exists>r. base64_loop enc bits shift m out = Some r"
  using assms
proof (induction enc bits shift m out rule: base64_loop.induct)
  case (1 enc bits shift m out)
  then have room: "\<not> int (length out) \<ge> m" by linarith
  show ?case
  proof (cases enc)
    case (Cons b enc')
    let ?bits = "push_bit 8 bits OR ucast b" and ?sh = "(shift + 8) mod 6"
    have "(shift + 8) div 6 + (?sh + 8 * length enc' + 5) div 6 = (shift + 8 * length enc + 5) div 6"
      using div_carry [of 6 "shift + 8" "8 * length enc' + 5"] Cons by (simp add: ac_simps)
    then have "int (length (out @ emit6 ?bits (shift + 8))) + int ((?sh + 8 * length enc' + 5) div 6) < m"
      using "1.prems"(1) by (simp add: length_emit6)
    from "1.IH"(2) [OF room Cons refl this] show ?thesis
      using room Cons by (simp add: base64_loop_steps)
  next
    case Nil
    with "1.prems" room show ?thesis
      by (cases "shift = 0") (simp_all add: base64_loop_steps length_emit6)
  qed
qed

lemma text_bits_length: "set s \<subseteq> set b64 \<Longrightarrow> length (text_bits s) = 6 * length s"
proof (induction s)
  case (Cons c s)
  then obtain i where "c = b64 ! i" "i < 64" by (auto simp: in_set_conv_nth length_b64)
  with Cons show ?case by (simp add: char_bits_def b64r_b64)
qed simp

lemma low8_byte: "low 8 (ucast (w AND 0xFF :: 32 word) :: 8 word) = low 8 w"
proof -
  have m: "(0xFF :: 32 word) = mask 8" by (simp add: mask_eq_exp_minus_1)
  show ?thesis unfolding m by (simp add: low_def bit_and_iff bit_mask_iff bit_ucast_iff)
qed

lemma emit8_step:
  assumes "shift < 8" and "int (length out) + int ((shift + 6) div 8) \<le> m"
  shows "\<exists>r sh. emit8 bits (shift + 6) m out = Some (out @ r, sh) \<and> sh < 8 \<and>
    length r = (shift + 6) div 8 \<and> sh = (shift + 6) mod 8 \<and>
    concat (map (low 8) r) @ low sh bits = low (shift + 6) bits"
proof (cases "shift < 2")
  case True
  then show ?thesis by (simp add: emit8.simps [of bits "shift + 6"])
next
  case False
  then obtain k where k: "shift = k + 2" by (metis add.commute le_Suc_ex not_less)
  with assms have room: "\<not> int (length out) \<ge> m" and "k < 6" by auto
  let ?b = "ucast (drop_bit k bits AND 0xFF) :: 8 word"
  have "low (8 + k) bits = low 8 (drop_bit k bits) @ low k bits"
    using low_split [of k "8 + k" bits] by simp
  moreover have "emit8 bits (8 + k) m out = Some (out @ [?b], k)"
    using room \<open>k < 6\<close> by (simp add: emit8.simps [of bits "8 + k"] emit8.simps [of bits k])
  ultimately show ?thesis
    using k \<open>k < 6\<close> by (intro exI [of _ "[?b]"] exI [of _ k]) (simp add: low8_byte)
qed

lemma of_nat_bit_bound:
  assumes "i < 64" and "bit (of_nat i :: 32 word) j"
  shows "j < 6"
proof -
  have "take_bit 6 (of_nat i :: 32 word) = of_nat i"
    using assms(1) by (simp add: take_bit_of_nat take_bit_nat_eq_self)
  then have "bit (take_bit 6 (of_nat i :: 32 word)) j" using assms(2) by simp
  then show ?thesis by (simp add: bit_take_bit_iff)
qed

lemma decode_loop_bits:
  assumes "set s \<subseteq> set b64" and "shift < 8"
    and "int (length out) + int ((shift + 6 * length s) div 8) \<le> m"
  shows "\<exists>r (bits' :: 32 word) sh. decode_loop (s @ CHR ''='' # rest) bits shift m out = Inr (Some (out @ r)) \<and> sh < 8 \<and>
    concat (map (low 8) r) @ low sh bits' = low shift bits @ text_bits s"
  using assms
proof (induction s arbitrary: bits shift out)
  case Nil
  then show ?case
    by - (rule exI [of _ "[]"], rule exI [of _ bits], rule exI [of _ shift], simp)
next
  case (Cons c s)
  then obtain i where i: "c = b64 ! i" "i < 64" by (auto simp: in_set_conv_nth length_b64)
  have c: "c \<noteq> CHR ''=''" using Cons.prems(1) b64_no_terminator by auto
  let ?v = "of_nat i :: 32 word" and ?sh = "(shift + 6) mod 8"
  let ?bits = "push_bit 6 bits OR ?v"
  have v: "b64r c = Inr ?v" "char_bits c = low 6 ?v" using i by (simp_all add: b64r_b64 char_bits_def)
  have "\<And>j. bit ?v j \<Longrightarrow> j < 6" using i(2) of_nat_bit_bound by blast
  then have joined: "low (shift + 6) ?bits = low shift bits @ char_bits c"
    using low_shift_in [of shift 6 ?v bits] Cons.prems(2) v(2) by simp
  have "int (length out) + int ((shift + 6) div 8) \<le> m"
    using Cons.prems(3) by simp
  from emit8_step [OF Cons.prems(2) this] obtain r1 where
    r1: "emit8 ?bits (shift + 6) m out = Some (out @ r1, ?sh)" "length r1 = (shift + 6) div 8"
      "concat (map (low 8) r1) @ low ?sh ?bits = low (shift + 6) ?bits"
    by blast
  have "(shift + 6) div 8 + (?sh + 6 * length s) div 8 = (shift + 6 * length (c # s)) div 8"
    using div_carry [of 8 "shift + 6" "6 * length s"] by (simp add: ac_simps)
  then have "int (length (out @ r1)) + int ((?sh + 6 * length s) div 8) \<le> m"
    using Cons.prems(3) r1(2) by simp
  moreover have "set s \<subseteq> set b64" and "?sh < 8" using Cons.prems(1) by simp_all
  ultimately obtain r2 and bits' :: "32 word" and sh where
    r2: "decode_loop (s @ CHR ''='' # rest) ?bits ?sh m (out @ r1) = Inr (Some ((out @ r1) @ r2))" "sh < 8"
      "concat (map (low 8) r2) @ low sh bits' = low ?sh ?bits @ text_bits s"
    using Cons.IH by blast
  have "decode_loop ((c # s) @ CHR ''='' # rest) bits shift m out = Inr (Some (out @ (r1 @ r2)))"
    using c v(1) r1(1) r2(1) by (simp add: Let_def)
  moreover have "concat (map (low 8) (r1 @ r2)) @ low sh bits' = low shift bits @ text_bits (c # s)"
  proof -
    have "concat (map (low 8) (r1 @ r2)) @ low sh bits' = (concat (map (low 8) r1) @ low ?sh ?bits) @ text_bits s"
      using r2(3) by simp
    also have "\<dots> = low shift bits @ text_bits (c # s)"
      unfolding r1(3) joined by simp
    finally show ?thesis .
  qed
  ultimately show ?case using r2(2) by blast
qed

lemma base64_decode_encode:
  assumes "int ((8 * length bs + 5) div 6) < m" and "int (length bs) \<le> m'"
  shows "\<exists>t. base64_encode bs m = Some (t @ ''='') \<and> length t = (8 * length bs + 5) div 6 \<and> set t \<subseteq> set b64 \<and>
    (\<forall>rest. base64_decode (t @ CHR ''='' # rest) m' = Inr (Some bs))"
proof -
  obtain r where r: "base64_loop bs 0 0 m [] = Some r"
    using base64_loop_room [of "[]" 0 bs m 0] assms(1) by auto
  then obtain s p where s: "r = s @ ''=''" "set s \<subseteq> set b64" "p < 6"
      "text_bits s = concat (map (low 8) bs) @ replicate p False"
    using base64_loop_bits [OF r] by auto
  have "length (concat (map (low 8) bs)) = 8 * length bs" by (induction bs) simp_all
  with s(4) text_bits_length [OF s(2)] have len: "6 * length s = 8 * length bs + p" by simp
  have "base64_decode (s @ CHR ''='' # rest) m' = Inr (Some bs)" for rest
  proof -
    have "int (length []) + int ((0 + 6 * length s) div 8) \<le> m'" using len s(3) assms(2) by simp
    from decode_loop_bits [OF s(2) _ this, where bits = 0 and rest = rest] obtain out and bits' :: "32 word" and sh where
      out: "decode_loop (s @ CHR ''='' # rest) 0 0 m' [] = Inr (Some out)" "sh < 8"
        "concat (map (low 8) out) @ low sh bits' = concat (map (low 8) bs) @ replicate p False"
      using s(4) by auto
    have "length (concat (map (low 8) out)) = 8 * length out" by (induction out) simp_all
    then have "8 * length out + sh = 8 * length bs + p"
      using arg_cong [OF out(3), of length] \<open>length (concat (map (low 8) bs)) = 8 * length bs\<close> by simp
    then have "(8 * length out + sh) div 8 = (8 * length bs + p) div 8" by simp
    then have "length out = length bs" using out(2) s(3) by simp
    then have "length (concat (map (low 8) out)) = length (concat (map (low 8) bs))"
      unfolding \<open>length (concat (map (low 8) out)) = 8 * length out\<close> \<open>length (concat (map (low 8) bs)) = 8 * length bs\<close>
      by (rule arg_cong)
    then have "concat (map (low 8) out) = concat (map (low 8) bs)"
      using out(3) by (rule append_eq_append_conv [THEN iffD1, THEN conjunct1, OF disjI1])
    with \<open>length out = length bs\<close> have "out = bs" by (rule bytes_inj)
    with out(1) show ?thesis by (simp add: base64_decode_def)
  qed
  moreover have "length s = (8 * length bs + 5) div 6"
  proof -
    have "8 * length bs + 5 = 6 * length s + (5 - p)" using len s(3) by linarith
    then show ?thesis by simp
  qed
  ultimately show ?thesis using r s(1,2) by (auto simp: base64_encode_def)
qed

text \<open>
  Decoding what has been encoded gives the bytes back, whatever follows the terminator:
  any list of bytes is encoded when the output limit leaves room for one character per six
  bits and the terminator, into characters of the alphabet only, and decoded when the
  limit of the decoder is not below the number of bytes.
\<close>

theorem base64_roundtrip:
  assumes "int ((8 * length bs + 5) div 6) < m" and "int (length bs) \<le> m'"
  shows "\<exists>t. base64_encode bs m = Some (t @ ''='') \<and> length t = (8 * length bs + 5) div 6 \<and> set t \<subseteq> set b64 \<and>
    (\<forall>rest. base64_decode (t @ ''='' @ rest) m' = Inr (Some bs))"
  using base64_decode_encode [OF assms] by simp

theorem base64_roundtrip_witness:
  "\<exists>t. base64_encode [0xFF, 0, 0x7F] 10 = Some (t @ ''='') \<and> length t = 4 \<and>
     base64_decode (t @ ''='' @ ''rest'') 3 = Inr (Some [0xFF, 0, 0x7F])"
  using base64_roundtrip [of "[0xFF, 0, 0x7F]" 10 3] by auto

lemma str2md5base64_ok:
  assumes "length (md5 s) = 16"
  shows "\<exists>t. str2md5base64 md5 s = Some t \<and> length t = 22 \<and> set t \<subseteq> set b64 \<and>
    base64_decode (t @ ''='') 16 = Inr (Some (md5 s))"
  using base64_decode_encode [of "md5 s" 49 16] assms
  by (auto simp: str2md5base64_def dest: spec [of _ "[]"])

lemma str2md5base64_inj:
  assumes "length (md5 a) = 16" and "length (md5 b) = 16" and "str2md5base64 md5 a = str2md5base64 md5 b"
  shows "md5 a = md5 b"
  using str2md5base64_ok [of md5 a] str2md5base64_ok [of md5 b] assms by auto

text \<open>
  Every character beyond the letter z makes the decoder read outside of its table, which
  the generator ends there, even though the caller may pass it any text.
\<close>

theorem base64_decode_out_of_table:
  assumes "122 < (of_char c :: nat)"
  shows "base64_decode (c # s) m = Inl Out_of_bounds"
proof -
  have "c \<noteq> CHR ''=''" using assms by auto
  with assms show ?thesis by (simp add: base64_decode_def b64r_def b64r_table_def)
qed

theorem base64_decode_out_of_table_witness: "base64_decode ''~x'' 5 = Inl Out_of_bounds"
  using base64_decode_out_of_table [of "CHR ''~''" "''x''" 5] by simp

end
