(* ===== verification/LB_Context.thy ===== *)
theory LB_Context
  imports LB_Seqcode LB_Base64
begin

text \<open>
  The producer's side of sequence codes
  (\<^verbatim>\<open>org.glite.lb.common/src/context.c\<close>): the code kept in a logging context, read with
  \<^verbatim>\<open>edg_wll_GetSequenceCode\<close>, set from text with \<^verbatim>\<open>edg_wll_SetSequenceCode\<close> and advanced
  with \<^verbatim>\<open>edg_wll_IncSequenceCode\<close> before an event is logged; and the generation of the
  identifiers of subjobs. Of the context only the fields these functions use are kept.
  The current time is the argument \<open>now\<close>, and OpenSSL's MD5 the argument \<open>md5\<close>.
\<close>

record edg_wll_SeqCode =
  sc_type :: "32 word"
  sc_c :: "32 word list"
  sc_condor :: string

record edg_wll_Context =
  ctx_errCode :: "errno option"
  p_source :: int
  p_seqcode :: edg_wll_SeqCode

abbreviation (input) EDG_WLL_SOURCE__LAST :: int where "EDG_WLL_SOURCE__LAST \<equiv> 20"
abbreviation (input) EDG_WLL_SEQ_NORMAL :: int where "EDG_WLL_SEQ_NORMAL \<equiv> 1"
abbreviation (input) EDG_WLL_SEQ_PBS :: int where "EDG_WLL_SEQ_PBS \<equiv> 2"
abbreviation (input) EDG_WLL_SEQ_CONDOR :: int where "EDG_WLL_SEQ_CONDOR \<equiv> 3"
abbreviation (input) EDG_WLL_SEQ_CREAM :: int where "EDG_WLL_SEQ_CREAM \<equiv> 4"
abbreviation (input) EDG_WLL_SEQ_DUPLICATE :: int where "EDG_WLL_SEQ_DUPLICATE \<equiv> 11"

text \<open>The array elements in the order the formats name them.\<close>

definition seq_slots :: "nat list" where
  "seq_slots = [1, 2, 3, 4, 5, 6, 7, 8, 9]"

definition pbs_slots :: "nat list" where
  "pbs_slots = [12, 13, 16, 14, 15]"

text \<open>\<^verbatim>\<open>sscanf\<close> stores every value it converts before it stops.\<close>

fun store_slots :: "nat list \<Rightarrow> 32 word list \<Rightarrow> 32 word list \<Rightarrow> 32 word list" where
  "store_slots (i # is) (v # vs) c = store_slots is vs (c[i := v])"
| "store_slots _ _ c = c"

text \<open>The fixed-size buffer of Condor codes: \<^verbatim>\<open>strncpy\<close> pads with NUL or leaves none.\<close>

definition strncpy_buf :: "nat \<Rightarrow> string \<Rightarrow> string" where
  "strncpy_buf n s = take n s @ replicate (n - length s) (CHR 0x00)"

definition strdup_buf :: "string \<Rightarrow> string res" where
  "strdup_buf b = (if CHR 0x00 \<in> set b then Inr (takeWhile (\<lambda>ch. ch \<noteq> CHR 0x00) b) else Inl Out_of_bounds)"

definition set_error :: "errno \<Rightarrow> edg_wll_Context \<Rightarrow> errno option \<times> edg_wll_Context" where
  "set_error e ctx = (Some e, ctx\<lparr>ctx_errCode := Some e\<rparr>)"

definition upd_code :: "(edg_wll_SeqCode \<Rightarrow> edg_wll_SeqCode) \<Rightarrow> edg_wll_Context \<Rightarrow> edg_wll_Context" where
  "upd_code f ctx = ctx\<lparr>p_seqcode := f (p_seqcode ctx)\<rparr>"

definition edg_wll_GetSequenceCode :: "edg_wll_Context \<Rightarrow> (cstr \<times> edg_wll_Context) res" where
  "edg_wll_GetSequenceCode ctx =
     (let q = p_seqcode ctx; ty = uint (sc_type q); c = sc_c q in
      if ty = EDG_WLL_SEQ_CREAM \<or> ty = EDG_WLL_SEQ_DUPLICATE \<or> ty = EDG_WLL_SEQ_NORMAL then
        Inr (Some (sprintf_ints seq_labels seq_widths (map ((!) c) seq_slots)), ctx)
      else if ty = EDG_WLL_SEQ_PBS then
        Inr (Some (sprintf_ints pbs_labels pbs_widths (map ((!) c) pbs_slots)), ctx)
      else if ty = EDG_WLL_SEQ_CONDOR then
        rbind (strdup_buf (sc_condor q)) (\<lambda>s. Inr (Some s, ctx))
      else Inr (None, snd (set_error EINVAL ctx)))"

definition SetSequenceCode_glite ::
  "int \<Rightarrow> edg_wll_Context \<Rightarrow> cstr \<Rightarrow> int \<Rightarrow> errno option \<times> edg_wll_Context" where
  "SetSequenceCode_glite now ctx seqcode_str seq_type =
     (case seqcode_str of
        None \<Rightarrow> (None, upd_code (\<lambda>q. q\<lparr>sc_c := replicate (length (sc_c q)) 0\<rparr>) ctx)
      | Some s \<Rightarrow>
          let vs = sscanf_ints seq_labels s;
              ctx = upd_code (\<lambda>q. q\<lparr>sc_c := store_slots seq_slots vs (sc_c q)\<rparr>) ctx;
              ctx = (if length vs = 8 then upd_code (\<lambda>q. q\<lparr>sc_c := (sc_c q)[9 := 0]\<rparr>) ctx else ctx)
          in if length vs \<noteq> 8 \<and> length vs \<noteq> 9 then
               (if seq_type = EDG_WLL_SEQ_CREAM then (None, ctx) else set_error EINVAL ctx)
             else if seq_type = EDG_WLL_SEQ_DUPLICATE then
               (if p_source ctx \<le> 0 \<or> EDG_WLL_SOURCE__LAST \<le> p_source ctx then set_error EINVAL ctx
                else (ctx_errCode ctx,
                      upd_code (\<lambda>q. q\<lparr>sc_c := (sc_c q)[nat (p_source ctx) := word_of_int now]\<rparr>) ctx))
             else (ctx_errCode ctx, ctx))"

definition edg_wll_SetSequenceCode ::
  "int \<Rightarrow> edg_wll_Context \<Rightarrow> cstr \<Rightarrow> int \<Rightarrow> errno option \<times> edg_wll_Context" where
  "edg_wll_SetSequenceCode now ctx0 seqcode_str seq_type =
     (let ctx = upd_code (\<lambda>q. q\<lparr>sc_type := word_of_int seq_type\<rparr>) (ctx0\<lparr>ctx_errCode := None\<rparr>) in
      if seq_type = EDG_WLL_SEQ_CREAM \<or> seq_type = EDG_WLL_SEQ_DUPLICATE \<or> seq_type = EDG_WLL_SEQ_NORMAL
      then SetSequenceCode_glite now ctx seqcode_str seq_type
      else if seq_type = EDG_WLL_SEQ_PBS then
        (case seqcode_str of
           None \<Rightarrow> (None, upd_code (\<lambda>q. q\<lparr>sc_c := replicate (length (sc_c q)) 0\<rparr>) ctx)
         | Some s \<Rightarrow>
             let vs = sscanf_ints pbs_labels s;
                 ctx = upd_code (\<lambda>q. q\<lparr>sc_c := store_slots pbs_slots vs (sc_c q)\<rparr>) ctx
             in if length vs \<noteq> 5 then set_error EINVAL ctx else (ctx_errCode ctx, ctx))
      else if seq_type = EDG_WLL_SEQ_CONDOR then
        (ctx_errCode ctx,
         upd_code (\<lambda>q. q\<lparr>sc_condor :=
           (case seqcode_str of
              None \<Rightarrow> replicate EDG_WLL_SEQ_CONDOR_SIZE (CHR 0x00)
            | Some s \<Rightarrow> strncpy_buf EDG_WLL_SEQ_CONDOR_SIZE s)\<rparr>) ctx)
      else set_error EINVAL ctx)"

definition edg_wll_IncSequenceCode :: "edg_wll_Context \<Rightarrow> errno option \<times> edg_wll_Context" where
  "edg_wll_IncSequenceCode ctx0 =
     (let ctx = ctx0\<lparr>ctx_errCode := None\<rparr>; ty = uint (sc_type (p_seqcode ctx)) in
      if ty = EDG_WLL_SEQ_CREAM \<or> ty = EDG_WLL_SEQ_PBS \<or> ty = EDG_WLL_SEQ_DUPLICATE \<or> ty = EDG_WLL_SEQ_NORMAL
      then
        (if p_source ctx \<le> 0 \<or> EDG_WLL_SOURCE__LAST \<le> p_source ctx then set_error EINVAL ctx
         else let i = nat (p_source ctx) in
              (ctx_errCode ctx, upd_code (\<lambda>q. q\<lparr>sc_c := (sc_c q)[i := sc_c q ! i + 1]\<rparr>) ctx))
      else (ctx_errCode ctx, ctx))"

text \<open>Subjob \<open>k\<close> of a parent gets the digest of the parent's unique part, the seed and \<open>k\<close>.\<close>

definition subjob_unhashed :: "string \<Rightarrow> string \<Rightarrow> nat \<Rightarrow> string" where
  "subjob_unhashed unique sd k = unique @ '','' @ sd @ '','' @ show_int (int k)"

fun subjob_ids ::
  "(string \<Rightarrow> 8 word list) \<Rightarrow> string \<Rightarrow> 32 word \<Rightarrow> string \<Rightarrow> string \<Rightarrow> nat list \<Rightarrow> errno + glite_jobid list" where
  "subjob_ids md5 server port unique sd [] = Inr []"
| "subjob_ids md5 server port unique sd (k # ks) =
     (case str2md5base64 md5 (subjob_unhashed unique sd k) of
        None \<Rightarrow> Inl ENOMEM
      | Some hashed \<Rightarrow>
          (case glite_jobid_recreate (Some server) (sint port) (Some hashed) [] of
             Inl e \<Rightarrow> Inl e
           | Inr j \<Rightarrow>
               (case subjob_ids md5 server port unique sd ks of
                  Inl e \<Rightarrow> Inl e
                | Inr js \<Rightarrow> Inr (j # js))))"

definition edg_wll_GenerateSubjobIds ::
  "(string \<Rightarrow> 8 word list) \<Rightarrow> glite_jobid option \<Rightarrow> int \<Rightarrow> cstr \<Rightarrow> errno + glite_jobid list" where
  "edg_wll_GenerateSubjobIds md5 parent num_subjobs sd =
     (if num_subjobs < 1 then Inl EINVAL
      else
        (case (glite_jobid_getUnique parent, glite_jobid_getServerParts parent) of
           (Some p_unique, Some (p_bkserver, p_port)) \<Rightarrow>
             subjob_ids md5 p_bkserver p_port p_unique
               (case sd of None \<Rightarrow> ''edg_wll_GenerateSubjobIds()'' | Some s \<Rightarrow> s)
               [0..<nat num_subjobs]
         | _ \<Rightarrow> Inl ENOMEM))"

section \<open>The code of a context\<close>

definition ctx_wf :: "edg_wll_Context \<Rightarrow> bool" where
  "ctx_wf ctx \<longleftrightarrow> length (sc_c (p_seqcode ctx)) = nat EDG_WLL_SOURCE__LAST"

text \<open>The nine components that a gLite code prints.\<close>

definition ctx_components :: "edg_wll_Context \<Rightarrow> 32 word list" where
  "ctx_components ctx = map ((!) (sc_c (p_seqcode ctx))) seq_slots"

lemma length_store_slots [simp]: "length (store_slots is vs c) = length c"
  by (induction "is" vs c rule: store_slots.induct) auto

lemma store_slots_other: "i \<notin> set is \<Longrightarrow> store_slots is vs c ! i = c ! i"
  by (induction "is" vs c rule: store_slots.induct) auto

lemma store_slots_read:
  "distinct is \<Longrightarrow> \<forall>i \<in> set is. i < length c \<Longrightarrow> length vs = length is \<Longrightarrow>
   map ((!) (store_slots is vs c)) is = vs"
  by (induction "is" vs c rule: store_slots.induct) (auto simp: store_slots_other)

lemma get_normal:
  "sc_type (p_seqcode ctx) = 1 \<Longrightarrow>
   edg_wll_GetSequenceCode ctx = Inr (Some (seq_print (ctx_components ctx)), ctx)"
  by (simp add: edg_wll_GetSequenceCode_def ctx_components_def seq_print_def)

lemma length_ctx_components [simp]: "length (ctx_components ctx) = 9"
  by (simp add: ctx_components_def seq_slots_def)

lemma sscanf_seq_print: "length c = 9 \<Longrightarrow> sscanf_ints seq_labels (seq_print c) = c"
  using seq_parse_print [of c] by (auto simp: seq_parse_def Let_def split: if_splits)

lemma set_normal_print:
  assumes "ctx_wf ctx" and "length c = 9"
  shows "\<exists>ctx'. edg_wll_SetSequenceCode now ctx (Some (seq_print c)) EDG_WLL_SEQ_NORMAL = (None, ctx') \<and>
           ctx_components ctx' = c \<and> sc_type (p_seqcode ctx') = 1 \<and> ctx_wf ctx'"
proof -
  have "map ((!) (store_slots seq_slots c (sc_c (p_seqcode ctx)))) seq_slots = c"
    using assms by (intro store_slots_read) (auto simp: seq_slots_def ctx_wf_def)
  then show ?thesis
    using assms by (simp add: edg_wll_SetSequenceCode_def SetSequenceCode_glite_def sscanf_seq_print
        Let_def upd_code_def ctx_components_def ctx_wf_def)
qed

lemma inc_components:
  assumes "ctx_wf ctx" and "sc_type (p_seqcode ctx) = 1" and "p_source ctx = int i" and "1 \<le> i" and "i \<le> 9"
  shows "\<exists>ctx'. edg_wll_IncSequenceCode ctx = (None, ctx') \<and> sc_type (p_seqcode ctx') = 1 \<and>
    ctx_components ctx' = (ctx_components ctx)[i - 1 := ctx_components ctx ! (i - 1) + 1]"
proof -
  have "i \<in> {1, 2, 3, 4, 5, 6, 7, 8, 9}" using assms(4,5) by auto
  then have "map ((!) ((sc_c (p_seqcode ctx))[i := sc_c (p_seqcode ctx) ! i + 1])) seq_slots =
      (map ((!) (sc_c (p_seqcode ctx))) seq_slots)
        [i - 1 := map ((!) (sc_c (p_seqcode ctx))) seq_slots ! (i - 1) + 1]"
    using assms(1) unfolding seq_slots_def ctx_wf_def by (elim insertE) simp_all
  then show ?thesis
    using assms by (simp add: edg_wll_IncSequenceCode_def Let_def upd_code_def ctx_components_def)
qed

lemma cmp_words_bump:
  "i < length c \<Longrightarrow> c ! i < v \<Longrightarrow> cmp_words (c[i := v]) c = 1"
proof (induction c arbitrary: i)
  case (Cons x xs)
  then show ?case by (cases i) auto
qed simp

lemma bump_greater:
  assumes "0 \<le> sint x" and "0 \<le> sint (x + 1 :: 32 word)"
  shows "x < x + 1 \<and> sint (x + 1) = sint x + 1"
proof -
  have u: "uint x = sint x" "uint (x + 1) = sint (x + 1)"
    using assms in_int_sint [of x] in_int_sint [of "x + 1"]
    by (simp_all add: in_int_def uint_sint take_bit_int_eq_self)
  then have "uint x < 2147483648" using in_int_sint [of x] by (simp add: in_int_def)
  then have "uint (x + 1) = uint x + 1" by (simp add: uint_word_ariths(1))
  with u show ?thesis by (simp add: word_less_def)
qed

text \<open>Printed codes can be compared: no component label contains \<^verbatim>\<open>SMOM=\<close>.\<close>

lemma strstr_set: "strstr s n = Some t \<Longrightarrow> set n \<subseteq> set s"
proof (induction s n rule: strstr.induct)
  case (2 x xs n)
  show ?case
  proof (cases "take (length n) (x # xs) = n")
    case True
    then show ?thesis by (metis set_take_subset)
  next
    case False
    with 2 show ?thesis by auto
  qed
qed (auto split: if_splits)

lemma show_pad_chars: "set (show_pad w i) \<subseteq> insert (CHR ''-'') (Collect is_digit)"
  using zero_pad_digits [OF show_nat_digits] by (auto simp: show_pad_def subset_iff)

lemma sprintf_ints_chars:
  "set (sprintf_ints ls ws cs) \<subseteq> \<Union> (set (map set ls)) \<union> insert (CHR ''-'') (Collect is_digit)"
  using show_pad_chars
  by (induction ls ws cs rule: sprintf_ints.induct) (simp_all, blast)

lemma seq_print_comparable: "seq_bounded c \<Longrightarrow> comparable (seq_print c)"
proof -
  assume b: "seq_bounded c"
  have "CHR ''O'' \<notin> set (seq_print c)"
    using sprintf_ints_chars [of seq_labels seq_widths c]
    by (auto simp: seq_print_def seq_labels_def is_digit_def)
  then have "strstr (seq_print c) ''SMOM='' = None"
    using strstr_set [of "seq_print c" "''SMOM=''"] by (cases "strstr (seq_print c) ''SMOM=''") auto
  with b show ?thesis
    by (simp add: comparable_def with_lbs_seq_print seq_parse_print seq_bounded_length)
qed

lemma compare_seq_print:
  "seq_bounded c \<Longrightarrow> seq_bounded d \<Longrightarrow>
   edg_wll_compare_seq junk (seq_print c) (seq_print d) = cmp_words c d"
  by (simp add: compare_seq_comparable seq_print_comparable with_lbs_seq_print seq_parse_print
      seq_bounded_length)

text \<open>
  A code read from one context and set in another, through its text, arrives
  unchanged: all nine counters agree (as 32-bit values, also those that print as negative
  numbers) and reading it again gives the same text.
\<close>

theorem seqcode_get_set:
  assumes "sc_type (p_seqcode ctx1) = 1" and "ctx_wf ctx2"
  shows "\<exists>s ctx3. edg_wll_GetSequenceCode ctx1 = Inr (Some s, ctx1) \<and>
           edg_wll_SetSequenceCode now ctx2 (Some s) EDG_WLL_SEQ_NORMAL = (None, ctx3) \<and>
           ctx_components ctx3 = ctx_components ctx1 \<and>
           edg_wll_GetSequenceCode ctx3 = Inr (Some s, ctx3)"
  using set_normal_print [OF assms(2), of "ctx_components ctx1" now] get_normal [OF assms(1)]
  by (auto simp: get_normal)

definition example_ctx :: edg_wll_Context where
  "example_ctx =
     \<lparr>ctx_errCode = None, p_source = 3,
      p_seqcode = \<lparr>sc_type = 1, sc_c = [0, 3, 5, 7, 0, 1, 2, 0, 0, 0, 0, 0, 0, 0, 0, 0, 0, 0, 0, 0],
                   sc_condor = []\<rparr>\<rparr>"

lemma example_ctx_facts:
  "sc_type (p_seqcode example_ctx) = 1" "ctx_wf example_ctx" "p_source example_ctx = int 3"
  "ctx_components example_ctx = [3, 5, 7, 0, 1, 2, 0, 0, 0]"
  by (simp_all add: example_ctx_def ctx_wf_def ctx_components_def seq_slots_def)

theorem seqcode_get_set_witness:
  "\<exists>s ctx3. edg_wll_GetSequenceCode example_ctx = Inr (Some s, example_ctx) \<and>
     edg_wll_SetSequenceCode 0 example_ctx (Some s) EDG_WLL_SEQ_NORMAL = (None, ctx3) \<and>
     ctx_components ctx3 = [3, 5, 7, 0, 1, 2, 0, 0, 0]"
  using seqcode_get_set [OF example_ctx_facts(1,2), of 0] by (metis example_ctx_facts(4))

text \<open>
  Incrementing the code of a context before logging makes the text compare newer than
  the one before, for every one of the nine sources, as long as the counters fit the
  printed fields; when the workload manager increments, the old code lies before a deep
  resubmission of the new one, and any other source stays in the same branch.
\<close>

theorem inc_sequence_code_newer:
  assumes "ctx_wf ctx" and "sc_type (p_seqcode ctx) = 1"
    and "p_source ctx = int (source_index src)" and "1 \<le> source_index src" and "source_index src \<le> 9"
    and "seq_bounded (ctx_components ctx)"
    and "edg_wll_IncSequenceCode ctx = (ret, ctx')" and "seq_bounded (ctx_components ctx')"
    and "edg_wll_GetSequenceCode ctx = Inr (Some old, ctx)"
    and "edg_wll_GetSequenceCode ctx' = Inr (Some new, ctx')"
  shows "ret = None \<and> edg_wll_compare_seq junk new old = 1 \<and>
         (if src = SOURCE_WORKLOAD_MANAGER then before_deep_resubmission old new
          else same_branch old new)"
proof -
  let ?i = "source_index src - 1" and ?c = "ctx_components ctx"
  let ?v = "?c ! ?i + 1"
  from inc_components [OF assms(1-5)] assms(7) have r: "ret = None" "sc_type (p_seqcode ctx') = 1"
    and c': "ctx_components ctx' = ?c[?i := ?v]" by auto
  have i: "?i < 9" using assms(4,5) by simp
  have old: "old = seq_print ?c" and new: "new = seq_print (?c[?i := ?v])"
    using get_normal [OF assms(2)] get_normal [OF r(2)] assms(9,10) c' by auto
  have b: "seq_bounded (?c[?i := ?v])" using assms(8) c' by simp
  have "0 \<le> sint (?c ! ?i)" and "0 \<le> sint ?v"
    using list_all2_nthD2 [OF assms(6) [unfolded seq_bounded_def], of ?i]
      list_all2_nthD2 [OF b [unfolded seq_bounded_def], of ?i] i by simp_all
  then have gt: "?c ! ?i < ?v" and s: "sint ?v = sint (?c ! ?i) + 1" using bump_greater by blast+
  have "edg_wll_compare_seq junk new old = 1"
    using cmp_words_bump [of ?i ?c ?v] i gt
    unfolding old new compare_seq_print [OF b assms(6)] by simp
  moreover have "component_seqcode new SOURCE_WORKLOAD_MANAGER =
      (if src = SOURCE_WORKLOAD_MANAGER then component_seqcode old SOURCE_WORKLOAD_MANAGER + 1
       else component_seqcode old SOURCE_WORKLOAD_MANAGER)"
    using s assms(4,5) unfolding old new component_seq_print [OF assms(6)] component_seq_print [OF b]
    by (cases src) (simp_all add: seq_component_def nth_list_update)
  ultimately show ?thesis
    using r(1) by (simp add: before_deep_resubmission_def same_branch_def)
qed

theorem inc_sequence_code_newer_witness:
  "\<exists>ctx' old new. edg_wll_IncSequenceCode example_ctx = (None, ctx') \<and>
     edg_wll_GetSequenceCode example_ctx = Inr (Some old, example_ctx) \<and>
     edg_wll_GetSequenceCode ctx' = Inr (Some new, ctx') \<and>
     edg_wll_compare_seq (\<lambda>_ _. (0, 0)) new old = 1 \<and> before_deep_resubmission old new"
proof -
  let ?s = SOURCE_WORKLOAD_MANAGER
  have src: "p_source example_ctx = int (source_index ?s)" using example_ctx_facts(3) by simp
  obtain ctx' where i: "edg_wll_IncSequenceCode example_ctx = (None, ctx')" "sc_type (p_seqcode ctx') = 1"
    and c: "ctx_components ctx' = [3, 5, 8, 0, 1, 2, 0, 0, 0]"
    using inc_components [OF example_ctx_facts(2,1) src] example_ctx_facts(4) by auto
  have b: "seq_bounded (ctx_components example_ctx)" "seq_bounded (ctx_components ctx')"
    by (simp_all add: c example_ctx_facts(4) seq_bounded_def seq_widths_def)
  from inc_sequence_code_newer [OF example_ctx_facts(2,1) src _ _ b(1) i(1) b(2)
      get_normal [OF example_ctx_facts(1)] get_normal [OF i(2)], of "\<lambda>_ _. (0, 0)"]
    i get_normal [OF example_ctx_facts(1)] get_normal [OF i(2)]
  show ?thesis by auto
qed

section \<open>Subjobs\<close>

lemma show_int_inj: "in_int i \<Longrightarrow> in_int j \<Longrightarrow> show_int i = show_int j \<Longrightarrow> i = j"
  by (metis atoi_show_int)

lemma subjob_unhashed_inj:
  assumes "int k < 2147483648" and "int l < 2147483648"
    and "subjob_unhashed u sd k = subjob_unhashed u sd l"
  shows "k = l"
proof -
  have "show_int (int k) = show_int (int l)" using assms(3) by (simp add: subjob_unhashed_def)
  then have "int k = int l" using assms(1,2) by (intro show_int_inj) (simp_all add: in_int_def)
  then show ?thesis by simp
qed

lemma subjob_ids_ok:
  assumes "\<And>s. length (md5 s) = 16" and "take 8 server \<noteq> ''https://''" and "CHR '':'' \<notin> set server"
    and "port \<noteq> 0"
  shows "subjob_ids md5 server port u sd ks =
    Inr (map (\<lambda>k. \<lparr>jid_id = the (str2md5base64 md5 (subjob_unhashed u sd k)), BShost = server, BSport = port,
                  jid_info = None\<rparr>) ks)"
proof -
  have "sint port \<noteq> 0" using assms(4) by (metis word_of_sint_32 of_int_0)
  moreover have "str2md5base64 md5 s \<noteq> None" for s using str2md5base64_ok [of md5 s] assms(1) by auto
  ultimately show ?thesis
    using assms(2,3)
    by (induction ks) (auto simp: glite_jobid_recreate_def Let_def strrchr_None split: option.split)
qed

text \<open>The seed the digests are made with.\<close>

definition subjob_seed :: "cstr \<Rightarrow> string" where
  "subjob_seed sd = (case sd of None \<Rightarrow> ''edg_wll_GenerateSubjobIds()'' | Some s \<Rightarrow> s)"

text \<open>
  Generating the identifiers of the \<open>n\<close> subjobs of a job gives \<open>n\<close> identifiers on the
  parent's server and port with unique parts of 22 characters, pairwise different when MD5
  does not collide on the \<open>n\<close> strings it is applied to; a count below 1 is refused. The other
  hypothesis on MD5 is that its digests have 16 bytes.
\<close>

theorem subjob_ids_distinct:
  assumes "wf_jobid parent" and "CHR '':'' \<notin> set (BShost parent)" and "in_int n"
    and "\<forall>s. length (md5 s) = 16"
    and "inj_on md5 (subjob_unhashed (jid_id parent) (subjob_seed sd) ` {0..<nat n})"
  shows "if n < 1 then edg_wll_GenerateSubjobIds md5 (Some parent) n sd = Inl EINVAL
         else \<exists>ids. edg_wll_GenerateSubjobIds md5 (Some parent) n sd = Inr ids \<and>
                length ids = nat n \<and> distinct ids \<and>
                (\<forall>j \<in> set ids. glite_jobid_getServerParts (Some j) = Some (BShost parent, BSport parent) \<and>
                   length (jid_id j) = 22)"
proof (cases "n < 1")
  case False
  let ?u = "subjob_unhashed (jid_id parent) (subjob_seed sd)"
  let ?f = "\<lambda>k. \<lparr>jid_id = the (str2md5base64 md5 (?u k)), BShost = BShost parent,
               BSport = BSport parent, jid_info = None\<rparr>"
  have "take 8 (BShost parent) \<noteq> ''https://''"
    using assms(1) in_set_takeD [of "CHR ''/''" 8 "BShost parent"] by (auto simp: wf_jobid_def)
  then have ids: "edg_wll_GenerateSubjobIds md5 (Some parent) n sd = Inr (map ?f [0..<nat n])"
    using assms(1,2,4) False subjob_ids_ok [of md5 "BShost parent" "BSport parent"]
    by (simp add: edg_wll_GenerateSubjobIds_def glite_jobid_getUnique_def glite_jobid_getServerParts_def
        port_or_default_def wf_jobid_def subjob_seed_def)
  have ok: "\<exists>t. str2md5base64 md5 s = Some t \<and> length t = 22" for s
    using str2md5base64_ok [of md5 s] assms(4) by auto
  have "inj_on ?f (set [0..<nat n])"
  proof (rule inj_onI)
    fix k l
    assume k: "k \<in> set [0..<nat n]" and l: "l \<in> set [0..<nat n]" and "?f k = ?f l"
    then have "str2md5base64 md5 (?u k) = str2md5base64 md5 (?u l)"
      using ok [of "?u k"] ok [of "?u l"] by auto
    then have "md5 (?u k) = md5 (?u l)" using assms(4) str2md5base64_inj by blast
    then have "?u k = ?u l" using assms(5) k l by (auto dest: inj_onD)
    then show "k = l" using assms(3) k l by (intro subjob_unhashed_inj) (auto simp: in_int_def)
  qed
  moreover have "length (jid_id (?f k)) = 22" for k using ok [of "?u k"] by auto
  ultimately show ?thesis
    using False ids assms(1)
    by (simp add: distinct_map glite_jobid_getServerParts_def port_or_default_def wf_jobid_def)
qed (simp add: edg_wll_GenerateSubjobIds_def)

text \<open>A digest for the witness: the end of the string in 16 bytes.\<close>

definition example_md5 :: "string \<Rightarrow> 8 word list" where
  "example_md5 s = map (\<lambda>c. of_char c) (take 16 (rev s)) @ replicate (16 - length s) 0"

theorem subjob_ids_distinct_witness:
  "\<exists>ids. edg_wll_GenerateSubjobIds example_md5 (Some example_jobid) 3 None = Inr ids \<and>
     length ids = 3 \<and> distinct ids"
proof -
  have "wf_jobid example_jobid" "CHR '':'' \<notin> set (BShost example_jobid)" "in_int 3"
    by (simp_all add: wf_jobid_def isspace_def in_int_def)
  moreover have "\<forall>s. length (example_md5 s) = 16" by (auto simp: example_md5_def min_def)
  moreover have "inj_on example_md5 (subjob_unhashed (jid_id example_jobid) (subjob_seed None) ` {0..<nat 3})"
  proof -
    have "distinct (map (\<lambda>k. example_md5 (subjob_unhashed (jid_id example_jobid) (subjob_seed None) k)) [0, 1, 2])"
      by code_simp
    moreover have "{0..<nat 3} = {0, 1, 2}" by auto
    ultimately show ?thesis by (auto simp: inj_on_def)
  qed
  ultimately show ?thesis using subjob_ids_distinct [of example_jobid 3 example_md5 None] by auto
qed

end
