(* ===== verification/LB_Codec.thy ===== *)
theory LB_Codec
  imports LB_Branch
begin

text \<open>
  The textual form in which a job status is stored in the database
  (\<^verbatim>\<open>org.glite.lb.state-machine/src/intjobstat_supp.c\<close>). An encoder appends to the text it is
  given; a decoder returns a value and the rest of the text, or a null pointer where
  nothing follows. Each decoder reads only forward; where the C code would read or write
  outside an object (a length larger than the text, a negative length, an array without
  room) the model faults. Tags without a value, which no encoder writes, are outside the
  model and fault as well. Allocation is assumed to succeed.
\<close>

section \<open>Encoders and decoders of single values\<close>

text \<open>The text after the first space, which \<^verbatim>\<open>strchr(in, ' ') + 1\<close> points to.\<close>

definition after_space :: "string \<Rightarrow> string option" where
  "after_space inp = map_option tl (strchr inp (CHR '' ''))"

definition enc_string :: "string \<Rightarrow> cstr \<Rightarrow> string" where
  "enc_string old item =
     (case item of
        None \<Rightarrow> old @ ''-1 ''
      | Some s \<Rightarrow> old @ show_int (int (length s)) @ '' '' @ s)"

definition dec_string :: "string \<Rightarrow> (cstr \<times> string option) res" where
  "dec_string inp =
     (case scan_long inp of
        None \<Rightarrow> Inr (None, None)
      | Some (len, _) \<Rightarrow>
          if len = - 1 then Inr (None, after_space inp)
          else rbind (deref (after_space inp)) (\<lambda>txt.
            if 0 \<le> len \<and> len \<le> int (length txt)
            then Inr (Some (take (nat len) txt), Some (drop (nat len) txt))
            else Inl Out_of_bounds))"

definition enc_int :: "string \<Rightarrow> int \<Rightarrow> string" where
  "enc_int old item = old @ show_int item @ '' ''"

definition dec_int :: "string \<Rightarrow> (int \<times> string option) res" where
  "dec_int inp =
     (case scan_int inp of
        None \<Rightarrow> Inr (0, Some inp)
      | Some (v, _) \<Rightarrow> Inr (v, after_space inp))"

text \<open>
  The array is printed into a buffer that is as long as the text so far; longer output runs
  over its end.
\<close>

fun join_ints :: "int list \<Rightarrow> string" where
  "join_ints [] = []"
| "join_ints [x] = show_int x"
| "join_ints (x # xs) = show_int x @ '';'' @ join_ints xs"

definition enc_int_array :: "string \<Rightarrow> int list option \<Rightarrow> nat \<Rightarrow> string res" where
  "enc_int_array old item itemsNo =
     rbind (deref item) (\<lambda>xs.
       if length xs < Suc itemsNo then Inl Out_of_bounds
       else
         let strpom = join_ints (take (Suc itemsNo) xs) in
         if length strpom \<le> length old then Inr (old @ strpom @ '' '') else Inl Heap_overflow)"

fun split_semicolons :: "string \<Rightarrow> string \<Rightarrow> string list" where
  "split_semicolons tempstr [] = [tempstr]"
| "split_semicolons tempstr (c # cs) =
     (if c = CHR '';'' then tempstr # split_semicolons [] cs else split_semicolons (tempstr @ [c]) cs)"

text \<open>
  The items up to the space are collected; the last one, which the space ends, is not
  stored. Without a space the rest of the text would begin behind its end.
\<close>

definition dec_int_array :: "string \<Rightarrow> nat \<Rightarrow> (int list \<times> string option) res" where
  "dec_int_array inp room =
     (case strchr inp (CHR '' '') of
        None \<Rightarrow> Inl Out_of_bounds
      | Some sp \<Rightarrow>
          let items = butlast (split_semicolons [] (take (length inp - length sp) inp)) in
          if length items \<le> room
          then Inr (map atoi items @ replicate (room - length items) 0, Some (tl sp))
          else Inl Heap_overflow)"

definition enc_jobid :: "string \<Rightarrow> glite_jobid option \<Rightarrow> string" where
  "enc_jobid old item = enc_string old (glite_jobid_unparse item)"

definition dec_jobid :: "string \<Rightarrow> (glite_jobid option \<times> string option) res" where
  "dec_jobid inp =
     rbind (dec_string inp) (\<lambda>(str, rest).
       Inr ((case str of
               None \<Rightarrow> None
             | Some s \<Rightarrow> (case glite_jobid_parse s of Inl _ \<Rightarrow> None | Inr j \<Rightarrow> Some j)), rest))"

definition enc_timeval :: "string \<Rightarrow> timeval \<Rightarrow> string" where
  "enc_timeval old item = enc_int (enc_int old (c_int (tv_sec item))) (c_int (tv_usec item))"

definition dec_timeval :: "string \<Rightarrow> (timeval \<times> string option) res" where
  "dec_timeval inp =
     rbind (dec_int inp) (\<lambda>(sec, rest).
       case rest of
         None \<Rightarrow> Inr (\<lparr>tv_sec = sec, tv_usec = 0\<rparr>, None)
       | Some r \<Rightarrow> rbind (dec_int r) (\<lambda>(usec, rest'). Inr (\<lparr>tv_sec = sec, tv_usec = usec\<rparr>, rest')))"

section \<open>Lists\<close>

lemma after_space_shorter: "after_space inp = Some r \<Longrightarrow> length r < length inp"
proof -
  assume "after_space inp = Some r"
  then obtain t where t: "strchr inp (CHR '' '') = Some t" and r: "r = tl t"
    by (auto simp: after_space_def)
  from strchr_Some [OF t] obtain u where "inp = u @ t" and "t \<noteq> []" by blast
  then have "0 < length t" and "length t \<le> length inp" by simp_all
  then show ?thesis unfolding r length_tl by linarith
qed

lemma dec_string_shorter:
  assumes "dec_string inp = Inr (v, Some r)"
  shows "length r < length inp"
proof (cases "after_space inp")
  case (Some t)
  with assms have "r = t \<or> (\<exists>n. r = drop n t)"
    by (auto simp: dec_string_def split: option.splits prod.splits if_splits)
  then have "length r \<le> length t" by auto
  with after_space_shorter [OF Some] show ?thesis by linarith
next
  case None
  with assms show ?thesis by (simp add: dec_string_def split: option.splits prod.splits if_splits)
qed

lemma dec_int_not_longer:
  assumes "dec_int inp = Inr (v, Some r)"
  shows "length r \<le> length inp"
proof (cases "scan_int inp")
  case None
  with assms show ?thesis by (simp add: dec_int_def)
next
  case (Some p)
  with assms have "after_space inp = Some r" by (simp add: dec_int_def split: prod.splits)
  then show ?thesis using after_space_shorter by fastforce
qed

text \<open>The head of every list: \<open>-1\<close> for a null pointer, otherwise the elements after a space.\<close>

definition list_head :: "string \<Rightarrow> (string option, string option) sum res" where
  "list_head inp =
     (case scan_int inp of
        None \<Rightarrow> Inr (Inl None)
      | Some (len, _) \<Rightarrow>
          if len = - 1 then Inr (Inl (after_space inp))
          else Inr (Inr (after_space inp)))"

definition enc_strlist :: "string \<Rightarrow> string list option \<Rightarrow> string" where
  "enc_strlist old item =
     (case item of
        None \<Rightarrow> old @ ''-1 ''
      | Some xs \<Rightarrow> enc_string (foldl (\<lambda>acc x. enc_string acc (Some x)) (old @ ''1 '') xs) None)"

function dec_strings :: "string \<Rightarrow> (string list \<times> string option) res" where
  "dec_strings inp =
     (case dec_string inp of
        Inl f \<Rightarrow> Inl f
      | Inr (None, rest) \<Rightarrow> Inr ([], rest)
      | Inr (Some s, None) \<Rightarrow> Inl Null_deref
      | Inr (Some s, Some rest) \<Rightarrow> rbind (dec_strings rest) (\<lambda>(xs, rest'). Inr (s # xs, rest')))"
  by pat_completeness auto

termination
  by (relation "measure length") (auto dest: dec_string_shorter)

declare dec_strings.simps [simp del]

definition dec_strlist :: "string \<Rightarrow> (string list option \<times> string option) res" where
  "dec_strlist inp =
     rbind (list_head inp) (\<lambda>h.
       case h of
         Inl rest \<Rightarrow> Inr (None, rest)
       | Inr txt \<Rightarrow> rbind (deref txt) (\<lambda>t. rbind (dec_strings t) (\<lambda>(xs, rest). Inr (Some xs, rest))))"

definition enc_taglist :: "string \<Rightarrow> tag_value list option \<Rightarrow> string" where
  "enc_taglist old item =
     (case item of
        None \<Rightarrow> old @ ''-1 ''
      | Some xs \<Rightarrow>
          enc_string (enc_string
            (foldl (\<lambda>acc (t, v). enc_string (enc_string acc (Some t)) (Some v)) (old @ ''1 '') xs) None) None)"

text \<open>The first pass over the text gives up with a null pointer where the text ends too early.\<close>

function dec_tags :: "string \<Rightarrow> (tag_value list option \<times> string option) res" where
  "dec_tags inp =
     (case dec_string inp of
        Inl f \<Rightarrow> Inl f
      | Inr (_, None) \<Rightarrow> Inr (None, None)
      | Inr (tag, Some r) \<Rightarrow>
          (case dec_string r of
             Inl f \<Rightarrow> Inl f
           | Inr (_, None) \<Rightarrow> Inr (None, None)
           | Inr (val, Some r') \<Rightarrow>
               (case tag of
                  None \<Rightarrow> Inr (Some [], Some r')
                | Some t \<Rightarrow>
                    rbind (dec_tags r') (\<lambda>(xs, rest).
                      case xs of
                        None \<Rightarrow> Inr (None, rest)
                      | Some ys \<Rightarrow> rbind (deref val) (\<lambda>v. Inr (Some ((t, v) # ys), rest))))))"
  by pat_completeness auto

termination
  by (relation "measure length") (auto dest!: dec_string_shorter)

declare dec_tags.simps [simp del]

definition dec_taglist :: "string \<Rightarrow> (tag_value list option \<times> string option) res" where
  "dec_taglist inp =
     rbind (list_head inp) (\<lambda>h.
       case h of
         Inl rest \<Rightarrow> Inr (None, rest)
       | Inr txt \<Rightarrow> rbind (deref txt) dec_tags)"

definition enc_branch :: "string \<Rightarrow> branch_state \<Rightarrow> string" where
  "enc_branch old b =
     enc_string (enc_string (enc_string (enc_int old (branch b)) (bs_destination b)) (bs_ce_node b)) (bs_jdl b)"

definition enc_branch_states :: "string \<Rightarrow> branch_state list option \<Rightarrow> string" where
  "enc_branch_states old item =
     (case item of
        None \<Rightarrow> old @ ''-1 ''
      | Some bs \<Rightarrow>
          let live = live_branches bs in
          enc_branch (foldl enc_branch (old @ ''1 '') live) (bs_nth bs (length live)))"

function dec_branches :: "string \<Rightarrow> (branch_state list option \<times> string option) res" where
  "dec_branches inp =
     (case dec_int inp of
        Inr (b, Some r0) \<Rightarrow>
          (case dec_string r0 of
             Inl f \<Rightarrow> Inl f
           | Inr (_, None) \<Rightarrow> Inr (None, None)
           | Inr (d, Some r1) \<Rightarrow>
               (case dec_string r1 of
                  Inl f \<Rightarrow> Inl f
                | Inr (_, None) \<Rightarrow> Inr (None, None)
                | Inr (c, Some r2) \<Rightarrow>
                    (case dec_string r2 of
                       Inl f \<Rightarrow> Inl f
                     | Inr (_, None) \<Rightarrow> Inr (None, None)
                     | Inr (j, Some r3) \<Rightarrow>
                         let x = \<lparr>branch = b, bs_destination = d, bs_ce_node = c, bs_jdl = j\<rparr> in
                         if b = 0 then Inr (Some [x], Some r3)
                         else rbind (dec_branches r3) (\<lambda>(xs, rest). Inr (map_option ((#) x) xs, rest)))))
      | Inr (b, None) \<Rightarrow> Inl Null_deref
      | Inl f \<Rightarrow> Inl f)"
  by pat_completeness auto

termination
  by (relation "measure length") (auto dest!: dec_string_shorter dec_int_not_longer)

declare dec_branches.simps [simp del]

definition dec_branch_states :: "string \<Rightarrow> (branch_state list option \<times> string option) res" where
  "dec_branch_states inp =
     rbind (list_head inp) (\<lambda>h.
       case h of
         Inl rest \<Rightarrow> Inr (None, rest)
       | Inr txt \<Rightarrow> rbind (deref txt) dec_branches)"

text \<open>Element 0 of the array is the number of the elements that follow.\<close>

definition enc_intlist :: "string \<Rightarrow> int list option \<Rightarrow> string res" where
  "enc_intlist old item =
     (case item of
        None \<Rightarrow> Inr (old @ ''-1 '')
      | Some [] \<Rightarrow> Inl Out_of_bounds
      | Some (len # xs) \<Rightarrow>
          if nat len \<le> length xs
          then Inr (foldl enc_int (enc_int (old @ ''1 '') len) (take (nat len) xs))
          else Inl Out_of_bounds)"

fun dec_ints :: "nat \<Rightarrow> string option \<Rightarrow> (int list \<times> string option) res" where
  "dec_ints 0 inp = Inr ([], inp)"
| "dec_ints (Suc n) inp =
     rbind (deref inp) (\<lambda>t.
     rbind (dec_int t) (\<lambda>(v, r).
     rbind (dec_ints n r) (\<lambda>(vs, rest). Inr (v # vs, rest))))"

definition dec_intlist :: "string \<Rightarrow> (int list option \<times> string option) res" where
  "dec_intlist inp =
     rbind (list_head inp) (\<lambda>h.
       case h of
         Inl rest \<Rightarrow> Inr (None, rest)
       | Inr None \<Rightarrow> Inr (None, None)
       | Inr (Some t) \<Rightarrow>
           rbind (dec_int t) (\<lambda>(len, r).
             if len = - 1 then Inl Heap_overflow
             else if len < - 1 then Inr (None, r)
             else rbind (dec_ints (nat len) r) (\<lambda>(vs, rest). Inr (Some (len # vs), rest))))"

section \<open>The contract of a codec\<close>

text \<open>
  What a pair of functions promises to its user: what the encoder appends, the decoder takes
  off again, whatever text follows, and it gives the value back up to a normal form. The
  length of the text must fit the C type \<^verbatim>\<open>long\<close>.
\<close>

locale codec =
  fixes enc :: "string \<Rightarrow> 'v \<Rightarrow> string res"
    and dec :: "string \<Rightarrow> ('v \<times> string option) res"
    and ok :: "'v \<Rightarrow> bool"
    and norm :: "'v \<Rightarrow> 'v"
  assumes enc_dec:
    "ok v \<Longrightarrow> enc old v = Inr out \<Longrightarrow> in_long (int (length out)) \<Longrightarrow>
       \<exists>t. out = old @ t \<and> (\<forall>rest. dec (t @ rest) = Inr (norm v, Some rest))"

lemma in_long_shorter:
  "in_long (int (length (xs @ ys))) \<Longrightarrow> in_long (int (length xs)) \<and> in_long (int (length ys))"
  by (simp add: in_long_def)

lemma after_space_show_int [simp]: "after_space (show_int i @ CHR '' '' # r) = Some r"
  by (simp add: after_space_def text_simps)

lemma after_space_minus_one [simp]: "after_space (CHR ''-'' # CHR ''1'' # CHR '' '' # r) = Some r"
  by (simp add: after_space_def)

lemma after_space_one [simp]: "after_space (CHR ''1'' # CHR '' '' # r) = Some r"
  by (simp add: after_space_def)

lemma show_nat_one: "show_nat 1 = ''1''"
  by code_simp

lemma minus_one_text: "CHR ''-'' # CHR ''1'' # r = show_int (- 1) @ r"
  and one_text: "CHR ''1'' # r = show_int 1 @ r"
  using show_nat_one by (simp_all add: show_int_def)

lemma scan_minus_one [simp]: "scan_long (CHR ''-'' # CHR ''1'' # CHR '' '' # r) = Some (- 1, CHR '' '' # r)"
  "scan_int (CHR ''-'' # CHR ''1'' # CHR '' '' # r) = Some (- 1, CHR '' '' # r)"
  unfolding minus_one_text
  by (simp_all add: text_simps in_long_def in_int_def is_digit_def)

lemma scan_one [simp]: "scan_int (CHR ''1'' # CHR '' '' # r) = Some (1, CHR '' '' # r)"
  unfolding one_text by (simp add: text_simps in_int_def is_digit_def)

lemma list_head_simps [simp]:
  "list_head (CHR ''-'' # CHR ''1'' # CHR '' '' # r) = Inr (Inl (Some r))"
  "list_head (CHR ''1'' # CHR '' '' # r) = Inr (Inr (Some r))"
  by (simp_all add: list_head_def)

text \<open>The appended text of a string and of a number.\<close>

definition string_text :: "cstr \<Rightarrow> string" where
  "string_text item = enc_string [] item"

lemma enc_string_append: "enc_string old item = old @ string_text item"
  by (simp add: enc_string_def string_text_def split: option.split)

lemma dec_string_text:
  assumes "in_long (int (length (string_text item)))"
  shows "dec_string (string_text item @ rest) = Inr (item, Some rest)"
proof (cases item)
  case None
  then show ?thesis by (simp add: string_text_def enc_string_def dec_string_def)
next
  case (Some s)
  with assms have "in_long (int (length s))"
    by (simp add: string_text_def enc_string_def in_long_def)
  with Some show ?thesis
    by (simp add: string_text_def enc_string_def dec_string_def text_simps is_digit_def)
qed

lemma dec_int_text: "in_int i \<Longrightarrow> dec_int (show_int i @ CHR '' '' # rest) = Inr (i, Some rest)"
  by (simp add: dec_int_def text_simps is_digit_def)

interpretation cstring: codec "\<lambda>old v. Inr (enc_string old v)" dec_string "\<lambda>_. True" "\<lambda>v. v"
proof unfold_locales
  fix v :: cstr and old out
  assume "Inr (enc_string old v) = (Inr out :: string res)" and "in_long (int (length out))"
  then have "out = old @ string_text v" and "in_long (int (length (string_text v)))"
    by (auto simp: enc_string_append dest: in_long_shorter)
  then show "\<exists>t. out = old @ t \<and> (\<forall>rest. dec_string (t @ rest) = Inr (v, Some rest))"
    using dec_string_text by blast
qed

interpretation cint: codec "\<lambda>old v. Inr (enc_int old v)" dec_int in_int "\<lambda>v. v"
  by unfold_locales (auto simp: enc_int_def dec_int_text)

definition jobid_ok :: "glite_jobid option \<Rightarrow> bool" where
  "jobid_ok p = (case p of None \<Rightarrow> True | Some j \<Rightarrow> wf_jobid j)"

interpretation cjobid: codec "\<lambda>old v. Inr (enc_jobid old v)" dec_jobid jobid_ok "\<lambda>v. v"
proof unfold_locales
  fix v :: "glite_jobid option" and old out
  assume ok: "jobid_ok v" and "Inr (enc_jobid old v) = (Inr out :: string res)"
    and "in_long (int (length out))"
  then obtain t where t: "out = old @ t"
      "\<forall>rest. dec_string (t @ rest) = Inr (glite_jobid_unparse v, Some rest)"
    using cstring.enc_dec [where v = "glite_jobid_unparse v" and old = old and out = out]
    by (auto simp: enc_jobid_def)
  have "dec_jobid (t @ rest) = Inr (v, Some rest)" for rest
  proof (cases v)
    case None
    then show ?thesis using t(2) by (simp add: dec_jobid_def glite_jobid_unparse_def)
  next
    case (Some j)
    then obtain s where s: "glite_jobid_unparse (Some j) = Some s"
      by (simp add: glite_jobid_unparse_def)
    moreover have "glite_jobid_parse s = Inr j"
      using ok Some s jobid_roundtrip_wf by (simp add: jobid_ok_def)
    ultimately show ?thesis using t(2) Some by (simp add: dec_jobid_def)
  qed
  with t(1) show "\<exists>t. out = old @ t \<and> (\<forall>rest. dec_jobid (t @ rest) = Inr (v, Some rest))"
    by blast
qed

definition timeval_ok :: "timeval \<Rightarrow> bool" where
  "timeval_ok t \<longleftrightarrow> in_int (tv_sec t) \<and> in_int (tv_usec t)"

interpretation ctimeval: codec "\<lambda>old v. Inr (enc_timeval old v)" dec_timeval timeval_ok "\<lambda>v. v"
proof unfold_locales
  fix v :: timeval and old out
  assume ok: "timeval_ok v" and "Inr (enc_timeval old v) = (Inr out :: string res)"
  then have "out = old @ show_int (tv_sec v) @ '' '' @ show_int (tv_usec v) @ '' ''"
    by (simp add: enc_timeval_def enc_int_def timeval_ok_def)
  moreover have "dec_timeval ((show_int (tv_sec v) @ '' '' @ show_int (tv_usec v) @ '' '') @ rest)
      = Inr (v, Some rest)" for rest
    using ok by (simp add: dec_timeval_def dec_int_text timeval_ok_def)
  ultimately show "\<exists>t. out = old @ t \<and> (\<forall>rest. dec_timeval (t @ rest) = Inr (v, Some rest))"
    by blast
qed

subsection \<open>Lists of strings and of tags\<close>

lemma enc_strings_append:
  "foldl (\<lambda>acc x. enc_string acc (Some x)) old xs = old @ concat (map (\<lambda>x. string_text (Some x)) xs)"
  by (induction xs arbitrary: old) (simp_all add: enc_string_append)

lemma dec_strings_text:
  assumes "in_long (int (length (concat (map (\<lambda>x. string_text (Some x)) xs) @ string_text None)))"
  shows "dec_strings (concat (map (\<lambda>x. string_text (Some x)) xs) @ string_text None @ rest) = Inr (xs, Some rest)"
  using assms
proof (induction xs)
  case Nil
  then show ?case by (subst dec_strings.simps) (simp add: dec_string_text)
next
  case (Cons x xs)
  then have "in_long (int (length (string_text (Some x))))"
    and "in_long (int (length (concat (map (\<lambda>x. string_text (Some x)) xs) @ string_text None)))"
    by (simp_all add: in_long_def)
  with Cons.IH show ?case by (subst dec_strings.simps) (simp add: dec_string_text)
qed

interpretation cstrlist: codec "\<lambda>old v. Inr (enc_strlist old v)" dec_strlist "\<lambda>_. True" "\<lambda>v. v"
proof unfold_locales
  fix v :: "string list option" and old out
  assume enc: "Inr (enc_strlist old v) = (Inr out :: string res)" and len: "in_long (int (length out))"
  show "\<exists>t. out = old @ t \<and> (\<forall>rest. dec_strlist (t @ rest) = Inr (v, Some rest))"
  proof (cases v)
    case None
    with enc show ?thesis by (auto simp: enc_strlist_def dec_strlist_def)
  next
    case (Some xs)
    let ?t = "concat (map (\<lambda>x. string_text (Some x)) xs) @ string_text None"
    from enc Some have out: "out = old @ ''1 '' @ ?t"
      by (simp add: enc_strlist_def enc_strings_append) (simp add: enc_string_append)
    with len have "in_long (int (length ?t))" by (auto simp: in_long_def)
    from dec_strings_text [OF this] have "dec_strlist ((''1 '' @ ?t) @ rest) = Inr (v, Some rest)" for rest
      using Some by (simp add: dec_strlist_def)
    with out show ?thesis by blast
  qed
qed

definition tag_text :: "tag_value \<Rightarrow> string" where
  "tag_text p = string_text (Some (fst p)) @ string_text (Some (snd p))"

lemma enc_tags_append:
  "foldl (\<lambda>acc (t, v). enc_string (enc_string acc (Some t)) (Some v)) old xs = old @ concat (map tag_text xs)"
  by (induction xs arbitrary: old) (auto simp: enc_string_append tag_text_def)

lemma dec_tags_text:
  assumes "in_long (int (length (concat (map tag_text xs) @ string_text None @ string_text None)))"
  shows "dec_tags (concat (map tag_text xs) @ string_text None @ string_text None @ rest) = Inr (Some xs, Some rest)"
  using assms
proof (induction xs)
  case Nil
  then have "in_long (int (length (string_text None)))" by (simp add: in_long_def)
  then show ?case by (subst dec_tags.simps) (simp add: dec_string_text)
next
  case (Cons p xs)
  obtain t v where p: "p = (t, v)" by (cases p)
  with Cons.prems have "in_long (int (length (string_text (Some t))))"
    and "in_long (int (length (string_text (Some v))))"
    and "in_long (int (length (concat (map tag_text xs) @ string_text None @ string_text None)))"
    by (simp_all add: in_long_def tag_text_def [of "(t, v)"])
  with Cons.IH p show ?case by (subst dec_tags.simps) (simp add: dec_string_text tag_text_def [of "(t, v)"])
qed

interpretation ctaglist: codec "\<lambda>old v. Inr (enc_taglist old v)" dec_taglist "\<lambda>_. True" "\<lambda>v. v"
proof unfold_locales
  fix v :: "tag_value list option" and old out
  assume enc: "Inr (enc_taglist old v) = (Inr out :: string res)" and len: "in_long (int (length out))"
  show "\<exists>t. out = old @ t \<and> (\<forall>rest. dec_taglist (t @ rest) = Inr (v, Some rest))"
  proof (cases v)
    case None
    with enc show ?thesis by (auto simp: enc_taglist_def dec_taglist_def)
  next
    case (Some xs)
    let ?t = "concat (map tag_text xs) @ string_text None @ string_text None"
    from enc Some have out: "out = old @ ''1 '' @ ?t"
      by (simp add: enc_taglist_def enc_tags_append) (simp add: enc_string_append)
    with len have "in_long (int (length ?t))" by (auto simp: in_long_def)
    from dec_tags_text [OF this] have "dec_taglist ((''1 '' @ ?t) @ rest) = Inr (v, Some rest)" for rest
      using Some by (simp add: dec_taglist_def)
    with out show ?thesis by blast
  qed
qed

subsection \<open>Branch states\<close>

definition branch_text :: "branch_state \<Rightarrow> string" where
  "branch_text b =
     show_int (branch b) @ '' '' @ string_text (bs_destination b) @ string_text (bs_ce_node b) @ string_text (bs_jdl b)"

lemma enc_branch_append: "enc_branch old b = old @ branch_text b"
  by (simp add: enc_branch_def branch_text_def enc_int_def enc_string_append)

lemma enc_branches_append: "foldl enc_branch old bs = old @ concat (map branch_text bs)"
  by (induction bs arbitrary: old) (simp_all add: enc_branch_append)

lemma branch_text_long:
  assumes "in_long (int (length (branch_text b)))"
  shows "in_long (int (length (string_text (bs_destination b))))"
    and "in_long (int (length (string_text (bs_ce_node b))))"
    and "in_long (int (length (string_text (bs_jdl b))))"
  using assms by (simp_all add: branch_text_def in_long_def)

lemma dec_branches_step:
  assumes "in_int (branch b)" and "in_long (int (length (branch_text b)))"
  shows "dec_branches (branch_text b @ rest) =
      (if branch b = 0 then Inr (Some [b], Some rest)
       else rbind (dec_branches rest) (\<lambda>(xs, rest'). Inr (map_option ((#) b) xs, rest')))"
  using assms(1) branch_text_long [OF assms(2)]
  by (cases b, subst dec_branches.simps) (simp add: branch_text_def dec_int_text dec_string_text Let_def)

lemma dec_branches_text:
  assumes "list_all (\<lambda>x. branch x \<noteq> 0 \<and> in_int (branch x)) bs" and "branch e = 0"
    and "in_long (int (length (concat (map branch_text bs) @ branch_text e)))"
  shows "dec_branches (concat (map branch_text bs) @ branch_text e @ rest) = Inr (Some (bs @ [e]), Some rest)"
  using assms
proof (induction bs)
  case Nil
  then show ?case by (simp add: dec_branches_step in_int_def)
next
  case (Cons b bs)
  then have "in_long (int (length (branch_text b)))"
    and "in_long (int (length (concat (map branch_text bs) @ branch_text e)))"
    by (simp_all add: in_long_def)
  with Cons show ?case by (simp add: dec_branches_step)
qed

definition branches_ok :: "branch_state list option \<Rightarrow> bool" where
  "branches_ok p = (case p of None \<Rightarrow> True | Some bs \<Rightarrow> list_all (\<lambda>b. in_int (branch b)) (live_branches bs))"

text \<open>The decoded array ends with the terminator, whatever followed it before.\<close>

definition norm_branches :: "branch_state list option \<Rightarrow> branch_state list option" where
  "norm_branches p =
     map_option (\<lambda>bs. live_branches bs @ [bs_nth bs (length (live_branches bs))]) p"

lemma terminator_branch: "branch (bs_nth bs (length (live_branches bs))) = 0"
proof (cases "length (live_branches bs) < length bs")
  case True
  then show ?thesis
    using nth_length_takeWhile [of "\<lambda>x. branch x \<noteq> 0" bs] by (simp add: bs_nth_def live_branches_def)
next
  case False
  then show ?thesis by (simp add: bs_nth_def zero_branch_def)
qed

lemma live_nonzero: "list_all (\<lambda>x. branch x \<noteq> 0) (live_branches bs)"
  by (auto simp: list_all_iff live_branches_def dest: set_takeWhileD)

interpretation cbranches: codec "\<lambda>old v. Inr (enc_branch_states old v)" dec_branch_states branches_ok norm_branches
proof unfold_locales
  fix v :: "branch_state list option" and old out
  assume ok: "branches_ok v" and enc: "Inr (enc_branch_states old v) = (Inr out :: string res)"
    and len: "in_long (int (length out))"
  show "\<exists>t. out = old @ t \<and> (\<forall>rest. dec_branch_states (t @ rest) = Inr (norm_branches v, Some rest))"
  proof (cases v)
    case None
    with enc show ?thesis by (auto simp: enc_branch_states_def dec_branch_states_def norm_branches_def)
  next
    case (Some bs)
    let ?e = "bs_nth bs (length (live_branches bs))"
    let ?t = "concat (map branch_text (live_branches bs)) @ branch_text ?e"
    from enc Some have out: "out = old @ ''1 '' @ ?t"
      by (simp add: enc_branch_states_def Let_def enc_branches_append) (simp add: enc_branch_append)
    with len have len': "in_long (int (length ?t))" by (auto simp: in_long_def)
    have "list_all (\<lambda>x. branch x \<noteq> 0 \<and> in_int (branch x)) (live_branches bs)"
      using ok Some live_nonzero [of bs] by (simp add: branches_ok_def list_all_iff)
    from dec_branches_text [OF this terminator_branch len']
    have "dec_branch_states ((''1 '' @ ?t) @ rest) = Inr (norm_branches v, Some rest)" for rest
      using Some by (simp add: dec_branch_states_def norm_branches_def)
    with out show ?thesis by blast
  qed
qed

subsection \<open>Arrays of numbers\<close>

definition intlist_ok :: "int list option \<Rightarrow> bool" where
  "intlist_ok p =
     (case p of
        Some (len # xs) \<Rightarrow> 0 \<le> len \<and> in_int len \<and> list_all in_int xs
      | _ \<Rightarrow> True)"

text \<open>Only the announced number of elements is kept.\<close>

definition norm_intlist :: "int list option \<Rightarrow> int list option" where
  "norm_intlist p = map_option (\<lambda>xs. case xs of [] \<Rightarrow> [] | len # ys \<Rightarrow> len # take (nat len) ys) p"

lemma enc_ints_append: "foldl enc_int old xs = old @ concat (map (\<lambda>x. show_int x @ '' '') xs)"
  by (induction xs arbitrary: old) (simp_all add: enc_int_def)

lemma dec_ints_text:
  "list_all in_int xs \<Longrightarrow>
     dec_ints (length xs) (Some (concat (map (\<lambda>x. show_int x @ '' '') xs) @ rest)) = Inr (xs, Some rest)"
  by (induction xs) (simp_all add: dec_int_text)

interpretation cintlist: codec enc_intlist dec_intlist intlist_ok norm_intlist
proof unfold_locales
  fix v :: "int list option" and old out
  assume ok: "intlist_ok v" and enc: "enc_intlist old v = Inr out"
  consider "v = None" | len xs where "v = Some (len # xs)" and "nat len \<le> length xs"
    using enc by (auto simp: enc_intlist_def split: option.splits list.splits if_splits)
  then show "\<exists>t. out = old @ t \<and> (\<forall>rest. dec_intlist (t @ rest) = Inr (norm_intlist v, Some rest))"
  proof cases
    case 1
    with enc show ?thesis by (auto simp: enc_intlist_def dec_intlist_def norm_intlist_def)
  next
    case (2 len xs)
    let ?ys = "take (nat len) xs"
    let ?t = "''1 '' @ show_int len @ '' '' @ concat (map (\<lambda>x. show_int x @ '' '') ?ys)"
    from enc 2 have out: "out = old @ ?t"
      by (simp add: enc_intlist_def enc_ints_append) (simp add: enc_int_def)
    have len: "0 \<le> len" "in_int len" and ys: "list_all in_int ?ys"
      using ok 2 by (auto simp: intlist_ok_def list_all_iff dest: in_set_takeD)
    have "length ?ys = nat len" using 2(2) by simp
    with dec_ints_text [OF ys] have "dec_intlist (?t @ rest) = Inr (norm_intlist v, Some rest)" for rest
      using len 2(1) by (simp add: dec_intlist_def dec_int_text norm_intlist_def)
    with out show ?thesis by blast
  qed
qed

text \<open>The histogram of the children: thirteen numbers, of which the last is not read back.\<close>

definition enc_hist :: "string \<Rightarrow> int list option \<Rightarrow> string res" where
  "enc_hist old item = enc_int_array old item 12"

definition dec_hist :: "string \<Rightarrow> (int list option \<times> string option) res" where
  "dec_hist inp = rbind (dec_int_array inp 13) (\<lambda>(xs, rest). Inr (Some xs, rest))"

definition hist_ok :: "int list option \<Rightarrow> bool" where
  "hist_ok p = (case p of None \<Rightarrow> True | Some xs \<Rightarrow> list_all in_int xs)"

definition norm_hist :: "int list option \<Rightarrow> int list option" where
  "norm_hist p = map_option (\<lambda>xs. take 12 xs @ [0]) p"

lemma split_semicolons_item:
  "CHR '';'' \<notin> set u \<Longrightarrow> split_semicolons acc u = [acc @ u]"
  "CHR '';'' \<notin> set u \<Longrightarrow> split_semicolons acc (u @ CHR '';'' # r) = (acc @ u) # split_semicolons [] r"
  by (induction u arbitrary: acc) auto

lemma split_join_ints: "xs \<noteq> [] \<Longrightarrow> split_semicolons [] (join_ints xs) = map show_int xs"
  by (induction xs rule: join_ints.induct) (simp_all add: split_semicolons_item)

lemma join_ints_no_space: "CHR '' '' \<notin> set (join_ints xs)"
  by (induction xs rule: join_ints.induct) simp_all

lemma atoi_show_ints: "list_all in_int xs \<Longrightarrow> map (atoi \<circ> show_int) xs = xs"
  by (induction xs) (simp_all add: atoi_show_int)

lemma dec_int_array_text:
  assumes "list_all in_int xs" and "xs \<noteq> []" and "length xs \<le> Suc room"
  shows "dec_int_array (join_ints xs @ CHR '' '' # rest) room =
      Inr (butlast xs @ replicate (Suc room - length xs) 0, Some rest)"
proof -
  have "strchr (join_ints xs @ CHR '' '' # rest) (CHR '' '') = Some (CHR '' '' # rest)"
    using join_ints_no_space by (rule strchr_append)
  moreover have "map atoi (butlast (map show_int xs)) = butlast xs"
    using assms(1) atoi_show_ints [of "butlast xs"]
    by (auto simp: list_all_iff map_butlast [symmetric] dest: in_set_butlastD)
  moreover have "room - (length xs - 1) = Suc room - length xs" and "length xs - 1 \<le> room"
    using assms(2,3) by (cases xs; simp)+
  ultimately show ?thesis
    using split_join_ints [OF assms(2)] by (simp add: dec_int_array_def)
qed

interpretation chist: codec enc_hist dec_hist hist_ok norm_hist
proof unfold_locales
  fix v :: "int list option" and old out
  assume ok: "hist_ok v" and enc: "enc_hist old v = Inr out"
  then obtain xs where v: "v = Some xs" "\<not> length xs < 13"
    and out: "out = old @ join_ints (take 13 xs) @ '' ''"
    by (auto simp: enc_hist_def enc_int_array_def res_simps Let_def split: if_splits)
  have "list_all in_int (take 13 xs)"
    using ok v by (auto simp: hist_ok_def list_all_iff dest: in_set_takeD)
  moreover have "butlast (take 13 xs) = take 12 xs"
    using v(2) by (simp add: butlast_take)
  moreover have "xs \<noteq> []" using v(2) by auto
  ultimately have "dec_hist ((join_ints (take 13 xs) @ '' '') @ rest) = Inr (norm_hist v, Some rest)" for rest
    using v dec_int_array_text [of "take 13 xs" 13 rest]
    by (auto simp: dec_hist_def norm_hist_def)
  with out show "\<exists>t. out = old @ t \<and> (\<forall>rest. dec_hist (t @ rest) = Inr (norm_hist v, Some rest))"
    by blast
qed

end
