(* ===== verification/LB_StatusCodec.thy ===== *)
theory LB_StatusCodec
  imports LB_Codec
begin

text \<open>
  The textual form of a whole job status (\<^verbatim>\<open>enc_JobStat\<close>, \<^verbatim>\<open>dec_JobStat\<close>,
  \<^verbatim>\<open>enc_intJobStat\<close> and \<^verbatim>\<open>dec_intJobStat\<close> of
  \<^verbatim>\<open>org.glite.lb.state-machine/src/intjobstat_supp.c\<close>): one step per field, in the order of
  the code. A decoder stops where the text ends; the fields it did not reach keep the zero
  of the allocation. The main result is the round trip, which names the parts of a status
  that do not survive storage.
\<close>

section \<open>Fields\<close>

definition put_field :: "(string \<Rightarrow> 'v \<Rightarrow> string res) \<Rightarrow> ('s \<Rightarrow> 'v) \<Rightarrow> 's \<Rightarrow> string \<Rightarrow> string res" where
  "put_field enc get s ret = enc ret (get s)"

definition take_field ::
  "(string \<Rightarrow> ('v \<times> string option) res) \<Rightarrow> (('v \<Rightarrow> 'v) \<Rightarrow> 's \<Rightarrow> 's) \<Rightarrow> 's \<Rightarrow> string \<Rightarrow> ('s \<times> string option) res" where
  "take_field dec upd s tmp_in = rbind (dec tmp_in) (\<lambda>(v, rest). Inr (upd (\<lambda>_. v) s, rest))"

text \<open>The steps of the two functions, one after the other.\<close>

primrec enc_fields :: "('s \<Rightarrow> string \<Rightarrow> string res) list \<Rightarrow> 's \<Rightarrow> string \<Rightarrow> string res" where
  "enc_fields [] s ret = Inr ret"
| "enc_fields (e # es) s ret = rbind (e s ret) (enc_fields es s)"

primrec dec_fields ::
  "('s \<Rightarrow> string \<Rightarrow> ('s \<times> string option) res) list \<Rightarrow> 's \<Rightarrow> string option \<Rightarrow> ('s \<times> string option) res" where
  "dec_fields [] s tmp_in = Inr (s, tmp_in)"
| "dec_fields (d # ds) s tmp_in =
     (case tmp_in of
        None \<Rightarrow> Inr (s, None)
      | Some t \<Rightarrow> rbind (d s t) (\<lambda>(s', rest). dec_fields ds s' rest))"

abbreviation "e_int \<equiv> put_field (\<lambda>old v. Inr (enc_int old v))"
abbreviation "e_string \<equiv> put_field (\<lambda>old v. Inr (enc_string old v))"
abbreviation "e_jobid \<equiv> put_field (\<lambda>old v. Inr (enc_jobid old v))"
abbreviation "e_timeval \<equiv> put_field (\<lambda>old v. Inr (enc_timeval old v))"
abbreviation "e_strlist \<equiv> put_field (\<lambda>old v. Inr (enc_strlist old v))"
abbreviation "e_taglist \<equiv> put_field (\<lambda>old v. Inr (enc_taglist old v))"
abbreviation "e_branch_states \<equiv> put_field (\<lambda>old v. Inr (enc_branch_states old v))"
abbreviation "e_intlist \<equiv> put_field enc_intlist"
abbreviation "e_hist \<equiv> put_field enc_hist"

abbreviation "d_int \<equiv> take_field dec_int"
abbreviation "d_string \<equiv> take_field dec_string"
abbreviation "d_jobid \<equiv> take_field dec_jobid"
abbreviation "d_timeval \<equiv> take_field dec_timeval"
abbreviation "d_strlist \<equiv> take_field dec_strlist"
abbreviation "d_taglist \<equiv> take_field dec_taglist"
abbreviation "d_branch_states \<equiv> take_field dec_branch_states"
abbreviation "d_intlist \<equiv> take_field dec_intlist"
abbreviation "d_hist \<equiv> take_field dec_hist"

section \<open>The status\<close>

text \<open>The steps over the public part, and those over the fields that the server keeps for itself.\<close>

definition pub_writers :: "('a edg_wll_JobStat_scheme \<Rightarrow> string \<Rightarrow> string res) list" where
  "pub_writers =
      [e_int state, e_jobid jobId, e_string owner, e_int jobtype, e_jobid parent_job,
       e_string seed, e_int children_num, e_hist children_hist, e_string condorId,
       e_string globusId, e_string localId, e_string jdl, e_string matched_jdl,
       e_string destination, e_string condor_jdl, e_string rsl, e_string reason,
       e_string location, e_string ce_node, e_string network_server, e_int subjob_failed,
       e_int done_code, e_int exit_code, e_int resubmitted, e_int cancelling,
       e_string cancelReason, e_int cpuTime, e_taglist user_tags, e_timeval stateEnterTime,
       e_timeval lastUpdateTime, e_intlist stateEnterTimes, e_int expectUpdate,
       e_string expectFrom, e_string acl, e_int payload_running,
       e_strlist possible_destinations, e_strlist possible_ce_nodes, e_int suspended,
       e_string suspend_reason, e_string failure_reasons, e_int remove_from_proxy,
       e_string ui_host, e_strlist user_fqans, e_int sandbox_retrieved, e_int jw_status,
       e_jobid isb_transfer, e_jobid osb_transfer, e_string payload_owner, e_string pbs_state,
       e_string pbs_queue, e_string pbs_owner, e_string pbs_name, e_string pbs_reason,
       e_string pbs_scheduler, e_string pbs_dest_host, e_int pbs_pid,
       e_taglist pbs_resource_requested, e_taglist pbs_resource_usage, e_int pbs_exit_status,
       e_string pbs_error_desc, e_string condor_status, e_string condor_universe,
       e_string condor_owner, e_string condor_preempting, e_int condor_shadow_pid,
       e_int condor_shadow_exit_status, e_int condor_starter_pid,
       e_int condor_starter_exit_status, e_int condor_job_pid, e_int condor_job_exit_status,
       e_string condor_dest_host, e_string condor_reason, e_string condor_error_desc,
       e_int cream_state, e_string cream_id, e_string cream_owner, e_string cream_endpoint,
       e_string cream_jdl, e_string cream_reason, e_string cream_failure_reason,
       e_string cream_lrms_id, e_string cream_node, e_int cream_done_code,
       e_int cream_exit_code, e_int cream_cancelling, e_int cream_cpu_time,
       e_int cream_jw_status, e_jobid ft_compute_job, e_int ft_sandbox_type, e_string ft_src,
       e_string ft_dest, e_int vm_state, e_string vm_image, e_string vm_require,
       e_string vm_usage, e_string vm_hostname, e_string vm_machine, e_string vm_id,
       e_string vm_name, e_string vm_phy_hostname]"

definition enc_JobStat :: "string \<Rightarrow> 'a edg_wll_JobStat_scheme \<Rightarrow> string res" where
  "enc_JobStat old stat = enc_fields pub_writers stat old"

definition pub_readers :: "(edg_wll_JobStat \<Rightarrow> string \<Rightarrow> (edg_wll_JobStat \<times> string option) res) list" where
  "pub_readers =
      [d_int state_update, d_jobid jobId_update, d_string owner_update, d_int jobtype_update,
       d_jobid parent_job_update, d_string seed_update, d_int children_num_update,
       d_hist children_hist_update, d_string condorId_update, d_string globusId_update,
       d_string localId_update, d_string jdl_update, d_string matched_jdl_update,
       d_string destination_update, d_string condor_jdl_update, d_string rsl_update,
       d_string reason_update, d_string location_update, d_string ce_node_update,
       d_string network_server_update, d_int subjob_failed_update, d_int done_code_update,
       d_int exit_code_update, d_int resubmitted_update, d_int cancelling_update,
       d_string cancelReason_update, d_int cpuTime_update, d_taglist user_tags_update,
       d_timeval stateEnterTime_update, d_timeval lastUpdateTime_update,
       d_intlist stateEnterTimes_update, d_int expectUpdate_update, d_string expectFrom_update,
       d_string acl_update, d_int payload_running_update,
       d_strlist possible_destinations_update, d_strlist possible_ce_nodes_update,
       d_int suspended_update, d_string suspend_reason_update, d_string failure_reasons_update,
       d_int remove_from_proxy_update, d_string ui_host_update, d_strlist user_fqans_update,
       d_int sandbox_retrieved_update, d_int jw_status_update, d_jobid isb_transfer_update,
       d_jobid osb_transfer_update, d_string payload_owner_update, d_string pbs_state_update,
       d_string pbs_queue_update, d_string pbs_owner_update, d_string pbs_name_update,
       d_string pbs_reason_update, d_string pbs_scheduler_update,
       d_string pbs_dest_host_update, d_int pbs_pid_update,
       d_taglist pbs_resource_requested_update, d_taglist pbs_resource_usage_update,
       d_int pbs_exit_status_update, d_string pbs_error_desc_update,
       d_string condor_status_update, d_string condor_universe_update,
       d_string condor_owner_update, d_string condor_preempting_update,
       d_int condor_shadow_pid_update, d_int condor_shadow_exit_status_update,
       d_int condor_starter_pid_update, d_int condor_starter_exit_status_update,
       d_int condor_job_pid_update, d_int condor_job_exit_status_update,
       d_string condor_dest_host_update, d_string condor_reason_update,
       d_string condor_error_desc_update, d_int cream_state_update, d_string cream_id_update,
       d_string cream_owner_update, d_string cream_endpoint_update, d_string cream_jdl_update,
       d_string cream_reason_update, d_string cream_failure_reason_update,
       d_string cream_lrms_id_update, d_string cream_node_update, d_int cream_done_code_update,
       d_int cream_exit_code_update, d_int cream_cancelling_update,
       d_int cream_cpu_time_update, d_int cream_jw_status_update,
       d_jobid ft_compute_job_update, d_int ft_sandbox_type_update, d_string ft_src_update,
       d_string ft_dest_update, d_int vm_state_update, d_string vm_image_update,
       d_string vm_require_update, d_string vm_usage_update, d_string vm_hostname_update,
       d_string vm_machine_update, d_string vm_id_update, d_string vm_name_update,
       d_string vm_phy_hostname_update]"

definition zero_JobStat :: edg_wll_JobStat where
  "zero_JobStat = edg_wll_JobStat.truncate zero_intJobStat"

definition dec_JobStat :: "string \<Rightarrow> (edg_wll_JobStat \<times> string option) res" where
  "dec_JobStat inp = dec_fields pub_readers zero_JobStat (Some inp)"

definition int_writers :: "(intJobStat \<Rightarrow> string \<Rightarrow> string res) list" where
  "int_writers =
      [e_int resubmit_type, e_string last_seqcode, e_string last_cancel_seqcode,
       e_string branch_tag_seqcode, e_string last_branch_seqcode,
       e_string deep_resubmit_seqcode, e_branch_states branch_states,
       e_timeval last_pbs_event_timestamp, e_int pbs_reruning, e_strlist tag_seq_codes,
       e_string payload_owner_pending, e_string payload_owner_unconfirmed]"

definition enc_intJobStat :: "string \<Rightarrow> intJobStat \<Rightarrow> string res" where
  "enc_intJobStat old stat = rbind (enc_JobStat old stat) (enc_fields int_writers stat)"

definition int_readers :: "(intJobStat \<Rightarrow> string \<Rightarrow> (intJobStat \<times> string option) res) list" where
  "int_readers =
      [d_int resubmit_type_update, d_string last_seqcode_update,
       d_string last_cancel_seqcode_update, d_string branch_tag_seqcode_update,
       d_string last_branch_seqcode_update, d_string deep_resubmit_seqcode_update,
       d_branch_states branch_states_update, d_timeval last_pbs_event_timestamp_update,
       d_int pbs_reruning_update, d_strlist tag_seq_codes_update,
       d_string payload_owner_pending_update, d_string payload_owner_unconfirmed_update]"

text \<open>The public part copied into a zero-filled structure.\<close>

definition with_pub :: "edg_wll_JobStat \<Rightarrow> intJobStat" where
  "with_pub pubstat =
     edg_wll_JobStat.extend pubstat
       (intJobStat.fields 0 None None None None None None null_timeval 0 None None None)"

text \<open>Nothing is returned when the text ends within the public part.\<close>

definition dec_intJobStat :: "string \<Rightarrow> (intJobStat option \<times> string option) res" where
  "dec_intJobStat inp =
     rbind (dec_JobStat inp) (\<lambda>(pubstat, tmp_in).
       case tmp_in of
         None \<Rightarrow> Inr (None, None)
       | Some t \<Rightarrow>
           rbind (dec_fields int_readers (with_pub pubstat) (Some t)) (\<lambda>(stat, rest). Inr (Some stat, rest)))"

definition intJobStat_getLastSeqcode :: "intJobStat \<Rightarrow> cstr" where
  "intJobStat_getLastSeqcode intStat = last_seqcode intStat"

definition intJobStat_nullLastSeqcode :: "intJobStat \<Rightarrow> intJobStat" where
  "intJobStat_nullLastSeqcode intStat = intStat\<lparr>last_seqcode := None\<rparr>"

section \<open>What survives storage\<close>

text \<open>
  A status that the text can represent: numbers and times fit the C type \<^verbatim>\<open>int\<close>, identifiers
  are well formed, the announced lengths are not negative.
\<close>

definition storable :: "intJobStat \<Rightarrow> bool" where
  "storable js \<longleftrightarrow>
     list_all in_int
      [state js, jobtype js, children_num js, subjob_failed js, done_code js, exit_code js,
       resubmitted js, cancelling js, cpuTime js, expectUpdate js, payload_running js,
       suspended js, remove_from_proxy js, sandbox_retrieved js, jw_status js, pbs_pid js,
       pbs_exit_status js, condor_shadow_pid js, condor_shadow_exit_status js,
       condor_starter_pid js, condor_starter_exit_status js, condor_job_pid js,
       condor_job_exit_status js, cream_state js, cream_done_code js, cream_exit_code js,
       cream_cancelling js, cream_cpu_time js, cream_jw_status js, ft_sandbox_type js,
       vm_state js, resubmit_type js, pbs_reruning js] \<and>
     list_all jobid_ok [jobId js, parent_job js, isb_transfer js, osb_transfer js, ft_compute_job js] \<and>
     list_all timeval_ok [stateEnterTime js, lastUpdateTime js, last_pbs_event_timestamp js] \<and>
     hist_ok (children_hist js) \<and> intlist_ok (stateEnterTimes js) \<and> branches_ok (branch_states js)"

text \<open>
  The fields that no step writes are cleared, the last number of the children's histogram is
  lost, and the arrays end where their own length or terminator says.
\<close>

definition stored_pub :: "'a edg_wll_JobStat_scheme \<Rightarrow> 'a edg_wll_JobStat_scheme" where
  "stored_pub js =
     js\<lparr>children := None, children_hist := norm_hist (children_hist js),
        stateEnterTimes := norm_intlist (stateEnterTimes js), access_rights := None, history := None,
        pbs_substate := 0, vm_system_halting := 0, vm_manager := None\<rparr>"

definition stored :: "intJobStat \<Rightarrow> intJobStat" where
  "stored js = (stored_pub js)\<lparr>branch_states := norm_branches (branch_states js)\<rparr>"

text \<open>One step of the encoder, undone by one step of the decoder.\<close>

definition reads_back ::
  "('s \<Rightarrow> string \<Rightarrow> string res) \<Rightarrow> ('d \<Rightarrow> string \<Rightarrow> ('d \<times> string option) res) \<Rightarrow> ('d \<Rightarrow> 'd) \<Rightarrow> 's \<Rightarrow> bool" where
  "reads_back e d u s \<longleftrightarrow>
     (\<forall>old out. e s old = Inr out \<longrightarrow> in_long (int (length out)) \<longrightarrow>
        (\<exists>t. out = old @ t \<and> (\<forall>s' rest. d s' (t @ rest) = Inr (u s', Some rest))))"

text \<open>Steps that are undone one after the other take the decoder from one state to another.\<close>

inductive undone ::
  "('s \<Rightarrow> string \<Rightarrow> string res) list \<Rightarrow> ('d \<Rightarrow> string \<Rightarrow> ('d \<times> string option) res) list \<Rightarrow> 's \<Rightarrow> 'd \<Rightarrow> 'd \<Rightarrow> bool"
  where
  undone_Nil: "undone [] [] s d0 d0"
| undone_Cons: "reads_back e d u s \<Longrightarrow> undone es ds s (u d0) d1 \<Longrightarrow> undone (e # es) (d # ds) s d0 d1"

context codec
begin

lemma reads_back_field:
  "ok (get s) \<Longrightarrow> reads_back (put_field enc get) (take_field dec upd) (upd (\<lambda>_. norm (get s))) s"
  unfolding reads_back_def put_field_def take_field_def
proof (intro allI impI)
  fix old out
  assume "ok (get s)" and "enc old (get s) = Inr out" and "in_long (int (length out))"
  from enc_dec [OF this] obtain t where "out = old @ t" and "\<forall>rest. dec (t @ rest) = Inr (norm (get s), Some rest)"
    by blast
  then show "\<exists>t. out = old @ t \<and>
      (\<forall>s' rest. rbind (dec (t @ rest)) (\<lambda>(v, rest). Inr (upd (\<lambda>_. v) s', rest)) =
         Inr (upd (\<lambda>_. norm (get s)) s', Some rest))"
    by auto
qed

end

lemma undone_fields:
  assumes "undone es ds s d0 d1" and "enc_fields es s old = Inr out" and "in_long (int (length out))"
  shows "\<exists>t. out = old @ t \<and> (\<forall>rest. dec_fields ds d0 (Some (t @ rest)) = Inr (d1, Some rest))"
  using assms
proof (induction arbitrary: old rule: undone.induct)
  case (undone_Cons e d u s es ds d0 d1)
  then obtain mid where mid: "e s old = Inr mid" "enc_fields es s mid = Inr out"
    by (auto simp: res_simps)
  from undone_Cons.IH [OF mid(2) undone_Cons.prems(2)] obtain t2
    where t2: "out = mid @ t2" "\<forall>rest. dec_fields ds (u d0) (Some (t2 @ rest)) = Inr (d1, Some rest)"
    by blast
  then have "in_long (int (length mid))" using undone_Cons.prems(2) by (simp add: in_long_def)
  with undone_Cons.hyps(1) mid(1) obtain t1
    where t1: "mid = old @ t1" "\<forall>s' rest. d s' (t1 @ rest) = Inr (u s', Some rest)"
    unfolding reads_back_def by blast
  have "out = old @ (t1 @ t2)" using t1(1) t2(1) by simp
  moreover have "dec_fields (d # ds) d0 (Some ((t1 @ t2) @ rest)) = Inr (d1, Some rest)" for rest
    using t1(2) t2(2) by simp
  ultimately show ?case by blast
qed simp

lemmas undone_steps =
  cint.reads_back_field [THEN undone_Cons] cstring.reads_back_field [THEN undone_Cons]
  cjobid.reads_back_field [THEN undone_Cons] ctimeval.reads_back_field [THEN undone_Cons]
  cstrlist.reads_back_field [THEN undone_Cons] ctaglist.reads_back_field [THEN undone_Cons]
  cbranches.reads_back_field [THEN undone_Cons] cintlist.reads_back_field [THEN undone_Cons]
  chist.reads_back_field [THEN undone_Cons]

lemma undone_to:
  "undone es ds s d0 d1 \<Longrightarrow> d1 = d2 \<Longrightarrow> undone es ds s d0 d2"
  by simp

lemma pub_undone:
  assumes "storable js"
  shows "undone pub_writers pub_readers js zero_JobStat (edg_wll_JobStat.truncate (stored_pub js))"
proof -
  note ok = assms [unfolded storable_def list.pred_inject]
  show ?thesis
    unfolding pub_writers_def pub_readers_def
    by (rule undone_to, ((rule undone_steps, simp only: ok)+, rule undone_Nil), cases js)
      (simp add: zero_JobStat_def zero_intJobStat_def stored_pub_def edg_wll_JobStat.truncate_def)
qed

lemma int_undone:
  assumes "storable js"
  shows "undone int_writers int_readers js (with_pub (edg_wll_JobStat.truncate (stored_pub js))) (stored js)"
proof -
  note ok = assms [unfolded storable_def list.pred_inject]
  show ?thesis
    unfolding int_writers_def int_readers_def
    by (rule undone_to, ((rule undone_steps, simp only: ok)+, rule undone_Nil), cases js)
      (simp add: with_pub_def stored_def stored_pub_def edg_wll_JobStat.defs intJobStat.defs)
qed

lemma enc_intJobStat_undone:
  assumes ok: "storable js" and enc: "enc_intJobStat old js = Inr out" "in_long (int (length out))"
  shows "\<exists>t. out = old @ t \<and> (\<forall>rest. dec_intJobStat (t @ rest) = Inr (Some (stored js), Some rest))"
proof -
  let ?pub = "edg_wll_JobStat.truncate (stored_pub js)"
  obtain mid where pub: "enc_fields pub_writers js old = Inr mid"
    and int: "enc_fields int_writers js mid = Inr out"
    using enc(1) unfolding enc_intJobStat_def enc_JobStat_def by (rule rbind_InrE)
  from undone_fields [OF int_undone [OF ok] int enc(2)] obtain t2 where t2: "out = mid @ t2"
      "\<forall>rest. dec_fields int_readers (with_pub ?pub) (Some (t2 @ rest)) = Inr (stored js, Some rest)"
    by blast
  then have "in_long (int (length mid))" using enc(2) by (simp add: in_long_def)
  from undone_fields [OF pub_undone [OF ok] pub this] obtain t1 where t1: "mid = old @ t1"
      "\<forall>rest. dec_JobStat (t1 @ rest) = Inr (?pub, Some rest)"
    unfolding dec_JobStat_def by blast
  have "out = old @ (t1 @ t2)" using t1(1) t2(1) by simp
  moreover have "dec_intJobStat ((t1 @ t2) @ rest) = Inr (Some (stored js), Some rest)" for rest
    using t1(2) t2(2) by (simp add: dec_intJobStat_def)
  ultimately show ?thesis by blast
qed

section \<open>Round trip and overflow\<close>

text \<open>
  C3. Storing and restoring a status. Whatever status the text can represent, if it has been
  encoded (without the overflow described below) then decoding the appended text, with
  anything behind it, stops exactly at its end and gives the same status, except that the
  list of children, the access rights, the history, the PBS substate and two
  virtual-machine fields are cleared, the last counter of the children's histogram is zero,
  and the arrays are cut at their length or terminator.
\<close>

theorem status_roundtrip:
  assumes "storable js" and "enc_intJobStat old js = Inr out" and "int (length out) < 2 ^ 63"
  shows "\<exists>t. out = old @ t \<and>
    (\<forall>rest. dec_intJobStat (t @ rest) =
       Inr (Some (js\<lparr>children := None,
                     children_hist := map_option (\<lambda>xs. take 12 xs @ [0]) (children_hist js),
                     stateEnterTimes := norm_intlist (stateEnterTimes js),
                     access_rights := None, history := None, pbs_substate := 0,
                     vm_system_halting := 0, vm_manager := None,
                     branch_states := norm_branches (branch_states js)\<rparr>), Some rest))"
proof -
  have "in_long (int (length out))" using assms(3) by (simp add: in_long_def)
  from enc_intJobStat_undone [OF assms(1,2) this] show ?thesis
    by (simp add: stored_def stored_pub_def norm_hist_def)
qed

lemma example_encoded:
  "case enc_intJobStat [] (init_intJobStat\<lparr>state := 11, jobId := Some example_jobid,
        children_hist := Some [12, 0, 0, 0, 0, 0, 0, 0, 0, 0, 0, 0, 7], pbs_substate := 3\<rparr>) of
     Inl _ \<Rightarrow> False | Inr out \<Rightarrow> length out < 1000"
  by code_simp

theorem status_roundtrip_witness:
  "\<exists>t js'. enc_intJobStat [] (init_intJobStat\<lparr>state := 11, jobId := Some example_jobid,
        children_hist := Some [12, 0, 0, 0, 0, 0, 0, 0, 0, 0, 0, 0, 7], pbs_substate := 3\<rparr>) = Inr t \<and>
     dec_intJobStat (t @ ''tail'') = Inr (Some js', Some ''tail'') \<and>
     state js' = 11 \<and> jobId js' = Some example_jobid \<and> pbs_substate js' = 0 \<and>
     children_hist js' = Some [12, 0, 0, 0, 0, 0, 0, 0, 0, 0, 0, 0, 0]"
proof -
  let ?js = "init_intJobStat\<lparr>state := 11, jobId := Some example_jobid,
        children_hist := Some [12, 0, 0, 0, 0, 0, 0, 0, 0, 0, 0, 0, 7], pbs_substate := 3\<rparr>"
  obtain out where out: "enc_intJobStat [] ?js = Inr out" "length out < 1000"
    using example_encoded by (auto split: sum.splits)
  moreover have "storable ?js" by code_simp
  ultimately show ?thesis
    using status_roundtrip [of ?js "[]" out] by (auto dest!: spec [of _ "''tail''"])
qed

text \<open>What has been written when the histogram's turn comes.\<close>

definition status_head :: "string \<Rightarrow> intJobStat \<Rightarrow> string" where
  "status_head old js =
     enc_int (enc_string (enc_jobid (enc_int (enc_string (enc_jobid
       (enc_int old (state js)) (jobId js)) (owner js)) (jobtype js)) (parent_job js)) (seed js)) (children_num js)"

lemma enc_intlist_no_overflow: "enc_intlist old v \<noteq> Inl Heap_overflow"
  by (simp add: enc_intlist_def split: option.split list.split)

text \<open>
  The encoder overruns its buffer exactly when the printed histogram of the children is
  longer than the text in front of it, because the buffer is sized by that text. Encoding
  the initial status into an empty text does.
\<close>

theorem status_encoding_overflow:
  "(enc_intJobStat old js = Inl Heap_overflow) =
     (\<exists>xs. children_hist js = Some xs \<and> 13 \<le> length xs \<and>
           length (status_head old js) < length (join_ints (take 13 xs)))
   \<and> enc_intJobStat [] init_intJobStat = Inl Heap_overflow"
proof (rule conjI)
  have "(enc_intJobStat old js = Inl Heap_overflow) =
      (enc_hist (status_head old js) (children_hist js) = Inl Heap_overflow)"
    by (simp add: enc_intJobStat_def enc_JobStat_def pub_writers_def int_writers_def put_field_def
        status_head_def res_simps enc_intlist_no_overflow)
  also have "\<dots> = (\<exists>xs. children_hist js = Some xs \<and> 13 \<le> length xs \<and>
      length (status_head old js) < length (join_ints (take 13 xs)))"
    by (cases "children_hist js") (auto simp: enc_hist_def enc_int_array_def Let_def)
  finally show "(enc_intJobStat old js = Inl Heap_overflow) =
     (\<exists>xs. children_hist js = Some xs \<and> 13 \<le> length xs \<and>
           length (status_head old js) < length (join_ints (take 13 xs)))" .
  show "enc_intJobStat [] init_intJobStat = Inl Heap_overflow" by code_simp
qed

end
