(* ===== verification/LB_IlMsg.thy ===== *)
theory LB_IlMsg
  imports LB_Prelude
begin

text \<open>
  The messages between the loggers and the server (\<^verbatim>\<open>org.glite.lb.common/src\<close>:
  \<^verbatim>\<open>il_int.c\<close>, \<^verbatim>\<open>il_string.c\<close>, \<^verbatim>\<open>il_msg.c\<close>): a header of 17 bytes with the length, then
  decimal numbers and counted strings. A pointer into a buffer is the rest of the buffer from
  there; reading beyond it is a fault. What the encoders write is compared with what they
  allocate. The theorems: what was encoded is read back through the header and the body, for
  messages and for replies, and which received bytes bring the decoder down.
\<close>

section \<open>Numbers and strings\<close>

abbreviation "NUL \<equiv> CHR 0x00"
abbreviation "LF \<equiv> CHR 0x0A"

definition put_int0 :: "int \<Rightarrow> string" where
  "put_int0 d = snprintf_trunc 32 (show_int d)"

definition put_int :: "int \<Rightarrow> string" where
  "put_int d = put_int0 d @ [LF]"

definition get_int0 :: "string \<Rightarrow> int \<times> string" where
  "get_int0 p = (case scan_int p of None \<Rightarrow> (0, p) | Some (d, r) \<Rightarrow> (d, r))"

definition get_int :: "string \<Rightarrow> (int \<times> string option) res" where
  "get_int p =
     (case get_int0 p of (d, r) \<Rightarrow>
        (case r of
           [] \<Rightarrow> Inl Out_of_bounds
         | c # r' \<Rightarrow> Inr (d, if c \<noteq> LF then None else Some r')))"

definition len_int :: "int \<Rightarrow> int" where
  "len_int d = int (length (put_int d))"

definition put_string :: "string \<Rightarrow> string" where
  "put_string s = put_int0 (int (length s)) @ CHR '' '' # s @ [LF]"

definition len_string :: "string \<Rightarrow> int" where
  "len_string s = len_int (int (length s)) + int (length s) + 1"

text \<open>
  The string (if one was allocated) and the rest (if the string was ended properly). The
  length is taken from the input: for -1 the allocation of no bytes succeeds and the copy of
  \<^verbatim>\<open>(size_t) -1\<close> bytes does not, any other negative size cannot be allocated, and a length
  beyond the end of the buffer reads on behind it.
\<close>

definition get_string :: "string \<Rightarrow> (string option \<times> string option) res" where
  "get_string p =
     (case get_int0 p of (len, r) \<Rightarrow>
        (case r of
           [] \<Rightarrow> Inl Out_of_bounds
         | c # r' \<Rightarrow>
             if c \<noteq> CHR '' '' then Inr (None, None)
             else if len = - 1 then Inl Out_of_bounds
             else if c_int (len + 1) < 0 then Inr (None, None)
             else if nat len \<ge> length r' then Inl Out_of_bounds
             else
               (case drop (nat len) r' of
                  [] \<Rightarrow> Inl Out_of_bounds
                | e # r'' \<Rightarrow> Inr (Some (take (nat len) r'), if e = LF then Some r'' else None))))"

section \<open>Messages and replies\<close>

definition IL_PROTOCOL_MAGIC_WORD :: string where
  "IL_PROTOCOL_MAGIC_WORD = ''michal''"

text \<open>\<^verbatim>\<open>"%16d\n"\<close>\<close>

definition header :: "int \<Rightarrow> string" where
  "header n = replicate (16 - length (show_int n)) (CHR '' '') @ show_int n @ [LF]"

text \<open>A text written into a buffer of the given size (\<^verbatim>\<open>sprintf\<close> also writes the final NUL).\<close>

definition filled :: "int \<Rightarrow> string \<Rightarrow> string res" where
  "filled n s = (if int (length s) \<le> n then Inr s else Inl Heap_overflow)"

definition encode_il_msg :: "string \<Rightarrow> string res" where
  "encode_il_msg event =
     (let len = 17 + len_string IL_PROTOCOL_MAGIC_WORD + len_string event in
      rbind (filled len (header (len - 17) @ [NUL])) (\<lambda>_.
      filled len (take 17 (header (len - 17)) @ put_string IL_PROTOCOL_MAGIC_WORD @ put_string event)))"

definition encode_il_reply :: "int \<Rightarrow> int \<Rightarrow> string \<Rightarrow> string res" where
  "encode_il_reply err_code err_code_min err_msg =
     (let len = 17 + len_int err_code + len_int err_code_min + len_string err_msg in
      rbind (filled len (header (len - 17) @ [NUL])) (\<lambda>_.
      filled len (take 17 (header (len - 17)) @ put_int err_code @ put_int err_code_min @ put_string err_msg)))"

definition c_str :: "string \<Rightarrow> string" where
  "c_str s = takeWhile (\<lambda>c. c \<noteq> NUL) s"

text \<open>The event and the number of bytes taken, or the result -1.\<close>

definition decode_il_msg :: "string \<Rightarrow> (string \<times> nat) option res" where
  "decode_il_msg buf =
     rbind (get_string buf) (\<lambda>(magic, p).
       if (case magic of None \<Rightarrow> False | Some w \<Rightarrow> c_str w \<noteq> IL_PROTOCOL_MAGIC_WORD) then Inr None
       else
         (case p of
            None \<Rightarrow> Inl Assert_fail
          | Some p \<Rightarrow>
              rbind (get_string p) (\<lambda>(event, p).
                (case p of
                   None \<Rightarrow> Inr None
                 | Some p \<Rightarrow> rbind (deref event) (\<lambda>e. Inr (Some (e, length buf - length p)))))))"

definition decode_il_reply :: "string \<Rightarrow> (int \<times> int \<times> string \<times> nat) option res" where
  "decode_il_reply buf =
     rbind (get_int buf) (\<lambda>(maj, p).
     case p of None \<Rightarrow> Inr None | Some p \<Rightarrow>
     rbind (get_int p) (\<lambda>(mnr, p).
     case p of None \<Rightarrow> Inr None | Some p \<Rightarrow>
     rbind (get_string p) (\<lambda>(e, p).
     case p of None \<Rightarrow> Inr None | Some p \<Rightarrow>
     rbind (deref e) (\<lambda>e. Inr (Some (maj, mnr, e, length buf - length p))))))"

text \<open>
  Reading a message from a stream. The reader delivers all the bytes asked for or an error;
  the body gets a terminating NUL. The result is the body with the rest of the stream, or an error.
\<close>

definition read_il_data :: "string \<Rightarrow> (string \<times> string) option" where
  "read_il_data stream =
     (if length stream < 17 then None
      else
        let buf = take 17 stream; text = take 16 buf; rest = drop 17 stream in
        if buf ! 16 \<noteq> LF then None
        else if hd (dropWhile is_digit (dropWhile (\<lambda>c. c = CHR '' '') (text @ [NUL]))) \<noteq> NUL then None
        else
          let len = atoi (c_str text) in
          if len \<le> 0 then None
          else if length rest < nat len then None
          else Some (take (nat len) rest @ [NUL], drop (nat len) rest))"

section \<open>Reading back what was written\<close>

lemma length_show_int:
  assumes "in_int d" shows "length (show_int d) \<le> 11"
proof -
  have "nat d < 10 ^ 10" and "nat (- d) < 10 ^ 10" using assms by (auto simp: in_int_def)
  then have "length (show_nat (nat d)) \<le> 10" and "length (show_nat (nat (- d))) \<le> 10"
    using length_show_nat[of _ 10] by simp_all
  then show ?thesis by (auto simp: show_int_def)
qed

lemma put_int0_show: "in_int d \<Longrightarrow> put_int0 d = show_int d"
  using length_show_int[of d] by (simp add: put_int0_def snprintf_trunc_def)

lemma get_int0_show: "in_int d \<Longrightarrow> no_digit_head r \<Longrightarrow> get_int0 (show_int d @ r) = (d, r)"
  by (simp add: get_int0_def scan_int_show_int)

lemma no_digit_separators [simp]: "\<not> is_digit (CHR '' '')" "\<not> is_digit LF" "\<not> is_digit NUL"
  by (simp_all add: is_digit_def)

lemma get_int_put_int [text_simps]: "in_int d \<Longrightarrow> get_int (put_int d @ r) = Inr (d, Some r)"
  by (simp add: get_int_def put_int_def put_int0_show get_int0_show)

definition short :: "string \<Rightarrow> bool" where
  "short s \<longleftrightarrow> int (length s) < 2147483584"

lemma short_in_int: "short s \<Longrightarrow> in_int (int (length s))"
  and short_in_int1: "short s \<Longrightarrow> in_int (int (length s) + 1)"
  by (simp_all add: short_def in_int_def)

lemma get_string_put_string [text_simps]:
  "short s \<Longrightarrow> get_string (put_string s @ r) = Inr (Some s, Some r)"
  using short_in_int[of s] short_in_int1[of s]
  by (simp add: get_string_def put_string_def put_int0_show get_int0_show)

lemma len_string_length: "len_string s = int (length (put_string s))"
  by (simp add: len_string_def len_int_def put_string_def put_int_def)

lemma len_string_bounds:
  "short s \<Longrightarrow> 2 \<le> len_string s \<and> len_string s \<le> int (length s) + 13"
  using length_show_int[OF short_in_int, of s]
  by (simp add: len_string_length put_string_def put_int0_show short_in_int)

lemma length_header: "in_int n \<Longrightarrow> length (header n) = 17"
  using length_show_int[of n] by (simp add: header_def)

lemma show_int_nonneg_digits: "0 \<le> n \<Longrightarrow> set (show_int n) \<subseteq> Collect is_digit"
  using show_nat_digits by (simp add: show_int_def)

lemma c_str_id: "NUL \<notin> set s \<Longrightarrow> c_str s = s"
  unfolding c_str_def by (rule takeWhile_eq_all_conv[THEN iffD2]) auto

lemma scan_int_spaces: "scan_int (replicate n (CHR '' '') @ s) = scan_int s"
  by (induction n) (simp_all add: scan_int_def scan_long_def isspace_def)

lemma atoi_header:
  assumes "in_int n" and "0 \<le> n"
  shows "atoi (c_str (take 16 (header n))) = n"
proof -
  have t: "take 16 (header n) = replicate (16 - length (show_int n)) (CHR '' '') @ show_int n"
    using length_show_int[OF assms(1)] by (simp add: header_def)
  have "NUL \<notin> set (take 16 (header n))"
    using show_int_nonneg_digits[OF assms(2)] by (auto simp: t)
  then have "c_str (take 16 (header n)) = take 16 (header n)" by (rule c_str_id)
  then show ?thesis
    using scan_int_show_int[OF assms(1), of "[]"] by (simp add: t atoi_def scan_int_spaces)
qed

lemma dropWhile_replicate_append:
  "dropWhile (\<lambda>c. c = x) (replicate n x @ s) = dropWhile (\<lambda>c. c = x) s"
  by (induction n) simp_all

lemma header_checks:
  assumes "in_int n" and "0 \<le> n"
  shows "header n ! 16 = LF"
    and "hd (dropWhile is_digit (dropWhile (\<lambda>c. c = CHR '' '') (take 16 (header n) @ [NUL]))) = NUL"
proof -
  have l: "length (show_int n) \<le> 16" using length_show_int[OF assms(1)] by simp
  show "header n ! 16 = LF" using l by (auto simp: header_def nth_append)
  have d: "set (show_int n) \<subseteq> Collect is_digit" by (rule show_int_nonneg_digits[OF assms(2)])
  obtain c cs where s: "show_int n = c # cs" by (cases "show_int n") auto
  have "c \<noteq> CHR '' ''" using d s by auto
  then have "dropWhile (\<lambda>c. c = CHR '' '') (take 16 (header n) @ [NUL]) = show_int n @ [NUL]"
    using l s by (simp add: header_def dropWhile_replicate_append)
  moreover have "dropWhile is_digit (show_int n @ [NUL]) = [NUL]"
    using d by (subst dropWhile_append2) auto
  ultimately show "hd (dropWhile is_digit (dropWhile (\<lambda>c. c = CHR '' '') (take 16 (header n) @ [NUL]))) = NUL"
    by simp
qed

lemma read_il_data_framed:
  assumes "in_int (int (length body))" and "body \<noteq> []"
  shows "read_il_data (header (int (length body)) @ body @ rest) = Some (body @ [NUL], rest)"
proof -
  let ?n = "int (length body)"
  have l: "length (header ?n) = 17" using assms(1) by (rule length_header)
  have t: "take 16 (header ?n @ body @ rest) = take 16 (header ?n)" using l by simp
  show ?thesis
    using assms l header_checks[OF assms(1)] atoi_header[OF assms(1)] t
    by (simp add: read_il_data_def Let_def)
qed

lemma filled_ok: "int (length s) \<le> n \<Longrightarrow> filled n s = Inr s"
  by (simp add: filled_def)

text \<open>Both encoders write a header for the body that follows and fill their buffer exactly.\<close>

lemma framed_fill:
  assumes "in_int (int (length body))" and "body \<noteq> []" and "n = 17 + int (length body)"
  shows "rbind (filled n (header (n - 17) @ [NUL])) (\<lambda>_. filled n (take 17 (header (n - 17)) @ body)) =
    Inr (header (int (length body)) @ body)"
proof -
  have n: "n - 17 = int (length body)" using assms(3) by simp
  have l: "length (header (int (length body))) = 17" using assms(1) by (rule length_header)
  have "length body \<ge> 1" using assms(2) by (cases body) auto
  then show ?thesis unfolding n using l assms(3) by (simp add: filled_ok)
qed

section \<open>Properties\<close>

lemma il_msg_framed:
  assumes "short event"
  shows "\<exists>w body. encode_il_msg event = Inr w \<and> read_il_data (w @ rest) = Some (body, rest) \<and>
    decode_il_msg body = Inr (Some (event, length body - 1))"
proof -
  let ?body = "put_string IL_PROTOCOL_MAGIC_WORD @ put_string event"
  have sm: "short IL_PROTOCOL_MAGIC_WORD" by (simp add: short_def IL_PROTOCOL_MAGIC_WORD_def)
  have nn: "?body \<noteq> []" by (simp add: put_string_def)
  have len: "int (length ?body) = len_string IL_PROTOCOL_MAGIC_WORD + len_string event"
    by (simp add: len_string_length)
  then have b: "in_int (int (length ?body))"
    using len_string_bounds[OF sm] len_string_bounds[OF assms] assms
    by (simp add: in_int_def short_def IL_PROTOCOL_MAGIC_WORD_def)
  have e: "encode_il_msg event = Inr (header (int (length ?body)) @ ?body)"
    using framed_fill[OF b nn, of "17 + len_string IL_PROTOCOL_MAGIC_WORD + len_string event"] len
    by (simp add: encode_il_msg_def Let_def)
  have "c_str IL_PROTOCOL_MAGIC_WORD = IL_PROTOCOL_MAGIC_WORD"
    by (rule c_str_id) (simp add: IL_PROTOCOL_MAGIC_WORD_def)
  then have "decode_il_msg (?body @ [NUL]) = Inr (Some (event, length ?body))"
    using get_string_put_string[OF sm, of "put_string event @ [NUL]"] get_string_put_string[OF assms, of "[NUL]"]
    by (simp add: decode_il_msg_def)
  then show ?thesis using e read_il_data_framed[OF b nn, of rest] by auto
qed

text \<open>
  An event that is encoded, sent and read on the other side through its header arrives
  as it was, with any bytes in it, the encoder fills its buffer exactly, and what follows the
  message in the stream is left for the next one. The event may have up to
  2147483583 bytes.
\<close>

theorem il_msg_roundtrip:
  assumes "short event"
  shows "\<exists>w body. encode_il_msg event = Inr w \<and> read_il_data (w @ rest) = Some (body, rest) \<and>
    decode_il_msg body = Inr (Some (event, length body - 1))"
  by (rule il_msg_framed[OF assms])

theorem il_msg_roundtrip_witness:
  "\<exists>w body. encode_il_msg ''DG.TYPE=x'' = Inr w \<and> read_il_data (w @ ''next'') = Some (body, ''next'') \<and>
    decode_il_msg body = Inr (Some (''DG.TYPE=x'', length body - 1))"
  by (rule il_msg_roundtrip) (simp add: short_def)

text \<open>
  A reply of the server, its two codes and its text, is read back as it was sent.
\<close>

theorem il_reply_roundtrip:
  assumes "in_int maj" and "in_int mnr" and "short msg"
  shows "\<exists>w body. encode_il_reply maj mnr msg = Inr w \<and> read_il_data (w @ rest) = Some (body, rest) \<and>
    decode_il_reply body = Inr (Some (maj, mnr, msg, length body - 1))"
proof -
  let ?body = "put_int maj @ put_int mnr @ put_string msg"
  have nn: "?body \<noteq> []" by (simp add: put_int_def)
  have len: "int (length ?body) = len_int maj + len_int mnr + len_string msg"
    by (simp add: len_string_length len_int_def)
  moreover have "len_int maj \<le> 12" "len_int mnr \<le> 12"
    using length_show_int assms by (simp_all add: len_int_def put_int_def put_int0_show)
  ultimately have b: "in_int (int (length ?body))"
    using len_string_bounds[OF assms(3)] assms(3) by (simp add: in_int_def short_def)
  have e: "encode_il_reply maj mnr msg = Inr (header (int (length ?body)) @ ?body)"
    using framed_fill[OF b nn, of "17 + len_int maj + len_int mnr + len_string msg"] len
    by (simp add: encode_il_reply_def Let_def add.assoc)
  have "decode_il_reply (?body @ [NUL]) = Inr (Some (maj, mnr, msg, length ?body))"
    using get_int_put_int[OF assms(1), of "put_int mnr @ put_string msg @ [NUL]"]
      get_int_put_int[OF assms(2), of "put_string msg @ [NUL]"] get_string_put_string[OF assms(3), of "[NUL]"]
    by (simp add: decode_il_reply_def)
  then show ?thesis using e read_il_data_framed[OF b nn, of rest] by auto
qed

theorem il_reply_roundtrip_witness:
  "\<exists>w body. encode_il_reply 700 (-3) ''no'' = Inr w \<and> read_il_data (w @ []) = Some (body, []) \<and>
    decode_il_reply body = Inr (Some (700, -3, ''no'', length body - 1))"
  by (rule il_reply_roundtrip) (simp_all add: short_def in_int_def)

text \<open>
  The decoder trusts what comes over the network. A body that does not begin with a number
  stops the process in an assertion, because the magic word is only compared when there is one;
  and after a good magic word, a counted string that claims to be longer than the rest of the
  body is copied from beyond the end of the buffer.
\<close>

theorem decode_il_msg_unchecked:
  "\<not> isspace c \<Longrightarrow> \<not> is_digit c \<Longrightarrow> c \<noteq> CHR ''-'' \<Longrightarrow> c \<noteq> CHR ''+'' \<Longrightarrow>
     in_int n \<Longrightarrow> int (length r') \<le> n \<Longrightarrow> n < 2147483647 \<Longrightarrow>
     decode_il_msg (c # r) = Inl Assert_fail \<and>
     decode_il_msg (put_string IL_PROTOCOL_MAGIC_WORD @ show_int n @ CHR '' '' # r') = Inl Out_of_bounds"
proof
  assume c: "\<not> isspace c" "\<not> is_digit c" "c \<noteq> CHR ''-''" "c \<noteq> CHR ''+''"
  then have "scan_int (c # r) = None"
    by (simp add: scan_int_def scan_long_def scan_unsigned_def)
  moreover have "c \<noteq> CHR '' ''" using c(1) by (auto simp: isspace_def)
  ultimately show "decode_il_msg (c # r) = Inl Assert_fail"
    by (simp add: decode_il_msg_def get_string_def get_int0_def)
next
  assume n: "in_int n" "int (length r') \<le> n" "n < 2147483647"
  have sm: "short IL_PROTOCOL_MAGIC_WORD" by (simp add: short_def IL_PROTOCOL_MAGIC_WORD_def)
  have "in_int (n + 1)" using n by (simp add: in_int_def)
  then have "get_string (show_int n @ CHR '' '' # r') = Inl Out_of_bounds"
    using n by (simp add: get_string_def get_int0_show nat_le_iff[symmetric] le_nat_iff)
  then show "decode_il_msg (put_string IL_PROTOCOL_MAGIC_WORD @ show_int n @ CHR '' '' # r') = Inl Out_of_bounds"
    using get_string_put_string[OF sm, of "show_int n @ CHR '' '' # r'"]
    by (simp add: decode_il_msg_def c_str_id IL_PROTOCOL_MAGIC_WORD_def)
qed

theorem decode_il_msg_unchecked_witness:
  "decode_il_msg (CHR ''x'' # [NUL]) = Inl Assert_fail \<and>
   decode_il_msg (put_string IL_PROTOCOL_MAGIC_WORD @ show_int 1000 @ CHR '' '' # [NUL]) = Inl Out_of_bounds"
  by (rule decode_il_msg_unchecked) (simp_all add: isspace_def is_digit_def in_int_def)

end
