(* ===== verification/LB_Ring.thy ===== *)
theory LB_Ring
  imports Main
begin

text \<open>
  Circular doubly linked lists, seen as two partial maps on addresses, \<open>P\<close> for the pointer
  to the following and \<open>N\<close> for the pointer to the preceding cell. A list of addresses is a
  ring when each is linked with the next and the last with the first; rings are closed
  under rotation, under linking a new cell in and under linking a cell out.
\<close>

text \<open>A list of natesses linked through both pointers, and closed into a ring.\<close>

fun chain :: "(nat \<rightharpoonup> nat) \<Rightarrow> (nat \<rightharpoonup> nat) \<Rightarrow> nat list \<Rightarrow> bool" where
  "chain P N (a # b # xs) \<longleftrightarrow> P a = Some b \<and> N b = Some a \<and> chain P N (b # xs)"
| "chain P N _ \<longleftrightarrow> True"

definition ring :: "(nat \<rightharpoonup> nat) \<Rightarrow> (nat \<rightharpoonup> nat) \<Rightarrow> nat list \<Rightarrow> bool" where
  "ring P N as \<longleftrightarrow> distinct as \<and> (as \<noteq> [] \<longrightarrow> chain P N (as @ [hd as]))"

lemma chain_append:
  "chain P N (xs @ a # ys) \<longleftrightarrow> chain P N (xs @ [a]) \<and> chain P N (a # ys)"
proof (induction xs)
  case Nil
  then show ?case by (cases ys) simp_all
next
  case (Cons x xs)
  then show ?case by (cases xs) auto
qed

lemma chain_appendI: "chain P N (xs @ [a]) \<Longrightarrow> chain P N (a # ys) \<Longrightarrow> chain P N (xs @ a # ys)"
  by (subst chain_append) simp

lemma chain_appendD:
  assumes "chain P N (xs @ a # ys)"
  shows "chain P N (xs @ [a])" and "chain P N (a # ys)"
  using chain_append[of P N xs a ys] assms by blast+

lemma chain_cong:
  assumes "chain P N xs"
    and "\<And>a. a \<in> set (butlast xs) \<Longrightarrow> P' a = P a"
    and "\<And>a. a \<in> set (tl xs) \<Longrightarrow> N' a = N a"
  shows "chain P' N' xs"
  using assms
proof (induction P N xs rule: chain.induct)
  case (1 P N a b xs)
  then show ?case by (cases xs) auto
qed simp_all

lemma ring_rotate1: "ring P N (a # xs) \<Longrightarrow> ring P N (xs @ [a])"
proof (cases xs)
  case (Cons b ys)
  assume "ring P N (a # xs)"
  then have "chain P N (a # b # ys @ [a])" and "distinct (a # xs)" by (simp_all add: ring_def Cons)
  moreover have "chain P N ((b # ys) @ a # [b])"
    by (rule chain_appendI) (use calculation(1) in simp_all)
  ultimately show ?thesis by (simp add: ring_def Cons)
qed simp

lemma ring_rotate: "ring P N (xs @ ys) \<longleftrightarrow> ring P N (ys @ xs)"
proof -
  have *: "ring P N (xs @ ys) \<Longrightarrow> ring P N (ys @ xs)" for xs ys
  proof (induction xs arbitrary: ys)
    case (Cons a xs)
    from ring_rotate1[of P N a "xs @ ys"] Cons.prems have "ring P N (xs @ (ys @ [a]))" by simp
    from Cons.IH[OF this] show ?case by simp
  qed simp
  show ?thesis using *[of xs ys] *[of ys xs] by blast
qed

lemma ring_step:
  assumes "ring P N (xs @ a # b # ys)"
  shows "P a = Some b" and "N b = Some a"
proof -
  from assms have "ring P N ((a # b # ys) @ xs)" using ring_rotate by blast
  then show "P a = Some b" and "N b = Some a" by (simp_all add: ring_def)
qed

lemma ring_closed:
  assumes "ring P N as" and "as \<noteq> []"
  shows "P (last as) = Some (hd as)" and "N (hd as) = Some (last as)"
proof -
  from assms(2) obtain xs l where as: "as = xs @ [l]" by (cases as rule: rev_cases) auto
  with assms have "chain P N (xs @ l # [hd as])" by (simp add: ring_def)
  then have "chain P N (l # [hd as])" by (rule chain_appendD)
  with as show "P (last as) = Some (hd as)" and "N (hd as) = Some (last as)" by simp_all
qed

lemma ring_cong:
  assumes "ring P N as" and "\<And>a. a \<in> set as \<Longrightarrow> P' a = P a" and "\<And>a. a \<in> set as \<Longrightarrow> N' a = N a"
  shows "ring P' N' as"
proof (cases as)
  case (Cons a xs)
  with assms(1) have "chain P N (as @ [hd as])" by (simp add: ring_def)
  then have "chain P' N' (as @ [hd as])"
    by (rule chain_cong) (use assms(2,3) Cons in \<open>auto simp: butlast_append dest: in_set_butlastD\<close>)
  with assms(1) show ?thesis by (simp add: ring_def)
qed (simp add: ring_def)

lemma ring_append:
  assumes "ring P N (xs @ [l])" and "el \<notin> set (xs @ [l])"
  shows "ring (P(el \<mapsto> hd (xs @ [l]), l \<mapsto> el)) (N(el \<mapsto> l, hd (xs @ [l]) \<mapsto> el)) (xs @ [l, el])"
proof -
  let ?h = "hd (xs @ [l])"
  let ?P = "P(el \<mapsto> ?h, l \<mapsto> el)" and ?N = "N(el \<mapsto> l, ?h \<mapsto> el)"
  from assms(1) have d: "distinct (xs @ [l])" and "chain P N (xs @ l # [?h])"
    by (simp_all add: ring_def)
  then have "chain P N (xs @ [l])" by (blast dest: chain_appendD)
  then have "chain ?P ?N (xs @ [l])"
  proof (rule chain_cong)
    fix a assume "a \<in> set (butlast (xs @ [l]))"
    then show "?P a = P a" using d assms(2) by auto
  next
    fix a assume a: "a \<in> set (tl (xs @ [l]))"
    then have "a \<noteq> ?h" using d by (cases xs) auto
    moreover have "a \<noteq> el" using a assms(2) by (cases xs) auto
    ultimately show "?N a = N a" by simp
  qed
  moreover have "chain ?P ?N (l # [el, ?h])"
  proof -
    have "el \<noteq> ?h" using assms(2) by (cases xs) auto
    then show ?thesis using assms(2) by auto
  qed
  ultimately have "chain ?P ?N (xs @ l # [el, ?h])" by (rule chain_appendI)
  moreover have "hd (xs @ [l, el]) = ?h" by (cases xs) simp_all
  ultimately show ?thesis using d assms(2) by (simp add: ring_def)
qed

lemma ring_drop_first:
  assumes "ring P N (el # ys)" and "ys \<noteq> []"
  shows "ring (P(last ys \<mapsto> hd ys)) (N(hd ys \<mapsto> last ys)) ys"
proof -
  from assms(2) obtain zs l where ys: "ys = zs @ [l]" by (cases ys rule: rev_cases) auto
  let ?P = "P(last ys \<mapsto> hd ys)" and ?N = "N(hd ys \<mapsto> last ys)"
  from assms(1) have d: "distinct (el # ys)" and "chain P N (el # ys @ [el])" by (simp_all add: ring_def)
  then have "chain P N ((el # zs) @ l # [el])" by (simp add: ys)
  then have "chain P N ((el # zs) @ [l])" by (rule chain_appendD)
  then have "chain P N (el # ys)" by (simp add: ys)
  then have "chain P N ys" using assms(2) by (cases ys) simp_all
  then have "chain ?P ?N (zs @ [l])"
    unfolding ys[symmetric]
    by (rule chain_cong) (use d assms(2) ys in \<open>auto, cases zs, auto\<close>)
  moreover have "chain ?P ?N (l # [hd ys])" by (simp add: ys)
  ultimately have "chain ?P ?N (zs @ l # [hd ys])" by (rule chain_appendI)
  then show ?thesis using d by (simp add: ring_def ys)
qed

end
