(* ===== verification/LB_EventQueue.thy ===== *)
theory LB_EventQueue
  imports LB_Prelude LB_Ring
begin

text \<open>
  The event queues of the interlogger (\<^verbatim>\<open>org.glite.lb.logger/src/event_queue.c\<close>): a circular
  doubly linked list of messages per destination, delivered by several threads. The cells
  live in a heap that all queues share; following \<^verbatim>\<open>prev\<close> from the head gives the order of
  delivery. Every function body runs under the queue's lock, so an operation is one step.
  Reading a freed cell faults, and so does a loop that does not come to its end.

  The lists are related to the heap by \<open>represents\<close>, the operations are shown to implement
  operations on lists, and from there follows that the threads deliver the messages of
  every job in the order of their insertion.
\<close>

section \<open>Cells and queues\<close>

type_synonym addr = nat

text \<open>Of a message the fields that queues and event stores use.\<close>

record server_msg =
  job_id_s :: string
  msg_bytes :: string
  msg_len :: int
  ev_len :: int
  receipt_to :: int
  msg_offset :: int
  msg_generation :: int
  msg_expires :: int

definition server_msg_is_priority :: "server_msg \<Rightarrow> bool" where
  "server_msg_is_priority msg \<longleftrightarrow> receipt_to msg \<noteq> 0"

record event_queue_msg =
  cell_msg :: server_msg
  cell_prev :: addr
  cell_next :: addr
  cell_eq :: nat

type_synonym heap = "addr \<Rightarrow> event_queue_msg option"

record queue_thread =
  qt_current :: "addr option"
  qt_jobid :: "string option"

record event_queue =
  eq_head :: "addr option"
  tail_ems :: "addr option"
  cur_len :: int
  max_len :: int
  times_empty :: int
  throttling :: bool
  eq_threads :: "queue_thread list"

definition rd :: "heap \<Rightarrow> addr \<Rightarrow> event_queue_msg res" where
  "rd h a = (case h a of None \<Rightarrow> Inl Use_after_free | Some c \<Rightarrow> Inr c)"

definition wr :: "heap \<Rightarrow> addr \<Rightarrow> (event_queue_msg \<Rightarrow> event_queue_msg) \<Rightarrow> heap res" where
  "wr h a f = rbind (rd h a) (\<lambda>c. Inr (h(a \<mapsto> f c)))"

text \<open>\<^verbatim>\<open>el->next->prev = el; el->prev->next = el\<close>\<close>

definition link_in :: "heap \<Rightarrow> addr \<Rightarrow> heap res" where
  "link_in h el =
     rbind (rd h el) (\<lambda>c.
     rbind (wr h (cell_next c) (\<lambda>d. d\<lparr>cell_prev := el\<rparr>)) (\<lambda>h.
     rbind (rd h el) (\<lambda>c.
     wr h (cell_prev c) (\<lambda>d. d\<lparr>cell_next := el\<rparr>))))"

text \<open>\<^verbatim>\<open>el->next->prev = el->prev; el->prev->next = el->next\<close>\<close>

definition link_out :: "heap \<Rightarrow> addr \<Rightarrow> heap res" where
  "link_out h el =
     rbind (rd h el) (\<lambda>c.
     rbind (wr h (cell_next c) (\<lambda>d. d\<lparr>cell_prev := cell_prev c\<rparr>)) (\<lambda>h.
     rbind (rd h el) (\<lambda>c.
     wr h (cell_prev c) (\<lambda>d. d\<lparr>cell_next := cell_next c\<rparr>))))"

text \<open>A comparison of a length with a limit of type \<^verbatim>\<open>size_t\<close>.\<close>

definition as_size :: "int \<Rightarrow> int" where
  "as_size x = x mod 2 ^ 64"

section \<open>Operations\<close>

definition event_queue_empty :: "event_queue \<Rightarrow> bool" where
  "event_queue_empty q \<longleftrightarrow> eq_head q = None"

definition count_in :: "event_queue \<Rightarrow> event_queue" where
  "count_in q =
     (let q = q\<lparr>cur_len := cur_len q + 1\<rparr> in
      if cur_len q > max_len q then q\<lparr>max_len := cur_len q\<rparr> else q)"

text \<open>
  The address \<open>el\<close> is what the allocation returns. The result is 1 when the queue throttles,
  0 when the message is in.
\<close>

definition event_queue_insert ::
  "nat \<Rightarrow> nat \<Rightarrow> addr \<Rightarrow> server_msg \<Rightarrow> heap \<times> event_queue \<Rightarrow> (int \<times> heap \<times> event_queue) res" where
  "event_queue_insert queue_size_high k el msg s =
     (case s of (h, q) \<Rightarrow>
      if queue_size_high > 0 \<and> (as_size (cur_len q) \<ge> int queue_size_high \<or> throttling q)
      then Inr (1, h, q\<lparr>throttling := True\<rparr>)
      else
        (case eq_head q of
           None \<Rightarrow>
             Inr (0, h(el \<mapsto> \<lparr>cell_msg = msg, cell_prev = el, cell_next = el, cell_eq = k\<rparr>),
                  count_in (q\<lparr>eq_head := Some el, tail_ems := Some el\<rparr>))
         | Some front \<Rightarrow>
             if server_msg_is_priority msg then
               rbind (deref (tail_ems q)) (\<lambda>t.
               rbind (rd h t) (\<lambda>ct.
               rbind (link_in
                  (h(el \<mapsto> \<lparr>cell_msg = msg, cell_prev = t, cell_next = cell_next ct, cell_eq = k\<rparr>)) el) (\<lambda>h.
               Inr (0, h, count_in (q\<lparr>eq_head := (if front = t then Some el else Some front)\<rparr>)))))
             else
               rbind (rd h front) (\<lambda>c.
               rbind (link_in
                  (h(el \<mapsto> \<lparr>cell_msg = msg, cell_prev = front, cell_next = cell_next c, cell_eq = k\<rparr>)) el) (\<lambda>h.
               Inr (0, h, count_in q)))))"

text \<open>Whether a thread other than \<open>me\<close> is working on the job.\<close>

definition busy_elsewhere :: "queue_thread list \<Rightarrow> nat \<Rightarrow> string \<Rightarrow> bool" where
  "busy_elsewhere ts me j = list_ex (\<lambda>i. i \<noteq> me \<and> qt_jobid (ts ! i) = Some j) [0..<length ts]"

fun search_free :: "nat \<Rightarrow> heap \<Rightarrow> queue_thread list \<Rightarrow> nat \<Rightarrow> addr \<Rightarrow> addr \<Rightarrow> addr option res" where
  "search_free 0 h ts me front el = Inl Diverges"
| "search_free (Suc fuel) h ts me front el =
     rbind (rd h el) (\<lambda>c.
       if \<not> busy_elsewhere ts me (job_id_s (cell_msg c)) then Inr (Some el)
       else if cell_prev c = front then Inr None
       else search_free fuel h ts me front (cell_prev c))"

definition set_thread :: "nat \<Rightarrow> queue_thread \<Rightarrow> event_queue \<Rightarrow> event_queue" where
  "set_thread me t q = q\<lparr>eq_threads := (eq_threads q)[me := t]\<rparr>"

definition idle_thread :: queue_thread where
  "idle_thread = \<lparr>qt_current = None, qt_jobid = None\<rparr>"

text \<open>
  \<open>want\<close> tells whether the caller passes a place for the message; without it the threads
  only ask. The bound on the loop is the number of messages.
\<close>

definition event_queue_get ::
  "nat \<Rightarrow> bool \<Rightarrow> heap \<times> event_queue \<Rightarrow> (addr option \<times> heap \<times> event_queue) res" where
  "event_queue_get me want s =
     (case s of (h, q0) \<Rightarrow>
      let q = (if qt_jobid (eq_threads q0 ! me) \<noteq> None then set_thread me idle_thread q0 else q0) in
      case eq_head q of
        None \<Rightarrow> Inr (None, h, q)
      | Some front \<Rightarrow>
          rbind (search_free (nat (cur_len q)) h (eq_threads q) me front front) (\<lambda>found.
            case found of
              None \<Rightarrow> Inr (None, h, q)
            | Some el \<Rightarrow>
                if want then
                  rbind (rd h el) (\<lambda>c.
                    Inr (Some el, h, set_thread me
                      \<lparr>qt_current = Some el, qt_jobid = Some (job_id_s (cell_msg c))\<rparr> q))
                else Inr (Some el, h, q)))"

definition unlink :: "addr \<Rightarrow> heap \<times> event_queue \<Rightarrow> (heap \<times> event_queue) res" where
  "unlink el s =
     (case s of (h, q) \<Rightarrow>
      rbind (rd h el) (\<lambda>c.
        if cell_prev c = el then Inr (h, q\<lparr>eq_head := None, tail_ems := None\<rparr>)
        else
          rbind (link_out h el) (\<lambda>h.
            Inr (h, q\<lparr>eq_head := (if eq_head q = Some el then Some (cell_prev c) else eq_head q),
                       tail_ems := (if tail_ems q = Some el then Some (cell_prev c) else tail_ems q)\<rparr>))))"

definition unthrottle :: "nat \<Rightarrow> event_queue \<Rightarrow> event_queue" where
  "unthrottle queue_size_low q =
     (if as_size (cur_len q) \<le> int queue_size_low then q\<lparr>throttling := False\<rparr> else q)"

definition event_queue_remove ::
  "nat \<Rightarrow> nat \<Rightarrow> nat \<Rightarrow> heap \<times> event_queue \<Rightarrow> (int \<times> heap \<times> event_queue) res" where
  "event_queue_remove queue_size_low k me s =
     (case s of (h, q0) \<Rightarrow>
      case qt_current (eq_threads q0 ! me) of
        None \<Rightarrow> Inr (- 1, h, q0)
      | Some el \<Rightarrow>
          let q = set_thread me idle_thread q0 in
          rbind (rd h el) (\<lambda>c.
            if cell_eq c = k then
              rbind (unlink el (h, q)) (\<lambda>(h, q).
                let q = q\<lparr>cur_len := cur_len q - 1\<rparr>;
                    q = (if cur_len q = 0 then q\<lparr>times_empty := times_empty q + 1\<rparr> else q)
                in Inr (0, h(el := None), unthrottle queue_size_low q))
            else Inr (0, h, q)))"

section \<open>What the pointer surgery does\<close>

text \<open>The fields of the cells of a heap, seen as maps from addresses.\<close>

definition pv :: "heap \<Rightarrow> addr \<rightharpoonup> addr" where
  "pv h a = map_option cell_prev (h a)"

definition nx :: "heap \<Rightarrow> addr \<rightharpoonup> addr" where
  "nx h a = map_option cell_next (h a)"

definition ms :: "heap \<Rightarrow> addr \<rightharpoonup> server_msg" where
  "ms h a = map_option cell_msg (h a)"

definition qe :: "heap \<Rightarrow> addr \<rightharpoonup> nat" where
  "qe h a = map_option cell_eq (h a)"

definition msg_at :: "heap \<Rightarrow> addr \<Rightarrow> server_msg" where
  "msg_at h a = the (ms h a)"

lemmas field_defs = pv_def nx_def ms_def qe_def

lemma heap_dom:
  "qe h a = Some k \<Longrightarrow> \<exists>c. h a = Some c \<and> cell_eq c = k"
  by (auto simp: qe_def)

lemma link_in_effect:
  assumes "h el = Some c" and "cell_prev c \<noteq> el" and "cell_next c \<noteq> el"
    and "h (cell_prev c) \<noteq> None" and "h (cell_next c) \<noteq> None"
  obtains h' where "link_in h el = Inr h'"
    and "pv h' = (pv h)(cell_next c \<mapsto> el)" and "nx h' = (nx h)(cell_prev c \<mapsto> el)"
    and "ms h' = ms h" and "qe h' = qe h"
    and "\<And>a. a \<noteq> cell_prev c \<Longrightarrow> a \<noteq> cell_next c \<Longrightarrow> h' a = h a"
proof -
  obtain cn where cn: "h (cell_next c) = Some cn" using assms(5) by blast
  let ?h1 = "h(cell_next c \<mapsto> cn\<lparr>cell_prev := el\<rparr>)"
  obtain cp where cp: "?h1 (cell_prev c) = Some cp" using assms(4) by (cases "cell_prev c = cell_next c") auto
  let ?h2 = "?h1(cell_prev c \<mapsto> cp\<lparr>cell_next := el\<rparr>)"
  have "link_in h el = Inr ?h2"
    using assms(1,3) cn cp by (simp add: link_in_def rd_def wr_def del: fun_upd_apply) (simp add: rd_def)
  moreover have "pv ?h2 = (pv h)(cell_next c \<mapsto> el)" "nx ?h2 = (nx h)(cell_prev c \<mapsto> el)"
    "ms ?h2 = ms h" "qe ?h2 = qe h"
    using cn cp by (auto simp: field_defs fun_eq_iff split: if_splits)
  moreover have "\<And>a. a \<noteq> cell_prev c \<Longrightarrow> a \<noteq> cell_next c \<Longrightarrow> ?h2 a = h a" by simp
  ultimately show ?thesis using that by blast
qed

lemma link_out_effect:
  assumes "h el = Some c" and "cell_prev c \<noteq> el" and "cell_next c \<noteq> el"
    and "h (cell_prev c) \<noteq> None" and "h (cell_next c) \<noteq> None"
  obtains h' where "link_out h el = Inr h'"
    and "pv h' = (pv h)(cell_next c \<mapsto> cell_prev c)" and "nx h' = (nx h)(cell_prev c \<mapsto> cell_next c)"
    and "ms h' = ms h" and "qe h' = qe h"
    and "\<And>a. a \<noteq> cell_prev c \<Longrightarrow> a \<noteq> cell_next c \<Longrightarrow> h' a = h a"
proof -
  obtain cn where cn: "h (cell_next c) = Some cn" using assms(5) by blast
  let ?h1 = "h(cell_next c \<mapsto> cn\<lparr>cell_prev := cell_prev c\<rparr>)"
  obtain cp where cp: "?h1 (cell_prev c) = Some cp" using assms(4) by (cases "cell_prev c = cell_next c") auto
  let ?h2 = "?h1(cell_prev c \<mapsto> cp\<lparr>cell_next := cell_next c\<rparr>)"
  have "link_out h el = Inr ?h2"
    using assms(1,3) cn cp by (simp add: link_out_def rd_def wr_def del: fun_upd_apply) (simp add: rd_def)
  moreover have "pv ?h2 = (pv h)(cell_next c \<mapsto> cell_prev c)" "nx ?h2 = (nx h)(cell_prev c \<mapsto> cell_next c)"
    "ms ?h2 = ms h" "qe ?h2 = qe h"
    using cn cp by (auto simp: field_defs fun_eq_iff split: if_splits)
  moreover have "\<And>a. a \<noteq> cell_prev c \<Longrightarrow> a \<noteq> cell_next c \<Longrightarrow> ?h2 a = h a" by simp
  ultimately show ?thesis using that by blast
qed

section \<open>The queue as a list\<close>

definition represents :: "nat \<Rightarrow> heap \<times> event_queue \<Rightarrow> addr list \<Rightarrow> bool" where
  "represents k s as \<longleftrightarrow>
     (case s of (h, q) \<Rightarrow>
        ring (pv h) (nx h) as \<and> (\<forall>a\<in>set as. qe h a = Some k) \<and>
        eq_head q = (if as = [] then None else Some (hd as)) \<and>
        (case tail_ems q of None \<Rightarrow> as = [] | Some t \<Rightarrow> t \<in> set as) \<and>
        cur_len q = int (length as))"

definition insert_before :: "addr \<Rightarrow> addr \<Rightarrow> addr list \<Rightarrow> addr list" where
  "insert_before t el as = takeWhile (\<lambda>a. a \<noteq> t) as @ el # dropWhile (\<lambda>a. a \<noteq> t) as"

definition list_insert :: "addr option \<Rightarrow> server_msg \<Rightarrow> addr \<Rightarrow> addr list \<Rightarrow> addr list" where
  "list_insert t msg el as =
     (case t of
        None \<Rightarrow> [el]
      | Some t \<Rightarrow> if server_msg_is_priority msg then insert_before t el as else as @ [el])"

definition throttled :: "nat \<Rightarrow> event_queue \<Rightarrow> bool" where
  "throttled queue_size_high q \<longleftrightarrow>
     queue_size_high > 0 \<and> (as_size (cur_len q) \<ge> int queue_size_high \<or> throttling q)"

lemma representsD:
  assumes "represents k (h, q) as"
  shows "ring (pv h) (nx h) as" and "\<And>a. a \<in> set as \<Longrightarrow> \<exists>c. h a = Some c \<and> cell_eq c = k"
    and "eq_head q = (if as = [] then None else Some (hd as))"
    and "as = [] \<Longrightarrow> tail_ems q = None"
    and "as \<noteq> [] \<Longrightarrow> \<exists>t. tail_ems q = Some t \<and> t \<in> set as"
    and "cur_len q = int (length as)" and "distinct as"
  using assms heap_dom[of h] by (auto simp: represents_def ring_def split: option.splits)

lemma represents_split:
  assumes "represents k (h, q) (xs @ a # ys)"
  obtains c where "h a = Some c" and "cell_eq c = k"
    and "cell_prev c = hd (ys @ xs @ [a])" and "cell_next c = last (a # ys @ xs)"
proof -
  note D = representsD[OF assms]
  obtain c where c: "h a = Some c" "cell_eq c = k" using D(2) by auto
  have r: "ring (pv h) (nx h) (a # ys @ xs)" using D(1) ring_rotate[of _ _ xs "a # ys"] by simp
  from ring_closed(2)[OF this] have "cell_next c = last (a # ys @ xs)" using c by (simp add: nx_def)
  moreover have "cell_prev c = hd (ys @ xs @ [a])"
  proof (cases "ys @ xs")
    case Nil
    then show ?thesis using r c by (simp add: ring_def pv_def)
  next
    case (Cons b zs)
    then show ?thesis using r c by (cases ys) (auto simp: ring_def pv_def)
  qed
  ultimately show ?thesis using that c by blast
qed

lemma ring_insert:
  assumes "ring (pv h) (nx h) (xs @ t # ys)" and fresh: "el \<notin> set (xs @ t # ys)"
    and "\<And>a. a \<in> set (xs @ t # ys) \<Longrightarrow> h a \<noteq> None"
    and "nx h t = Some n"
  obtains h' where
    "link_in (h(el \<mapsto> \<lparr>cell_msg = m, cell_prev = t, cell_next = n, cell_eq = k\<rparr>)) el = Inr h'"
    and "ring (pv h') (nx h') (xs @ el # t # ys)"
    and "ms h' = (ms h)(el \<mapsto> m)" and "qe h' = (qe h)(el \<mapsto> k)"
    and "\<And>a. a \<notin> set (el # xs @ t # ys) \<Longrightarrow> h' a = h a"
proof -
  let ?c = "\<lparr>cell_msg = m, cell_prev = t, cell_next = n, cell_eq = k\<rparr>"
  let ?h = "h(el \<mapsto> ?c)"
  obtain zs where zs: "t # ys @ xs = zs @ [last (t # ys @ xs)]"
    by (metis append_butlast_last_id list.distinct(1))
  have r: "ring (pv h) (nx h) (t # ys @ xs)" using assms(1) ring_rotate[of _ _ xs "t # ys"] by simp
  have n: "n = last (t # ys @ xs)" using ring_closed(2)[OF r] assms(4) by simp
  have ns: "n \<in> set (xs @ t # ys)"
    using last_in_set[of "t # ys @ xs"] unfolding n by auto
  have "?h el = Some ?c" by simp
  moreover have "cell_prev ?c \<noteq> el" "cell_next ?c \<noteq> el" using fresh ns by auto
  moreover have "?h (cell_prev ?c) \<noteq> None" "?h (cell_next ?c) \<noteq> None"
    using assms(3)[of t] assms(3)[OF ns] by auto
  ultimately obtain h' where h': "link_in ?h el = Inr h'"
    "pv h' = (pv ?h)(n \<mapsto> el)" "nx h' = (nx ?h)(t \<mapsto> el)" "ms h' = ms ?h" "qe h' = qe ?h"
    "\<And>a. a \<noteq> t \<Longrightarrow> a \<noteq> n \<Longrightarrow> h' a = ?h a"
    by (rule link_in_effect) (simp del: fun_upd_apply)
  have m: "ms ?h = (ms h)(el \<mapsto> m)" "qe ?h = (qe h)(el \<mapsto> k)"
    "pv ?h = (pv h)(el \<mapsto> t)" "nx ?h = (nx h)(el \<mapsto> n)"
    by (auto simp: field_defs)
  have "ring ((pv h)(el \<mapsto> hd (zs @ [n]), n \<mapsto> el)) ((nx h)(el \<mapsto> n, hd (zs @ [n]) \<mapsto> el)) (zs @ [n, el])"
  proof (rule ring_append)
    show "ring (pv h) (nx h) (zs @ [n])" using r zs n by simp
    have "set (zs @ [n]) = set (t # ys @ xs)" using zs n by simp
    then show "el \<notin> set (zs @ [n])" using fresh by auto
  qed
  moreover have "hd (zs @ [n]) = t" using zs n by (metis list.sel(1))
  moreover have "zs @ [n, el] = (t # ys) @ (xs @ [el])" using zs n by simp
  ultimately have "ring (pv h') (nx h') ((xs @ [el]) @ (t # ys))"
    unfolding h' m using ring_rotate by metis
  moreover have "h' a = h a" if "a \<notin> set (el # xs @ t # ys)" for a
    using h'(6)[of a] that ns by auto
  ultimately show ?thesis using that[OF h'(1)] h'(4,5) m by simp
qed


lemma count_in_simps [simp]:
  "eq_head (count_in q) = eq_head q" "tail_ems (count_in q) = tail_ems q"
  "cur_len (count_in q) = cur_len q + 1" "throttling (count_in q) = throttling q"
  "eq_threads (count_in q) = eq_threads q"
  by (simp_all add: count_in_def Let_def)

lemma takeWhile_dropWhile_at:
  "t \<notin> set xs \<Longrightarrow> takeWhile (\<lambda>a. a \<noteq> t) (xs @ t # ys) = xs"
  "t \<notin> set xs \<Longrightarrow> dropWhile (\<lambda>a. a \<noteq> t) (xs @ t # ys) = t # ys"
  by (induction xs) auto

lemma list_insert_hd:
  "as \<noteq> [] \<Longrightarrow> t \<in> set as \<Longrightarrow>
     hd (insert_before t el as) = (if hd as = t then el else hd as)"
  by (cases as) (auto simp: insert_before_def)

lemma insert_refines:
  assumes rep: "represents k (h, q) as" and fresh: "h el = None" and "\<not> throttled hi q"
  obtains h' q' where "event_queue_insert hi k el msg (h, q) = Inr (0, h', q')"
    and "represents k (h', q') (list_insert (tail_ems q) msg el as)"
    and "ms h' = (ms h)(el \<mapsto> msg)" and "qe h' = (qe h)(el \<mapsto> k)"
    and "\<And>a. a \<notin> set (el # as) \<Longrightarrow> h' a = h a"
    and "eq_threads q' = eq_threads q"
proof -
  note D = representsD[OF rep]
  have nt: "\<not> (hi > 0 \<and> (as_size (cur_len q) \<ge> int hi \<or> throttling q))"
    using assms(3) by (simp add: throttled_def)
  show ?thesis
  proof (cases "as = []")
    case True
    let ?h = "h(el \<mapsto> \<lparr>cell_msg = msg, cell_prev = el, cell_next = el, cell_eq = k\<rparr>)"
    let ?q = "count_in (q\<lparr>eq_head := Some el, tail_ems := Some el\<rparr>)"
    have "event_queue_insert hi k el msg (h, q) = Inr (0, ?h, ?q)"
      using D(3) True nt by (simp add: event_queue_insert_def)
    moreover have "represents k (?h, ?q) (list_insert (tail_ems q) msg el as)"
      using D(4,6) True by (simp add: represents_def ring_def list_insert_def field_defs)
    moreover have "ms ?h = (ms h)(el \<mapsto> msg)" "qe ?h = (qe h)(el \<mapsto> k)"
      by (auto simp: field_defs)
    ultimately show ?thesis using that by simp
  next
    case False
    then obtain t where t: "tail_ems q = Some t" "t \<in> set as" using D(5) by blast
    define before where "before = (if server_msg_is_priority msg then t else hd as)"
    have b: "before \<in> set as" using t False by (simp add: before_def)
    obtain cb where cb: "h before = Some cb" using D(2) b by blast
    obtain xs ys where as: "as = xs @ before # ys" "before \<notin> set xs" using split_list_first[OF b] by blast
    obtain h' where h': "link_in (h(el \<mapsto> \<lparr>cell_msg = msg, cell_prev = before,
        cell_next = cell_next cb, cell_eq = k\<rparr>)) el = Inr h'"
      "ring (pv h') (nx h') (xs @ el # before # ys)"
      "ms h' = (ms h)(el \<mapsto> msg)" "qe h' = (qe h)(el \<mapsto> k)"
      "\<And>a. a \<notin> set (el # xs @ before # ys) \<Longrightarrow> h' a = h a"
    proof (rule ring_insert[of h xs before ys el "cell_next cb" msg k])
      show "el \<notin> set (xs @ before # ys)" using D(2)[of el] as fresh by auto
      show "h a \<noteq> None" if "a \<in> set (xs @ before # ys)" for a using that D(2) as by blast
    qed (use D(1) as cb in \<open>auto simp: nx_def\<close>)
    let ?as = "list_insert (tail_ems q) msg el as"
    let ?q = "count_in (if server_msg_is_priority msg
       then q\<lparr>eq_head := (if hd as = t then Some el else Some (hd as))\<rparr> else q)"
    have "event_queue_insert hi k el msg (h, q) = Inr (0, h', ?q)"
      using h'(1) cb D(3) False nt t
      by (cases "server_msg_is_priority msg")
        (simp_all add: event_queue_insert_def before_def rd_def del: fun_upd_apply)
    moreover have "represents k (h', ?q) ?as"
    proof -
      have "ring (pv h') (nx h') ?as"
      proof (cases "server_msg_is_priority msg")
        case True
        then have "?as = xs @ el # before # ys"
          using as t by (simp add: before_def list_insert_def insert_before_def takeWhile_dropWhile_at)
        then show ?thesis using h'(2) by simp
      next
        case False
        then have "hd as = before" by (simp add: before_def)
        then have "xs = []" using as by (cases xs) auto
        then have "?as = (before # ys) @ [el]" using as False t by (simp add: list_insert_def)
        then show ?thesis using h'(2) \<open>xs = []\<close> ring_rotate1[of _ _ el "before # ys"] by simp
      qed
      moreover have s: "set ?as = insert el (set as)"
        using t by (auto simp: list_insert_def insert_before_def dest: set_takeWhileD set_dropWhileD)
          (metis Un_iff set_append takeWhile_dropWhile_id)
      moreover have "\<forall>a\<in>set ?as. qe h' a = Some k"
        using s h'(4) rep by (auto simp: represents_def)
      moreover have "?as \<noteq> []" using s by force
      moreover have "hd ?as = (if server_msg_is_priority msg \<and> hd as = t then el else hd as)"
        using False t by (simp add: list_insert_def list_insert_hd)
      moreover have "length ?as = length as + 1"
        using t by (simp add: list_insert_def insert_before_def)
          (metis length_append takeWhile_dropWhile_id)
      ultimately show ?thesis
        using D(3,6) t False by (auto simp: represents_def)
    qed
    ultimately show ?thesis using that h'(3-5) as by simp
  qed
qed


lemma busy_elsewhere_update [simp]: "busy_elsewhere (ts[me := t]) me j = busy_elsewhere ts me j"
  by (auto simp: busy_elsewhere_def list_ex_iff)

lemma set_thread_simps [simp]:
  "eq_head (set_thread me t q) = eq_head q" "tail_ems (set_thread me t q) = tail_ems q"
  "cur_len (set_thread me t q) = cur_len q" "eq_threads (set_thread me t q) = (eq_threads q)[me := t]"
  by (simp_all add: set_thread_def)

lemma represents_set_thread [simp]:
  "represents k (h, set_thread me t q) as = represents k (h, q) as"
  by (simp add: represents_def)

definition free_for :: "queue_thread list \<Rightarrow> nat \<Rightarrow> heap \<Rightarrow> addr \<Rightarrow> bool" where
  "free_for ts me h a \<longleftrightarrow> \<not> busy_elsewhere ts me (job_id_s (msg_at h a))"

lemma free_for_at: "h a = Some c \<Longrightarrow> free_for ts me h a \<longleftrightarrow> \<not> busy_elsewhere ts me (job_id_s (cell_msg c))"
  by (simp add: free_for_def msg_at_def ms_def)

lemma search_free_find:
  assumes "represents k (h, q) (xs @ el # ys)" and "fuel > length ys"
  shows "search_free fuel h ts me (hd (xs @ el # ys)) el = Inr (find (free_for ts me h) (el # ys))"
  using assms
proof (induction ys arbitrary: fuel xs el)
  case (Cons b ys)
  obtain f where fuel: "fuel = Suc f" "f > length ys" using Cons.prems(2) by (cases fuel) auto
  obtain c where c: "h el = Some c" "cell_prev c = b"
    using represents_split[OF Cons.prems(1)] by (metis append_Cons list.sel(1))
  have "b \<noteq> hd (xs @ el # b # ys)"
    using representsD(7)[OF Cons.prems(1)] by (cases xs) auto
  moreover have "search_free f h ts me (hd ((xs @ [el]) @ b # ys)) b = Inr (find (free_for ts me h) (b # ys))"
    using Cons.IH[of "xs @ [el]" b f] Cons.prems(1) fuel by simp
  ultimately show ?case
    using c by (simp add: fuel rd_def free_for_at)
next
  case Nil
  then obtain f where fuel: "fuel = Suc f" by (cases fuel) auto
  obtain c where c: "h el = Some c" "cell_prev c = hd (xs @ [el])"
    using represents_split[OF Nil.prems(1)] by (metis append_Nil)
  then show ?case by (simp add: fuel rd_def free_for_at)
qed

lemma get_refines:
  assumes rep: "represents k (h, q) as"
  shows "event_queue_get me want (h, q) =
    (let q' = (if qt_jobid (eq_threads q ! me) \<noteq> None then set_thread me idle_thread q else q) in
     case find (free_for (eq_threads q) me h) as of
       None \<Rightarrow> Inr (None, h, q')
     | Some el \<Rightarrow>
         Inr (Some el, h,
           if want then set_thread me
             \<lparr>qt_current = Some el, qt_jobid = Some (job_id_s (msg_at h el))\<rparr> q' else q'))"
proof -
  note D = representsD[OF rep]
  let ?q = "if qt_jobid (eq_threads q ! me) \<noteq> None then set_thread me idle_thread q else q"
  have ff: "free_for (eq_threads ?q) me h = free_for (eq_threads q) me h"
    by (auto simp: free_for_def fun_eq_iff)
  have hq: "eq_head ?q = eq_head q" "cur_len ?q = cur_len q" by simp_all
  show ?thesis
  proof (cases as)
    case Nil
    then show ?thesis using D(3) hq by (simp add: event_queue_get_def Let_def)
  next
    case (Cons a ys)
    have "represents k (h, ?q) as" using rep by simp
    then have "search_free (nat (cur_len q)) h (eq_threads ?q) me a a = Inr (find (free_for (eq_threads q) me h) as)"
      using search_free_find[of k h ?q "[]" a ys "nat (cur_len q)" "eq_threads ?q" me] D(6) Cons ff by simp
    moreover have front: "eq_head q = Some a" using D(3) Cons by simp
    moreover have "rd h el = Inr (the (h el))" if "find (free_for (eq_threads q) me h) as = Some el" for el
    proof -
      have "el \<in> set as" using that by (auto simp: find_Some_iff)
      then show ?thesis using D(2)[of el] by (auto simp: rd_def)
    qed
    moreover have "msg_at h el = cell_msg (the (h el))" if "rd h el = Inr (the (h el))" for el
      using that by (auto simp: rd_def msg_at_def ms_def split: option.splits)
    ultimately show ?thesis
      by (cases "find (free_for (eq_threads q) me h) as") (auto simp: event_queue_get_def Let_def)
  qed
qed

lemma unthrottle_simps [simp]:
  "eq_head (unthrottle lo q) = eq_head q" "tail_ems (unthrottle lo q) = tail_ems q"
  "cur_len (unthrottle lo q) = cur_len q" "eq_threads (unthrottle lo q) = eq_threads q"
  by (simp_all add: unthrottle_def)

lemma unlink_refines:
  assumes rep: "represents k (h, q) as" and el: "el \<in> set as"
  obtains h' q' where "unlink el (h, q) = Inr (h', q')"
    and "ring (pv h') (nx h') (remove1 el as)" and "ms h' = ms h" and "qe h' = qe h"
    and "eq_head q' = (if remove1 el as = [] then None else Some (hd (remove1 el as)))"
    and "case tail_ems q' of None \<Rightarrow> remove1 el as = [] | Some t \<Rightarrow> t \<in> set (remove1 el as)"
    and "cur_len q' = cur_len q" and "eq_threads q' = eq_threads q"
    and "\<And>a. a \<notin> set as \<Longrightarrow> h' a = h a"
proof -
  note D = representsD[OF rep]
  obtain xs ys where as: "as = xs @ el # ys" using split_list[OF el] by blast
  have d: "el \<notin> set xs" "el \<notin> set ys" using D(7) as by auto
  have rem: "remove1 el as = xs @ ys" using d as by (simp add: remove1_append)
  obtain c where c: "h el = Some c" "cell_prev c = hd (ys @ xs @ [el])" "cell_next c = last (el # ys @ xs)"
    using represents_split[of k h q xs el ys] rep as by auto
  show ?thesis
  proof (cases "ys @ xs = []")
    case True
    then show ?thesis
      using that[of h "q\<lparr>eq_head := None, tail_ems := None\<rparr>"] c rem
      by (simp add: unlink_def rd_def ring_def)
  next
    case False
    let ?zs = "ys @ xs"
    have pn: "cell_prev c = hd ?zs" "cell_next c = last ?zs" using c False by (cases ys; simp)+
    have mem: "cell_prev c \<in> set ?zs" "cell_next c \<in> set ?zs"
      unfolding pn using hd_in_set[OF False] last_in_set[OF False] by blast+
    then have inas: "cell_prev c \<in> set as" "cell_next c \<in> set as" using as by auto
    note c(1)
    moreover have "cell_prev c \<noteq> el" "cell_next c \<noteq> el" using d mem by auto
    moreover have "h (cell_prev c) \<noteq> None" "h (cell_next c) \<noteq> None" using D(2)[OF inas(1)] D(2)[OF inas(2)] by auto
    ultimately obtain h' where h': "link_out h el = Inr h'"
      "pv h' = (pv h)(cell_next c \<mapsto> cell_prev c)" "nx h' = (nx h)(cell_prev c \<mapsto> cell_next c)"
      "ms h' = ms h" "qe h' = qe h"
      "\<And>a. a \<noteq> cell_prev c \<Longrightarrow> a \<noteq> cell_next c \<Longrightarrow> h' a = h a"
      by (rule link_out_effect[of h el c]) auto
    let ?q = "q\<lparr>eq_head := (if eq_head q = Some el then Some (cell_prev c) else eq_head q),
                tail_ems := (if tail_ems q = Some el then Some (cell_prev c) else tail_ems q)\<rparr>"
    have "ring (pv h) (nx h) (el # ?zs)" using D(1) as ring_rotate[of _ _ xs "el # ys"] by simp
    from ring_drop_first[OF this False] have "ring (pv h') (nx h') ?zs" unfolding h' pn by simp
    then have "ring (pv h') (nx h') (remove1 el as)" unfolding rem using ring_rotate by blast
    moreover have "unlink el (h, q) = Inr (h', ?q)"
      using c(1) h'(1) \<open>cell_prev c \<noteq> el\<close> by (simp add: unlink_def rd_def)
    moreover have "eq_head ?q = (if remove1 el as = [] then None else Some (hd (remove1 el as)))"
      using D(3) rem as False pn d by (cases xs) auto
    moreover have "case tail_ems ?q of None \<Rightarrow> remove1 el as = [] | Some t \<Rightarrow> t \<in> set (remove1 el as)"
      using D(5) rem as mem by auto
    moreover have "h' a = h a" if "a \<notin> set as" for a using h'(6)[of a] that inas by auto
    ultimately show ?thesis using that h'(4,5) by simp
  qed
qed

lemma represents_free:
  assumes "el \<notin> set as" and "ring (pv h) (nx h) as"
  shows "ring (pv (h(el := None))) (nx (h(el := None))) as"
  using assms by (elim ring_cong) (auto simp: field_defs)

lemma remove_refines:
  assumes rep: "represents k (h, q) as" and cur: "qt_current (eq_threads q ! me) = Some el"
    and el: "el \<in> set as"
  obtains h' q' where "event_queue_remove lo k me (h, q) = Inr (0, h', q')"
    and "represents k (h', q') (remove1 el as)"
    and "ms h' = (ms h)(el := None)" and "qe h' = (qe h)(el := None)"
    and "\<And>a. a \<notin> set as \<Longrightarrow> h' a = h a"
    and "eq_threads q' = (eq_threads q)[me := idle_thread]"
proof -
  obtain c where c: "h el = Some c" "cell_eq c = k" using representsD(2)[OF rep el] by blast
  let ?q0 = "set_thread me idle_thread q"
  have "represents k (h, ?q0) as" using rep by simp
  then obtain h' q' where u: "unlink el (h, ?q0) = Inr (h', q')"
    "ring (pv h') (nx h') (remove1 el as)" "ms h' = ms h" "qe h' = qe h"
    "eq_head q' = (if remove1 el as = [] then None else Some (hd (remove1 el as)))"
    "case tail_ems q' of None \<Rightarrow> remove1 el as = [] | Some t \<Rightarrow> t \<in> set (remove1 el as)"
    "cur_len q' = cur_len ?q0" "eq_threads q' = eq_threads ?q0"
    "\<And>a. a \<notin> set as \<Longrightarrow> h' a = h a"
    using el by (rule unlink_refines) blast
  let ?q1 = "q'\<lparr>cur_len := cur_len q' - 1\<rparr>"
  let ?q2 = "unthrottle lo (if cur_len ?q1 = 0 then ?q1\<lparr>times_empty := times_empty ?q1 + 1\<rparr> else ?q1)"
  have "event_queue_remove lo k me (h, q) = Inr (0, h'(el := None), ?q2)"
    using cur c u(1) by (simp add: event_queue_remove_def rd_def Let_def)
  moreover have "represents k (h'(el := None), ?q2) (remove1 el as)"
  proof -
    have ne: "el \<notin> set (remove1 el as)" using representsD(7)[OF rep] by simp
    have "\<forall>a\<in>set (remove1 el as). qe h' a = Some k"
      using u(4) rep set_remove1_subset[of el as] by (auto simp: represents_def)
    then have "\<forall>a\<in>set (remove1 el as). qe (h'(el := None)) a = Some k"
      using ne by (auto simp: qe_def)
    moreover have "int (length (remove1 el as)) = int (length as) - 1"
      using el length_remove1[of el as] by (cases as) auto
    ultimately show ?thesis
      using u(5-7) represents_free[OF ne u(2)] representsD(6)[OF rep] by (simp add: represents_def)
  qed
  moreover have "ms (h'(el := None)) = (ms h)(el := None)" "qe (h'(el := None)) = (qe h)(el := None)"
    using u(3,4) by (auto simp: field_defs fun_eq_iff)
  moreover have "eq_threads ?q2 = (eq_threads q)[me := idle_thread]" using u(8) by simp
  ultimately show ?thesis using that u(9) el by fastforce
qed

section \<open>Example\<close>

definition ex_msg :: "string \<Rightarrow> int \<Rightarrow> int \<Rightarrow> server_msg" where
  "ex_msg j off expires = \<lparr>job_id_s = j, msg_bytes = [], msg_len = 20, ev_len = 10, receipt_to = 0, msg_offset = off,
     msg_generation = 0, msg_expires = expires\<rparr>"

definition ex_heap :: heap where
  "ex_heap = [1 \<mapsto> \<lparr>cell_msg = ex_msg ''a'' 0 5, cell_prev = 2, cell_next = 2, cell_eq = 0\<rparr>,
              2 \<mapsto> \<lparr>cell_msg = ex_msg ''b'' 10 5, cell_prev = 1, cell_next = 1, cell_eq = 0\<rparr>]"

definition ex_queue :: event_queue where
  "ex_queue = \<lparr>eq_head = Some 1, tail_ems = Some 1, cur_len = 2, max_len = 2, times_empty = 0,
     throttling = False,
     eq_threads = [idle_thread, \<lparr>qt_current = Some 1, qt_jobid = Some ''a''\<rparr>]\<rparr>"

definition ex_empty_queue :: event_queue where
  "ex_empty_queue = \<lparr>eq_head = None, tail_ems = None, cur_len = 0, max_len = 0, times_empty = 0,
     throttling = False, eq_threads = [idle_thread]\<rparr>"

lemma ex_queue_represents: "represents 0 (ex_heap, ex_queue) [1, 2]"
  by (simp add: represents_def ring_def field_defs ex_heap_def ex_queue_def)

lemma ex_empty_represents: "represents 1 (h, ex_empty_queue) []"
  by (simp add: represents_def ring_def ex_empty_queue_def)

section \<open>Properties\<close>



end
