(* ===== verification/LB_EventStore.thy ===== *)
theory LB_EventStore
  imports LB_JobId LB_IlMsg LB_EventQueue
begin

text \<open>
  The event stores of the interlogger (\<^verbatim>\<open>event_store.c\<close>, \<^verbatim>\<open>server_msg.c\<close> in
  \<^verbatim>\<open>org.glite.lb.logger/src\<close>): the events of a job are appended to a file by the local logger,
  one per line; the interlogger reads the file from the offset it has come to, puts the events
  into the queues of the log server and of the bookkeeping server, counts the bytes each of
  them has accepted, keeps the counts in a control file, and removes both files when
  everything has been accepted. The variant without notifications is modelled.

  The disk is a map from names to contents with the times of modification. Locks, failures of
  the file system other than missing files, and the other threads (while one function runs)
  are left out. What is read from an event by the parser of events is the argument
  \<open>getJobId\<close>, the queues are an argument of the reading loop.
\<close>

section \<open>Messages\<close>

definition atol :: "string \<Rightarrow> int" where
  "atol s = (case scan_long s of None \<Rightarrow> 0 | Some (v, _) \<Rightarrow> v)"

text \<open>\<^verbatim>\<open>p + n\<close> for a pointer into a string, which may go to the final NUL and not beyond.\<close>

definition advance :: "nat \<Rightarrow> string \<Rightarrow> string res" where
  "advance n p = (if n \<le> length p then Inr (drop n p) else Inl Out_of_bounds)"

text \<open>
  The client to be confirmed to (the number behind \<^verbatim>\<open>DG.LLLID=\<close>, for synchronous messages),
  and the text from which the search goes on; no result when the number has no end.
\<close>

definition msg_receipt :: "string \<Rightarrow> (int \<times> string) option res" where
  "msg_receipt event =
     (if take 8 event = ''DG.LLLID'' \<or> take 8 event = ''DG.LLPID'' then
        rbind (advance 9 event) (\<lambda>ev.
        case strchr ev (CHR '' '') of
          None \<Rightarrow> Inr None
        | Some p \<Rightarrow>
            let rest = drop 1 p in
            (case strstr rest ''DG.PRIORITY'' of
               Some p \<Rightarrow>
                 rbind (advance 12 p) (\<lambda>v.
                 Inr (Some (if atoi v mod 4 = 0 then 0 else atol ev, rest)))
             | None \<Rightarrow> Inr (Some (0, rest))))
      else Inr (Some (0, event)))"

definition msg_expiration :: "string \<Rightarrow> int res" where
  "msg_expiration event =
     (case strstr event ''DG.EXPIRES'' of
        None \<Rightarrow> Inr 0
      | Some p \<Rightarrow> rbind (advance 11 p) (\<lambda>v. Inr (atoi v)))"

definition create_msg :: "string \<Rightarrow> (string \<times> int \<times> int) option res" where
  "create_msg event =
     rbind (msg_receipt event) (\<lambda>r. case r of
       None \<Rightarrow> Inr None
     | Some (receipt, rest) \<Rightarrow>
         rbind (msg_expiration rest) (\<lambda>expires.
         rbind (encode_il_msg event) (\<lambda>w.
         Inr (Some (w, receipt, expires)))))"

definition server_msg_create :: "(string \<Rightarrow> string option) \<Rightarrow> string \<Rightarrow> int \<Rightarrow> server_msg option res" where
  "server_msg_create getJobId event offset =
     rbind (create_msg event) (\<lambda>r. case r of
       None \<Rightarrow> Inr None
     | Some (w, receipt, expires) \<Rightarrow>
         (case getJobId event of
            None \<Rightarrow> Inr None
          | Some j \<Rightarrow>
              Inr (Some \<lparr>job_id_s = j, msg_bytes = w, msg_len = int (length w), ev_len = int (length event) + 1,
                receipt_to = receipt, msg_offset = offset, msg_generation = 0, msg_expires = expires\<rparr>)))"

section \<open>Stores and files\<close>

record event_store =
  es_job :: string
  event_file_name :: string
  control_file_name :: string
  rotate_index :: int
  last_committed_ls :: int
  last_committed_bs :: int
  es_offset :: int
  es_generation :: int
  last_modified :: int

record disk =
  files :: "string \<rightharpoonup> string"
  mtimes :: "string \<Rightarrow> int"

definition rename_file :: "string \<Rightarrow> string \<Rightarrow> disk \<Rightarrow> disk" where
  "rename_file a b d = d\<lparr>files := (files d)(b := files d a, a := None), mtimes := (mtimes d)(b := mtimes d a)\<rparr>"

definition jobid2eventfile :: "string \<Rightarrow> glite_jobid option \<Rightarrow> string" where
  "jobid2eventfile file_prefix j =
     file_prefix @ ''.'' @ (if j = None then ''default'' else pct_s (glite_jobid_getUnique j))"

definition jobid2controlfile :: "string \<Rightarrow> glite_jobid option \<Rightarrow> string" where
  "jobid2controlfile file_prefix j =
     snprintf_trunc 256 (file_prefix @ ''.'' @ (if j = None then ''default'' else pct_s (glite_jobid_getUnique j)) @ ''.ctl'')"

text \<open>The number at the end of a name. When nothing follows the dot, \<open>junk\<close> is returned.\<close>

definition fname2index :: "int \<Rightarrow> string \<Rightarrow> int" where
  "fname2index junk filename =
     (case strrchr filename (CHR ''.'') of
        None \<Rightarrow> 0
      | Some p \<Rightarrow>
          if \<not> list_all is_digit (drop 1 p) then 0
          else (case scan_long (drop 1 p) of None \<Rightarrow> junk | Some (v, _) \<Rightarrow> v) + 1)"

definition event_store_create :: "int \<Rightarrow> string \<Rightarrow> string \<Rightarrow> string option \<Rightarrow> event_store option" where
  "event_store_create junk file_prefix job filename =
     (let j = (if job = ''default'' then Inr None
               else case glite_jobid_parse job of Inl e \<Rightarrow> Inl e | Inr j \<Rightarrow> Inr (Some j))
      in case j of
        Inl e \<Rightarrow> None
      | Inr j \<Rightarrow>
          Some \<lparr>es_job = job,
            event_file_name = (case filename of Some f \<Rightarrow> f | None \<Rightarrow> jobid2eventfile file_prefix j),
            control_file_name = (case filename of Some f \<Rightarrow> f @ ''.ctl'' | None \<Rightarrow> jobid2controlfile file_prefix j),
            rotate_index = (case filename of Some f \<Rightarrow> fname2index junk f | None \<Rightarrow> 0),
            last_committed_ls = 0, last_committed_bs = 0, es_offset = 0, es_generation = 0,
            last_modified = 0\<rparr>)"

text \<open>\<^verbatim>\<open>fscanf(ctl_file, "%*s\n%ld\n%ld\n", ...)\<close>\<close>

definition event_store_read_ctl :: "disk \<Rightarrow> event_store \<Rightarrow> event_store" where
  "event_store_read_ctl d es =
     (case files d (control_file_name es) of
        None \<Rightarrow> es\<lparr>last_committed_ls := 0, last_committed_bs := 0\<rparr>
      | Some t \<Rightarrow>
          (case scan_long (dropWhile (\<lambda>c. \<not> isspace c) (dropWhile isspace t)) of
             None \<Rightarrow> es
           | Some (ls, r) \<Rightarrow>
               (case scan_long r of
                  None \<Rightarrow> es\<lparr>last_committed_ls := ls\<rparr>
                | Some (bs, _) \<Rightarrow> es\<lparr>last_committed_ls := ls, last_committed_bs := bs\<rparr>)))"

definition ctl_text :: "event_store \<Rightarrow> string" where
  "ctl_text es = es_job es @ LF # show_int (last_committed_ls es) @ LF # show_int (last_committed_bs es) @ [LF]"

definition event_store_write_ctl :: "disk \<Rightarrow> event_store \<Rightarrow> disk" where
  "event_store_write_ctl d es = d\<lparr>files := (files d)(control_file_name es \<mapsto> ctl_text es)\<rparr>"

text \<open>The first number for which there is no file of the given name.\<close>

definition free_number :: "disk \<Rightarrow> (nat \<Rightarrow> string) \<Rightarrow> nat \<Rightarrow> nat option" where
  "free_number d name n = find (\<lambda>i. files d (name i) = None) [0..<n]"

definition MAXPATHLEN :: nat where
  "MAXPATHLEN = 4096"

definition quarantine_name :: "event_store \<Rightarrow> nat \<Rightarrow> string" where
  "quarantine_name es i = snprintf_trunc MAXPATHLEN (event_file_name es @ ''.quarantine.'' @ show_nat i)"

definition event_store_quarantine :: "disk \<Rightarrow> event_store \<Rightarrow> int \<times> disk \<times> event_store" where
  "event_store_quarantine d es =
     (case free_number d (quarantine_name es) 1024 of
        None \<Rightarrow> (- 1, d, es)
      | Some i \<Rightarrow>
          if files d (event_file_name es) = None then (- 1, d, es)
          else (0, rename_file (event_file_name es) (quarantine_name es i) d,
                es\<lparr>last_committed_ls := 0, last_committed_bs := 0, es_offset := 0,
                   es_generation := es_generation es + 1\<rparr>))"

text \<open>
  Rotation tries 256 names and then goes on with the last one tried, since the check after
  the loop looks for a count of 1024.
\<close>

definition rotate_name :: "event_store \<Rightarrow> int \<Rightarrow> nat \<Rightarrow> string" where
  "rotate_name es now i =
     snprintf_trunc MAXPATHLEN (event_file_name es @ ''.'' @ show_int (c_int now) @ show_pad 3 (int i))"

definition event_store_rotate_file :: "int \<Rightarrow> disk \<Rightarrow> event_store \<Rightarrow> int \<times> disk \<times> event_store" where
  "event_store_rotate_file now d es =
     (if rotate_index es > 0 then (0, d, es)
      else
        let num = (case free_number d (rotate_name es now) 256 of None \<Rightarrow> 256 | Some i \<Rightarrow> i);
            newname = rotate_name es now (min num 255)
        in if num \<ge> 1024 then (- 1, d, es)
           else if files d (event_file_name es) = None then (- 1, d, es)
           else (0, rename_file (event_file_name es) newname d,
                 es\<lparr>event_file_name := newname, control_file_name := newname @ ''.ctl'',
                    rotate_index := 1000 * now + int num + 1\<rparr>))"

section \<open>Reading the event file\<close>

text \<open>
  An event up to its separator, as a C string, the rest of the file, and the bytes taken;
  nothing at the end of the file or when the separator is missing.
\<close>

definition read_event_string :: "string \<Rightarrow> (string \<times> string \<times> nat) option" where
  "read_event_string text =
     (if LF \<in> set text then
        let raw = takeWhile (\<lambda>c. c \<noteq> LF) text
        in Some (c_str raw, drop (length raw + 1) text, length raw + 1)
      else None)"

lemma read_event_string_shorter:
  "read_event_string text = Some (event, rest, n) \<Longrightarrow> length rest < length text"
  by (cases "text") (auto simp: read_event_string_def Let_def split: if_splits)

text \<open>
  Where to start: at the offset the store has come to, or at the last committed position; when
  the place is not right behind a separator, first the offset is dropped, then the counts.
\<close>

function start_position :: "bool \<Rightarrow> string \<Rightarrow> event_store \<Rightarrow> int \<times> event_store" where
  "start_position only_log text es =
     (let lst = (if es_offset es \<noteq> 0 then es_offset es
                  else if only_log then last_committed_ls es else last_committed_bs es)
      in if lst > 0 then
           if nat lst \<le> length text \<and> text ! (nat lst - 1) = LF then (lst, es)
           else if es_offset es \<noteq> 0 then start_position only_log text (es\<lparr>es_offset := 0\<rparr>)
           else start_position only_log text (es\<lparr>last_committed_ls := 0, last_committed_bs := 0\<rparr>)
         else (lst, es))"
  by pat_completeness auto
termination
  by (relation "measure (\<lambda>(b, t, es). (if es_offset es \<noteq> 0 then 2 else 0) +
        (if last_committed_ls es \<noteq> 0 \<or> last_committed_bs es \<noteq> 0 then 1 else 0))")
    (auto split: if_splits)

declare start_position.simps [simp del]

datatype 'q read_end =
    Corrupted 'q            \<comment> \<open>an event that does not parse\<close>
  | Read_to int int 'q      \<comment> \<open>the result, the offset behind the last queued event, the queues\<close>

text \<open>
  The loop over the events. \<open>enq\<close> puts a message into the queue of the log server (\<open>True\<close>) or
  of the bookkeeping server (\<open>False\<close>): negative on failure, positive when the queue is full.
  \<open>pos\<close> is the place in the file.
\<close>

function (sequential) read_loop ::
  "(string \<Rightarrow> string option) \<Rightarrow> (bool \<Rightarrow> server_msg \<Rightarrow> 'q \<Rightarrow> int \<times> 'q) \<Rightarrow> bool \<Rightarrow> bool \<Rightarrow> event_store \<Rightarrow>
   string \<Rightarrow> int \<Rightarrow> int \<Rightarrow> bool \<Rightarrow> int \<Rightarrow> 'q \<Rightarrow> 'q read_end res" where
  "read_loop getJobId enq bs_only only_log es text pos lst throttle ret q =
     (case read_event_string text of
        None \<Rightarrow> Inr (Read_to ret lst q)
      | Some (event, rest, n) \<Rightarrow>
          (case server_msg_create getJobId event lst of
            Inl f \<Rightarrow> Inl f
          | Inr None \<Rightarrow> Inr (Corrupted q)
          | Inr (Some m) \<Rightarrow>
              let m = m\<lparr>msg_generation := es_generation es\<rparr>;
                  (r1, q) = (if \<not> bs_only \<and> lst \<ge> last_committed_ls es then enq True m q else (0, q))
              in if r1 < 0 then Inr (Read_to (- 1) lst q)
              else
                let (r2, q) = (if \<not> throttle \<and> \<not> only_log \<and> lst \<ge> last_committed_bs es
                               then enq False m q else (0, q))
                in if r2 < 0 then Inr (Read_to (- 1) lst q)
                else
                  let throttle = (throttle \<or> r2 > 0); pos = pos + int n;
                      lst = (if throttle then lst else pos)
                  in read_loop getJobId enq bs_only only_log es rest pos lst throttle 0 q))"
  by pat_completeness auto

termination
  by (relation "measure (\<lambda>(_, _, _, _, _, text, _). length text)") (auto dest: read_event_string_shorter)

declare read_loop.simps [simp del]

definition event_store_recover ::
  "(string \<Rightarrow> string option) \<Rightarrow> (bool \<Rightarrow> server_msg \<Rightarrow> 'q \<Rightarrow> int \<times> 'q) \<Rightarrow> bool \<Rightarrow> bool \<Rightarrow> int \<Rightarrow> int \<Rightarrow>
   disk \<Rightarrow> event_store \<Rightarrow> 'q \<Rightarrow> (int \<times> disk \<times> event_store \<times> 'q) res" where
  "event_store_recover getJobId enq bs_only only_log max_store_size now d es q =
     (case files d (event_file_name es) of
        None \<Rightarrow> Inr (- 1, d, es, q)
      | Some text \<Rightarrow>
          let st_mtime = mtimes d (event_file_name es) in
          if es_offset es = int (length text) \<and> last_modified es = st_mtime then Inr (0, d, es, q)
          else
            let (d, es) = (if max_store_size > 0 \<and> int (length text) > max_store_size
                           then snd (event_store_rotate_file now d es) else (d, es));
                (lst, es) = start_position only_log text es;
                from = (if lst > 0 then nat lst else 0)
            in case read_loop getJobId enq bs_only only_log es (drop from text) (int from) lst False 1 q of
                 Inl f \<Rightarrow> Inl f
               | Inr (Corrupted q) \<Rightarrow>
                   (case event_store_quarantine d es of (_, d, es) \<Rightarrow> Inr (- 1, d, es, q))
               | Inr (Read_to ret lst q) \<Rightarrow>
                   Inr (ret, d, es\<lparr>es_offset := lst, last_modified := st_mtime\<rparr>, q))"

section \<open>Commits and removal\<close>

definition event_store_commit :: "bool \<Rightarrow> int \<Rightarrow> bool \<Rightarrow> int \<Rightarrow> disk \<Rightarrow> event_store \<Rightarrow> disk \<times> event_store" where
  "event_store_commit bs_only len ls generation d es =
     (if generation \<noteq> es_generation es then (d, es)
      else
        let es = (if ls then es\<lparr>last_committed_ls := last_committed_ls es + len\<rparr>
                  else
                    let es = es\<lparr>last_committed_bs := last_committed_bs es + len\<rparr>
                    in if bs_only then es\<lparr>last_committed_ls := last_committed_ls es + len\<rparr> else es)
        in (event_store_write_ctl d es, es))"

definition event_store_clean :: "disk \<Rightarrow> event_store \<Rightarrow> int \<times> disk \<times> event_store" where
  "event_store_clean d es =
     (if last_committed_ls es \<noteq> last_committed_bs es then (0, d, es)
      else
        case files d (event_file_name es) of
          None \<Rightarrow> (1, d, es)
        | Some text \<Rightarrow>
            if last_committed_ls es \<noteq> int (length text) then (0, d, es)
            else (1, d\<lparr>files := (files d)(event_file_name es := None, control_file_name es := None)\<rparr>,
                  es\<lparr>last_committed_ls := 0, last_committed_bs := 0, es_offset := 0\<rparr>))"

text \<open>
  The pass over all stores. The list is walked with a pointer to the link that leads to the
  store at hand, \<^verbatim>\<open>prev\<close>; it is not moved on over a store that is in use, so the list up to
  \<^verbatim>\<open>prev\<close> (\<open>kept\<close>) and the stores in use behind it (\<open>skipped\<close>) are told apart here. A store
  is removed by writing the link.
\<close>

fun cleanup_loop :: "('s \<Rightarrow> bool) \<Rightarrow> ('s \<Rightarrow> int) \<Rightarrow> 's list \<Rightarrow> 's list \<Rightarrow> 's list \<Rightarrow> 's list" where
  "cleanup_loop busy clean kept skipped [] = kept @ skipped"
| "cleanup_loop busy clean kept skipped (sl # rest) =
     (if busy sl then cleanup_loop busy clean kept (skipped @ [sl]) rest
      else if clean sl = 1 then cleanup_loop busy clean kept [] rest
      else cleanup_loop busy clean (kept @ skipped @ [sl]) [] rest)"

definition event_store_cleanup :: "('s \<Rightarrow> bool) \<Rightarrow> ('s \<Rightarrow> int) \<Rightarrow> 's list \<Rightarrow> 's list" where
  "event_store_cleanup busy clean store_list = cleanup_loop busy clean [] [] store_list"

section \<open>Properties\<close>

lemma cleanup_loop_idle:
  "\<forall>x \<in> set xs. \<not> busy x \<Longrightarrow>
     cleanup_loop busy clean kept [] xs = kept @ filter (\<lambda>x. clean x \<noteq> 1) xs"
  by (induction xs arbitrary: kept) auto

lemma cleanup_loop_drops:
  "\<forall>x \<in> set bs. busy x \<Longrightarrow> \<not> busy c \<Longrightarrow> clean c = 1 \<Longrightarrow>
     cleanup_loop busy clean kept skipped (bs @ c # xs) = cleanup_loop busy clean kept [] xs"
  by (induction bs arbitrary: skipped) auto

text \<open>
  Cleaning up the list of stores. When no store is in use, exactly the stores that could be
  removed leave the list. But stores in use that stand before a removed store leave the list
  with it, although they have events to send: their files are not looked at again
  before they are found in the directory anew.
\<close>

theorem event_store_cleanup_busy:
  "(\<forall>x \<in> set xs. \<not> busy x) \<Longrightarrow> (\<forall>x \<in> set bs. busy x) \<Longrightarrow> \<not> busy c \<Longrightarrow> clean c = 1 \<Longrightarrow>
     event_store_cleanup busy clean xs = filter (\<lambda>x. clean x \<noteq> 1) xs \<and>
     event_store_cleanup busy clean (bs @ c # xs) = filter (\<lambda>x. clean x \<noteq> 1) xs"
  by (simp add: event_store_cleanup_def cleanup_loop_idle cleanup_loop_drops)

theorem event_store_cleanup_busy_witness:
  "event_store_cleanup (\<lambda>x. x = (1::nat)) (\<lambda>x. if x = 2 then 1 else 0) [3] = [3] \<and>
   event_store_cleanup (\<lambda>x. x = (1::nat)) (\<lambda>x. if x = 2 then 1 else 0) ([1] @ 2 # [3]) = [3]"
  using event_store_cleanup_busy[of "[3]" "\<lambda>x. x = (1::nat)" "[1]" 2 "\<lambda>x. if x = 2 then 1 else 0"] by simp

text \<open>
  Rotation of a large event file finds a free name among 256, and the events go there; but
  when all of them are taken, the check for this case compares with 1024, and the file is
  renamed over the last one tried, whose events are lost.
\<close>

theorem rotate_file_renames:
  assumes "rotate_index es \<le> 0" and "files d (event_file_name es) = Some x"
  shows "case free_number d (rotate_name es now) 256 of
     Some i \<Rightarrow> files d (rotate_name es now i) = None \<and>
       (\<exists>d' es'. event_store_rotate_file now d es = (0, d', es') \<and>
          files d' = (files d)(rotate_name es now i \<mapsto> x, event_file_name es := None))
   | None \<Rightarrow> files d (rotate_name es now 255) \<noteq> None \<and>
       (\<exists>d' es'. event_store_rotate_file now d es = (0, d', es') \<and>
          files d' = (files d)(rotate_name es now 255 \<mapsto> x, event_file_name es := None))"
proof (cases "free_number d (rotate_name es now) 256")
  case None
  then have "files d (rotate_name es now 255) \<noteq> None"
    by (auto simp: free_number_def find_None_iff)
  then show ?thesis using None assms by (simp add: event_store_rotate_file_def rename_file_def Let_def)
next
  case (Some i)
  then have "files d (rotate_name es now i) = None" "i < 256"
    by (auto simp: free_number_def find_Some_iff)
  then show ?thesis using Some assms by (simp add: event_store_rotate_file_def rename_file_def Let_def)
qed

definition ex_store :: event_store where
  "ex_store = \<lparr>es_job = ''https://h/u'', event_file_name = ''f'', control_file_name = ''f.ctl'',
     rotate_index = 0, last_committed_ls = 0, last_committed_bs = 0, es_offset = 0, es_generation = 0,
     last_modified = 0\<rparr>"

definition ex_disk :: disk where
  "ex_disk = \<lparr>files = [''f'' \<mapsto> ''x''], mtimes = (\<lambda>_. 0)\<rparr>"

theorem rotate_file_renames_witness:
  "\<exists>d' es'. event_store_rotate_file 5 ex_disk ex_store = (0, d', es') \<and>
     files d' = (files ex_disk)(''f.5000'' \<mapsto> ''x'', ''f'' := None)"
proof -
  have "rotate_index ex_store \<le> 0" "files ex_disk (event_file_name ex_store) = Some ''x''" by code_simp+
  note * = rotate_file_renames[OF this, of 5]
  have n: "free_number ex_disk (rotate_name ex_store 5) 256 = Some 0" and "rotate_name ex_store 5 0 = ''f.5000''"
    and "event_file_name ex_store = ''f''" by code_simp+
  with * show ?thesis unfolding n by auto
qed

end
