(* ===== verification/LB_Delivery.thy ===== *)
theory LB_Delivery
  imports LB_EventQueue "HOL-Library.Multiset"
begin

text \<open>
  The delivery threads of a queue (\<^verbatim>\<open>queue_thread.c\<close>, \<^verbatim>\<open>event_queue_send\<close> in
  \<^verbatim>\<open>send_event.c\<close>): what any interleaving of insertions, of the queries of several threads
  and of their confirmations does to the messages. Each function of the queue runs under
  its lock, so an execution is a sequence of whole operations.

  The interface of the queue the threads rely on is the locale \<open>job_queue\<close>; the ring of
  \<^verbatim>\<open>event_queue.c\<close> is an instance of it.
\<close>

section \<open>Executions\<close>

datatype il_op =
    Insert addr server_msg   \<comment> \<open>the master thread enqueues a message\<close>
  | Get nat bool             \<comment> \<open>a delivery thread asks for a message, or only whether there is one\<close>
  | Ack nat                  \<comment> \<open>the server replied: the thread removes its message\<close>
  | Release nat              \<comment> \<open>the thread gives its message up, at the end of a round\<close>

record il_state =
  il_heap :: heap
  il_queue :: event_queue
  inserted :: "server_msg list"
  delivered :: "server_msg list"

text \<open>An allocation never returns the address of a cell in use.\<close>

definition il_insert :: "nat \<Rightarrow> nat \<Rightarrow> addr \<Rightarrow> server_msg \<Rightarrow> il_state \<Rightarrow> il_state res" where
  "il_insert hi k el msg s =
     (if il_heap s el \<noteq> None then Inr s
      else rbind (event_queue_insert hi k el msg (il_heap s, il_queue s)) (\<lambda>(r, h, q).
        Inr (s\<lparr>il_heap := h, il_queue := q,
               inserted := (if r = 0 then inserted s @ [msg] else inserted s)\<rparr>)))"

definition il_get :: "nat \<Rightarrow> bool \<Rightarrow> il_state \<Rightarrow> il_state res" where
  "il_get me want s =
     rbind (event_queue_get me want (il_heap s, il_queue s)) (\<lambda>(r, h, q).
       Inr (s\<lparr>il_heap := h, il_queue := q\<rparr>))"

definition il_ack :: "nat \<Rightarrow> nat \<Rightarrow> nat \<Rightarrow> il_state \<Rightarrow> il_state res" where
  "il_ack lo k me s =
     (case qt_current (eq_threads (il_queue s) ! me) of
        None \<Rightarrow> Inr s
      | Some el \<Rightarrow>
          rbind (rd (il_heap s) el) (\<lambda>c.
          rbind (event_queue_remove lo k me (il_heap s, il_queue s)) (\<lambda>(r, h, q).
          Inr (s\<lparr>il_heap := h, il_queue := q, delivered := delivered s @ [cell_msg c]\<rparr>))))"

definition release :: "nat \<Rightarrow> event_queue \<Rightarrow> event_queue" where
  "release me q = (if qt_jobid (eq_threads q ! me) \<noteq> None then set_thread me idle_thread q else q)"

definition il_exec :: "nat \<Rightarrow> nat \<Rightarrow> nat \<Rightarrow> il_op \<Rightarrow> il_state \<Rightarrow> il_state res" where
  "il_exec hi lo k a s =
     (case a of
        Insert el msg \<Rightarrow> il_insert hi k el msg s
      | Get me want \<Rightarrow> if me < length (eq_threads (il_queue s)) then il_get me want s else Inr s
      | Ack me \<Rightarrow> if me < length (eq_threads (il_queue s)) then il_ack lo k me s else Inr s
      | Release me \<Rightarrow> Inr (s\<lparr>il_queue := release me (il_queue s)\<rparr>))"

fun il_run :: "nat \<Rightarrow> nat \<Rightarrow> nat \<Rightarrow> il_op list \<Rightarrow> il_state \<Rightarrow> il_state res" where
  "il_run hi lo k [] s = Inr s"
| "il_run hi lo k (a # as) s = rbind (il_exec hi lo k a s) (il_run hi lo k as)"

text \<open>A queue as it is created, with \<open>n\<close> threads.\<close>

definition new_queue :: "nat \<Rightarrow> event_queue" where
  "new_queue n = \<lparr>eq_head = None, tail_ems = None, cur_len = 0, max_len = 0, times_empty = 0,
     throttling = False, eq_threads = replicate n idle_thread\<rparr>"

definition il_init :: "nat \<Rightarrow> il_state" where
  "il_init n = \<lparr>il_heap = Map.empty, il_queue = new_queue n, inserted = [], delivered = []\<rparr>"

section \<open>Sending\<close>

text \<open>
  The loop of \<^verbatim>\<open>event_queue_send\<close> over the queue while the thread has it to itself. \<open>answer\<close>
  is what the network does with each message sent; an empty message is not sent and counts as
  accepted. A memory or database error of the server keeps the message for later, except for an
  unknown job; any other reply settles it: it is committed to the event store
  (\<open>commit_ok\<close>), confirmed to a waiting client when it is a priority message (\<open>confirm\<close>) and
  removed. The last component collects the messages committed.
\<close>

datatype send_outcome = Write_failed | No_reply | Reply int int

abbreviation (input) "LB_OK \<equiv> 0 :: int"
abbreviation (input) "LB_NOMEM \<equiv> 200 :: int"
abbreviation (input) "LB_DBERR \<equiv> 700 :: int"
abbreviation (input) "ENOENT \<equiv> 2 :: int"

definition try_later :: "int \<Rightarrow> int \<Rightarrow> bool" where
  "try_later code code_min \<longleftrightarrow> (code = LB_NOMEM \<or> code = LB_DBERR) \<and> code_min \<noteq> ENOENT"

definition sent_reply :: "server_msg \<Rightarrow> send_outcome \<Rightarrow> send_outcome" where
  "sent_reply msg a = (if msg_len msg \<noteq> 0 then a else Reply LB_OK 0)"

fun event_queue_send ::
  "nat \<Rightarrow> nat \<Rightarrow> nat \<Rightarrow> nat \<Rightarrow> (server_msg \<Rightarrow> bool) \<Rightarrow> (server_msg \<Rightarrow> int \<Rightarrow> int \<Rightarrow> int) \<Rightarrow>
   (nat \<Rightarrow> send_outcome) \<Rightarrow> il_state \<Rightarrow> (int \<times> il_state \<times> server_msg list) res" where
  "event_queue_send 0 lo k me commit_ok confirm answer s = Inl Diverges"
| "event_queue_send (Suc fuel) lo k me commit_ok confirm answer s =
     (if event_queue_empty (il_queue s) then Inr (1, s, [])
      else rbind (event_queue_get me True (il_heap s, il_queue s)) (\<lambda>(found, h, q).
        let s = s\<lparr>il_heap := h, il_queue := q\<rparr> in
        (case found of
           None \<Rightarrow> Inr (1, s, [])
         | Some el \<Rightarrow>
             rbind (rd h el) (\<lambda>c.
             let msg = cell_msg c in
             (case sent_reply msg (answer 0) of
                Reply code code_min \<Rightarrow>
                  if try_later code code_min then Inr (0, s, [])
                  else if \<not> commit_ok msg then Inr (- 1, s, [])
                  else if server_msg_is_priority msg \<and> confirm msg code code_min < 0
                  then Inr (confirm msg code code_min, s, [msg])
                  else rbind (il_ack lo k me s) (\<lambda>s.
                    rbind (event_queue_send fuel lo k me commit_ok confirm (\<lambda>i. answer (i + 1)) s)
                      (\<lambda>(r, s, cs). Inr (r, s, msg # cs)))
              | _ \<Rightarrow> Inr (0, s, []))))))"

section \<open>The interface of a queue\<close>

type_synonym entry = "addr \<times> server_msg"

definition of_job :: "string \<Rightarrow> server_msg \<Rightarrow> bool" where
  "of_job j m \<longleftrightarrow> job_id_s m = j"

text \<open>What a query makes of the asking thread, given the message it found.\<close>

definition asked :: "queue_thread \<Rightarrow> bool \<Rightarrow> entry option \<Rightarrow> queue_thread" where
  "asked t want found =
     (case found of
        Some (el, m) \<Rightarrow>
          if want then \<lparr>qt_current = Some el, qt_jobid = Some (job_id_s m)\<rparr>
          else if qt_jobid t \<noteq> None then idle_thread else t
      | None \<Rightarrow> if qt_jobid t \<noteq> None then idle_thread else t)"

definition first_free :: "queue_thread list \<Rightarrow> nat \<Rightarrow> entry list \<Rightarrow> entry option" where
  "first_free ts me xs = find (\<lambda>x. \<not> busy_elsewhere ts me (job_id_s (snd x))) xs"

locale job_queue =
  fixes rep :: "'s \<Rightarrow> entry list \<Rightarrow> queue_thread list \<Rightarrow> bool"
    and allocated :: "'s \<Rightarrow> addr \<Rightarrow> bool"
    and enq :: "addr \<Rightarrow> server_msg \<Rightarrow> 's \<Rightarrow> (int \<times> 's) res"
    and ask :: "nat \<Rightarrow> bool \<Rightarrow> 's \<Rightarrow> (addr option \<times> 's) res"
    and rem :: "nat \<Rightarrow> 's \<Rightarrow> (int \<times> 's) res"
  assumes rep_distinct: "rep s xs ts \<Longrightarrow> distinct (map fst xs)"
    and rep_allocated: "rep s xs ts \<Longrightarrow> x \<in> set xs \<Longrightarrow> allocated s (fst x)"
    and enq_law: "rep s xs ts \<Longrightarrow> \<not> allocated s el \<Longrightarrow>
      (\<exists>s'. enq el m s = Inr (1, s') \<and> rep s' xs ts) \<or>
      (\<exists>s' ys zs. enq el m s = Inr (0, s') \<and> xs = ys @ zs \<and> rep s' (ys @ (el, m) # zs) ts \<and>
         (\<not> server_msg_is_priority m \<longrightarrow> zs = []))"
    and ask_law: "rep s xs ts \<Longrightarrow>
      \<exists>s'. ask me want s = Inr (map_option fst (first_free ts me xs), s') \<and>
        rep s' xs (ts[me := asked (ts ! me) want (first_free ts me xs)])"
    and rem_law: "rep s xs ts \<Longrightarrow> qt_current (ts ! me) = Some el \<Longrightarrow> el \<in> fst ` set xs \<Longrightarrow>
      \<exists>s'. rem me s = Inr (0, s') \<and>
        rep s' (filter (\<lambda>x. fst x \<noteq> el) xs) (ts[me := idle_thread])"

section \<open>What holds between the operations\<close>

text \<open>A thread has a message of the queue, or none; its job is the one of its message.\<close>

definition holds_entry :: "entry list \<Rightarrow> queue_thread \<Rightarrow> bool" where
  "holds_entry xs t \<longleftrightarrow>
     (case qt_jobid t of
        None \<Rightarrow> qt_current t = None
      | Some j \<Rightarrow> \<exists>el m. qt_current t = Some el \<and> (el, m) \<in> set xs \<and> job_id_s m = j)"

text \<open>A thread has the first message of its job.\<close>

definition holds_first :: "entry list \<Rightarrow> queue_thread \<Rightarrow> bool" where
  "holds_first xs t \<longleftrightarrow>
     (\<forall>j. qt_jobid t = Some j \<longrightarrow>
        map_option fst (find (\<lambda>x. of_job j (snd x)) xs) = qt_current t)"

definition exclusive :: "queue_thread list \<Rightarrow> bool" where
  "exclusive ts \<longleftrightarrow>
     (\<forall>i < length ts. \<forall>i' < length ts. \<forall>j. i \<noteq> i' \<longrightarrow>
        qt_jobid (ts ! i) = Some j \<longrightarrow> qt_jobid (ts ! i') \<noteq> Some j)"

definition in_order :: "entry list \<Rightarrow> server_msg list \<Rightarrow> server_msg list \<Rightarrow> bool" where
  "in_order xs I D \<longleftrightarrow>
     (\<forall>j. filter (of_job j) D @ filter (of_job j) (map snd xs) = filter (of_job j) I)"

definition no_priority :: "server_msg list \<Rightarrow> bool" where
  "no_priority I \<longleftrightarrow> (\<forall>m \<in> set I. \<not> server_msg_is_priority m)"

definition delivery_inv ::
  "entry list \<Rightarrow> queue_thread list \<Rightarrow> server_msg list \<Rightarrow> server_msg list \<Rightarrow> bool" where
  "delivery_inv xs ts I D \<longleftrightarrow>
     distinct (map fst xs) \<and> (\<forall>t \<in> set ts. holds_entry xs t) \<and> exclusive ts \<and>
     mset D + mset (map snd xs) = mset I \<and>
     (no_priority I \<longrightarrow> in_order xs I D \<and> (\<forall>t \<in> set ts. holds_first xs t))"

section \<open>Preservation of the invariant\<close>

lemma find_weaken:
  "find P xs = Some x \<Longrightarrow> Q x \<Longrightarrow> (\<And>y. Q y \<Longrightarrow> P y) \<Longrightarrow> find Q xs = Some x"
  by (induction xs) (auto split: if_splits)

lemma find_append_Some: "find P xs = Some x \<Longrightarrow> find P (xs @ ys) = Some x"
  by (induction xs) auto

lemma find_filter_other:
  "(\<And>x. x \<in> set xs \<Longrightarrow> P x \<Longrightarrow> Q x) \<Longrightarrow> find P (filter Q xs) = find P xs"
  by (induction xs) auto

lemma filter_find_first:
  assumes "find P xs = Some x" and "distinct (map fst xs)"
  shows "filter P xs = x # filter P (filter (\<lambda>y. fst y \<noteq> fst x) xs)"
  using assms
proof (induction xs)
  case (Cons a xs)
  show ?case
  proof (cases "P a")
    case True
    with Cons.prems have "a = x" by simp
    moreover have "filter (\<lambda>y. fst y \<noteq> fst x) xs = xs"
      using Cons.prems(2) \<open>a = x\<close> by (auto simp: filter_id_conv image_iff)
    ultimately show ?thesis using True by simp
  next
    case False
    then show ?thesis using Cons by (auto split: if_splits)
  qed
qed simp

lemma holds_entry_mono: "holds_entry xs t \<Longrightarrow> set xs \<subseteq> set ys \<Longrightarrow> holds_entry ys t"
  by (auto simp: holds_entry_def split: option.splits)

lemma idle_jobid [simp]: "qt_jobid idle_thread = None" "qt_current idle_thread = None"
  by (simp_all add: idle_thread_def)

lemma idle_holds [simp]: "holds_entry xs idle_thread" "holds_first xs idle_thread"
  by (simp_all add: holds_entry_def holds_first_def idle_thread_def)

lemma busy_elsewhere_iff:
  "busy_elsewhere ts me j \<longleftrightarrow> (\<exists>i < length ts. i \<noteq> me \<and> qt_jobid (ts ! i) = Some j)"
  by (auto simp: busy_elsewhere_def list_ex_iff)

lemma find_SomeD: "find P xs = Some x \<Longrightarrow> x \<in> set xs \<and> P x"
  by (induction xs) (auto split: if_splits)

lemma exclusive_update:
  assumes "exclusive ts" and "\<And>j. qt_jobid t = Some j \<Longrightarrow> \<not> busy_elsewhere ts me j"
  shows "exclusive (ts[me := t])"
  unfolding exclusive_def
proof (intro allI impI)
  fix i i' j
  assume i: "i < length (ts[me := t])" "i' < length (ts[me := t])" "i \<noteq> i'"
    and j: "qt_jobid (ts[me := t] ! i) = Some j"
  have other: "qt_jobid (ts ! n) \<noteq> Some j" if "qt_jobid t = Some j" "n < length ts" "n \<noteq> me" for n
    using assms(2)[OF that(1)] that(2,3) unfolding busy_elsewhere_iff by blast
  have rest: "qt_jobid (ts ! i) = Some j \<Longrightarrow> qt_jobid (ts ! i') \<noteq> Some j"
    using assms(1) i by (simp add: exclusive_def)
  show "qt_jobid (ts[me := t] ! i') \<noteq> Some j"
    using other[of i] other[of i'] rest i j by (cases "i = me"; cases "i' = me") auto
qed

lemma exclusive_idle: "exclusive ts \<Longrightarrow> exclusive (ts[me := idle_thread])"
  by (rule exclusive_update) (simp_all add: idle_thread_def)

lemma set_update_cases: "t' \<in> set (ts[me := t]) \<Longrightarrow> t' = t \<or> t' \<in> set ts"
  using set_update_subset_insert[of ts me t] by auto

lemma inv_insert:
  assumes inv: "delivery_inv (ys @ zs) ts I D" and "el \<notin> fst ` set (ys @ zs)"
    and pri: "\<not> server_msg_is_priority m \<longrightarrow> zs = []"
  shows "delivery_inv (ys @ (el, m) # zs) ts (I @ [m]) D"
proof -
  have "holds_first (ys @ [(el, m)]) t"
    if he: "holds_entry ys t" and hf: "holds_first ys t" for t
  proof (cases "qt_jobid t")
    case (Some j)
    then obtain a where "qt_current t = Some a" using he by (auto simp: holds_entry_def)
    with hf Some obtain x where "find (\<lambda>x. of_job j (snd x)) ys = Some x" "fst x = a"
      by (auto simp: holds_first_def)
    from find_append_Some[OF this(1), of "[(el, m)]"] this(2) show ?thesis
      using Some \<open>qt_current t = Some a\<close> by (cases x) (simp add: holds_first_def)
  qed (simp add: holds_first_def)
  then have "no_priority (I @ [m]) \<Longrightarrow>
      in_order (ys @ (el, m) # zs) (I @ [m]) D \<and> (\<forall>t \<in> set ts. holds_first (ys @ (el, m) # zs) t)"
    using inv pri by (auto simp: delivery_inv_def no_priority_def in_order_def)
  moreover have "holds_entry (ys @ (el, m) # zs) t" if "t \<in> set ts" for t
    using inv that holds_entry_mono[of "ys @ zs" t "ys @ (el, m) # zs"] by (auto simp: delivery_inv_def)
  ultimately show ?thesis using inv assms(2) by (auto simp: delivery_inv_def)
qed

lemma inv_release:
  assumes "delivery_inv xs ts I D" shows "delivery_inv xs (ts[me := idle_thread]) I D"
  using assms exclusive_idle by (auto simp: delivery_inv_def dest!: set_update_cases)

lemma inv_ask:
  assumes inv: "delivery_inv xs ts I D"
  shows "delivery_inv xs (ts[me := asked (ts ! me) want (first_free ts me xs)]) I D"
proof (cases "want \<and> first_free ts me xs \<noteq> None")
  case False
  then have "asked (ts ! me) want (first_free ts me xs) = idle_thread \<or>
      asked (ts ! me) want (first_free ts me xs) = ts ! me"
    by (auto simp: asked_def split: option.splits)
  then show ?thesis using inv inv_release[OF inv, of me] by auto
next
  case True
  then obtain el m where f: "first_free ts me xs = Some (el, m)" by auto
  let ?t = "\<lparr>qt_current = Some el, qt_jobid = Some (job_id_s m)\<rparr>"
  have t: "asked (ts ! me) want (first_free ts me xs) = ?t" using True f by (simp add: asked_def)
  have free: "\<not> busy_elsewhere ts me (job_id_s m)" and mem: "(el, m) \<in> set xs"
    using f by (auto simp: first_free_def dest: find_SomeD)
  have "find (\<lambda>x. of_job (job_id_s m) (snd x)) xs = Some (el, m)"
    by (rule find_weaken[OF f[unfolded first_free_def]]) (use free in \<open>auto simp: of_job_def\<close>)
  then have "holds_first xs ?t" by (simp add: holds_first_def)
  moreover have "holds_entry xs ?t" using mem by (auto simp: holds_entry_def)
  moreover have "exclusive (ts[me := ?t])"
    using inv free by (intro exclusive_update) (auto simp: delivery_inv_def)
  ultimately show ?thesis using inv unfolding t by (auto simp: delivery_inv_def dest!: set_update_cases)
qed

lemma holds_entryD:
  assumes "holds_entry xs t" and "qt_current t = Some el"
  obtains m where "(el, m) \<in> set xs" and "qt_jobid t = Some (job_id_s m)"
  using assms by (auto simp: holds_entry_def split: option.splits)

lemma distinct_fst_unique: "distinct (map fst xs) \<Longrightarrow> (a, b) \<in> set xs \<Longrightarrow> (a, c) \<in> set xs \<Longrightarrow> b = c"
  by (rule eq_key_imp_eq_value)

lemma filter_remove_key:
  assumes "distinct (map fst xs)" and "(el, m) \<in> set xs"
  shows "add_mset m (mset (map snd (filter (\<lambda>x. fst x \<noteq> el) xs))) = mset (map snd xs)"
  using assms
proof (induction xs)
  case (Cons a xs)
  show ?case
  proof (cases "a = (el, m)")
    case True
    then have "filter (\<lambda>x. fst x \<noteq> el) xs = xs" using Cons.prems by (auto simp: filter_id_conv image_iff)
    then show ?thesis using True by simp
  next
    case False
    then have "(el, m) \<in> set xs" and "fst a \<noteq> el" using Cons.prems by (auto simp: image_iff)
    then show ?thesis using Cons by simp
  qed
qed simp

lemma inv_remove:
  assumes inv: "delivery_inv xs ts I D" and me: "me < length ts"
    and cur: "qt_current (ts ! me) = Some el" and mem: "(el, m) \<in> set xs"
  shows "delivery_inv (filter (\<lambda>x. fst x \<noteq> el) xs) (ts[me := idle_thread]) I (D @ [m])"
proof -
  let ?xs = "filter (\<lambda>x. fst x \<noteq> el) xs"
  have d: "distinct (map fst xs)" and excl: "exclusive ts"
    and he: "\<And>t. t \<in> set ts \<Longrightarrow> holds_entry xs t" using inv by (auto simp: delivery_inv_def)
  have job: "qt_jobid (ts ! me) = Some (job_id_s m)"
    using holds_entryD[OF he[OF nth_mem[OF me]] cur] distinct_fst_unique[OF d mem] by metis
  have other: "qt_jobid t \<noteq> Some (job_id_s m)" if t: "t \<in> set (ts[me := idle_thread])" for t
  proof -
    obtain i where i: "i < length ts" "t = ts[me := idle_thread] ! i"
      using t by (auto simp: in_set_conv_nth)
    then show ?thesis
      using excl me job by (cases "i = me") (auto simp: idle_thread_def exclusive_def)
  qed
  have keep: "(a, b) \<in> set ?xs" if "(a, b) \<in> set xs" "job_id_s b \<noteq> job_id_s m" for a b
    using that distinct_fst_unique[OF d mem, of b] by auto
  have "holds_entry ?xs t" if "t \<in> set (ts[me := idle_thread])" for t
    using set_update_cases[OF that] he[of t] other[OF that] keep
    by (auto simp: holds_entry_def idle_thread_def split: option.splits) metis
  moreover have "no_priority I \<Longrightarrow> in_order ?xs I (D @ [m]) \<and> (\<forall>t \<in> set (ts[me := idle_thread]). holds_first ?xs t)"
  proof (intro conjI ballI)
    assume np: "no_priority I"
    then have ord: "in_order xs I D" and fst: "\<And>t. t \<in> set ts \<Longrightarrow> holds_first xs t"
      using inv by (auto simp: delivery_inv_def)
    have sj: "find (\<lambda>x. of_job j (snd x)) ?xs = find (\<lambda>x. of_job j (snd x)) xs"
      if "j \<noteq> job_id_s m" for j
      by (rule find_filter_other) (use that distinct_fst_unique[OF d mem] in \<open>auto simp: of_job_def\<close>)
    show "holds_first ?xs t" if "t \<in> set (ts[me := idle_thread])" for t
      using set_update_cases[OF that] fst[of t] other[OF that] sj by (auto simp: holds_first_def idle_thread_def)
    obtain x where x: "find (\<lambda>x. of_job (job_id_s m) (snd x)) xs = Some x" "fst x = el"
      using fst[OF nth_mem[OF me]] job cur by (auto simp: holds_first_def)
    then have xm: "x = (el, m)"
      using distinct_fst_unique[OF d mem] by (cases x) (auto dest: find_SomeD)
    show "in_order ?xs I (D @ [m])"
      unfolding in_order_def
    proof
      fix j
      show "filter (of_job j) (D @ [m]) @ filter (of_job j) (map snd ?xs) = filter (of_job j) I"
      proof (cases "j = job_id_s m")
        case True
        have "filter (\<lambda>x. of_job j (snd x)) xs = (el, m) # filter (\<lambda>x. of_job j (snd x)) ?xs"
          using filter_find_first[OF x(1) d] xm True by simp
        then have "filter (of_job j) (map snd xs) = m # filter (of_job j) (map snd ?xs)"
          unfolding filter_map o_def by simp
        moreover have "filter (of_job j) D @ filter (of_job j) (map snd xs) = filter (of_job j) I"
          using ord by (simp add: in_order_def)
        ultimately show ?thesis using True by (simp add: of_job_def)
      next
        case False
        then have "filter (\<lambda>x. of_job j (snd x)) ?xs = filter (\<lambda>x. of_job j (snd x)) xs"
          using distinct_fst_unique[OF d mem]
          by (auto simp: of_job_def filter_filter intro!: filter_cong)
        then have "filter (of_job j) (map snd ?xs) = filter (of_job j) (map snd xs)"
          unfolding filter_map o_def by simp
        then show ?thesis using ord False by (auto simp: in_order_def of_job_def)
      qed
    qed
  qed
  moreover have "mset D + add_mset m (mset (map snd ?xs)) = mset I"
    unfolding filter_remove_key[OF d mem] using inv by (simp add: delivery_inv_def)
  then have "mset (D @ [m]) + mset (map snd ?xs) = mset I" by simp
  moreover have "distinct (map fst ?xs)" using d by (simp add: distinct_map_filter)
  ultimately show ?thesis using exclusive_idle[OF excl] by (auto simp: delivery_inv_def)
qed


section \<open>The threads as clients of the interface\<close>

context job_queue
begin

lemma enq_keeps:
  assumes "rep s xs ts" and "delivery_inv xs ts I D" and "\<not> allocated s el"
  shows "\<exists>r s' xs'. enq el m s = Inr (r, s') \<and> rep s' xs' ts \<and>
    delivery_inv xs' ts (if r = 0 then I @ [m] else I) D"
  using enq_law[OF assms(1,3), of m]
proof
  assume "\<exists>s' ys zs. enq el m s = Inr (0, s') \<and> xs = ys @ zs \<and> rep s' (ys @ (el, m) # zs) ts \<and>
     (\<not> server_msg_is_priority m \<longrightarrow> zs = [])"
  then obtain s' ys zs where *: "enq el m s = Inr (0, s')" "xs = ys @ zs"
    "rep s' (ys @ (el, m) # zs) ts" "\<not> server_msg_is_priority m \<longrightarrow> zs = []" by blast
  have "el \<notin> fst ` set (ys @ zs)" using rep_allocated[OF assms(1)] assms(3) *(2) by auto
  from inv_insert[OF _ this *(4)] assms(2) *(2) have "delivery_inv (ys @ (el, m) # zs) ts (I @ [m]) D" by simp
  then show ?thesis using * by auto
next
  assume "\<exists>s'. enq el m s = Inr (1, s') \<and> rep s' xs ts"
  then obtain s' where "enq el m s = Inr (1, s')" "rep s' xs ts" by blast
  then show ?thesis using assms(2) by (intro exI[of _ 1] exI[of _ s'] exI[of _ xs]) simp
qed

lemma ask_keeps:
  assumes "rep s xs ts" and "delivery_inv xs ts I D"
  shows "\<exists>s' t. ask me want s = Inr (map_option fst (first_free ts me xs), s') \<and>
    rep s' xs (ts[me := t]) \<and> delivery_inv xs (ts[me := t]) I D"
  using ask_law[OF assms(1)] inv_ask[OF assms(2)] by blast

lemma rem_keeps:
  assumes rep: "rep s xs ts" and inv: "delivery_inv xs ts I D" and me: "me < length ts"
    and cur: "qt_current (ts ! me) = Some el"
  shows "\<exists>s' m. (el, m) \<in> set xs \<and> rem me s = Inr (0, s') \<and>
    rep s' (filter (\<lambda>x. fst x \<noteq> el) xs) (ts[me := idle_thread]) \<and>
    delivery_inv (filter (\<lambda>x. fst x \<noteq> el) xs) (ts[me := idle_thread]) I (D @ [m])"
proof -
  have "holds_entry xs (ts ! me)" using inv me by (simp add: delivery_inv_def)
  then obtain m where m: "(el, m) \<in> set xs" using cur by (rule holds_entryD)
  then have "el \<in> fst ` set xs" by force
  from rem_law[OF rep cur this] inv_remove[OF inv me cur m] m show ?thesis by blast
qed

text \<open>A thread that asks and removes takes the messages from the front, when no other works.\<close>

lemma take_first:
  assumes "rep s ((el, m) # xs) ts" and idle: "\<And>t. t \<in> set ts \<Longrightarrow> t = idle_thread" and me: "me < length ts"
  shows "\<exists>s' s''. ask me True s = Inr (Some el, s') \<and>
     rep s' ((el, m) # xs) (ts[me := \<lparr>qt_current = Some el, qt_jobid = Some (job_id_s m)\<rparr>]) \<and>
     rem me s' = Inr (0, s'') \<and> rep s'' xs ts"
proof -
  let ?t = "\<lparr>qt_current = Some el, qt_jobid = Some (job_id_s m)\<rparr>"
  have "qt_jobid (ts ! i) = None" if "i < length ts" for i
    using idle[OF nth_mem[OF that]] by (simp add: idle_thread_def)
  then have "\<not> busy_elsewhere ts me j" for j by (auto simp: busy_elsewhere_iff)
  then have "first_free ts me ((el, m) # xs) = Some (el, m)" by (simp add: first_free_def)
  with ask_law[OF assms(1), of me True] obtain s' where
    s': "ask me True s = Inr (Some el, s')" "rep s' ((el, m) # xs) (ts[me := ?t])"
    by (auto simp: asked_def)
  from rem_law[OF s'(2), of me el] me obtain s'' where
    "rem me s' = Inr (0, s'')" "rep s'' (filter (\<lambda>x. fst x \<noteq> el) ((el, m) # xs)) (ts[me := ?t, me := idle_thread])"
    by auto
  moreover have "filter (\<lambda>x. fst x \<noteq> el) ((el, m) # xs) = xs"
    using rep_distinct[OF assms(1)] by (auto simp: filter_id_conv image_iff)
  moreover have "ts[me := ?t, me := idle_thread] = ts"
    using idle[OF nth_mem[OF me]] by (simp add: list_update_same_conv me)
  ultimately show ?thesis using s' by auto
qed

end

section \<open>The ring as a queue of jobs\<close>

definition entries :: "heap \<Rightarrow> addr list \<Rightarrow> entry list" where
  "entries h as = map (\<lambda>a. (a, msg_at h a)) as"

definition eq_rep :: "nat \<Rightarrow> heap \<times> event_queue \<Rightarrow> entry list \<Rightarrow> queue_thread list \<Rightarrow> bool" where
  "eq_rep k s xs ts \<longleftrightarrow>
     represents k s (map fst xs) \<and> xs = entries (fst s) (map fst xs) \<and> ts = eq_threads (snd s)"

definition eq_allocated :: "heap \<times> event_queue \<Rightarrow> addr \<Rightarrow> bool" where
  "eq_allocated s a \<longleftrightarrow> fst s a \<noteq> None"

lemma entries_simps [simp]: "map fst (entries h as) = as" "map snd (entries h as) = map (msg_at h) as"
  by (simp_all add: entries_def o_def)

lemma eq_repE:
  assumes "eq_rep k (h, q) xs ts"
  obtains as where "represents k (h, q) as" and "xs = entries h as" and "ts = eq_threads q"
  using assms unfolding eq_rep_def by auto

lemma eq_repI: "represents k (h, q) as \<Longrightarrow> eq_rep k (h, q) (entries h as) (eq_threads q)"
  by (simp add: eq_rep_def)

lemma entries_cong: "(\<And>a. a \<in> set as \<Longrightarrow> msg_at h' a = msg_at h a) \<Longrightarrow> entries h' as = entries h as"
  by (simp add: entries_def)

lemma find_map_entry:
  "find (\<lambda>x. P (snd x)) (entries h as) = map_option (\<lambda>a. (a, msg_at h a)) (find (\<lambda>a. P (msg_at h a)) as)"
  by (induction as) (auto simp: entries_def)

lemma first_free_entries:
  "first_free ts me (entries h as) = map_option (\<lambda>a. (a, msg_at h a)) (find (free_for ts me h) as)"
  using find_map_entry[of "\<lambda>m. \<not> busy_elsewhere ts me (job_id_s m)" h as]
  by (simp add: first_free_def free_for_def[abs_def])

lemma eq_enq_law:
  assumes "eq_rep k s xs ts" and "\<not> eq_allocated s el"
  shows "(\<exists>s'. event_queue_insert hi k el m s = Inr (1, s') \<and> eq_rep k s' xs ts) \<or>
    (\<exists>s' ys zs. event_queue_insert hi k el m s = Inr (0, s') \<and> xs = ys @ zs \<and>
       eq_rep k s' (ys @ (el, m) # zs) ts \<and> (\<not> server_msg_is_priority m \<longrightarrow> zs = []))"
proof -
  obtain h q where s: "s = (h, q)" by (cases s)
  with assms(1) obtain as where rep: "represents k (h, q) as" and xs: "xs = entries h as"
    and ts: "ts = eq_threads q" by (auto elim: eq_repE)
  have fresh: "h el = None" using assms(2) s by (simp add: eq_allocated_def)
  show ?thesis
  proof (cases "throttled hi q")
    case True
    then have "event_queue_insert hi k el m s = Inr (1, h, q\<lparr>throttling := True\<rparr>)"
      by (simp add: event_queue_insert_def throttled_def s)
    moreover have "represents k (h, q\<lparr>throttling := True\<rparr>) as" using rep by (simp add: represents_def)
    from eq_repI[OF this] have "eq_rep k (h, q\<lparr>throttling := True\<rparr>) xs ts" by (simp add: xs ts)
    ultimately show ?thesis by blast
  next
    case False
    obtain h' q' where r: "event_queue_insert hi k el m (h, q) = Inr (0, h', q')"
      "represents k (h', q') (list_insert (tail_ems q) m el as)" "ms h' = (ms h)(el \<mapsto> m)"
      "eq_threads q' = eq_threads q"
      using insert_refines[OF rep fresh False] by metis
    obtain us vs where uv: "as = us @ vs" "list_insert (tail_ems q) m el as = us @ el # vs"
      "\<not> server_msg_is_priority m \<longrightarrow> vs = []"
    proof (cases "tail_ems q")
      case None
      then have "as = []" using representsD(5)[OF rep] by auto
      then show ?thesis using that[of "[]" "[]"] None by (simp add: list_insert_def)
    next
      case (Some t)
      show ?thesis
      proof (cases "server_msg_is_priority m")
        case True
        then show ?thesis
          using that[of "takeWhile (\<lambda>a. a \<noteq> t) as" "dropWhile (\<lambda>a. a \<noteq> t) as"] Some
          by (simp add: list_insert_def insert_before_def)
      next
        case False
        then show ?thesis using that[of as "[]"] Some by (simp add: list_insert_def)
      qed
    qed
    have "msg_at h' a = msg_at h a" if "a \<in> set as" for a
      using representsD(2)[OF rep that] r(3) fresh by (auto simp: msg_at_def)
    then have "entries h' (us @ el # vs) = entries h us @ (el, m) # entries h vs"
      using r(3) uv(1) by (auto simp: entries_def msg_at_def)
    with eq_repI[OF r(2)] have "eq_rep k (h', q') (entries h us @ (el, m) # entries h vs) ts"
      using uv(2) r(4) ts by simp
    then have "\<exists>ys zs. xs = ys @ zs \<and> eq_rep k (h', q') (ys @ (el, m) # zs) ts \<and>
        (\<not> server_msg_is_priority m \<longrightarrow> zs = [])"
      using uv(3) by (intro exI[of _ "entries h us"] exI[of _ "entries h vs"]) (auto simp: xs uv(1) entries_def)
    then show ?thesis using r(1) s by blast
  qed
qed


lemma eq_ask_law:
  assumes "eq_rep k s xs ts"
  shows "\<exists>s'. event_queue_get me want s = Inr (map_option fst (first_free ts me xs), s') \<and>
    eq_rep k s' xs (ts[me := asked (ts ! me) want (first_free ts me xs)])"
proof -
  obtain h q where s: "s = (h, q)" by (cases s)
  with assms obtain as where rep: "represents k (h, q) as" and xs: "xs = entries h as"
    and ts: "ts = eq_threads q" by (auto elim: eq_repE)
  have keep: "eq_rep k (h, set_thread me t q) xs (ts[me := t])" for t
    using eq_repI[of k h "set_thread me t q" as] rep by (simp add: xs ts)
  have keep2: "eq_rep k (h, set_thread me t (set_thread me t' q)) xs (ts[me := t])" for t t'
    using eq_repI[of k h "set_thread me t (set_thread me t' q)" as] rep by (simp add: xs ts)
  have same: "eq_rep k (h, q) xs (ts[me := ts ! me])" using assms s by simp
  show ?thesis
    using keep[of idle_thread] keep keep2 same
    by (cases "find (free_for (eq_threads q) me h) as")
      (auto simp: s get_refines[OF rep] Let_def first_free_entries asked_def xs ts)
qed

lemma eq_rem_law:
  assumes "eq_rep k s xs ts" and "qt_current (ts ! me) = Some el" and "el \<in> fst ` set xs"
  shows "\<exists>s'. event_queue_remove lo k me s = Inr (0, s') \<and>
    eq_rep k s' (filter (\<lambda>x. fst x \<noteq> el) xs) (ts[me := idle_thread])"
proof -
  obtain h q where s: "s = (h, q)" by (cases s)
  with assms(1) obtain as where rep: "represents k (h, q) as" and xs: "xs = entries h as"
    and ts: "ts = eq_threads q" by (auto elim: eq_repE)
  have cur: "qt_current (eq_threads q ! me) = Some el" using assms(2) ts by simp
  have el: "el \<in> set as" using assms(3) xs by (auto simp: entries_def)
  obtain h' q' where r: "event_queue_remove lo k me (h, q) = Inr (0, h', q')"
    "represents k (h', q') (remove1 el as)" "ms h' = (ms h)(el := None)"
    "eq_threads q' = (eq_threads q)[me := idle_thread]"
    using remove_refines[OF rep cur el] by metis
  have "remove1 el as = filter (\<lambda>a. a \<noteq> el) as"
    using representsD(7)[OF rep] by (auto simp: distinct_remove1_removeAll removeAll_filter_not_eq intro: filter_cong)
  moreover have "entries h' (filter (\<lambda>a. a \<noteq> el) as) = filter (\<lambda>x. fst x \<noteq> el) xs"
    using r(3) by (auto simp: xs entries_def filter_map o_def msg_at_def)
  ultimately show ?thesis using eq_repI[OF r(2)] r(1,4) s ts by auto
qed

interpretation ring_queue: job_queue "eq_rep k" eq_allocated "event_queue_insert hi k"
  event_queue_get "event_queue_remove lo k" for k hi lo
proof
  show "distinct (map fst xs)" if "eq_rep k s xs ts" for s xs ts
    using that by (auto simp: eq_rep_def represents_def ring_def)
  show "eq_allocated s (fst x)" if "eq_rep k s xs ts" "x \<in> set xs" for s xs ts x
    using that representsD(2)[of k "fst s" "snd s" "map fst xs" "fst x"]
    by (auto simp: eq_rep_def eq_allocated_def)
qed (rule eq_enq_law eq_ask_law eq_rem_law; assumption)+


section \<open>Executions keep the invariant\<close>

definition il_inv :: "nat \<Rightarrow> il_state \<Rightarrow> entry list \<Rightarrow> bool" where
  "il_inv k s xs \<longleftrightarrow>
     eq_rep k (il_heap s, il_queue s) xs (eq_threads (il_queue s)) \<and>
     delivery_inv xs (eq_threads (il_queue s)) (inserted s) (delivered s)"

lemma eq_rep_threads: "eq_rep k (h, q) xs ts \<Longrightarrow> ts = eq_threads q"
  by (simp add: eq_rep_def)

lemma il_insert_keeps: "il_inv k s xs \<Longrightarrow> \<exists>s' xs'. il_insert hi k el m s = Inr s' \<and> il_inv k s' xs'"
proof (cases "il_heap s el = None")
  case True
  assume inv: "il_inv k s xs"
  with True ring_queue.enq_keeps[of k "(il_heap s, il_queue s)" xs "eq_threads (il_queue s)"
      "inserted s" "delivered s" el hi m]
  obtain r h q xs' where "event_queue_insert hi k el m (il_heap s, il_queue s) = Inr (r, h, q)"
    "eq_rep k (h, q) xs' (eq_threads (il_queue s))"
    "delivery_inv xs' (eq_threads (il_queue s)) (if r = 0 then inserted s @ [m] else inserted s) (delivered s)"
    by (auto simp: il_inv_def eq_allocated_def)
  moreover from this(2) have "eq_threads q = eq_threads (il_queue s)" by (auto dest: eq_rep_threads)
  ultimately show ?thesis using True by (auto simp: il_insert_def il_inv_def)
qed (auto simp: il_insert_def)

lemma il_get_keeps: "il_inv k s xs \<Longrightarrow> \<exists>s' xs'. il_get me want s = Inr s' \<and> il_inv k s' xs'"
proof -
  assume inv: "il_inv k s xs"
  with ring_queue.ask_keeps[of k "(il_heap s, il_queue s)" xs "eq_threads (il_queue s)"
      "inserted s" "delivered s" me want]
  obtain r h q t where "event_queue_get me want (il_heap s, il_queue s) = Inr (r, h, q)"
    "eq_rep k (h, q) xs ((eq_threads (il_queue s))[me := t])"
    "delivery_inv xs ((eq_threads (il_queue s))[me := t]) (inserted s) (delivered s)"
    by (auto simp: il_inv_def)
  moreover from this(2) have "eq_threads q = (eq_threads (il_queue s))[me := t]" by (auto dest: eq_rep_threads)
  ultimately show ?thesis by (auto simp: il_get_def il_inv_def)
qed

lemma entry_cell:
  assumes "eq_rep k (h, q) xs ts" and "(el, m) \<in> set xs"
  shows "\<exists>c. rd h el = Inr c \<and> cell_msg c = m"
proof -
  from assms(1) obtain as where as: "represents k (h, q) as" "xs = entries h as" by (rule eq_repE)
  with assms(2) have "el \<in> set as" and m: "m = msg_at h el" by (auto simp: entries_def)
  from representsD(2)[OF as(1) this(1)] show ?thesis by (auto simp: rd_def m msg_at_def ms_def)
qed

lemma il_ack_exact:
  assumes inv: "il_inv k s xs" and me: "me < length (eq_threads (il_queue s))"
    and cur: "qt_current (eq_threads (il_queue s) ! me) = Some el"
  obtains s' c where "il_ack lo k me s = Inr s'" and "rd (il_heap s) el = Inr c"
    and "(el, cell_msg c) \<in> set xs" and "il_inv k s' (filter (\<lambda>x. fst x \<noteq> el) xs)"
    and "delivered s' = delivered s @ [cell_msg c]" and "inserted s' = inserted s"
    and "eq_threads (il_queue s') = (eq_threads (il_queue s))[me := idle_thread]"
proof -
  from cur inv me ring_queue.rem_keeps[of k "(il_heap s, il_queue s)" xs "eq_threads (il_queue s)"
      "inserted s" "delivered s" me el lo]
  obtain h q m where r: "event_queue_remove lo k me (il_heap s, il_queue s) = Inr (0, h, q)"
    "(el, m) \<in> set xs"
    "eq_rep k (h, q) (filter (\<lambda>x. fst x \<noteq> el) xs) ((eq_threads (il_queue s))[me := idle_thread])"
    "delivery_inv (filter (\<lambda>x. fst x \<noteq> el) xs) ((eq_threads (il_queue s))[me := idle_thread])
       (inserted s) (delivered s @ [m])"
    by (auto simp: il_inv_def)
  from inv r(2) obtain c where c: "rd (il_heap s) el = Inr c" "cell_msg c = m"
    by (auto simp: il_inv_def dest: entry_cell)
  from r(3) have t: "eq_threads q = (eq_threads (il_queue s))[me := idle_thread]"
    by (auto dest: eq_rep_threads)
  show ?thesis
    by (rule that[of "s\<lparr>il_heap := h, il_queue := q, delivered := delivered s @ [m]\<rparr>" c])
      (use r c t cur in \<open>auto simp: il_ack_def il_inv_def\<close>)
qed

lemma il_ack_keeps:
  assumes inv: "il_inv k s xs" and me: "me < length (eq_threads (il_queue s))"
  shows "\<exists>s' xs'. il_ack lo k me s = Inr s' \<and> il_inv k s' xs'"
proof (cases "qt_current (eq_threads (il_queue s) ! me)")
  case (Some el)
  from il_ack_exact[OF inv me this, of lo] show ?thesis by metis
qed (use inv in \<open>auto simp: il_ack_def\<close>)

lemma il_release_keeps:
  assumes "il_inv k s xs" shows "il_inv k (s\<lparr>il_queue := release me (il_queue s)\<rparr>) xs"
  using assms inv_release[of xs "eq_threads (il_queue s)"]
  by (auto simp: il_inv_def release_def eq_rep_def)

lemma il_exec_keeps:
  assumes "il_inv k s xs" shows "\<exists>s' xs'. il_exec hi lo k a s = Inr s' \<and> il_inv k s' xs'"
proof (cases a)
  case (Insert el m)
  then show ?thesis using il_insert_keeps[OF assms] by (simp add: il_exec_def)
next
  case (Get me want)
  then show ?thesis using il_get_keeps[OF assms] assms by (auto simp: il_exec_def)
next
  case (Ack me)
  then show ?thesis using il_ack_keeps[OF assms] assms by (auto simp: il_exec_def)
next
  case (Release me)
  then show ?thesis using il_release_keeps[OF assms] by (auto simp: il_exec_def)
qed

lemma il_run_keeps: "il_inv k s xs \<Longrightarrow> \<exists>s' xs'. il_run hi lo k ops s = Inr s' \<and> il_inv k s' xs'"
proof (induction ops arbitrary: s xs)
  case (Cons a ops)
  from il_exec_keeps[OF Cons.prems] obtain s' xs' where "il_exec hi lo k a s = Inr s'" "il_inv k s' xs'"
    by metis
  with Cons.IH[OF this(2)] show ?case by auto
qed auto

lemma il_init_inv: "il_inv k (il_init n) []"
  by (auto simp: il_inv_def il_init_def new_queue_def eq_rep_def represents_def ring_def entries_def
      delivery_inv_def exclusive_def in_order_def)

section \<open>The sending loop\<close>

lemma il_get_exact:
  assumes inv: "il_inv k s xs" and me: "me < length (eq_threads (il_queue s))"
  obtains found h q where "event_queue_get me True (il_heap s, il_queue s) = Inr (found, h, q)"
    and "il_inv k (s\<lparr>il_heap := h, il_queue := q\<rparr>) xs"
    and "found = map_option fst (first_free (eq_threads (il_queue s)) me xs)"
    and "length (eq_threads q) = length (eq_threads (il_queue s))"
    and "\<And>el. found = Some el \<Longrightarrow> qt_current (eq_threads q ! me) = Some el"
proof -
  let ?ts = "eq_threads (il_queue s)" and ?f = "first_free (eq_threads (il_queue s)) me xs"
  from inv have rep: "eq_rep k (il_heap s, il_queue s) xs ?ts"
    and d: "delivery_inv xs ?ts (inserted s) (delivered s)" by (auto simp: il_inv_def)
  from ring_queue.ask_law[OF rep, of me True] obtain h q where
    r: "event_queue_get me True (il_heap s, il_queue s) = Inr (map_option fst ?f, h, q)"
    "eq_rep k (h, q) xs (?ts[me := asked (?ts ! me) True ?f])" by auto
  then have t: "eq_threads q = ?ts[me := asked (?ts ! me) True ?f]" by (auto dest: eq_rep_threads)
  show ?thesis
    by (rule that[OF r(1)])
      (use r t inv_ask[OF d, of me True] me in \<open>auto simp: il_inv_def asked_def\<close>)
qed

lemma il_inv_empty: "il_inv k s xs \<Longrightarrow> event_queue_empty (il_queue s) = (xs = [])"
  by (auto simp: il_inv_def eq_rep_def represents_def event_queue_empty_def)

definition settled :: "int \<Rightarrow> il_state \<Rightarrow> il_state \<Rightarrow> server_msg list \<Rightarrow> bool" where
  "settled r s s' cs \<longleftrightarrow> inserted s' = inserted s \<and>
     (delivered s' = delivered s @ cs \<or>
      (r < 0 \<and> cs \<noteq> [] \<and> delivered s' = delivered s @ butlast cs))"

lemma settled_Cons:
  "settled r s1 s2 cs \<Longrightarrow> inserted s1 = inserted s \<Longrightarrow> delivered s1 = delivered s @ [m] \<Longrightarrow>
     settled r s s2 (m # cs)"
  by (auto simp: settled_def)

lemma event_queue_send_correct:
  assumes "il_inv k s xs" and "me < length (eq_threads (il_queue s))" and "length xs < fuel"
  shows "\<exists>r s' cs xs'. event_queue_send fuel lo k me commit_ok confirm answer s = Inr (r, s', cs) \<and>
    il_inv k s' xs' \<and> settled r s s' cs"
  using assms
proof (induction fuel arbitrary: s xs answer)
  case (Suc fuel)
  note inv = Suc.prems(1) and me = Suc.prems(2)
  show ?case
  proof (cases "event_queue_empty (il_queue s)")
    case True
    then show ?thesis using inv by (auto simp: settled_def)
  next
    case False
    obtain found h q where g: "event_queue_get me True (il_heap s, il_queue s) = Inr (found, h, q)"
      "il_inv k (s\<lparr>il_heap := h, il_queue := q\<rparr>) xs"
      "length (eq_threads q) = length (eq_threads (il_queue s))"
      "\<And>el. found = Some el \<Longrightarrow> qt_current (eq_threads q ! me) = Some el"
      using il_get_exact[OF inv me] by metis
    let ?s = "s\<lparr>il_heap := h, il_queue := q\<rparr>"
    show ?thesis
    proof (cases found)
      case None
      then show ?thesis using g False by (auto simp: settled_def)
    next
      case (Some el)
      have me': "me < length (eq_threads (il_queue ?s))" using g(3) me by simp
      have "qt_current (eq_threads (il_queue ?s) ! me) = Some el" using g(4) Some by simp
      from il_ack_exact[OF g(2) me' this, where lo = lo] obtain s1 c where
        a: "il_ack lo k me ?s = Inr s1" "rd h el = Inr c" "(el, cell_msg c) \<in> set xs"
        "il_inv k s1 (filter (\<lambda>x. fst x \<noteq> el) xs)" "delivered s1 = delivered s @ [cell_msg c]"
        "inserted s1 = inserted s" "eq_threads (il_queue s1) = (eq_threads q)[me := idle_thread]"
        by auto
      have "length (filter (\<lambda>x. fst x \<noteq> el) xs) < fuel"
        using length_filter_less[OF a(3), of "\<lambda>x. fst x \<noteq> el"] Suc.prems(3) by simp
      with Suc.IH[OF a(4), where answer = "\<lambda>i. answer (i + 1)"] a(7) g(3) me
      obtain r s2 cs xs2 where
        n: "event_queue_send fuel lo k me commit_ok confirm (\<lambda>i. answer (i + 1)) s1 = Inr (r, s2, cs)"
        "il_inv k s2 xs2" "settled r s1 s2 cs" by auto
      from settled_Cons[OF n(3) a(6,5)] have "settled r s s2 (cell_msg c # cs)" .
      moreover have "settled 0 s ?s []" "settled (- 1) s ?s []"
        "\<And>v. v < 0 \<Longrightarrow> settled v s ?s [cell_msg c]" by (auto simp: settled_def)
      ultimately show ?thesis
        using g(1,2) Some a(1,2) n(1,2) False
        by (cases "sent_reply (cell_msg c) (answer 0)") (auto simp: Let_def)
    qed
  qed
qed simp

text \<open>All replies settle the messages, all commits and confirmations work.\<close>

definition all_accepted ::
  "(server_msg \<Rightarrow> bool) \<Rightarrow> (server_msg \<Rightarrow> int \<Rightarrow> int \<Rightarrow> int) \<Rightarrow> (nat \<Rightarrow> send_outcome) \<Rightarrow> bool" where
  "all_accepted commit_ok confirm answer \<longleftrightarrow>
     (\<forall>m. commit_ok m) \<and> (\<forall>m c cm. confirm m c cm \<ge> 0) \<and>
     (\<forall>i. \<exists>c cm. answer i = Reply c cm \<and> \<not> try_later c cm)"

lemma all_accepted_shift: "all_accepted ok cf answer \<Longrightarrow> all_accepted ok cf (\<lambda>i. answer (i + 1))"
  by (simp add: all_accepted_def)

lemma all_accepted_outcome:
  assumes "all_accepted ok cf answer"
  obtains c cm where "sent_reply m (answer 0) = Reply c cm" and "\<not> try_later c cm"
proof (cases "msg_len m = 0")
  case True
  then show ?thesis using that[of 0 0] by (simp add: sent_reply_def try_later_def)
next
  case False
  from assms obtain c cm where "answer 0 = Reply c cm" "\<not> try_later c cm" unfolding all_accepted_def by blast
  then show ?thesis using that False by (simp add: sent_reply_def)
qed

lemma send_drains_rep:
  assumes "eq_rep k (il_heap s, il_queue s) xs ts" and "\<And>t. t \<in> set ts \<Longrightarrow> t = idle_thread"
    and "me < length ts" and "length xs < fuel" and "all_accepted ok cf answer"
  shows "\<exists>s'. event_queue_send fuel lo k me ok cf answer s = Inr (1, s', map snd xs) \<and>
    event_queue_empty (il_queue s') \<and> delivered s' = delivered s @ map snd xs"
  using assms
proof (induction xs arbitrary: s fuel answer)
  case Nil
  then have "event_queue_empty (il_queue s)" by (simp add: eq_rep_def represents_def event_queue_empty_def)
  then show ?case using Nil.prems(4) by (cases fuel) auto
next
  case (Cons x xs)
  obtain el m where x: "x = (el, m)" by (cases x)
  obtain f where f: "fuel = Suc f" "length xs < f" using Cons.prems(4) by (cases fuel) auto
  from ring_queue.take_first[OF Cons.prems(1)[unfolded x] Cons.prems(2,3), where lo = lo]
  obtain h q h' q' where t: "event_queue_get me True (il_heap s, il_queue s) = Inr (Some el, h, q)"
    "eq_rep k (h, q) ((el, m) # xs) (ts[me := \<lparr>qt_current = Some el, qt_jobid = Some (job_id_s m)\<rparr>])"
    "event_queue_remove lo k me (h, q) = Inr (0, h', q')" "eq_rep k (h', q') xs ts"
    by auto
  obtain c where c: "rd h el = Inr c" "cell_msg c = m" using entry_cell[OF t(2), of el m] by auto
  have "qt_current (eq_threads q ! me) = Some el"
    using eq_rep_threads[OF t(2)] Cons.prems(3) by (metis nth_list_update_eq queue_thread.select_convs(1))
  then have ack: "il_ack lo k me (s\<lparr>il_heap := h, il_queue := q\<rparr>) =
      Inr (s\<lparr>il_heap := h', il_queue := q', delivered := delivered s @ [m]\<rparr>)" (is "_ = Inr ?s")
    using t(3) c by (simp add: il_ack_def)
  have ne: "\<not> event_queue_empty (il_queue s)"
    using Cons.prems(1) by (simp add: eq_rep_def represents_def event_queue_empty_def)
  obtain cd cm where o: "sent_reply m (answer 0) = Reply cd cm" "\<not> try_later cd cm"
    using all_accepted_outcome[OF Cons.prems(5)] .
  have ok: "ok m" "\<not> cf m cd cm < 0" using Cons.prems(5) by (auto simp: all_accepted_def not_less)
  from Cons.IH[of ?s f "\<lambda>i. answer (i + 1)"] t(4) Cons.prems(2,3) f(2) all_accepted_shift[OF Cons.prems(5)]
  obtain s' where "event_queue_send f lo k me ok cf (\<lambda>i. answer (i + 1)) ?s = Inr (1, s', map snd xs)"
    "event_queue_empty (il_queue s')" "delivered s' = delivered ?s @ map snd xs"
    by auto
  then show ?case using ne t(1) c ack o ok by (auto simp: f x)
qed

lemma il_invE:
  assumes "il_inv k s xs"
  obtains as where "represents k (il_heap s, il_queue s) as" and "xs = entries (il_heap s) as"
  using assms by (auto simp: il_inv_def elim: eq_repE)

lemma il_inv_run:
  assumes "il_run hi lo k ops (il_init n) = Inr s"
  obtains xs where "il_inv k s xs" and "length xs = nat (cur_len (il_queue s))"
proof -
  from il_run_keeps[OF il_init_inv[of k n], where hi = hi and lo = lo and ops = ops] assms
  obtain xs where inv: "il_inv k s xs" by auto
  then obtain as where "represents k (il_heap s, il_queue s) as" "xs = entries (il_heap s) as"
    by (rule il_invE)
  then show ?thesis using that inv by (simp add: representsD(6) entries_def)
qed

lemma il_inv_conserved:
  assumes "il_inv k s (entries (il_heap s) as)"
  shows "mset (delivered s) + mset (map (msg_at (il_heap s)) as) = mset (inserted s)"
  using assms by (auto simp: il_inv_def delivery_inv_def simp flip: mset_map)

section \<open>Properties\<close>

text \<open>
  C4. Whatever the order in which messages come in and the threads of a queue ask for them and
  confirm them, no operation touches freed memory or loops for ever; a message that went in was
  delivered or waits in the queue, exactly once; and two threads never work on the same job.
\<close>

theorem delivery_exactly_once:
  "\<exists>s as. il_run hi lo k ops (il_init n) = Inr s \<and>
     represents k (il_heap s, il_queue s) as \<and>
     mset (delivered s) + mset (map (msg_at (il_heap s)) as) = mset (inserted s) \<and>
     exclusive (eq_threads (il_queue s))"
proof -
  from il_run_keeps[OF il_init_inv] obtain s xs where
    s: "il_run hi lo k ops (il_init n) = Inr s" "il_inv k s xs" by blast
  from s(2) obtain as where "represents k (il_heap s, il_queue s) as" "xs = entries (il_heap s) as"
    by (rule il_invE)
  then show ?thesis using s il_inv_conserved by (auto simp: il_inv_def delivery_inv_def)
qed

text \<open>
  C10. When no message asks for a confirmation (asynchronous logging), the messages of every job
  are delivered in the order in which they came in, whatever the interleaving of the threads.
\<close>

theorem delivery_in_order:
  assumes "il_run hi lo k ops (il_init n) = Inr s" and "no_priority (inserted s)"
  shows "\<exists>as. represents k (il_heap s, il_queue s) as \<and>
    (\<forall>j. filter (of_job j) (delivered s) @ filter (of_job j) (map (msg_at (il_heap s)) as) =
          filter (of_job j) (inserted s))"
proof -
  from assms(1) obtain xs where s: "il_inv k s xs" by (rule il_inv_run)
  then obtain as where "represents k (il_heap s, il_queue s) as" "xs = entries (il_heap s) as"
    by (rule il_invE)
  then show ?thesis using s assms(2) by (auto simp: il_inv_def delivery_inv_def in_order_def)
qed

definition ex_ops :: "il_op list" where
  "ex_ops = [Insert 1 (ex_msg ''a'' 0 0), Insert 2 (ex_msg ''a'' 10 0), Insert 3 (ex_msg ''b'' 20 0),
     Get 0 True, Get 1 True, Ack 1, Ack 0, Get 1 False, Get 1 True]"

lemma ex_run:
  "\<exists>s. il_run 0 0 7 ex_ops (il_init 2) = Inr s \<and>
     inserted s = [ex_msg ''a'' 0 0, ex_msg ''a'' 10 0, ex_msg ''b'' 20 0] \<and>
     delivered s = [ex_msg ''b'' 20 0, ex_msg ''a'' 0 0] \<and> length (eq_threads (il_queue s)) = 2 \<and>
     cur_len (il_queue s) = 1"
  by (simp add: ex_ops_def il_init_def new_queue_def il_exec_def il_insert_def il_get_def il_ack_def
      event_queue_insert_def event_queue_get_def event_queue_remove_def unlink_def link_in_def
      link_out_def rd_def wr_def count_in_def set_thread_def idle_thread_def unthrottle_def
      busy_elsewhere_def server_msg_is_priority_def ex_msg_def Let_def eval_nat_numeral upt_rec)

theorem delivery_in_order_witness:
  "\<exists>s as. il_run 0 0 7 ex_ops (il_init 2) = Inr s \<and> represents 7 (il_heap s, il_queue s) as \<and>
     filter (of_job ''a'') (delivered s) @ filter (of_job ''a'') (map (msg_at (il_heap s)) as) =
       [ex_msg ''a'' 0 0, ex_msg ''a'' 10 0]"
proof -
  obtain s where s: "il_run 0 0 7 ex_ops (il_init 2) = Inr s"
    "inserted s = [ex_msg ''a'' 0 0, ex_msg ''a'' 10 0, ex_msg ''b'' 20 0]" using ex_run by blast
  then have "no_priority (inserted s)" by (simp add: no_priority_def server_msg_is_priority_def ex_msg_def)
  from delivery_in_order[OF s(1) this] s show ?thesis by (auto simp: of_job_def ex_msg_def)
qed

text \<open>
  Sending in the face of errors: whatever the network, the event store and the waiting
  clients do, the loop ends after at most one round per message, the queue stays intact, and the
  messages removed are exactly the committed ones, in this order. Only a confirmation that fails
  leaves a message in the queue that is committed already: it will be sent and committed again.
\<close>

theorem event_queue_send_settles:
  assumes "il_run hi lo k ops (il_init n) = Inr s" and "me < length (eq_threads (il_queue s))"
    and "nat (cur_len (il_queue s)) < fuel"
  shows "\<exists>r s' cs as. event_queue_send fuel lo k me commit_ok confirm answer s = Inr (r, s', cs) \<and>
    represents k (il_heap s', il_queue s') as \<and> inserted s' = inserted s \<and>
    mset (delivered s') + mset (map (msg_at (il_heap s')) as) = mset (inserted s') \<and>
    (delivered s' = delivered s @ cs \<or> r < 0 \<and> cs \<noteq> [] \<and> delivered s' = delivered s @ butlast cs)"
proof -
  from assms(1) obtain xs where inv: "il_inv k s xs" and "length xs = nat (cur_len (il_queue s))"
    by (rule il_inv_run)
  then have "length xs < fuel" using assms(3) by simp
  from event_queue_send_correct[OF inv assms(2) this] obtain r s' cs xs' where
    r: "event_queue_send fuel lo k me commit_ok confirm answer s = Inr (r, s', cs)"
    "il_inv k s' xs'" "settled r s s' cs" by metis
  from r(2) obtain as where as: "represents k (il_heap s', il_queue s') as" "xs' = entries (il_heap s') as"
    by (rule il_invE)
  then show ?thesis using r il_inv_conserved[of k s' as] unfolding settled_def by blast
qed

theorem event_queue_send_settles_witness:
  "\<exists>s r s' cs as. il_run 0 0 7 ex_ops (il_init 2) = Inr s \<and>
     event_queue_send 2 0 7 0 (\<lambda>m. True) (\<lambda>m c cm. 0) (\<lambda>i. No_reply) s = Inr (r, s', cs) \<and>
     represents 7 (il_heap s', il_queue s') as \<and>
     mset (delivered s') + mset (map (msg_at (il_heap s')) as) = mset (inserted s')"
proof -
  obtain s where s: "il_run 0 0 7 ex_ops (il_init 2) = Inr s" "length (eq_threads (il_queue s)) = 2"
    "cur_len (il_queue s) = 1" using ex_run by blast
  then have "0 < length (eq_threads (il_queue s))" "nat (cur_len (il_queue s)) < 2" by simp_all
  from event_queue_send_settles[OF s(1) this, of "\<lambda>m. True" "\<lambda>m c cm. 0" "\<lambda>i. No_reply"]
  show ?thesis using s(1) by blast
qed

text \<open>
  Sending makes progress: when no other thread works on the queue and the server settles
  every message, the loop sends all of them in the order of the queue, commits and removes them,
  and ends with an empty queue.
\<close>

theorem event_queue_send_drains:
  assumes "represents k (il_heap s, il_queue s) as" and "set (eq_threads (il_queue s)) \<subseteq> {idle_thread}"
    and "me < length (eq_threads (il_queue s))" and "length as < fuel" and "all_accepted ok cf answer"
  shows "\<exists>s'. event_queue_send fuel lo k me ok cf answer s = Inr (1, s', map (msg_at (il_heap s)) as) \<and>
    event_queue_empty (il_queue s') \<and> delivered s' = delivered s @ map (msg_at (il_heap s)) as"
  using send_drains_rep[OF eq_repI[OF assms(1)], of me fuel ok cf answer lo] assms(2-)
  by (simp add: entries_def subset_iff o_def)

theorem event_queue_send_drains_witness:
  "\<exists>s'. event_queue_send 3 0 0 0 (\<lambda>m. True) (\<lambda>m c cm. 0) (\<lambda>i. Reply 0 0)
       \<lparr>il_heap = ex_heap, il_queue = ex_queue\<lparr>eq_threads := [idle_thread]\<rparr>, inserted = [], delivered = []\<rparr> =
      Inr (1, s', [ex_msg ''a'' 0 5, ex_msg ''b'' 10 5]) \<and> event_queue_empty (il_queue s')"
proof -
  have "represents 0 (ex_heap, ex_queue\<lparr>eq_threads := [idle_thread]\<rparr>) [1, 2]"
    using ex_queue_represents by (simp add: represents_def)
  moreover have "all_accepted (\<lambda>m. True) (\<lambda>m c cm. 0) (\<lambda>i. Reply 0 0)"
    by (simp add: all_accepted_def try_later_def)
  ultimately show ?thesis
    using event_queue_send_drains[of 0 "\<lparr>il_heap = ex_heap, il_queue = ex_queue\<lparr>eq_threads := [idle_thread]\<rparr>,
        inserted = [], delivered = []\<rparr>" "[1, 2]" 0 3 "\<lambda>m. True" "\<lambda>m c cm. 0" "\<lambda>i. Reply 0 0" 0]
    by (auto simp: msg_at_def ms_def ex_heap_def)
qed

end
