(* ===== verification/LB_StoreRun.thy ===== *)
theory LB_StoreRun
  imports LB_EventStore LB_Delivery
begin

text \<open>
  The way of an event through the interlogger: from the file it is logged to, through the
  queue, to the bookkeeping server, across restarts. The store relies on its queue through
  the locale \<open>message_queue\<close>; the ring of \<^verbatim>\<open>event_queue.c\<close> with a delivery thread is the
  instance. The result: no event is lost, sent twice after it was committed, or reordered, and
  the files are removed only when nothing of them is left to send; and the cases in which the
  code does not keep this.
\<close>

section \<open>Events as lines\<close>

fun lines :: "string list \<Rightarrow> string" where
  "lines [] = []"
| "lines (e # es) = e @ LF # lines es"

definition lsize :: "string list \<Rightarrow> int" where
  "lsize es = int (length (lines es))"

lemma lines_append: "lines (xs @ ys) = lines xs @ lines ys"
  by (induction xs) simp_all

lemma lsize_simps [simp]:
  "lsize [] = 0" "lsize (e # es) = int (length e) + 1 + lsize es" "lsize (xs @ ys) = lsize xs + lsize ys"
  by (simp_all add: lsize_def lines_append)

lemma lsize_nonneg [simp]: "0 \<le> lsize es" by (simp add: lsize_def)

lemma lsize_0 [simp]: "(lsize es = 0) = (es = [])"
  by (cases es) (auto simp: lsize_def)

lemma lsize_take_le: "lsize (take n es) \<le> lsize es"
  using lsize_simps(3)[of "take n es" "drop n es"] lsize_nonneg[of "drop n es"] by simp

lemma lines_boundary:
  assumes "xs \<noteq> []"
  shows "(lines xs @ r) ! (length (lines xs) - 1) = LF"
proof -
  obtain ys e where "xs = ys @ [e]" using assms by (cases xs rule: rev_cases) auto
  then have "lines xs = (lines ys @ e) @ [LF]" by (simp add: lines_append)
  then show ?thesis by (simp add: nth_append)
qed

definition plain :: "string \<Rightarrow> bool" where
  "plain e \<longleftrightarrow> LF \<notin> set e \<and> NUL \<notin> set e"

lemma read_event_string_line:
  "plain e \<Longrightarrow> read_event_string (e @ LF # r) = Some (e, r, length e + 1)"
  by (auto simp: read_event_string_def Let_def plain_def c_str_id takeWhile_append)

lemma read_event_string_none [simp]: "LF \<notin> set r \<Longrightarrow> read_event_string r = None"
  by (simp add: read_event_string_def)

text \<open>An event that becomes a message which nobody waits for.\<close>

definition ordinary :: "(string \<Rightarrow> string option) \<Rightarrow> string \<Rightarrow> bool" where
  "ordinary getJobId e \<longleftrightarrow> plain e \<and>
     (case create_msg e of Inr (Some (w, receipt, x)) \<Rightarrow> receipt = 0 | _ \<Rightarrow> False) \<and> getJobId e \<noteq> None"

definition the_msg :: "(string \<Rightarrow> string option) \<Rightarrow> event_store \<Rightarrow> int \<Rightarrow> string \<Rightarrow> server_msg" where
  "the_msg getJobId es off e =
     (case server_msg_create getJobId e off of
        Inr (Some m) \<Rightarrow> m\<lparr>msg_generation := es_generation es\<rparr> | _ \<Rightarrow> undefined)"

definition wire :: "string \<Rightarrow> string" where
  "wire e = (case encode_il_msg e of Inr w \<Rightarrow> w | Inl _ \<Rightarrow> [])"

lemma ordinary_msg:
  assumes "ordinary g e"
  shows "\<exists>m. server_msg_create g e off = Inr (Some m) \<and> m\<lparr>msg_generation := es_generation es\<rparr> = the_msg g es off e"
    and "ev_len (the_msg g es off e) = int (length e) + 1"
    and "msg_generation (the_msg g es off e) = es_generation es"
    and "\<not> server_msg_is_priority (the_msg g es off e)"
    and "msg_bytes (the_msg g es off e) = wire e"
proof -
  from assms obtain w x j where c: "create_msg e = Inr (Some (w, 0, x))" "g e = Some j"
    by (auto simp: ordinary_def split: sum.splits option.splits)
  then have w: "wire e = w"
    by (auto simp: create_msg_def wire_def res_simps split: option.splits)
  let ?m = "\<lparr>job_id_s = j, msg_bytes = w, msg_len = int (length w), ev_len = int (length e) + 1,
     receipt_to = 0, msg_offset = off, msg_generation = 0, msg_expires = x\<rparr>"
  have m: "server_msg_create g e off = Inr (Some ?m)" using c by (simp add: server_msg_create_def)
  then have t: "the_msg g es off e = ?m\<lparr>msg_generation := es_generation es\<rparr>" by (simp add: the_msg_def)
  show "\<exists>m. server_msg_create g e off = Inr (Some m) \<and> m\<lparr>msg_generation := es_generation es\<rparr> = the_msg g es off e"
    using m t by auto
  show "ev_len (the_msg g es off e) = int (length e) + 1"
    "msg_generation (the_msg g es off e) = es_generation es"
    "\<not> server_msg_is_priority (the_msg g es off e)" "msg_bytes (the_msg g es off e) = wire e"
    using t w by (simp_all add: server_msg_is_priority_def)
qed

section \<open>The control file\<close>

definition wordlike :: "string \<Rightarrow> bool" where
  "wordlike s \<longleftrightarrow> s \<noteq> [] \<and> (\<forall>c \<in> set s. \<not> isspace c)"

lemma isspace_LF [simp]: "isspace LF" by (simp add: isspace_def)

lemma scan_long_LF: "scan_long (LF # r) = scan_long r"
  by (simp add: scan_long_def)

lemma read_write_ctl:
  assumes "wordlike (es_job es)" and "in_long (last_committed_ls es)" and "in_long (last_committed_bs es)"
    and "files d (control_file_name es') = Some (ctl_text es)"
  shows "event_store_read_ctl d es' =
    es'\<lparr>last_committed_ls := last_committed_ls es, last_committed_bs := last_committed_bs es\<rparr>"
proof -
  let ?r = "LF # show_int (last_committed_ls es) @ LF # show_int (last_committed_bs es) @ [LF]"
  obtain c cs where j: "es_job es = c # cs" "\<not> isspace c" using assms(1) by (cases "es_job es") (auto simp: wordlike_def)
  have "dropWhile isspace (ctl_text es) = ctl_text es" using j by (simp add: ctl_text_def)
  moreover have "dropWhile (\<lambda>c. \<not> isspace c) (ctl_text es) = ?r"
    using assms(1) unfolding ctl_text_def by (subst dropWhile_append2) (auto simp: wordlike_def)
  moreover have "scan_long ?r = Some (last_committed_ls es, LF # show_int (last_committed_bs es) @ [LF])"
    using assms(2) by (simp add: scan_long_LF scan_long_show_int)
  moreover have "scan_long (LF # show_int (last_committed_bs es) @ [LF]) = Some (last_committed_bs es, [LF])"
    using assms(3) by (simp add: scan_long_LF scan_long_show_int)
  ultimately show ?thesis using assms(4) by (simp add: event_store_read_ctl_def)
qed

section \<open>The reading loop\<close>

text \<open>A queue as the stores see it: it takes a message at its end, is full, or fails.\<close>

locale message_queue =
  fixes rep :: "'q \<Rightarrow> server_msg list \<Rightarrow> bool"
    and enq :: "bool \<Rightarrow> server_msg \<Rightarrow> 'q \<Rightarrow> int \<times> 'q"
    and deq :: "'q \<Rightarrow> (server_msg \<times> 'q) option"
    and nilq :: 'q
  assumes rep_empty: "rep nilq []"
    and enq_law: "rep q xs \<Longrightarrow> \<not> server_msg_is_priority m \<Longrightarrow>
      \<exists>r q'. enq False m q = (r, q') \<and> rep q' (if r = 0 then xs @ [m] else xs)"
    and deq_Cons: "rep q (m # xs) \<Longrightarrow> \<exists>q'. deq q = Some (m, q') \<and> rep q' xs"
    and deq_Nil: "rep q [] \<Longrightarrow> deq q = None"

lemma read_loop_throttled:
  assumes "\<forall>e \<in> set evs. ordinary g e" and "LF \<notin> set r"
  shows "\<exists>ret'. read_loop g enq True False es (lines evs @ r) pos lst True ret q = Inr (Read_to ret' lst q)"
  using assms(1)
proof (induction evs arbitrary: pos ret)
  case Nil
  then show ?case using assms(2) by (simp add: read_loop.simps)
next
  case (Cons e evs)
  then have o: "ordinary g e" by simp
  then have rd: "read_event_string (lines (e # evs) @ r) = Some (e, lines evs @ r, length e + 1)"
    by (simp add: read_event_string_line ordinary_def)
  obtain m where "server_msg_create g e lst = Inr (Some m)" using ordinary_msg(1)[OF o] by blast
  moreover obtain ret' where "read_loop g enq True False es (lines evs @ r) (pos + int (length e + 1)) lst True 0 q =
      Inr (Read_to ret' lst q)" using Cons by force
  ultimately show ?case using rd
    by (subst read_loop.simps) (simp add: Let_def)
qed

text \<open>The messages for events that lie one after the other from an offset on.\<close>

fun msgs_from :: "(string \<Rightarrow> string option) \<Rightarrow> event_store \<Rightarrow> int \<Rightarrow> string list \<Rightarrow> server_msg list" where
  "msgs_from g es off [] = []"
| "msgs_from g es off (e # evs) = the_msg g es off e # msgs_from g es (off + int (length e) + 1) evs"

context message_queue
begin

lemma read_loop_enqueues:
  assumes "\<forall>e \<in> set evs. ordinary g e" and "LF \<notin> set r" and "rep q xs"
    and "last_committed_bs es \<le> lst"
  shows "\<exists>j ret' q'. j \<le> length evs \<and>
    read_loop g enq True False es (lines evs @ r) lst lst False ret q =
      Inr (Read_to ret' (lst + lsize (take j evs)) q') \<and>
    rep q' (xs @ msgs_from g es lst (take j evs))"
  using assms(1,3,4)
proof (induction evs arbitrary: lst ret q xs)
  case Nil
  then show ?case using assms(2) by (auto simp: read_loop.simps)
next
  case (Cons e evs)
  let ?m = "the_msg g es lst e"
  have o: "ordinary g e" using Cons.prems(1) by simp
  then have rd: "read_event_string (lines (e # evs) @ r) = Some (e, lines evs @ r, length e + 1)"
    by (simp add: read_event_string_line ordinary_def)
  obtain m where m: "server_msg_create g e lst = Inr (Some m)" "m\<lparr>msg_generation := es_generation es\<rparr> = ?m"
    using ordinary_msg(1)[OF o] by blast
  obtain r2 q2 where e: "enq False ?m q = (r2, q2)" "rep q2 (if r2 = 0 then xs @ [?m] else xs)"
    using enq_law[OF Cons.prems(2) ordinary_msg(4)[OF o]] by blast
  consider "r2 < 0" | "r2 > 0" | "r2 = 0" by linarith
  then show ?case
  proof cases
    case 1
    then show ?thesis using rd m e Cons.prems(3)
      by (intro exI[of _ "0::nat"]) (subst read_loop.simps, auto simp: Let_def)
  next
    case 2
    obtain ret' where "read_loop g enq True False es (lines evs @ r) (lst + int (length e + 1)) lst True 0 q2 =
        Inr (Read_to ret' lst q2)" using read_loop_throttled[of evs g r] Cons.prems(1) assms(2) by force
    then show ?thesis using 2 rd m e Cons.prems(3)
      by (intro exI[of _ "0::nat"]) (subst read_loop.simps, auto simp: Let_def)
  next
    case 3
    let ?l = "lst + int (length e + 1)"
    have "\<exists>j ret' q'. j \<le> length evs \<and>
      read_loop g enq True False es (lines evs @ r) ?l ?l False 0 q2 =
        Inr (Read_to ret' (?l + lsize (take j evs)) q') \<and>
      rep q' ((xs @ [?m]) @ msgs_from g es ?l (take j evs))"
      using Cons.IH[of q2 "xs @ [?m]" ?l 0] Cons.prems(1,3) e(2) 3 by simp
    then obtain j ret' q' where j: "j \<le> length evs"
      "read_loop g enq True False es (lines evs @ r) ?l ?l False 0 q2 =
        Inr (Read_to ret' (?l + lsize (take j evs)) q')"
      "rep q' ((xs @ [?m]) @ msgs_from g es ?l (take j evs))" by blast
    have "read_loop g enq True False es (lines (e # evs) @ r) lst lst False ret q =
        Inr (Read_to ret' (lst + lsize (take (Suc j) (e # evs))) q')"
      using 3 rd m e(1) j(2) Cons.prems(3) by (subst read_loop.simps) (simp add: Let_def ac_simps)
    moreover have "rep q' (xs @ msgs_from g es lst (take (Suc j) (e # evs)))"
      using j(3) by (simp add: ac_simps)
    ultimately show ?thesis using j(1) by (intro exI[of _ "Suc j"]) auto
  qed
qed

end


section \<open>The life of an event store\<close>

text \<open>
  What happens to the store of a job: the local logger appends an event to its file, the
  interlogger reads on, a message is accepted by the bookkeeping server and committed, the
  files are removed when they are not needed, the interlogger is restarted.
\<close>

datatype store_op = Log string int | Recover | Deliver | Clean | Restart

record 'q store_sys =
  sy_disk :: disk
  sy_es :: event_store
  sy_queue :: 'q
  logged :: "string list"
  accepted :: "server_msg list"

definition append_event :: "string \<Rightarrow> int \<Rightarrow> string \<Rightarrow> disk \<Rightarrow> disk" where
  "append_event e t name d =
     d\<lparr>files := (files d)(name \<mapsto> (case files d name of None \<Rightarrow> [] | Some x \<Rightarrow> x) @ e @ [LF]),
       mtimes := (mtimes d)(name := t)\<rparr>"

definition fresh_store :: "event_store \<Rightarrow> event_store" where
  "fresh_store es = es\<lparr>last_committed_ls := 0, last_committed_bs := 0, es_offset := 0,
     es_generation := 0, last_modified := 0\<rparr>"

text \<open>
  At the start a store is made for every event file that has an event, with the counts of its
  control file; a control file without its event file is removed.
\<close>

definition restart :: "disk \<Rightarrow> event_store \<Rightarrow> disk \<times> event_store" where
  "restart d es =
     (case files d (event_file_name es) of
        None \<Rightarrow> (d\<lparr>files := (files d)(control_file_name es := None)\<rparr>, fresh_store es)
      | Some x \<Rightarrow>
          (d, if read_event_string x = None then fresh_store es
              else event_store_read_ctl d (fresh_store es)))"

definition store_step ::
  "(string \<Rightarrow> string option) \<Rightarrow> (bool \<Rightarrow> server_msg \<Rightarrow> 'q \<Rightarrow> int \<times> 'q) \<Rightarrow>
   ('q \<Rightarrow> (server_msg \<times> 'q) option) \<Rightarrow> 'q \<Rightarrow> store_op \<Rightarrow> 'q store_sys \<Rightarrow> 'q store_sys res" where
  "store_step getJobId enq deq nilq a s =
     (case a of
        Log e t \<Rightarrow>
          Inr (s\<lparr>sy_disk := append_event e t (event_file_name (sy_es s)) (sy_disk s), logged := logged s @ [e]\<rparr>)
      | Recover \<Rightarrow>
          rbind (event_store_recover getJobId enq True False 0 0 (sy_disk s) (sy_es s) (sy_queue s))
            (\<lambda>(ret, d, es, q). Inr (s\<lparr>sy_disk := d, sy_es := es, sy_queue := q\<rparr>))
      | Deliver \<Rightarrow>
          (case deq (sy_queue s) of
             None \<Rightarrow> Inr s
           | Some (m, q) \<Rightarrow>
               (case event_store_commit True (ev_len m) False (msg_generation m) (sy_disk s) (sy_es s) of
                  (d, es) \<Rightarrow> Inr (s\<lparr>sy_disk := d, sy_es := es, sy_queue := q, accepted := accepted s @ [m]\<rparr>)))
      | Clean \<Rightarrow>
          (case event_store_clean (sy_disk s) (sy_es s) of
             (r, d, es) \<Rightarrow> Inr (s\<lparr>sy_disk := d, sy_es := (if r = 1 then fresh_store es else es)\<rparr>))
      | Restart \<Rightarrow>
          (case restart (sy_disk s) (sy_es s) of
             (d, es) \<Rightarrow> Inr (s\<lparr>sy_disk := d, sy_es := es, sy_queue := nilq\<rparr>)))"

fun store_run ::
  "(string \<Rightarrow> string option) \<Rightarrow> (bool \<Rightarrow> server_msg \<Rightarrow> 'q \<Rightarrow> int \<times> 'q) \<Rightarrow>
   ('q \<Rightarrow> (server_msg \<times> 'q) option) \<Rightarrow> 'q \<Rightarrow> store_op list \<Rightarrow> 'q store_sys \<Rightarrow> 'q store_sys res" where
  "store_run getJobId enq deq nilq [] s = Inr s"
| "store_run getJobId enq deq nilq (a # as) s =
     rbind (store_step getJobId enq deq nilq a s) (store_run getJobId enq deq nilq as)"

definition store_init :: "event_store \<Rightarrow> 'q \<Rightarrow> 'q store_sys" where
  "store_init es nilq =
     \<lparr>sy_disk = \<lparr>files = Map.empty, mtimes = (\<lambda>_. 0)\<rparr>, sy_es = fresh_store es, sy_queue = nilq,
      logged = [], accepted = []\<rparr>"

text \<open>The events that a sequence of steps logs.\<close>

fun log_events :: "store_op list \<Rightarrow> string list" where
  "log_events [] = []"
| "log_events (Log e t # as) = e # log_events as"
| "log_events (_ # as) = log_events as"

text \<open>
  The state of the files and counts: \<open>k\<close> of the events \<open>evs\<close> in the file are committed, \<open>j\<close>
  more are in the queue.
\<close>

definition on_disk :: "disk \<Rightarrow> event_store \<Rightarrow> string list \<Rightarrow> nat \<Rightarrow> bool" where
  "on_disk d es evs k \<longleftrightarrow>
     event_file_name es \<noteq> control_file_name es \<and> wordlike (es_job es) \<and> k \<le> length evs \<and>
     files d (event_file_name es) = (if evs = [] then None else Some (lines evs)) \<and>
     last_committed_ls es = lsize (take k evs) \<and> last_committed_bs es = lsize (take k evs) \<and>
     (if k = 0 then files d (control_file_name es) = None
      else files d (control_file_name es) = Some (ctl_text es))"

definition queued :: "event_store \<Rightarrow> server_msg list \<Rightarrow> string list \<Rightarrow> bool" where
  "queued es mm evs \<longleftrightarrow> map msg_bytes mm = map wire evs \<and>
     map ev_len mm = map (\<lambda>e. int (length e) + 1) evs \<and> (\<forall>m \<in> set mm. msg_generation m = es_generation es)"


lemma start_position_ok:
  assumes d: "on_disk d es evs k" and kj: "k + j \<le> length evs"
    and o: "es_offset es = lsize (take (k + j) evs) \<or> es_offset es = 0 \<and> j = 0"
  shows "start_position False (lines evs) es = (lsize (take (k + j) evs), es)"
proof -
  let ?l = "lsize (take (k + j) evs)"
  have l: "(if es_offset es \<noteq> 0 then es_offset es else last_committed_bs es) = ?l"
  proof (cases "es_offset es = 0")
    case True
    have "j = 0 \<or> k + j = 0 \<or> evs = []" using o True by (auto simp: take_eq_Nil)
    then show ?thesis using True d by (auto simp: on_disk_def)
  qed (use o in auto)
  have "nat ?l \<le> length (lines evs)" using lsize_take_le[of "k + j" evs] by (simp add: lsize_def)
  moreover have "lines evs ! (nat ?l - 1) = LF" if "?l > 0"
  proof -
    have "take (k + j) evs \<noteq> []" using that by (metis less_irrefl lsize_0)
    from lines_boundary[OF this, of "lines (drop (k + j) evs)"] show ?thesis
      by (simp add: lsize_def flip: lines_append)
  qed
  ultimately show ?thesis
    unfolding start_position.simps[of False "lines evs" es] if_False l Let_def by auto
qed

lemma int_nat_pos: "0 \<le> (l::int) \<Longrightarrow> int (if l > 0 then nat l else 0) = l"
  by auto

lemma drop_lines: "drop (length (lines (take n evs))) (lines evs) = lines (drop n evs)"
proof -
  have "lines evs = lines (take n evs) @ lines (drop n evs)" by (simp flip: lines_append)
  then show ?thesis by (metis append_eq_conv_conj)
qed

lemma msgs_from_queued:
  assumes "\<forall>e \<in> set evs. ordinary g e"
  shows "queued es (msgs_from g es off evs) evs"
  using assms
proof (induction evs arbitrary: off)
  case (Cons e evs)
  have o: "ordinary g e" using Cons.prems by simp
  from Cons ordinary_msg(2,3,5)[OF o, of es off] show ?case by (auto simp: queued_def)
qed (simp add: queued_def)

lemma queued_append: "queued es xs as \<Longrightarrow> queued es ys bs \<Longrightarrow> queued es (xs @ ys) (as @ bs)"
  by (auto simp: queued_def)

lemma queued_Cons:
  "queued es (m # mm) evs \<Longrightarrow>
   \<exists>e evs'. evs = e # evs' \<and> msg_bytes m = wire e \<and> ev_len m = int (length e) + 1 \<and>
      msg_generation m = es_generation es \<and> queued es mm evs'"
  by (cases evs) (auto simp: queued_def)

lemma queued_Nil: "queued es mm [] \<longleftrightarrow> mm = []"
  by (auto simp: queued_def)

lemma queued_cong: "es_generation es' = es_generation es \<Longrightarrow> queued es' mm evs = queued es mm evs"
  by (simp add: queued_def)

lemma on_disk_append:
  assumes "on_disk d es evs k"
  shows "on_disk (append_event e t (event_file_name es) d) es (evs @ [e]) k"
  using assms by (auto simp: on_disk_def append_event_def lines_append split: if_splits)

lemma on_disk_update [simp]:
  "on_disk d (es\<lparr>es_offset := off\<rparr>) evs k = on_disk d es evs k"
  "on_disk d (es\<lparr>last_modified := t\<rparr>) evs k = on_disk d es evs k"
  by (auto simp: on_disk_def ctl_text_def)

lemma on_disk_commit:
  assumes "on_disk d es evs k" and "k < length evs"
    and "event_store_commit True (int (length (evs ! k)) + 1) False (es_generation es) d es = (d', es')"
  shows "on_disk d' es' evs (k + 1) \<and> es_offset es' = es_offset es \<and> es_generation es' = es_generation es"
proof -
  have "lsize (take (k + 1) evs) = lsize (take k evs) + int (length (evs ! k)) + 1"
    using assms(2) by (simp add: take_Suc_conv_app_nth)
  then show ?thesis
    using assms by (auto simp: on_disk_def event_store_commit_def event_store_write_ctl_def Let_def ctl_text_def)
qed

lemma lsize_take_all: "k \<le> length evs \<Longrightarrow> lsize (take k evs) = lsize evs \<Longrightarrow> k = length evs"
  using lsize_simps(3)[of "take k evs" "drop k evs"] by simp

lemma fresh_store_simps [simp]:
  "event_file_name (fresh_store es) = event_file_name es"
  "control_file_name (fresh_store es) = control_file_name es" "es_job (fresh_store es) = es_job es"
  "es_offset (fresh_store es) = 0" "last_committed_ls (fresh_store es) = 0"
  "last_committed_bs (fresh_store es) = 0"
  by (simp_all add: fresh_store_def)

lemma on_disk_clean:
  assumes "on_disk d es evs k" and "event_store_clean d es = (r, d', es')"
  shows "r \<noteq> 1 \<and> d' = d \<and> es' = es \<or> r = 1 \<and> k = length evs \<and> on_disk d' (fresh_store es') [] 0"
proof (cases "evs = []")
  case True
  then show ?thesis using assms by (auto simp: on_disk_def event_store_clean_def)
next
  case False
  show ?thesis
  proof (cases "lsize (take k evs) = lsize evs")
    case True
    then have "k = length evs" using assms(1) lsize_take_all by (auto simp: on_disk_def)
    then show ?thesis using assms True False
      by (auto simp: on_disk_def event_store_clean_def lsize_def)
  next
    case neq: False
    then have "r = 0 \<and> d' = d \<and> es' = es"
      using assms False by (auto simp: on_disk_def event_store_clean_def lsize_def split: if_splits)
    then show ?thesis by simp
  qed
qed

lemma on_disk_restart:
  assumes d: "on_disk d es evs k" and "\<forall>e \<in> set evs. plain e" and "lsize evs < 2 ^ 63"
    and "restart d es = (d', es')"
  shows "on_disk d' es' evs k \<and> es_offset es' = 0"
proof (cases evs)
  case Nil
  then show ?thesis using assms by (auto simp: on_disk_def restart_def)
next
  case (Cons e evs')
  let ?l = "lsize (take k evs)"
  have f: "files d (event_file_name es) = Some (lines evs)" using d Cons by (simp add: on_disk_def)
  have re: "read_event_string (lines evs) \<noteq> None"
    using assms(2) Cons by (simp add: read_event_string_line)
  have "in_long ?l"
  proof -
    have "?l < 9223372036854775808" using lsize_take_le[of k evs] assms(3) by simp
    moreover have "0 \<le> ?l" by (rule lsize_nonneg)
    ultimately show ?thesis unfolding in_long_def by linarith
  qed
  then have "event_store_read_ctl d (fresh_store es) =
      (fresh_store es)\<lparr>last_committed_ls := ?l, last_committed_bs := ?l\<rparr>"
  proof (cases "k = 0")
    case True
    then show ?thesis using d by (simp add: on_disk_def event_store_read_ctl_def fresh_store_def)
  next
    case False
    then have "files d (control_file_name (fresh_store es)) = Some (ctl_text es)"
      using d by (simp add: on_disk_def)
    then show ?thesis
      using read_write_ctl[of es d "fresh_store es"] d \<open>in_long ?l\<close> by (simp add: on_disk_def)
  qed
  then have "d' = d" and "es' = (fresh_store es)\<lparr>last_committed_ls := ?l, last_committed_bs := ?l\<rparr>"
    using assms(4) f re by (simp_all add: restart_def)
  then show ?thesis using d by (auto simp: on_disk_def ctl_text_def)
qed

context message_queue
begin

definition store_inv :: "(string \<Rightarrow> string option) \<Rightarrow> 'q store_sys \<Rightarrow> bool" where
  "store_inv g s \<longleftrightarrow>
     (\<exists>gone evs k j mm.
        logged s = gone @ evs \<and> (\<forall>e \<in> set (logged s). ordinary g e) \<and> lsize (logged s) < 2 ^ 63 \<and>
        on_disk (sy_disk s) (sy_es s) evs k \<and> k + j \<le> length evs \<and>
        map msg_bytes (accepted s) = map wire (gone @ take k evs) \<and>
        rep (sy_queue s) mm \<and> queued (sy_es s) mm (take j (drop k evs)) \<and>
        (es_offset (sy_es s) = lsize (take (k + j) evs) \<or> es_offset (sy_es s) = 0 \<and> j = 0))"

lemma store_inv_log:
  assumes "store_inv g s" and "ordinary g e" and "lsize (logged s @ [e]) < 2 ^ 63"
  shows "store_inv g (s\<lparr>sy_disk := append_event e t (event_file_name (sy_es s)) (sy_disk s),
    logged := logged s @ [e]\<rparr>)"
proof -
  from assms(1) obtain gone evs k j mm where i: "logged s = gone @ evs" "\<forall>e \<in> set (logged s). ordinary g e"
    "on_disk (sy_disk s) (sy_es s) evs k" "k + j \<le> length evs"
    "map msg_bytes (accepted s) = map wire (gone @ take k evs)" "rep (sy_queue s) mm"
    "queued (sy_es s) mm (take j (drop k evs))"
    "es_offset (sy_es s) = lsize (take (k + j) evs) \<or> es_offset (sy_es s) = 0 \<and> j = 0"
    unfolding store_inv_def by blast
  show ?thesis
    unfolding store_inv_def
    by (intro exI[of _ gone] exI[of _ "evs @ [e]"] exI[of _ k] exI[of _ j] exI[of _ mm])
      (use i assms(2,3) on_disk_append[OF i(3)] in auto)
qed

lemma store_inv_recover:
  assumes "store_inv g s"
  shows "\<exists>ret d es q. event_store_recover g enq True False 0 0 (sy_disk s) (sy_es s) (sy_queue s) =
      Inr (ret, d, es, q) \<and> store_inv g (s\<lparr>sy_disk := d, sy_es := es, sy_queue := q\<rparr>)"
proof -
  from assms obtain gone evs k j mm where i: "logged s = gone @ evs" "\<forall>e \<in> set (logged s). ordinary g e"
    "on_disk (sy_disk s) (sy_es s) evs k" "k + j \<le> length evs"
    "map msg_bytes (accepted s) = map wire (gone @ take k evs)" "rep (sy_queue s) mm"
    "queued (sy_es s) mm (take j (drop k evs))"
    "es_offset (sy_es s) = lsize (take (k + j) evs) \<or> es_offset (sy_es s) = 0 \<and> j = 0"
    "lsize (logged s) < 2 ^ 63"
    unfolding store_inv_def by blast
  let ?d = "sy_disk s" and ?es = "sy_es s" and ?l = "lsize (take (k + j) evs)"
  have same: "s\<lparr>sy_disk := ?d, sy_es := ?es, sy_queue := sy_queue s\<rparr> = s" by simp
  show ?thesis
  proof (cases "evs = [] \<or> es_offset ?es = lsize evs \<and> last_modified ?es = mtimes ?d (event_file_name ?es)")
    case True
    then show ?thesis
      using assms same i(3) by (auto simp: event_store_recover_def on_disk_def lsize_def Let_def split: if_splits)
  next
    case False
    then have f: "files ?d (event_file_name ?es) = Some (lines evs)" using i(3) by (simp add: on_disk_def)
    have start: "start_position False (lines evs) ?es = (?l, ?es)" using start_position_ok i(3,4,8) by blast
    have "(if ?l > 0 then nat ?l else 0) = length (lines (take (k + j) evs))" by (simp add: lsize_def)
    then have dr: "drop (if ?l > 0 then nat ?l else 0) (lines evs) = lines (drop (k + j) evs) @ []"
      by (simp only: drop_lines append_Nil2)
    have pos: "int (if ?l > 0 then nat ?l else 0) = ?l" by (rule int_nat_pos[OF lsize_nonneg])
    have "last_committed_bs ?es \<le> ?l"
    proof -
      have "take (k + j) evs = take k evs @ take j (drop k evs)" by (rule take_add)
      then show ?thesis using i(3) by (simp add: on_disk_def)
    qed
    moreover have "\<forall>e \<in> set (drop (k + j) evs). ordinary g e"
      using i(1,2) by (auto dest: in_set_dropD)
    ultimately obtain n ret q where n: "n \<le> length (drop (k + j) evs)"
      "read_loop g enq True False ?es (lines (drop (k + j) evs) @ []) ?l ?l False 1 (sy_queue s) =
         Inr (Read_to ret (?l + lsize (take n (drop (k + j) evs))) q)"
      "rep q (mm @ msgs_from g ?es ?l (take n (drop (k + j) evs)))"
      using read_loop_enqueues[of "drop (k + j) evs" g "[]" "sy_queue s" mm ?es ?l 1] i(6) by auto
    let ?t = "mtimes ?d (event_file_name ?es)"
    let ?es' = "?es\<lparr>es_offset := ?l + lsize (take n (drop (k + j) evs)), last_modified := ?t\<rparr>"
    have nf: "\<not> (es_offset ?es = int (length (lines evs)) \<and> last_modified ?es = ?t)"
      using False by (simp add: lsize_def)
    have r: "event_store_recover g enq True False 0 0 ?d ?es (sy_queue s) = Inr (ret, ?d, ?es', q)"
      unfolding event_store_recover_def f option.case Let_def
      using start dr pos n(2) by (simp only: nf if_False) (simp split del: if_split)
    have t: "take (k + (j + n)) evs = take (k + j) evs @ take n (drop (k + j) evs)"
      using take_add[of "k + j" n evs] by (simp add: add.assoc)
    have gen: "es_generation ?es' = es_generation ?es" by simp
    have tj: "take (j + n) (drop k evs) = take j (drop k evs) @ take n (drop (k + j) evs)"
      using take_add[of j n "drop k evs"] by (simp add: add.commute)
    have "queued ?es (msgs_from g ?es ?l (take n (drop (k + j) evs))) (take n (drop (k + j) evs))"
      using i(1,2) by (intro msgs_from_queued) (auto dest!: in_set_takeD in_set_dropD)
    then have qd: "queued ?es' (mm @ msgs_from g ?es ?l (take n (drop (k + j) evs))) (take (j + n) (drop k evs))"
      unfolding tj queued_cong[OF gen] by (rule queued_append[OF i(7)])
    have "es_offset ?es' = lsize (take (k + (j + n)) evs)" unfolding t by simp
    moreover have "k + (j + n) \<le> length evs" using n(1) i(4) by simp
    moreover have "on_disk ?d ?es' evs k" using i(3) by simp
    ultimately have "store_inv g (s\<lparr>sy_disk := ?d, sy_es := ?es', sy_queue := q\<rparr>)"
      unfolding store_inv_def
      by (intro exI[of _ gone] exI[of _ evs] exI[of _ k] exI[of _ "j + n"]
          exI[of _ "mm @ msgs_from g ?es ?l (take n (drop (k + j) evs))"])
        (use i(1,2,5,9) n(3) qd in simp)
    with r show ?thesis by blast
  qed
qed

lemma store_inv_deliver:
  assumes "store_inv g s" and "deq (sy_queue s) = Some (m, q)"
    and "event_store_commit True (ev_len m) False (msg_generation m) (sy_disk s) (sy_es s) = (d, es)"
  shows "store_inv g (s\<lparr>sy_disk := d, sy_es := es, sy_queue := q, accepted := accepted s @ [m]\<rparr>)"
proof -
  from assms(1) obtain gone evs k j mm where i: "logged s = gone @ evs" "\<forall>e \<in> set (logged s). ordinary g e"
    "on_disk (sy_disk s) (sy_es s) evs k" "k + j \<le> length evs"
    "map msg_bytes (accepted s) = map wire (gone @ take k evs)" "rep (sy_queue s) mm"
    "queued (sy_es s) mm (take j (drop k evs))"
    "es_offset (sy_es s) = lsize (take (k + j) evs) \<or> es_offset (sy_es s) = 0 \<and> j = 0"
    "lsize (logged s) < 2 ^ 63"
    unfolding store_inv_def by blast
  obtain mm' where mm: "mm = m # mm'" "rep q mm'"
    using i(6) assms(2) deq_Nil deq_Cons by (cases mm) fastforce+
  from queued_Cons[OF i(7)[unfolded mm(1)]] obtain e evs' where
    e: "take j (drop k evs) = e # evs'" "msg_bytes m = wire e" "ev_len m = int (length e) + 1"
    "msg_generation m = es_generation (sy_es s)" "queued (sy_es s) mm' evs'" by blast
  obtain j' where j: "j = Suc j'" using e(1) by (cases j) auto
  then have k: "k < length evs" using i(4) by simp
  then have dk: "drop k evs = evs ! k # drop (k + 1) evs" by (simp add: Cons_nth_drop_Suc)
  then have ek: "e = evs ! k" "evs' = take j' (drop (k + 1) evs)" using e(1) j by simp_all
  have od: "on_disk d es evs (k + 1) \<and> es_offset es = es_offset (sy_es s) \<and>
      es_generation es = es_generation (sy_es s)"
    using on_disk_commit[OF i(3) k] assms(3) e(3,4) ek(1) by simp
  have "map msg_bytes (accepted s @ [m]) = map wire (gone @ take (k + 1) evs)"
    using i(5) e(2) ek(1) k by (simp add: take_Suc_conv_app_nth)
  then show ?thesis
    unfolding store_inv_def
    by (intro exI[of _ gone] exI[of _ evs] exI[of _ "k + 1"] exI[of _ j'] exI[of _ mm'])
      (use i od mm(2) e(5) ek(2) j in \<open>auto simp: queued_cong[of es "sy_es s"]\<close>)
qed

lemma store_inv_clean:
  assumes "store_inv g s" and "event_store_clean (sy_disk s) (sy_es s) = (r, d, es)"
  shows "store_inv g (s\<lparr>sy_disk := d, sy_es := (if r = 1 then fresh_store es else es)\<rparr>)"
proof -
  from assms(1) obtain gone evs k j mm where i: "logged s = gone @ evs" "\<forall>e \<in> set (logged s). ordinary g e"
    "on_disk (sy_disk s) (sy_es s) evs k" "k + j \<le> length evs"
    "map msg_bytes (accepted s) = map wire (gone @ take k evs)" "rep (sy_queue s) mm"
    "queued (sy_es s) mm (take j (drop k evs))" "lsize (logged s) < 2 ^ 63"
    unfolding store_inv_def by blast
  from on_disk_clean[OF i(3) assms(2)] show ?thesis
  proof (elim disjE conjE)
    assume "r \<noteq> 1" "d = sy_disk s" "es = sy_es s"
    then show ?thesis using assms(1) by simp
  next
    assume c: "r = 1" "k = length evs" "on_disk d (fresh_store es) [] 0"
    then have "mm = []" using i(4,7) by (simp add: queued_Nil)
    then show ?thesis
      unfolding store_inv_def
      by (intro exI[of _ "gone @ evs"] exI[of _ "[]"] exI[of _ 0] exI[of _ 0] exI[of _ "[]"])
        (use c i in \<open>auto simp: queued_Nil\<close>)
  qed
qed

lemma store_inv_restart:
  assumes "store_inv g s" and "restart (sy_disk s) (sy_es s) = (d, es)"
  shows "store_inv g (s\<lparr>sy_disk := d, sy_es := es, sy_queue := nilq\<rparr>)"
proof -
  from assms(1) obtain gone evs k where i: "logged s = gone @ evs" "\<forall>e \<in> set (logged s). ordinary g e"
    "on_disk (sy_disk s) (sy_es s) evs k" "map msg_bytes (accepted s) = map wire (gone @ take k evs)"
    "lsize (logged s) < 2 ^ 63"
    unfolding store_inv_def by blast
  have "\<forall>e \<in> set evs. plain e" using i(1,2) by (auto simp: ordinary_def)
  moreover have "lsize evs < 2 ^ 63" using i(1,5) lsize_nonneg[of gone] by (simp del: lsize_nonneg)
  ultimately have od: "on_disk d es evs k \<and> es_offset es = 0" using on_disk_restart[OF i(3)] assms(2) by blast
  moreover have "k \<le> length evs" using i(3) by (simp add: on_disk_def)
  ultimately show ?thesis
    unfolding store_inv_def
    by (intro exI[of _ gone] exI[of _ evs] exI[of _ k] exI[of _ 0] exI[of _ "[]"])
      (use i rep_empty in \<open>auto simp: queued_Nil\<close>)
qed

lemma store_step_keeps:
  assumes "store_inv g s" and "\<forall>e \<in> set (log_events [a]). ordinary g e"
    and "lsize (logged s @ log_events [a]) < 2 ^ 63"
  shows "\<exists>s'. store_step g enq deq nilq a s = Inr s' \<and> store_inv g s' \<and> logged s' = logged s @ log_events [a]"
proof (cases a)
  case (Log e t)
  then show ?thesis using store_inv_log[OF assms(1), of e t] assms(2,3) by (simp add: store_step_def)
next
  case Recover
  then show ?thesis using store_inv_recover[OF assms(1)] by (auto simp: store_step_def)
next
  case Deliver
  then show ?thesis using store_inv_deliver[OF assms(1)] assms(1)
    by (auto simp: store_step_def split: option.splits prod.splits)
next
  case Clean
  then show ?thesis using store_inv_clean[OF assms(1)] by (auto simp: store_step_def split: prod.splits)
next
  case Restart
  then show ?thesis using store_inv_restart[OF assms(1)] by (auto simp: store_step_def split: prod.splits)
qed

lemma log_events_Cons: "log_events (a # as) = log_events [a] @ log_events as"
  by (cases a) simp_all

lemma store_run_keeps:
  assumes "store_inv g s" and "\<forall>e \<in> set (log_events ops). ordinary g e"
    and "lsize (logged s @ log_events ops) < 2 ^ 63"
  shows "\<exists>s'. store_run g enq deq nilq ops s = Inr s' \<and> store_inv g s' \<and> logged s' = logged s @ log_events ops"
  using assms
proof (induction ops arbitrary: s)
  case (Cons a ops)
  have le: "log_events (a # ops) = log_events [a] @ log_events ops" by (rule log_events_Cons)
  then have "lsize (logged s @ log_events [a]) < 2 ^ 63"
    using Cons.prems(3) lsize_nonneg[of "log_events ops"] by (simp del: lsize_nonneg)
  moreover have "\<forall>e \<in> set (log_events [a]). ordinary g e" using Cons.prems(2) le by auto
  ultimately obtain s' where s': "store_step g enq deq nilq a s = Inr s'" "store_inv g s'"
    "logged s' = logged s @ log_events [a]" using store_step_keeps[OF Cons.prems(1)] by blast
  have "\<forall>e \<in> set (log_events ops). ordinary g e" "lsize (logged s' @ log_events ops) < 2 ^ 63"
    using Cons.prems(2,3) le s'(3) by auto
  from Cons.IH[OF s'(2) this] s' le show ?case by auto
qed simp

lemma store_inv_init:
  assumes "event_file_name es \<noteq> control_file_name es" and "wordlike (es_job es)"
  shows "store_inv g (store_init es nilq)"
  unfolding store_inv_def
  by (intro exI[of _ "[]"] exI[of _ "[]"] exI[of _ 0] exI[of _ 0] exI[of _ "[]"])
    (use assms rep_empty in \<open>auto simp: store_init_def on_disk_def queued_Nil\<close>)

lemma events_never_lost:
  assumes "event_file_name es \<noteq> control_file_name es" and "wordlike (es_job es)"
    and "\<forall>e \<in> set (log_events ops). ordinary g e" and "lsize (log_events ops) < 2 ^ 63"
  shows "\<exists>s mm unread. store_run g enq deq nilq ops (store_init es nilq) = Inr s \<and> rep (sy_queue s) mm \<and>
    map msg_bytes (accepted s @ mm) @ map wire unread = map wire (log_events ops) \<and>
    (files (sy_disk s) (event_file_name (sy_es s)) = None \<longrightarrow> mm = [] \<and> unread = [])"
proof -
  have "logged (store_init es nilq) = []" by (simp add: store_init_def)
  with store_run_keeps[OF store_inv_init[OF assms(1,2)] assms(3)] assms(4) obtain s where
    s: "store_run g enq deq nilq ops (store_init es nilq) = Inr s" "store_inv g s" "logged s = log_events ops" by auto
  from s(2) obtain gone evs k j mm where i: "logged s = gone @ evs"
    "on_disk (sy_disk s) (sy_es s) evs k" "map msg_bytes (accepted s) = map wire (gone @ take k evs)"
    "rep (sy_queue s) mm" "queued (sy_es s) mm (take j (drop k evs))"
    unfolding store_inv_def by blast
  have "gone @ evs = gone @ take k evs @ take j (drop k evs) @ drop j (drop k evs)"
    by (metis append_take_drop_id)
  then have "map msg_bytes (accepted s @ mm) @ map wire (drop j (drop k evs)) = map wire (log_events ops)"
    using i(1,3,5) s(3) unfolding queued_def by (metis map_append append.assoc)
  moreover have "files (sy_disk s) (event_file_name (sy_es s)) = None \<longrightarrow> mm = [] \<and> drop j (drop k evs) = []"
    using i(2,5) by (auto simp: on_disk_def queued_Nil split: if_splits)
  ultimately show ?thesis using s(1) i(4)
    by (intro exI[of _ s] exI[of _ mm] exI[of _ "drop j (drop k evs)"]) simp
qed

end

section \<open>The ring as the queue of a store\<close>

text \<open>
  The queue of the bookkeeping server with one delivery thread. \<open>malloc\<close> gives an address
  that is not in use, or none. (Nothing is put into the queue of the log server when it is
  not used.)
\<close>

definition ring_enq ::
  "(heap \<Rightarrow> addr option) \<Rightarrow> nat \<Rightarrow> nat \<Rightarrow> bool \<Rightarrow> server_msg \<Rightarrow> heap \<times> event_queue \<Rightarrow> int \<times> heap \<times> event_queue" where
  "ring_enq malloc hi k log m s =
     (if log then (0, s)
      else case malloc (fst s) of
        None \<Rightarrow> (- 1, s)
      | Some a \<Rightarrow>
          if fst s a \<noteq> None then (- 1, s)
          else case event_queue_insert hi k a m s of Inr r \<Rightarrow> r | Inl _ \<Rightarrow> (- 1, s))"

definition ring_deq :: "nat \<Rightarrow> nat \<Rightarrow> heap \<times> event_queue \<Rightarrow> (server_msg \<times> heap \<times> event_queue) option" where
  "ring_deq lo k s =
     (case event_queue_get 0 True s of
        Inr (Some el, s') \<Rightarrow>
          (case (fst s' el, event_queue_remove lo k 0 s') of
             (Some c, Inr (_, s'')) \<Rightarrow> Some (cell_msg c, s'')
           | _ \<Rightarrow> None)
      | _ \<Rightarrow> None)"

definition ring_empty :: "heap \<times> event_queue" where
  "ring_empty = (Map.empty, new_queue 1)"

definition ring_rep :: "nat \<Rightarrow> heap \<times> event_queue \<Rightarrow> server_msg list \<Rightarrow> bool" where
  "ring_rep k s xs \<longleftrightarrow> (\<exists>ys. eq_rep k s ys [idle_thread] \<and> map snd ys = xs)"

interpretation ring_store: message_queue "ring_rep k" "ring_enq malloc hi k" "ring_deq lo k" ring_empty
  for k malloc hi lo
proof
  show "ring_rep k ring_empty []"
    by (auto simp: ring_rep_def ring_empty_def eq_rep_def represents_def ring_def new_queue_def entries_def)
next
  fix s xs m
  assume "ring_rep k s xs" and np: "\<not> server_msg_is_priority m"
  then obtain ys where ys: "eq_rep k s ys [idle_thread]" "map snd ys = xs" by (auto simp: ring_rep_def)
  show "\<exists>r q'. ring_enq malloc hi k False m s = (r, q') \<and> ring_rep k q' (if r = 0 then xs @ [m] else xs)"
  proof (cases "malloc (fst s)")
    case None
    then show ?thesis using ys by (auto simp: ring_enq_def ring_rep_def)
  next
    case (Some a)
    show ?thesis
    proof (cases "fst s a = None")
      case True
      then have "\<not> eq_allocated s a" by (simp add: eq_allocated_def)
      from ring_queue.enq_law[OF ys(1) this, of hi m] show ?thesis
      proof
        assume "\<exists>s'. event_queue_insert hi k a m s = Inr (1, s') \<and> eq_rep k s' ys [idle_thread]"
        then obtain s' where "event_queue_insert hi k a m s = Inr (1, s')" "eq_rep k s' ys [idle_thread]" by blast
        then show ?thesis using True Some ys(2)
          by (intro exI[of _ 1] exI[of _ s']) (auto simp: ring_enq_def ring_rep_def)
      next
        assume "\<exists>s' us zs. event_queue_insert hi k a m s = Inr (0, s') \<and> ys = us @ zs \<and>
          eq_rep k s' (us @ (a, m) # zs) [idle_thread] \<and> (\<not> server_msg_is_priority m \<longrightarrow> zs = [])"
        then obtain s' where "event_queue_insert hi k a m s = Inr (0, s')"
          "eq_rep k s' (ys @ [(a, m)]) [idle_thread]" using np by auto
        moreover from this(2) have "ring_rep k s' (xs @ [m])"
          using ys(2) by (auto simp: ring_rep_def intro!: exI[of _ "ys @ [(a, m)]"])
        ultimately show ?thesis using True Some by (auto simp: ring_enq_def)
      qed
    next
      case False
      then show ?thesis using Some ys by (auto simp: ring_enq_def ring_rep_def)
    qed
  qed
next
  fix s m xs
  assume "ring_rep k s (m # xs)"
  then obtain el ys where ys: "eq_rep k s ((el, m) # ys) [idle_thread]" "map snd ys = xs"
    by (auto simp: ring_rep_def)
  from ring_queue.take_first[OF ys(1), of 0 lo] obtain s' s'' where
    t: "event_queue_get 0 True s = Inr (Some el, s')"
    "eq_rep k s' ((el, m) # ys) [\<lparr>qt_current = Some el, qt_jobid = Some (job_id_s m)\<rparr>]"
    "event_queue_remove lo k 0 s' = Inr (0, s'')" "eq_rep k s'' ys [idle_thread]" by auto
  have "eq_rep k (fst s', snd s') ((el, m) # ys) [\<lparr>qt_current = Some el, qt_jobid = Some (job_id_s m)\<rparr>]"
    using t(2) by simp
  from entry_cell[OF this, of el m] obtain c where "fst s' el = Some c" "cell_msg c = m"
    by (auto simp: rd_def split: option.splits)
  then show "\<exists>q'. ring_deq lo k s = Some (m, q') \<and> ring_rep k q' xs"
    using t ys(2) by (auto simp: ring_deq_def ring_rep_def)
next
  fix s
  assume "ring_rep k s []"
  then have "eq_rep k s [] [idle_thread]" by (auto simp: ring_rep_def)
  from ring_queue.ask_law[OF this, of 0 True] show "ring_deq lo k s = None"
    by (auto simp: first_free_def ring_deq_def)
qed

section \<open>Properties\<close>


definition ex_malloc :: "heap \<Rightarrow> addr option" where
  "ex_malloc h = find (\<lambda>a. h a = None) [1..<10]"

definition ex_async :: string where "ex_async = ''DG.LLLID=7 DG.PRIORITY=0 a''"
definition ex_sync :: string where "ex_sync = ''DG.LLLID=7 DG.PRIORITY=2 b''"


text \<open>
  With a client waiting, an event can be lost. A message of a synchronous event overtakes
  the one before it in the queue and is committed first; but a store only counts the bytes
  committed. If the interlogger restarts now, it goes on behind as many bytes from the start of
  the file, and when the two events are of equal length, the first is skipped: the second is sent
  twice, the first never, and the file is removed.
\<close>

theorem overtaken_event_lost:
  "\<exists>s. store_run (\<lambda>_. Some ''j'') (ring_enq ex_malloc 0 1) (ring_deq 0 1) ring_empty
      [Log ex_async 1, Log ex_sync 2, Recover, Deliver, Restart, Recover, Deliver, Clean]
      (store_init ex_store ring_empty) = Inr s \<and>
    logged s = [ex_async, ex_sync] \<and> map msg_bytes (accepted s) = [wire ex_sync, wire ex_sync] \<and>
    wire ex_async \<noteq> wire ex_sync \<and>
    files (sy_disk s) (event_file_name (sy_es s)) = None"
proof -
  let ?r = "store_run (\<lambda>_. Some ''j'') (ring_enq ex_malloc 0 1) (ring_deq 0 1) ring_empty
      [Log ex_async 1, Log ex_sync 2, Recover, Deliver, Restart, Recover, Deliver, Clean]
      (store_init ex_store ring_empty)"
  have "case ?r of Inl _ \<Rightarrow> False | Inr s \<Rightarrow>
      logged s = [ex_async, ex_sync] \<and> map msg_bytes (accepted s) = [wire ex_sync, wire ex_sync] \<and>
      wire ex_async \<noteq> wire ex_sync \<and> files (sy_disk s) (event_file_name (sy_es s)) = None"
    by code_simp
  then show ?thesis by (cases ?r) auto
qed

text \<open>
  The counts survive a restart: what a store writes to its control file is what it reads
  from there.
\<close>

theorem control_file_roundtrip:
  assumes "wordlike (es_job es)" and "in_long (last_committed_ls es)" and "in_long (last_committed_bs es)"
  shows "event_store_read_ctl (event_store_write_ctl d es) (fresh_store es) =
    (fresh_store es)\<lparr>last_committed_ls := last_committed_ls es, last_committed_bs := last_committed_bs es\<rparr>"
  using read_write_ctl[of es "event_store_write_ctl d es" "fresh_store es"] assms
  by (simp add: event_store_write_ctl_def)

theorem control_file_roundtrip_witness:
  "event_store_read_ctl (event_store_write_ctl \<lparr>files = Map.empty, mtimes = (\<lambda>_. 0)\<rparr>
      (ex_store\<lparr>last_committed_ls := 12, last_committed_bs := 9\<rparr>))
      (fresh_store (ex_store\<lparr>last_committed_ls := 12, last_committed_bs := 9\<rparr>)) =
    (fresh_store (ex_store\<lparr>last_committed_ls := 12, last_committed_bs := 9\<rparr>))
      \<lparr>last_committed_ls := 12, last_committed_bs := 9\<rparr>"
  using control_file_roundtrip[of "ex_store\<lparr>last_committed_ls := 12, last_committed_bs := 9\<rparr>"
      "\<lparr>files = Map.empty, mtimes = (\<lambda>_. 0)\<rparr>"]
  by (simp add: ex_store_def wordlike_def isspace_def in_long_def)

end
