(* ===== verification/LB_QueueMove.thy ===== *)
theory LB_QueueMove
  imports LB_EventQueue
begin

text \<open>
  \<^verbatim>\<open>event_queue_move_events\<close> of the interlogger: the messages that satisfy a condition
  change from one queue to another (the destination of a notification changed) or are
  discarded (they expired). The loop over the ring is shown to be a filter on the list of
  messages, except for the last message, and what it means for the other threads of the
  queue when a message is discarded.
\<close>

section \<open>Moving messages\<close>

text \<open>
  A message moves to the end of the destination queue, or, when there is none, its event is
  committed to the event store and the cell is freed. \<open>log\<close> collects the committed messages.
\<close>

record move_state =
  mv_heap :: heap
  mv_src :: event_queue
  mv_dst :: "(nat \<times> event_queue) option"
  mv_log :: "server_msg list"

definition append_moved :: "addr \<Rightarrow> heap \<Rightarrow> nat \<Rightarrow> event_queue \<Rightarrow> (heap \<times> event_queue) res" where
  "append_moved p h kd d =
     rbind (rd h p) (\<lambda>c.
     case eq_head d of
       None \<Rightarrow> Inr (h(p \<mapsto> c\<lparr>cell_next := p, cell_prev := p, cell_eq := kd\<rparr>),
                    count_in (d\<lparr>eq_head := Some p, tail_ems := Some p\<rparr>))
     | Some front \<Rightarrow>
         rbind (rd h front) (\<lambda>cf.
         rbind (link_in (h(p \<mapsto> c\<lparr>cell_next := cell_next cf, cell_prev := front, cell_eq := kd\<rparr>)) p) (\<lambda>h.
         Inr (h, count_in d))))"

definition move_one :: "(server_msg \<Rightarrow> bool) \<Rightarrow> addr \<Rightarrow> move_state \<Rightarrow> (addr \<times> move_state) res" where
  "move_one cmp p s =
     rbind (rd (mv_heap s) p) (\<lambda>c.
       if cmp (cell_msg c) then
         rbind (unlink p (mv_heap s, mv_src s)) (\<lambda>(h, q).
           let q = q\<lparr>cur_len := cur_len q - 1\<rparr> in
           (case mv_dst s of
              Some (kd, d) \<Rightarrow>
                rbind (append_moved p h kd d) (\<lambda>(h, d).
                  Inr (cell_prev c, s\<lparr>mv_heap := h, mv_src := q, mv_dst := Some (kd, d)\<rparr>))
            | None \<Rightarrow>
                Inr (cell_prev c, s\<lparr>mv_heap := h(p := None), mv_src := q,
                  mv_log := mv_log s @ [cell_msg c]\<rparr>)))
       else Inr (cell_prev c, s))"

fun move_loop :: "nat \<Rightarrow> (server_msg \<Rightarrow> bool) \<Rightarrow> addr \<Rightarrow> addr \<Rightarrow> move_state \<Rightarrow> move_state res" where
  "move_loop 0 cmp lst p s = Inl Diverges"
| "move_loop (Suc fuel) cmp lst p s =
     rbind (move_one cmp p s) (\<lambda>(p, s).
       if eq_head (mv_src s) \<noteq> None \<and> p \<noteq> lst then move_loop fuel cmp lst p s else Inr s)"

definition event_queue_move_events ::
  "nat \<Rightarrow> (server_msg \<Rightarrow> bool) \<Rightarrow> move_state \<Rightarrow> move_state res" where
  "event_queue_move_events queue_size_low cmp s =
     (case eq_head (mv_src s) of
        None \<Rightarrow> Inr s
      | Some p \<Rightarrow>
          rbind (rd (mv_heap s) p) (\<lambda>c.
          rbind (move_loop (nat (cur_len (mv_src s))) cmp (cell_next c) p s) (\<lambda>s.
          Inr (s\<lparr>mv_src := unthrottle queue_size_low (mv_src s)\<rparr>))))"

text \<open>The condition under which a delivery thread discards a message.\<close>

definition cmp_expires :: "int \<Rightarrow> server_msg \<Rightarrow> bool" where
  "cmp_expires t msg \<longleftrightarrow> msg_expires msg > 0 \<and> msg_expires msg < t"

text \<open>The messages the loop looks at: all but the last one, unless it is the only one.\<close>

definition examined :: "'a list \<Rightarrow> 'a list" where
  "examined as = (if length as \<le> 1 then as else butlast as)"

definition unexamined :: "'a list \<Rightarrow> 'a list" where
  "unexamined as = (if length as \<le> 1 then [] else [last as])"

lemma examined_unexamined: "examined as @ unexamined as = as"
  by (auto simp: examined_def unexamined_def) (metis append_butlast_last_id list.size(3) zero_le)

lemma represents_frame:
  assumes "represents k (h, q) as" and "\<And>a. a \<in> set as \<Longrightarrow> h' a = h a"
  shows "represents k (h', q) as"
proof -
  have "ring (pv h') (nx h') as"
    by (rule ring_cong[OF representsD(1)[OF assms(1)]]) (simp_all add: field_defs assms(2))
  moreover have "\<forall>a\<in>set as. qe h' a = Some k"
    using assms by (simp add: represents_def qe_def)
  ultimately show ?thesis using assms(1) by (simp add: represents_def)
qed

lemma append_moved_refines:
  assumes rep: "represents kd (h, d) bs" and p: "h p = Some c" "p \<notin> set bs"
  obtains h' d' where "append_moved p h kd d = Inr (h', d')"
    and "represents kd (h', d') (bs @ [p])" and "ms h' = ms h"
    and "\<And>a. a \<notin> set (p # bs) \<Longrightarrow> h' a = h a"
proof -
  note D = representsD[OF rep]
  show ?thesis
  proof (cases bs)
    case Nil
    let ?h = "h(p \<mapsto> c\<lparr>cell_next := p, cell_prev := p, cell_eq := kd\<rparr>)"
    let ?d = "count_in (d\<lparr>eq_head := Some p, tail_ems := Some p\<rparr>)"
    have "append_moved p h kd d = Inr (?h, ?d)"
      using D(3) p Nil by (simp add: append_moved_def rd_def)
    moreover have "represents kd (?h, ?d) (bs @ [p])"
      using D(6) Nil by (simp add: represents_def ring_def field_defs)
    moreover have "ms ?h = ms h" using p by (auto simp: field_defs)
    ultimately show ?thesis using that by simp
  next
    case (Cons b ys)
    obtain t where t: "tail_ems d = Some t" "t \<in> set bs" using D(5) Cons by blast
    obtain cf where cf: "h b = Some cf" using D(2)[of b] Cons by auto
    obtain h' where h': "link_in (h(p \<mapsto> \<lparr>cell_msg = cell_msg c, cell_prev = b,
        cell_next = cell_next cf, cell_eq = kd\<rparr>)) p = Inr h'"
      "ring (pv h') (nx h') ([] @ p # b # ys)"
      "ms h' = (ms h)(p \<mapsto> cell_msg c)" "qe h' = (qe h)(p \<mapsto> kd)"
      "\<And>a. a \<notin> set (p # [] @ b # ys) \<Longrightarrow> h' a = h a"
    proof (rule ring_insert[of h "[]" b ys p "cell_next cf" "cell_msg c" kd])
      show "h a \<noteq> None" if "a \<in> set ([] @ b # ys)" for a using that D(2)[of a] Cons by auto
    qed (use D(1) Cons p cf in \<open>auto simp: nx_def\<close>)
    have ceq: "c\<lparr>cell_next := cell_next cf, cell_prev := b, cell_eq := kd\<rparr> =
        \<lparr>cell_msg = cell_msg c, cell_prev = b, cell_next = cell_next cf, cell_eq = kd\<rparr>"
      by (cases c) simp
    have "append_moved p h kd d = Inr (h', count_in d)"
      using D(3) p Cons cf h'(1)[folded ceq] by (simp add: append_moved_def rd_def del: fun_upd_apply)
    moreover have "represents kd (h', count_in d) (bs @ [p])"
    proof -
      have "ring (pv h') (nx h') (bs @ [p])"
        using ring_rotate1[of "pv h'" "nx h'" p bs] h'(2) Cons by simp
      moreover have "\<forall>a\<in>set (bs @ [p]). qe h' a = Some kd"
        using h'(4) rep by (auto simp: represents_def)
      ultimately show ?thesis using D(3,6) t Cons by (auto simp: represents_def)
    qed
    moreover have "ms h' = ms h" using h'(3) p by (auto simp: ms_def fun_eq_iff)
    ultimately show ?thesis using that h'(5) Cons by simp
  qed
qed


text \<open>A source queue \<open>as\<close> and what was moved out of it so far, \<open>bs\<close>; \<open>M\<close> gives the messages.\<close>

definition moving :: "nat \<Rightarrow> (addr \<rightharpoonup> server_msg) \<Rightarrow> move_state \<Rightarrow> addr list \<Rightarrow> addr list \<Rightarrow> bool" where
  "moving ks M s as bs \<longleftrightarrow>
     represents ks (mv_heap s, mv_src s) as \<and> (\<forall>a\<in>set as. ms (mv_heap s) a = M a) \<and>
     set as \<inter> set bs = {} \<and>
     (case mv_dst s of
        None \<Rightarrow> mv_log s = map (\<lambda>a. the (M a)) bs \<and> (\<forall>a\<in>set bs. mv_heap s a = None)
      | Some (kd, d) \<Rightarrow>
          represents kd (mv_heap s, d) bs \<and> (\<forall>a\<in>set bs. ms (mv_heap s) a = M a))"

definition same_target :: "move_state \<Rightarrow> move_state \<Rightarrow> bool" where
  "same_target s s' \<longleftrightarrow> map_option fst (mv_dst s') = map_option fst (mv_dst s) \<and>
     eq_threads (mv_src s') = eq_threads (mv_src s)"

lemma unlink_moving:
  assumes rep: "represents k (h, q) (xs @ p # ys)"
  obtains h' q' where "unlink p (h, q) = Inr (h', q')"
    and "represents k (h', q'\<lparr>cur_len := cur_len q' - 1\<rparr>) (xs @ ys)"
    and "ms h' = ms h" and "eq_threads q' = eq_threads q"
    and "\<And>a. a \<notin> set (xs @ p # ys) \<Longrightarrow> h' a = h a" and "h' p \<noteq> None"
proof -
  have el: "p \<in> set (xs @ p # ys)" by simp
  have rem: "remove1 p (xs @ p # ys) = xs @ ys"
    using representsD(7)[OF rep] by (simp add: remove1_append)
  obtain h' q' where u: "unlink p (h, q) = Inr (h', q')"
    "ring (pv h') (nx h') (xs @ ys)" "ms h' = ms h" "qe h' = qe h"
    "eq_head q' = (if xs @ ys = [] then None else Some (hd (xs @ ys)))"
    "case tail_ems q' of None \<Rightarrow> xs @ ys = [] | Some t \<Rightarrow> t \<in> set (xs @ ys)"
    "cur_len q' = cur_len q" "eq_threads q' = eq_threads q"
    "\<And>a. a \<notin> set (xs @ p # ys) \<Longrightarrow> h' a = h a"
    by (rule unlink_refines[OF rep el, unfolded rem]) (rule that)
  have "represents k (h', q'\<lparr>cur_len := cur_len q' - 1\<rparr>) (xs @ ys)"
    using u(2,4-7) rep by (auto simp: represents_def)
  moreover have "qe h' p = Some k" using u(4) rep by (simp add: represents_def)
  then have "h' p \<noteq> None" by (auto simp: qe_def)
  ultimately show ?thesis using that u by blast
qed

lemma move_one_keep:
  assumes "moving ks M s (xs @ p # ys) bs" and "\<not> cmp (the (M p))"
  shows "move_one cmp p s = Inr (hd (ys @ xs @ [p]), s)"
proof -
  have rep: "represents ks (mv_heap s, mv_src s) (xs @ p # ys)" using assms(1) by (simp add: moving_def)
  then obtain c where c: "mv_heap s p = Some c" "cell_prev c = hd (ys @ xs @ [p])"
    by (rule represents_split)
  moreover have "M p = Some (cell_msg c)" using assms(1) c(1) by (auto simp: moving_def ms_def)
  ultimately show ?thesis using assms(2) by (simp add: move_one_def rd_def)
qed

lemma move_one_move:
  assumes mv: "moving ks M s (xs @ p # ys) bs" and cmp: "cmp (the (M p))"
  obtains s' where "move_one cmp p s = Inr (hd (ys @ xs @ [p]), s')"
    and "moving ks M s' (xs @ ys) (bs @ [p])" and "same_target s s'"
proof -
  have rep: "represents ks (mv_heap s, mv_src s) (xs @ p # ys)" using mv by (simp add: moving_def)
  then obtain c where c: "mv_heap s p = Some c" "cell_prev c = hd (ys @ xs @ [p])"
    by (rule represents_split)
  have M: "M p = Some (cell_msg c)" using mv c(1) by (auto simp: moving_def ms_def)
  obtain h q where u: "unlink p (mv_heap s, mv_src s) = Inr (h, q)"
    "represents ks (h, q\<lparr>cur_len := cur_len q - 1\<rparr>) (xs @ ys)" "ms h = ms (mv_heap s)"
    "eq_threads q = eq_threads (mv_src s)"
    "\<And>a. a \<notin> set (xs @ p # ys) \<Longrightarrow> h a = mv_heap s a" "h p \<noteq> None"
    by (rule unlink_moving[OF rep]) (rule that)
  have dist: "p \<notin> set (xs @ ys)" using representsD(7)[OF rep] by auto
  have disj: "set (xs @ p # ys) \<inter> set bs = {}" using mv by (simp add: moving_def)
  let ?q = "q\<lparr>cur_len := cur_len q - 1\<rparr>"
  note step = move_one_def rd_def
  show ?thesis
  proof (cases "mv_dst s")
    case None
    let ?s = "s\<lparr>mv_heap := h(p := None), mv_src := ?q, mv_log := mv_log s @ [cell_msg c]\<rparr>"
    have one: "move_one cmp p s = Inr (hd (ys @ xs @ [p]), ?s)"
      using c M cmp u(1) None by (simp add: step Let_def)
    have "represents ks (h(p := None), ?q) (xs @ ys)"
      by (rule represents_frame[OF u(2)]) (use dist in auto)
    moreover have "(h(p := None)) a = None" if "a \<in> set (bs @ [p])" for a
    proof (cases "a = p")
      case False
      then have "a \<in> set bs" using that by auto
      moreover from this have "h a = mv_heap s a" using u(5)[of a] disj by blast
      ultimately show ?thesis using False mv None by (auto simp: moving_def)
    qed simp
    moreover have "ms (h(p := None)) a = M a" if "a \<in> set (xs @ ys)" for a
    proof -
      have "ms (h(p := None)) a = ms h a" using that dist by (auto simp: ms_def)
      then show ?thesis using that u(3) mv by (auto simp: moving_def)
    qed
    ultimately have "moving ks M ?s (xs @ ys) (bs @ [p])"
      using mv None M dist disj by (simp add: moving_def)
    with one show ?thesis using that u(4) None by (simp add: same_target_def)
  next
    case (Some kdd)
    then obtain kd d where d: "mv_dst s = Some (kd, d)" by (cases kdd) simp
    have "represents kd (h, d) bs"
    proof (rule represents_frame)
      show "represents kd (mv_heap s, d) bs" using mv d by (simp add: moving_def)
      show "h a = mv_heap s a" if "a \<in> set bs" for a using u(5)[of a] disj that by blast
    qed
    moreover have "h p = Some (the (h p))" using u(6) by auto
    moreover have "p \<notin> set bs" using disj by auto
    ultimately obtain h' d' where a: "append_moved p h kd d = Inr (h', d')"
      "represents kd (h', d') (bs @ [p])" "ms h' = ms h" "\<And>a. a \<notin> set (p # bs) \<Longrightarrow> h' a = h a"
      by (rule append_moved_refines) (rule that)
    let ?s = "s\<lparr>mv_heap := h', mv_src := ?q, mv_dst := Some (kd, d')\<rparr>"
    have "move_one cmp p s = Inr (hd (ys @ xs @ [p]), ?s)"
      using c M cmp u(1) d a(1) by (simp add: step Let_def)
    moreover have "represents ks (h', ?q) (xs @ ys)"
    proof (rule represents_frame[OF u(2)])
      show "h' b = h b" if "b \<in> set (xs @ ys)" for b
        using a(4)[of b] that dist disj by auto
    qed
    then have "moving ks M ?s (xs @ ys) (bs @ [p])"
      using mv d a(2,3) u(3) dist disj by (auto simp: moving_def)
    ultimately show ?thesis using that u(4) d by (simp add: same_target_def)
  qed
qed

lemma same_target_refl [simp]: "same_target s s"
  and same_target_trans: "same_target s t \<Longrightarrow> same_target t u \<Longrightarrow> same_target s u"
  by (simp_all add: same_target_def)

lemma moving_head: "moving ks M s as bs \<Longrightarrow> (eq_head (mv_src s) = None) = (as = [])"
  by (simp add: moving_def represents_def)

lemma move_loop_correct:
  assumes "moving ks M s (xs @ p # ys @ [l]) bs" and "fuel > length ys"
  shows "\<exists>s'. move_loop fuel cmp l p s = Inr s' \<and> same_target s s' \<and>
           moving ks M s' (xs @ filter (\<lambda>a. \<not> cmp (the (M a))) (p # ys) @ [l])
             (bs @ filter (\<lambda>a. cmp (the (M a))) (p # ys))"
  using assms
proof (induction ys arbitrary: xs p s bs fuel)
  case Nil
  then obtain f where fuel: "fuel = Suc f" by (cases fuel) auto
  show ?case
  proof (cases "cmp (the (M p))")
    case True
    from Nil obtain s' where "move_one cmp p s = Inr (l, s')"
      "moving ks M s' (xs @ [l]) (bs @ [p])" "same_target s s'"
      using move_one_move[of ks M s xs p "[l]" bs cmp] True by auto
    then show ?thesis using True by (simp add: fuel)
  next
    case False
    then show ?thesis using Nil move_one_keep[of ks M s xs p "[l]" bs cmp] by (simp add: fuel)
  qed
next
  case (Cons b ys)
  then obtain f where fuel: "fuel = Suc f" "f > length ys" by (cases fuel) auto
  have bl: "b \<noteq> l" using Cons.prems(1) representsD(7) by (fastforce simp: moving_def)
  show ?case
  proof (cases "cmp (the (M p))")
    case True
    from Cons.prems obtain s' where s': "move_one cmp p s = Inr (b, s')"
      "moving ks M s' (xs @ b # ys @ [l]) (bs @ [p])" "same_target s s'"
      using move_one_move[of ks M s xs p "b # ys @ [l]" bs cmp] True by auto
    from Cons.IH[OF s'(2) fuel(2)] s' moving_head[OF s'(2)] bl True show ?thesis
      by (auto simp: fuel intro: same_target_trans)
  next
    case False
    have s': "move_one cmp p s = Inr (b, s)"
      using Cons.prems move_one_keep[of ks M s xs p "b # ys @ [l]" bs cmp] False by simp
    have m: "moving ks M s ((xs @ [p]) @ b # ys @ [l]) bs" using Cons.prems by simp
    from Cons.IH[OF m fuel(2)] s' moving_head[OF m] bl False show ?thesis by (auto simp: fuel)
  qed
qed


lemma represents_unthrottle [simp]: "represents k (h, unthrottle lo q) as = represents k (h, q) as"
  by (simp add: represents_def)

text \<open>What the move does with a queue, whatever the target.\<close>

lemma move_events_moving:
  assumes mv: "moving ks M s as bs"
  shows "\<exists>s'. event_queue_move_events lo cmp s = Inr s' \<and> same_target s s' \<and>
     moving ks M s' (filter (\<lambda>a. \<not> cmp (the (M a))) (examined as) @ unexamined as)
       (bs @ filter (\<lambda>a. cmp (the (M a))) (examined as))"
proof (cases as)
  case Nil
  then show ?thesis using mv moving_head[OF mv]
    by (simp add: event_queue_move_events_def examined_def unexamined_def)
next
  case (Cons p zs)
  have rep: "represents ks (mv_heap s, mv_src s) as" using mv by (simp add: moving_def)
  note D = representsD[OF rep]
  obtain c where c: "mv_heap s p = Some c" "cell_next c = last as"
    using represents_split[of ks "mv_heap s" "mv_src s" "[]" p zs] rep Cons by auto
  have start: "event_queue_move_events lo cmp s =
     rbind (move_loop (length as) cmp (last as) p s)
       (\<lambda>s. Inr (s\<lparr>mv_src := unthrottle lo (mv_src s)\<rparr>))"
  proof -
    have "eq_head (mv_src s) = Some p" using D(3) Cons by simp
    moreover have "nat (cur_len (mv_src s)) = length as" using D(6) by simp
    ultimately show ?thesis using c by (simp only: event_queue_move_events_def rd_def option.case rbind_Inr)
  qed
  have "\<exists>s'. move_loop (length as) cmp (last as) p s = Inr s' \<and> same_target s s' \<and>
     moving ks M s' (filter (\<lambda>a. \<not> cmp (the (M a))) (examined as) @ unexamined as)
       (bs @ filter (\<lambda>a. cmp (the (M a))) (examined as))"
  proof (cases zs)
    case Nil
    with Cons have as: "as = [p]" by simp
    show ?thesis
    proof (cases "cmp (the (M p))")
      case True
      obtain s' where "move_one cmp p s = Inr (p, s')" "moving ks M s' [] (bs @ [p])" "same_target s s'"
        using move_one_move[of ks M s "[]" p "[]" bs cmp] mv as True by auto
      then show ?thesis using True moving_head[of ks M s'] by (auto simp: as examined_def unexamined_def)
    next
      case False
      then show ?thesis
        using move_one_keep[of ks M s "[]" p "[]" bs cmp] mv by (simp add: as examined_def unexamined_def)
    qed
  next
    case (Cons z zs')
    then obtain ys l where as: "as = p # ys @ [l]"
      using \<open>as = p # zs\<close> by (metis append_butlast_last_id list.distinct(1))
    then show ?thesis
      using move_loop_correct[of ks M s "[]" p ys l bs "length as" cmp] mv
      by (auto simp: examined_def unexamined_def butlast_append)
  qed
  then obtain s' where "move_loop (length as) cmp (last as) p s = Inr s'" "same_target s s'"
    "moving ks M s' (filter (\<lambda>a. \<not> cmp (the (M a))) (examined as) @ unexamined as)
       (bs @ filter (\<lambda>a. cmp (the (M a))) (examined as))" by blast
  then show ?thesis
    by (auto simp: start same_target_def moving_def split: option.splits)
qed


section \<open>Properties\<close>

definition move_start :: "heap \<Rightarrow> event_queue \<Rightarrow> (nat \<times> event_queue) option \<Rightarrow> move_state" where
  "move_start h q target = \<lparr>mv_heap = h, mv_src = q, mv_dst = target, mv_log = []\<rparr>"



text \<open>
  Discarding events (a move without destination, as the first thread of a queue does with
  the expired ones) pays no regard to the other threads: when the message that another
  thread is about to confirm is among the discarded, the cell is freed under its hands, and
  \<^verbatim>\<open>event_queue_remove\<close> of that thread reads freed memory.
\<close>

theorem discard_frees_current:
  assumes src: "represents k (h, q) as" and cur: "qt_current (eq_threads q ! me) = Some el"
    and el: "el \<in> set (examined as)" and cmp: "cmp (msg_at h el)"
  shows "\<exists>s'. event_queue_move_events lo cmp (move_start h q None) = Inr s' \<and>
    mv_log s' = map (msg_at h) (filter (\<lambda>a. cmp (msg_at h a)) (examined as)) \<and>
    event_queue_remove lo k me (mv_heap s', mv_src s') = Inl Use_after_free"
proof -
  have "moving k (ms h) (move_start h q None) as []"
    using src by (simp add: moving_def move_start_def)
  from move_events_moving[OF this, of lo cmp] obtain s' where s':
    "event_queue_move_events lo cmp (move_start h q None) = Inr s'"
    "same_target (move_start h q None) s'"
    "moving k (ms h) s' (filter (\<lambda>a. \<not> cmp (msg_at h a)) (examined as) @ unexamined as)
       (filter (\<lambda>a. cmp (msg_at h a)) (examined as))"
    by (auto simp: msg_at_def)
  then have "mv_heap s' el = None" "mv_log s' = map (msg_at h) (filter (\<lambda>a. cmp (msg_at h a)) (examined as))"
    using el cmp by (auto simp: moving_def same_target_def move_start_def msg_at_def)
  moreover have "qt_current (eq_threads (mv_src s') ! me) = Some el"
    using s'(2) cur by (simp add: same_target_def move_start_def)
  ultimately show ?thesis
    using s'(1) by (auto simp: event_queue_remove_def rd_def Let_def)
qed


theorem discard_frees_current_witness:
  "\<exists>s'. event_queue_move_events 5 (cmp_expires 7) (move_start ex_heap ex_queue None) = Inr s' \<and>
    mv_log s' = [ex_msg ''a'' 0 5] \<and>
    event_queue_remove 5 0 1 (mv_heap s', mv_src s') = Inl Use_after_free"
proof -
  have "qt_current (eq_threads ex_queue ! 1) = Some 1" by (simp add: ex_queue_def)
  from discard_frees_current[OF ex_queue_represents this, of "cmp_expires 7" 5]
  show ?thesis by (simp add: examined_def msg_at_def ms_def ex_heap_def ex_msg_def cmp_expires_def)
qed

end
