(* ===== verification/LB_Escape.thy ===== *)
theory LB_Escape
  imports LB_IlMsg
begin

text \<open>
  Escaping of text (\<^verbatim>\<open>org.glite.lbjp-common.trio/src/escape.c\<close>): for values of ULM lines, for
  XML, SQL and JSON, and the decoding of URLs. Each encoder allocates a buffer from a count of
  the characters to be escaped and fills it; a buffer that is too short is a fault
  (\<open>filled\<close>, the final NUL included). Strings are C strings, without NUL.

  The theorems: what is escaped for ULM and XML is read back, an SQL literal is closed only by
  the quote that belongs to it, no encoder overruns its buffer, and the decoder of URLs reads
  beyond the end of a string that ends in an incomplete escape.
\<close>

section \<open>ULM\<close>

abbreviation "QM \<equiv> CHR 0x22"
abbreviation "BS \<equiv> CHR 0x5C"
abbreviation "APO \<equiv> CHR 0x27"

fun esc_ulm :: "string \<Rightarrow> string" where
  "esc_ulm [] = []"
| "esc_ulm (c # cs) =
     (if c \<noteq> BS \<and> c \<noteq> QM \<and> c \<noteq> LF then [c]
      else [BS, if c = LF then CHR ''n'' else c]) @ esc_ulm cs"

definition glite_lbu_EscapeULM :: "cstr \<Rightarrow> string res" where
  "glite_lbu_EscapeULM str =
     (case str of
        None \<Rightarrow> Inr []
      | Some s \<Rightarrow>
          if s = [] then Inr []
          else rbind (filled (1 + 2 * int (length s)) (esc_ulm s @ [NUL])) (\<lambda>_. Inr (esc_ulm s)))"

text \<open>A backslash at the end takes the final NUL as its character, and the result ends there.\<close>

fun unesc_ulm :: "string \<Rightarrow> string" where
  "unesc_ulm [] = []"
| "unesc_ulm [c] = (if c = BS then [] else [c])"
| "unesc_ulm (c # d # cs) =
     (if c = BS then (if d = CHR ''n'' then LF else d) # unesc_ulm cs else c # unesc_ulm (d # cs))"

definition glite_lbu_UnescapeULM :: "cstr \<Rightarrow> cstr" where
  "glite_lbu_UnescapeULM str =
     (case str of None \<Rightarrow> None | Some s \<Rightarrow> if s = [] then None else Some (unesc_ulm s))"

section \<open>XML\<close>

definition xml_etab :: "(char \<times> string) list" where
  "xml_etab = [(CHR ''<'', ''lt''), (CHR ''>'', ''gt''), (CHR ''&'', ''amp''), (QM, ''quot''), (APO, ''apos'')]"

definition xml_control :: "char \<Rightarrow> bool" where
  "xml_control c \<longleftrightarrow> (of_char c :: nat) mod 128 < 32 \<or> c = CHR ''%''"

definition hex_char :: "nat \<Rightarrow> char" where
  "hex_char n = (if n < 10 then char_of (48 + n) else char_of (87 + n))"

definition xml_hex :: "char \<Rightarrow> string" where
  "xml_hex c = [CHR ''%'', hex_char (of_char c div 16), hex_char (of_char c mod 16)]"

definition xml_escape_char :: "char \<Rightarrow> string" where
  "xml_escape_char c =
     (case map_of xml_etab c of
        Some e \<Rightarrow> CHR ''&'' # e @ [CHR '';'']
      | None \<Rightarrow> if xml_control c then xml_hex c else [c])"

definition xml_count :: "string \<Rightarrow> int" where
  "xml_count s = int (length (filter (\<lambda>c. c \<in> fst ` set xml_etab \<or> xml_control c) s))"

definition glite_lbu_EscapeXML :: "cstr \<Rightarrow> cstr res" where
  "glite_lbu_EscapeXML p =
     (case p of
        None \<Rightarrow> Inr None
      | Some s \<Rightarrow>
          let out = concat (map xml_escape_char s)
          in rbind (filled (int (length s) + 1 + xml_count s * 5) (out @ [NUL])) (\<lambda>_. Inr (Some out)))"

definition is_xdigit :: "char \<Rightarrow> bool" where
  "is_xdigit c \<longleftrightarrow> (let k = of_char c :: nat in 48 \<le> k \<and> k \<le> 57 \<or> 65 \<le> k \<and> k \<le> 70 \<or> 97 \<le> k \<and> k \<le> 102)"

definition xdigit_val :: "char \<Rightarrow> nat" where
  "xdigit_val c =
     (let k = of_char c :: nat in if k \<le> 57 then k - 48 else if k \<le> 70 then k - 55 else k - 87)"

text \<open>\<^verbatim>\<open>strncasecmp(a, b, n) == 0\<close>\<close>

definition strncaseeq :: "string \<Rightarrow> string \<Rightarrow> nat \<Rightarrow> bool" where
  "strncaseeq a b n \<longleftrightarrow> strcaseeq (take n a) (take n b)"

definition xml_entity :: "string \<Rightarrow> nat \<Rightarrow> char option" where
  "xml_entity name n = map_option fst (find (\<lambda>(c, e). strncaseeq name e n) xml_etab)"

fun unesc_xml :: "nat \<Rightarrow> string \<Rightarrow> string" where
  "unesc_xml 0 s = []"
| "unesc_xml (Suc fuel) s =
     (case s of
        [] \<Rightarrow> []
      | c # cs \<Rightarrow>
          if c = CHR ''&'' then
            (if CHR '';'' \<in> set cs then
               let n = length (takeWhile (\<lambda>x. x \<noteq> CHR '';'') cs) in
               (case xml_entity cs n of
                  Some x \<Rightarrow> x # unesc_xml fuel (drop (n + 1) cs)
                | None \<Rightarrow> c # unesc_xml fuel cs)
             else c # unesc_xml fuel cs)
          else if c = CHR ''%'' then
            (case cs of
               a # b # rest \<Rightarrow>
                 if is_xdigit a \<and> is_xdigit b \<and> xml_control (char_of (16 * xdigit_val a + xdigit_val b))
                 then char_of (16 * xdigit_val a + xdigit_val b) # unesc_xml fuel rest
                 else c # unesc_xml fuel cs
             | _ \<Rightarrow> c # unesc_xml fuel cs)
          else c # unesc_xml fuel cs)"

text \<open>Every round takes a character at least, so the length bounds the rounds.\<close>

definition glite_lbu_UnescapeXML :: "cstr \<Rightarrow> cstr" where
  "glite_lbu_UnescapeXML p = map_option (\<lambda>s. c_str (unesc_xml (length s) s)) p"

section \<open>SQL, JSON and URLs\<close>

definition sql_escape_char :: "char \<Rightarrow> string" where
  "sql_escape_char c = (if c = BS then [BS] else []) @ (if c = APO then [APO] else []) @ [c]"

definition glite_lbu_EscapeSQL :: "cstr \<Rightarrow> cstr res" where
  "glite_lbu_EscapeSQL p =
     (case p of
        None \<Rightarrow> Inr None
      | Some s \<Rightarrow>
          let cnt = int (length (filter (\<lambda>c. c = APO) s)) + int (length (filter (\<lambda>c. c = BS) s));
              out = concat (map sql_escape_char s)
          in rbind (filled (int (length s) + 1 + cnt) (out @ [NUL])) (\<lambda>_. Inr (Some out)))"

definition json_short :: "(char \<times> char) list" where
  "json_short = [(QM, QM), (BS, BS), (CHR 0x08, CHR ''b''), (CHR 0x0C, CHR ''f''), (LF, CHR ''n''),
     (CHR 0x0D, CHR ''r''), (CHR 0x09, CHR ''t'')]"

definition json_escape_char :: "char \<Rightarrow> string" where
  "json_escape_char c =
     (case map_of json_short c of
        Some e \<Rightarrow> [BS, e]
      | None \<Rightarrow>
          if (of_char c :: nat) < 32 then
            [BS, CHR ''u'', CHR ''0'', CHR ''0'', hex_char (of_char c div 16), hex_char (of_char c mod 16)]
          else [c])"

definition json_cost :: "char \<Rightarrow> int" where
  "json_cost c = (if c \<in> fst ` set json_short then 1 else if (of_char c :: nat) < 32 then 6 else 0)"

text \<open>While the buffer is filled, each \<^verbatim>\<open>snprintf\<close> of a control character also writes its own NUL.\<close>

definition glite_lbu_EscapeJSON :: "cstr \<Rightarrow> cstr res" where
  "glite_lbu_EscapeJSON p =
     (case p of
        None \<Rightarrow> Inr None
      | Some s \<Rightarrow>
          let out = concat (map json_escape_char s)
          in rbind (filled (int (length s) + 1 + sum_list (map json_cost s)) (out @ [NUL])) (\<lambda>_. Inr (Some out)))"

text \<open>
  \<^verbatim>\<open>sscanf(s, "%02X", &val)\<close>: the result of \<^verbatim>\<open>sscanf\<close> is not 0 when a number was read and when
  the input has ended (then the variable keeps its value, \<open>junk\<close> at first).
\<close>

definition scan_hex2 :: "string \<Rightarrow> nat option \<Rightarrow> nat option option" where
  "scan_hex2 s old =
     (let t = dropWhile isspace s;
          sign = (t \<noteq> [] \<and> (hd t = CHR ''-'' \<or> hd t = CHR ''+''));
          ds = takeWhile is_xdigit (if sign then take 1 (tl t) else take 2 t);
          v = foldl (\<lambda>n c. 16 * n + xdigit_val c) 0 ds
      in if t = [] then Some old
         else if ds = [] then None
         else Some (Some (if hd t = CHR ''-'' then (2 ^ 32 - v) mod 2 ^ 32 else v)))"

lemma dropWhile_tl_shorter:
  "dropWhile P s \<noteq> [] \<Longrightarrow> length (tl (dropWhile P s)) < length s"
  using length_dropWhile_le[of P s] by (cases "dropWhile P s") auto

text \<open>
  The loop from a percent sign on; \<open>spec + 3\<close> must not lie behind the final NUL. The character
  written is the lowest byte of the number, and nothing for 0.
\<close>

function unesc_url :: "nat \<Rightarrow> nat option \<Rightarrow> string \<Rightarrow> string res" where
  "unesc_url junk old s =
     (let plain = takeWhile (\<lambda>c. c \<noteq> CHR ''%'') s; spec = dropWhile (\<lambda>c. c \<noteq> CHR ''%'') s
      in if spec = [] then Inr plain
         else case scan_hex2 (tl spec) old of
           None \<Rightarrow> rbind (unesc_url junk old (tl spec)) (\<lambda>r. Inr (plain @ r))
         | Some v \<Rightarrow>
             if length spec < 3 then Inl Out_of_bounds
             else
               let b = (case v of Some x \<Rightarrow> x | None \<Rightarrow> junk) mod 256
               in rbind (unesc_url junk v (drop 3 spec)) (\<lambda>r.
                  Inr (plain @ (if b = 0 then [] else [char_of b]) @ r)))"
  by pat_completeness auto

termination
proof (relation "measure (\<lambda>(_, _, s). length s)", goal_cases)
  case (3 junk old s plain spec v b)
  then show ?case using length_dropWhile_le[of "\<lambda>c. c \<noteq> CHR ''%''" s] by (cases spec) auto
next
  case (2 junk old s plain spec)
  then show ?case using dropWhile_tl_shorter[of "\<lambda>c. c \<noteq> CHR ''%''" s] by simp
qed simp

declare unesc_url.simps [simp del]

definition glite_lbu_UnescapeURL :: "nat \<Rightarrow> cstr \<Rightarrow> cstr res" where
  "glite_lbu_UnescapeURL junk p =
     (case p of None \<Rightarrow> Inr None | Some s \<Rightarrow> rbind (unesc_url junk None s) (\<lambda>r. Inr (Some r)))"

section \<open>ULM values\<close>

lemma esc_ulm_not_nil: "s \<noteq> [] \<Longrightarrow> esc_ulm s \<noteq> []"
  by (cases s) auto

lemma unesc_esc_ulm: "unesc_ulm (esc_ulm s) = s"
proof (induction s)
  case (Cons c s)
  have "unesc_ulm (d # esc_ulm s) = d # unesc_ulm (esc_ulm s)" if "d \<noteq> BS" for d
    using that by (cases "esc_ulm s") auto
  then show ?case using Cons by auto
qed simp

lemma length_esc_ulm: "length (esc_ulm s) \<le> 2 * length s"
  by (induction s) auto

text \<open>
  A value escaped for a ULM line is read back unchanged, the buffer for it is large enough,
  and the escaped text holds no line feed that would end the event and no bare quote that would
  end the value. (An empty value comes back as a null pointer.)
\<close>

theorem escape_ulm_roundtrip:
  "\<exists>e. glite_lbu_EscapeULM (Some s) = Inr e \<and> LF \<notin> set e \<and>
     glite_lbu_UnescapeULM (Some e) = (if s = [] then None else Some s)"
proof -
  have "LF \<notin> set (esc_ulm s)" by (induction s) auto
  moreover have "int (length (esc_ulm s @ [NUL])) \<le> 1 + 2 * int (length s)" using length_esc_ulm[of s] by simp
  ultimately show ?thesis
    by (auto simp: glite_lbu_EscapeULM_def glite_lbu_UnescapeULM_def filled_ok unesc_esc_ulm esc_ulm_not_nil)
qed

section \<open>XML texts\<close>

lemma of_char_hex: "n < 16 \<Longrightarrow> (of_char (hex_char n) :: nat) = (if n < 10 then 48 + n else 87 + n)"
  by (simp add: hex_char_def)

lemma xdigit_hex [simp]:
  assumes "n < 16"
  shows "is_xdigit (hex_char n)" and "xdigit_val (hex_char n) = n"
  using assms by (auto simp: is_xdigit_def xdigit_val_def of_char_hex Let_def)

lemma unesc_hex [simp]:
  "xml_control c \<Longrightarrow> unesc_xml (Suc fuel) (xml_hex c @ r) = c # unesc_xml fuel r"
proof -
  assume "xml_control c"
  have d: "(of_char c :: nat) div 16 < 16"
    using nat_of_char_less_256[of c] by (simp add: less_mult_imp_div_less)
  have "16 * (of_char c div 16) + of_char c mod 16 = (of_char c :: nat)" by simp
  then show ?thesis using d \<open>xml_control c\<close> by (simp add: xml_hex_def)
qed

lemma unesc_entity:
  assumes "(c, e) \<in> set xml_etab"
  shows "unesc_xml (Suc fuel) (CHR ''&'' # e @ CHR '';'' # r) = c # unesc_xml fuel r"
  using assms
  by (auto simp: xml_etab_def xml_entity_def strncaseeq_def strcaseeq_def tolower_def)

lemma unesc_escape_char:
  "unesc_xml (Suc fuel) (xml_escape_char c @ r) = c # unesc_xml fuel r"
proof (cases "map_of xml_etab c")
  case (Some e)
  then have "(c, e) \<in> set xml_etab" by (rule map_of_SomeD)
  then show ?thesis using Some unesc_entity[of c e fuel r] by (simp add: xml_escape_char_def)
next
  case None
  show ?thesis
  proof (cases "xml_control c")
    case True
    then show ?thesis using None by (simp add: xml_escape_char_def del: unesc_xml.simps)
  next
    case False
    moreover have "c \<noteq> CHR ''&''" using None by (auto simp: xml_etab_def split: if_splits)
    moreover have "c \<noteq> CHR ''%''" using False by (auto simp: xml_control_def)
    ultimately show ?thesis using None by (simp add: xml_escape_char_def)
  qed
qed

lemma unesc_escape_xml:
  "length s \<le> fuel \<Longrightarrow> unesc_xml fuel (concat (map xml_escape_char s)) = s"
proof (induction s arbitrary: fuel)
  case Nil
  then show ?case by (cases fuel) auto
next
  case (Cons c s)
  then obtain f where "fuel = Suc f" "length s \<le> f" by (cases fuel) auto
  then show ?case using Cons.IH[of f] by (simp add: unesc_escape_char del: unesc_xml.simps)
qed

lemma xml_escape_length:
  "int (length (xml_escape_char c)) \<le> (if c \<in> fst ` set xml_etab \<or> xml_control c then 6 else 1) \<and>
     length (xml_escape_char c) \<ge> 1"
  by (auto simp: xml_escape_char_def xml_etab_def xml_hex_def)

lemma xml_buffer:
  "int (length (concat (map xml_escape_char s))) \<le> int (length s) + xml_count s * 5 \<and>
     length s \<le> length (concat (map xml_escape_char s))"
proof (induction s)
  case (Cons c s)
  then show ?case using xml_escape_length[of c] by (auto simp: xml_count_def split: if_splits)
qed (simp add: xml_count_def)

text \<open>
  Any text escaped for XML fits the buffer allocated for it and is read back unchanged.
\<close>

theorem escape_xml_roundtrip:
  "NUL \<notin> set s \<Longrightarrow> \<exists>e. glite_lbu_EscapeXML (Some s) = Inr (Some e) \<and> glite_lbu_UnescapeXML (Some e) = Some s"
  using xml_buffer[of s] unesc_escape_xml[of s]
  by (simp add: glite_lbu_EscapeXML_def glite_lbu_UnescapeXML_def filled_ok c_str_id Let_def)

theorem escape_xml_roundtrip_witness:
  "\<exists>e. glite_lbu_EscapeXML (Some ''a<b&100%'') = Inr (Some e) \<and> glite_lbu_UnescapeXML (Some e) = Some ''a<b&100%''"
  by (rule escape_xml_roundtrip) simp

section \<open>SQL literals\<close>

text \<open>
  How the database reads a literal, from behind its opening quote: a doubled quote and a
  character behind a backslash stand for themselves, a single quote ends it.
\<close>

fun sql_literal :: "string \<Rightarrow> (string \<times> string) option" where
  "sql_literal [] = None"
| "sql_literal [c] = (if c = APO then Some ([], []) else None)"
| "sql_literal (c # d # r) =
     (if c = BS then map_option (\<lambda>(v, t). (d # v, t)) (sql_literal r)
      else if c = APO then
        (if d = APO then map_option (\<lambda>(v, t). (APO # v, t)) (sql_literal r) else Some ([], d # r))
      else map_option (\<lambda>(v, t). (c # v, t)) (sql_literal (d # r)))"

lemma sql_literal_escaped:
  assumes "r = [] \<or> hd r \<noteq> APO"
  shows "sql_literal (concat (map sql_escape_char s) @ APO # r) = Some (s, r)"
proof (induction s)
  case Nil
  show ?case using assms by (cases r) auto
next
  case (Cons c s)
  obtain x xs where x: "concat (map sql_escape_char s) @ APO # r = x # xs"
    by (cases "concat (map sql_escape_char s) @ APO # r") auto
  show ?case using Cons x by (auto simp: sql_escape_char_def[of c])
qed

text \<open>
  C17. An escaped string cannot break out of an SQL literal: the database reads exactly the
  string that was escaped, and the literal ends at the closing quote of the statement,
  whatever the string holds; and the buffer is allocated to the byte.
\<close>

theorem escape_sql_safe:
  assumes "r = [] \<or> hd r \<noteq> APO"
  shows "\<exists>e. glite_lbu_EscapeSQL (Some s) = Inr (Some e) \<and> sql_literal (e @ APO # r) = Some (s, r)"
proof -
  have "length (concat (map sql_escape_char s)) =
      length s + length (filter (\<lambda>c. c = APO) s) + length (filter (\<lambda>c. c = BS) s)"
    by (induction s) (auto simp: sql_escape_char_def)
  then show ?thesis
    using sql_literal_escaped[OF assms] by (simp add: glite_lbu_EscapeSQL_def filled_ok Let_def)
qed

theorem escape_sql_safe_witness:
  "\<exists>e. glite_lbu_EscapeSQL (Some (''x'' @ APO # '' or 1=1'')) = Inr (Some e) \<and>
     sql_literal (e @ APO # '' limit 1'') = Some (''x'' @ APO # '' or 1=1'', '' limit 1'')"
  by (rule escape_sql_safe) simp

section \<open>JSON strings and URLs\<close>

lemma json_buffer:
  "int (length (concat (map json_escape_char s))) \<le> int (length s) + sum_list (map json_cost s)"
proof (induction s)
  case (Cons c s)
  have "int (length (json_escape_char c)) \<le> 1 + json_cost c"
    by (auto simp: json_escape_char_def json_cost_def json_short_def split: if_splits)
  then show ?case using Cons by simp
qed simp

text \<open>How a JSON string is read, from behind its opening quote (one byte per code).\<close>

fun json_string :: "string \<Rightarrow> (string \<times> string) option" where
  "json_string [] = None"
| "json_string (c # r) =
     (if c = QM then Some ([], r)
      else if (of_char c :: nat) < 32 then None
      else if c \<noteq> BS then map_option (\<lambda>(v, t). (c # v, t)) (json_string r)
      else
        case r of
          [] \<Rightarrow> None
        | e # t \<Rightarrow>
            if e = CHR ''u'' then
              (case t of
                 a # b # x # y # t' \<Rightarrow>
                   if list_all is_xdigit [a, b, x, y] then
                     map_option (\<lambda>(v, w). (char_of (foldl (\<lambda>n d. 16 * n + xdigit_val d) 0 [a, b, x, y]) # v, w)) (json_string t')
                   else None
               | _ \<Rightarrow> None)
            else
              (case map_of (map (\<lambda>(p, q). (q, p)) json_short) e of
                 None \<Rightarrow> None
               | Some x \<Rightarrow> map_option (\<lambda>(v, w). (x # v, w)) (json_string t)))"

lemma json_string_escape_char:
  "json_string (json_escape_char c @ r) = map_option (\<lambda>(v, t). (c # v, t)) (json_string r)"
proof (cases "map_of json_short c")
  case (Some e)
  then have "(c, e) \<in> set json_short" by (rule map_of_SomeD)
  then show ?thesis using Some by (auto simp: json_escape_char_def json_short_def)
next
  case None
  then have nb: "c \<noteq> QM" "c \<noteq> BS" by (auto simp: json_short_def split: if_splits)
  show ?thesis
  proof (cases "(of_char c :: nat) < 32")
    case True
    have "is_xdigit (CHR ''0'')" "xdigit_val (CHR ''0'') = 0" by (simp_all add: is_xdigit_def xdigit_val_def)
    moreover have "16 * (of_char c div 16) + of_char c mod 16 = (of_char c :: nat)" by simp
    moreover have "(of_char c :: nat) div 16 < 16" using True by simp
    ultimately show ?thesis using True None by (simp add: json_escape_char_def)
  next
    case False
    then show ?thesis using None nb by (simp add: json_escape_char_def)
  qed
qed

text \<open>
  A string escaped for JSON fits its buffer, and a reader of JSON gets the string back and
  ends at the closing quote.
\<close>

theorem escape_json_safe:
  "\<exists>e. glite_lbu_EscapeJSON (Some s) = Inr (Some e) \<and> json_string (e @ QM # r) = Some (s, r)"
proof -
  have "json_string (concat (map json_escape_char s) @ QM # r) = Some (s, r)"
    by (induction s) (simp_all add: json_string_escape_char)
  then show ?thesis
    using json_buffer[of s] by (simp add: glite_lbu_EscapeJSON_def filled_ok Let_def)
qed

text \<open>
  The decoder of URLs steps over the two digits of an escape without looking whether they
  are there: with a percent sign as the last character, or followed by one digit only, it goes
  on reading behind the end of the string.
\<close>

theorem unescape_url_overread:
  assumes "CHR ''%'' \<notin> set s" and "is_xdigit d"
  shows "glite_lbu_UnescapeURL junk (Some (s @ ''%'')) = Inl Out_of_bounds \<and>
    glite_lbu_UnescapeURL junk (Some (s @ [CHR ''%'', d])) = Inl Out_of_bounds"
proof -
  have tw: "takeWhile (\<lambda>c. c \<noteq> CHR ''%'') (s @ CHR ''%'' # r) = s \<and>
      dropWhile (\<lambda>c. c \<noteq> CHR ''%'') (s @ CHR ''%'' # r) = CHR ''%'' # r" for r
    using assms(1) by (induction s) auto
  have "\<not> isspace d" "d \<noteq> CHR ''-''" "d \<noteq> CHR ''+''"
    using assms(2) by (auto simp: is_xdigit_def isspace_def Let_def)
  then have "scan_hex2 [d] None = Some (Some (xdigit_val d))"
    using assms(2) by (simp add: scan_hex2_def)
  moreover have "scan_hex2 [] None = Some None" by (simp add: scan_hex2_def)
  ultimately show ?thesis
    using tw[of "[]"] tw[of "[d]"] by (simp add: glite_lbu_UnescapeURL_def unesc_url.simps Let_def)
qed

theorem unescape_url_overread_witness:
  "glite_lbu_UnescapeURL 0 (Some (''ab'' @ ''%'')) = Inl Out_of_bounds \<and>
    glite_lbu_UnescapeURL 0 (Some (''ab'' @ [CHR ''%'', CHR ''4''])) = Inl Out_of_bounds"
  by (rule unescape_url_overread) (simp_all add: is_xdigit_def)

end
