(* ===== verification/LB_UlmDate.thy ===== *)
theory LB_UlmDate
  imports LB_EventStore
begin

text \<open>
  Dates of events (\<^verbatim>\<open>org.glite.lb.common/src/ulm_parse.c\<close>): a date is written as
  \<^verbatim>\<open>YYYYMMDDHHmmss.uuuuuu\<close> in Greenwich time. Reading it computes the seconds since 1970 by
  a formula with divisions, in unsigned arithmetic. The formula is shown to count the days of
  the Gregorian calendar, and reading to undo writing. What \<^verbatim>\<open>gmtime_r\<close> does (years and
  months are taken off as long as there are days) and the conversions of \<^verbatim>\<open>strftime\<close> are modelled
  with it.
\<close>

section \<open>Reading\<close>

definition u32 :: "int \<Rightarrow> int" where "u32 x = x mod 2 ^ 32"
definition u64 :: "int \<Rightarrow> int" where "u64 x = x mod 2 ^ 64"

definition c_long :: "int \<Rightarrow> int" where
  "c_long x = (x + 2 ^ 63) mod 2 ^ 64 - 2 ^ 63"

definition DIG :: "char \<Rightarrow> int" where
  "DIG c = (let k = int (of_char c) in (if k < 128 then k else k - 256) - 48)"

record ulm_date =
  d_year :: int
  d_mon :: int
  d_day :: int
  d_hour :: int
  d_min :: int
  d_sec :: int
  d_usec :: int

definition edg_wll_ULMSplitDate :: "string \<Rightarrow> ulm_date res" where
  "edg_wll_ULMSplitDate s =
     (if length s < 14 then Inl Out_of_bounds
      else Inr \<lparr>
        d_year = u32 (DIG (s ! 0) * 1000 + DIG (s ! 1) * 100 + DIG (s ! 2) * 10 + DIG (s ! 3)),
        d_mon = u32 (DIG (s ! 4) * 10 + DIG (s ! 5)),
        d_day = u32 (DIG (s ! 6) * 10 + DIG (s ! 7)),
        d_hour = u32 (DIG (s ! 8) * 10 + DIG (s ! 9)),
        d_min = u32 (DIG (s ! 10) * 10 + DIG (s ! 11)),
        d_sec = u32 (DIG (s ! 12) * 10 + DIG (s ! 13)),
        d_usec = (if length s > 14 \<and> s ! 14 = CHR ''.'' then u64 (atol (drop 15 s)) else 0)\<rparr>)"

text \<open>The inner expression of \<^verbatim>\<open>edg_wll_ULMDateToTimeval\<close>, then the whole: days, hours,
  minutes and seconds.\<close>

definition date_days :: "int \<Rightarrow> int \<Rightarrow> int \<Rightarrow> int" where
  "date_days y mo d =
     (let m = u32 (mo - 2); wrap = (0 \<ge> c_int m);
          mon = (if wrap then u32 (m + 12) else m); year = (if wrap then u32 (y - 1) else y)
      in u64 (u32 (year div 4 - year div 100 + year div 400 + u32 (367 * mon) div 12 + d) +
              u32 (year * 365) - 719499))"

definition date_seconds :: "ulm_date \<Rightarrow> int" where
  "date_seconds d =
     c_long (u64 ((date_days (d_year d) (d_mon d) (d_day d) * 24 + d_hour d) * 60 + d_min d) * 60 + d_sec d)"

definition edg_wll_ULMDateToTimeval :: "string \<Rightarrow> (int \<times> int) res" where
  "edg_wll_ULMDateToTimeval s =
     rbind (edg_wll_ULMSplitDate s) (\<lambda>d. Inr (date_seconds d, c_long (d_usec d)))"

section \<open>The calendar\<close>

definition leap :: "nat \<Rightarrow> bool" where
  "leap y \<longleftrightarrow> y mod 4 = 0 \<and> (y mod 100 \<noteq> 0 \<or> y mod 400 = 0)"

definition year_days :: "nat \<Rightarrow> nat" where
  "year_days y = (if leap y then 366 else 365)"

definition month_days :: "nat \<Rightarrow> nat \<Rightarrow> nat" where
  "month_days y m = (if m = 2 then (if leap y then 29 else 28) else if m \<in> {4, 6, 9, 11} then 30 else 31)"

text \<open>Days from the first of January 1970 to the given date.\<close>

definition days_to_year :: "nat \<Rightarrow> nat" where
  "days_to_year y = sum_list (map year_days [1970..<y])"

definition days_to_month :: "nat \<Rightarrow> nat \<Rightarrow> nat" where
  "days_to_month y m = sum_list (map (month_days y) [1..<m])"

definition epoch_days :: "nat \<Rightarrow> nat \<Rightarrow> nat \<Rightarrow> nat" where
  "epoch_days y m d = days_to_year y + days_to_month y m + (d - 1)"

function gm_year :: "nat \<Rightarrow> nat \<Rightarrow> nat \<times> nat" where
  "gm_year y n = (if n < year_days y then (y, n) else gm_year (y + 1) (n - year_days y))"
  by pat_completeness auto
termination
  by (relation "measure (\<lambda>(y, n). n)") (auto simp: year_days_def)

function gm_month :: "nat \<Rightarrow> nat \<Rightarrow> nat \<Rightarrow> nat \<times> nat" where
  "gm_month y m n = (if n < month_days y m then (m, n) else gm_month y (m + 1) (n - month_days y m))"
  by pat_completeness auto
termination
  by (relation "measure (\<lambda>(y, m, n). n)") (auto simp: month_days_def split: if_splits)

declare gm_year.simps [simp del] gm_month.simps [simp del]

definition gmtime :: "int \<Rightarrow> nat \<times> nat \<times> nat \<times> nat \<times> nat \<times> nat" where
  "gmtime t =
     (case gm_year 1970 (nat (t div 86400)) of (y, n) \<Rightarrow>
      case gm_month y 1 n of (m, d) \<Rightarrow>
        let r = nat (t mod 86400) in (y, m, d + 1, r div 3600, r div 60 mod 60, r mod 60))"

section \<open>Writing\<close>

definition ULM_DATE_STRING_LENGTH :: nat where
  "ULM_DATE_STRING_LENGTH = 21"

text \<open>\<^verbatim>\<open>strftime\<close> writes nothing when the text with its NUL does not fit.\<close>

definition edg_wll_ULMTimevalToDate :: "int \<Rightarrow> int \<Rightarrow> string option" where
  "edg_wll_ULMTimevalToDate sec usec =
     (if sec < 0 \<or> usec < 0 \<or> usec > 999999 then None
      else
        case gmtime sec of (y, m, d, h, mi, s) \<Rightarrow>
          let t = show_nat y @ show_pad 2 (int m) @ show_pad 2 (int d) @ show_pad 2 (int h) @
                    show_pad 2 (int mi) @ show_pad 2 (int s);
              len = (if length t + 1 \<le> ULM_DATE_STRING_LENGTH + 1 - 7 then length t else 0)
          in if len \<noteq> ULM_DATE_STRING_LENGTH - 7 then None
             else Some (t @ CHR ''.'' # show_pad 6 usec))"

section \<open>The formula counts the days\<close>

definition leaps :: "int \<Rightarrow> int" where
  "leaps y = y div 4 - y div 100 + y div 400"

lemma leaps_step: "leaps (int (y + 1)) = leaps (int y) + (if leap (y + 1) then 1 else 0)"
proof -
  have L: "leaps (int n) = int (n div 4) - int (n div 100) + int (n div 400)" for n
    by (simp add: leaps_def zdiv_int)
  have "(n mod 400 = 0 \<longrightarrow> n mod 100 = 0) \<and> (n mod 100 = 0 \<longrightarrow> n mod 4 = 0)" for n :: nat
    by presburger
  from this[of "y + 1"] show ?thesis
    unfolding L leap_def by (auto simp: div_Suc)
qed

lemma days_to_year_closed:
  "1970 \<le> y \<Longrightarrow> int (days_to_year y) = 365 * (int y - 1970) + leaps (int y - 1) - 477"
proof (induction y rule: nat_induct_at_least)
  case base
  show ?case by (simp add: days_to_year_def leaps_def)
next
  case (Suc y)
  have "int (days_to_year (Suc y)) = int (days_to_year y) + int (year_days y)"
    using Suc.hyps by (simp add: days_to_year_def)
  moreover have "leaps (int y) = leaps (int y - 1) + (if leap y then 1 else 0)"
    using leaps_step[of "y - 1"] Suc.hyps by (simp add: of_nat_diff)
  ultimately show ?case using Suc.IH by (simp add: year_days_def)
qed

text \<open>The year and the month counted from March, and the days before the month.\<close>

lemma days_to_month_table:
  "days_to_month y (Suc 0) = 0" "days_to_month y 2 = 31"
  "days_to_month y 3 = 59 + (if leap y then 1 else 0)" "days_to_month y 4 = 90 + (if leap y then 1 else 0)"
  "days_to_month y 5 = 120 + (if leap y then 1 else 0)" "days_to_month y 6 = 151 + (if leap y then 1 else 0)"
  "days_to_month y 7 = 181 + (if leap y then 1 else 0)" "days_to_month y 8 = 212 + (if leap y then 1 else 0)"
  "days_to_month y 9 = 243 + (if leap y then 1 else 0)" "days_to_month y 10 = 273 + (if leap y then 1 else 0)"
  "days_to_month y 11 = 304 + (if leap y then 1 else 0)" "days_to_month y 12 = 334 + (if leap y then 1 else 0)"
  by (simp_all add: days_to_month_def month_days_def upt_conv_Cons)

definition march_days :: "int \<Rightarrow> int \<Rightarrow> int \<Rightarrow> int" where
  "march_days year mon d = leaps year + 367 * mon div 12 + d + 365 * year - 719499"

lemma formula_days:
  assumes "1970 \<le> y" and "1 \<le> m" and "m \<le> 12" and "1 \<le> d"
  shows "(if m \<le> 2 then march_days (int y - 1) (int m + 10) (int d) else march_days (int y) (int m - 2) (int d)) =
    int (epoch_days y m d)"
proof -
  note closed = days_to_year_closed[OF assms(1)]
  have l: "leaps (int y) = leaps (int y - 1) + (if leap y then 1 else 0)"
    using leaps_step[of "y - 1"] assms(1) by (simp add: of_nat_diff)
  have e: "int (epoch_days y m d) =
      365 * (int y - 1970) + leaps (int y - 1) - 477 + int (days_to_month y m) + int d - 1"
    using closed assms(4) by (simp add: epoch_days_def of_nat_diff)
  have "m = 1 \<or> m = 2 \<or> m = 3 \<or> m = 4 \<or> m = 5 \<or> m = 6 \<or> m = 7 \<or> m = 8 \<or> m = 9 \<or> m = 10 \<or> m = 11 \<or> m = 12"
    using assms(2,3) by presburger
  then show ?thesis
    unfolding e march_days_def by (elim disjE) (simp_all add: days_to_month_table l)
qed

lemma leaps_bounds: "0 \<le> y \<Longrightarrow> y \<le> 9999 \<Longrightarrow> 0 \<le> leaps y \<and> leaps y \<le> 5000"
proof -
  assume y: "0 \<le> y" "y \<le> 9999"
  have "y div 100 \<le> y div 4" "y div 400 \<le> y div 4" using y(1) by (simp_all add: zdiv_mono2)
  moreover have "y div 4 \<le> 9999 div 4" using y(2) by (rule zdiv_mono1) simp
  moreover have "0 \<le> y div 100" "0 \<le> y div 400" using y(1) by simp_all
  ultimately show ?thesis by (simp add: leaps_def)
qed

lemma u32_id: "0 \<le> x \<Longrightarrow> x < 2 ^ 32 \<Longrightarrow> u32 x = x"
  and u64_id: "0 \<le> x \<Longrightarrow> x < 2 ^ 64 \<Longrightarrow> u64 x = x"
  and c_long_id: "- (2 ^ 63) \<le> x \<Longrightarrow> x < 2 ^ 63 \<Longrightarrow> c_long x = x"
  by (simp_all add: u32_def u64_def c_long_def)

text \<open>The month from March and its year, as the code computes them without signs.\<close>

lemma wrap_month:
  assumes "1 \<le> m" and "m \<le> 12"
  shows "(0 \<ge> c_int (u32 (int m - 2))) = (m \<le> 2)"
    and "m \<le> 2 \<Longrightarrow> u32 (u32 (int m - 2) + 12) = int m + 10"
    and "\<not> m \<le> 2 \<Longrightarrow> u32 (int m - 2) = int m - 2"
proof -
  consider "m = 1" | "m = 2" | "3 \<le> m" using assms(1) by linarith
  then show "(0 \<ge> c_int (u32 (int m - 2))) = (m \<le> 2)"
  proof cases
    case 3
    then have "u32 (int m - 2) = int m - 2" "in_int (int m - 2)" using assms by (simp_all add: u32_id in_int_def)
    then show ?thesis using 3 by simp
  qed (simp_all add: u32_def c_int_def)
  show "u32 (u32 (int m - 2) + 12) = int m + 10" if "m \<le> 2"
    using that assms by (simp add: u32_def mod_simps)
  show "u32 (int m - 2) = int m - 2" if "\<not> m \<le> 2"
    using that assms by (simp add: u32_id)
qed

lemma unsigned_days:
  assumes "1 \<le> year" and "year \<le> 9999" and "1 \<le> mon" and "mon \<le> 12" and "0 \<le> d" and "d \<le> 31"
    and "0 \<le> march_days year mon d"
  shows "u64 (u32 (year div 4 - year div 100 + year div 400 + u32 (367 * mon) div 12 + d) +
     u32 (year * 365) - 719499) = march_days year mon d"
proof -
  have m: "u32 (367 * mon) = 367 * mon" using assms by (simp add: u32_id)
  have y: "u32 (year * 365) = year * 365" using assms by (simp add: u32_id)
  have "0 \<le> 367 * mon div 12" using assms(3) by simp
  moreover have "367 * mon div 12 \<le> 367 * 12 div 12" by (rule zdiv_mono1) (use assms(4) in auto)
  ultimately have b: "0 \<le> leaps year + 367 * mon div 12 + d" "leaps year + 367 * mon div 12 + d < 10000"
    using leaps_bounds[of year] assms by simp_all
  then have "u32 (leaps year + 367 * mon div 12 + d) = leaps year + 367 * mon div 12 + d"
    by (intro u32_id) auto
  moreover have "march_days year mon d < 2 ^ 64" using b assms(2) by (simp add: march_days_def)
  ultimately show ?thesis
    using assms(7) unfolding m y by (simp add: march_days_def leaps_def u64_id ac_simps)
qed

lemma epoch_days_bound:
  assumes "1970 \<le> y" and "y \<le> 9999" and "1 \<le> m" and "m \<le> 12" and "1 \<le> d" and "d \<le> 31"
  shows "int (epoch_days y m d) < 3000000"
proof -
  have "int (days_to_year y) \<le> 365 * 8030 + 5000"
    using days_to_year_closed[OF assms(1)] leaps_bounds[of "int y - 1"] assms(1,2) by simp
  moreover have "m = 1 \<or> m = 2 \<or> m = 3 \<or> m = 4 \<or> m = 5 \<or> m = 6 \<or> m = 7 \<or> m = 8 \<or> m = 9 \<or> m = 10 \<or> m = 11 \<or> m = 12"
    using assms(3,4) by presburger
  then have "days_to_month y m \<le> 400" by (elim disjE) (simp_all add: days_to_month_table)
  ultimately show ?thesis using assms(6) by (simp add: epoch_days_def)
qed

lemma date_seconds_epoch:
  assumes "1970 \<le> y" and "y \<le> 9999" and "1 \<le> m" and "m \<le> 12" and "1 \<le> d" and "d \<le> 31"
    and "h < 100" and "mi < 100" and "s < 100"
  shows "date_seconds \<lparr>d_year = int y, d_mon = int m, d_day = int d, d_hour = int h, d_min = int mi,
      d_sec = int s, d_usec = u\<rparr> =
    86400 * int (epoch_days y m d) + 3600 * int h + 60 * int mi + int s"
proof -
  let ?e = "int (epoch_days y m d)"
  have e: "0 \<le> ?e" "?e < 3000000" using epoch_days_bound assms by simp_all
  have md: "(if m \<le> 2 then march_days (int y - 1) (int m + 10) (int d) else march_days (int y) (int m - 2) (int d)) = ?e"
    by (rule formula_days) (use assms in auto)
  have y1: "u32 (int y - 1) = int y - 1" using assms(1,2) by (simp add: u32_id)
  have days: "date_days (int y) (int m) (int d) = ?e"
  proof (cases "m \<le> 2")
    case True
    then have "march_days (int y - 1) (int m + 10) (int d) = ?e" using md by simp
    with unsigned_days[of "int y - 1" "int m + 10" "int d"] e(1) assms True
    show ?thesis by (simp add: date_days_def Let_def wrap_month[OF assms(3,4)] y1)
  next
    case False
    then have "march_days (int y) (int m - 2) (int d) = ?e" using md by simp
    moreover have "\<not> c_int (int m - 2) \<le> 0"
      using wrap_month[OF assms(3,4)] False by simp
    ultimately show ?thesis
      using unsigned_days[of "int y" "int m - 2" "int d"] e(1) assms False
      by (simp add: date_days_def Let_def wrap_month[OF assms(3,4)])
  qed
  have "u64 ((?e * 24 + int h) * 60 + int mi) = (?e * 24 + int h) * 60 + int mi"
    using e assms by (intro u64_id) auto
  moreover have "c_long (((?e * 24 + int h) * 60 + int mi) * 60 + int s) = ((?e * 24 + int h) * 60 + int mi) * 60 + int s"
    using e assms by (intro c_long_id) auto
  ultimately show ?thesis
    using days by (simp add: date_seconds_def)
qed

section \<open>Years and months are taken off\<close>

lemma days_to_year_Suc: "1970 \<le> y \<Longrightarrow> days_to_year (y + 1) = days_to_year y + year_days y"
  by (simp add: days_to_year_def)

lemma days_to_year_mono: "1970 \<le> y \<Longrightarrow> y \<le> z \<Longrightarrow> days_to_year y \<le> days_to_year z"
  by (induction z) (auto simp: le_Suc_eq days_to_year_def)

lemma days_to_month_Suc: "1 \<le> m \<Longrightarrow> days_to_month y (m + 1) = days_to_month y m + month_days y m"
  by (simp add: days_to_month_def)

lemma days_to_month_mono: "1 \<le> m \<Longrightarrow> m \<le> k \<Longrightarrow> days_to_month y m \<le> days_to_month y k"
  by (induction k) (auto simp: le_Suc_eq days_to_month_def)

lemma days_to_month_year: "days_to_month y 13 = year_days y"
  by (simp add: days_to_month_def month_days_def year_days_def upt_conv_Cons)

lemma gm_year_correct:
  "1970 \<le> y \<Longrightarrow> gm_year y n = (y', r) \<Longrightarrow>
    y \<le> y' \<and> r < year_days y' \<and> days_to_year y + n = days_to_year y' + r"
proof (induction y n rule: gm_year.induct)
  case (1 y n)
  show ?case
  proof (cases "n < year_days y")
    case True
    then show ?thesis using "1.prems" by (simp add: gm_year.simps[of y n])
  next
    case False
    then have "gm_year (y + 1) (n - year_days y) = (y', r)"
      using "1.prems"(2) by (simp add: gm_year.simps[of y n])
    with "1.IH"[OF False] "1.prems"(1) False show ?thesis
      using days_to_year_Suc[of y] by simp
  qed
qed

lemma gm_month_correct:
  "1 \<le> m \<Longrightarrow> gm_month y m n = (m', r) \<Longrightarrow>
    m \<le> m' \<and> r < month_days y m' \<and> days_to_month y m + n = days_to_month y m' + r"
proof (induction y m n rule: gm_month.induct)
  case (1 y m n)
  show ?case
  proof (cases "n < month_days y m")
    case True
    then show ?thesis using "1.prems" by (simp add: gm_month.simps[of y m n])
  next
    case False
    then have "gm_month y (m + 1) (n - month_days y m) = (m', r)"
      using "1.prems"(2) by (simp add: gm_month.simps[of y m n])
    with "1.IH"[OF False] "1.prems"(1) False show ?thesis
      using days_to_month_Suc[of m y] by simp
  qed
qed

lemma clock_split: "(n :: nat) = 3600 * (n div 3600) + 60 * (n div 60 mod 60) + n mod 60"
proof -
  have "n div 60 = 60 * (n div 3600) + n div 60 mod 60"
    using div_mult2_eq[of n 60 60] mult_div_mod_eq[of 60 "n div 60"] by simp
  moreover have "n = 60 * (n div 60) + n mod 60" by simp
  ultimately show ?thesis by linarith
qed

lemma gmtime_correct:
  assumes "0 \<le> t" and "t < 253402300800" and "gmtime t = (y, m, d, h, mi, s)"
  shows "1970 \<le> y" "y \<le> 9999" "1 \<le> m" "m \<le> 12" "1 \<le> d" "d \<le> month_days y m" "h < 24" "mi < 60" "s < 60"
    and "t = 86400 * int (epoch_days y m d) + 3600 * int h + 60 * int mi + int s"
proof -
  let ?n = "nat (t div 86400)" and ?r = "nat (t mod 86400)"
  obtain y' r where gy: "gm_year 1970 ?n = (y', r)" by (cases "gm_year 1970 ?n")
  obtain m' k where gm: "gm_month y' 1 r = (m', k)" by (cases "gm_month y' 1 r")
  have f: "y = y'" "m = m'" "d = k + 1" "h = ?r div 3600" "mi = ?r div 60 mod 60" "s = ?r mod 60"
    using assms(3) gy gm by (auto simp: gmtime_def Let_def)
  have Y: "1970 \<le> y'" "r < year_days y'" "?n = days_to_year y' + r"
    using gm_year_correct[OF _ gy] by (simp_all add: days_to_year_def)
  have M: "1 \<le> m'" "k < month_days y' m'" "r = days_to_month y' m' + k"
    using gm_month_correct[OF _ gm] by (simp_all add: days_to_month_def)
  have "t div 86400 < 2932897" using assms(1,2) by (simp add: div_less_iff_less_mult)
  then have "int (days_to_year y') < 2932897" using Y(3) assms(1) by linarith
  moreover have "int (days_to_year 10000) = 2932897"
    by (simp add: days_to_year_closed leaps_def)
  ultimately show "y \<le> 9999" using days_to_year_mono[of 10000 y'] f(1) by fastforce
  show "m \<le> 12"
  proof (rule ccontr)
    assume "\<not> m \<le> 12"
    then have "year_days y' \<le> days_to_month y' m'"
      using days_to_month_mono[of 13 m' y'] f(2) by (simp add: days_to_month_year)
    then show False using M(3) Y(2) by simp
  qed
  show "1970 \<le> y" "1 \<le> m" "1 \<le> d" "d \<le> month_days y m"
    using Y(1) M(1,2) unfolding f(1-3) by simp_all
  have R: "?r < 86400" "t mod 86400 = int ?r" by simp_all
  then show "h < 24" "mi < 60" "s < 60" using f by (simp_all add: div_less_iff_less_mult)
  have "?r = 3600 * h + 60 * mi + s"
    unfolding f(4-6) by (rule clock_split)
  moreover have "?n = epoch_days y m d" using f Y(3) M(3) by (simp add: epoch_days_def)
  moreover have "t = 86400 * int ?n + int ?r"
    using pos_imp_zdiv_nonneg_iff[of 86400 t] assms(1) by simp
  ultimately show "t = 86400 * int (epoch_days y m d) + 3600 * int h + 60 * int mi + int s" by simp
qed

section \<open>Reading undoes writing\<close>

lemma DIG_digit [simp]: "k < 10 \<Longrightarrow> DIG (digit_char k) = int k"
  by (simp add: DIG_def Let_def of_char_digit_char digit_char_def)

lemma digit_char_0: "digit_char 0 = CHR ''0''"
  by code_simp

lemma two_digits: "n < 100 \<Longrightarrow> show_pad 2 (int n) = [digit_char (n div 10), digit_char (n mod 10)]"
  by (cases "n < 10")
    (simp_all add: show_pad_def zero_pad_def show_nat.simps[of n] show_nat.simps[of "n div 10"] digit_char_0)

lemma four_digits:
  assumes "1000 \<le> n" and "n \<le> 9999"
  shows "show_nat n = [digit_char (n div 1000), digit_char (n div 100 mod 10), digit_char (n div 10 mod 10),
    digit_char (n mod 10)]"
proof -
  have "n div 10 div 10 = n div 100" "n div 100 div 10 = n div 1000"
    by (simp_all flip: div_mult2_eq)
  moreover have "\<not> n div 10 < 10" "\<not> n div 100 < 10" "n div 1000 < 10" using assms by simp_all
  ultimately show ?thesis
    using assms by (simp add: show_nat.simps[of n] show_nat.simps[of "n div 10"] show_nat.simps[of "n div 100"]
      show_nat.simps[of "n div 1000"])
qed

lemma two_value: "n < 100 \<Longrightarrow> u32 (DIG (digit_char (n div 10)) * 10 + DIG (digit_char (n mod 10))) = int n"
  by (simp add: zdiv_int zmod_int u32_id)

lemma four_value:
  assumes "n \<le> 9999"
  shows "u32 (DIG (digit_char (n div 1000)) * 1000 + DIG (digit_char (n div 100 mod 10)) * 100 +
    DIG (digit_char (n div 10 mod 10)) * 10 + DIG (digit_char (n mod 10))) = int n"
proof -
  have e: "n div 10 = 10 * (n div 100) + n div 10 mod 10" "n div 100 = 10 * (n div 1000) + n div 100 mod 10"
    using div_mult2_eq[of n 10 10] div_mult2_eq[of n 100 10] mult_div_mod_eq[of 10 "n div 10"]
      mult_div_mod_eq[of 10 "n div 100"] by simp_all
  have "n = 10 * (n div 10) + n mod 10" by simp
  with e have "n div 1000 * 1000 + n div 100 mod 10 * 100 + n div 10 mod 10 * 10 + n mod 10 = n" by linarith
  then have "int (n div 1000 * 1000 + n div 100 mod 10 * 100 + n div 10 mod 10 * 10 + n mod 10) = int n"
    by (rule arg_cong)
  then have "int (n div 1000) * 1000 + int (n div 100 mod 10) * 100 + int (n div 10 mod 10) * 10 + int (n mod 10) = int n"
    unfolding of_nat_add of_nat_mult of_nat_numeral .
  moreover have "n div 1000 < 10" using assms by simp
  ultimately show ?thesis using assms by (simp add: u32_id)
qed

lemma usec_value: "0 \<le> u \<Longrightarrow> u \<le> 999999 \<Longrightarrow> u64 (atol (show_pad 6 u)) = u"
  using scan_long_show_pad[of u "[]" 6] by (simp add: atol_def u64_id in_long_def)

text \<open>
  C18. A date text with a date of the calendar from 1970 to 9999 (days of the month up to 31, so a leap
  day is among them) is read as the number of seconds that have passed since the beginning of
  1970: the formula with divisions, computed without signs, equals the sum of the lengths of the
  years and months before the date.
\<close>

theorem date_formula_counts_days:
  assumes "1970 \<le> y" and "y \<le> 9999" and "1 \<le> m" and "m \<le> 12" and "1 \<le> d" and "d \<le> 31"
    and "h < 24" and "mi < 60" and "s < 60"
  shows "date_seconds \<lparr>d_year = int y, d_mon = int m, d_day = int d, d_hour = int h, d_min = int mi,
      d_sec = int s, d_usec = u\<rparr> =
    86400 * int (sum_list (map year_days [1970..<y]) + sum_list (map (month_days y) [1..<m]) + (d - 1)) +
    3600 * int h + 60 * int mi + int s"
  using date_seconds_epoch[of y m d h mi s] assms
  by (simp add: epoch_days_def days_to_year_def days_to_month_def)

theorem date_formula_counts_days_witness:
  "date_seconds \<lparr>d_year = int 2000, d_mon = int 2, d_day = int 29, d_hour = int 23, d_min = int 59,
      d_sec = int 58, d_usec = 0\<rparr> = 951868798"
  using date_formula_counts_days[of 2000 2 29 23 59 58 0] by (simp add: year_days_def month_days_def leap_def upt_conv_Cons)

text \<open>
  Reading undoes writing: for every time from 1970 to the end of 9999 a date is written,
  it has exactly the 21 characters its buffer is made for, and reading it gives the seconds and the
  microseconds back.
\<close>

theorem ulm_date_roundtrip:
  assumes "0 \<le> sec" and "sec < 253402300800" and "0 \<le> usec" and "usec \<le> 999999"
  shows "\<exists>dstr. edg_wll_ULMTimevalToDate sec usec = Some dstr \<and> length dstr = ULM_DATE_STRING_LENGTH \<and>
    edg_wll_ULMDateToTimeval dstr = Inr (sec, usec)"
proof -
  obtain y m d h mi s where g: "gmtime sec = (y, m, d, h, mi, s)" by (metis prod_cases6)
  note G = gmtime_correct[OF assms(1,2) g]
  have d: "d \<le> 31" using G(6) by (simp add: month_days_def split: if_splits)
  let ?t = "show_nat y @ show_pad 2 (int m) @ show_pad 2 (int d) @ show_pad 2 (int h) @
    show_pad 2 (int mi) @ show_pad 2 (int s)"
  note digits = four_digits[of y] two_digits[of m] two_digits[of d] two_digits[of h] two_digits[of mi] two_digits[of s]
  have len: "length ?t = 14" using G d by (simp add: digits)
  have w: "edg_wll_ULMTimevalToDate sec usec = Some (?t @ CHR ''.'' # show_pad 6 usec)"
    using assms g len by (simp add: edg_wll_ULMTimevalToDate_def ULM_DATE_STRING_LENGTH_def Let_def)
  have "edg_wll_ULMSplitDate (?t @ CHR ''.'' # show_pad 6 usec) =
      Inr \<lparr>d_year = int y, d_mon = int m, d_day = int d, d_hour = int h, d_min = int mi, d_sec = int s, d_usec = usec\<rparr>"
    using G d assms(3,4)
    by (simp add: edg_wll_ULMSplitDate_def digits two_value four_value usec_value del: DIG_digit)
  then have "edg_wll_ULMDateToTimeval (?t @ CHR ''.'' # show_pad 6 usec) = Inr (sec, usec)"
    using date_seconds_epoch[of y m d h mi s usec] G d assms(3,4)
    by (simp add: edg_wll_ULMDateToTimeval_def c_long_id)
  moreover have "length (show_pad 6 usec) = 6"
    using length_show_pad[of usec 6] assms by simp
  ultimately show ?thesis using w len by (simp add: ULM_DATE_STRING_LENGTH_def)
qed

theorem ulm_date_roundtrip_witness:
  "\<exists>dstr. edg_wll_ULMTimevalToDate 951868798 42 = Some dstr \<and> length dstr = ULM_DATE_STRING_LENGTH \<and>
    edg_wll_ULMDateToTimeval dstr = Inr (951868798, 42)"
  by (rule ulm_date_roundtrip) simp_all

end
