(* ===== verification/LB_Ulm.thy ===== *)
theory LB_Ulm
  imports LB_Escape LB_JobId
begin

text \<open>
  The parser of event lines (\<^verbatim>\<open>org.glite.lb.common/src/ulm_parse.c\<close>, and the reading of values
  in \<^verbatim>\<open>events_parse.c.T\<close>): an event is a line of \<^verbatim>\<open>name=value\<close> fields. One pass over the line
  collects the places of the delimiters and of the blanks outside of quotes in two arrays of
  fixed size, the names are found by going back from each delimiter, and delimiters
  and blanks are overwritten by NUL so that names and values become C strings.

  The line is held as the part already read, reversed, and the rest, so the place at hand is
  the length of the former, and the characters before and behind it are the first of each.
\<close>

section \<open>Characters\<close>

abbreviation "SP \<equiv> CHR '' ''"
abbreviation "TB \<equiv> CHR 0x09"
abbreviation "EQS \<equiv> CHR ''=''"

definition ULM_FIELDS_MAX :: nat where
  "ULM_FIELDS_MAX = 100"

definition isblank :: "char \<Rightarrow> bool" where
  "isblank c \<longleftrightarrow> c = SP \<or> c = TB"

definition isalnum :: "char \<Rightarrow> bool" where
  "isalnum c \<longleftrightarrow> (let k = of_char c :: nat in
     (48 \<le> k \<and> k \<le> 57) \<or> (65 \<le> k \<and> k \<le> 90) \<or> (97 \<le> k \<and> k \<le> 122))"

definition edg_wll_ULMisalphaext :: "char \<Rightarrow> bool" where
  "edg_wll_ULMisalphaext c \<longleftrightarrow> isalnum c \<or> c = CHR ''.'' \<or> c = CHR ''-'' \<or> c = CHR ''_''"

section \<open>The pass over the line\<close>

record ulm_scan =
  qmCnt :: nat
  bsCnt :: nat
  iArrayEQ :: "nat list"
  iArraySP :: "nat list"

definition put_index :: "nat \<Rightarrow> nat list \<Rightarrow> nat list res" where
  "put_index i xs = (if length xs < ULM_FIELDS_MAX then Inr (xs @ [i]) else Inl Out_of_bounds)"

definition raw_before :: "string \<Rightarrow> char res" where
  "raw_before seen = (case seen of [] \<Rightarrow> Inl Out_of_bounds | p # _ \<Rightarrow> Inr p)"

definition raw_behind :: "string \<Rightarrow> char" where
  "raw_behind rest = (case rest of [] \<Rightarrow> NUL | d # _ \<Rightarrow> d)"

text \<open>\<^verbatim>\<open>if (this->raw[i-1] == ULM_BS) bsCnt = 0\<close>\<close>

definition escaped_char :: "string \<Rightarrow> char \<Rightarrow> ulm_scan \<Rightarrow> (char \<times> ulm_scan) option res" where
  "escaped_char seen c st =
     rbind (raw_before seen) (\<lambda>p. Inr (Some (c, if p = BS then st\<lparr>bsCnt := 0\<rparr> else st)))"

text \<open>One round: the character to be stored in its place, or nothing for \<^verbatim>\<open>ULM_PARSE_ERROR\<close>.\<close>

definition ulm_char :: "string \<Rightarrow> char \<Rightarrow> string \<Rightarrow> ulm_scan \<Rightarrow> (char \<times> ulm_scan) option res" where
  "ulm_char seen c rest st =
     (if c = SP \<or> c = TB then
        if qmCnt st = 0 then rbind (put_index (length seen) (iArraySP st)) (\<lambda>xs. Inr (Some (c, st\<lparr>iArraySP := xs\<rparr>)))
        else escaped_char seen c st
      else if c = EQS then
        if seen = [] then Inr None
        else if qmCnt st = 0 then
          rbind (raw_before seen) (\<lambda>p.
          if isblank p \<or> \<not> edg_wll_ULMisalphaext p then Inr None
          else if isblank (raw_behind rest) \<or> (\<not> edg_wll_ULMisalphaext p \<and> raw_behind rest \<noteq> QM) then Inr None
          else rbind (put_index (length seen) (iArrayEQ st)) (\<lambda>xs. Inr (Some (c, st\<lparr>iArrayEQ := xs\<rparr>))))
        else escaped_char seen c st
      else if c = LF then
        if qmCnt st = 0 then Inr (Some (NUL, st)) else escaped_char seen c st
      else if c = BS then
        if qmCnt st \<noteq> 0 then
          rbind (raw_before seen) (\<lambda>p.
          Inr (Some (c, st\<lparr>bsCnt := (if p = BS then (if bsCnt st = 1 then 0 else 1) else 1)\<rparr>)))
        else Inr None
      else if c = QM then
        rbind (if qmCnt st = 0 then Inr (st\<lparr>qmCnt := qmCnt st + 1\<rparr>)
               else
                 let st1 = (if bsCnt st = 0 then st\<lparr>qmCnt := qmCnt st - 1\<rparr> else st)
                 in rbind (raw_before seen) (\<lambda>p. Inr (if p = BS then st1\<lparr>bsCnt := 0\<rparr> else st1))) (\<lambda>st.
        if qmCnt st = 0 \<and> \<not> isspace (raw_behind rest) \<and> raw_behind rest \<noteq> NUL then Inr None
        else Inr (Some (c, st)))
      else if seen \<noteq> [] then escaped_char seen c st
      else Inr (Some (c, st)))"

fun ulm_scan_line :: "string \<Rightarrow> string \<Rightarrow> ulm_scan \<Rightarrow> (string \<times> ulm_scan) option res" where
  "ulm_scan_line seen [] st = Inr (Some (rev seen, st))"
| "ulm_scan_line seen (c # rest) st =
     (case ulm_char seen c rest st of
        Inl f \<Rightarrow> Inl f
      | Inr None \<Rightarrow> Inr None
      | Inr (Some (c, st)) \<Rightarrow> ulm_scan_line (c # seen) rest st)"

section \<open>The table\<close>

record ulm_fields =
  ulm_raw :: string
  ulm_names :: "nat list"
  ulm_vals :: "nat list"

definition ulm_num :: "ulm_fields \<Rightarrow> nat" where
  "ulm_num t = length (ulm_names t)"

definition edg_wll_ULMNewParseTable :: "string \<Rightarrow> ulm_fields" where
  "edg_wll_ULMNewParseTable logline = \<lparr>ulm_raw = dropWhile isblank logline, ulm_names = [], ulm_vals = []\<rparr>"

text \<open>Where the name before the delimiter at \<open>e\<close> begins; a blank must be in front of it.\<close>

definition name_start :: "string \<Rightarrow> nat \<Rightarrow> nat option res" where
  "name_start raw e =
     (let w = takeWhile edg_wll_ULMisalphaext (rev (take e raw)); k = e - length w
      in if k = 0 then Inl Out_of_bounds
         else if isblank (raw ! (k - 1)) then Inr (Some k) else Inr None)"

fun name_starts :: "string \<Rightarrow> nat list \<Rightarrow> nat list option res" where
  "name_starts raw [] = Inr (Some [])"
| "name_starts raw (e # es) =
     rbind (name_start raw e) (\<lambda>k. case k of
       None \<Rightarrow> Inr None
     | Some k \<Rightarrow> rbind (name_starts raw es) (\<lambda>ks. Inr (map_option (\<lambda>ks. k # ks) ks)))"

definition put_nuls :: "nat list \<Rightarrow> string \<Rightarrow> string" where
  "put_nuls ps raw = fold (\<lambda>p r. r[p := NUL]) ps raw"

text \<open>\<open>None\<close> stands for \<^verbatim>\<open>ULM_PARSE_ERROR\<close>, after which callers drop the table.\<close>

definition edg_wll_ULMProcessParseTable :: "ulm_fields \<Rightarrow> ulm_fields option res" where
  "edg_wll_ULMProcessParseTable t =
     (if ulm_raw t = [] then Inr None
      else
        case ulm_scan_line [] (ulm_raw t) \<lparr>qmCnt = 0, bsCnt = 0, iArrayEQ = [], iArraySP = []\<rparr> of
          Inl f \<Rightarrow> Inl f
        | Inr None \<Rightarrow> Inr None
        | Inr (Some (raw, st)) \<Rightarrow>
            if iArrayEQ st = [] \<or> raw ! 0 = EQS \<or> qmCnt st \<noteq> 0 \<or> bsCnt st \<noteq> 0 then Inr None
            else
              rbind (name_starts raw (tl (iArrayEQ st))) (\<lambda>r. case r of
                None \<Rightarrow> Inr None
              | Some ns \<Rightarrow>
                  Inr (Some \<lparr>ulm_raw = put_nuls (iArraySP st) (put_nuls (iArrayEQ st) raw),
                    ulm_names = 0 # ns, ulm_vals = map Suc (iArrayEQ st)\<rparr>)))"

section \<open>Reading the table\<close>

definition at_index :: "string \<Rightarrow> nat list \<Rightarrow> nat \<Rightarrow> int \<Rightarrow> string option res" where
  "at_index raw ps num index =
     (if index < 0 \<or> index > int num then Inr None
      else if nat index < length ps then Inr (Some (c_str (drop (ps ! nat index) raw)))
      else Inl Out_of_bounds)"

definition edg_wll_ULMGetNameAt :: "ulm_fields \<Rightarrow> int \<Rightarrow> string option res" where
  "edg_wll_ULMGetNameAt t index = at_index (ulm_raw t) (ulm_names t) (ulm_num t) index"

definition edg_wll_ULMGetValueAt :: "ulm_fields \<Rightarrow> int \<Rightarrow> string option res" where
  "edg_wll_ULMGetValueAt t index = at_index (ulm_raw t) (ulm_vals t) (ulm_num t) index"

definition my_edg_wll_ULMGetValueAt :: "ulm_fields \<Rightarrow> int \<Rightarrow> cstr res" where
  "my_edg_wll_ULMGetValueAt t index =
     rbind (edg_wll_ULMGetValueAt t index) (\<lambda>v. case v of
       None \<Rightarrow> Inl Null_deref
     | Some str \<Rightarrow>
         let len = length str;
             tmp = (if str \<noteq> [] \<and> hd str = QM \<and> last str = QM
                    then (if len > 2 then take (len - 2) (tl str) else [])
                    else str)
         in Inr (if len > 2 then glite_lbu_UnescapeULM (Some tmp) else Some tmp))"

text \<open>
  The identifier of the job an event belongs to. The table of key names is generated from the
  description of events and an argument, as is the code of the identifier in it.
\<close>

definition edg_wll_StringToKeyName :: "string list \<Rightarrow> string \<Rightarrow> nat" where
  "edg_wll_StringToKeyName keyNames name =
     (case find (\<lambda>i. strcaseeq (keyNames ! i) name) [1..<length keyNames] of None \<Rightarrow> 0 | Some i \<Rightarrow> i)"

definition edg_wll_GetJobId :: "string list \<Rightarrow> nat \<Rightarrow> string \<Rightarrow> string option res" where
  "edg_wll_GetJobId keyNames code logline =
     rbind (edg_wll_ULMProcessParseTable (edg_wll_ULMNewParseTable logline)) (\<lambda>t. case t of
       None \<Rightarrow> Inr None
     | Some t \<Rightarrow>
         let is_id = (\<lambda>i. case edg_wll_ULMGetNameAt t (int i) of
               Inr (Some n) \<Rightarrow> edg_wll_StringToKeyName keyNames n = code | _ \<Rightarrow> False)
         in case find is_id [0..<ulm_num t] of
              None \<Rightarrow> Inr None
            | Some i \<Rightarrow>
                rbind (my_edg_wll_ULMGetValueAt t (int i)) (\<lambda>fullid. case fullid of
                  None \<Rightarrow> Inr None
                | Some j \<Rightarrow> (case glite_jobid_parse j of Inl _ \<Rightarrow> Inr None | Inr _ \<Rightarrow> Inr (Some j))))"

section \<open>Lists of tags\<close>

text \<open>\<^verbatim>\<open>strtok_r\<close> with one separator: the pieces between separators, without the empty ones.\<close>

fun split_at :: "char \<Rightarrow> string \<Rightarrow> string list" where
  "split_at sep [] = [[]]"
| "split_at sep (c # cs) =
     (if c = sep then [] # split_at sep cs
      else case split_at sep cs of [] \<Rightarrow> [[c]] | w # ws \<Rightarrow> (c # w) # ws)"

definition strtok :: "char \<Rightarrow> string \<Rightarrow> string list" where
  "strtok sep s = filter (\<lambda>w. w \<noteq> []) (split_at sep s)"

definition parse_tag :: "string \<Rightarrow> (string \<times> string) option" where
  "parse_tag p =
     (case strchr p EQS of
        None \<Rightarrow> None
      | Some s \<Rightarrow> if tl s = [] then None else Some (take (length p - length s) p, tl s))"

text \<open>The array is allocated for the separators and two more; the last element ends the list.\<close>

definition edg_wll_TagListParse :: "cstr \<Rightarrow> (int \<times> (string \<times> string) list) res" where
  "edg_wll_TagListParse src =
     (case src of
        None \<Rightarrow> Inr (- 1, [])
      | Some s \<Rightarrow>
          let tags = List.map_filter parse_tag (strtok (CHR '','') s)
          in if length tags + 1 \<le> count_list s (CHR '','') + 2 then Inr (0, tags) else Inl Heap_overflow)"

fun tag_list_text :: "(string \<times> string) list \<Rightarrow> string" where
  "tag_list_text [] = []"
| "tag_list_text [(t, v)] = t @ EQS # v"
| "tag_list_text ((t, v) # l) = t @ EQS # v @ CHR '','' # tag_list_text l"

definition edg_wll_TagListToString :: "(string \<times> string) list option \<Rightarrow> cstr res" where
  "edg_wll_TagListToString l =
     (case l of
        None \<Rightarrow> Inr None
      | Some l \<Rightarrow>
          rbind (filled (sum_list (map (\<lambda>(t, v). int (length t) + int (length v) + 2) l) + 1) (tag_list_text l @ [NUL]))
            (\<lambda>_. Inr (Some (tag_list_text l))))"

definition edg_wll_TagListCompare :: "(string \<times> string) list option \<Rightarrow> (string \<times> string) list option \<Rightarrow> bool res" where
  "edg_wll_TagListCompare a b =
     (if a = None \<or> b = None then Inr (a = b)
      else rbind (edg_wll_TagListToString a) (\<lambda>x. rbind (edg_wll_TagListToString b) (\<lambda>y. Inr (x = y))))"

section \<open>Lines of fields\<close>

text \<open>What logging writes: values that are quoted and escaped, and words as they are.\<close>

datatype ulm_value = Quoted string | Bare string

fun value_text :: "ulm_value \<Rightarrow> string" where
  "value_text (Quoted v) = QM # esc_ulm v @ [QM]"
| "value_text (Bare v) = v"

fun value_of :: "ulm_value \<Rightarrow> string" where
  "value_of (Quoted v) = v"
| "value_of (Bare v) = v"

definition plain_char :: "char \<Rightarrow> bool" where
  "plain_char c \<longleftrightarrow> c \<notin> {SP, TB, EQS, LF, BS, QM, NUL}"

fun value_ok :: "ulm_value \<Rightarrow> bool" where
  "value_ok (Quoted v) \<longleftrightarrow> NUL \<notin> set v"
| "value_ok (Bare v) \<longleftrightarrow> v \<noteq> [] \<and> list_all plain_char v"

definition field_ok :: "string \<times> ulm_value \<Rightarrow> bool" where
  "field_ok f \<longleftrightarrow> fst f \<noteq> [] \<and> list_all edg_wll_ULMisalphaext (fst f) \<and> value_ok (snd f)"

definition field_text :: "string \<times> ulm_value \<Rightarrow> string" where
  "field_text f = fst f @ EQS # value_text (snd f)"

fun ulm_line :: "(string \<times> ulm_value) list \<Rightarrow> string" where
  "ulm_line [] = []"
| "ulm_line [f] = field_text f"
| "ulm_line (f # fs) = field_text f @ SP # ulm_line fs"

text \<open>The places of the delimiters and of the blanks of a line that begins at \<open>k\<close>.\<close>

fun eq_places :: "nat \<Rightarrow> (string \<times> ulm_value) list \<Rightarrow> nat list" where
  "eq_places k [] = []"
| "eq_places k (f # fs) = (k + length (fst f)) # eq_places (k + length (field_text f) + 1) fs"

fun sp_places :: "nat \<Rightarrow> (string \<times> ulm_value) list \<Rightarrow> nat list" where
  "sp_places k [] = []"
| "sp_places k [f] = []"
| "sp_places k (f # fs) = (k + length (field_text f)) # sp_places (k + length (field_text f) + 1) fs"

section \<open>The pass over a line of fields\<close>

lemma alphaext_plain: "edg_wll_ULMisalphaext c \<Longrightarrow> plain_char c \<and> \<not> isblank c"
  by (auto simp: edg_wll_ULMisalphaext_def plain_char_def isblank_def isalnum_def Let_def)

lemma esc_char_plain: "plain_char c \<Longrightarrow> c \<noteq> SP \<and> c \<noteq> TB \<and> c \<noteq> EQS \<and> c \<noteq> LF \<and> c \<noteq> BS \<and> c \<noteq> QM"
  by (auto simp: plain_char_def)

lemma reset_id [simp]: "bsCnt st = 0 \<Longrightarrow> st\<lparr>bsCnt := 0\<rparr> = st" "qmCnt st = 0 \<Longrightarrow> st\<lparr>qmCnt := 0\<rparr> = st"
  by (cases st; simp)+

lemma escaped_char_id: "bsCnt st = 0 \<Longrightarrow> seen \<noteq> [] \<Longrightarrow> escaped_char seen c st = Inr (Some (c, st))"
  by (cases seen) (simp_all add: escaped_char_def raw_before_def)

lemma scan_plain_char:
  "plain_char c \<Longrightarrow> bsCnt st = 0 \<Longrightarrow> ulm_scan_line seen (c # rest) st = ulm_scan_line (c # seen) rest st"
  by (cases "seen = []") (simp_all add: ulm_char_def plain_char_def escaped_char_id)

lemma scan_plain:
  "list_all plain_char w \<Longrightarrow> bsCnt st = 0 \<Longrightarrow>
    ulm_scan_line seen (w @ rest) st = ulm_scan_line (rev w @ seen) rest st"
  by (induction w arbitrary: seen) (simp_all add: scan_plain_char del: ulm_scan_line.simps(2))

lemma scan_quoted_char:
  assumes "c \<noteq> BS" and "c \<noteq> QM" and "c \<noteq> LF" and "qmCnt st = 1" and "bsCnt st = 0" and "seen \<noteq> []"
  shows "ulm_scan_line seen (c # rest) st = ulm_scan_line (c # seen) rest st"
  using assms by (simp add: ulm_char_def escaped_char_id)

lemma scan_escaped_char:
  assumes "c = BS \<or> c = QM \<or> c = CHR ''n''" and "qmCnt st = 1" and "bsCnt st = 0" and "seen \<noteq> []"
  shows "ulm_scan_line seen (BS # c # rest) st = ulm_scan_line (c # BS # seen) rest st"
proof -
  obtain p ps where "seen = p # ps" using assms(4) by (cases seen) auto
  then have "ulm_scan_line seen (BS # c # rest) st = ulm_scan_line (BS # seen) (c # rest) (st\<lparr>bsCnt := 1\<rparr>)"
    using assms(2,3) by (simp add: ulm_char_def raw_before_def)
  also have "\<dots> = ulm_scan_line (c # BS # seen) rest (st\<lparr>bsCnt := 0\<rparr>)"
    using assms(1,2) by (elim disjE) (simp_all add: ulm_char_def raw_before_def escaped_char_def)
  finally show ?thesis using assms(3) by simp
qed

lemma scan_quoted:
  "qmCnt st = 1 \<Longrightarrow> bsCnt st = 0 \<Longrightarrow> seen \<noteq> [] \<Longrightarrow>
    ulm_scan_line seen (esc_ulm v @ rest) st = ulm_scan_line (rev (esc_ulm v) @ seen) rest st"
  by (induction v arbitrary: seen) (auto simp: scan_quoted_char scan_escaped_char simp del: ulm_scan_line.simps(2))

definition field_end :: "string \<Rightarrow> bool" where
  "field_end rest \<longleftrightarrow> raw_behind rest = SP \<or> rest = []"

lemma scan_value:
  assumes "value_ok v" and "qmCnt st = 0" and "bsCnt st = 0" and "seen \<noteq> []" and "field_end rest"
  shows "ulm_scan_line seen (value_text v @ rest) st = ulm_scan_line (rev (value_text v) @ seen) rest st"
proof (cases v)
  case (Quoted s)
  let ?st = "st\<lparr>qmCnt := 1\<rparr>"
  have "ulm_scan_line seen (QM # (esc_ulm s @ QM # rest)) st = ulm_scan_line (QM # seen) (esc_ulm s @ QM # rest) ?st"
    using assms(2) by (simp add: ulm_char_def)
  also have "\<dots> = ulm_scan_line (rev (esc_ulm s) @ QM # seen) (QM # rest) ?st"
    using assms(3) by (simp add: scan_quoted del: ulm_scan_line.simps(2))
  also have "\<dots> = ulm_scan_line (QM # rev (esc_ulm s) @ QM # seen) rest st"
  proof -
    have "\<exists>p ps. rev (esc_ulm s) @ QM # seen = p # ps" by (cases "rev (esc_ulm s)") auto
    then obtain p ps where p: "rev (esc_ulm s) @ QM # seen = p # ps" by blast
    have "isspace (raw_behind rest) \<or> raw_behind rest = NUL"
      using assms(5) by (auto simp: field_end_def raw_behind_def isspace_def)
    then show ?thesis
      using assms(2,3) unfolding p by (auto simp: ulm_char_def raw_before_def)
  qed
  finally show ?thesis using Quoted by simp
next
  case (Bare w)
  then show ?thesis using assms by (simp add: scan_plain)
qed

lemma value_text_first: "value_ok v \<Longrightarrow> \<exists>c w. value_text v = c # w \<and> \<not> isblank c"
  by (cases v) (auto simp: isblank_def neq_Nil_conv plain_char_def)

lemma scan_field:
  assumes "field_ok f" and "qmCnt st = 0" and "bsCnt st = 0" and "field_end rest"
    and "length (iArrayEQ st) < ULM_FIELDS_MAX"
  shows "ulm_scan_line seen (field_text f @ rest) st =
    ulm_scan_line (rev (field_text f) @ seen) rest (st\<lparr>iArrayEQ := iArrayEQ st @ [length seen + length (fst f)]\<rparr>)"
proof -
  obtain n v where f: "f = (n, v)" by (cases f)
  have n: "n \<noteq> []" "list_all edg_wll_ULMisalphaext n" and v: "value_ok v" using assms(1) f by (simp_all add: field_ok_def)
  have "list_all plain_char n" using n(2) alphaext_plain by (auto simp: list_all_iff)
  then have 1: "ulm_scan_line seen (n @ EQS # value_text v @ rest) st =
      ulm_scan_line (rev n @ seen) (EQS # value_text v @ rest) st"
    using assms(3) by (rule scan_plain)
  obtain p ps where p: "rev n = p # ps" using n(1) by (cases "rev n") auto
  have "p \<in> set n" using arg_cong[OF p, of set] by auto
  then have p2: "edg_wll_ULMisalphaext p" using n(2) by (simp add: list_all_iff)
  obtain c w where c: "value_text v = c # w" "\<not> isblank c" using value_text_first[OF v] by blast
  have len: "length n = Suc (length ps)" using arg_cong[OF p, of length] by simp
  let ?st = "st\<lparr>iArrayEQ := iArrayEQ st @ [length seen + length n]\<rparr>"
  have 2: "ulm_scan_line (rev n @ seen) (EQS # value_text v @ rest) st =
      ulm_scan_line (EQS # rev n @ seen) (value_text v @ rest) ?st"
    using assms(2,5) p2 c len alphaext_plain[OF p2]
    by (simp add: p ulm_char_def raw_before_def raw_behind_def put_index_def add.commute)
  have 3: "ulm_scan_line (EQS # rev n @ seen) (value_text v @ rest) ?st =
      ulm_scan_line (rev (value_text v) @ EQS # rev n @ seen) rest ?st"
    using v assms(2-4) by (intro scan_value) simp_all
  show ?thesis using 1 2 3 f by (simp add: field_text_def)
qed

lemma scan_line:
  assumes "list_all field_ok fs" and "qmCnt st = 0" and "bsCnt st = 0"
    and "length (iArrayEQ st) + length fs \<le> ULM_FIELDS_MAX" and "length (iArraySP st) + length fs \<le> ULM_FIELDS_MAX"
  shows "ulm_scan_line seen (ulm_line fs) st =
    Inr (Some (rev seen @ ulm_line fs, st\<lparr>iArrayEQ := iArrayEQ st @ eq_places (length seen) fs,
      iArraySP := iArraySP st @ sp_places (length seen) fs\<rparr>))"
  using assms
proof (induction fs arbitrary: seen st rule: ulm_line.induct)
  case 1
  then show ?case by (cases st) simp
next
  case (2 f)
  then show ?case
    using scan_field[of f st "[]" seen] by (cases st) (simp add: field_end_def)
next
  case (3 f g fs)
  let ?r = "ulm_line (g # fs)" and ?k = "length seen + length (field_text f)"
  let ?st = "st\<lparr>iArrayEQ := iArrayEQ st @ [length seen + length (fst f)]\<rparr>"
  let ?st2 = "?st\<lparr>iArraySP := iArraySP st @ [?k]\<rparr>"
  have "ulm_scan_line seen (field_text f @ SP # ?r) st = ulm_scan_line (rev (field_text f) @ seen) (SP # ?r) ?st"
    using "3.prems" by (intro scan_field) (simp_all add: field_end_def raw_behind_def)
  also have "\<dots> = ulm_scan_line (SP # rev (field_text f) @ seen) ?r ?st2"
    using "3.prems" by (simp add: ulm_char_def put_index_def add.commute)
  also have "\<dots> = Inr (Some (rev (SP # rev (field_text f) @ seen) @ ?r,
      ?st2\<lparr>iArrayEQ := iArrayEQ ?st2 @ eq_places (length (SP # rev (field_text f) @ seen)) (g # fs),
        iArraySP := iArraySP ?st2 @ sp_places (length (SP # rev (field_text f) @ seen)) (g # fs)\<rparr>))"
    using "3.prems" by (intro "3.IH") simp_all
  finally show ?case by (simp add: add.commute add.left_commute)
qed

section \<open>The fields are found again\<close>

text \<open>A line around one of its fields.\<close>

definition line_before :: "(string \<times> ulm_value) list \<Rightarrow> string" where
  "line_before fs = concat (map (\<lambda>f. field_text f @ [SP]) fs)"

lemma line_before_simps [simp]:
  "line_before [] = []" "line_before (f # fs) = field_text f @ SP # line_before fs"
  by (simp_all add: line_before_def)

lemma ulm_line_Cons: "ulm_line (f # bs) = field_text f @ (if bs = [] then [] else SP # ulm_line bs)"
  by (cases bs) simp_all

lemma ulm_line_split:
  "ulm_line (as @ f # bs) = line_before as @ field_text f @ (if bs = [] then [] else SP # ulm_line bs)"
  by (induction as) (simp_all add: ulm_line_Cons)

lemma eq_places_append:
  "eq_places k (as @ bs) = eq_places k as @ eq_places (k + length (line_before as)) bs"
  by (induction as arbitrary: k) (simp_all add: add.assoc)

lemma eq_places_range: "p \<in> set (eq_places k as) \<Longrightarrow> k \<le> p \<and> p < k + length (line_before as)"
  by (induction as arbitrary: k) (force simp: field_text_def)+

lemma sp_places_Cons:
  "sp_places k (f # fs) = (if fs = [] then [] else (k + length (field_text f)) # sp_places (k + length (field_text f) + 1) fs)"
  by (cases fs) simp_all

lemma sp_places_append:
  "sp_places k (as @ f # bs) = map (\<lambda>i. k + length (line_before (take (Suc i) as)) - 1) [0..<length as] @
    sp_places (k + length (line_before as)) (f # bs)"
proof (induction as arbitrary: k)
  case (Cons a as)
  have "[0..<length (a # as)] = 0 # map Suc [0..<length as]"
    by (simp add: upt_conv_Cons map_Suc_upt del: upt_Suc)
  then show ?case
    using Cons.IH[of "k + length (field_text a) + 1"] by (simp add: sp_places_Cons o_def add.assoc)
qed simp

lemma sp_places_range:
  "p \<in> set (sp_places k fs) \<Longrightarrow> k \<le> p \<and> p < k + length (ulm_line fs)"
  by (induction k fs rule: sp_places.induct) auto

fun name_places :: "nat \<Rightarrow> (string \<times> ulm_value) list \<Rightarrow> nat list" where
  "name_places k [] = []"
| "name_places k (f # fs) = k # name_places (k + length (field_text f) + 1) fs"

lemma name_places_append:
  "name_places k (as @ bs) = name_places k as @ name_places (k + length (line_before as)) bs"
  by (induction as arbitrary: k) (simp_all add: add.assoc)

lemma length_places [simp]: "length (eq_places k fs) = length fs" "length (name_places k fs) = length fs"
  by (induction fs arbitrary: k) simp_all

lemma length_sp_places: "length (sp_places k fs) = length fs - 1"
  by (induction k fs rule: sp_places.induct) simp_all

lemma line_before_last: "as \<noteq> [] \<Longrightarrow> \<exists>xs. line_before as = xs @ [SP]"
  by (cases as rule: rev_cases) (simp_all add: line_before_def)

lemma name_start_field:
  assumes "as \<noteq> []" and "field_ok f"
  shows "name_start (ulm_line (as @ f # bs)) (length (line_before as) + length (fst f)) =
    Inr (Some (length (line_before as)))"
proof -
  let ?n = "fst f"
  obtain xs where xs: "line_before as = xs @ [SP]" using line_before_last[OF assms(1)] by blast
  have raw: "ulm_line (as @ f # bs) = (xs @ [SP]) @ ?n @ (EQS # value_text (snd f) @ (if bs = [] then [] else SP # ulm_line bs))"
    by (simp add: ulm_line_split xs field_text_def)
  have "\<not> edg_wll_ULMisalphaext SP" using alphaext_plain by (auto simp: plain_char_def)
  moreover have "list_all edg_wll_ULMisalphaext (rev ?n)" using assms(2) by (simp add: field_ok_def)
  ultimately have "takeWhile edg_wll_ULMisalphaext (rev ?n @ SP # rev xs) = rev ?n"
    by (subst takeWhile_append2) (auto simp: list_all_iff)
  then show ?thesis
    unfolding name_start_def raw xs by (simp add: Let_def isblank_def nth_append)
qed

lemma name_starts_line:
  assumes "list_all field_ok bs" and "as \<noteq> []"
  shows "name_starts (ulm_line (as @ bs)) (eq_places (length (line_before as)) bs) =
    Inr (Some (name_places (length (line_before as)) bs))"
  using assms
proof (induction bs arbitrary: as)
  case (Cons f bs)
  have "name_starts (ulm_line ((as @ [f]) @ bs)) (eq_places (length (line_before (as @ [f]))) bs) =
      Inr (Some (name_places (length (line_before (as @ [f]))) bs))"
    using Cons.prems by (intro Cons.IH) simp_all
  then show ?case
    using name_start_field[of as f bs] Cons.prems by (simp add: line_before_def add.assoc)
qed simp

lemma length_put_nuls [simp]: "length (put_nuls ps raw) = length raw"
  by (induction ps arbitrary: raw) (simp_all add: put_nuls_def)

lemma nth_put_nuls: "i < length raw \<Longrightarrow> put_nuls ps raw ! i = (if i \<in> set ps then NUL else raw ! i)"
proof (induction ps arbitrary: raw)
  case (Cons p ps)
  have "put_nuls (p # ps) raw = put_nuls ps (raw[p := NUL])" by (simp add: put_nuls_def)
  then show ?case using Cons by (simp add: nth_list_update)
qed (simp add: put_nuls_def)

lemma put_nuls_append: "put_nuls qs (put_nuls ps raw) = put_nuls (ps @ qs) raw"
  by (simp add: put_nuls_def)

lemma c_str_between_nuls:
  assumes "raw = xs @ w @ ys" and "NUL \<notin> set w"
    and "\<And>p. p \<in> set ps \<Longrightarrow> p < length xs \<or> length xs + length w \<le> p"
    and "ys = [] \<or> length xs + length w \<in> set ps"
  shows "c_str (drop (length xs) (put_nuls ps raw)) = w"
proof -
  let ?r = "drop (length xs) (put_nuls ps raw)" and ?d = "drop (length xs + length w) (put_nuls ps raw)"
  have "take (length w) ?r = w"
  proof (rule nth_equalityI)
    fix i assume "i < length (take (length w) ?r)"
    then have i: "i < length w" by simp
    then have "length xs + i \<notin> set ps" using assms(3)[of "length xs + i"] by auto
    then show "take (length w) ?r ! i = w ! i" using assms(1) i by (simp add: nth_put_nuls nth_append)
  qed (simp add: assms(1))
  then have r: "?r = w @ ?d" by (metis append_take_drop_id drop_drop add.commute)
  have "?d = [] \<or> (\<exists>zs. ?d = NUL # zs)"
  proof (cases ys)
    case Nil
    then show ?thesis using assms(1) by simp
  next
    case (Cons y yy)
    then have "?d ! 0 = NUL" "?d \<noteq> []" using assms(1,4) by (simp_all add: nth_put_nuls)
    then show ?thesis by (cases ?d) auto
  qed
  then show ?thesis unfolding r c_str_def using assms(2) by (auto simp: takeWhile_append2 takeWhile_tail)
qed

lemma line_before_take: "length (line_before (take i as)) \<le> length (line_before as)"
proof -
  have "line_before as = line_before (take i as) @ line_before (drop i as)"
    unfolding line_before_def by (metis append_take_drop_id concat_append map_append)
  then show ?thesis by simp
qed

text \<open>No delimiter is noted inside of a field, except for its own, and one is at its end.\<close>

lemma places_outside:
  assumes "p \<in> set (eq_places 0 (as @ f # bs) @ sp_places 0 (as @ f # bs))"
  shows "p < length (line_before as) \<or> p = length (line_before as) + length (fst f) \<or>
    length (line_before as) + length (field_text f) \<le> p"
proof -
  let ?o = "length (line_before as)"
  consider "p \<in> set (eq_places 0 as)" | "p = ?o + length (fst f)" | "p \<in> set (eq_places (?o + length (field_text f) + 1) bs)"
    | i where "p = length (line_before (take (Suc i) as)) - 1" "i < length as" | "p \<in> set (sp_places ?o (f # bs))"
    using assms by (auto simp: eq_places_append sp_places_append)
  then show ?thesis
  proof cases
    case (4 i)
    moreover have "length (line_before (take (Suc i) as)) \<noteq> 0" using 4(2) by (cases as) simp_all
    ultimately show ?thesis using line_before_take[of "Suc i" as] by linarith
  next
    case 5
    then show ?thesis
      using sp_places_range[of p "?o + length (field_text f) + 1" bs] by (auto simp: sp_places_Cons split: if_splits)
  qed (use eq_places_range[of p 0 as] eq_places_range[of p "?o + length (field_text f) + 1" bs] in auto)
qed

lemma process_line:
  assumes "fs \<noteq> []" and "list_all field_ok fs" and "length fs \<le> ULM_FIELDS_MAX"
  shows "edg_wll_ULMProcessParseTable (edg_wll_ULMNewParseTable (ulm_line fs)) =
    Inr (Some \<lparr>ulm_raw = put_nuls (eq_places 0 fs @ sp_places 0 fs) (ulm_line fs),
      ulm_names = name_places 0 fs, ulm_vals = map Suc (eq_places 0 fs)\<rparr>)"
proof -
  obtain f gs where fs: "fs = f # gs" using assms(1) by (cases fs) auto
  obtain c cs where c: "fst f = c # cs" "edg_wll_ULMisalphaext c"
    using assms(2) fs by (cases "fst f") (auto simp: field_ok_def)
  have first: "\<exists>r. ulm_line fs = c # r" using c by (simp add: fs ulm_line_Cons field_text_def)
  have c2: "\<not> isblank c" "c \<noteq> EQS" using alphaext_plain[OF c(2)] by (auto simp: plain_char_def)
  have new: "edg_wll_ULMNewParseTable (ulm_line fs) = \<lparr>ulm_raw = ulm_line fs, ulm_names = [], ulm_vals = []\<rparr>"
    using first c2 by (auto simp: edg_wll_ULMNewParseTable_def)
  let ?st = "\<lparr>qmCnt = 0, bsCnt = 0, iArrayEQ = [], iArraySP = []\<rparr>"
  have scan: "ulm_scan_line [] (ulm_line fs) ?st =
      Inr (Some (ulm_line fs, ?st\<lparr>iArrayEQ := eq_places 0 fs, iArraySP := sp_places 0 fs\<rparr>))"
    using scan_line[of fs ?st "[]"] assms(2,3) by simp
  have "name_starts (ulm_line fs) (tl (eq_places 0 fs)) = Inr (Some (tl (name_places 0 fs)))"
    using name_starts_line[of gs "[f]"] assms(2) by (simp add: fs)
  then show ?thesis
    using first c2 scan unfolding new
    by (auto simp: edg_wll_ULMProcessParseTable_def fs put_nuls_append)
qed

lemma unesc_plain: "BS \<notin> set v \<Longrightarrow> unesc_ulm v = v"
  by (induction v rule: unesc_ulm.induct) auto

lemma value_text_no_nul: "value_ok v \<Longrightarrow> NUL \<notin> set (value_text v)"
proof (cases v)
  case (Quoted s)
  moreover have "NUL \<notin> set s \<Longrightarrow> NUL \<notin> set (esc_ulm s)" by (induction s) auto
  moreover assume "value_ok v"
  ultimately show ?thesis by simp
qed (auto simp: plain_char_def list_all_iff)

lemma value_read:
  assumes "value_ok v" and "edg_wll_ULMGetValueAt t i = Inr (Some (value_text v))"
  shows "my_edg_wll_ULMGetValueAt t i = Inr (Some (value_of v))"
proof (cases v)
  case (Quoted s)
  then show ?thesis
    using assms esc_ulm_not_nil[of s]
    by (cases "s = []") (auto simp: my_edg_wll_ULMGetValueAt_def glite_lbu_UnescapeULM_def unesc_esc_ulm Let_def)
next
  case (Bare w)
  then have "w \<noteq> []" "hd w \<noteq> QM" "BS \<notin> set w" using assms(1) by (cases w; auto simp: plain_char_def list_all_iff)+
  then show ?thesis
    using assms Bare by (auto simp: my_edg_wll_ULMGetValueAt_def glite_lbu_UnescapeULM_def unesc_plain Let_def)
qed

lemma field_read:
  assumes "fs = as @ f # bs" and "list_all field_ok fs"
  defines "raw \<equiv> put_nuls (eq_places 0 fs @ sp_places 0 fs) (ulm_line fs)"
  shows "c_str (drop (name_places 0 fs ! length as) raw) = fst f"
    and "c_str (drop (Suc (eq_places 0 fs ! length as)) raw) = value_text (snd f)"
proof -
  let ?o = "length (line_before as)" and ?n = "fst f" and ?v = "value_text (snd f)"
  let ?rest = "if bs = [] then [] else SP # ulm_line bs" and ?ps = "eq_places 0 fs @ sp_places 0 fs"
  have f: "list_all edg_wll_ULMisalphaext ?n" "value_ok (snd f)" using assms(1,2) by (simp_all add: field_ok_def)
  have line: "ulm_line fs = line_before as @ ?n @ EQS # ?v @ ?rest"
    using assms(1) by (simp add: ulm_line_split field_text_def)
  have out: "p < ?o \<or> p = ?o + length ?n \<or> ?o + length ?n + 1 + length ?v \<le> p" if "p \<in> set ?ps" for p
    using places_outside[of p as f bs] that assms(1) by (simp add: field_text_def add.assoc)
  have eq: "?o + length ?n \<in> set ?ps" using assms(1) by (simp add: eq_places_append)
  have "NUL \<notin> set ?n" using f(1) alphaext_plain by (auto simp: list_all_iff plain_char_def)
  moreover have "p < ?o \<or> ?o + length ?n \<le> p" if "p \<in> set ?ps" for p using out[OF that] by linarith
  ultimately have "c_str (drop ?o raw) = ?n"
    unfolding raw_def using eq by (intro c_str_between_nuls[OF line]) blast+
  then show "c_str (drop (name_places 0 fs ! length as) raw) = ?n"
    using assms(1) by (simp add: name_places_append nth_append)
  have line2: "ulm_line fs = (line_before as @ ?n @ [EQS]) @ ?v @ ?rest" by (simp add: line)
  have "?rest = [] \<or> length (line_before as @ ?n @ [EQS]) + length ?v \<in> set ?ps"
    using assms(1) by (cases bs) (simp_all add: sp_places_append sp_places_Cons field_text_def add.assoc)
  moreover have "p < length (line_before as @ ?n @ [EQS]) \<or> length (line_before as @ ?n @ [EQS]) + length ?v \<le> p"
    if "p \<in> set ?ps" for p using out[OF that] by (simp add: add.assoc) linarith
  ultimately have "c_str (drop (length (line_before as @ ?n @ [EQS])) raw) = ?v"
    unfolding raw_def by (intro c_str_between_nuls[OF line2 value_text_no_nul[OF f(2)]]) blast+
  then show "c_str (drop (Suc (eq_places 0 fs ! length as)) raw) = ?v"
    using assms(1) by (simp add: eq_places_append nth_append)
qed

lemma ulm_line_table:
  assumes "fs \<noteq> []" and "list_all field_ok fs" and "length fs \<le> ULM_FIELDS_MAX"
  obtains t where "edg_wll_ULMProcessParseTable (edg_wll_ULMNewParseTable (ulm_line fs)) = Inr (Some t)"
    and "ulm_num t = length fs"
    and "\<And>i. i < length fs \<Longrightarrow> edg_wll_ULMGetNameAt t (int i) = Inr (Some (fst (fs ! i)))"
    and "\<And>i. i < length fs \<Longrightarrow> my_edg_wll_ULMGetValueAt t (int i) = Inr (Some (value_of (snd (fs ! i))))"
proof -
  let ?t = "\<lparr>ulm_raw = put_nuls (eq_places 0 fs @ sp_places 0 fs) (ulm_line fs),
      ulm_names = name_places 0 fs, ulm_vals = map Suc (eq_places 0 fs)\<rparr>"
  have num: "ulm_num ?t = length fs" by (simp add: ulm_num_def)
  have at: "edg_wll_ULMGetNameAt ?t (int i) = Inr (Some (fst (fs ! i))) \<and>
      my_edg_wll_ULMGetValueAt ?t (int i) = Inr (Some (value_of (snd (fs ! i))))" if "i < length fs" for i
  proof -
    have fs: "fs = take i fs @ fs ! i # drop (Suc i) fs" "length (take i fs) = i"
      using that by (simp_all add: id_take_nth_drop)
    note r = field_read[OF fs(1) assms(2), unfolded fs(2)]
    have "edg_wll_ULMGetValueAt ?t (int i) = Inr (Some (value_text (snd (fs ! i))))"
      using r(2) that num by (simp add: edg_wll_ULMGetValueAt_def at_index_def)
    moreover have "value_ok (snd (fs ! i))" using assms(2) that by (auto simp: list_all_length field_ok_def)
    ultimately have "my_edg_wll_ULMGetValueAt ?t (int i) = Inr (Some (value_of (snd (fs ! i))))"
      by (intro value_read)
    then show ?thesis using r(1) that num by (simp add: edg_wll_ULMGetNameAt_def at_index_def)
  qed
  show ?thesis using that[OF process_line[OF assms] num] at by blast
qed

text \<open>
  C34. An event line is read back: for any list of at most a hundred fields with names of letters, digits,
  dots, dashes and underscores, whose values are plain words or are quoted and escaped texts of
  any characters (blanks, delimiters, quotes, backslashes and line feeds among them), the
  parser accepts the line and finds the fields in their order with their names and values.
\<close>

theorem ulm_line_roundtrip:
  assumes "fs \<noteq> []" and "list_all field_ok fs" and "length fs \<le> ULM_FIELDS_MAX"
  shows "\<exists>t. edg_wll_ULMProcessParseTable (edg_wll_ULMNewParseTable (ulm_line fs)) = Inr (Some t) \<and>
    ulm_num t = length fs \<and>
    map (\<lambda>i. edg_wll_ULMGetNameAt t (int i)) [0..<ulm_num t] = map (\<lambda>f. Inr (Some (fst f))) fs \<and>
    map (\<lambda>i. my_edg_wll_ULMGetValueAt t (int i)) [0..<ulm_num t] = map (\<lambda>f. Inr (Some (value_of (snd f)))) fs"
proof -
  obtain t where t: "edg_wll_ULMProcessParseTable (edg_wll_ULMNewParseTable (ulm_line fs)) = Inr (Some t)"
    "ulm_num t = length fs"
    "\<And>i. i < length fs \<Longrightarrow> edg_wll_ULMGetNameAt t (int i) = Inr (Some (fst (fs ! i)))"
    "\<And>i. i < length fs \<Longrightarrow> my_edg_wll_ULMGetValueAt t (int i) = Inr (Some (value_of (snd (fs ! i))))"
    using ulm_line_table[OF assms] by blast
  then have "map (\<lambda>i. edg_wll_ULMGetNameAt t (int i)) [0..<ulm_num t] = map (\<lambda>f. Inr (Some (fst f))) fs"
    "map (\<lambda>i. my_edg_wll_ULMGetValueAt t (int i)) [0..<ulm_num t] = map (\<lambda>f. Inr (Some (value_of (snd f)))) fs"
    by (auto intro!: nth_equalityI)
  then show ?thesis using t(1,2) by blast
qed

theorem ulm_line_roundtrip_witness:
  "\<exists>t. edg_wll_ULMProcessParseTable (edg_wll_ULMNewParseTable
        (ulm_line [(''DG.JOBID'', Bare ''x''), (''DG.RUNNING.NODE'', Quoted (''a = '' @ [QM, BS, LF]))])) = Inr (Some t) \<and>
    ulm_num t = 2 \<and>
    map (\<lambda>i. edg_wll_ULMGetNameAt t (int i)) [0..<ulm_num t] = [Inr (Some ''DG.JOBID''), Inr (Some ''DG.RUNNING.NODE'')] \<and>
    map (\<lambda>i. my_edg_wll_ULMGetValueAt t (int i)) [0..<ulm_num t] = [Inr (Some ''x''), Inr (Some (''a = '' @ [QM, BS, LF]))]"
  using ulm_line_roundtrip[of "[(''DG.JOBID'', Bare ''x''), (''DG.RUNNING.NODE'', Quoted (''a = '' @ [QM, BS, LF]))]"]
  by (simp add: field_ok_def edg_wll_ULMisalphaext_def isalnum_def plain_char_def ULM_FIELDS_MAX_def numeral_2_eq_2)

section \<open>Faults\<close>

definition scan_inv :: "string \<Rightarrow> ulm_scan \<Rightarrow> bool" where
  "scan_inv seen st \<longleftrightarrow> (qmCnt st \<noteq> 0 \<longrightarrow> seen \<noteq> []) \<and>
     length (iArrayEQ st) \<le> length (filter (\<lambda>c. c = EQS) seen) \<and>
     length (iArraySP st) \<le> length (filter isblank seen) \<and> sorted_wrt (<) (iArrayEQ st) \<and>
     (\<forall>e\<in>set (iArrayEQ st). e < length seen \<and> rev seen ! e = EQS)"

lemma escaped_char_Some:
  "escaped_char seen c st = Inr (Some (c', st')) \<Longrightarrow> c' = c \<and> iArrayEQ st' = iArrayEQ st \<and> iArraySP st' = iArraySP st"
  by (auto simp: escaped_char_def res_simps split: if_splits)

lemma ulm_char_effect:
  assumes "ulm_char seen c rest st = Inr (Some (c', st'))"
  shows "(iArrayEQ st' = iArrayEQ st \<or> c = EQS \<and> iArrayEQ st' = iArrayEQ st @ [length seen]) \<and>
    (iArraySP st' = iArraySP st \<or> isblank c \<and> iArraySP st' = iArraySP st @ [length seen]) \<and>
    (c' = c \<or> c = LF \<and> c' = NUL)"
proof -
  note defs = ulm_char_def isblank_def res_simps put_index_def Let_def
  consider "c = SP \<or> c = TB" | "c = EQS" | "c = LF" | "c = BS" | "c = QM" | "c \<notin> {SP, TB, EQS, LF, BS, QM}"
    by blast
  then show ?thesis
  proof cases
    case 1
    then show ?thesis using assms by (cases "qmCnt st = 0") (auto simp: defs dest!: escaped_char_Some split: if_splits)
  next
    case 2
    then show ?thesis using assms by (cases "qmCnt st = 0") (auto simp: defs dest!: escaped_char_Some split: if_splits)
  next
    case 3
    then show ?thesis using assms by (cases "qmCnt st = 0") (auto simp: defs dest!: escaped_char_Some)
  next
    case 4
    then show ?thesis using assms by (auto simp: defs split: if_splits)
  next
    case 5
    then show ?thesis using assms by (cases "qmCnt st = 0") (auto simp: defs split: if_splits)
  next
    case 6
    then show ?thesis using assms by (auto simp: defs dest!: escaped_char_Some split: if_splits)
  qed
qed

lemma ulm_char_total:
  assumes "qmCnt st \<noteq> 0 \<longrightarrow> seen \<noteq> []"
    and "c = EQS \<longrightarrow> length (iArrayEQ st) < ULM_FIELDS_MAX" and "isblank c \<longrightarrow> length (iArraySP st) < ULM_FIELDS_MAX"
  shows "\<exists>r. ulm_char seen c rest st = Inr r"
  using assms
  by (cases seen) (auto simp: ulm_char_def isblank_def put_index_def escaped_char_def raw_before_def Let_def)

lemma ulm_char_inv:
  assumes "scan_inv seen st" and "ulm_char seen c rest st = Inr (Some (c', st'))"
  shows "scan_inv (c' # seen) st'"
proof -
  have "iArrayEQ st' = iArrayEQ st \<or> c' = EQS \<and> iArrayEQ st' = iArrayEQ st @ [length seen]"
    and "iArraySP st' = iArraySP st \<or> isblank c' \<and> iArraySP st' = iArraySP st @ [length seen]"
    using ulm_char_effect[OF assms(2)] by (auto simp: isblank_def)
  moreover have "rev (c' # seen) ! e = rev seen ! e" if "e < length seen" for e
    using that by (simp add: nth_append)
  moreover have "rev (c' # seen) ! length seen = c'" by (simp add: nth_append)
  ultimately show ?thesis
    using assms(1) unfolding scan_inv_def by (elim disjE) (auto simp: sorted_wrt_append less_Suc_eq)
qed

lemma scan_line_total:
  assumes "scan_inv seen st"
    and "length (filter (\<lambda>c. c = EQS) (seen @ rest)) \<le> ULM_FIELDS_MAX"
    and "length (filter isblank (seen @ rest)) \<le> ULM_FIELDS_MAX"
  shows "\<exists>r. ulm_scan_line seen rest st = Inr r \<and>
    (\<forall>raw st'. r = Some (raw, st') \<longrightarrow> length raw = length seen + length rest \<and> scan_inv (rev raw) st')"
  using assms
proof (induction rest arbitrary: seen st)
  case (Cons c rest)
  have "\<exists>r. ulm_char seen c rest st = Inr r"
    using Cons.prems by (intro ulm_char_total) (auto simp: scan_inv_def)
  then obtain r where r: "ulm_char seen c rest st = Inr r" by blast
  show ?case
  proof (cases r)
    case None
    then show ?thesis using r by simp
  next
    case (Some p)
    then obtain c' st' where p: "r = Some (c', st')" by (cases p) auto
    have e: "c' = c \<or> c = LF \<and> c' = NUL" using ulm_char_effect r p by blast
    have "\<exists>r. ulm_scan_line (c' # seen) rest st' = Inr r \<and>
      (\<forall>raw st2. r = Some (raw, st2) \<longrightarrow> length raw = length (c' # seen) + length rest \<and> scan_inv (rev raw) st2)"
      using Cons.prems e ulm_char_inv[of seen st c rest c' st'] r p by (intro Cons.IH) (auto simp: isblank_def)
    then show ?thesis using r p by simp
  qed
qed simp

lemma name_start_total:
  assumes "e0 < e" and "e < length raw" and "raw ! e0 = EQS"
  shows "\<exists>r. name_start raw e = Inr r"
proof -
  let ?w = "takeWhile edg_wll_ULMisalphaext (rev (take e raw))"
  have "length ?w < e"
  proof (rule ccontr)
    assume "\<not> length ?w < e"
    then have "length ?w = length (rev (take e raw))"
      using length_takeWhile_le[of edg_wll_ULMisalphaext "rev (take e raw)"] assms(2) by simp
    then have "?w = rev (take e raw)" by (metis takeWhile_eq_take take_all_iff order_refl)
    moreover have "EQS \<in> set (take e raw)" using assms by (auto simp: in_set_conv_nth intro!: exI[of _ e0])
    ultimately have "edg_wll_ULMisalphaext EQS" by (metis set_rev set_takeWhileD)
    then show False using alphaext_plain by (auto simp: plain_char_def)
  qed
  then show ?thesis by (simp add: name_start_def Let_def)
qed

lemma name_starts_total:
  "(\<And>e. e \<in> set es \<Longrightarrow> e0 < e \<and> e < length raw) \<Longrightarrow> raw ! e0 = EQS \<Longrightarrow> \<exists>r. name_starts raw es = Inr r"
proof (induction es)
  case (Cons e es)
  then obtain r where "name_start raw e = Inr r" using name_start_total[of e0 e raw] by auto
  moreover obtain r2 where "name_starts raw es = Inr r2" using Cons by auto
  ultimately show ?case by (cases r) simp_all
qed simp

lemma process_total:
  assumes "length (filter (\<lambda>c. c = EQS) line) \<le> ULM_FIELDS_MAX" and "length (filter isblank line) \<le> ULM_FIELDS_MAX"
  shows "\<exists>r. edg_wll_ULMProcessParseTable (edg_wll_ULMNewParseTable line) = Inr r"
proof -
  let ?raw = "dropWhile isblank line" and ?st = "\<lparr>qmCnt = 0, bsCnt = 0, iArrayEQ = [], iArraySP = []\<rparr>"
  have "length (filter P ?raw) \<le> length (filter P line)" for P
    by (induction line) auto
  then have "length (filter (\<lambda>c. c = EQS) ?raw) \<le> ULM_FIELDS_MAX" "length (filter isblank ?raw) \<le> ULM_FIELDS_MAX"
    using assms le_trans by blast+
  then obtain r where r: "ulm_scan_line [] ?raw ?st = Inr r"
    "\<forall>raw st'. r = Some (raw, st') \<longrightarrow> length raw = length ?raw \<and> scan_inv (rev raw) st'"
    using scan_line_total[of "[]" ?st ?raw] by (auto simp: scan_inv_def)
  show ?thesis
  proof (cases r)
    case None
    then show ?thesis using r by (simp add: edg_wll_ULMProcessParseTable_def edg_wll_ULMNewParseTable_def)
  next
    case (Some p)
    then obtain raw st' where p: "r = Some (raw, st')" by (cases p) auto
    then have inv: "scan_inv (rev raw) st'" using r(2) by simp
    have "\<exists>ns. name_starts raw (tl (iArrayEQ st')) = Inr ns"
    proof (cases "iArrayEQ st'")
      case (Cons e0 es)
      then show ?thesis
        using inv by (intro name_starts_total[of _ e0]) (auto simp: scan_inv_def)
    qed simp
    then obtain ns where "name_starts raw (tl (iArrayEQ st')) = Inr ns" by blast
    then show ?thesis
      using r(1) p by (cases ns) (auto simp: edg_wll_ULMProcessParseTable_def edg_wll_ULMNewParseTable_def)
  qed
qed

lemma scan_blanks:
  "qmCnt st = 0 \<Longrightarrow> ULM_FIELDS_MAX < length (iArraySP st) + n \<Longrightarrow> length (iArraySP st) \<le> ULM_FIELDS_MAX \<Longrightarrow>
    ulm_scan_line seen (replicate n SP @ r) st = Inl Out_of_bounds"
proof (induction n arbitrary: seen st)
  case (Suc n)
  show ?case
  proof (cases "length (iArraySP st) < ULM_FIELDS_MAX")
    case True
    then show ?thesis using Suc by (simp add: ulm_char_def put_index_def)
  next
    case False
    then show ?thesis using Suc.prems by (simp add: ulm_char_def put_index_def)
  qed
qed simp

text \<open>
  C38. The parser is safe on every line with at most a hundred delimiters and a hundred blanks:
  whatever the characters, it comes to a result without reading outside of the line or writing
  outside of its arrays. Beyond that nothing holds it: a line with a word and more than a hundred
  blanks makes it write behind the end of the array of blanks on the stack, although
  the line needs no more than one field.
\<close>

theorem ulm_parser_bounds:
  "(length (filter (\<lambda>c. c = EQS) line) \<le> ULM_FIELDS_MAX \<and> length (filter isblank line) \<le> ULM_FIELDS_MAX \<longrightarrow>
     (\<exists>r. edg_wll_ULMProcessParseTable (edg_wll_ULMNewParseTable line) = Inr r)) \<and>
   (ULM_FIELDS_MAX < n \<longrightarrow>
     edg_wll_ULMProcessParseTable (edg_wll_ULMNewParseTable (CHR ''a'' # replicate n SP @ r)) = Inl Out_of_bounds)"
proof (intro conjI impI)
  show "\<exists>r. edg_wll_ULMProcessParseTable (edg_wll_ULMNewParseTable line) = Inr r"
    if "length (filter (\<lambda>c. c = EQS) line) \<le> ULM_FIELDS_MAX \<and> length (filter isblank line) \<le> ULM_FIELDS_MAX"
    using process_total that by blast
  show "edg_wll_ULMProcessParseTable (edg_wll_ULMNewParseTable (CHR ''a'' # replicate n SP @ r)) = Inl Out_of_bounds"
    if "ULM_FIELDS_MAX < n"
    using that
    by (simp add: edg_wll_ULMProcessParseTable_def edg_wll_ULMNewParseTable_def isblank_def scan_blanks ulm_char_def)
qed

theorem ulm_parser_bounds_witness:
  "(\<exists>r. edg_wll_ULMProcessParseTable (edg_wll_ULMNewParseTable ''=a b=c'') = Inr r) \<and>
   edg_wll_ULMProcessParseTable (edg_wll_ULMNewParseTable (CHR ''a'' # replicate 101 SP @ ''b=c'')) = Inl Out_of_bounds"
  using ulm_parser_bounds[of "''=a b=c''" 101 "''b=c''"] by (simp add: ULM_FIELDS_MAX_def isblank_def)

text \<open>
  The check of an index lets the number of fields through, one more than the last index, and the
  arrays are read behind their end.
\<close>

lemma ulm_index_off_by_one:
  "edg_wll_ULMProcessParseTable (edg_wll_ULMNewParseTable line) = Inr (Some t) \<Longrightarrow>
    edg_wll_ULMGetNameAt t (int (ulm_num t)) = Inl Out_of_bounds"
  by (simp add: edg_wll_ULMGetNameAt_def at_index_def ulm_num_def)

section \<open>The job of an event\<close>

lemma find_map_option: "find P (map g xs) = map_option g (find (\<lambda>x. P (g x)) xs)"
  by (induction xs) auto

lemma find_by_index: "find P xs = map_option (\<lambda>i. xs ! i) (find (\<lambda>i. P (xs ! i)) [0..<length xs])"
proof (induction xs)
  case (Cons x xs)
  have "find (\<lambda>i. P ((x # xs) ! i)) (map Suc [0..<length xs]) = map_option Suc (find (\<lambda>i. P (xs ! i)) [0..<length xs])"
    by (simp add: find_map_option)
  then show ?case using Cons by (simp add: upt_conv_Cons map_Suc_upt[symmetric] option.map_comp o_def del: upt_Suc)
qed simp

lemma GetJobId_line:
  assumes "fs \<noteq> []" and "list_all field_ok fs" and "length fs \<le> ULM_FIELDS_MAX"
  shows "edg_wll_GetJobId keyNames code (ulm_line fs) =
    Inr (case find (\<lambda>f. edg_wll_StringToKeyName keyNames (fst f) = code) fs of
           None \<Rightarrow> None
         | Some f \<Rightarrow> (case glite_jobid_parse (value_of (snd f)) of Inl _ \<Rightarrow> None | Inr _ \<Rightarrow> Some (value_of (snd f))))"
proof -
  obtain t where t: "edg_wll_ULMProcessParseTable (edg_wll_ULMNewParseTable (ulm_line fs)) = Inr (Some t)"
    "ulm_num t = length fs"
    "\<And>i. i < length fs \<Longrightarrow> edg_wll_ULMGetNameAt t (int i) = Inr (Some (fst (fs ! i)))"
    "\<And>i. i < length fs \<Longrightarrow> my_edg_wll_ULMGetValueAt t (int i) = Inr (Some (value_of (snd (fs ! i))))"
    using ulm_line_table[OF assms] by blast
  let ?P = "\<lambda>f. edg_wll_StringToKeyName keyNames (fst f) = code"
  let ?Q = "\<lambda>i. case edg_wll_ULMGetNameAt t (int i) of
               Inr (Some n) \<Rightarrow> edg_wll_StringToKeyName keyNames n = code | _ \<Rightarrow> False"
  have "find ?Q [0..<length fs] = find (\<lambda>i. ?P (fs ! i)) [0..<length fs]"
    using t(3) by (intro find_cong) auto
  moreover have "find (\<lambda>i. ?P (fs ! i)) [0..<length fs] = Some i \<Longrightarrow> i < length fs" for i
    by (auto simp: find_Some_iff)
  ultimately show ?thesis
    using t find_by_index[of ?P fs]
    by (auto simp: edg_wll_GetJobId_def Let_def split: option.splits sum.splits)
qed

text \<open>
  From a line of fields the identifier of the job is found: it is the value of the first field with
  the key of the identifier, when it parses; and a line without such a field has none.
\<close>

theorem event_job_found:
  assumes "fs \<noteq> []" and "list_all field_ok fs" and "length fs \<le> ULM_FIELDS_MAX"
  shows "edg_wll_GetJobId keyNames code (ulm_line fs) =
    Inr (case find (\<lambda>f. edg_wll_StringToKeyName keyNames (fst f) = code) fs of
           None \<Rightarrow> None
         | Some f \<Rightarrow> (case glite_jobid_parse (value_of (snd f)) of Inl _ \<Rightarrow> None | Inr _ \<Rightarrow> Some (value_of (snd f))))"
  by (rule GetJobId_line[OF assms])

theorem event_job_found_witness:
  "edg_wll_GetJobId [''Undefined'', ''DG.EVNT'', ''DG.JOBID''] 2
     (ulm_line [(''DG.EVNT'', Bare ''Done''), (''DG.jobId'', Quoted ''https://h/u'')]) = Inr (Some ''https://h/u'')"
proof -
  let ?fs = "[(''DG.EVNT'', Bare ''Done''), (''DG.jobId'', Quoted ''https://h/u'')]"
  have "find (\<lambda>f. edg_wll_StringToKeyName [''Undefined'', ''DG.EVNT'', ''DG.JOBID''] (fst f) = 2) ?fs =
      Some (''DG.jobId'', Quoted ''https://h/u'')"
    by code_simp
  moreover obtain j where "glite_jobid_parse ''https://h/u'' = Inr j"
    by (simp add: glite_jobid_parse_def isspace_def Let_def)
  moreover have "list_all field_ok ?fs"
    by (simp add: field_ok_def edg_wll_ULMisalphaext_def isalnum_def plain_char_def)
  then have "edg_wll_GetJobId [''Undefined'', ''DG.EVNT'', ''DG.JOBID''] 2 (ulm_line ?fs) =
    Inr (case find (\<lambda>f. edg_wll_StringToKeyName [''Undefined'', ''DG.EVNT'', ''DG.JOBID''] (fst f) = 2) ?fs of
           None \<Rightarrow> None
         | Some f \<Rightarrow> (case glite_jobid_parse (value_of (snd f)) of Inl _ \<Rightarrow> None | Inr _ \<Rightarrow> Some (value_of (snd f))))"
    by (intro event_job_found) (simp_all add: ULM_FIELDS_MAX_def)
  ultimately show ?thesis by (simp only: option.case sum.case snd_conv value_of.simps)
qed

section \<open>Lists of tags are read back\<close>

lemma split_at_word: "sep \<notin> set w \<Longrightarrow> split_at sep w = [w]"
  by (induction w) auto

lemma split_at_join: "sep \<notin> set w \<Longrightarrow> split_at sep (w @ sep # r) = w # split_at sep r"
  by (induction w) auto

definition tag_ok :: "string \<times> string \<Rightarrow> bool" where
  "tag_ok tv \<longleftrightarrow> CHR '','' \<notin> set (fst tv) \<and> EQS \<notin> set (fst tv) \<and> CHR '','' \<notin> set (snd tv) \<and> snd tv \<noteq> []"

lemma parse_tag_text: "EQS \<notin> set t \<Longrightarrow> v \<noteq> [] \<Longrightarrow> parse_tag (t @ EQS # v) = Some (t, v)"
  by (simp add: parse_tag_def strchr_append)

lemma strtok_tags:
  "list_all tag_ok l \<Longrightarrow> strtok (CHR '','') (tag_list_text l) = map (\<lambda>(t, v). t @ EQS # v) l"
proof (induction l rule: tag_list_text.induct)
  case (2 t v)
  then have "split_at (CHR '','') (t @ EQS # v) = [t @ EQS # v]" by (intro split_at_word) (auto simp: tag_ok_def)
  then show ?case by (simp add: strtok_def)
next
  case (3 t v f l)
  then have "split_at (CHR '','') ((t @ EQS # v) @ CHR '','' # tag_list_text (f # l)) =
      (t @ EQS # v) # split_at (CHR '','') (tag_list_text (f # l))"
    by (intro split_at_join) (auto simp: tag_ok_def)
  then show ?case using 3 by (simp add: strtok_def)
qed (simp add: strtok_def)

lemma tag_list_length: "int (length (tag_list_text l)) \<le> sum_list (map (\<lambda>(t, v). int (length t) + int (length v) + 2) l)"
  by (induction l rule: tag_list_text.induct) auto

lemma tag_list_commas: "l \<noteq> [] \<Longrightarrow> length l \<le> count_list (tag_list_text l) (CHR '','') + 1"
  by (induction l rule: tag_list_text.induct) (auto simp: count_list_append)

text \<open>
  A list of tags written as text and read again is the list, without overrunning the buffer of
  the text or the array of the list, when no name has a comma or a delimiter and no value has a
  comma or is empty.
\<close>

theorem tag_list_roundtrip:
  assumes "list_all tag_ok l"
  shows "\<exists>s. edg_wll_TagListToString (Some l) = Inr (Some s) \<and> edg_wll_TagListParse (Some s) = Inr (0, l)"
proof -
  have "List.map_filter parse_tag (map (\<lambda>(t, v). t @ EQS # v) l) = l"
    using assms by (induction l) (auto simp: List.map_filter_simps parse_tag_text tag_ok_def)
  then have "List.map_filter parse_tag (strtok (CHR '','') (tag_list_text l)) = l" using strtok_tags[OF assms] by simp
  moreover have "length l + 1 \<le> count_list (tag_list_text l) (CHR '','') + 2"
    using tag_list_commas[of l] by (cases l) simp_all
  ultimately have "edg_wll_TagListParse (Some (tag_list_text l)) = Inr (0, l)"
    by (simp add: edg_wll_TagListParse_def)
  then show ?thesis
    using tag_list_length[of l] by (auto simp: edg_wll_TagListToString_def filled_ok)
qed

theorem tag_list_roundtrip_witness:
  "\<exists>s. edg_wll_TagListToString (Some [(''a'', ''b=c''), ([], ''d'')]) = Inr (Some s) \<and>
    edg_wll_TagListParse (Some s) = Inr (0, [(''a'', ''b=c''), ([], ''d'')])"
  by (rule tag_list_roundtrip) (simp add: tag_ok_def)

end
