(* ===== verification/LB_Stats.thy ===== *)
theory LB_Stats
  imports Complex_Main LB_Types LB_Base64 "HOL-Library.Signed_Division"
begin

text \<open>
  Statistics of the bookkeeping server (\<^verbatim>\<open>org.glite.lb.server/src/stats.c\<close>): for every
  destination a group of archives counts the jobs that enter a state, or adds up the times
  between two states. An archive is a circular array of cells, each for an interval of time, the
  newest one at \<^verbatim>\<open>ptr\<close>. The groups lie in a file that all server processes map; each
  process has its own count of groups and its own hash table of them, and takes
  over the groups of others when it finds the count changed.

  The file is the list of its groups. Rates and durations, which the code computes with
  \<^verbatim>\<open>float\<close>, are exact here. Files, mappings and hash tables are created without failure; an entry
  goes into a hash table unless it holds as many as it was made for.
\<close>

section \<open>Data\<close>

record stats_cell =
  cnt :: int
  cell_value :: rat
  cell_value2 :: rat

record stats_archive =
  ptr :: nat
  cells :: "stats_cell list"

record stats_group =
  grp_sig :: string
  grp_destination :: string
  last_update :: int
  archive :: "stats_archive list"

datatype stats_type = STATS_COUNT | STATS_DURATION | STATS_DURATION_FROMTO

text \<open>The fixed part of a statistics; an archive is given by its interval and its length.\<close>

record stats_def =
  st_type :: stats_type
  base_state :: int
  final_state :: int
  st_minor :: int
  st_archives :: "(int \<times> nat) list"

text \<open>What a process keeps of a statistics.\<close>

record stats_proc =
  grpno :: nat
  htab_size :: nat
  htab :: "(string \<times> nat) list option"

definition default_archives :: "(int \<times> nat) list" where
  "default_archives = [(10, 60), (60, 30), (900, 12), (3600, 168)]"

definition stat :: "stats_type \<Rightarrow> int \<Rightarrow> int \<Rightarrow> int \<Rightarrow> stats_def" where
  "stat t b f m = \<lparr>st_type = t, base_state = b, final_state = f, st_minor = m, st_archives = default_archives\<rparr>"

definition default_stats :: "stats_def list" where
  "default_stats =
    [stat STATS_COUNT EDG_WLL_JOB_READY 0 0,
     stat STATS_COUNT EDG_WLL_JOB_SCHEDULED 0 0,
     stat STATS_COUNT EDG_WLL_JOB_RUNNING 0 0,
     stat STATS_COUNT EDG_WLL_JOB_DONE 0 EDG_WLL_STAT_OK,
     stat STATS_COUNT EDG_WLL_JOB_DONE 0 EDG_WLL_STAT_FAILED,
     stat STATS_DURATION EDG_WLL_JOB_SCHEDULED 0 0,
     stat STATS_DURATION EDG_WLL_JOB_RUNNING 0 0,
     stat STATS_DURATION_FROMTO EDG_WLL_JOB_SUBMITTED EDG_WLL_JOB_RUNNING 0,
     stat STATS_DURATION_FROMTO EDG_WLL_JOB_SUBMITTED EDG_WLL_JOB_DONE EDG_WLL_STAT_OK,
     stat STATS_DURATION_FROMTO EDG_WLL_JOB_SUBMITTED EDG_WLL_JOB_DONE EDG_WLL_STAT_FAILED,
     stat STATS_DURATION_FROMTO EDG_WLL_JOB_SCHEDULED EDG_WLL_JOB_RUNNING 0,
     stat STATS_DURATION_FROMTO EDG_WLL_JOB_RUNNING EDG_WLL_JOB_DONE EDG_WLL_STAT_OK,
     stat STATS_DURATION_FROMTO EDG_WLL_JOB_RUNNING EDG_WLL_JOB_DONE EDG_WLL_STAT_FAILED]"

definition GROUPS_HASHTABLE_SIZE :: nat where "GROUPS_HASHTABLE_SIZE = 1000"
definition STATS_DEST_SIZE :: nat where "STATS_DEST_SIZE = 256"

definition init_stats_proc :: stats_proc where
  "init_stats_proc = \<lparr>grpno = 0, htab_size = GROUPS_HASHTABLE_SIZE, htab = Some []\<rparr>"

section \<open>Groups\<close>

text \<open>\<^verbatim>\<open>hsearch_r(..., ENTER, ...)\<close>\<close>

definition hsearch_enter :: "nat \<Rightarrow> string \<Rightarrow> nat \<Rightarrow> (string \<times> nat) list \<Rightarrow> (string \<times> nat) list option" where
  "hsearch_enter sz key v tab =
     (if map_of tab key \<noteq> None then Some tab
      else if length tab < sz then Some ((key, v) # tab) else None)"

text \<open>Entering the groups with the given numbers; the table is given up on the first failure.\<close>

fun enter_groups :: "nat \<Rightarrow> stats_group list \<Rightarrow> nat list \<Rightarrow> (string \<times> nat) list \<Rightarrow> (string \<times> nat) list option" where
  "enter_groups sz groups [] tab = Some tab"
| "enter_groups sz groups (i # is) tab =
     (case hsearch_enter sz (grp_sig (groups ! i)) i tab of
        None \<Rightarrow> None
      | Some tab \<Rightarrow> enter_groups sz groups is tab)"

definition stats_double_htable :: "stats_group list \<Rightarrow> stats_proc \<Rightarrow> stats_proc res" where
  "stats_double_htable groups p =
     (case htab p of
        None \<Rightarrow> Inl Null_deref
      | Some _ \<Rightarrow>
          Inr (p\<lparr>htab_size := 2 * htab_size p,
                 htab := enter_groups (2 * htab_size p) groups [0..<grpno p] []\<rparr>))"

text \<open>\<^verbatim>\<open>while (newgrpno*100 > stats->htab_size*80) stats_double_htable(stats)\<close>\<close>

function grow_htable :: "stats_group list \<Rightarrow> nat \<Rightarrow> stats_proc \<Rightarrow> stats_proc res" where
  "grow_htable groups newgrpno p =
     (if newgrpno * 100 > htab_size p * 80 then
        if htab_size p = 0 then Inl Diverges
        else
          (case stats_double_htable groups p of
             Inl f \<Rightarrow> Inl f
           | Inr p' \<Rightarrow> grow_htable groups newgrpno p')
      else Inr p)"
  by pat_completeness auto
termination
  by (relation "measure (\<lambda>(_, n, p). n * 100 - htab_size p * 80)")
    (auto simp: stats_double_htable_def split: option.splits)

declare grow_htable.simps [simp del]

definition stats_remap :: "stats_group list \<Rightarrow> stats_proc \<Rightarrow> stats_proc res" where
  "stats_remap groups p =
     rbind (if htab p \<noteq> None then grow_htable groups (length groups) p else Inr p) (\<lambda>p'.
     Inr (p'\<lparr>htab := Option.bind (htab p') (enter_groups (htab_size p') groups [grpno p..<length groups]),
             grpno := length groups\<rparr>))"

definition remap_if_changed :: "stats_group list \<Rightarrow> stats_proc \<Rightarrow> stats_proc res" where
  "remap_if_changed groups p = (if length groups \<noteq> grpno p then stats_remap groups p else Inr p)"

definition linear_search :: "stats_group list \<Rightarrow> nat \<Rightarrow> string \<Rightarrow> nat option" where
  "linear_search groups n key = find (\<lambda>i. key = grp_sig (groups ! i)) [0..<n]"

definition stats_search_existing_group :: "stats_group list \<Rightarrow> stats_proc \<Rightarrow> string \<Rightarrow> nat option" where
  "stats_search_existing_group groups p key =
     (case htab p of
        Some tab \<Rightarrow> map_of tab key
      | None \<Rightarrow> linear_search groups (grpno p) key)"

definition new_group :: "(int \<times> nat) list \<Rightarrow> string \<Rightarrow> string \<Rightarrow> int \<Rightarrow> stats_group" where
  "new_group archives key dest now =
     \<lparr>grp_sig = key, grp_destination = dest, last_update = now,
      archive = map (\<lambda>(i, n). \<lparr>ptr = 0, cells = replicate n \<lparr>cnt = - 1, cell_value = 0, cell_value2 = 0\<rparr>\<rparr>) archives\<rparr>"

definition stats_search_group ::
  "(string \<Rightarrow> 8 word list) \<Rightarrow> stats_def \<Rightarrow> string \<Rightarrow> int \<Rightarrow> stats_group list \<times> stats_proc \<Rightarrow>
   (nat \<times> stats_group list \<times> stats_proc) res" where
  "stats_search_group md5 st dest now s =
     (case s of (groups, p) \<Rightarrow>
      rbind (deref (str2md5base64 md5 dest)) (\<lambda>key.
      case stats_search_existing_group groups p key of
        Some i \<Rightarrow> Inr (i, groups, p)
      | None \<Rightarrow>
          let groups = groups @ [new_group (st_archives st) key dest now];
              p = p\<lparr>grpno := grpno p + 1\<rparr>
          in rbind (if grpno p * 100 > htab_size p * 80 then stats_double_htable groups p else Inr p) (\<lambda>p.
             Inr (grpno p - 1, groups,
                  p\<lparr>htab := Option.bind (htab p) (hsearch_enter (htab_size p) key (grpno p - 1))\<rparr>))))"

section \<open>Archives\<close>

definition next_cell :: "stats_archive \<Rightarrow> stats_archive" where
  "next_cell a =
     (let k = (if ptr a + 1 = length (cells a) then 0 else ptr a + 1)
      in a\<lparr>ptr := k, cells := (cells a)[k := (cells a ! k)\<lparr>cnt := 0\<rparr>]\<rparr>)"

text \<open>\<^verbatim>\<open>for (pt += interval; pt < now; pt += interval)\<close>; the intervals of archives are positive.\<close>

function catch_up :: "int \<Rightarrow> int \<Rightarrow> int \<Rightarrow> stats_archive \<Rightarrow> stats_archive" where
  "catch_up interval now pt a =
     (if interval > 0 \<and> pt < now then catch_up interval now (pt + interval) (next_cell a) else a)"
  by pat_completeness auto
termination
  by (relation "measure (\<lambda>(i, now, pt, _). nat (now - pt))") auto

declare catch_up.simps [simp del]

definition clear_archive :: "stats_archive \<Rightarrow> stats_archive" where
  "clear_archive a = a\<lparr>ptr := 0, cells := map (\<lambda>c. c\<lparr>cnt := 0\<rparr>) (cells a)\<rparr>"

definition advance_archive :: "int \<Rightarrow> nat \<Rightarrow> int \<Rightarrow> int \<Rightarrow> stats_archive \<Rightarrow> stats_archive" where
  "advance_archive interval len last_upd now a =
     (let pt = last_upd - last_upd smod interval
      in if now - pt > interval * int len then clear_archive a
         else catch_up interval now (pt + interval) a)"

definition on_cell :: "(stats_cell \<Rightarrow> stats_cell) \<Rightarrow> stats_archive \<Rightarrow> stats_archive" where
  "on_cell f a = a\<lparr>cells := (cells a)[ptr a := f (cells a ! ptr a)]\<rparr>"

definition count_cell :: "stats_cell \<Rightarrow> stats_cell" where
  "count_cell c = c\<lparr>cnt := (if cnt c < 0 then 0 else cnt c) + 1\<rparr>"

definition duration_cell :: "int \<Rightarrow> stats_cell \<Rightarrow> stats_cell" where
  "duration_cell d c = (count_cell c)\<lparr>cell_value := cell_value c + of_int d, cell_value2 := cell_value2 c + of_int d * of_int d\<rparr>"

definition update_archives :: "(stats_cell \<Rightarrow> stats_cell) \<Rightarrow> (int \<times> nat) list \<Rightarrow> int \<Rightarrow> stats_group \<Rightarrow> stats_group" where
  "update_archives f archives now g =
     g\<lparr>archive := map2 (\<lambda>(i, n) a. on_cell f (advance_archive i n (last_update g) now a)) archives (archive g)\<rparr>"

section \<open>Updates\<close>

definition stats_inc_counter ::
  "(string \<Rightarrow> 8 word list) \<Rightarrow> stats_def \<Rightarrow> edg_wll_JobStat \<Rightarrow> stats_group list \<times> stats_proc \<Rightarrow>
   (stats_group list \<times> stats_proc) res" where
  "stats_inc_counter md5 st js s =
     (case destination js of
        None \<Rightarrow> Inr s
      | Some dest \<Rightarrow>
          if length dest \<ge> STATS_DEST_SIZE then Inr s
          else
            let now = tv_sec (stateEnterTime js) in
            rbind (remap_if_changed (fst s) (snd s)) (\<lambda>p.
            rbind (stats_search_group md5 st dest now (fst s, p)) (\<lambda>(i, groups, p).
            Inr (groups[i := (update_archives count_cell (st_archives st) now (groups ! i))\<lparr>last_update := now\<rparr>], p))))"

definition enter_time :: "edg_wll_JobStat \<Rightarrow> int \<Rightarrow> int res" where
  "enter_time js s =
     rbind (deref (stateEnterTimes js)) (\<lambda>ts.
     if 0 \<le> s + 1 \<and> s + 1 < int (length ts) then Inr (ts ! nat (s + 1)) else Inl Out_of_bounds)"

definition stats_record_duration_fromto ::
  "(string \<Rightarrow> 8 word list) \<Rightarrow> stats_def \<Rightarrow> edg_wll_JobStat \<Rightarrow> stats_group list \<times> stats_proc \<Rightarrow>
   (stats_group list \<times> stats_proc) res" where
  "stats_record_duration_fromto md5 st js s =
     (case destination js of
        None \<Rightarrow> Inr s
      | Some dest \<Rightarrow>
          if length dest \<ge> STATS_DEST_SIZE then Inr s
          else
            let now = tv_sec (stateEnterTime js) in
            rbind (remap_if_changed (fst s) (snd s)) (\<lambda>p.
            rbind (stats_search_group md5 st dest now (fst s, p)) (\<lambda>(i, groups, p).
            rbind (enter_time js (base_state st)) (\<lambda>base.
            rbind (enter_time js (final_state st)) (\<lambda>final.
            let g = (if base \<noteq> 0 \<and> final \<noteq> 0 \<and> final > base
                     then update_archives (duration_cell (final - base)) (st_archives st) now (groups ! i)
                     else groups ! i)
            in Inr (groups[i := g\<lparr>last_update := now\<rparr>], p))))))"

text \<open>
  The statistics a change of the status from \<open>from\<close> to \<open>to\<close> goes into. A null pointer \<open>to\<close> is
  followed for durations between states.
\<close>

definition minor_matches :: "stats_def \<Rightarrow> edg_wll_JobStat \<Rightarrow> bool" where
  "minor_matches st to \<longleftrightarrow> (state to = EDG_WLL_JOB_DONE \<longrightarrow> done_code to = st_minor st)"

definition update_one ::
  "(string \<Rightarrow> 8 word list) \<Rightarrow> edg_wll_JobStat option \<Rightarrow> edg_wll_JobStat option \<Rightarrow> stats_def \<Rightarrow>
   stats_group list \<times> stats_proc \<Rightarrow> (stats_group list \<times> stats_proc) res" where
  "update_one md5 from to st s =
     (case st_type st of
        STATS_COUNT \<Rightarrow>
          (case to of
             None \<Rightarrow> Inr s
           | Some t \<Rightarrow>
               if state t = base_state st \<and> (case from of None \<Rightarrow> True | Some f \<Rightarrow> state f \<noteq> state t) \<and> minor_matches st t
               then stats_inc_counter md5 st t s else Inr s)
      | STATS_DURATION \<Rightarrow> Inr s
      | STATS_DURATION_FROMTO \<Rightarrow>
          (case from of
             None \<Rightarrow> Inr s
           | Some f \<Rightarrow>
               rbind (deref to) (\<lambda>t.
               if state t = final_state st \<and> state f \<noteq> state t \<and> minor_matches st t
               then stats_record_duration_fromto md5 st t s else Inr s)))"

fun update_all ::
  "(string \<Rightarrow> 8 word list) \<Rightarrow> edg_wll_JobStat option \<Rightarrow> edg_wll_JobStat option \<Rightarrow> stats_def list \<Rightarrow>
   (stats_group list \<times> stats_proc) list \<Rightarrow> (stats_group list \<times> stats_proc) list res" where
  "update_all md5 from to (st # sts) (s # ss) =
     rbind (update_one md5 from to st s) (\<lambda>s.
     rbind (update_all md5 from to sts ss) (\<lambda>ss. Inr (s # ss)))"
| "update_all md5 from to sts ss = Inr ss"

definition edg_wll_UpdateStatistics ::
  "(string \<Rightarrow> 8 word list) \<Rightarrow> int \<Rightarrow> edg_wll_JobStat option \<Rightarrow> edg_wll_JobStat option \<Rightarrow>
   (stats_group list \<times> stats_proc) list \<Rightarrow> (stats_group list \<times> stats_proc) list res" where
  "edg_wll_UpdateStatistics md5 count_statistics from to ss =
     (if count_statistics = 0 then Inr ss else update_all md5 from to default_stats ss)"

section \<open>Queries\<close>

datatype stats_error = St_ENOSYS | St_EPERM | St_EINVAL | St_ENOENT

definition stat_matches :: "int \<Rightarrow> int \<Rightarrow> int \<Rightarrow> stats_def \<Rightarrow> bool" where
  "stat_matches base final mnr st =
     (case st_type st of
        STATS_COUNT \<Rightarrow> base_state st = base \<and> (base = EDG_WLL_JOB_DONE \<longrightarrow> st_minor st = mnr)
      | STATS_DURATION_FROMTO \<Rightarrow>
          base_state st = base \<and> final_state st = final \<and> (final = EDG_WLL_JOB_DONE \<longrightarrow> st_minor st = mnr)
      | STATS_DURATION \<Rightarrow> False)"

text \<open>
  \<open>allowed\<close> is the result of the check of authorization, \<open>by_destination\<close> tells whether the
  query groups by destination. The result is the number of the statistics.
\<close>

definition findStat ::
  "int \<Rightarrow> bool \<Rightarrow> bool \<Rightarrow> int \<Rightarrow> int \<Rightarrow> int \<Rightarrow> int \<Rightarrow> int \<Rightarrow> (stats_error + nat) res" where
  "findStat count_statistics allowed by_destination base final mnr from to =
     (if count_statistics = 0 then Inr (Inl St_ENOSYS)
      else if count_statistics = 1 \<and> \<not> allowed then Inr (Inl St_EPERM)
      else if count_statistics \<noteq> 1 \<and> count_statistics \<noteq> 2 then Inl Assert_fail
      else if \<not> by_destination then Inr (Inl St_ENOSYS)
      else if from \<ge> to then Inr (Inl St_EINVAL)
      else
        case find (\<lambda>i. stat_matches base final mnr (default_stats ! i)) [0..<length default_stats] of
          None \<Rightarrow> Inr (Inl St_ENOENT)
        | Some i \<Rightarrow> Inr (Inr i))"

text \<open>The archive with the longest common part with the interval asked for, and the length of it.\<close>

fun best_match :: "int \<Rightarrow> int \<Rightarrow> int \<Rightarrow> (int \<times> nat) list \<Rightarrow> nat \<Rightarrow> int \<times> nat option \<Rightarrow> int \<times> nat option" where
  "best_match last_upd from to [] j best = best"
| "best_match last_upd from to ((i, n) # as) j best =
     (let ato = last_upd + (i - last_upd smod i);
          afrom = last_upd - last_upd smod i - i * (int n - 1);
          afrom = (if afrom < from then from else afrom);
          ato = (if ato > to then to else ato)
      in best_match last_upd from to as (j + 1) (if ato - afrom > fst best then (ato - afrom, Some j) else best))"

text \<open>How much of the cell from \<open>afrom\<close> counts.\<close>

definition overlap :: "int \<Rightarrow> int \<Rightarrow> int \<Rightarrow> int \<Rightarrow> int" where
  "overlap from to afrom i =
     (if from \<ge> afrom \<and> to < afrom + i then to - from
      else if from < afrom \<and> to \<ge> afrom + i then i
      else if from \<ge> afrom \<and> from < afrom + i then afrom + i - from
      else if to \<ge> afrom \<and> to < afrom + i then afrom + i - to
      else 0)"

text \<open>The loop over the cells, from the oldest one; \<open>acc\<close> adds a cell with its part.\<close>

fun cell_loop :: "(int \<Rightarrow> stats_cell \<Rightarrow> 'a \<Rightarrow> 'a) \<Rightarrow> int \<Rightarrow> int \<Rightarrow> int \<Rightarrow> int \<Rightarrow> stats_cell list \<Rightarrow> int \<Rightarrow> 'a \<Rightarrow> int \<times> 'a" where
  "cell_loop acc from to i afrom [] match x = (match, x)"
| "cell_loop acc from to i afrom (c # cs) match x =
     (if cnt c < 0 then cell_loop acc from to i (afrom + i) cs match x
      else
        let diff = overlap from to afrom i; match = match + diff; x = acc diff c x
        in if to \<ge> afrom \<and> to < afrom + i then (match, x)
           else cell_loop acc from to i (afrom + i) cs match x)"

definition cells_in_order :: "stats_archive \<Rightarrow> stats_cell list" where
  "cells_in_order a = map (\<lambda>j. cells a ! ((ptr a + j + 1) mod length (cells a))) [0..<length (cells a)]"

text \<open>What both requests share: the archive, the interval cut to it, and the loop.\<close>

definition archive_request ::
  "(int \<Rightarrow> int \<Rightarrow> stats_cell \<Rightarrow> 'a \<Rightarrow> 'a) \<Rightarrow> 'a \<Rightarrow> (int \<times> nat) list \<Rightarrow> stats_group \<Rightarrow> int \<Rightarrow> int \<Rightarrow>
   (int \<times> int \<times> int \<times> int \<times> 'a) option" where
  "archive_request acc x0 archives g from to =
     (case best_match (last_update g) from to archives 0 (0, None) of
        (_, None) \<Rightarrow> None
      | (_, Some m) \<Rightarrow>
          let (i, n) = archives ! m;
              afrom = last_update g - last_update g smod i - (int n - 1) * i;
              from = (if afrom > from then afrom else from);
              to = (if afrom + int n * i < to then afrom + int n * i else to);
              (match, x) = cell_loop (acc i) from to i afrom (cells_in_order (archive g ! m)) 0 x0
          in Some (from, to, i, match, x))"

definition stateRateRequest ::
  "(int \<times> nat) list \<Rightarrow> stats_group \<Rightarrow> int \<Rightarrow> int \<Rightarrow> (int \<times> int \<times> int \<times> rat) option" where
  "stateRateRequest archives g from to =
     map_option (\<lambda>(from, to, i, match, rate). (from, to, i, if match > 0 then rate / of_int match else rate))
       (archive_request (\<lambda>i diff c rate. rate + of_int (cnt c) * of_int diff / of_int i) 0 archives g from to)"

definition stateDurationFromToRequest ::
  "(rat \<Rightarrow> rat) \<Rightarrow> (int \<times> nat) list \<Rightarrow> stats_group \<Rightarrow> int \<Rightarrow> int \<Rightarrow> (int \<times> int \<times> int \<times> rat \<times> rat) option" where
  "stateDurationFromToRequest sqrtf archives g from to =
     map_option (\<lambda>(from, to, i, match, rate, duration, dispersion).
        if match > 0 then
          let rate = rate / of_int match; duration = duration / of_int match; dispersion = dispersion / of_int match
          in (from, to, i, duration,
              if rate > 1 then sqrtf (1 / (rate - 1) * (dispersion - rate * (duration * duration))) else 0)
        else (from, to, i, duration, dispersion))
       (archive_request (\<lambda>i diff c (rate, duration, dispersion).
          (rate + of_int (cnt c) * of_int diff,
           if cnt c \<noteq> 0 then duration + of_int diff * cell_value c / of_int (cnt c) else duration,
           dispersion + of_int diff * cell_value2 c)) (0, 0, 0) archives g from to)"

text \<open>
  The requests for all groups: the interval, cut for one group, is what the next one is asked
  for; groups without data are left out.
\<close>

fun all_groups ::
  "(stats_group \<Rightarrow> int \<Rightarrow> int \<Rightarrow> (int \<times> int \<times> int \<times> 'r) option) \<Rightarrow> stats_group list \<Rightarrow> int \<Rightarrow> int \<Rightarrow> int \<Rightarrow>
   int \<times> int \<times> int \<times> (string \<times> 'r) list" where
  "all_groups request [] from to resol = (from, to, resol, [])"
| "all_groups request (g # gs) from to resol =
     (case request g from to of
        None \<Rightarrow> all_groups request gs from to resol
      | Some (from, to, resol, r) \<Rightarrow>
          (case all_groups request gs from to resol of
             (from, to, resol, rs) \<Rightarrow> (from, to, resol, (grp_destination g, r) # rs)))"

definition stats_server ::
  "(string \<Rightarrow> 8 word list) \<Rightarrow> (stats_def \<Rightarrow> stats_group \<Rightarrow> int \<Rightarrow> int \<Rightarrow> (int \<times> int \<times> int \<times> 'r) option) \<Rightarrow>
   (stats_error + nat) res \<Rightarrow> cstr \<Rightarrow> int \<Rightarrow> int \<Rightarrow> int \<Rightarrow> (stats_group list \<times> stats_proc) list \<Rightarrow>
   (stats_error + int \<times> int \<times> int \<times> (string \<times> 'r) list) res" where
  "stats_server md5 request found grp from to resol ss =
     rbind found (\<lambda>r. case r of
       Inl e \<Rightarrow> Inr (Inl e)
     | Inr k \<Rightarrow>
         let st = default_stats ! k; groups = fst (ss ! k) in
         rbind (remap_if_changed groups (snd (ss ! k))) (\<lambda>p.
         case grp of
           Some dest \<Rightarrow>
             rbind (deref (str2md5base64 md5 dest)) (\<lambda>key.
             (case stats_search_existing_group groups p key of
                None \<Rightarrow> Inr (Inl St_ENOENT)
              | Some i \<Rightarrow>
                  (case request st (groups ! i) from to of
                     None \<Rightarrow> Inr (Inl St_ENOENT)
                   | Some (from, to, resol, r) \<Rightarrow> Inr (Inr (from, to, resol, [(grp_destination (groups ! i), r)])))))
         | None \<Rightarrow>
             (case all_groups (request st) (take (grpno p) groups) from to resol of
                (from, to, resol, rs) \<Rightarrow> if rs = [] then Inr (Inl St_ENOENT) else Inr (Inr (from, to, resol, rs)))))"

definition edg_wll_StateRateServer where
  "edg_wll_StateRateServer md5 count_statistics allowed by_destination grp major mnr from to resol ss =
     stats_server md5 (\<lambda>st. stateRateRequest (st_archives st))
       (findStat count_statistics allowed by_destination major EDG_WLL_JOB_UNDEF mnr from to) grp from to resol ss"

definition edg_wll_StateDurationFromToServer where
  "edg_wll_StateDurationFromToServer md5 sqrtf count_statistics allowed by_destination grp base final mnr from to resol ss =
     stats_server md5 (\<lambda>st. stateDurationFromToRequest sqrtf (st_archives st))
       (findStat count_statistics allowed by_destination base final mnr from to) grp from to resol ss"

end
