(* ===== verification/LB_StatsProps.thy ===== *)
theory LB_StatsProps
  imports LB_Stats
begin

text \<open>
  Properties of the statistics: the hash tables of the processes agree with a linear search of
  the common file; an archive counts the jobs by intervals of time; what part of a cell a
  query takes; which statistics a query reaches.
\<close>

section \<open>Hash tables\<close>

lemma linear_search_Suc:
  "linear_search groups (Suc n) key =
    (case linear_search groups n key of
       Some i \<Rightarrow> Some i
     | None \<Rightarrow> if key = grp_sig (groups ! n) then Some n else None)"
proof -
  have "find P (xs @ [x]) = (case find P xs of Some i \<Rightarrow> Some i | None \<Rightarrow> if P x then Some x else None)"
    for P :: "nat \<Rightarrow> bool" and xs x by (induction xs) auto
  then show ?thesis by (simp add: linear_search_def)
qed

lemma linear_search_0 [simp]: "linear_search groups 0 key = None"
  by (simp add: linear_search_def)

lemma linear_search_Some: "linear_search groups n key = Some i \<Longrightarrow> i < n \<and> grp_sig (groups ! i) = key"
  by (auto simp: linear_search_def find_Some_iff)

lemma linear_search_None: "linear_search groups n key = None \<longleftrightarrow> (\<forall>i<n. grp_sig (groups ! i) \<noteq> key)"
  by (auto simp: linear_search_def find_None_iff)

lemma linear_search_cong:
  assumes "\<And>i. i < n \<Longrightarrow> grp_sig (groups' ! i) = grp_sig (groups ! i)"
  shows "linear_search groups' n key = linear_search groups n key"
  unfolding linear_search_def using assms by (intro find_cong) auto

definition tab_of :: "stats_group list \<Rightarrow> nat \<Rightarrow> (string \<times> nat) list \<Rightarrow> bool" where
  "tab_of groups n tab \<longleftrightarrow> length tab = n \<and> (\<forall>key. map_of tab key = linear_search groups n key)"

lemma tab_of_Nil [simp]: "tab_of groups 0 []"
  by (simp add: tab_of_def)

lemma sig_new:
  "distinct (map grp_sig groups) \<Longrightarrow> n < length groups \<Longrightarrow> linear_search groups n (grp_sig (groups ! n)) = None"
  by (auto simp: linear_search_None distinct_conv_nth)

lemma enter_one:
  assumes "tab_of groups n tab" and "distinct (map grp_sig groups)" and "n < length groups" and "n < sz"
  shows "\<exists>tab'. hsearch_enter sz (grp_sig (groups ! n)) n tab = Some tab' \<and> tab_of groups (Suc n) tab'"
  using assms sig_new[OF assms(2,3)]
  by (auto simp: hsearch_enter_def tab_of_def linear_search_Suc split: option.splits)

lemma enter_groups_ok:
  assumes "tab_of groups a tab" and "distinct (map grp_sig groups)" and "a \<le> b" and "b \<le> length groups" and "b \<le> sz"
  shows "\<exists>tab'. enter_groups sz groups [a..<b] tab = Some tab' \<and> tab_of groups b tab'"
  using assms
proof (induction "b - a" arbitrary: a tab)
  case (Suc k)
  then have ab: "a < b" by simp
  then obtain t where t: "hsearch_enter sz (grp_sig (groups ! a)) a tab = Some t" "tab_of groups (Suc a) t"
    using enter_one[OF Suc.prems(1,2), of sz] Suc.prems by auto
  have "\<exists>tab'. enter_groups sz groups [Suc a..<b] t = Some tab' \<and> tab_of groups b tab'"
    using Suc.hyps(2) Suc.prems ab t(2) by (intro Suc.hyps(1)) simp_all
  then show ?case using t(1) ab by (simp add: upt_conv_Cons)
qed simp

text \<open>What a process knows of the groups it has taken over; its table is never more than 80% full.\<close>

definition indexed :: "stats_group list \<Rightarrow> stats_proc \<Rightarrow> bool" where
  "indexed groups p \<longleftrightarrow> distinct (map grp_sig groups) \<and> grpno p \<le> length groups \<and>
     0 < htab_size p \<and> grpno p * 100 \<le> htab_size p * 80 \<and>
     (\<exists>tab. htab p = Some tab \<and> tab_of groups (grpno p) tab)"

lemma indexed_init: "indexed [] init_stats_proc"
  by (simp add: indexed_def init_stats_proc_def GROUPS_HASHTABLE_SIZE_def)

lemma double_ok:
  assumes "distinct (map grp_sig groups)" and "grpno p \<le> length groups" and "grpno p \<le> 2 * htab_size p"
    and "htab p \<noteq> None"
  shows "\<exists>tab. stats_double_htable groups p = Inr (p\<lparr>htab_size := 2 * htab_size p, htab := Some tab\<rparr>) \<and>
    tab_of groups (grpno p) tab"
proof -
  obtain tab where "enter_groups (2 * htab_size p) groups [0..<grpno p] [] = Some tab" "tab_of groups (grpno p) tab"
    using enter_groups_ok[OF tab_of_Nil assms(1), of "grpno p" "2 * htab_size p"] assms(2,3) by auto
  then show ?thesis using assms(4) by (auto simp: stats_double_htable_def)
qed

lemma grow_ok:
  assumes "indexed groups p"
  shows "\<exists>p'. grow_htable groups n p = Inr p' \<and> indexed groups p' \<and> grpno p' = grpno p \<and> n * 100 \<le> htab_size p' * 80"
  using assms
proof (induction groups n p rule: grow_htable.induct)
  case (1 groups n p)
  show ?case
  proof (cases "n * 100 > htab_size p * 80")
    case False
    then show ?thesis using "1.prems" by (simp add: grow_htable.simps[of groups n p])
  next
    case True
    from "1.prems" have "distinct (map grp_sig groups)" "grpno p \<le> length groups" "grpno p \<le> 2 * htab_size p"
      "htab p \<noteq> None" "htab_size p \<noteq> 0" by (auto simp: indexed_def)
    then obtain tab where d: "stats_double_htable groups p = Inr (p\<lparr>htab_size := 2 * htab_size p, htab := Some tab\<rparr>)"
      "tab_of groups (grpno p) tab" using double_ok by blast
    let ?p = "p\<lparr>htab_size := 2 * htab_size p, htab := Some tab\<rparr>"
    have "indexed groups ?p" using "1.prems" d(2) by (simp add: indexed_def)
    then have "\<exists>p'. grow_htable groups n ?p = Inr p' \<and> indexed groups p' \<and> grpno p' = grpno ?p \<and> n * 100 \<le> htab_size p' * 80"
      using "1.IH" True \<open>htab_size p \<noteq> 0\<close> d(1) by blast
    then show ?thesis using True \<open>htab_size p \<noteq> 0\<close> d(1) by (simp add: grow_htable.simps[of groups n p])
  qed
qed

lemma remap_ok:
  assumes "indexed groups p"
  shows "\<exists>p'. remap_if_changed groups p = Inr p' \<and> indexed groups p' \<and> grpno p' = length groups"
proof (cases "length groups = grpno p")
  case True
  then show ?thesis using assms by (simp add: remap_if_changed_def)
next
  case False
  obtain p' where p': "grow_htable groups (length groups) p = Inr p'" "indexed groups p'" "grpno p' = grpno p"
    "length groups * 100 \<le> htab_size p' * 80" using grow_ok[OF assms] by blast
  obtain tab where tab: "htab p' = Some tab" "tab_of groups (grpno p) tab" using p'(2,3) by (auto simp: indexed_def)
  have d: "distinct (map grp_sig groups)" "grpno p \<le> length groups" "htab p \<noteq> None" using assms by (auto simp: indexed_def)
  obtain tab' where "enter_groups (htab_size p') groups [grpno p..<length groups] tab = Some tab'"
    "tab_of groups (length groups) tab'"
    using enter_groups_ok[OF tab(2) d(1,2), of "htab_size p'"] p'(4) by auto
  then show ?thesis
    using False p' tab(1) d by (simp add: remap_if_changed_def stats_remap_def indexed_def)
qed

lemma existing_is_linear:
  "indexed groups p \<Longrightarrow> stats_search_existing_group groups p key = linear_search groups (grpno p) key"
  by (auto simp: indexed_def stats_search_existing_group_def tab_of_def)

text \<open>Groups of the same signatures, with more of them at the end.\<close>

definition grown :: "stats_group list \<Rightarrow> stats_group list \<Rightarrow> bool" where
  "grown groups groups' \<longleftrightarrow> distinct (map grp_sig groups') \<and> length groups \<le> length groups' \<and>
     (\<forall>i<length groups. grp_sig (groups' ! i) = grp_sig (groups ! i))"

lemma indexed_grown: "indexed groups p \<Longrightarrow> grown groups groups' \<Longrightarrow> indexed groups' p"
proof -
  assume p: "indexed groups p" and g: "grown groups groups'"
  then have "linear_search groups' (grpno p) key = linear_search groups (grpno p) key" for key
    by (intro linear_search_cong) (simp add: indexed_def grown_def)
  then show ?thesis using p g by (auto simp: indexed_def grown_def tab_of_def)
qed

lemma search_group_ok:
  assumes "indexed groups p" and "grpno p = length groups" and "str2md5base64 md5 dest = Some key"
  shows "\<exists>i groups' p'. stats_search_group md5 st dest now (groups, p) = Inr (i, groups', p') \<and>
    grown groups groups' \<and> indexed groups' p' \<and> i < length groups' \<and>
    (case linear_search groups (length groups) key of
       Some j \<Rightarrow> i = j \<and> groups' = groups
     | None \<Rightarrow> i = length groups \<and> groups' = groups @ [new_group (st_archives st) key dest now])"
proof (cases "linear_search groups (length groups) key")
  case (Some i)
  then show ?thesis
    using assms linear_search_Some[OF Some]
    by (auto simp: stats_search_group_def existing_is_linear grown_def indexed_def)
next
  case None
  let ?g = "groups @ [new_group (st_archives st) key dest now]" and ?n = "length groups"
  let ?p = "p\<lparr>grpno := grpno p + 1\<rparr>"
  have new: "grp_sig (?g ! ?n) = key" by (simp add: new_group_def)
  have gr: "grown groups ?g"
    using None assms(1) by (auto simp: grown_def indexed_def nth_append linear_search_None new_group_def in_set_conv_nth)
  have d: "distinct (map grp_sig ?g)" using gr by (simp add: grown_def)
  have ip: "indexed ?g p" using indexed_grown[OF assms(1) gr] .
  obtain tab where tab: "htab p = Some tab" "tab_of ?g ?n tab" using ip assms(2) by (auto simp: indexed_def)
  have sz: "?n * 100 \<le> htab_size p * 80" "0 < htab_size p" using assms by (simp_all add: indexed_def)
  have search: "stats_search_existing_group groups p key = None" using existing_is_linear[OF assms(1)] assms(2) None by simp
  show ?thesis
  proof (cases "grpno ?p * 100 > htab_size ?p * 80")
    case False
    obtain t where "hsearch_enter (htab_size p) key ?n tab = Some t" "tab_of ?g (Suc ?n) t"
      using enter_one[OF tab(2) d, of "htab_size p"] sz new by auto
    then show ?thesis
      using False search assms gr d new tab(1) sz
      by (simp add: None stats_search_group_def Let_def indexed_def)
  next
    case True
    obtain t where t: "stats_double_htable ?g ?p = Inr (?p\<lparr>htab_size := 2 * htab_size ?p, htab := Some t\<rparr>)"
      "tab_of ?g (Suc ?n) t"
      using double_ok[OF d, of ?p] assms(2) sz tab(1) by auto
    have "map_of t key = Some ?n"
      using t(2) None new linear_search_cong[of ?n ?g groups key]
      by (simp add: tab_of_def linear_search_Suc nth_append new_group_def)
    then have "hsearch_enter (2 * htab_size p) key ?n t = Some t" by (simp add: hsearch_enter_def)
    moreover have "5 + 5 * ?n \<le> 8 * htab_size p" using sz by (cases "1 \<le> ?n") linarith+
    ultimately show ?thesis
      using True search assms gr d new tab(1) t sz
      by (simp add: None stats_search_group_def Let_def indexed_def)
  qed
qed

text \<open>
  What counting a job means for the common file alone: the group of its destination, found by
  a linear search or added at the end, gets the time.
\<close>

definition count_time :: "(int \<times> nat) list \<Rightarrow> int \<Rightarrow> stats_group \<Rightarrow> stats_group" where
  "count_time archives t g = (update_archives count_cell archives t g)\<lparr>last_update := t\<rparr>"

definition job_dest :: "edg_wll_JobStat \<Rightarrow> string option" where
  "job_dest js = (case destination js of Some d \<Rightarrow> if length d < STATS_DEST_SIZE then Some d else None | None \<Rightarrow> None)"

definition count_job :: "(string \<Rightarrow> 8 word list) \<Rightarrow> stats_def \<Rightarrow> edg_wll_JobStat \<Rightarrow> stats_group list \<Rightarrow> stats_group list" where
  "count_job md5 st js groups =
     (case job_dest js of
        None \<Rightarrow> groups
      | Some dest \<Rightarrow>
          let key = the (str2md5base64 md5 dest); now = tv_sec (stateEnterTime js)
          in case linear_search groups (length groups) key of
               Some i \<Rightarrow> groups[i := count_time (st_archives st) now (groups ! i)]
             | None \<Rightarrow> groups @ [count_time (st_archives st) now (new_group (st_archives st) key dest now)])"

lemma inc_counter_ok:
  assumes "indexed groups p" and "\<And>s. length (md5 s) = 16"
  shows "\<exists>groups' p'. stats_inc_counter md5 st js (groups, p) = Inr (groups', p') \<and>
    grown groups groups' \<and> indexed groups' p' \<and> groups' = count_job md5 st js groups"
proof (cases "destination js = None \<or> length (the (destination js)) \<ge> STATS_DEST_SIZE")
  case True
  then show ?thesis using assms(1) by (auto simp: stats_inc_counter_def grown_def indexed_def count_job_def job_dest_def split: option.splits)
next
  case False
  then obtain dest where dest: "destination js = Some dest" "\<not> length dest \<ge> STATS_DEST_SIZE" by auto
  obtain key where key: "str2md5base64 md5 dest = Some key" using str2md5base64_ok[of md5 dest] assms(2) by blast
  obtain p1 where p1: "remap_if_changed groups p = Inr p1" "indexed groups p1" "grpno p1 = length groups"
    using remap_ok[OF assms(1)] by blast
  let ?now = "tv_sec (stateEnterTime js)"
  obtain i groups2 p2 where s: "stats_search_group md5 st dest ?now (groups, p1) = Inr (i, groups2, p2)"
    "grown groups groups2" "indexed groups2 p2" "i < length groups2"
    and at: "case linear_search groups (length groups) key of Some j \<Rightarrow> i = j \<and> groups2 = groups
       | None \<Rightarrow> i = length groups \<and> groups2 = groups @ [new_group (st_archives st) key dest ?now]"
    using search_group_ok[OF p1(2,3) key] by blast
  let ?g = "(update_archives count_cell (st_archives st) ?now (groups2 ! i))\<lparr>last_update := ?now\<rparr>"
  have sig: "map grp_sig (groups2[i := ?g]) = map grp_sig groups2"
    using s(4) by (intro nth_equalityI) (auto simp: nth_list_update update_archives_def)
  then have "grp_sig (groups2[i := ?g] ! j) = grp_sig (groups2 ! j)" if "j < length groups2" for j
    using that by (metis length_list_update nth_map)
  then have "grown groups2 (groups2[i := ?g])" using s(3) sig by (simp add: grown_def indexed_def)
  moreover from this have "grown groups (groups2[i := ?g])" using s(2) by (auto simp: grown_def)
  moreover have "indexed (groups2[i := ?g]) p2" using indexed_grown[OF s(3)] calculation(1) by blast
  moreover have "groups2[i := ?g] = count_job md5 st js groups"
    using dest key at by (auto simp: count_job_def job_dest_def count_time_def Let_def split: option.splits)
  ultimately show ?thesis using dest p1(1) s(1) by (simp add: stats_inc_counter_def Let_def)
qed

text \<open>Several processes of the server counting jobs, in any order.\<close>

fun stats_run ::
  "(string \<Rightarrow> 8 word list) \<Rightarrow> stats_def \<Rightarrow> (nat \<times> edg_wll_JobStat) list \<Rightarrow> stats_group list \<times> stats_proc list \<Rightarrow>
   (stats_group list \<times> stats_proc list) res" where
  "stats_run md5 st [] s = Inr s"
| "stats_run md5 st ((k, js) # ops) s =
     rbind (if k < length (snd s)
            then rbind (stats_inc_counter md5 st js (fst s, snd s ! k)) (\<lambda>(groups, p). Inr (groups, (snd s)[k := p]))
            else Inr s) (stats_run md5 st ops)"

lemma stats_run_ok:
  assumes "list_all (indexed groups) ps" and "\<And>s. length (md5 s) = 16"
  shows "\<exists>groups' ps'. stats_run md5 st ops (groups, ps) = Inr (groups', ps') \<and> list_all (indexed groups') ps' \<and>
    length ps' = length ps \<and> (distinct (map grp_sig groups) \<longrightarrow> distinct (map grp_sig groups')) \<and>
    groups' = fold (\<lambda>(k, js). if k < length ps then count_job md5 st js else id) ops groups"
  using assms(1)
proof (induction ops arbitrary: groups ps)
  case (Cons op ops)
  obtain k js where op: "op = (k, js)" by (cases op)
  show ?case
  proof (cases "k < length ps")
    case False
    then show ?thesis using Cons op by simp
  next
    case True
    then have "indexed groups (ps ! k)" using Cons.prems by (simp add: list_all_length)
    then obtain groups1 p1 where s: "stats_inc_counter md5 st js (groups, ps ! k) = Inr (groups1, p1)"
      "grown groups groups1" "indexed groups1 p1" "groups1 = count_job md5 st js groups" using inc_counter_ok[where ?md5.0 = md5, OF _ assms(2)] by blast
    have "list_all (indexed groups1) (ps[k := p1])"
      using Cons.prems s(2,3) indexed_grown set_update_subset_insert[of ps k p1]
      unfolding list_all_iff by blast
    from Cons.IH[OF this] show ?thesis using True s(1,2,4) op by (auto simp: grown_def)
  qed
qed simp

text \<open>
  C33. The hash tables are right: however many processes of the server count jobs in the common
  file, in whatever order, none of them faults or gives its table up, no destination gets two groups,
  and when a process takes over the present size of the file it finds by its hash table exactly
  what a linear search through all groups would find.
\<close>

theorem stats_hash_agrees:
  assumes "\<And>s. length (md5 s) = 16"
  shows "\<exists>groups ps. stats_run md5 st ops ([], replicate n init_stats_proc) = Inr (groups, ps) \<and>
    distinct (map grp_sig groups) \<and> length ps = n \<and>
    (\<forall>p\<in>set ps. \<exists>p'. remap_if_changed groups p = Inr p' \<and>
      (\<forall>key. stats_search_existing_group groups p' key = linear_search groups (length groups) key))"
proof -
  have "list_all (indexed []) (replicate n init_stats_proc)" using indexed_init by (simp add: list_all_iff)
  then obtain groups ps where r: "stats_run md5 st ops ([], replicate n init_stats_proc) = Inr (groups, ps)"
    "list_all (indexed groups) ps" "length ps = n" "distinct (map grp_sig groups)"
    using stats_run_ok[where ?md5.0 = md5 and groups = "[]", OF _ assms] by force
  moreover have "\<exists>p'. remap_if_changed groups p = Inr p' \<and>
      (\<forall>key. stats_search_existing_group groups p' key = linear_search groups (length groups) key)"
    if "p \<in> set ps" for p
  proof -
    have "indexed groups p" using r(2) that by (simp add: list_all_iff)
    then obtain p' where "remap_if_changed groups p = Inr p'" "indexed groups p'" "grpno p' = length groups"
      using remap_ok by blast
    then show ?thesis using existing_is_linear by metis
  qed
  ultimately show ?thesis by blast
qed

theorem stats_hash_agrees_witness:
  "\<exists>groups ps. stats_run (\<lambda>_. replicate 16 0) (hd default_stats) [(0, edg_wll_InitStatus), (1, edg_wll_InitStatus)]
      ([], replicate 2 init_stats_proc) = Inr (groups, ps) \<and>
    distinct (map grp_sig groups) \<and> length ps = 2 \<and>
    (\<forall>p\<in>set ps. \<exists>p'. remap_if_changed groups p = Inr p' \<and>
      (\<forall>key. stats_search_existing_group groups p' key = linear_search groups (length groups) key))"
  by (rule stats_hash_agrees) simp

section \<open>An archive counts by intervals\<close>

text \<open>The cell that is \<open>k\<close> intervals old.\<close>

definition cell_at :: "stats_archive \<Rightarrow> nat \<Rightarrow> stats_cell" where
  "cell_at a k = cells a ! ((ptr a + length (cells a) - k) mod length (cells a))"

definition archive_ok :: "nat \<Rightarrow> stats_archive \<Rightarrow> bool" where
  "archive_ok n a \<longleftrightarrow> length (cells a) = n \<and> ptr a < n"

lemma next_cell_ok: "archive_ok n a \<Longrightarrow> archive_ok n (next_cell a)"
  by (auto simp: archive_ok_def next_cell_def Let_def)

lemma next_cell_ptr: "archive_ok n a \<Longrightarrow> ptr (next_cell a) = (ptr a + 1) mod n"
  by (auto simp: archive_ok_def next_cell_def Let_def)

lemma mod_shift: "k < n \<Longrightarrow> p < n \<Longrightarrow> ((p + 1) mod n + n - Suc k) mod n = (p + n - k) mod (n :: nat)"
proof -
  assume k: "k < n" and p: "p < n"
  show ?thesis
  proof (cases "p + 1 = n")
    case True
    then have "((p + 1) mod n + n - Suc k) = p - k" using k by simp
    moreover have "(p + n - k) mod n = (p - k + n) mod n" using True k by simp
    ultimately show ?thesis by simp
  next
    case False
    then have "(p + 1) mod n = p + 1" using p by simp
    then show ?thesis by simp
  qed
qed

lemma back_differs: "0 < k \<Longrightarrow> k < n \<Longrightarrow> q < n \<Longrightarrow> (q + n - k) mod n \<noteq> (q :: nat)"
proof (cases "k \<le> q")
  case True
  moreover assume "0 < k" "q < n"
  moreover have "(q + n - k) mod n = (q - k) mod n" using True by (simp flip: mod_add_self2[of "q - k" n])
  ultimately show ?thesis by simp
qed simp

lemma cell_at_next:
  assumes "archive_ok n a" and "k < n"
  shows "cnt (cell_at (next_cell a) k) = (if k = 0 then 0 else cnt (cell_at a (k - 1)))"
proof -
  define q where "q = (ptr a + 1) mod n"
  have q: "q < n" "length (cells a) = n" using assms by (simp_all add: archive_ok_def q_def)
  have cs: "cells (next_cell a) = (cells a)[q := (cells a ! q)\<lparr>cnt := 0\<rparr>]"
    using assms(1) by (auto simp: archive_ok_def next_cell_def Let_def q_def)
  have at: "cell_at (next_cell a) k = cells (next_cell a) ! ((q + n - k) mod n)"
    using next_cell_ptr[OF assms(1)] q by (simp add: cell_at_def cs q_def)
  show ?thesis
  proof (cases k)
    case 0
    then show ?thesis using at cs q by simp
  next
    case (Suc m)
    then have "(q + n - k) mod n = (ptr a + n - m) mod n"
      using mod_shift[of m n "ptr a"] assms by (simp add: archive_ok_def q_def)
    moreover have "(q + n - k) mod n \<noteq> q" using back_differs Suc assms(2) q(1) by simp
    ultimately show ?thesis using at cs q Suc by (simp add: cell_at_def)
  qed
qed

lemma cells_after_steps:
  assumes "archive_ok n a" and "k < n"
  shows "archive_ok n ((next_cell ^^ m) a) \<and>
    cnt (cell_at ((next_cell ^^ m) a) k) = (if k < m then 0 else cnt (cell_at a (k - m)))"
  using assms(2)
proof (induction m arbitrary: k)
  case (Suc m)
  have ok: "archive_ok n ((next_cell ^^ m) a)" using Suc.IH[OF Suc.prems] by simp
  have "cnt (cell_at ((next_cell ^^ Suc m) a) k) = (if k = 0 then 0 else cnt (cell_at ((next_cell ^^ m) a) (k - 1)))"
    using cell_at_next[OF ok Suc.prems] by simp
  also have "\<dots> = (if k < Suc m then 0 else cnt (cell_at a (k - Suc m)))"
    using Suc.IH[of "k - 1"] Suc.prems by (cases k) auto
  finally show ?case using next_cell_ok[OF ok] by simp
qed (simp add: assms(1))

text \<open>How often the loop goes on: for every beginning of an interval strictly before the time.\<close>

lemma interval_before:
  assumes "0 < (i :: int)"
  shows "i * q < now \<longleftrightarrow> q \<le> (now - 1) div i"
proof
  assume "i * q < now"
  then have "i * q div i \<le> (now - 1) div i" using assms by (intro zdiv_mono1) auto
  then show "q \<le> (now - 1) div i" using assms by simp
next
  assume "q \<le> (now - 1) div i"
  then have "i * q \<le> i * ((now - 1) div i)" using assms by simp
  also have "\<dots> \<le> now - 1"
    using pos_mod_sign[OF assms, of "now - 1"] by (simp add: minus_mod_eq_mult_div[symmetric])
  finally show "i * q < now" by simp
qed

lemma catch_up_steps:
  assumes "0 < i"
  shows "catch_up i now (i * q) a = (next_cell ^^ nat ((now - 1) div i - q + 1)) a"
proof (induction "nat ((now - 1) div i - q + 1)" arbitrary: q a)
  case 0
  then have "\<not> i * q < now" using interval_before[OF assms, of q now] by simp
  then show ?case using 0 by (simp add: catch_up.simps)
next
  case (Suc m)
  then have "i * q < now" using interval_before[OF assms, of q now] by simp
  then have "catch_up i now (i * q) a = catch_up i now (i * (q + 1)) (next_cell a)"
    using assms by (simp add: catch_up.simps[of i now "i * q"] algebra_simps)
  also have "\<dots> = (next_cell ^^ nat ((now - 1) div i - (q + 1) + 1)) (next_cell a)"
    using Suc.hyps(2) by (intro Suc.hyps(1)) simp
  also have "nat ((now - 1) div i - (q + 1) + 1) = m" using Suc.hyps(2) by simp
  finally show ?case unfolding Suc.hyps(2)[symmetric] by (simp add: funpow_swap1)
qed

text \<open>An archive last updated at \<open>t\<close> holds the counts \<open>h\<close> of the intervals of length \<open>i\<close>.\<close>

definition counts :: "int \<Rightarrow> stats_archive \<Rightarrow> int \<Rightarrow> (int \<Rightarrow> int) \<Rightarrow> bool" where
  "counts i a t h \<longleftrightarrow> (\<forall>k<length (cells a). max 0 (cnt (cell_at a k)) = h (t div i - int k))"

lemma smod_nonneg: "0 \<le> a \<Longrightarrow> 0 < b \<Longrightarrow> a smod b = a mod (b :: int)"
  by (cases "a = 0") (simp_all add: signed_modulo_int_def signed_divide_int_def minus_mult_div_eq_mod)

lemma on_cell_ok [simp]: "archive_ok n (on_cell f a) = archive_ok n a"
  by (simp add: on_cell_def archive_ok_def)

lemma cell_at_on_cell:
  "archive_ok n a \<Longrightarrow> k < n \<Longrightarrow> cell_at (on_cell f a) k = (if k = 0 then f (cell_at a 0) else cell_at a k)"
  using back_differs[of k n "ptr a"] by (auto simp: cell_at_def on_cell_def archive_ok_def)

lemma cnt_count_cell [simp]: "cnt (count_cell c) = max 0 (cnt c) + 1"
  by (simp add: count_cell_def)

lemma counts_on_cell:
  assumes "archive_ok n a" and "counts i a t h"
  shows "counts i (on_cell count_cell a) t (h(t div i := h (t div i) + 1))"
  unfolding counts_def
proof (intro allI impI)
  fix k assume "k < length (cells (on_cell count_cell a))"
  then have k: "k < n" "k < length (cells a)" using assms(1) by (simp_all add: on_cell_def archive_ok_def)
  have "max 0 (cnt (cell_at a k)) = h (t div i - int k)" using assms(2) k(2) by (simp add: counts_def)
  then show "max 0 (cnt (cell_at (on_cell count_cell a) k)) = (h(t div i := h (t div i) + 1)) (t div i - int k)"
    using cell_at_on_cell[OF assms(1) k(1)] by auto
qed

lemma counts_steps:
  assumes "archive_ok n a" and "counts i a t h" and "\<And>s. t div i < s \<Longrightarrow> h s = 0" and "t' div i = t div i + int m"
  shows "archive_ok n ((next_cell ^^ m) a)" and "counts i ((next_cell ^^ m) a) t' h"
proof -
  have n: "0 < n" using assms(1) by (simp add: archive_ok_def)
  show ok: "archive_ok n ((next_cell ^^ m) a)" using cells_after_steps[OF assms(1) n] by simp
  show "counts i ((next_cell ^^ m) a) t' h"
    unfolding counts_def
  proof (intro allI impI)
    fix k assume "k < length (cells ((next_cell ^^ m) a))"
    then have k: "k < n" using ok by (simp add: archive_ok_def)
    show "max 0 (cnt (cell_at ((next_cell ^^ m) a) k)) = h (t' div i - int k)"
    proof (cases "k < m")
      case True
      then show ?thesis using cells_after_steps[OF assms(1) k, of m] assms(3,4) by simp
    next
      case False
      then have e: "t div i - int (k - m) = t' div i - int k" using assms(4) by simp
      have "k - m < length (cells a)" using assms(1) k by (simp add: archive_ok_def)
      then have "max 0 (cnt (cell_at a (k - m))) = h (t div i - int (k - m))"
        using assms(2) unfolding counts_def by blast
      then show ?thesis using False cells_after_steps[OF assms(1) k, of m] unfolding e by simp
    qed
  qed
qed

lemma clear_cells:
  assumes "archive_ok n a" and "k < n"
  shows "archive_ok n (clear_archive a)" and "cnt (cell_at (clear_archive a) k) = 0"
  using assms by (simp_all add: clear_archive_def archive_ok_def cell_at_def)

lemma advance_counts:
  assumes i: "0 < i" and ok: "archive_ok n a" and t: "0 \<le> t" "t \<le> t'" "t' mod i \<noteq> 0 \<or> t' div i = t div i"
    and c: "counts i a t h" "\<And>s. t div i < s \<Longrightarrow> h s = 0"
  shows "archive_ok n (advance_archive i n t t' a)" and "counts i (advance_archive i n t t' a) t' h"
proof -
  have n: "0 < n" using ok by (simp add: archive_ok_def)
  have pt: "t - t smod i = i * (t div i)" using t i by (simp add: smod_nonneg minus_mod_eq_mult_div)
  have mono: "t div i \<le> t' div i" using t(2) i by (rule zdiv_mono1)
  have "archive_ok n (advance_archive i n t t' a) \<and> counts i (advance_archive i n t t' a) t' h"
  proof (cases "t' - i * (t div i) > i * int n")
    case True
    then have "i * (t div i + int n) < t'" by (simp add: algebra_simps)
    then have "i * (t div i + int n) div i \<le> t' div i" using i by (intro zdiv_mono1) auto
    then have s: "t div i + int n \<le> t' div i" using i by simp
    have "max 0 (cnt (cell_at (clear_archive a) k)) = h (t' div i - int k)" if "k < n" for k
      using clear_cells(2)[OF ok that] c(2)[of "t' div i - int k"] s that by simp
    then show ?thesis
      using True pt clear_cells(1)[OF ok n] by (simp add: advance_archive_def Let_def counts_def archive_ok_def)
  next
    case False
    have "(t' - 1) div i - (t div i + 1) + 1 = t' div i - t div i \<or> t' div i = t div i \<and> (t' - 1) div i \<le> t div i"
    proof (cases "t' mod i = 0")
      case True
      then show ?thesis using t(3) zdiv_mono1[of "t' - 1" t' i] i by auto
    next
      case False
      have "t' - 1 = i * (t' div i) + (t' mod i - 1)" by simp
      moreover have "0 \<le> t' mod i - 1" "t' mod i - 1 < i" using False pos_mod_bound[OF i, of t'] pos_mod_sign[OF i, of t'] by linarith+
      ultimately have "(t' - 1) div i = t' div i" using i by (metis add.commute div_mult_self2 div_pos_pos_trivial less_irrefl add_0)
      then show ?thesis by simp
    qed
    then have "nat ((t' - 1) div i - (t div i + 1) + 1) = nat (t' div i - t div i)" by auto
    then have "advance_archive i n t t' a = (next_cell ^^ nat (t' div i - t div i)) a"
      using False catch_up_steps[OF i, of t' "t div i + 1" a]
      unfolding advance_archive_def Let_def pt by (simp add: distrib_left)
    then show ?thesis using counts_steps[OF ok c, of t' "nat (t' div i - t div i)"] mono by simp
  qed
  then show "archive_ok n (advance_archive i n t t' a)" "counts i (advance_archive i n t t' a) t' h" by simp_all
qed

lemma count_time_simps:
  "length (archive g) = length archives \<Longrightarrow> j < length archives \<Longrightarrow> archives ! j = (i, n) \<Longrightarrow>
    archive (count_time archives t g) ! j = on_cell count_cell (advance_archive i n (last_update g) t (archive g ! j))"
  "length (archive (count_time archives t g)) = min (length archives) (length (archive g))"
  "last_update (count_time archives t g) = t"
  by (simp_all add: count_time_def update_archives_def)

definition per_interval :: "int \<Rightarrow> int list \<Rightarrow> int \<Rightarrow> int" where
  "per_interval i ts s = int (length (filter (\<lambda>t. t div i = s) ts))"

lemma per_interval_snoc: "per_interval i (ts @ [t]) = (per_interval i ts)(t div i := per_interval i ts (t div i) + 1)"
  by (auto simp: per_interval_def)

lemma sorted_ends: "sorted xs \<Longrightarrow> x \<in> set xs \<Longrightarrow> hd xs \<le> x \<and> x \<le> last xs" for x :: int
  by (induction xs) auto

lemma counts_events:
  fixes key dest :: string
  assumes "j < length archives" and "archives ! j = (i, n)" and "0 < i" and "0 < n"
    and "ts \<noteq> []" and "sorted ts" and "0 \<le> hd ts" and "\<forall>t\<in>set ts. t mod i \<noteq> 0"
  defines "g \<equiv> fold (count_time archives) ts (new_group archives key dest (hd ts))"
  shows "length (archive g) = length archives \<and> last_update g = last ts \<and>
    archive_ok n (archive g ! j) \<and> counts i (archive g ! j) (last ts) (per_interval i ts)"
  using assms(5-8) unfolding g_def
proof (induction ts rule: rev_induct)
  case (snoc t ts)
  let ?new = "new_group archives key dest (hd (ts @ [t]))"
  let ?g = "fold (count_time archives) ts ?new"
  let ?u = "if ts = [] then t else last ts"
  have first: "archive_ok n (archive ?new ! j)" "counts i (archive ?new ! j) t' (\<lambda>_. 0)" for t'
    using assms(1-4) by (auto simp: new_group_def archive_ok_def counts_def cell_at_def)
  have "length (archive ?g) = length archives \<and> last_update ?g = ?u \<and> archive_ok n (archive ?g ! j) \<and>
    counts i (archive ?g ! j) ?u (per_interval i ts)"
  proof (cases "ts = []")
    case True
    moreover have "per_interval i [] = (\<lambda>_. 0)" by (simp add: per_interval_def fun_eq_iff)
    ultimately show ?thesis using first by (simp add: new_group_def)
  next
    case False
    then show ?thesis using snoc.IH snoc.prems by (simp add: sorted_append)
  qed
  then have g: "length (archive ?g) = length archives" "last_update ?g = ?u" "archive_ok n (archive ?g ! j)"
    "counts i (archive ?g ! j) ?u (per_interval i ts)" by blast+
  have u: "0 \<le> ?u" "?u \<le> t" "t mod i \<noteq> 0"
    using snoc.prems sorted_ends[of ts "last ts"] by (cases "ts = []"; auto simp: sorted_append)+
  have none: "per_interval i ts s = 0" if "?u div i < s" for s
  proof -
    have "t' div i \<le> ?u div i" if "t' \<in> set ts" for t'
      using that snoc.prems(2) assms(3) sorted_ends[of ts t'] by (intro zdiv_mono1) (auto simp: sorted_append)
    then show ?thesis using that by (force simp: per_interval_def filter_empty_conv)
  qed
  note adv = advance_counts[OF assms(3) g(3) u(1,2) disjI1[OF u(3)] g(4) none]
  have "archive (count_time archives t ?g) ! j = on_cell count_cell (advance_archive i n ?u t (archive ?g ! j))"
    using count_time_simps(1)[OF g(1) assms(1,2)] by (simp only: g(2))
  moreover have "archive_ok n (on_cell count_cell (advance_archive i n ?u t (archive ?g ! j)))"
    using adv(1) by (simp add: archive_ok_def on_cell_def)
  moreover have "fold (count_time archives) (ts @ [t]) ?new = count_time archives t ?g" by simp
  ultimately show ?case
    using counts_on_cell[OF adv] g(1)
    by (simp only: count_time_simps(2,3) last_snoc per_interval_snoc min.idem simp_thms)
qed simp

lemma archive_histogram:
  assumes "j < length archives" and "archives ! j = (i, n)" and "0 < i" and "0 < n"
    and "ts \<noteq> []" and "sorted ts" and "0 \<le> hd ts" and "\<forall>t\<in>set ts. t mod i \<noteq> 0" and "k < n"
  shows "max 0 (cnt (cell_at (archive (fold (count_time archives) ts (new_group archives key dest (hd ts))) ! j) k)) =
    per_interval i ts (last ts div i - int k)"
  using counts_events[OF assms(1-8), of key dest] assms(9) by (simp add: counts_def archive_ok_def)

text \<open>The times at which jobs with a destination of the given digest entered the state.\<close>

definition times_of :: "(string \<Rightarrow> 8 word list) \<Rightarrow> string \<Rightarrow> edg_wll_JobStat list \<Rightarrow> int list" where
  "times_of md5 key jobs =
     map (\<lambda>js. tv_sec (stateEnterTime js))
       (filter (\<lambda>js. case job_dest js of Some d \<Rightarrow> str2md5base64 md5 d = Some key | None \<Rightarrow> False) jobs)"

lemma times_of_snoc:
  "times_of md5 key (jobs @ [js]) =
    times_of md5 key jobs @
    (case job_dest js of
       Some d \<Rightarrow> if str2md5base64 md5 d = Some key then [tv_sec (stateEnterTime js)] else []
     | None \<Rightarrow> [])"
  by (auto simp: times_of_def split: option.splits)

text \<open>Every group has seen exactly the jobs of its destination, and every destination has its group.\<close>

definition groups_of :: "(string \<Rightarrow> 8 word list) \<Rightarrow> (int \<times> nat) list \<Rightarrow> edg_wll_JobStat list \<Rightarrow> stats_group list \<Rightarrow> bool" where
  "groups_of md5 archives jobs groups \<longleftrightarrow>
     (\<forall>key. (times_of md5 key jobs \<noteq> []) = (key \<in> grp_sig ` set groups)) \<and>
     (\<forall>i<length groups. \<exists>dest. groups ! i = fold (count_time archives) (times_of md5 (grp_sig (groups ! i)) jobs)
        (new_group archives (grp_sig (groups ! i)) dest (hd (times_of md5 (grp_sig (groups ! i)) jobs))))"

lemma count_time_sig [simp]: "grp_sig (count_time archives t g) = grp_sig g"
  by (simp add: count_time_def update_archives_def)

lemma fold_count_sig [simp]: "grp_sig (fold (count_time archives) ts g) = grp_sig g"
  by (induction ts arbitrary: g) simp_all

lemma groups_of_count:
  assumes "groups_of md5 (st_archives st) jobs groups" and "distinct (map grp_sig groups)" and "\<And>s. length (md5 s) = 16"
  shows "groups_of md5 (st_archives st) (jobs @ [js]) (count_job md5 st js groups)"
proof (cases "job_dest js")
  case None
  then show ?thesis using assms(1) by (simp add: groups_of_def count_job_def times_of_snoc)
next
  case (Some d)
  obtain key where key: "str2md5base64 md5 d = Some key" using str2md5base64_ok[of md5 d] assms(3) by blast
  let ?t = "tv_sec (stateEnterTime js)" and ?ts = "\<lambda>k. times_of md5 k jobs"
  let ?new = "\<lambda>k. new_group (st_archives st) k"
  have ts: "times_of md5 k (jobs @ [js]) = ?ts k @ (if k = key then [?t] else [])" for k
    using Some key by (simp add: times_of_snoc)
  have old: "\<exists>dest. groups ! j = fold (count_time (st_archives st)) (times_of md5 (grp_sig (groups ! j)) (jobs @ [js]))
      (?new (grp_sig (groups ! j)) dest (hd (times_of md5 (grp_sig (groups ! j)) (jobs @ [js]))))"
    if "j < length groups" "grp_sig (groups ! j) \<noteq> key" for j
    using assms(1) that by (simp add: groups_of_def ts)
  have sigs: "(?ts k \<noteq> []) = (k \<in> set (map grp_sig groups))" for k
    using assms(1) by (simp add: groups_of_def)
  show ?thesis
  proof (cases "linear_search groups (length groups) key")
    case None
    then have fresh: "grp_sig (groups ! j) \<noteq> key" if "j < length groups" for j using that by (simp add: linear_search_None)
    then have none: "?ts key = []" using sigs[of key] by (metis in_set_conv_nth length_map nth_map)
    let ?g = "count_time (st_archives st) ?t (?new key d ?t)"
    have step: "count_job md5 st js groups = groups @ [?g]"
      using None Some key by (simp add: count_job_def Let_def)
    have "\<exists>dest. ?g = fold (count_time (st_archives st)) (times_of md5 key (jobs @ [js]))
      (?new key dest (hd (times_of md5 key (jobs @ [js]))))" using none by (auto simp: ts)
    moreover have "grp_sig ?g = key" by (simp add: new_group_def)
    ultimately show ?thesis
      unfolding groups_of_def step using sigs old fresh by (auto simp: nth_append less_Suc_eq ts)
  next
    case (Some i)
    then have i: "i < length groups" "grp_sig (groups ! i) = key" using linear_search_Some by blast+
    let ?g = "count_time (st_archives st) ?t (groups ! i)"
    have step: "count_job md5 st js groups = groups[i := ?g]"
      using Some \<open>job_dest js = Some d\<close> key by (simp add: count_job_def Let_def)
    have "map grp_sig (groups[i := ?g]) = map grp_sig groups"
      using i by (intro nth_equalityI) (auto simp: nth_list_update)
    then have "grp_sig ` set (groups[i := ?g]) = set (map grp_sig groups)" by (metis list.set_map)
    moreover have "grp_sig (groups ! j) \<noteq> key" if "j < length groups" "j \<noteq> i" for j
      using assms(2) i that by (auto simp: distinct_conv_nth)
    moreover have "\<exists>dest. ?g = fold (count_time (st_archives st)) (times_of md5 key (jobs @ [js]))
      (?new key dest (hd (times_of md5 key (jobs @ [js]))))"
      using assms(1) i sigs[of key] unfolding groups_of_def ts by (fastforce simp: in_set_conv_nth)
    moreover have "(times_of md5 k (jobs @ [js]) \<noteq> []) = (k \<in> set (map grp_sig groups))" for k
      using sigs[of k] i by (auto simp: ts)
    ultimately show ?thesis
      unfolding groups_of_def step using old i by (auto simp: nth_list_update)
  qed
qed

lemma groups_of_run:
  assumes "list_all (indexed groups) ps" and "\<And>s. length (md5 s) = 16" and "\<forall>op\<in>set ops. fst op < length ps"
    and "distinct (map grp_sig groups)" and "groups_of md5 (st_archives st) jobs groups"
  shows "\<exists>groups' ps'. stats_run md5 st ops (groups, ps) = Inr (groups', ps') \<and>
    groups_of md5 (st_archives st) (jobs @ map snd ops) groups'"
  using assms(1,3-)
proof (induction ops arbitrary: groups ps jobs)
  case (Cons op ops)
  obtain k js where op: "op = (k, js)" by (cases op)
  have k: "k < length ps" using Cons.prems(2) op by simp
  then have "indexed groups (ps ! k)" using Cons.prems(1) by (simp add: list_all_length)
  then obtain groups1 p1 where s: "stats_inc_counter md5 st js (groups, ps ! k) = Inr (groups1, p1)"
    "grown groups groups1" "indexed groups1 p1" "groups1 = count_job md5 st js groups"
    using inc_counter_ok[where ?md5.0 = md5, OF _ assms(2)] by blast
  have "list_all (indexed groups1) (ps[k := p1])"
    using Cons.prems(1) s(2,3) indexed_grown set_update_subset_insert[of ps k p1]
    unfolding list_all_iff by blast
  moreover have "groups_of md5 (st_archives st) (jobs @ [js]) groups1"
    using groups_of_count[where ?md5.0 = md5, OF Cons.prems(4,3) assms(2)] s(4) by simp
  ultimately show ?case
    using Cons.IH[of groups1 "ps[k := p1]" "jobs @ [js]"] Cons.prems(2) k s(1,2) op by (simp add: grown_def)
qed simp

text \<open>A job that entered its state at the given time, for examples.\<close>

definition ex_job :: "int \<Rightarrow> edg_wll_JobStat" where
  "ex_job t = edg_wll_InitStatus\<lparr>destination := Some ''ce'', stateEnterTime := \<lparr>tv_sec = t, tv_usec = 0\<rparr>\<rparr>"



text \<open>
  A job that enters the state exactly at the beginning of the next interval is counted in the
  interval before, and from then on all counts are taken for those of one interval later than
  they are: the pointer is not moved on, but the time of the last update is.
\<close>

theorem boundary_shifts_history:
  assumes "0 < i" and "archive_ok n a" and "0 \<le> t" and "t' = i * (t div i + 1)" and "counts i a t h"
  shows "counts i (on_cell count_cell (advance_archive i n t t' a)) t' (\<lambda>s. h (s - 1) + (if s = t' div i then 1 else 0))"
proof -
  have n: "0 < n" using assms(2) by (simp add: archive_ok_def)
  have pt: "t - t smod i = i * (t div i)" using assms by (simp add: smod_nonneg minus_mod_eq_mult_div)
  have "t' - i * (t div i) = i" using assms(4) by (simp add: distrib_left)
  then have "\<not> t' - i * (t div i) > i * int n" using n assms(1) by (simp add: mult_le_cancel_left1)
  then have adv: "advance_archive i n t t' a = a"
    using assms(4) unfolding advance_archive_def Let_def pt by (simp add: catch_up.simps distrib_left)
  have s: "t' div i = t div i + 1" using assms(1,4) by simp
  have "counts i a t' (\<lambda>s. h (s - 1))"
    using assms(5) by (simp add: counts_def s algebra_simps)
  from counts_on_cell[OF assms(2) this] show ?thesis
    unfolding adv by (rule back_subst[of "counts i (on_cell count_cell a) t'"]) auto
qed

theorem boundary_shifts_history_witness:
  "counts 10 (on_cell count_cell (advance_archive 10 2 15 20 \<lparr>ptr = 0, cells = replicate 2 \<lparr>cnt = 3, cell_value = 0, cell_value2 = 0\<rparr>\<rparr>))
     20 (\<lambda>s. 3 + (if s = 2 then 1 else 0))"
  using boundary_shifts_history[of 10 2 "\<lparr>ptr = 0, cells = replicate 2 \<lparr>cnt = 3, cell_value = 0, cell_value2 = 0\<rparr>\<rparr>" 15 20 "\<lambda>_. 3"]
  by (simp add: archive_ok_def counts_def cell_at_def nth_append)

section \<open>Queries\<close>

text \<open>The common part of the interval of a query and of a cell.\<close>

definition common :: "int \<Rightarrow> int \<Rightarrow> int \<Rightarrow> int \<Rightarrow> int" where
  "common from to afrom i = max 0 (min to (afrom + i) - max from afrom)"

text \<open>
  The part of a cell that a query takes is the common part of the two intervals, with one
  exception: in the cell where the query ends, unless it begins there too, it is the rest of the
  cell behind the end of the query.
\<close>

theorem overlap_wrong_at_end:
  assumes "from \<le> to" and "0 < i"
  shows "overlap from to afrom i =
    (if from < afrom \<and> afrom \<le> to \<and> to < afrom + i then i - common from to afrom i else common from to afrom i)"
  using assms by (auto simp: overlap_def common_def)

theorem overlap_wrong_at_end_witness:
  "overlap 0 21 20 10 = 9 \<and> common 0 21 20 10 = 1"
  using overlap_wrong_at_end[of 0 21 10 20] by (simp add: common_def)

text \<open>
  No query reaches the durations from scheduled to running and from running to done: a
  statistics that counts the jobs which enter the base state comes first and is taken, so the answer
  is computed from counters that never hold a duration.
\<close>

theorem durations_unreachable:
  assumes "findStat cs allowed by_destination base final mnr from to = Inr (Inr k)"
  shows "k < length default_stats \<and> k \<notin> {10, 11, 12} \<and>
    (base \<in> {EDG_WLL_JOB_READY, EDG_WLL_JOB_SCHEDULED, EDG_WLL_JOB_RUNNING} \<longrightarrow> st_type (default_stats ! k) = STATS_COUNT)"
proof -
  have "find (\<lambda>i. stat_matches base final mnr (default_stats ! i)) [0..<length default_stats] = Some k"
    using assms by (auto simp: findStat_def split: if_splits option.splits)
  then have k: "k < length default_stats" "stat_matches base final mnr (default_stats ! k)"
    and first: "\<And>j. j < k \<Longrightarrow> \<not> stat_matches base final mnr (default_stats ! j)"
    by (auto simp: find_Some_iff)
  have counted: "j \<in> {0, 1, 2} \<Longrightarrow> base_state (default_stats ! j) = base \<Longrightarrow> stat_matches base final mnr (default_stats ! j)" for j
    by (auto simp: stat_matches_def default_stats_def stat_def)
  have late: "\<exists>j<k. j \<in> {0, 1, 2} \<and> base_state (default_stats ! j) = b"
    if "k \<ge> 3" "b \<in> {EDG_WLL_JOB_READY, EDG_WLL_JOB_SCHEDULED, EDG_WLL_JOB_RUNNING}" for b
    using that by (auto simp: default_stats_def stat_def intro: exI[of _ 0] exI[of _ 1] exI[of _ 2])
  have "k < 3" if "base \<in> {EDG_WLL_JOB_READY, EDG_WLL_JOB_SCHEDULED, EDG_WLL_JOB_RUNNING}"
    using late[OF _ that] first counted by (meson not_le)
  moreover have "base \<in> {EDG_WLL_JOB_READY, EDG_WLL_JOB_SCHEDULED, EDG_WLL_JOB_RUNNING}" if "k \<in> {10, 11, 12}"
    using k(2) that by (auto simp: stat_matches_def default_stats_def stat_def)
  moreover have "st_type (default_stats ! k) = STATS_COUNT" if "k < 3"
    using that by (auto simp: default_stats_def stat_def numeral_3_eq_3 less_Suc_eq)
  ultimately show ?thesis using k(1) by auto
qed

theorem durations_unreachable_witness:
  "findStat 2 True True EDG_WLL_JOB_RUNNING EDG_WLL_JOB_DONE EDG_WLL_STAT_OK 0 100 = Inr (Inr 2) \<and>
   st_type (default_stats ! 2) = STATS_COUNT"
proof -
  have "findStat 2 True True EDG_WLL_JOB_RUNNING EDG_WLL_JOB_DONE EDG_WLL_STAT_OK 0 100 = Inr (Inr 2)"
    by (simp add: findStat_def default_stats_def stat_def stat_matches_def upt_conv_Cons)
  then show ?thesis using durations_unreachable by blast
qed

end
