(* ===== verification/LB_Authz.thy ===== *)
theory LB_Authz
  imports LB_Types LB_Branch
begin

text \<open>
  Authorization of the bookkeeping server (\<^verbatim>\<open>org.glite.lb.server/src/authz_policy.c\<close> and the
  decisions of \<^verbatim>\<open>lb_authz.c\<close>): the policy with its actions, rules and attributes, who may see the
  status of a job and in which form, and the hiding of fields.

  Access control lists are evaluated by the GACL library: the argument \<open>test_user\<close> gives the permissions a list
  grants to the credentials of a user. Job descriptions are parsed, evaluated and printed by the
  ClassAd library: \<open>ad_ok\<close>, \<open>jdl_attr\<close> and \<open>unparse_ad\<close>. The salted digest is \<open>sha\<close>.
\<close>

section \<open>The policy\<close>

datatype authz_action =
    ACTION_UNDEF | ADMIN_ACCESS | STATUS_FOR_MONITORING | LOG_WMS_EVENTS | LOG_CE_EVENTS | LOG_GENERAL_EVENTS
  | GET_STATISTICS | REGISTER_JOBS | READ_ALL | PURGE | GRANT_OWNERSHIP | READ_ANONYMIZED | REGISTER_FOREIGN

datatype authz_attr_id = AUTHZ_ATTR_UNDEF | AUTHZ_ATTR_SUBJECT | AUTHZ_ATTR_FQAN

text \<open>An attribute of a rule is its kind and its value, a rule the list of its attributes.\<close>

type_synonym authz_rule = "(authz_attr_id \<times> string) list"
type_synonym authz_policy = "(authz_action \<times> authz_rule list) list"

record principal =
  pr_name :: cstr
  pr_fqans :: "string list"

definition action_names :: "(authz_action \<times> string) list" where
  "action_names =
    [(ADMIN_ACCESS, ''ADMIN_ACCESS''), (STATUS_FOR_MONITORING, ''STATUS_FOR_MONITORING''), (LOG_WMS_EVENTS, ''LOG_WMS_EVENTS''),
     (LOG_CE_EVENTS, ''LOG_CE_EVENTS''), (LOG_GENERAL_EVENTS, ''LOG_GENERAL_EVENTS''), (GET_STATISTICS, ''GET_STATISTICS''),
     (REGISTER_JOBS, ''REGISTER_JOBS''), (READ_ALL, ''READ_ALL''), (PURGE, ''PURGE''), (GRANT_OWNERSHIP, ''GRANT_OWNERSHIP''),
     (READ_ANONYMIZED, ''READ_ANONYMIZED''), (REGISTER_FOREIGN, ''REGISTER_FOREIGN'')]"

definition attr_id_names :: "(authz_attr_id \<times> string) list" where
  "attr_id_names = [(AUTHZ_ATTR_SUBJECT, ''subject''), (AUTHZ_ATTR_FQAN, ''fqan'')]"

definition find_authz_action :: "string \<Rightarrow> authz_action" where
  "find_authz_action name = (case find (\<lambda>(_, n). n = name) action_names of Some (a, _) \<Rightarrow> a | None \<Rightarrow> ACTION_UNDEF)"

definition action2name :: "authz_action \<Rightarrow> cstr" where
  "action2name a = map_option snd (find (\<lambda>(b, _). b = a) action_names)"

definition find_authz_attr :: "string \<Rightarrow> authz_attr_id" where
  "find_authz_attr name = (case find (\<lambda>(_, n). n = name) attr_id_names of Some (a, _) \<Rightarrow> a | None \<Rightarrow> AUTHZ_ATTR_UNDEF)"

definition check_attr :: "principal \<Rightarrow> authz_attr_id \<times> string \<Rightarrow> bool" where
  "check_attr pr a =
     (snd a = ''.*'' \<or>
      (case fst a of
         AUTHZ_ATTR_SUBJECT \<Rightarrow> edg_wll_gss_equal_subj (Some (snd a)) (pr_name pr)
       | AUTHZ_ATTR_FQAN \<Rightarrow> list_ex (\<lambda>f. snd a = f) (pr_fqans pr)
       | AUTHZ_ATTR_UNDEF \<Rightarrow> False))"

definition check_rule :: "authz_rule \<Rightarrow> principal \<Rightarrow> bool" where
  "check_rule rule pr \<longleftrightarrow> rule \<noteq> [] \<and> list_all (check_attr pr) rule"

definition check_authz_policy :: "authz_policy option \<Rightarrow> principal \<Rightarrow> authz_action \<Rightarrow> bool" where
  "check_authz_policy policy pr action =
     (case policy of
        None \<Rightarrow> False
      | Some actions \<Rightarrow>
          (case find (\<lambda>(a, _). a = action) actions of
             None \<Rightarrow> False
           | Some (_, rules) \<Rightarrow> list_ex (\<lambda>r. check_rule r pr) rules))"

text \<open>The part of the context that authorization reads.\<close>

record authz_context =
  noAuth :: bool
  ctx_peer :: principal
  ctx_policy :: authz_policy
  id_mapping :: "(string \<times> string) list"

definition check_authz_policy_ctx :: "authz_context \<Rightarrow> authz_action \<Rightarrow> bool" where
  "check_authz_policy_ctx ctx action = check_authz_policy (Some (ctx_policy ctx)) (ctx_peer ctx) action"

definition edg_wll_amIroot :: "cstr \<Rightarrow> string list \<Rightarrow> authz_policy \<Rightarrow> bool" where
  "edg_wll_amIroot subj fqans policy = check_authz_policy (Some policy) \<lparr>pr_name = subj, pr_fqans = fqans\<rparr> ADMIN_ACCESS"

section \<open>Storing events\<close>

definition store_action :: "event_body \<Rightarrow> authz_action" where
  "store_action b =
     (case b of
        EvGlite g \<Rightarrow>
          (case g of
             EvRegJob _ _ _ _ _ _ _ \<Rightarrow> REGISTER_JOBS
           | EvGrantPayloadOwnership _ \<Rightarrow> GRANT_OWNERSHIP
           | EvCurDescr _ \<Rightarrow> LOG_GENERAL_EVENTS
           | EvUserTag _ _ \<Rightarrow> LOG_GENERAL_EVENTS
           | EvChangeACL _ _ _ _ _ \<Rightarrow> LOG_GENERAL_EVENTS
           | EvRunning _ \<Rightarrow> LOG_CE_EVENTS
           | EvReallyRunning _ \<Rightarrow> LOG_CE_EVENTS
           | EvDone _ _ _ \<Rightarrow> LOG_CE_EVENTS
           | _ \<Rightarrow> LOG_WMS_EVENTS)
      | _ \<Rightarrow> LOG_WMS_EVENTS)"

text \<open>\<open>lcas\<close> is the answer of the local authorization service, if it is asked.\<close>

definition check_store_authz :: "authz_context \<Rightarrow> (string \<Rightarrow> bool) option \<Rightarrow> bool \<Rightarrow> event_body \<Rightarrow> bool" where
  "check_store_authz ctx lcas policy_file ev =
     (let action = store_action ev in
      if (case lcas of None \<Rightarrow> True | Some ask \<Rightarrow> (case action2name action of None \<Rightarrow> False | Some n \<Rightarrow> ask n))
      then \<not> policy_file \<or> check_authz_policy_ctx ctx action
      else False)"

section \<open>Access control lists\<close>

datatype gacl_cred = Cred_person string | Cred_voms string

datatype acl_permission = CHANGEACL_UNDEFINED | CHANGEACL_READ | CHANGEACL_TAG

text \<open>Permissions of GACL are sets of bits.\<close>

datatype gacl_perm = GRST_PERM_READ | GRST_PERM_WRITE

definition perm_lb2gacl :: "acl_permission \<Rightarrow> gacl_perm set" where
  "perm_lb2gacl p = (case p of CHANGEACL_READ \<Rightarrow> {GRST_PERM_READ} | CHANGEACL_TAG \<Rightarrow> {GRST_PERM_WRITE} | _ \<Rightarrow> {})"

definition parse_creds :: "string list \<Rightarrow> string list \<Rightarrow> string \<Rightarrow> gacl_cred list" where
  "parse_creds groups fqans subject = Cred_person subject # map Cred_voms groups @ map Cred_voms fqans"

datatype acl_error = Acl_EINVAL | Acl_EPERM

definition edg_wll_CheckACL_princ ::
  "('acl \<Rightarrow> gacl_cred list \<Rightarrow> gacl_perm set) \<Rightarrow> 'acl option \<Rightarrow> acl_permission \<Rightarrow> principal option \<Rightarrow> acl_error option" where
  "edg_wll_CheckACL_princ test_user al requested pr =
     (case al of
        None \<Rightarrow> Some Acl_EINVAL
      | Some a \<Rightarrow>
          (case pr of
             None \<Rightarrow> Some Acl_EPERM
           | Some p \<Rightarrow>
               (case pr_name p of
                  None \<Rightarrow> Some Acl_EPERM
                | Some subject \<Rightarrow>
                    if test_user a (parse_creds [] (pr_fqans p) subject) \<inter> perm_lb2gacl requested \<noteq> {} then None
                    else Some Acl_EPERM)))"

section \<open>Who may see the status of a job\<close>

definition equal_mapped :: "cstr \<Rightarrow> cstr \<Rightarrow> (string \<times> string) list \<Rightarrow> bool" where
  "equal_mapped a b mapping =
     list_ex (\<lambda>(ra, rb).
       edg_wll_gss_equal_subj a (Some ra) \<and> edg_wll_gss_equal_subj b (Some rb) \<or>
       edg_wll_gss_equal_subj a (Some rb) \<and> edg_wll_gss_equal_subj b (Some ra)) mapping"

text \<open>The two bits of \<^verbatim>\<open>authz_flags\<close> that are used.\<close>

record authz_flags =
  fl_anonymized :: bool
  fl_monitoring :: bool

definition check_jobstat_authz ::
  "('acl \<Rightarrow> gacl_cred list \<Rightarrow> gacl_perm set) \<Rightarrow> authz_context \<Rightarrow> edg_wll_JobStat \<Rightarrow> bool \<Rightarrow> 'acl option \<Rightarrow>
   principal option \<Rightarrow> bool \<times> authz_flags" where
  "check_jobstat_authz test_user ctx stat anonymize al peer =
     (let fl = \<lparr>fl_anonymized = anonymize, fl_monitoring = False\<rparr> in
      if noAuth ctx then (True, fl)
      else
        case peer of
          None \<Rightarrow> (False, fl)
        | Some p \<Rightarrow>
            if pr_name p = None then (False, fl)
            else if edg_wll_gss_equal_subj (pr_name p) (owner stat) then (True, fl)
            else if equal_mapped (pr_name p) (owner stat) (id_mapping ctx) then (True, fl)
            else if payload_owner stat \<noteq> None \<and> edg_wll_gss_equal_subj (pr_name p) (payload_owner stat) then (True, fl)
            else if edg_wll_amIroot (pr_name p) (pr_fqans p) (ctx_policy ctx) then (True, fl)
            else if al \<noteq> None \<and> edg_wll_CheckACL_princ test_user al CHANGEACL_READ peer = None then (True, fl)
            else if check_authz_policy (Some (ctx_policy ctx)) p READ_ALL then (True, fl)
            else if \<not> fl_anonymized fl \<and> check_authz_policy (Some (ctx_policy ctx)) p READ_ANONYMIZED
              then (True, fl\<lparr>fl_anonymized := True\<rparr>)
            else if check_authz_policy (Some (ctx_policy ctx)) p STATUS_FOR_MONITORING
              then (True, fl\<lparr>fl_monitoring := True\<rparr>)
            else (False, fl))"

section \<open>Hiding fields\<close>

definition allowed_jdl_fields :: "string list" where
  "allowed_jdl_fields = [''VirtualOrganisation'', ''JobType'', ''Type'']"

definition jdl_allowed ::
  "(string \<Rightarrow> bool) \<Rightarrow> (string \<Rightarrow> string \<Rightarrow> cstr) \<Rightarrow> ((string \<times> string) list \<Rightarrow> string) \<Rightarrow> cstr \<Rightarrow> cstr" where
  "jdl_allowed ad_ok jdl_attr unparse_ad j =
     (case j of
        None \<Rightarrow> None
      | Some ad \<Rightarrow>
          if ad_ok ad then
            Some (unparse_ad (concat (map (\<lambda>f. case jdl_attr ad f of None \<Rightarrow> [] | Some v \<Rightarrow> [(f, v)]) allowed_jdl_fields)))
          else None)"

text \<open>The array of enter times holds the number of its elements in front of them.\<close>

definition copy_times :: "int list option \<Rightarrow> int list option res" where
  "copy_times ts =
     (case ts of
        None \<Rightarrow> Inr None
      | Some xs \<Rightarrow>
          if xs \<noteq> [] \<and> 0 \<le> 1 + hd xs \<and> 1 + hd xs \<le> int (length xs) then Inr (Some (take (nat (1 + hd xs)) xs))
          else Inl Out_of_bounds)"

definition blacken_fields ::
  "(string \<Rightarrow> bool) \<Rightarrow> (string \<Rightarrow> string \<Rightarrow> cstr) \<Rightarrow> ((string \<times> string) list \<Rightarrow> string) \<Rightarrow> edg_wll_JobStat \<Rightarrow>
   authz_flags \<Rightarrow> edg_wll_JobStat res" where
  "blacken_fields ad_ok jdl_attr unparse_ad stat fl =
     (if fl_monitoring fl then
        rbind (copy_times (stateEnterTimes stat)) (\<lambda>times.
        Inr (edg_wll_InitStatus\<lparr>state := state stat, jobId := jobId stat, jdl := jdl_allowed ad_ok jdl_attr unparse_ad (jdl stat),
          jobtype := jobtype stat, destination := destination stat, network_server := network_server stat,
          stateEnterTime := stateEnterTime stat, lastUpdateTime := lastUpdateTime stat, stateEnterTimes := times,
          ui_host := ui_host stat\<rparr>))
      else Inr edg_wll_InitStatus)"

text \<open>
  The salt of the server: found, not there yet, or not readable. A digest takes a null
  pointer for the text \<^verbatim>\<open>(null)\<close>.
\<close>

datatype salt_state = Salt string | No_salt | Salt_error

definition get_salt :: "string option \<Rightarrow> salt_state \<Rightarrow> string option" where
  "get_salt fresh st = (case st of Salt s \<Rightarrow> Some s | No_salt \<Rightarrow> fresh | Salt_error \<Rightarrow> None)"

definition digest :: "(string \<Rightarrow> string \<Rightarrow> string) \<Rightarrow> string \<Rightarrow> cstr \<Rightarrow> string" where
  "digest sha salt s = sha (case s of None \<Rightarrow> ''(null)'' | Some t \<Rightarrow> t) salt"

text \<open>Whether the call succeeded, and the status after it.\<close>

definition anonymize_stat ::
  "(string \<Rightarrow> string \<Rightarrow> string) \<Rightarrow> string option \<Rightarrow> salt_state \<Rightarrow> edg_wll_JobStat \<Rightarrow> bool \<times> edg_wll_JobStat" where
  "anonymize_stat sha fresh st stat =
     (case get_salt fresh st of
        None \<Rightarrow> (False, stat)
      | Some salt \<Rightarrow>
          (True, stat\<lparr>owner := Some (digest sha salt (owner stat)),
                      payload_owner := map_option (\<lambda>p. digest sha salt (Some p)) (payload_owner stat)\<rparr>))"

end
