(* ===== verification/LB_Query.thy ===== *)
theory LB_Query
  imports LB_Types LB_Branch
begin

text \<open>
  Conditions of queries and notifications and how the bookkeeping server evaluates them
  (\<^verbatim>\<open>org.glite.lb.server/src/query.c\<close>). A query is a conjunction of clauses, each of them a
  disjunction of conditions. An array that ends with an element of attribute 0 is the list of the elements
  before it, an array that ends with a null pointer is the list of the pointers before it.

  A union is a record of its members; the attribute determines the one that is read. The
  value of an attribute of a job description, which the ClassAd library evaluates, is the argument
  \<open>jdl_attr\<close>: the value of an attribute in a text, if the text can be parsed and has the attribute.
\<close>

section \<open>Data\<close>

datatype edg_wll_QueryAttr =
    ATTR_JOBID | ATTR_OWNER | ATTR_STATUS | ATTR_LOCATION | ATTR_DESTINATION | ATTR_DONECODE
  | ATTR_USERTAG | ATTR_TIME | ATTR_LEVEL | ATTR_HOST | ATTR_SOURCE | ATTR_INSTANCE
  | ATTR_EVENT_TYPE | ATTR_CHKPT_TAG | ATTR_RESUBMITTED | ATTR_PARENT | ATTR_EXITCODE
  | ATTR_JDL_ATTR | ATTR_STATEENTERTIME | ATTR_LASTUPDATETIME | ATTR_NETWORK_SERVER
  | ATTR_JOB_TYPE | ATTR_VM_STATUS

datatype edg_wll_QueryOp = OP_EQUAL | OP_LESS | OP_GREATER | OP_WITHIN | OP_UNEQUAL | OP_CHANGED

record edg_wll_QueryVal =
  qv_i :: int
  qv_c :: cstr
  qv_t :: timeval
  qv_j :: "glite_jobid option"

record edg_wll_QueryRec =
  q_attr :: edg_wll_QueryAttr
  q_op :: edg_wll_QueryOp
  id_tag :: cstr
  id_state :: int
  q_value :: edg_wll_QueryVal
  q_value2 :: edg_wll_QueryVal

type_synonym conditions = "edg_wll_QueryRec list list"

section \<open>Conditions on the status of a job\<close>

text \<open>
  The comparison of numbers by all operators, of the value of a condition with that of the
  status; \<open>old\<close> is the value of the previous status.
\<close>

fun num_op :: "edg_wll_QueryOp \<Rightarrow> int \<Rightarrow> int \<Rightarrow> int \<Rightarrow> int \<Rightarrow> bool" where
  "num_op OP_EQUAL v v2 x old = (v = x)"
| "num_op OP_UNEQUAL v v2 x old = (v \<noteq> x)"
| "num_op OP_LESS v v2 x old = (v > x)"
| "num_op OP_GREATER v v2 x old = (v < x)"
| "num_op OP_WITHIN v v2 x old = (v \<le> x \<and> v2 \<ge> x)"
| "num_op OP_CHANGED v v2 x old = (old \<noteq> x)"

text \<open>Where only equality can be asked for.\<close>

fun eq_op :: "edg_wll_QueryOp \<Rightarrow> bool \<Rightarrow> bool" where
  "eq_op OP_EQUAL e = e"
| "eq_op OP_UNEQUAL e = (\<not> e)"
| "eq_op _ e = False"

definition match_location :: "edg_wll_JobStat option \<Rightarrow> edg_wll_JobStat \<Rightarrow> edg_wll_QueryRec \<Rightarrow> bool res" where
  "match_location old stat c =
     (case location stat of
        None \<Rightarrow> Inr False
      | Some l \<Rightarrow>
          rbind (deref (qv_c (q_value c))) (\<lambda>v.
          let tmp = strcmp v l in
          case q_op c of
            OP_EQUAL \<Rightarrow> Inr (tmp = 0)
          | OP_UNEQUAL \<Rightarrow> Inr (tmp \<noteq> 0)
          | OP_LESS \<Rightarrow> Inr (tmp < 0)
          | OP_GREATER \<Rightarrow> Inr (tmp > 0)
          | OP_WITHIN \<Rightarrow>
              if tmp \<le> 0 then rbind (deref (qv_c (q_value2 c))) (\<lambda>v2. Inr (strcmp v2 l \<ge> 0)) else Inr False
          | OP_CHANGED \<Rightarrow> rbind (deref (Option.bind old location)) (\<lambda>ol. Inr (strcmp ol l \<noteq> 0))))"

definition match_text :: "cstr \<Rightarrow> edg_wll_QueryRec \<Rightarrow> bool res" where
  "match_text x c =
     (case x of
        None \<Rightarrow> Inr False
      | Some s \<Rightarrow> rbind (deref (qv_c (q_value c))) (\<lambda>v. Inr (eq_op (q_op c) (v = s))))"

definition match_owner :: "cstr \<Rightarrow> edg_wll_JobStat \<Rightarrow> edg_wll_QueryRec \<Rightarrow> bool" where
  "match_owner peerName stat c =
     (case owner stat of
        None \<Rightarrow> False
      | Some _ \<Rightarrow>
          (case qv_c (q_value c) of
             Some v \<Rightarrow> eq_op (q_op c) (edg_wll_gss_equal_subj (Some v) (owner stat))
           | None \<Rightarrow>
               peerName \<noteq> None \<and> eq_op (q_op c) (edg_wll_gss_equal_subj peerName (owner stat))))"

definition match_jobid :: "glite_jobid option \<Rightarrow> edg_wll_QueryRec \<Rightarrow> bool" where
  "match_jobid j c =
     (case (glite_jobid_unparse j, glite_jobid_unparse (qv_j (q_value c))) of
        (Some s, Some s1) \<Rightarrow> eq_op (q_op c) (s1 = s)
      | _ \<Rightarrow> False)"

fun match_tags :: "string \<Rightarrow> tag_value list \<Rightarrow> edg_wll_QueryRec \<Rightarrow> bool res" where
  "match_tags name [] c = Inr (q_op c = OP_UNEQUAL)"
| "match_tags name ((t, v) # ts) c =
     (if strcaseeq name t then rbind (deref (qv_c (q_value c))) (\<lambda>w. Inr (eq_op (q_op c) (w = v)))
      else match_tags name ts c)"

text \<open>The tag that is looked for is read only when there is a tag to compare it with.\<close>

definition match_usertag :: "edg_wll_JobStat \<Rightarrow> edg_wll_QueryRec \<Rightarrow> bool res" where
  "match_usertag stat c =
     (case user_tags stat of
        None \<Rightarrow> Inr (q_op c = OP_UNEQUAL)
      | Some [] \<Rightarrow> Inr (q_op c = OP_UNEQUAL)
      | Some (t # ts) \<Rightarrow> rbind (deref (id_tag c)) (\<lambda>name. match_tags name (t # ts) c))"

definition enter_time_at :: "edg_wll_JobStat \<Rightarrow> int \<Rightarrow> int res" where
  "enter_time_at stat s =
     rbind (deref (stateEnterTimes stat)) (\<lambda>ts.
     if 0 \<le> 1 + s \<and> 1 + s < int (length ts) then Inr (ts ! nat (1 + s)) else Inl Out_of_bounds)"

definition match_time :: "edg_wll_JobStat option \<Rightarrow> edg_wll_JobStat \<Rightarrow> edg_wll_QueryRec \<Rightarrow> bool res" where
  "match_time old stat c =
     (if stateEnterTimes stat = None then Inr False
      else
        rbind (enter_time_at stat (id_state c)) (\<lambda>t.
        if t = 0 then Inr False
        else
          rbind (if q_op c = OP_CHANGED then rbind (deref old) (\<lambda>os. enter_time_at os (id_state c)) else Inr 0) (\<lambda>old_t.
          Inr (num_op (q_op c) (tv_sec (qv_t (q_value c))) (tv_sec (qv_t (q_value2 c))) t old_t))))"

definition match_timeval :: "(edg_wll_JobStat \<Rightarrow> timeval) \<Rightarrow> edg_wll_JobStat option \<Rightarrow> edg_wll_JobStat \<Rightarrow> edg_wll_QueryRec \<Rightarrow> bool res" where
  "match_timeval field old stat c =
     (if tv_sec (field stat) = 0 then Inr False
      else
        rbind (if q_op c = OP_CHANGED then rbind (deref old) (\<lambda>os. Inr (tv_sec (field os))) else Inr 0) (\<lambda>old_t.
        Inr (num_op (q_op c) (tv_sec (qv_t (q_value c))) (tv_sec (qv_t (q_value2 c))) (tv_sec (field stat)) old_t)))"

definition match_num :: "(edg_wll_JobStat \<Rightarrow> int) \<Rightarrow> edg_wll_JobStat option \<Rightarrow> edg_wll_JobStat \<Rightarrow> edg_wll_QueryRec \<Rightarrow> bool res" where
  "match_num field old stat c =
     rbind (if q_op c = OP_CHANGED then rbind (deref old) (\<lambda>os. Inr (field os)) else Inr 0) (\<lambda>old_x.
     Inr (num_op (q_op c) (qv_i (q_value c)) (qv_i (q_value2 c)) (field stat) old_x))"

definition match_jdl :: "(string \<Rightarrow> string \<Rightarrow> cstr) \<Rightarrow> edg_wll_JobStat option \<Rightarrow> edg_wll_JobStat \<Rightarrow> edg_wll_QueryRec \<Rightarrow> bool res" where
  "match_jdl jdl_attr old stat c =
     (if q_op c = OP_CHANGED \<and> id_tag c = None \<and>
         (case old of None \<Rightarrow> False | Some os \<Rightarrow> jdl os = None \<or> jdl stat \<noteq> None \<and> jdl os \<noteq> jdl stat)
      then Inr True
      else
        case (jdl stat, id_tag c) of
          (Some ad, Some tag) \<Rightarrow>
            if ad = ''blabla'' then Inr False else match_text (jdl_attr ad tag) c
        | _ \<Rightarrow> Inr False)"

text \<open>One condition; \<open>peerName\<close> is the name of the client.\<close>

definition match_condition ::
  "(string \<Rightarrow> string \<Rightarrow> cstr) \<Rightarrow> cstr \<Rightarrow> edg_wll_JobStat option \<Rightarrow> edg_wll_JobStat \<Rightarrow> edg_wll_QueryRec \<Rightarrow> bool res" where
  "match_condition jdl_attr peerName old stat c =
     (if q_op c = OP_CHANGED \<and> old = None then Inr False
      else
        case q_attr c of
          ATTR_STATUS \<Rightarrow> match_num state old stat c
        | ATTR_RESUBMITTED \<Rightarrow>
            if q_op c \<in> {OP_LESS, OP_GREATER, OP_WITHIN} then Inr False else match_num resubmitted old stat c
        | ATTR_DONECODE \<Rightarrow> match_num done_code old stat c
        | ATTR_EXITCODE \<Rightarrow> match_num exit_code old stat c
        | ATTR_OWNER \<Rightarrow> Inr (match_owner peerName stat c)
        | ATTR_LOCATION \<Rightarrow> match_location old stat c
        | ATTR_DESTINATION \<Rightarrow> match_text (destination stat) c
        | ATTR_NETWORK_SERVER \<Rightarrow> match_text (network_server stat) c
        | ATTR_JOBID \<Rightarrow> Inr (match_jobid (jobId stat) c)
        | ATTR_PARENT \<Rightarrow> Inr (match_jobid (parent_job stat) c)
        | ATTR_USERTAG \<Rightarrow> match_usertag stat c
        | ATTR_TIME \<Rightarrow> match_time old stat c
        | ATTR_JDL_ATTR \<Rightarrow> match_jdl jdl_attr old stat c
        | ATTR_STATEENTERTIME \<Rightarrow> match_timeval stateEnterTime old stat c
        | ATTR_LASTUPDATETIME \<Rightarrow> match_timeval lastUpdateTime old stat c
        | ATTR_JOB_TYPE \<Rightarrow> Inr (eq_op (q_op c) (qv_i (q_value c) = jobtype stat))
        | ATTR_VM_STATUS \<Rightarrow> Inr (eq_op (q_op c) (qv_i (q_value c) = vm_state stat))
        | _ \<Rightarrow> Inr False)"

fun match_clause :: "('c \<Rightarrow> bool res) \<Rightarrow> 'c list \<Rightarrow> bool res" where
  "match_clause f [] = Inr False"
| "match_clause f (c # cs) = rbind (f c) (\<lambda>b. if b then Inr True else match_clause f cs)"

fun match_clauses :: "('c \<Rightarrow> bool res) \<Rightarrow> 'c list list \<Rightarrow> bool res" where
  "match_clauses f [] = Inr True"
| "match_clauses f (cl # cls) = rbind (match_clause f cl) (\<lambda>b. if b then match_clauses f cls else Inr False)"

definition match_status ::
  "(string \<Rightarrow> string \<Rightarrow> cstr) \<Rightarrow> cstr \<Rightarrow> edg_wll_JobStat option \<Rightarrow> edg_wll_JobStat \<Rightarrow> conditions option \<Rightarrow> bool res" where
  "match_status jdl_attr peerName old stat conds =
     (case conds of
        None \<Rightarrow> Inr True
      | Some cls \<Rightarrow> match_clauses (match_condition jdl_attr peerName old stat) cls)"

section \<open>Conditions on events\<close>

text \<open>
  What a query on events reads of an event: the time, the source (none is 0), the level, the host, the
  code of its type, the name and value of a user tag, and the instance of the source.
\<close>

record event_head =
  eh_time :: int
  eh_source :: int
  eh_level :: int
  eh_host :: cstr
  eh_type :: int
  eh_tag :: "(string \<times> string) option"
  eh_instance :: cstr

definition cmp_string :: "string \<Rightarrow> edg_wll_QueryOp \<Rightarrow> cstr \<Rightarrow> cstr \<Rightarrow> bool res" where
  "cmp_string s1 op s2 s2b =
     rbind (deref s2) (\<lambda>v.
     case op of
       OP_EQUAL \<Rightarrow> Inr (s1 = v)
     | OP_CHANGED \<Rightarrow> Inr (s1 = v)
     | OP_UNEQUAL \<Rightarrow> Inr (s1 \<noteq> v)
     | OP_LESS \<Rightarrow> Inr (strcmp s1 v < 0)
     | OP_GREATER \<Rightarrow> Inr (strcmp s1 v > 0)
     | OP_WITHIN \<Rightarrow> if strcmp s1 v \<ge> 0 then rbind (deref s2b) (\<lambda>_. Inr False) else Inr False)"

definition event_num :: "edg_wll_QueryOp \<Rightarrow> int \<Rightarrow> int \<Rightarrow> int \<Rightarrow> bool" where
  "event_num op x v v2 \<longleftrightarrow>
     op = OP_EQUAL \<and> x = v \<or> op = OP_LESS \<and> x < v \<or> op = OP_GREATER \<and> x < v \<or>
     op = OP_WITHIN \<and> x \<ge> v \<and> x \<le> v2"

definition match_event_condition :: "event_head \<Rightarrow> edg_wll_QueryRec \<Rightarrow> bool res" where
  "match_event_condition e c =
     (case q_attr c of
        ATTR_TIME \<Rightarrow> Inr (event_num (q_op c) (eh_time e) (tv_sec (qv_t (q_value c))) (tv_sec (qv_t (q_value2 c))))
      | ATTR_SOURCE \<Rightarrow> Inr (eh_source e \<noteq> 0 \<and> event_num (q_op c) (eh_source e) (qv_i (q_value c)) (qv_i (q_value2 c)))
      | ATTR_LEVEL \<Rightarrow> Inr (event_num (q_op c) (eh_level e) (qv_i (q_value c)) (qv_i (q_value2 c)))
      | ATTR_HOST \<Rightarrow>
          rbind (deref (qv_c (q_value c))) (\<lambda>v. rbind (deref (eh_host e)) (\<lambda>h. Inr (v = h)))
      | ATTR_EVENT_TYPE \<Rightarrow> Inr (eh_type e = qv_i (q_value c))
      | ATTR_USERTAG \<Rightarrow>
          (case eh_tag e of
             None \<Rightarrow> Inr False
           | Some (n, v) \<Rightarrow>
               rbind (deref (id_tag c)) (\<lambda>t.
               if t = n then cmp_string v (q_op c) (qv_c (q_value c)) (qv_c (q_value2 c)) else Inr False))
      | ATTR_INSTANCE \<Rightarrow>
          (case eh_instance e of
             None \<Rightarrow> Inr False
           | Some i \<Rightarrow> cmp_string i (q_op c) (qv_c (q_value c)) (qv_c (q_value2 c)))
      | _ \<Rightarrow> Inr False)"

text \<open>Only clauses with a tag or an instance are looked at; the database evaluates the others.\<close>

definition match_flesh_conditions :: "event_head \<Rightarrow> conditions option \<Rightarrow> bool res" where
  "match_flesh_conditions e ec =
     (case ec of
        None \<Rightarrow> Inr True
      | Some cls \<Rightarrow>
          match_clauses (match_event_condition e)
            (filter (\<lambda>cl. \<exists>c\<in>set cl. q_attr c \<in> {ATTR_USERTAG, ATTR_INSTANCE}) cls))"

section \<open>Which queries the server accepts\<close>

text \<open>The part of the context that the checks read.\<close>

record query_context =
  peerName :: cstr
  srvName :: cstr
  srvPort :: "32 word"
  isProxy :: bool
  job_index :: "conditions option"

definition check_strict_jobid :: "query_context \<Rightarrow> glite_jobid option \<Rightarrow> bool res" where
  "check_strict_jobid ctx job =
     (if isProxy ctx then Inr True
      else
        case srvName ctx of
          None \<Rightarrow> Inr True
        | Some srv \<Rightarrow>
            rbind (deref (glite_jobid_getServerParts job)) (\<lambda>(host, port).
            Inr (strcaseeq host srv \<and> port = srvPort ctx)))"

text \<open>Whether all conditions on identifiers are for this server.\<close>

fun check_strict_jobid_cond :: "query_context \<Rightarrow> edg_wll_QueryRec list \<Rightarrow> bool res" where
  "check_strict_jobid_cond ctx [] = Inr True"
| "check_strict_jobid_cond ctx (c # cs) =
     (if q_attr c = ATTR_JOBID then
        rbind (check_strict_jobid ctx (qv_j (q_value c))) (\<lambda>b. if b then check_strict_jobid_cond ctx cs else Inr False)
      else check_strict_jobid_cond ctx cs)"

definition is_all_query :: "conditions option \<Rightarrow> bool" where
  "is_all_query jc \<longleftrightarrow>
     (case jc of
        None \<Rightarrow> True
      | Some [] \<Rightarrow> True
      | Some [[c]] \<Rightarrow> q_attr c = ATTR_OWNER \<and> q_op c = OP_EQUAL
      | _ \<Rightarrow> False)"

definition jobid_only_query :: "conditions \<Rightarrow> nat" where
  "jobid_only_query cls = length (filter (\<lambda>cl. \<not> list_ex (\<lambda>c. q_attr c = ATTR_JOBID) cl) cls)"

definition edg_wll_CmpColumn :: "edg_wll_QueryRec \<Rightarrow> edg_wll_QueryRec \<Rightarrow> bool res" where
  "edg_wll_CmpColumn r1 r2 =
     (if q_attr r1 \<noteq> q_attr r2 then Inr False
      else
        case q_attr r1 of
          ATTR_TIME \<Rightarrow> Inr (id_state r1 = id_state r2)
        | ATTR_USERTAG \<Rightarrow> rbind (deref (id_tag r1)) (\<lambda>a. rbind (deref (id_tag r2)) (\<lambda>b. Inr (strcaseeq a b)))
        | ATTR_JDL_ATTR \<Rightarrow> rbind (deref (id_tag r1)) (\<lambda>a. rbind (deref (id_tag r2)) (\<lambda>b. Inr (strcaseeq a b)))
        | _ \<Rightarrow> Inr True)"

text \<open>Whether some clause begins with a condition on the column; an empty clause has no such condition.\<close>

fun column_asked :: "edg_wll_QueryRec \<Rightarrow> conditions \<Rightarrow> bool res" where
  "column_asked col [] = Inr False"
| "column_asked col ([] # cls) = column_asked col cls"
| "column_asked col ((c # cs) # cls) =
     rbind (edg_wll_CmpColumn col c) (\<lambda>b. if b then Inr True else column_asked col cls)"

fun columns_asked :: "edg_wll_QueryRec list \<Rightarrow> conditions \<Rightarrow> bool res" where
  "columns_asked [] jc = Inr True"
| "columns_asked (col # cols) jc = rbind (column_asked col jc) (\<lambda>b. if b then columns_asked cols jc else Inr False)"

fun index_used :: "conditions \<Rightarrow> conditions \<Rightarrow> bool res" where
  "index_used [] jc = Inr False"
| "index_used ([] # is) jc = index_used is jc"
| "index_used ((col # cols) # is) jc =
     rbind (columns_asked (col # cols) jc) (\<lambda>b. if b then Inr True else index_used is jc)"

definition check_job_query_index :: "query_context \<Rightarrow> conditions option \<Rightarrow> bool res" where
  "check_job_query_index ctx jc =
     (case jc of
        None \<Rightarrow> Inr False
      | Some [] \<Rightarrow> Inr False
      | Some cls \<Rightarrow>
          if list_ex (list_ex (\<lambda>c. q_attr c \<in> {ATTR_JOBID, ATTR_PARENT})) cls then Inr True
          else
            case job_index ctx of
              None \<Rightarrow> Inr False
            | Some is \<Rightarrow> index_used is cls)"

definition check_event_query_index :: "query_context \<Rightarrow> conditions option \<Rightarrow> conditions option \<Rightarrow> bool res" where
  "check_event_query_index ctx jc ec =
     rbind (check_job_query_index ctx jc) (\<lambda>b.
     Inr (b \<or> (case ec of None \<Rightarrow> False | Some cls \<Rightarrow> list_ex (list_ex (\<lambda>c. q_attr c = ATTR_TIME)) cls)))"

end
