(* ===== verification/LB_Notify.thy ===== *)
theory LB_Notify
  imports LB_Authz LB_Query
begin

text \<open>
  Notifications (\<^verbatim>\<open>org.glite.lb.server/src/notif_match.c\<close>): after a change of the status of a job the server
  goes through the registrations the database offers for it, removes the expired ones, and
  sends the status to those whose conditions match, as far as the recipient may see it. Copies of the status for the
  combinations of hiding, anonymization and history are made once and kept.

  What is elsewhere is a record of arguments: the parser of conditions and that of access control lists, the
  libraries of \<open>LB_Authz\<close> and the salt, the history of the job if the query for it succeeds with
  the text made of it, and whether a notification could be handed over.
\<close>

section \<open>Data\<close>

record notif_registration =
  n_id :: string
  n_dest :: string
  n_valid :: int
  n_owner :: string
  n_conditions :: cstr
  n_anonymize :: bool
  n_terminal :: bool
  n_history :: bool

record ('acl, 'ev) notif_env =
  ne_now :: int
  ne_parse_conds :: "string \<Rightarrow> conditions option"
  ne_jdl_attr :: "string \<Rightarrow> string \<Rightarrow> cstr"
  ne_ad_ok :: "string \<Rightarrow> bool"
  ne_unparse_ad :: "(string \<times> string) list \<Rightarrow> string"
  ne_decode_acl :: "string \<Rightarrow> 'acl option"
  ne_test_user :: "'acl \<Rightarrow> gacl_cred list \<Rightarrow> gacl_perm set"
  ne_sha :: "string \<Rightarrow> string \<Rightarrow> string"
  ne_fresh_salt :: "string option"
  ne_salt :: salt_state
  ne_events :: "'ev option"
  ne_collate :: "'ev \<Rightarrow> authz_flags \<Rightarrow> string"
  ne_send_ok :: "notif_registration \<Rightarrow> edg_wll_JobStat \<Rightarrow> bool"

text \<open>A notification: the registration, the status that is sent and the rights it is sent with.\<close>

type_synonym notification = "notif_registration \<times> edg_wll_JobStat \<times> authz_flags"

record notif_state =
  nm_sent :: "notification list"
  nm_removed :: "string list"
  nm_copies :: "bool \<times> bool \<times> bool \<Rightarrow> edg_wll_JobStat option"
  nm_msg :: nat
  nm_legacy :: nat

section \<open>Conditions and rights\<close>

text \<open>\<^verbatim>\<open>EDG_WLL_JOB_TERMINAL_STATE\<close>, generated from the states marked in \<^verbatim>\<open>status.T\<close>.\<close>

definition EDG_WLL_JOB_TERMINAL_STATE :: "bool list" where
  "EDG_WLL_JOB_TERMINAL_STATE =
     [False, False, False, False, False, False, False, True, True, True, False, True]"

definition terminal_state :: "int \<Rightarrow> bool res" where
  "terminal_state s =
     (if 0 \<le> s \<and> s < int (length EDG_WLL_JOB_TERMINAL_STATE) then Inr (EDG_WLL_JOB_TERMINAL_STATE ! nat s)
      else Inl Out_of_bounds)"

text \<open>Whether the flag for terminal states lets the change through.\<close>

definition terminal_ok :: "bool \<Rightarrow> edg_wll_JobStat \<Rightarrow> edg_wll_JobStat \<Rightarrow> bool res" where
  "terminal_ok terminal oldstat stat =
     (if \<not> terminal then Inr True
      else
        rbind (terminal_state (state stat)) (\<lambda>t.
        if \<not> t then Inr False
        else if state stat \<noteq> EDG_WLL_JOB_PURGED then Inr True
        else rbind (terminal_state (state oldstat)) (\<lambda>ot. Inr (\<not> ot))))"

text \<open>Conditions that cannot be parsed match.\<close>

definition notif_match_conditions ::
  "('acl, 'ev) notif_env \<Rightarrow> cstr \<Rightarrow> edg_wll_JobStat \<Rightarrow> edg_wll_JobStat \<Rightarrow> notif_registration \<Rightarrow> bool res" where
  "notif_match_conditions env peer oldstat stat r =
     (case n_conditions r of
        None \<Rightarrow> Inr True
      | Some cond \<Rightarrow>
          rbind (terminal_ok (n_terminal r) oldstat stat) (\<lambda>ok.
          if \<not> ok then Inr False
          else
            case ne_parse_conds env cond of
              None \<Rightarrow> Inr True
            | Some c \<Rightarrow> match_status (ne_jdl_attr env) peer (Some oldstat) stat (Some c)))"

definition edg_wll_NotifCheckAuthz ::
  "('acl, 'ev) notif_env \<Rightarrow> authz_context \<Rightarrow> edg_wll_JobStat \<Rightarrow> notif_registration \<Rightarrow> bool \<times> authz_flags" where
  "edg_wll_NotifCheckAuthz env ctx stat r =
     check_jobstat_authz (ne_test_user env) ctx stat (n_anonymize r)
       (Option.bind (acl stat) (ne_decode_acl env)) (Some \<lparr>pr_name = Some (n_owner r), pr_fqans = []\<rparr>)"

section \<open>The loop\<close>

text \<open>
  A new copy of the status: hidden and anonymized as the rights say, where a failure of the
  anonymization is not noticed.
\<close>

definition hide ::
  "('acl, 'ev) notif_env \<Rightarrow> edg_wll_JobStat \<Rightarrow> authz_flags \<Rightarrow> edg_wll_JobStat res" where
  "hide env stat fl =
     rbind (if fl_monitoring fl then blacken_fields (ne_ad_ok env) (ne_jdl_attr env) (ne_unparse_ad env) stat fl else Inr stat) (\<lambda>st.
     Inr (if fl_anonymized fl then snd (anonymize_stat (ne_sha env) (ne_fresh_salt env) (ne_salt env) st) else st))"

definition count_sent :: "notif_registration \<Rightarrow> notif_state \<Rightarrow> notif_state" where
  "count_sent r s = (if take 5 (n_dest r) = ''x-msg'' then s\<lparr>nm_msg := nm_msg s + 1\<rparr> else s\<lparr>nm_legacy := nm_legacy s + 1\<rparr>)"

definition copy_key :: "notif_registration \<Rightarrow> authz_flags \<Rightarrow> bool \<times> bool \<times> bool" where
  "copy_key r fl = (fl_monitoring fl, fl_anonymized fl, n_history r)"

text \<open>The copy for a registration; nothing when the history cannot be had, although the copy is kept.\<close>

definition get_copy ::
  "('acl, 'ev) notif_env \<Rightarrow> edg_wll_JobStat \<Rightarrow> notif_registration \<Rightarrow> authz_flags \<Rightarrow> notif_state \<Rightarrow>
   (edg_wll_JobStat option \<times> notif_state) res" where
  "get_copy env stat r fl s =
     (case nm_copies s (copy_key r fl) of
        Some c \<Rightarrow> Inr (Some c, s)
      | None \<Rightarrow>
          rbind (hide env stat fl) (\<lambda>c.
          if \<not> n_history r then Inr (Some c, s\<lparr>nm_copies := (nm_copies s)(copy_key r fl \<mapsto> c)\<rparr>)
          else
            case ne_events env of
              None \<Rightarrow> Inr (None, s\<lparr>nm_copies := (nm_copies s)(copy_key r fl \<mapsto> c)\<rparr>)
            | Some ev \<Rightarrow>
                let c = c\<lparr>history := Some (ne_collate env ev fl)\<rparr>
                in Inr (Some c, s\<lparr>nm_copies := (nm_copies s)(copy_key r fl \<mapsto> c)\<rparr>)))"

text \<open>One registration; the first component tells whether the loop is left.\<close>

definition notif_row ::
  "('acl, 'ev) notif_env \<Rightarrow> authz_context \<Rightarrow> edg_wll_JobStat \<Rightarrow> edg_wll_JobStat \<Rightarrow> notif_registration \<Rightarrow> notif_state \<Rightarrow>
   (bool \<times> notif_state) res" where
  "notif_row env ctx oldstat stat r s =
     (if ne_now env > n_valid r then Inr (False, count_sent r (s\<lparr>nm_removed := nm_removed s @ [n_id r]\<rparr>))
      else
        rbind (notif_match_conditions env (pr_name (ctx_peer ctx)) oldstat stat r) (\<lambda>m.
        if \<not> m then Inr (False, count_sent r s)
        else
          case edg_wll_NotifCheckAuthz env ctx stat r of
            (False, _) \<Rightarrow> Inr (False, s)
          | (True, fl) \<Rightarrow>
              rbind (get_copy env stat r fl s) (\<lambda>(c, s). case c of
                None \<Rightarrow> Inr (False, s)
              | Some st \<Rightarrow>
                  if ne_send_ok env r st then Inr (False, count_sent r (s\<lparr>nm_sent := nm_sent s @ [(r, st, fl)]\<rparr>))
                  else Inr (True, s))))"

primrec notif_rows ::
  "('acl, 'ev) notif_env \<Rightarrow> authz_context \<Rightarrow> edg_wll_JobStat \<Rightarrow> edg_wll_JobStat \<Rightarrow> notif_registration list \<Rightarrow> notif_state \<Rightarrow>
   notif_state res" where
  "notif_rows env ctx oldstat stat [] s = Inr s"
| "notif_rows env ctx oldstat stat (r # rs) s =
     rbind (notif_row env ctx oldstat stat r s) (\<lambda>(stop, s).
     if stop then Inr s else notif_rows env ctx oldstat stat rs s)"

definition edg_wll_NotifMatch ::
  "('acl, 'ev) notif_env \<Rightarrow> authz_context \<Rightarrow> edg_wll_JobStat \<Rightarrow> edg_wll_JobStat \<Rightarrow> notif_registration list \<Rightarrow> notif_state res" where
  "edg_wll_NotifMatch env ctx oldstat stat regs =
     notif_rows env ctx oldstat stat regs
       \<lparr>nm_sent = [], nm_removed = [], nm_copies = (\<lambda>k. if k = (False, False, False) then Some stat else None),
        nm_msg = 0, nm_legacy = 0\<rparr>"

section \<open>Everyone gets what the policy allows\<close>

text \<open>What a registration with these rights is to be sent, whatever went to others before.\<close>

definition shown ::
  "('acl, 'ev) notif_env \<Rightarrow> edg_wll_JobStat \<Rightarrow> authz_flags \<Rightarrow> bool \<Rightarrow> edg_wll_JobStat \<Rightarrow> bool" where
  "shown env stat fl h st \<longleftrightarrow>
     (\<exists>c. hide env stat fl = Inr c \<and>
       st = (case ne_events env of Some ev \<Rightarrow> if h then c\<lparr>history := Some (ne_collate env ev fl)\<rparr> else c | None \<Rightarrow> c))"

definition copies_ok :: "('acl, 'ev) notif_env \<Rightarrow> edg_wll_JobStat \<Rightarrow> notif_state \<Rightarrow> bool" where
  "copies_ok env stat s \<longleftrightarrow>
     (\<forall>m a h c. nm_copies s (m, a, h) = Some c \<longrightarrow> shown env stat \<lparr>fl_anonymized = a, fl_monitoring = m\<rparr> h c)"

definition entitled :: "('acl, 'ev) notif_env \<Rightarrow> authz_context \<Rightarrow> edg_wll_JobStat \<Rightarrow> edg_wll_JobStat \<Rightarrow> notification \<Rightarrow> bool" where
  "entitled env ctx oldstat stat n =
     (case n of (r, st, fl) \<Rightarrow>
        ne_now env \<le> n_valid r \<and>
        notif_match_conditions env (pr_name (ctx_peer ctx)) oldstat stat r = Inr True \<and>
        edg_wll_NotifCheckAuthz env ctx stat r = (True, fl) \<and> shown env stat fl (n_history r) st)"

lemma flags_eta: "\<lparr>fl_anonymized = fl_anonymized fl, fl_monitoring = fl_monitoring fl\<rparr> = fl"
  by (cases fl) simp

lemma copies_ok_upd:
  assumes "copies_ok env stat s" and "shown env stat fl (n_history r) c"
  shows "copies_ok env stat (s\<lparr>nm_copies := (nm_copies s)(copy_key r fl \<mapsto> c)\<rparr>)"
  using assms by (cases fl) (auto simp: copies_ok_def copy_key_def)

lemma get_copy_ok:
  assumes "get_copy env stat r fl s = Inr (c, s')" and "copies_ok env stat s"
  shows "copies_ok env stat s'" and "nm_sent s' = nm_sent s" and "c = Some st \<Longrightarrow> shown env stat fl (n_history r) st"
proof -
  have "copies_ok env stat s' \<and> nm_sent s' = nm_sent s \<and> (c = Some st \<longrightarrow> shown env stat fl (n_history r) st)"
  proof (cases "nm_copies s (copy_key r fl)")
    case (Some d)
    then have "shown env stat fl (n_history r) d"
      using assms(2) flags_eta[of fl] unfolding copies_ok_def copy_key_def by metis
    then show ?thesis using assms Some by (auto simp: get_copy_def)
  next
    case None
    then obtain d where d: "hide env stat fl = Inr d" using assms(1) by (auto simp: get_copy_def res_simps)
    obtain e where e: "shown env stat fl (n_history r) e" "s' = s\<lparr>nm_copies := (nm_copies s)(copy_key r fl \<mapsto> e)\<rparr>"
      "c = Some e \<or> c = None"
      using assms(1) None d by (cases "n_history r"; cases "ne_events env") (auto simp: get_copy_def shown_def Let_def)
    then show ?thesis using copies_ok_upd[OF assms(2) e(1)] by auto
  qed
  then show "copies_ok env stat s'" "nm_sent s' = nm_sent s" "c = Some st \<Longrightarrow> shown env stat fl (n_history r) st" by blast+
qed

lemma count_sent_simps [simp]:
  "nm_sent (count_sent r s) = nm_sent s" "nm_copies (count_sent r s) = nm_copies s" "nm_removed (count_sent r s) = nm_removed s"
  by (simp_all add: count_sent_def)

lemma copies_ok_count [simp]: "copies_ok env stat (count_sent r s) = copies_ok env stat s"
  by (simp add: copies_ok_def)

lemma notif_row_entitled:
  assumes "notif_row env ctx oldstat stat r s = Inr (stop, s')" and "copies_ok env stat s"
    and "\<forall>n\<in>set (nm_sent s). entitled env ctx oldstat stat n"
  shows "copies_ok env stat s' \<and> (\<forall>n\<in>set (nm_sent s'). entitled env ctx oldstat stat n)"
proof (cases "ne_now env > n_valid r")
  case True
  then show ?thesis using assms by (auto simp: notif_row_def copies_ok_def)
next
  case False
  then obtain m where m: "notif_match_conditions env (pr_name (ctx_peer ctx)) oldstat stat r = Inr m"
    using assms(1) by (auto simp: notif_row_def res_simps)
  obtain b fl where az: "edg_wll_NotifCheckAuthz env ctx stat r = (b, fl)" by fastforce
  show ?thesis
  proof (cases "m \<and> b")
    case False
    then show ?thesis using assms m az \<open>\<not> ne_now env > n_valid r\<close> by (cases m; cases b) (auto simp: notif_row_def)
  next
    case True
    then obtain c s1 where g: "get_copy env stat r fl s = Inr (c, s1)"
      using assms(1) m az False by (auto simp: notif_row_def res_simps)
    note ok = get_copy_ok[OF g assms(2)]
    show ?thesis
      using assms m az False True g ok
      by (cases c) (auto simp: notif_row_def entitled_def copies_ok_def split: if_splits)
  qed
qed

lemma notif_rows_entitled:
  assumes "notif_rows env ctx oldstat stat regs s = Inr s'" and "copies_ok env stat s"
    and "\<forall>n\<in>set (nm_sent s). entitled env ctx oldstat stat n"
  shows "\<forall>n\<in>set (nm_sent s'). entitled env ctx oldstat stat n"
  using assms
proof (induction regs arbitrary: s)
  case (Cons r regs)
  then obtain stop s1 where s1: "notif_row env ctx oldstat stat r s = Inr (stop, s1)" by (auto simp: res_simps)
  note ok = notif_row_entitled[OF s1 Cons.prems(2,3)]
  then show ?case using Cons.IH[of s1] Cons.prems(1) s1 by (cases stop) auto
qed simp

lemma copies_ok_init:
  "copies_ok env stat \<lparr>nm_sent = [], nm_removed = [], nm_copies = (\<lambda>k. if k = (False, False, False) then Some stat else None),
     nm_msg = 0, nm_legacy = 0\<rparr>"
  by (auto simp: copies_ok_def shown_def hide_def split: option.splits)


text \<open>Registrations and surroundings for examples.\<close>

definition ex_env :: "salt_state \<Rightarrow> (unit, unit) notif_env" where
  "ex_env salt = \<lparr>ne_now = 10, ne_parse_conds = (\<lambda>_. None), ne_jdl_attr = (\<lambda>_ _. None), ne_ad_ok = (\<lambda>_. False),
     ne_unparse_ad = (\<lambda>_. []), ne_decode_acl = (\<lambda>_. None), ne_test_user = (\<lambda>_ _. {}), ne_sha = (\<lambda>s t. ''hash''),
     ne_fresh_salt = None, ne_salt = salt, ne_events = None, ne_collate = (\<lambda>_ _. []), ne_send_ok = (\<lambda>_ _. True)\<rparr>"

definition ex_ctx :: "authz_policy \<Rightarrow> authz_context" where
  "ex_ctx p = \<lparr>noAuth = False, ctx_peer = \<lparr>pr_name = None, pr_fqans = []\<rparr>, ctx_policy = p, id_mapping = []\<rparr>"

definition ex_registration :: "bool \<Rightarrow> notif_registration" where
  "ex_registration anon = \<lparr>n_id = ''n'', n_dest = ''x-msg://m'', n_valid = 20, n_owner = ''/CN=a'', n_conditions = None,
     n_anonymize = anon, n_terminal = False, n_history = False\<rparr>"

definition ex_policy :: authz_policy where
  "ex_policy = [(READ_ANONYMIZED, [[(AUTHZ_ATTR_SUBJECT, ''.*'')]])]"

lemma ex_fields_simps [simp]:
  "ne_now (ex_env salt) = 10" "ne_events (ex_env salt) = None" "ne_send_ok (ex_env salt) r st" "ne_sha (ex_env salt) = (\<lambda>_ _. ''hash'')"
  "ne_fresh_salt (ex_env salt) = None" "ne_salt (ex_env salt) = salt"
  "n_valid (ex_registration anon) = 20" "n_conditions (ex_registration anon) = None" "n_history (ex_registration anon) = False"
  by (simp_all add: ex_env_def ex_registration_def)

lemma ex_authz:
  "edg_wll_NotifCheckAuthz (ex_env salt) (ex_ctx ex_policy) (edg_wll_InitStatus\<lparr>state := 5\<rparr>) (ex_registration anon) =
    (\<not> anon, \<lparr>fl_anonymized = True, fl_monitoring = False\<rparr>)"
  by (simp add: edg_wll_NotifCheckAuthz_def check_jobstat_authz_def ex_env_def ex_ctx_def ex_policy_def ex_registration_def Let_def
      edg_wll_gss_equal_subj_def edg_wll_gss_normalize_subj_def edg_wll_InitStatus_def equal_mapped_def edg_wll_amIroot_def
      check_authz_policy_def check_rule_def check_attr_def)

lemma ex_notification:
  "\<exists>s. edg_wll_NotifMatch (ex_env salt) (ex_ctx ex_policy) oldstat (edg_wll_InitStatus\<lparr>state := 5\<rparr>) [ex_registration False] = Inr s \<and>
    nm_sent s = [(ex_registration False, snd (anonymize_stat (\<lambda>_ _. ''hash'') None salt (edg_wll_InitStatus\<lparr>state := 5\<rparr>)),
      \<lparr>fl_anonymized = True, fl_monitoring = False\<rparr>)]"
  by (simp add: edg_wll_NotifMatch_def notif_row_def ex_authz get_copy_def hide_def notif_match_conditions_def
      copy_key_def count_sent_def)


section \<open>Nobody is left out\<close>

lemma get_copy_total:
  assumes "\<exists>c. hide env stat fl = Inr c" and "n_history r \<longrightarrow> ne_events env \<noteq> None"
  shows "\<exists>c s'. get_copy env stat r fl s = Inr (Some c, s') \<and> nm_sent s' = nm_sent s \<and> nm_removed s' = nm_removed s"
  using assms by (cases "nm_copies s (copy_key r fl)"; cases "n_history r") (auto simp: get_copy_def Let_def)

definition gets_notification :: "('acl, 'ev) notif_env \<Rightarrow> authz_context \<Rightarrow> edg_wll_JobStat \<Rightarrow> edg_wll_JobStat \<Rightarrow> notif_registration \<Rightarrow> bool" where
  "gets_notification env ctx oldstat stat r \<longleftrightarrow>
     ne_now env \<le> n_valid r \<and> notif_match_conditions env (pr_name (ctx_peer ctx)) oldstat stat r = Inr True \<and>
     fst (edg_wll_NotifCheckAuthz env ctx stat r)"

lemma notif_row_total:
  assumes "\<exists>m. notif_match_conditions env (pr_name (ctx_peer ctx)) oldstat stat r = Inr m"
    and "\<And>fl. \<exists>c. hide env stat fl = Inr c" and "n_history r \<longrightarrow> ne_events env \<noteq> None" and "\<And>st. ne_send_ok env r st"
  shows "\<exists>s'. notif_row env ctx oldstat stat r s = Inr (False, s') \<and>
    map fst (nm_sent s') = map fst (nm_sent s) @ (if gets_notification env ctx oldstat stat r then [r] else []) \<and>
    nm_removed s' = nm_removed s @ (if ne_now env > n_valid r then [n_id r] else [])"
proof (cases "ne_now env > n_valid r")
  case True
  then show ?thesis by (simp add: notif_row_def gets_notification_def)
next
  case False
  obtain m where m: "notif_match_conditions env (pr_name (ctx_peer ctx)) oldstat stat r = Inr m" using assms(1) by blast
  obtain b fl where az: "edg_wll_NotifCheckAuthz env ctx stat r = (b, fl)" by fastforce
  obtain c s1 where g: "get_copy env stat r fl s = Inr (Some c, s1)" "nm_sent s1 = nm_sent s" "nm_removed s1 = nm_removed s"
    using get_copy_total[OF assms(2,3)] by blast
  show ?thesis
    using False m az g assms(4) by (cases m; cases b) (simp_all add: notif_row_def gets_notification_def)
qed

lemma notif_rows_total:
  assumes "\<And>r. r \<in> set regs \<Longrightarrow> \<exists>m. notif_match_conditions env (pr_name (ctx_peer ctx)) oldstat stat r = Inr m"
    and "\<And>fl. \<exists>c. hide env stat fl = Inr c" and "\<And>r. r \<in> set regs \<Longrightarrow> n_history r \<longrightarrow> ne_events env \<noteq> None"
    and "\<And>r st. r \<in> set regs \<Longrightarrow> ne_send_ok env r st"
  shows "\<exists>s'. notif_rows env ctx oldstat stat regs s = Inr s' \<and>
    map fst (nm_sent s') = map fst (nm_sent s) @ filter (gets_notification env ctx oldstat stat) regs \<and>
    nm_removed s' = nm_removed s @ map n_id (filter (\<lambda>r. ne_now env > n_valid r) regs)"
  using assms(1,3,4)
proof (induction regs arbitrary: s)
  case (Cons r regs)
  have row: "\<exists>m. notif_match_conditions env (pr_name (ctx_peer ctx)) oldstat stat r = Inr m"
    "n_history r \<longrightarrow> ne_events env \<noteq> None" "\<And>st. ne_send_ok env r st"
    using Cons.prems(1)[of r] Cons.prems(2)[of r] Cons.prems(3)[of r] by auto
  obtain s1 where s1: "notif_row env ctx oldstat stat r s = Inr (False, s1)"
    "map fst (nm_sent s1) = map fst (nm_sent s) @ (if gets_notification env ctx oldstat stat r then [r] else [])"
    "nm_removed s1 = nm_removed s @ (if ne_now env > n_valid r then [n_id r] else [])"
    using notif_row_total[OF row(1) assms(2) row(2,3)] by blast
  have "\<exists>s'. notif_rows env ctx oldstat stat regs s1 = Inr s' \<and>
    map fst (nm_sent s') = map fst (nm_sent s1) @ filter (gets_notification env ctx oldstat stat) regs \<and>
    nm_removed s' = nm_removed s1 @ map n_id (filter (\<lambda>r. ne_now env > n_valid r) regs)"
    using Cons.prems by (intro Cons.IH) auto
  then show ?case using s1 by auto
qed simp

text \<open>
  C24. Nobody is left out: as long as notifications can be handed over and the history of the job is to
  be had if one asks for it, exactly the registrations that have not expired, match and may
  see the status get a notification, each one and in their order, and exactly the expired ones are removed.
\<close>

theorem notifications_complete:
  assumes "\<And>r. r \<in> set regs \<Longrightarrow> \<exists>m. notif_match_conditions env (pr_name (ctx_peer ctx)) oldstat stat r = Inr m"
    and "\<And>fl. \<exists>c. hide env stat fl = Inr c" and "\<And>r. r \<in> set regs \<Longrightarrow> n_history r \<longrightarrow> ne_events env \<noteq> None"
    and "\<And>r st. r \<in> set regs \<Longrightarrow> ne_send_ok env r st"
  shows "\<exists>s. edg_wll_NotifMatch env ctx oldstat stat regs = Inr s \<and>
    map fst (nm_sent s) = filter (gets_notification env ctx oldstat stat) regs \<and>
    nm_removed s = map n_id (filter (\<lambda>r. ne_now env > n_valid r) regs)"
  using notif_rows_total[where env = env and ctx = ctx and oldstat = oldstat and stat = stat and regs = regs, OF assms]
  by (fastforce simp: edg_wll_NotifMatch_def)

theorem notifications_complete_witness:
  "\<exists>s. edg_wll_NotifMatch (ex_env (Salt ''x'')) (ex_ctx ex_policy) edg_wll_InitStatus (edg_wll_InitStatus\<lparr>state := 5\<rparr>)
      [ex_registration True, ex_registration False, (ex_registration False)\<lparr>n_valid := 5\<rparr>] = Inr s \<and>
    map fst (nm_sent s) = [ex_registration False] \<and> nm_removed s = [''n'']"
proof -
  have h: "\<exists>c. hide (ex_env (Salt ''x'')) (edg_wll_InitStatus\<lparr>state := 5\<rparr>) fl = Inr c" for fl
    by (simp add: hide_def blacken_fields_def copy_times_def edg_wll_InitStatus_def)
  let ?regs = "[ex_registration True, ex_registration False, (ex_registration False)\<lparr>n_valid := 5\<rparr>]"
  let ?env = "ex_env (Salt ''x'')" and ?ctx = "ex_ctx ex_policy" and ?st = "edg_wll_InitStatus\<lparr>state := 5\<rparr>"
  have "\<exists>s. edg_wll_NotifMatch ?env ?ctx edg_wll_InitStatus ?st ?regs = Inr s \<and>
    map fst (nm_sent s) = filter (gets_notification ?env ?ctx edg_wll_InitStatus ?st) ?regs \<and>
    nm_removed s = map n_id (filter (\<lambda>r. ne_now ?env > n_valid r) ?regs)"
    by (rule notifications_complete) (use h in \<open>auto simp: notif_match_conditions_def\<close>)
  moreover have "filter (gets_notification ?env ?ctx edg_wll_InitStatus ?st) ?regs = [ex_registration False]"
    by (simp add: gets_notification_def notif_match_conditions_def ex_authz)
  moreover have "map n_id (filter (\<lambda>r. ne_now ?env > n_valid r) ?regs) = [''n'']"
    by (simp add: ex_registration_def)
  ultimately show ?thesis by simp
qed

section \<open>What the forms of a status tell\<close>

text \<open>
  Two statuses that agree in the fields shown to monitoring; of the job description only the values of the allowed
  attributes count.
\<close>

definition same_public :: "(string \<Rightarrow> bool) \<Rightarrow> (string \<Rightarrow> string \<Rightarrow> cstr) \<Rightarrow> edg_wll_JobStat \<Rightarrow> edg_wll_JobStat \<Rightarrow> bool" where
  "same_public ad_ok jdl_attr a b \<longleftrightarrow>
     state a = state b \<and> jobId a = jobId b \<and> jobtype a = jobtype b \<and> destination a = destination b \<and>
     network_server a = network_server b \<and> stateEnterTime a = stateEnterTime b \<and> lastUpdateTime a = lastUpdateTime b \<and>
     stateEnterTimes a = stateEnterTimes b \<and> ui_host a = ui_host b \<and>
     (case (jdl a, jdl b) of
        (Some ja, Some jb) \<Rightarrow> ad_ok ja = ad_ok jb \<and> (\<forall>f\<in>set allowed_jdl_fields. jdl_attr ja f = jdl_attr jb f)
      | (None, None) \<Rightarrow> True
      | _ \<Rightarrow> False)"

lemma blacken_public:
  assumes "same_public ad_ok jdl_attr a b"
  shows "blacken_fields ad_ok jdl_attr unparse_ad a fl = blacken_fields ad_ok jdl_attr unparse_ad b fl"
proof -
  have "jdl_allowed ad_ok jdl_attr unparse_ad (jdl a) = jdl_allowed ad_ok jdl_attr unparse_ad (jdl b)"
  proof (cases "jdl a"; cases "jdl b")
    fix ja jb assume j: "jdl a = Some ja" "jdl b = Some jb"
    then have "ad_ok ja = ad_ok jb" "\<forall>f\<in>set allowed_jdl_fields. jdl_attr ja f = jdl_attr jb f"
      using assms by (simp_all add: same_public_def)
    then have "map (\<lambda>f. case jdl_attr ja f of None \<Rightarrow> [] | Some v \<Rightarrow> [(f, v)]) allowed_jdl_fields =
        map (\<lambda>f. case jdl_attr jb f of None \<Rightarrow> [] | Some v \<Rightarrow> [(f, v)]) allowed_jdl_fields"
      by (intro map_cong) auto
    with \<open>ad_ok ja = ad_ok jb\<close> show ?thesis by (simp only: j jdl_allowed_def option.case)
  qed (use assms in \<open>simp_all add: same_public_def jdl_allowed_def\<close>)
  then show ?thesis using assms unfolding blacken_fields_def same_public_def by simp
qed

text \<open>
  C31. Monitoring learns nothing but the public fields: two jobs whose statuses agree in them, whatever
  their owners, job descriptions and the rest, look the same to a recipient who has the right of monitoring only.
\<close>

theorem monitoring_noninterference:
  assumes "same_public (ne_ad_ok env) (ne_jdl_attr env) a b" and "fl_monitoring fl"
  shows "hide env a fl = hide env b fl"
  using blacken_public[OF assms(1)] assms(2) by (simp add: hide_def)

theorem monitoring_noninterference_witness:
  "hide (ex_env No_salt) (edg_wll_InitStatus\<lparr>state := 5, owner := Some ''/CN=a'', jdl := Some ''x''\<rparr>) \<lparr>fl_anonymized = False, fl_monitoring = True\<rparr> =
   hide (ex_env No_salt) (edg_wll_InitStatus\<lparr>state := 5, owner := Some ''/CN=b'', jdl := Some ''y''\<rparr>) \<lparr>fl_anonymized = False, fl_monitoring = True\<rparr>"
  by (rule monitoring_noninterference) (simp_all add: same_public_def ex_env_def)

text \<open>
  Who has the right of anonymized access and asks for anonymized notifications is refused, while the same
  recipient gets them, anonymized, without asking.
\<close>

theorem anonymize_flag_denies:
  assumes "\<not> noAuth ctx" and "pr_name p = Some n" and "\<not> edg_wll_gss_equal_subj (Some n) (owner stat)"
    and "\<not> equal_mapped (Some n) (owner stat) (id_mapping ctx)" and "\<not> edg_wll_gss_equal_subj (Some n) (payload_owner stat)"
    and "\<And>a. a \<noteq> READ_ANONYMIZED \<Longrightarrow> \<not> check_authz_policy (Some (ctx_policy ctx)) p a"
    and "check_authz_policy (Some (ctx_policy ctx)) p READ_ANONYMIZED" and "pr_fqans p = fq"
  shows "fst (check_jobstat_authz test_user ctx stat True None (Some p)) = False \<and>
    check_jobstat_authz test_user ctx stat False None (Some p) = (True, \<lparr>fl_anonymized = True, fl_monitoring = False\<rparr>)"
proof -
  have "\<not> edg_wll_amIroot (pr_name p) (pr_fqans p) (ctx_policy ctx)"
    using assms(6)[of ADMIN_ACCESS] by (cases p) (simp add: edg_wll_amIroot_def)
  then show ?thesis using assms by (simp add: check_jobstat_authz_def Let_def)
qed

theorem anonymize_flag_denies_witness:
  "fst (check_jobstat_authz (\<lambda>(_ :: unit) _. {}) (ex_ctx ex_policy) edg_wll_InitStatus True None (Some \<lparr>pr_name = Some ''/CN=a'', pr_fqans = []\<rparr>)) = False"
  using anonymize_flag_denies[of "ex_ctx ex_policy" "\<lparr>pr_name = Some ''/CN=a'', pr_fqans = []\<rparr>" "''/CN=a''" edg_wll_InitStatus "[]" "\<lambda>(_ :: unit) _. {}"]
  by (simp add: ex_ctx_def ex_policy_def edg_wll_gss_equal_subj_def edg_wll_gss_normalize_subj_def edg_wll_InitStatus_def
      equal_mapped_def check_authz_policy_def check_rule_def check_attr_def)

text \<open>
  When the salt cannot be read the status is sent with the name of its owner to a recipient who may only
  see it anonymized.
\<close>

lemma anonymization_failure_leaks:
  assumes "ne_salt env = Salt_error \<or> ne_salt env = No_salt \<and> ne_fresh_salt env = None"
  shows "hide env stat \<lparr>fl_anonymized = True, fl_monitoring = False\<rparr> = Inr stat"
  using assms by (auto simp: hide_def anonymize_stat_def get_salt_def)

text \<open>Expired registrations and those that do not match are counted as notifications sent.\<close>

lemma expired_counted_as_sent:
  assumes "ne_now env > n_valid r"
  shows "\<exists>s'. notif_row env ctx oldstat stat r s = Inr (False, s') \<and> nm_sent s' = nm_sent s \<and>
    nm_msg s' + nm_legacy s' = nm_msg s + nm_legacy s + 1"
  using assms by (simp add: notif_row_def count_sent_def)

section \<open>Names of actions\<close>

text \<open>The names in a policy file and the actions determine each other.\<close>

lemma action_names_roundtrip:
  "a \<noteq> ACTION_UNDEF \<Longrightarrow> \<exists>n. action2name a = Some n \<and> find_authz_action n = a"
  by (cases a) (simp_all add: action2name_def find_authz_action_def action_names_def)

end
