(* ===== verification/LB_QueryWhere.thy ===== *)
theory LB_QueryWhere
  imports LB_Query LB_Escape LB_UlmDate
begin

text \<open>
  The text of the SQL condition the bookkeeping server makes of a query
  (\<^verbatim>\<open>jc_to_head_where\<close> and \<^verbatim>\<open>ec_to_head_where\<close> of \<^verbatim>\<open>org.glite.lb.server/src/query.c\<close>): what can
  be found by an index goes into it, for the rest the flag \<^verbatim>\<open>FL_FILTER\<close> asks to evaluate the query
  on each status. Columns of the index are named as in \<^verbatim>\<open>index.c.T\<close>; its table of standard
  attributes is made from the fields marked in \<^verbatim>\<open>status.T\<close>.
\<close>

section \<open>Errors\<close>

text \<open>Going on after a call that may return an error to the caller.\<close>

definition ebind :: "('e + 'a) res \<Rightarrow> ('a \<Rightarrow> ('e + 'b) res) \<Rightarrow> ('e + 'b) res" where
  "ebind m f = rbind m (\<lambda>r. case r of Inl e \<Rightarrow> Inr (Inl e) | Inr x \<Rightarrow> f x)"

lemma ebind_simps [simp]:
  "ebind (Inl flt) f = Inl flt" "ebind (Inr (Inl e)) f = Inr (Inl e)" "ebind (Inr (Inr x)) f = f x"
  by (simp_all add: ebind_def)

lemma ebind_eq_Inr [res_simps]:
  "(ebind m f = Inr (Inr y)) = (\<exists>x. m = Inr (Inr x) \<and> f x = Inr (Inr y))"
proof (cases m)
  case (Inr r)
  then show ?thesis by (cases r) auto
qed simp

section \<open>Columns\<close>

definition std_attrs :: "(string \<times> edg_wll_QueryAttr) list" where
  "std_attrs = [(''owner'', ATTR_OWNER), (''destination'', ATTR_DESTINATION), (''location'', ATTR_LOCATION),
     (''network_server'', ATTR_NETWORK_SERVER), (''stateEnterTime'', ATTR_STATEENTERTIME), (''lastUpdateTime'', ATTR_LASTUPDATETIME)]"

definition column_prefix :: "edg_wll_QueryAttr \<Rightarrow> string" where
  "column_prefix a =
     (case a of
        ATTR_USERTAG \<Rightarrow> ''USR_''
      | ATTR_TIME \<Rightarrow> ''TIME_''
      | ATTR_JDL_ATTR \<Rightarrow> ''JDL_''
      | _ \<Rightarrow> ''STD_'')"

text \<open>The buffer has 100 bytes.\<close>

definition edg_wll_QueryRecToColumn :: "edg_wll_QueryRec \<Rightarrow> cstr res" where
  "edg_wll_QueryRecToColumn rec =
     rbind (case q_attr rec of
        ATTR_USERTAG \<Rightarrow> rbind (deref (id_tag rec)) (\<lambda>t. Inr (Some t))
      | ATTR_JDL_ATTR \<Rightarrow> rbind (deref (id_tag rec)) (\<lambda>t. Inr (Some t))
      | ATTR_TIME \<Rightarrow> Inr (edg_wll_StatToString (id_state rec))
      | a \<Rightarrow> Inr (map_option fst (find (\<lambda>(_, b). b = a) std_attrs))) (\<lambda>name.
     case name of
       None \<Rightarrow> Inr None
     | Some n \<Rightarrow>
         if length (column_prefix (q_attr rec) @ n) < 100 then Inr (Some (column_prefix (q_attr rec) @ n))
         else Inl Out_of_bounds)"

primrec any_column :: "edg_wll_QueryRec list \<Rightarrow> edg_wll_QueryRec \<Rightarrow> bool res" where
  "any_column [] c = Inr False"
| "any_column (col # cols) c = rbind (edg_wll_CmpColumn col c) (\<lambda>b. if b then Inr True else any_column cols c)"

definition is_indexed :: "query_context \<Rightarrow> edg_wll_QueryRec \<Rightarrow> bool res" where
  "is_indexed ctx c =
     (case job_index ctx of
        None \<Rightarrow> Inr False
      | Some is \<Rightarrow> any_column (concat is) c)"

text \<open>The column of a condition, if there is an index on it.\<close>

definition indexed_column :: "query_context \<Rightarrow> edg_wll_QueryRec \<Rightarrow> cstr res" where
  "indexed_column ctx c = rbind (is_indexed ctx c) (\<lambda>b. if b then edg_wll_QueryRecToColumn c else Inr None)"

section \<open>Conditions on jobs\<close>

datatype where_error = Wh_EINVAL | Wh_EPERM

record where_flags =
  fl_sel_status :: bool
  fl_sel_job :: bool
  fl_filter :: bool
  fl_sel_jdl :: bool

definition opToString :: "edg_wll_QueryOp \<Rightarrow> string" where
  "opToString q = (case q of OP_EQUAL \<Rightarrow> ''='' | OP_UNEQUAL \<Rightarrow> ''!='' | OP_LESS \<Rightarrow> ''<'' | _ \<Rightarrow> ''>'')"

definition glite_lbu_TimeToStr :: "int \<Rightarrow> string" where
  "glite_lbu_TimeToStr t =
     (case gmtime t of (y, m, d, h, mi, s) \<Rightarrow>
        APO # replicate (4 - length (show_nat y)) CHR '' '' @ show_nat y @ ''-'' @ show_pad 2 (int m) @ ''-'' @ show_pad 2 (int d) @
          '' '' @ show_pad 2 (int h) @ '':'' @ show_pad 2 (int mi) @ '':'' @ show_pad 2 (int s) @ [APO])"

text \<open>The argument of the format \<^verbatim>\<open>%|Ss\<close>.\<close>

definition sql_arg :: "cstr \<Rightarrow> string res" where
  "sql_arg x = rbind (glite_lbu_EscapeSQL x) (\<lambda>e. Inr (case e of None \<Rightarrow> ''(nil)'' | Some s \<Rightarrow> s))"

definition quoted :: "string \<Rightarrow> string" where
  "quoted s = APO # s @ [APO]"

definition only_equality :: "edg_wll_QueryOp \<Rightarrow> bool" where
  "only_equality q \<longleftrightarrow> q = OP_EQUAL \<or> q = OP_UNEQUAL"

definition jc_allowed :: "edg_wll_QueryRec \<Rightarrow> bool" where
  "jc_allowed c =
     (case q_attr c of
        ATTR_JOBID \<Rightarrow> only_equality (q_op c) \<or> q_op c = OP_GREATER
      | ATTR_OWNER \<Rightarrow> only_equality (q_op c)
      | ATTR_LOCATION \<Rightarrow> only_equality (q_op c)
      | ATTR_DESTINATION \<Rightarrow> only_equality (q_op c)
      | ATTR_NETWORK_SERVER \<Rightarrow> only_equality (q_op c)
      | ATTR_PARENT \<Rightarrow> only_equality (q_op c)
      | ATTR_RESUBMITTED \<Rightarrow> only_equality (q_op c)
      | ATTR_TIME \<Rightarrow> id_state c \<noteq> EDG_WLL_JOB_UNDEF
      | ATTR_DONECODE \<Rightarrow> True
      | ATTR_EXITCODE \<Rightarrow> True
      | ATTR_STATUS \<Rightarrow> True
      | ATTR_STATEENTERTIME \<Rightarrow> True
      | ATTR_LASTUPDATETIME \<Rightarrow> True
      | ATTR_USERTAG \<Rightarrow> True
      | ATTR_JDL_ATTR \<Rightarrow> only_equality (q_op c)
      | ATTR_JOB_TYPE \<Rightarrow> only_equality (q_op c)
      | ATTR_VM_STATUS \<Rightarrow> only_equality (q_op c)
      | _ \<Rightarrow> False)"

text \<open>All conditions of a clause must be on the attribute, or the tag, of the first one.\<close>

definition same_column :: "edg_wll_QueryRec \<Rightarrow> edg_wll_QueryRec \<Rightarrow> bool res" where
  "same_column c0 c =
     (if q_attr c0 \<noteq> q_attr c then Inr False
      else if q_attr c = ATTR_USERTAG then rbind (deref (id_tag c0)) (\<lambda>a. rbind (deref (id_tag c)) (\<lambda>b. Inr (a = b)))
      else Inr True)"

primrec check_clause :: "edg_wll_QueryRec \<Rightarrow> edg_wll_QueryRec list \<Rightarrow> bool res" where
  "check_clause c0 [] = Inr True"
| "check_clause c0 (c # cs) =
     rbind (same_column c0 c) (\<lambda>b. if b \<and> jc_allowed c then check_clause c0 cs else Inr False)"

primrec jc_check :: "conditions \<Rightarrow> bool res" where
  "jc_check [] = Inr True"
| "jc_check (cl # cls) = rbind (check_clause (hd cl) cl) (\<lambda>b. if b then jc_check cls else Inr False)"

text \<open>The text of one condition, if it goes into the SQL condition, and the flags.\<close>

definition time_atom :: "string \<Rightarrow> edg_wll_QueryRec \<Rightarrow> string" where
  "time_atom col c =
     (if q_op c = OP_WITHIN then
        ''(s.'' @ col @ '' >= '' @ glite_lbu_TimeToStr (tv_sec (qv_t (q_value c))) @ '' AND s.'' @ col @ '' <= '' @
          glite_lbu_TimeToStr (tv_sec (qv_t (q_value2 c))) @ '')''
      else ''s.'' @ col @ '' '' @ opToString (q_op c) @ '' '' @ glite_lbu_TimeToStr (tv_sec (qv_t (q_value c))))"

definition num_atom :: "string \<Rightarrow> edg_wll_QueryRec \<Rightarrow> string" where
  "num_atom col c =
     (if q_op c = OP_WITHIN then
        ''(s.'' @ col @ '' >= '' @ show_int (qv_i (q_value c)) @ '' AND s.'' @ col @ '' <= '' @ show_int (qv_i (q_value2 c)) @ '')''
      else ''s.'' @ col @ '' '' @ opToString (q_op c) @ '' '' @ show_int (qv_i (q_value c)))"

text \<open>These values are printed by \<^verbatim>\<open>%s\<close>, without escaping.\<close>

definition text_atom :: "string \<Rightarrow> edg_wll_QueryRec \<Rightarrow> string" where
  "text_atom col c =
     ''s.'' @ col @ opToString (q_op c) @ quoted (case qv_c (q_value c) of None \<Rightarrow> ''(null)'' | Some v \<Rightarrow> v)"

definition owner_atom :: "query_context \<Rightarrow> string \<Rightarrow> edg_wll_QueryRec \<Rightarrow> (where_error + string) res" where
  "owner_atom ctx col c =
     (if qv_c (q_value c) = None \<and> peerName ctx = None then Inr (Inl Wh_EPERM)
      else
        rbind (sql_arg (edg_wll_gss_normalize_subj (if qv_c (q_value c) = None then peerName ctx else qv_c (q_value c)))) (\<lambda>v.
        Inr (Inr (''s.'' @ col @ opToString (q_op c) @ quoted v))))"

text \<open>A condition whose column has an index; otherwise the flags are \<open>fl_no\<close>.\<close>

definition by_column ::
  "query_context \<Rightarrow> edg_wll_QueryRec \<Rightarrow> where_flags \<Rightarrow> (string \<Rightarrow> (where_error + string) res) \<Rightarrow> where_flags \<Rightarrow>
   (where_error + string option \<times> where_flags) res" where
  "by_column ctx c fl atom fl_no =
     rbind (indexed_column ctx c) (\<lambda>col. case col of
       None \<Rightarrow> Inr (Inr (None, fl_no))
     | Some cname \<Rightarrow>
         ebind (atom cname) (\<lambda>t. Inr (Inr (Some t, fl\<lparr>fl_sel_status := True\<rparr>))))"

definition jc_atom :: "query_context \<Rightarrow> edg_wll_QueryRec \<Rightarrow> where_flags \<Rightarrow> (where_error + string option \<times> where_flags) res" where
  "jc_atom ctx c fl =
     (case q_attr c of
           ATTR_TIME \<Rightarrow> by_column ctx c fl (\<lambda>n. Inr (Inr (time_atom n c))) (fl\<lparr>fl_filter := True\<rparr>)
         | ATTR_STATEENTERTIME \<Rightarrow> by_column ctx c fl (\<lambda>n. Inr (Inr (time_atom n c))) (fl\<lparr>fl_filter := True\<rparr>)
         | ATTR_LASTUPDATETIME \<Rightarrow> by_column ctx c fl (\<lambda>n. Inr (Inr (time_atom n c))) (fl\<lparr>fl_filter := True\<rparr>)
         | ATTR_JOBID \<Rightarrow>
             rbind (sql_arg (glite_jobid_getUnique (qv_j (q_value c)))) (\<lambda>v.
             Inr (Inr (Some (''j.jobid'' @ opToString (q_op c) @ quoted v), fl\<lparr>fl_sel_job := True\<rparr>)))
         | ATTR_PARENT \<Rightarrow>
             rbind (sql_arg (glite_jobid_getUnique (qv_j (q_value c)))) (\<lambda>v.
             Inr (Inr (Some (''s.parent_job'' @ opToString (q_op c) @ quoted v), fl\<lparr>fl_sel_status := True\<rparr>)))
         | ATTR_OWNER \<Rightarrow> by_column ctx c fl (\<lambda>n. owner_atom ctx n c) (fl\<lparr>fl_filter := True\<rparr>)
         | ATTR_DONECODE \<Rightarrow> by_column ctx c fl (\<lambda>n. Inr (Inr (num_atom n c))) (fl\<lparr>fl_filter := True\<rparr>)
         | ATTR_EXITCODE \<Rightarrow> by_column ctx c fl (\<lambda>n. Inr (Inr (num_atom n c))) (fl\<lparr>fl_filter := True\<rparr>)
         | ATTR_STATUS \<Rightarrow> by_column ctx c fl (\<lambda>n. Inr (Inr (num_atom n c))) (fl\<lparr>fl_filter := True\<rparr>)
         | ATTR_JOB_TYPE \<Rightarrow> by_column ctx c fl (\<lambda>n. Inr (Inr (num_atom n c))) (fl\<lparr>fl_filter := True\<rparr>)
         | ATTR_VM_STATUS \<Rightarrow> by_column ctx c fl (\<lambda>n. Inr (Inr (num_atom n c))) (fl\<lparr>fl_filter := True\<rparr>)
         | ATTR_DESTINATION \<Rightarrow> by_column ctx c fl (\<lambda>n. Inr (Inr (text_atom n c))) (fl\<lparr>fl_filter := True, fl_sel_jdl := True\<rparr>)
         | ATTR_NETWORK_SERVER \<Rightarrow> by_column ctx c fl (\<lambda>n. Inr (Inr (text_atom n c))) (fl\<lparr>fl_filter := True, fl_sel_jdl := True\<rparr>)
         | ATTR_LOCATION \<Rightarrow> by_column ctx c fl (\<lambda>n. Inr (Inr (text_atom n c))) (fl\<lparr>fl_filter := True, fl_sel_jdl := True\<rparr>)
         | ATTR_RESUBMITTED \<Rightarrow> by_column ctx c fl (\<lambda>n. Inr (Inr (text_atom n c))) (fl\<lparr>fl_filter := True, fl_sel_jdl := True\<rparr>)
         | ATTR_USERTAG \<Rightarrow> by_column ctx c fl (\<lambda>n. Inr (Inr (text_atom n c))) (fl\<lparr>fl_filter := True, fl_sel_jdl := True\<rparr>)
         | ATTR_JDL_ATTR \<Rightarrow> by_column ctx c fl (\<lambda>n. Inr (Inr (text_atom n c))) (fl\<lparr>fl_filter := True, fl_sel_jdl := True\<rparr>)
         | _ \<Rightarrow> Inr (Inr (None, fl\<lparr>fl_filter := True\<rparr>)))"

text \<open>Texts are collected with a separator in between; nothing collected is a null pointer.\<close>

definition add_text :: "string \<Rightarrow> cstr \<Rightarrow> cstr \<Rightarrow> cstr" where
  "add_text sep acc t =
     (case t of
        None \<Rightarrow> acc
      | Some s \<Rightarrow> Some (case acc of None \<Rightarrow> s | Some a \<Rightarrow> a @ sep @ s))"

primrec jc_clause :: "query_context \<Rightarrow> edg_wll_QueryRec list \<Rightarrow> cstr \<Rightarrow> where_flags \<Rightarrow> (where_error + cstr \<times> where_flags) res" where
  "jc_clause ctx [] conds fl = Inr (Inr (conds, fl))"
| "jc_clause ctx (c # cs) conds fl =
     ebind (jc_atom ctx c fl) (\<lambda>(t, fl). jc_clause ctx cs (add_text '' OR '' conds t) fl)"

primrec jc_clauses :: "query_context \<Rightarrow> conditions \<Rightarrow> cstr \<Rightarrow> where_flags \<Rightarrow> (where_error + cstr \<times> where_flags) res" where
  "jc_clauses ctx [] retconds fl = Inr (Inr (retconds, fl))"
| "jc_clauses ctx (cl # cls) retconds fl =
     ebind (jc_clause ctx cl None fl) (\<lambda>(conds, fl).
       jc_clauses ctx cls (add_text '' AND '' retconds (map_option (\<lambda>t. ''('' @ t @ '')'') conds)) fl)"

definition jc_to_head_where :: "query_context \<Rightarrow> conditions \<Rightarrow> where_flags \<Rightarrow> (where_error + cstr \<times> where_flags) res" where
  "jc_to_head_where ctx jc fl =
     rbind (jc_check jc) (\<lambda>ok.
     if \<not> ok \<or> concat jc = [] then Inr (Inl Wh_EINVAL) else jc_clauses ctx jc None fl)"

section \<open>Conditions on events\<close>

abbreviation EDG_WLL_EVENT_USERTAG :: int where "EDG_WLL_EVENT_USERTAG \<equiv> 21"

definition ec_allowed :: "edg_wll_QueryRec \<Rightarrow> bool" where
  "ec_allowed c =
     (case q_attr c of
        ATTR_HOST \<Rightarrow> only_equality (q_op c)
      | ATTR_SOURCE \<Rightarrow> only_equality (q_op c)
      | ATTR_USERTAG \<Rightarrow> only_equality (q_op c)
      | ATTR_JDL_ATTR \<Rightarrow> only_equality (q_op c)
      | ATTR_INSTANCE \<Rightarrow> only_equality (q_op c)
      | ATTR_JOB_TYPE \<Rightarrow> only_equality (q_op c)
      | ATTR_VM_STATUS \<Rightarrow> only_equality (q_op c)
      | ATTR_EVENT_TYPE \<Rightarrow> True
      | ATTR_LEVEL \<Rightarrow> True
      | ATTR_TIME \<Rightarrow> True
      | ATTR_STATEENTERTIME \<Rightarrow> True
      | ATTR_LASTUPDATETIME \<Rightarrow> True
      | _ \<Rightarrow> False)"

definition ec_num :: "string \<Rightarrow> edg_wll_QueryRec \<Rightarrow> string" where
  "ec_num col c =
     (if q_op c = OP_WITHIN then
        ''('' @ col @ '' >= '' @ show_int (qv_i (q_value c)) @ '' AND '' @ col @ '' <= '' @ show_int (qv_i (q_value2 c)) @ '')''
      else col @ '' '' @ opToString (q_op c) @ '' '' @ show_int (qv_i (q_value c)))"

definition ec_time :: "edg_wll_QueryRec \<Rightarrow> string" where
  "ec_time c =
     (let dbt = glite_lbu_TimeToStr (tv_sec (qv_t (q_value c))) in
      if q_op c = OP_WITHIN then
        ''(e.time_stamp >= '' @ dbt @ '' AND e.time_stamp <= '' @ glite_lbu_TimeToStr (tv_sec (qv_t (q_value2 c))) @ '')''
      else if q_op c = OP_EQUAL then
        ''(e.time_stamp = '' @ dbt @ '' AND e.usec = '' @ show_int (tv_usec (qv_t (q_value c))) @ '')''
      else ''e.time_stamp '' @ opToString (q_op c) @ '' '' @ dbt)"

text \<open>The names of sources are an array of the common library; other attributes end the function.\<close>

definition ec_atom :: "(int \<Rightarrow> cstr) \<Rightarrow> edg_wll_QueryRec \<Rightarrow> string option res" where
  "ec_atom sourceToString c =
     (case q_attr c of
        ATTR_TIME \<Rightarrow> Inr (Some (ec_time c))
      | ATTR_STATEENTERTIME \<Rightarrow> Inr (Some (ec_time c))
      | ATTR_LASTUPDATETIME \<Rightarrow> Inr (Some (ec_time c))
      | ATTR_LEVEL \<Rightarrow> Inr (Some (ec_num ''e.level'' c))
      | ATTR_SOURCE \<Rightarrow>
          rbind (sql_arg (sourceToString (qv_i (q_value c)))) (\<lambda>v. Inr (Some (''e.prog '' @ opToString (q_op c) @ '' '' @ quoted v)))
      | ATTR_HOST \<Rightarrow>
          rbind (sql_arg (qv_c (q_value c))) (\<lambda>v. Inr (Some (''e.host '' @ opToString (q_op c) @ '' '' @ quoted v)))
      | ATTR_USERTAG \<Rightarrow> Inr (Some (''e.code = '' @ show_int EDG_WLL_EVENT_USERTAG))
      | ATTR_EVENT_TYPE \<Rightarrow> Inr (Some (ec_num ''e.code'' c))
      | _ \<Rightarrow> Inr None)"

primrec ec_clause :: "(int \<Rightarrow> cstr) \<Rightarrow> edg_wll_QueryRec list \<Rightarrow> cstr \<Rightarrow> cstr option res" where
  "ec_clause src [] conds = Inr (Some conds)"
| "ec_clause src (c # cs) conds =
     rbind (ec_atom src c) (\<lambda>t. case t of
       None \<Rightarrow> Inr None
     | Some s \<Rightarrow> ec_clause src cs (add_text '' OR '' conds (Some s)))"

text \<open>The outer option is the early return of a null pointer without an error.\<close>

primrec ec_clauses :: "(int \<Rightarrow> cstr) \<Rightarrow> conditions \<Rightarrow> cstr \<Rightarrow> cstr option res" where
  "ec_clauses src [] retconds = Inr (Some retconds)"
| "ec_clauses src (cl # cls) retconds =
     (if list_ex (\<lambda>c. q_attr c = ATTR_INSTANCE) cl then ec_clauses src cls retconds
      else
        rbind (ec_clause src cl None) (\<lambda>r. case r of
          None \<Rightarrow> Inr None
        | Some conds \<Rightarrow> ec_clauses src cls (add_text '' AND '' retconds (map_option (\<lambda>t. ''('' @ t @ '')'') conds))))"

definition ec_to_head_where :: "(int \<Rightarrow> cstr) \<Rightarrow> conditions \<Rightarrow> (where_error + cstr) res" where
  "ec_to_head_where src ec =
     (if \<not> list_all (list_all ec_allowed) ec \<or> concat ec = [] then Inr (Inl Wh_EINVAL)
      else rbind (ec_clauses src ec None) (\<lambda>r. Inr (Inr (case r of None \<Rightarrow> None | Some t \<Rightarrow> t))))"

section \<open>The text is a conjunction of disjunctions\<close>

text \<open>Texts with a separator in between; no text at all is a null pointer.\<close>

definition joined :: "string \<Rightarrow> string list \<Rightarrow> cstr" where
  "joined sep ts = (case ts of [] \<Rightarrow> None | t # ts \<Rightarrow> Some (t @ concat (map (\<lambda>s. sep @ s) ts)))"

lemma joined_simps [simp]:
  "joined sep [] = None"
  "joined sep (t # ts) = Some (t @ concat (map (\<lambda>s. sep @ s) ts))"
  by (simp_all add: joined_def)

lemma joined_snoc: "joined sep (ts @ [t]) = add_text sep (joined sep ts) (Some t)"
  by (cases ts) (simp_all add: add_text_def)

lemma add_text_None [simp]: "add_text sep acc None = acc"
  by (simp add: add_text_def)

lemma by_column_flags:
  assumes "by_column ctx c fl atom fl_no = Inr (Inr (t, fl'))" and "fl_filter fl_no"
  shows "fl_filter fl' \<longleftrightarrow> fl_filter fl \<or> t = None"
    and "\<exists>fl1. by_column ctx c fl0 atom fl_no0 = Inr (Inr (t, fl1))"
  using assms by (auto simp: by_column_def res_simps split: option.split_asm)

lemma jc_atom_flags:
  assumes "jc_atom ctx c fl = Inr (Inr (t, fl'))"
  shows "fl_filter fl' \<longleftrightarrow> fl_filter fl \<or> t = None"
    and "\<exists>fl1. jc_atom ctx c fl0 = Inr (Inr (t, fl1))"
proof -
  have "(fl_filter fl' \<longleftrightarrow> fl_filter fl \<or> t = None) \<and> (\<exists>fl1. jc_atom ctx c fl0 = Inr (Inr (t, fl1)))"
    using assms by (cases "q_attr c") (auto simp: jc_atom_def res_simps dest: by_column_flags)
  then show "fl_filter fl' \<longleftrightarrow> fl_filter fl \<or> t = None" "\<exists>fl1. jc_atom ctx c fl0 = Inr (Inr (t, fl1))" by blast+
qed

text \<open>The text of a condition in the SQL condition, if it has one.\<close>

definition atom_text :: "query_context \<Rightarrow> where_flags \<Rightarrow> edg_wll_QueryRec \<Rightarrow> string option \<Rightarrow> bool" where
  "atom_text ctx fl c t \<longleftrightarrow> (\<exists>fl'. jc_atom ctx c fl = Inr (Inr (t, fl')))"

definition somes :: "'a option list \<Rightarrow> 'a list" where
  "somes xs = map the (filter (\<lambda>x. x \<noteq> None) xs)"

lemma somes_simps [simp]:
  "somes [] = []" "somes (None # xs) = somes xs" "somes (Some x # xs) = x # somes xs"
  by (simp_all add: somes_def)

lemma somes_append [simp]: "somes (xs @ ys) = somes xs @ somes ys"
  by (simp add: somes_def)

lemma add_text_joined: "add_text sep (joined sep ts) t = joined sep (ts @ somes [t])"
  by (cases t) (simp_all add: joined_snoc)

lemma jc_clause_text:
  assumes "jc_clause ctx cl (joined '' OR '' ts) fl = Inr (Inr (w, fl'))"
  shows "\<exists>us. list_all2 (atom_text ctx fl0) cl us \<and> w = joined '' OR '' (ts @ somes us) \<and>
    (fl_filter fl' \<longleftrightarrow> fl_filter fl \<or> None \<in> set us)"
  using assms
proof (induction cl arbitrary: ts fl)
  case Nil
  then show ?case by simp
next
  case (Cons c cl)
  from Cons.prems obtain t fl1 where a: "jc_atom ctx c fl = Inr (Inr (t, fl1))"
    and r: "jc_clause ctx cl (joined '' OR '' (ts @ somes [t])) fl1 = Inr (Inr (w, fl'))"
    by (auto simp: res_simps add_text_joined)
  obtain us where us: "list_all2 (atom_text ctx fl0) cl us" "w = joined '' OR '' ((ts @ somes [t]) @ somes us)"
    "fl_filter fl' \<longleftrightarrow> fl_filter fl1 \<or> None \<in> set us" using Cons.IH[OF r] by blast
  have "atom_text ctx fl0 c t" using jc_atom_flags(2)[OF a] by (simp add: atom_text_def)
  moreover have "somes [t] @ somes us = somes (t # us)" by (cases t) simp_all
  ultimately show ?case using us jc_atom_flags(1)[OF a] by (intro exI[of _ "t # us"]) auto
qed

lemma jc_clauses_text:
  assumes "jc_clauses ctx jc (joined '' AND '' ts) fl = Inr (Inr (w, fl'))"
  shows "\<exists>uss. list_all2 (list_all2 (atom_text ctx fl0)) jc uss \<and>
    w = joined '' AND '' (ts @ map (\<lambda>t. ''('' @ t @ '')'') (somes (map (\<lambda>us. joined '' OR '' (somes us)) uss))) \<and>
    (fl_filter fl' \<longleftrightarrow> fl_filter fl \<or> None \<in> set (concat uss))"
  using assms
proof (induction jc arbitrary: ts fl)
  case Nil
  then show ?case by simp
next
  case (Cons cl jc)
  let ?par = "\<lambda>t. ''('' @ t @ '')''"
  from Cons.prems obtain conds fl1 where a: "jc_clause ctx cl (joined '' OR '' []) fl = Inr (Inr (conds, fl1))"
    and r: "jc_clauses ctx jc (joined '' AND '' (ts @ somes [map_option ?par conds])) fl1 = Inr (Inr (w, fl'))"
    by (auto simp: res_simps add_text_joined)
  obtain us where us: "list_all2 (atom_text ctx fl0) cl us" "conds = joined '' OR '' (somes us)"
    "fl_filter fl1 \<longleftrightarrow> fl_filter fl \<or> None \<in> set us" using jc_clause_text[OF a] by auto
  obtain uss where uss: "list_all2 (list_all2 (atom_text ctx fl0)) jc uss"
    "w = joined '' AND '' ((ts @ somes [map_option ?par conds]) @ map ?par (somes (map (\<lambda>us. joined '' OR '' (somes us)) uss)))"
    "fl_filter fl' \<longleftrightarrow> fl_filter fl1 \<or> None \<in> set (concat uss)" using Cons.IH[OF r] by blast
  have "somes [map_option ?par conds] @ map ?par (somes (map (\<lambda>us. joined '' OR '' (somes us)) uss)) =
      map ?par (somes (map (\<lambda>us. joined '' OR '' (somes us)) (us # uss)))"
    by (cases "joined '' OR '' (somes us)") (simp_all add: us(2))
  then show ?case using us uss by (intro exI[of _ "us # uss"]) auto
qed

text \<open>
  C39. The SQL condition is the conjunction of the clauses of the query, each in parentheses and the
  disjunction of the texts of its conditions; conditions without an index are left out, and exactly when
  one is left out the result has to be filtered. Clauses without any text are left out whole.
\<close>

theorem where_text_shape:
  assumes "jc_to_head_where ctx jc fl = Inr (Inr (w, fl'))"
  shows "\<exists>uss. list_all2 (list_all2 (atom_text ctx fl)) jc uss \<and>
    w = joined '' AND '' (map (\<lambda>t. ''('' @ t @ '')'') (somes (map (\<lambda>us. joined '' OR '' (somes us)) uss))) \<and>
    (fl_filter fl' \<longleftrightarrow> fl_filter fl \<or> None \<in> set (concat uss))"
proof -
  have "jc_clauses ctx jc (joined '' AND '' []) fl = Inr (Inr (w, fl'))"
    using assms by (auto simp: jc_to_head_where_def res_simps split: if_splits)
  from jc_clauses_text[OF this] show ?thesis by simp
qed

text \<open>Conditions and an index for examples.\<close>

definition tag_condition :: "edg_wll_QueryAttr \<Rightarrow> edg_wll_QueryOp \<Rightarrow> string \<Rightarrow> string \<Rightarrow> edg_wll_QueryRec" where
  "tag_condition a q t v =
     (let val = \<lparr>qv_i = 0, qv_c = Some v, qv_t = null_timeval, qv_j = None\<rparr>
      in \<lparr>q_attr = a, q_op = q, id_tag = Some t, id_state = 0, q_value = val, q_value2 = val\<rparr>)"

definition tag_index :: "edg_wll_QueryAttr \<Rightarrow> string \<Rightarrow> query_context" where
  "tag_index a t = \<lparr>peerName = None, srvName = None, srvPort = 0, isProxy = False, job_index = Some [[tag_condition a OP_EQUAL t []]]\<rparr>"

definition no_flags :: where_flags where
  "no_flags = \<lparr>fl_sel_status = False, fl_sel_job = False, fl_filter = False, fl_sel_jdl = False\<rparr>"

lemma tag_where:
  assumes "a = ATTR_USERTAG \<or> a = ATTR_JDL_ATTR" and "length t < 90"
  shows "jc_to_head_where (tag_index a t) [[tag_condition a OP_EQUAL t v]] no_flags =
    Inr (Inr (Some (''(s.'' @ column_prefix a @ t @ ''='' @ quoted v @ '')''), no_flags\<lparr>fl_sel_status := True\<rparr>))"
  using assms
  by (auto simp: jc_to_head_where_def same_column_def jc_allowed_def only_equality_def jc_atom_def by_column_def
      indexed_column_def is_indexed_def tag_index_def tag_condition_def edg_wll_CmpColumn_def edg_wll_QueryRecToColumn_def
      column_prefix_def text_atom_def opToString_def add_text_def Let_def)

theorem where_text_shape_witness:
  "\<exists>uss. list_all2 (list_all2 (atom_text (tag_index ATTR_USERTAG ''a'') no_flags)) [[tag_condition ATTR_USERTAG OP_EQUAL ''a'' ''b'']] uss \<and>
    Some (''(s.USR_a='' @ quoted ''b'' @ '')'') =
      joined '' AND '' (map (\<lambda>t. ''('' @ t @ '')'') (somes (map (\<lambda>us. joined '' OR '' (somes us)) uss))) \<and>
    None \<notin> set (concat uss)"
  using where_text_shape[OF tag_where[of ATTR_USERTAG "''a''" "''b''"]]
  by (simp add: column_prefix_def no_flags_def)

text \<open>
  Values of tags and of attributes of the job description go into the SQL condition as they are: a value
  with a quote in it ends the literal there, and what follows in the value is read as SQL.
\<close>

theorem where_sql_injection:
  assumes "a = ATTR_USERTAG \<or> a = ATTR_JDL_ATTR" and "length t < 90"
    and "APO \<notin> set u" and "BS \<notin> set u" and "r \<noteq> []" and "hd r \<noteq> APO"
  shows "\<exists>front text. jc_to_head_where (tag_index a t) [[tag_condition a OP_EQUAL t (u @ APO # r)]] no_flags =
      Inr (Inr (Some (front @ APO # text), no_flags\<lparr>fl_sel_status := True\<rparr>)) \<and>
    front = ''(s.'' @ column_prefix a @ t @ ''='' \<and>
    sql_literal text = Some (u, r @ APO # '')'')"
proof -
  have "sql_literal (u @ APO # r @ APO # '')'') = Some (u, r @ APO # '')'')"
    using assms(3-6)
  proof (induction u)
    case Nil
    then show ?case by (cases r) auto
  next
    case (Cons c u)
    obtain x xs where x: "u @ APO # r @ APO # '')'' = x # xs" by (cases "u @ APO # r @ APO # '')''") auto
    have "sql_literal (x # xs) = Some (u, r @ APO # '')'')" using Cons x by simp
    then show ?case using Cons.prems x by auto
  qed
  then show ?thesis
    using tag_where[OF assms(1,2), of "u @ APO # r"] by (simp add: quoted_def)
qed

theorem where_sql_injection_witness:
  "\<exists>front text. jc_to_head_where (tag_index ATTR_USERTAG ''a'')
      [[tag_condition ATTR_USERTAG OP_EQUAL ''a'' (''x'' @ APO # '' OR 1=1) -- '')]] no_flags =
      Inr (Inr (Some (front @ APO # text), no_flags\<lparr>fl_sel_status := True\<rparr>)) \<and>
    front = ''(s.USR_a='' \<and> sql_literal text = Some (''x'', '' OR 1=1) -- '' @ APO # '')'')"
  using where_sql_injection[of ATTR_USERTAG "''a''" "''x''" "'' OR 1=1) -- ''"]
  by (simp add: column_prefix_def)

text \<open>
  A clause of two attributes of the job description, one of them with an index, keeps in the SQL
  condition only the one with the index: jobs that satisfy the other one are not found.
\<close>

lemma mixed_clause_drops:
  "jc_to_head_where (tag_index ATTR_JDL_ATTR ''a'')
     [[tag_condition ATTR_JDL_ATTR OP_EQUAL ''a'' ''1'', tag_condition ATTR_JDL_ATTR OP_EQUAL ''b'' ''2'']] no_flags =
   Inr (Inr (Some (''(s.JDL_a='' @ quoted ''1'' @ '')''),
     \<lparr>fl_sel_status = True, fl_sel_job = False, fl_filter = True, fl_sel_jdl = True\<rparr>))"
  by (simp add: jc_to_head_where_def same_column_def jc_allowed_def only_equality_def jc_atom_def by_column_def
      indexed_column_def is_indexed_def tag_index_def tag_condition_def edg_wll_CmpColumn_def edg_wll_QueryRecToColumn_def
      column_prefix_def text_atom_def opToString_def add_text_def Let_def no_flags_def strcaseeq_def tolower_def)

end
