(* ===== verification/LB_QueryProps.thy ===== *)
theory LB_QueryProps
  imports LB_Query
begin

text \<open>
  What the conditions of queries mean: the value of the attribute of the job is compared with the
  operand as the operator says, a clause needs one of its conditions and a query all of its
  clauses.
\<close>

section \<open>Clauses\<close>

lemma match_clause_Inr:
  assumes "\<And>c. c \<in> set cs \<Longrightarrow> f c = Inr (P c)"
  shows "match_clause f cs = Inr (\<exists>c\<in>set cs. P c)"
  using assms by (induction cs) auto

lemma match_clauses_Inr:
  assumes "\<And>cl c. cl \<in> set cls \<Longrightarrow> c \<in> set cl \<Longrightarrow> f c = Inr (P c)"
  shows "match_clauses f cls = Inr (\<forall>cl\<in>set cls. \<exists>c\<in>set cl. P c)"
  using assms
proof (induction cls)
  case (Cons cl cls)
  then have "match_clause f cl = Inr (\<exists>c\<in>set cl. P c)" by (intro match_clause_Inr) auto
  then show ?case using Cons by auto
qed simp

section \<open>The meaning of a condition\<close>

datatype job_value = Absent | Number int | Text string | Person string

definition time_value :: "int \<Rightarrow> job_value" where
  "time_value t = (if t = 0 then Absent else Number t)"

definition text_value :: "cstr \<Rightarrow> job_value" where
  "text_value x = (case x of None \<Rightarrow> Absent | Some s \<Rightarrow> Text s)"

text \<open>The value of the attribute in the status of a job.\<close>

definition attribute :: "(string \<Rightarrow> string \<Rightarrow> cstr) \<Rightarrow> edg_wll_JobStat \<Rightarrow> edg_wll_QueryRec \<Rightarrow> job_value" where
  "attribute jdl_attr stat c =
     (case q_attr c of
        ATTR_STATUS \<Rightarrow> Number (state stat)
      | ATTR_RESUBMITTED \<Rightarrow> Number (resubmitted stat)
      | ATTR_DONECODE \<Rightarrow> Number (done_code stat)
      | ATTR_EXITCODE \<Rightarrow> Number (exit_code stat)
      | ATTR_JOB_TYPE \<Rightarrow> Number (jobtype stat)
      | ATTR_VM_STATUS \<Rightarrow> Number (vm_state stat)
      | ATTR_STATEENTERTIME \<Rightarrow> time_value (tv_sec (stateEnterTime stat))
      | ATTR_LASTUPDATETIME \<Rightarrow> time_value (tv_sec (lastUpdateTime stat))
      | ATTR_TIME \<Rightarrow>
          (case stateEnterTimes stat of None \<Rightarrow> Absent | Some ts \<Rightarrow> time_value (ts ! nat (1 + id_state c)))
      | ATTR_OWNER \<Rightarrow> (case owner stat of None \<Rightarrow> Absent | Some s \<Rightarrow> Person s)
      | ATTR_LOCATION \<Rightarrow> text_value (location stat)
      | ATTR_DESTINATION \<Rightarrow> text_value (destination stat)
      | ATTR_NETWORK_SERVER \<Rightarrow> text_value (network_server stat)
      | ATTR_JOBID \<Rightarrow> text_value (glite_jobid_unparse (jobId stat))
      | ATTR_PARENT \<Rightarrow> text_value (glite_jobid_unparse (parent_job stat))
      | ATTR_USERTAG \<Rightarrow>
          (case find (\<lambda>(t, _). strcaseeq (the (id_tag c)) t) (case user_tags stat of None \<Rightarrow> [] | Some ts \<Rightarrow> ts) of
             None \<Rightarrow> Absent
           | Some (_, v) \<Rightarrow> Text v)
      | ATTR_JDL_ATTR \<Rightarrow>
          (case jdl stat of
             None \<Rightarrow> Absent
           | Some ad \<Rightarrow> if ad = ''blabla'' then Absent else text_value (jdl_attr ad (the (id_tag c))))
      | _ \<Rightarrow> Absent)"

text \<open>The operand of a condition; a condition on the owner without a name means the client.\<close>

definition operand :: "cstr \<Rightarrow> edg_wll_QueryAttr \<Rightarrow> edg_wll_QueryVal \<Rightarrow> job_value" where
  "operand peer a v =
     (if a \<in> {ATTR_STATUS, ATTR_RESUBMITTED, ATTR_DONECODE, ATTR_EXITCODE, ATTR_JOB_TYPE, ATTR_VM_STATUS} then Number (qv_i v)
      else if a \<in> {ATTR_STATEENTERTIME, ATTR_LASTUPDATETIME, ATTR_TIME} then Number (tv_sec (qv_t v))
      else if a = ATTR_OWNER then (case (if qv_c v = None then peer else qv_c v) of None \<Rightarrow> Absent | Some s \<Rightarrow> Person s)
      else if a \<in> {ATTR_JOBID, ATTR_PARENT} then text_value (glite_jobid_unparse (qv_j v))
      else text_value (qv_c v))"

fun same_value :: "job_value \<Rightarrow> job_value \<Rightarrow> bool" where
  "same_value (Person a) (Person b) = edg_wll_gss_equal_subj (Some a) (Some b)"
| "same_value a b = (a = b)"

fun below :: "job_value \<Rightarrow> job_value \<Rightarrow> bool" where
  "below (Number a) (Number b) = (a < b)"
| "below (Text a) (Text b) = (strcmp a b < 0)"
| "below a b = False"

text \<open>
  A value satisfies a condition: for a missing value no condition holds, except that a
  tag which is not set differs from every value.
\<close>

fun satisfies :: "edg_wll_QueryAttr \<Rightarrow> edg_wll_QueryOp \<Rightarrow> job_value \<Rightarrow> job_value \<Rightarrow> job_value \<Rightarrow> bool" where
  "satisfies a OP_EQUAL x v v2 = (x \<noteq> Absent \<and> v \<noteq> Absent \<and> same_value v x)"
| "satisfies a OP_UNEQUAL x v v2 = (if x = Absent then a = ATTR_USERTAG else v \<noteq> Absent \<and> \<not> same_value v x)"
| "satisfies a OP_LESS x v v2 = below x v"
| "satisfies a OP_GREATER x v v2 = below v x"
| "satisfies a OP_WITHIN x v v2 = (x \<noteq> Absent \<and> \<not> below x v \<and> \<not> below v2 x)"
| "satisfies a OP_CHANGED x v v2 = False"

text \<open>The conditions the server evaluates: with which operators, and what must be given.\<close>

definition equality :: "edg_wll_QueryRec \<Rightarrow> bool" where
  "equality c \<longleftrightarrow> q_op c = OP_EQUAL \<or> q_op c = OP_UNEQUAL"

definition supported :: "edg_wll_JobStat \<Rightarrow> edg_wll_QueryRec \<Rightarrow> bool" where
  "supported stat c \<longleftrightarrow> q_op c \<noteq> OP_CHANGED \<and>
     (case q_attr c of
        ATTR_STATUS \<Rightarrow> True
      | ATTR_DONECODE \<Rightarrow> True
      | ATTR_EXITCODE \<Rightarrow> True
      | ATTR_STATEENTERTIME \<Rightarrow> True
      | ATTR_LASTUPDATETIME \<Rightarrow> True
      | ATTR_TIME \<Rightarrow>
          (case stateEnterTimes stat of None \<Rightarrow> True | Some ts \<Rightarrow> 0 \<le> 1 + id_state c \<and> 1 + id_state c < int (length ts))
      | ATTR_RESUBMITTED \<Rightarrow> equality c
      | ATTR_JOB_TYPE \<Rightarrow> equality c
      | ATTR_VM_STATUS \<Rightarrow> equality c
      | ATTR_OWNER \<Rightarrow> equality c
      | ATTR_JOBID \<Rightarrow> equality c
      | ATTR_PARENT \<Rightarrow> equality c
      | ATTR_LOCATION \<Rightarrow>
          qv_c (q_value c) \<noteq> None \<and> (equality c \<or> q_op c = OP_WITHIN \<and> qv_c (q_value2 c) \<noteq> None)
      | ATTR_DESTINATION \<Rightarrow> equality c \<and> qv_c (q_value c) \<noteq> None
      | ATTR_NETWORK_SERVER \<Rightarrow> equality c \<and> qv_c (q_value c) \<noteq> None
      | ATTR_USERTAG \<Rightarrow> equality c \<and> qv_c (q_value c) \<noteq> None \<and> id_tag c \<noteq> None
      | ATTR_JDL_ATTR \<Rightarrow> equality c \<and> qv_c (q_value c) \<noteq> None \<and> id_tag c \<noteq> None
      | _ \<Rightarrow> False)"

definition condition_holds :: "(string \<Rightarrow> string \<Rightarrow> cstr) \<Rightarrow> cstr \<Rightarrow> edg_wll_JobStat \<Rightarrow> edg_wll_QueryRec \<Rightarrow> bool" where
  "condition_holds jdl_attr peer stat c =
     satisfies (q_attr c) (q_op c) (attribute jdl_attr stat c) (operand peer (q_attr c) (q_value c)) (operand peer (q_attr c) (q_value2 c))"

lemma match_tags_find:
  "qv_c (q_value c) = Some w \<Longrightarrow> match_tags name ts c =
    (case find (\<lambda>(t, _). strcaseeq name t) ts of
       None \<Rightarrow> Inr (q_op c = OP_UNEQUAL)
     | Some (_, v) \<Rightarrow> Inr (eq_op (q_op c) (w = v)))"
  by (induction ts) auto

lemma match_text_value:
  "qv_c (q_value c) = Some v \<Longrightarrow> equality c \<Longrightarrow> a \<noteq> ATTR_USERTAG \<Longrightarrow>
   match_text x c = Inr (satisfies a (q_op c) (text_value x) (Text v) v2)"
  by (auto simp: equality_def match_text_def text_value_def split: option.splits)

lemma match_num_value:
  "q_op c \<noteq> OP_CHANGED \<Longrightarrow>
   match_num field old stat c = Inr (satisfies a (q_op c) (Number (field stat)) (Number (qv_i (q_value c))) (Number (qv_i (q_value2 c))))"
  by (cases "q_op c") (auto simp: match_num_def)

lemma match_timeval_value:
  "q_op c \<noteq> OP_CHANGED \<Longrightarrow> a \<noteq> ATTR_USERTAG \<Longrightarrow>
   match_timeval field old stat c =
     Inr (satisfies a (q_op c) (time_value (tv_sec (field stat))) (Number (tv_sec (qv_t (q_value c)))) (Number (tv_sec (qv_t (q_value2 c)))))"
  by (cases "q_op c") (auto simp: match_timeval_def time_value_def)

lemma match_time_value:
  "q_op c \<noteq> OP_CHANGED \<Longrightarrow> stateEnterTimes stat = Some ts \<Longrightarrow> 0 \<le> 1 + id_state c \<Longrightarrow> 1 + id_state c < int (length ts) \<Longrightarrow>
   match_time old stat c =
     Inr (satisfies ATTR_TIME (q_op c) (time_value (ts ! nat (1 + id_state c))) (Number (tv_sec (qv_t (q_value c)))) (Number (tv_sec (qv_t (q_value2 c)))))"
  by (cases "q_op c") (auto simp: match_time_def enter_time_at_def time_value_def)

lemma match_owner_value:
  assumes "equality c"
  shows "match_owner peer stat c =
    satisfies ATTR_OWNER (q_op c) (case owner stat of None \<Rightarrow> Absent | Some s \<Rightarrow> Person s)
      (operand peer ATTR_OWNER (q_value c)) v2"
  using assms by (auto simp: equality_def match_owner_def operand_def split: option.splits)

lemma match_jobid_value:
  assumes "equality c" and "a \<noteq> ATTR_USERTAG"
  shows "match_jobid j c =
    satisfies a (q_op c) (text_value (glite_jobid_unparse j)) (text_value (glite_jobid_unparse (qv_j (q_value c)))) v2"
  using assms by (auto simp: equality_def match_jobid_def text_value_def split: option.splits)

lemma match_usertag_value:
  assumes "equality c" and "qv_c (q_value c) = Some v" and "id_tag c = Some t" and "q_attr c = ATTR_USERTAG"
  shows "match_usertag stat c = Inr (satisfies ATTR_USERTAG (q_op c) (attribute jdl_attr stat c) (Text v) v2)"
proof -
  define ts where "ts = (case user_tags stat of None \<Rightarrow> [] | Some ts \<Rightarrow> ts)"
  have "match_usertag stat c = match_tags t ts c"
    using assms by (auto simp: equality_def match_usertag_def ts_def split: option.splits list.splits)
  then show ?thesis
    using assms match_tags_find[OF assms(2), of t ts]
    by (auto simp: equality_def attribute_def ts_def[symmetric] split: option.splits)
qed

lemma match_location_value:
  assumes "equality c \<or> q_op c = OP_WITHIN \<and> qv_c (q_value2 c) = Some w" and "qv_c (q_value c) = Some v"
  shows "match_location old stat c = Inr (satisfies ATTR_LOCATION (q_op c) (text_value (location stat)) (Text v) (text_value (qv_c (q_value2 c))))"
proof (cases "location stat")
  case (Some l)
  have "strcmp l v < 0 \<longleftrightarrow> strcmp v l > 0" "strcmp w l < 0 \<longleftrightarrow> strcmp l w > 0"
    using strcmp_antisym[of l v] strcmp_antisym[of w l] by linarith+
  then show ?thesis
    using assms Some by (auto simp: equality_def match_location_def text_value_def strcmp_eq_0)
qed (use assms in \<open>auto simp: equality_def match_location_def text_value_def\<close>)

lemma match_jdl_value:
  assumes "equality c" and "qv_c (q_value c) = Some v" and "id_tag c = Some t" and "q_attr c = ATTR_JDL_ATTR"
  shows "match_jdl jdl_attr old stat c = Inr (satisfies ATTR_JDL_ATTR (q_op c) (attribute jdl_attr stat c) (Text v) v2)"
  using assms by (auto simp: equality_def match_jdl_def attribute_def match_text_def text_value_def split: option.splits)

lemma match_condition_supported:
  assumes "supported stat c"
  shows "match_condition jdl_attr peer old stat c = Inr (condition_holds jdl_attr peer stat c)"
proof -
  have op: "q_op c \<noteq> OP_CHANGED" using assms by (simp add: supported_def)
  note unfold = match_condition_def condition_holds_def attribute_def operand_def supported_def
  show ?thesis
  proof (cases "q_attr c")
    case ATTR_TIME
    then show ?thesis
      using assms op match_time_value[OF op]
      by (cases "stateEnterTimes stat"; cases "q_op c") (simp_all add: unfold match_time_def)
  next
    case ATTR_RESUBMITTED
    then have "equality c" using assms by (simp add: supported_def)
    then show ?thesis using ATTR_RESUBMITTED unfolding equality_def by (elim disjE) (simp_all add: unfold match_num_def)
  next
    case ATTR_JOB_TYPE
    then have "equality c" using assms by (simp add: supported_def)
    then show ?thesis using ATTR_JOB_TYPE unfolding equality_def by (elim disjE) (simp_all add: unfold)
  next
    case ATTR_VM_STATUS
    then have "equality c" using assms by (simp add: supported_def)
    then show ?thesis using ATTR_VM_STATUS unfolding equality_def by (elim disjE) (simp_all add: unfold)
  next
    case ATTR_OWNER
    then show ?thesis
      using assms op match_owner_value[of c peer stat] by (simp add: match_condition_def condition_holds_def attribute_def supported_def)
  next
    case ATTR_USERTAG
    then obtain v t where "equality c" "qv_c (q_value c) = Some v" "id_tag c = Some t"
      using assms by (auto simp: supported_def)
    then show ?thesis
      using ATTR_USERTAG op match_usertag_value[of c v t stat jdl_attr]
      by (simp add: match_condition_def condition_holds_def operand_def text_value_def)
  next
    case ATTR_JDL_ATTR
    then obtain v t where "equality c" "qv_c (q_value c) = Some v" "id_tag c = Some t"
      using assms by (auto simp: supported_def)
    then show ?thesis
      using ATTR_JDL_ATTR op match_jdl_value[of c v t jdl_attr old stat]
      by (simp add: match_condition_def condition_holds_def operand_def text_value_def)
  next
    case ATTR_LOCATION
    then obtain v where v: "qv_c (q_value c) = Some v" and o: "equality c \<or> q_op c = OP_WITHIN \<and> qv_c (q_value2 c) \<noteq> None"
      using assms by (auto simp: supported_def)
    then obtain w where "equality c \<or> q_op c = OP_WITHIN \<and> qv_c (q_value2 c) = Some w" by auto
    then show ?thesis
      using ATTR_LOCATION op v match_location_value[of c w v old stat]
      by (simp add: match_condition_def condition_holds_def attribute_def operand_def text_value_def)
  next
    case ATTR_DESTINATION
    then obtain v where "qv_c (q_value c) = Some v" "equality c" using assms by (auto simp: supported_def)
    then show ?thesis
      using ATTR_DESTINATION op match_text_value[of c v ATTR_DESTINATION]
      by (simp add: match_condition_def condition_holds_def attribute_def operand_def text_value_def[of "Some v"])
  next
    case ATTR_NETWORK_SERVER
    then obtain v where "qv_c (q_value c) = Some v" "equality c" using assms by (auto simp: supported_def)
    then show ?thesis
      using ATTR_NETWORK_SERVER op match_text_value[of c v ATTR_NETWORK_SERVER]
      by (simp add: match_condition_def condition_holds_def attribute_def operand_def text_value_def[of "Some v"])
  next
    case ATTR_JOBID
    then show ?thesis using assms op match_jobid_value[of c ATTR_JOBID] by (simp add: unfold)
  next
    case ATTR_PARENT
    then show ?thesis using assms op match_jobid_value[of c ATTR_PARENT] by (simp add: unfold)
  next
    case ATTR_STATUS
    then show ?thesis using op match_num_value[OF op, of state old stat] by (simp add: unfold)
  next
    case ATTR_DONECODE
    then show ?thesis using op match_num_value[OF op, of done_code old stat] by (simp add: unfold)
  next
    case ATTR_EXITCODE
    then show ?thesis using op match_num_value[OF op, of exit_code old stat] by (simp add: unfold)
  next
    case ATTR_STATEENTERTIME
    then show ?thesis using op match_timeval_value[OF op, of ATTR_STATEENTERTIME stateEnterTime old stat] by (simp add: unfold)
  next
    case ATTR_LASTUPDATETIME
    then show ?thesis using op match_timeval_value[OF op, of ATTR_LASTUPDATETIME lastUpdateTime old stat] by (simp add: unfold)
  qed (use assms in \<open>simp_all add: supported_def\<close>)
qed


text \<open>A value and a condition for examples.\<close>

definition ex_value :: "int \<Rightarrow> cstr \<Rightarrow> edg_wll_QueryVal" where
  "ex_value i s = \<lparr>qv_i = i, qv_c = s, qv_t = \<lparr>tv_sec = i, tv_usec = 0\<rparr>, qv_j = None\<rparr>"

definition ex_condition :: "edg_wll_QueryAttr \<Rightarrow> edg_wll_QueryOp \<Rightarrow> int \<Rightarrow> cstr \<Rightarrow> edg_wll_QueryRec" where
  "ex_condition a q i s = \<lparr>q_attr = a, q_op = q, id_tag = None, id_state = 0, q_value = ex_value i s, q_value2 = ex_value i s\<rparr>"


section \<open>Where the code deviates\<close>

text \<open>
  On locations the operators less and greater are exchanged: a job matches if the
  operand is below its location, or above it.
\<close>

lemma location_order_reversed:
  assumes "location stat = Some l" and "qv_c (q_value c) = Some v" and "q_attr c = ATTR_LOCATION"
    and "q_op c = OP_LESS \<or> q_op c = OP_GREATER"
  shows "match_condition jdl_attr peer old stat c =
    Inr (satisfies ATTR_LOCATION (if q_op c = OP_LESS then OP_GREATER else OP_LESS) (Text l) (Text v) (Text v))"
proof -
  have "strcmp l v < 0 \<longleftrightarrow> strcmp v l > 0" using strcmp_antisym[of l v] by linarith
  then show ?thesis using assms by (auto simp: match_condition_def match_location_def)
qed

text \<open>
  In a clause of a condition on an event the operator greater means less, and a text is never
  within an interval.
\<close>

lemma event_greater_is_less: "event_num OP_GREATER x v v2 = event_num OP_LESS x v v2"
  by (simp add: event_num_def)

lemma event_text_never_within: "cmp_string s OP_WITHIN (Some a) (Some b) = Inr False"
  by (simp add: cmp_string_def)

text \<open>
  A clause whose only conditions ask for a change is false, not ignored, when there is no previous status.
\<close>

lemma changed_alone_never_matches:
  assumes "\<forall>c\<in>set cl. q_op c = OP_CHANGED"
  shows "match_status jdl_attr peer None stat (Some (cl # cls)) = Inr False"
proof -
  have "match_clause (match_condition jdl_attr peer None stat) cl = Inr (\<exists>c\<in>set cl. False)"
    using assms by (intro match_clause_Inr) (simp add: match_condition_def)
  then show ?thesis by (simp add: match_status_def)
qed

text \<open>Asking whether the location changed faults when the location was not known before.\<close>

lemma changed_location_faults:
  assumes "location old = None" and "location stat = Some l" and "q_attr c = ATTR_LOCATION" and "q_op c = OP_CHANGED"
  shows "match_condition jdl_attr peer (Some old) stat c = Inl Null_deref"
  using assms by (cases "qv_c (q_value c)") (simp_all add: match_condition_def match_location_def)

end
