(* ===== verification/LB_QueryJobs.thy ===== *)
theory LB_QueryJobs
  imports LB_QueryWhere LB_QueryProps
begin

text \<open>
  Queries on jobs (\<^verbatim>\<open>edg_wll_QueryJobsServerStream\<close> and \<^verbatim>\<open>edg_wll_QueryJobsServer\<close> of
  \<^verbatim>\<open>org.glite.lb.server/src/query.c\<close>): the database is asked page by page, the jobs of each page are
  checked and, where the SQL condition does not cover the query, filtered by their status.

  The database is the argument \<open>db\<close>, which gives the identifiers of the jobs for an SQL condition
  in a fixed order; \<open>jobStatus\<close> is the computation of the status, with the authorization of the client;
  \<open>zombies\<close> tells whether purged jobs match.
\<close>

datatype query_err = Q_EINVAL | Q_NOINDEX | Q_WRONGJOB | Q_EPERM | Q_E2BIG | Q_ENOENT | Q_EIDRM | Q_PARSE | Q_STATUS nat

datatype query_results = QUERYRES_NONE | QUERYRES_LIMITED | QUERYRES_ALL

text \<open>What becomes of one row: the query fails, the row is left out with an error noted or none, or it is a result.\<close>

datatype 'a row_verdict = Row_fatal query_err | Row_skip "query_err option" | Row_take 'a

type_synonym job_found = "glite_jobid \<times> edg_wll_JobStat option"

definition query_row ::
  "(string \<Rightarrow> string \<Rightarrow> cstr) \<Rightarrow> query_context \<Rightarrow> (glite_jobid \<Rightarrow> bool \<Rightarrow> query_err + edg_wll_JobStat) \<Rightarrow>
   bool \<Rightarrow> where_flags \<Rightarrow> conditions \<Rightarrow> string \<Rightarrow> job_found row_verdict res" where
  "query_row jdl_attr ctx jobStatus no_states fl conds row =
     (case glite_jobid_parse row of
        Inl _ \<Rightarrow> Inr (Row_fatal Q_PARSE)
      | Inr jobid \<Rightarrow>
          rbind (check_strict_jobid ctx (Some jobid)) (\<lambda>ok.
          if \<not> ok then Inr (Row_skip None)
          else if \<not> fl_filter fl \<and> no_states then Inr (Row_take (jobid, None))
          else
            case jobStatus jobid (fl_sel_jdl fl) of
              Inl e \<Rightarrow> Inr (Row_skip (Some e))
            | Inr status \<Rightarrow>
                if fl_filter fl then
                  rbind (match_status jdl_attr (peerName ctx) None status (Some conds)) (\<lambda>m.
                  Inr (if m then Row_take (jobid, Some status) else Row_skip None))
                else Inr (Row_take (jobid, Some status))))"

text \<open>The results handed over so far and the error of the context, which every row resets.\<close>

record 'a stream =
  results :: "'a list"
  q_error :: "query_err option"

datatype loop_end = Go_on | Loop_ends | Cleanup

primrec fetch_rows ::
  "('r \<Rightarrow> 'a row_verdict res) \<Rightarrow> nat \<Rightarrow> query_results \<Rightarrow> 'r list \<Rightarrow> 'a stream \<Rightarrow> (loop_end \<times> 'a stream) res" where
  "fetch_rows verdict limit mode [] s = Inr (Go_on, s)"
| "fetch_rows verdict limit mode (row # rows) s =
     rbind (verdict row) (\<lambda>v. case v of
       Row_fatal e \<Rightarrow> Inr (Cleanup, s\<lparr>q_error := Some e\<rparr>)
     | Row_skip e \<Rightarrow> fetch_rows verdict limit mode rows (s\<lparr>q_error := e\<rparr>)
     | Row_take x \<Rightarrow>
         if mode \<noteq> QUERYRES_ALL \<and> limit \<noteq> 0 \<and> length (results s) + 1 > limit
         then Inr (if mode = QUERYRES_LIMITED then Loop_ends else Cleanup, s\<lparr>q_error := Some Q_E2BIG\<rparr>)
         else fetch_rows verdict limit mode rows (s\<lparr>results := results s @ [x], q_error := None\<rparr>))"

text \<open>
  The loop over pages of \<open>limit\<close> rows; without a limit all rows are one page. The result tells whether the
  function goes to its cleanup at once. Queries on jobs and queries on events have the same loop around the
  rows of a page, which are the work of \<open>fetch\<close>.
\<close>

function page_loop ::
  "('r list \<Rightarrow> 's \<Rightarrow> (loop_end \<times> 's) res) \<Rightarrow> nat \<Rightarrow> 'r list \<Rightarrow> nat \<Rightarrow> 's \<Rightarrow> (bool \<times> 's) res" where
  "page_loop fetch limit rows offset s =
     (let page = (if limit = 0 then drop offset rows else take limit (drop offset rows)) in
      if page = [] then Inr (False, s)
      else
        rbind (fetch page s) (\<lambda>(e, s). case e of
          Cleanup \<Rightarrow> Inr (True, s)
        | Loop_ends \<Rightarrow> Inr (False, s)
        | Go_on \<Rightarrow>
            if limit = 0 \<or> length page < limit then Inr (False, s)
            else page_loop fetch limit rows (offset + length page) s))"
  by pat_completeness auto
termination
  by (relation "measure (\<lambda>(_, _, rows, offset, _). length rows - offset)")
    (auto simp: not_le split: if_splits)

declare page_loop.simps [simp del]

text \<open>What the loop relies on: the rows of a page are worked off one after the other.\<close>

locale row_fetcher =
  fixes fetch :: "'r list \<Rightarrow> 's \<Rightarrow> (loop_end \<times> 's) res"
  assumes fetch_Nil: "fetch [] s = Inr (Go_on, s)"
    and fetch_append: "fetch (xs @ ys) s = rbind (fetch xs s) (\<lambda>(e, s). if e = Go_on then fetch ys s else Inr (e, s))"
begin

lemma page_loop_from:
  "page_loop fetch limit rows offset s =
    rbind (fetch (drop offset rows) s) (\<lambda>(e, s). Inr (e = Cleanup, s))"
proof (induction "length rows - offset" arbitrary: offset s rule: less_induct)
  case less
  let ?page = "if limit = 0 then drop offset rows else take limit (drop offset rows)"
  have split: "drop offset rows = ?page @ drop (offset + length ?page) rows"
    using append_take_drop_id[of limit "drop offset rows"] by (auto simp: min_def add.commute)
  show ?case
  proof (cases "?page = []")
    case True
    then have "drop offset rows = []" by (auto split: if_splits)
    then show ?thesis using True by (simp add: page_loop.simps fetch_Nil)
  next
    case False
    show ?thesis
    proof (cases "fetch ?page s")
      case (Inl flt)
      then have "fetch (drop offset rows) s = Inl flt"
        by (subst split) (simp only: fetch_append rbind_Inl)
      then show ?thesis using False Inl by (simp add: page_loop.simps Let_def)
    next
      case (Inr r)
      obtain e s' where r: "r = (e, s')" by (cases r)
      have all: "fetch (drop offset rows) s =
          (if e = Go_on then fetch (drop (offset + length ?page) rows) s' else Inr (e, s'))"
        by (subst split) (simp only: fetch_append Inr r rbind_Inr prod.case)
      have loop: "page_loop fetch limit rows offset s =
          (case e of Cleanup \<Rightarrow> Inr (True, s') | Loop_ends \<Rightarrow> Inr (False, s')
           | Go_on \<Rightarrow> if limit = 0 \<or> length ?page < limit then Inr (False, s')
              else page_loop fetch limit rows (offset + length ?page) s')"
        using False by (subst page_loop.simps) (simp only: Let_def Inr r rbind_Inr prod.case if_False)
      have last: "drop (offset + length ?page) rows = []" if "limit = 0 \<or> length ?page < limit"
        using that by (auto simp: min_def split: if_splits)
      have "length rows - (offset + length ?page) < length rows - offset" using False by (auto split: if_splits)
      from less[OF this] show ?thesis unfolding all loop using last by (cases e) (auto simp: fetch_Nil)
    qed
  qed
qed

lemma one_pass:
  "page_loop fetch limit rows 0 s = rbind (fetch rows s) (\<lambda>(e, s). Inr (e = Cleanup, s))"
  using page_loop_from[of limit rows 0] by simp

end

text \<open>The smaller one of the two limits, where 0 is no limit.\<close>

definition query_limit :: "nat \<Rightarrow> nat \<Rightarrow> nat" where
  "query_limit soft hard =
     (if soft \<noteq> 0 then if hard \<noteq> 0 then if soft < hard then soft else hard else soft
      else if hard \<noteq> 0 then hard else 0)"

definition all_results_query :: "conditions \<Rightarrow> bool" where
  "all_results_query conds \<longleftrightarrow> (case conds of [[c]] \<Rightarrow> q_attr c = ATTR_OWNER | _ \<Rightarrow> False)"

definition edg_wll_QueryJobsServerStream ::
  "(string \<Rightarrow> string \<Rightarrow> cstr) \<Rightarrow> query_context \<Rightarrow> (cstr \<Rightarrow> where_flags \<Rightarrow> string list) \<Rightarrow>
   (glite_jobid \<Rightarrow> bool \<Rightarrow> query_err + edg_wll_JobStat) \<Rightarrow> bool \<Rightarrow> bool \<Rightarrow> nat \<Rightarrow> nat \<Rightarrow> query_results \<Rightarrow> bool \<Rightarrow>
   conditions option \<Rightarrow> job_found stream res" where
  "edg_wll_QueryJobsServerStream jdl_attr ctx db jobStatus zombies noIndex softLimit hardJobsLimit mode no_states conditions =
     (let failed = (\<lambda>e. Inr \<lparr>results = [], q_error = Some e\<rparr>) in
      case conditions of
        None \<Rightarrow> failed Q_EINVAL
      | Some conds \<Rightarrow>
          if mode = QUERYRES_ALL \<and> \<not> all_results_query conds then failed Q_EINVAL
          else
            rbind (if noIndex then Inr True else check_job_query_index ctx (Some conds)) (\<lambda>idx.
            if \<not> idx then failed Q_NOINDEX
            else
              rbind (check_strict_jobid_cond ctx (concat conds)) (\<lambda>strict.
              if \<not> strict then failed Q_WRONGJOB
              else
                rbind (jc_to_head_where ctx conds \<lparr>fl_sel_status = False, fl_sel_job = False, fl_filter = False, fl_sel_jdl = False\<rparr>) (\<lambda>r.
                case r of
                  Inl Wh_EINVAL \<Rightarrow> failed Q_EINVAL
                | Inl Wh_EPERM \<Rightarrow> failed Q_EPERM
                | Inr (w, fl) \<Rightarrow>
                    rbind (let limit = query_limit softLimit hardJobsLimit in
                      page_loop (fetch_rows (query_row jdl_attr ctx jobStatus no_states fl conds) limit mode) limit (db w fl) 0 \<lparr>results = [], q_error = None\<rparr>) (\<lambda>(cleanup, s).
                    if cleanup then Inr s
                    else if results s = [] then
                      Inr (s\<lparr>q_error := Some (if q_error s \<noteq> Some Q_EPERM \<and> jobid_only_query conds = 0 \<and> zombies
                                              then Q_EIDRM else Q_ENOENT)\<rparr>)
                    else Inr (if q_error s = Some Q_EPERM then s\<lparr>q_error := None\<rparr> else s))))))"

section \<open>Pages\<close>

lemma fetch_rows_append:
  "fetch_rows verdict limit mode (xs @ ys) s =
     rbind (fetch_rows verdict limit mode xs s) (\<lambda>(e, s).
     if e = Go_on then fetch_rows verdict limit mode ys s else Inr (e, s))"
  by (induction xs arbitrary: s) (auto simp: rbind_assoc split: row_verdict.splits intro!: arg_cong[where f = "rbind _"])

interpretation job_rows: row_fetcher "fetch_rows verdict limit mode" for verdict limit mode
  by unfold_locales (simp_all add: fetch_rows_append)

text \<open>
  C32. Asking page by page is the same as asking for all rows at once: the loop over the pages
  ends, and comes to the same results, the same error and the same end as one pass over all
  rows, whatever the size of the pages.
\<close>

theorem pages_are_one_pass:
  "page_loop (fetch_rows verdict limit mode) limit rows 0 s =
    rbind (fetch_rows verdict limit mode rows s) (\<lambda>(e, s). Inr (e = Cleanup, s))"
  by (rule job_rows.one_pass)

section \<open>Results\<close>

text \<open>The results among the rows.\<close>

definition taken :: "('r \<Rightarrow> 'a row_verdict) \<Rightarrow> 'r list \<Rightarrow> 'a list" where
  "taken v rows = concat (map (\<lambda>row. case v row of Row_take x \<Rightarrow> [x] | _ \<Rightarrow> []) rows)"

lemma taken_simps [simp]:
  "taken v [] = []"
  "taken v (row # rows) = (case v row of Row_take x \<Rightarrow> [x] | _ \<Rightarrow> []) @ taken v rows"
  by (simp_all add: taken_def)

lemma fetch_rows_limited:
  assumes "\<And>row. row \<in> set rows \<Longrightarrow> verdict row = Inr (v row)" and "\<And>row e. row \<in> set rows \<Longrightarrow> v row \<noteq> Row_fatal e"
    and "mode \<noteq> QUERYRES_ALL" and "limit \<noteq> 0" and "length (results s) \<le> limit"
  shows "\<exists>e s'. fetch_rows verdict limit mode rows s = Inr (e, s') \<and> results s' = take limit (results s @ taken v rows) \<and>
    (length (results s @ taken v rows) > limit \<longrightarrow> q_error s' = Some Q_E2BIG)"
  using assms(1,2,5)
proof (induction rows arbitrary: s)
  case (Cons row rows)
  show ?case
  proof (cases "v row")
    case (Row_skip e)
    then show ?thesis using Cons.IH[of "s\<lparr>q_error := e\<rparr>"] Cons.prems by simp
  next
    case (Row_take x)
    show ?thesis
    proof (cases "length (results s) + 1 > limit")
      case True
      then show ?thesis using Row_take Cons.prems assms(3,4) by simp
    next
      case False
      then show ?thesis
        using Row_take Cons.IH[of "s\<lparr>results := results s @ [x], q_error := None\<rparr>"] Cons.prems by simp
    qed
  qed (use Cons.prems in simp)
qed simp

text \<open>The status of a job that may be shown, if the query is for this server.\<close>

definition visible :: "query_context \<Rightarrow> (glite_jobid \<Rightarrow> bool \<Rightarrow> query_err + edg_wll_JobStat) \<Rightarrow> bool \<Rightarrow> glite_jobid \<Rightarrow> edg_wll_JobStat option" where
  "visible ctx jobStatus jdl_wanted j =
     (if check_strict_jobid ctx (Some j) = Inr True
      then case jobStatus j jdl_wanted of Inl _ \<Rightarrow> None | Inr st \<Rightarrow> Some st else None)"

definition matching :: "(string \<Rightarrow> string \<Rightarrow> cstr) \<Rightarrow> cstr \<Rightarrow> conditions \<Rightarrow> edg_wll_JobStat \<Rightarrow> bool" where
  "matching jdl_attr peer conds st \<longleftrightarrow> (\<forall>cl\<in>set conds. \<exists>c\<in>set cl. condition_holds jdl_attr peer st c)"

lemma check_strict_total: "\<exists>b. check_strict_jobid ctx (Some j) = Inr b"
  by (auto simp: check_strict_jobid_def glite_jobid_getServerParts_def split: option.splits)

lemma query_row_filter:
  assumes "glite_jobid_parse row = Inr j" and "fl_filter fl"
    and "\<And>st. visible ctx jobStatus (fl_sel_jdl fl) j = Some st \<Longrightarrow> \<forall>cl\<in>set conds. \<forall>c\<in>set cl. supported st c"
  shows "\<exists>v. query_row jdl_attr ctx jobStatus no_states fl conds row = Inr v \<and> (\<forall>e. v \<noteq> Row_fatal e) \<and>
    (case v of Row_take x \<Rightarrow> [x] | _ \<Rightarrow> []) =
    (case visible ctx jobStatus (fl_sel_jdl fl) j of
       Some st \<Rightarrow> if matching jdl_attr (peerName ctx) conds st then [(j, Some st)] else []
     | None \<Rightarrow> [])"
proof (cases "visible ctx jobStatus (fl_sel_jdl fl) j")
  case None
  obtain b where "check_strict_jobid ctx (Some j) = Inr b" using check_strict_total by blast
  then show ?thesis
    using assms(1,2) None by (auto simp: query_row_def visible_def split: sum.splits if_splits)
next
  case (Some st)
  then have s: "check_strict_jobid ctx (Some j) = Inr True" "jobStatus j (fl_sel_jdl fl) = Inr st"
    by (auto simp: visible_def split: sum.splits if_splits)
  have "match_clauses (match_condition jdl_attr (peerName ctx) None st) conds = Inr (matching jdl_attr (peerName ctx) conds st)"
    unfolding matching_def using assms(3)[OF Some] by (intro match_clauses_Inr match_condition_supported) auto
  then show ?thesis using assms(1,2) Some s by (simp add: query_row_def match_status_def)
qed



end
