(* ===== verification/LB_QueryEvents.thy ===== *)
theory LB_QueryEvents
  imports LB_QueryJobs LB_Authz LB_Base64
begin

text \<open>
  Queries on events (\<^verbatim>\<open>edg_wll_QueryEventsServer\<close> of \<^verbatim>\<open>org.glite.lb.server/src/query.c\<close>, with
  \<^verbatim>\<open>edg_wll_SortEvents\<close> of \<^verbatim>\<open>jobstat_supp.c\<close>): the database gives the rows of events page by page, what it
  cannot decide is checked row by row, and the events found are sorted by their sequence codes.

  The database is again the argument \<open>db\<close>, \<open>jobStatus\<close> the computation of the status of a job for the client, \<open>acl_ok\<close>
  the check of the access control list of a job, and \<open>md5\<close> the digest that user identifiers are made of.
\<close>

section \<open>Codes of events\<close>

text \<open>The codes are numbered within each group of events; the groups begin at multiples of 100.\<close>

definition glite_code :: "glite_event \<Rightarrow> int" where
  "glite_code g = (case g of
     EvTransfer _ _ _ _ _ _ _ \<Rightarrow> 1 | EvAccepted _ _ _ _ \<Rightarrow> 2 | EvRefused _ _ _ _ \<Rightarrow> 3 | EvEnQueued _ _ _ _ \<Rightarrow> 4
   | EvDeQueued _ _ \<Rightarrow> 5 | EvHelperCall _ _ _ \<Rightarrow> 6 | EvHelperReturn _ _ _ \<Rightarrow> 7 | EvRunning _ \<Rightarrow> 8
   | EvResubmission _ _ _ \<Rightarrow> 9 | EvDone _ _ _ \<Rightarrow> 10 | EvCancel _ _ \<Rightarrow> 11 | EvAbort _ \<Rightarrow> 12 | EvClear _ \<Rightarrow> 13
   | EvPurge \<Rightarrow> 14 | EvMatch _ \<Rightarrow> 15 | EvPending _ \<Rightarrow> 16 | EvRegJob _ _ _ _ _ _ _ \<Rightarrow> 17 | EvChkpt _ _ \<Rightarrow> 18
   | EvListener _ _ _ \<Rightarrow> 19 | EvCurDescr _ \<Rightarrow> 20 | EvUserTag _ _ \<Rightarrow> 21 | EvChangeACL _ _ _ _ _ \<Rightarrow> 22
   | EvNotification _ _ _ _ _ _ _ \<Rightarrow> 23 | EvResourceUsage _ _ \<Rightarrow> 24 | EvReallyRunning _ \<Rightarrow> 25 | EvSuspend _ \<Rightarrow> 26
   | EvResume _ \<Rightarrow> 27 | EvCollectionState _ _ _ _ _ \<Rightarrow> 28 | EvGrantPayloadOwnership _ \<Rightarrow> 29
   | EvTakePayloadOwnership \<Rightarrow> 30 | EvConnectJob _ _ \<Rightarrow> 31 | EvDisconnectJob _ \<Rightarrow> 32)"

definition pbs_code :: "pbs_event \<Rightarrow> int" where
  "pbs_code p = (case p of
     EvPBSInternalStateChange _ _ _ _ \<Rightarrow> 101 | EvPBSTransfer _ _ _ _ _ \<Rightarrow> 102 | EvPBSAccepted _ _ _ \<Rightarrow> 103
   | EvPBSRefused _ _ _ \<Rightarrow> 104 | EvPBSQueued _ _ _ \<Rightarrow> 105 | EvPBSDequeued \<Rightarrow> 106 | EvPBSMatch _ \<Rightarrow> 107
   | EvPBSPending _ \<Rightarrow> 108 | EvPBSWaiting \<Rightarrow> 109 | EvPBSRun _ _ _ \<Rightarrow> 110 | EvPBSRerun \<Rightarrow> 111 | EvPBSAbort \<Rightarrow> 112
   | EvPBSDone _ \<Rightarrow> 113 | EvPBSResourceUsage _ _ \<Rightarrow> 114 | EvPBSError _ \<Rightarrow> 115)"

definition condor_code :: "condor_event \<Rightarrow> int" where
  "condor_code c = (case c of
     EvCondorMatch _ _ _ \<Rightarrow> 201 | EvCondorReject _ _ \<Rightarrow> 202 | EvCondorShadowStarted _ _ _ _ \<Rightarrow> 203
   | EvCondorShadowExited _ _ \<Rightarrow> 204 | EvCondorStarterStarted _ _ \<Rightarrow> 205 | EvCondorStarterExited _ _ _ _ \<Rightarrow> 206
   | EvCondorResourceUsage _ _ _ \<Rightarrow> 207 | EvCondorError _ \<Rightarrow> 208)"

definition cream_code :: "cream_event \<Rightarrow> int" where
  "cream_code c = (case c of
     EvCREAMStart \<Rightarrow> 301 | EvCREAMPurge \<Rightarrow> 302 | EvCREAMAccepted _ \<Rightarrow> 303 | EvCREAMStore _ _ _ _ \<Rightarrow> 304
   | EvCREAMCall _ _ _ _ _ _ \<Rightarrow> 305 | EvCREAMRunning _ \<Rightarrow> 306 | EvCREAMReallyRunning \<Rightarrow> 307 | EvCREAMDone _ _ _ \<Rightarrow> 308
   | EvCREAMCancel _ _ \<Rightarrow> 309 | EvCREAMAbort _ \<Rightarrow> 310 | EvCREAMStatus _ _ _ _ _ _ _ _ _ \<Rightarrow> 311
   | EvCREAMSuspend _ _ \<Rightarrow> 312 | EvCREAMResume _ _ \<Rightarrow> 313)"

definition event_code :: "event_body \<Rightarrow> int" where
  "event_code b = (case b of
     EvUndef \<Rightarrow> 0 | EvGlite g \<Rightarrow> glite_code g | EvPbs p \<Rightarrow> pbs_code p | EvCondor c \<Rightarrow> condor_code c | EvCream c \<Rightarrow> cream_code c
   | EvFt t \<Rightarrow> (case t of EvFileTransferRegister _ _ \<Rightarrow> 401 | EvFileTransfer _ _ \<Rightarrow> 402 | EvSandbox _ _ _ \<Rightarrow> 403)
   | EvVm v \<Rightarrow> (case v of EvVMCreate _ _ _ _ _ _ _ \<Rightarrow> 501 | EvVMHost _ \<Rightarrow> 502 | EvVMImage _ \<Rightarrow> 503 | EvVMRunning \<Rightarrow> 504
        | EvVMShutdown _ \<Rightarrow> 505 | EvVMStop \<Rightarrow> 506 | EvVMResume \<Rightarrow> 507 | EvVMDone _ _ \<Rightarrow> 508))"

text \<open>What the conditions on events look at.\<close>

definition event_head_of :: "edg_wll_Event \<Rightarrow> event_head" where
  "event_head_of e =
     \<lparr>eh_time = tv_sec (any_timestamp e), eh_source = int (source_index (any_source e)), eh_level = any_level e,
      eh_host = any_host e, eh_type = event_code (ev_body e),
      eh_tag = (case ev_body e of EvGlite (EvUserTag (Some n) (Some v)) \<Rightarrow> Some (n, v) | _ \<Rightarrow> None),
      eh_instance = any_src_instance e\<rparr>"

section \<open>Sorting\<close>

text \<open>\<^verbatim>\<open>qsort\<close> with the comparison of \<open>LB_Seqcode\<close>; equal events keep their order, as in the merge sort of the C library.\<close>

fun insert_event :: "junk \<Rightarrow> edg_wll_Event \<Rightarrow> edg_wll_Event list \<Rightarrow> edg_wll_Event list" where
  "insert_event junk e [] = [e]"
| "insert_event junk e (f # fs) = (if compare_events_by_seq junk e f \<le> 0 then e # f # fs else f # insert_event junk e fs)"

definition edg_wll_SortEvents :: "junk \<Rightarrow> edg_wll_Event list \<Rightarrow> edg_wll_Event list" where
  "edg_wll_SortEvents junk es = foldr (insert_event junk) es []"

section \<open>The query\<close>

text \<open>A row: the user the job belongs to, the text of its identifier, and the event, if it can be read.\<close>

record event_row =
  er_userid :: string
  er_jobid :: string
  er_event :: "edg_wll_Event option"

record events_found =
  es_events :: "edg_wll_Event list"
  es_error :: "query_err option"
  j_old :: cstr
  match_status_old :: bool

text \<open>The arguments of the query that every row needs.\<close>

record events_query =
  eq_jdl_attr :: "string \<Rightarrow> string \<Rightarrow> cstr"
  eq_ctx :: query_context
  eq_jobStatus :: "glite_jobid option \<Rightarrow> query_err + edg_wll_JobStat"
  eq_md5 :: "string \<Rightarrow> 8 word list"
  eq_acl_ok :: "glite_jobid option \<Rightarrow> bool"
  eq_noAuth :: bool
  eq_flags :: where_flags
  eq_jobs :: "conditions option"
  eq_events :: "conditions option"

definition own_event :: "events_query \<Rightarrow> string \<Rightarrow> bool" where
  "own_event q userid =
     (case peerName (eq_ctx q) of
        None \<Rightarrow> False
      | Some p \<Rightarrow> userid = str2md5 (eq_md5 q) p \<or>
          Some userid = map_option (str2md5 (eq_md5 q)) (edg_wll_gss_normalize_subj (Some p)))"

text \<open>
  The conditions on the job, or else the rights of the client. The status is computed once for
  consecutive rows of a job; the second component is what is remembered of its match.
\<close>

definition job_verdict :: "events_query \<Rightarrow> event_row \<Rightarrow> edg_wll_Event \<Rightarrow> events_found \<Rightarrow> (edg_wll_Event row_verdict \<times> bool) res" where
  "job_verdict q row e s =
     (if fl_filter (eq_flags q) then
        if j_old s \<noteq> Some (er_jobid row) then
          case eq_jobStatus q (any_jobId e) of
            Inl er \<Rightarrow> Inr (Row_skip (Some er), match_status_old s)
          | Inr st \<Rightarrow>
              rbind (match_status (eq_jdl_attr q) (peerName (eq_ctx q)) None st (eq_jobs q)) (\<lambda>m.
              Inr (if m then Row_take e else Row_skip None, m))
        else Inr (if match_status_old s then Row_take e else Row_skip None, match_status_old s)
      else if \<not> eq_noAuth q \<and> \<not> own_event q (er_userid row) \<and> \<not> eq_acl_ok q (any_jobId e)
      then Inr (Row_skip None, match_status_old s)
      else Inr (Row_take e, match_status_old s))"

definition event_verdict :: "events_query \<Rightarrow> event_row \<Rightarrow> events_found \<Rightarrow> (edg_wll_Event row_verdict \<times> bool) res" where
  "event_verdict q row s =
     (case er_event row of
        None \<Rightarrow> Inr (Row_skip None, match_status_old s)
      | Some e \<Rightarrow>
          rbind (match_flesh_conditions (event_head_of e) (eq_events q)) (\<lambda>flesh.
          rbind (if flesh then check_strict_jobid (eq_ctx q) (any_jobId e) else Inr False) (\<lambda>ok.
          if ok then job_verdict q row e s else Inr (Row_skip None, match_status_old s))))"

primrec fetch_events ::
  "events_query \<Rightarrow> nat \<Rightarrow> query_results \<Rightarrow> event_row list \<Rightarrow> events_found \<Rightarrow> (loop_end \<times> events_found) res" where
  "fetch_events q limit mode [] s = Inr (Go_on, s)"
| "fetch_events q limit mode (row # rows) s =
     rbind (event_verdict q row s) (\<lambda>(v, m).
     let s' = s\<lparr>j_old := Some (er_jobid row), match_status_old := m\<rparr> in
     case v of
       Row_fatal er \<Rightarrow> Inr (Cleanup, s'\<lparr>es_error := Some er\<rparr>)
     | Row_skip er \<Rightarrow> fetch_events q limit mode rows (s'\<lparr>es_error := er\<rparr>)
     | Row_take e \<Rightarrow>
         if mode \<noteq> QUERYRES_ALL \<and> limit \<noteq> 0 \<and> length (es_events s) + 1 > limit
         then Inr (if mode = QUERYRES_LIMITED then Loop_ends else Cleanup, s'\<lparr>es_error := Some Q_E2BIG\<rparr>)
         else fetch_events q limit mode rows (s'\<lparr>es_events := es_events s @ [e], es_error := None\<rparr>))"

definition all_events_query :: "conditions option \<Rightarrow> bool" where
  "all_events_query jc \<longleftrightarrow> (case jc of Some [[c]] \<Rightarrow> q_attr c = ATTR_JOBID | _ \<Rightarrow> False)"

text \<open>Whether there is a condition at all: the first clause begins with one.\<close>

definition some_condition :: "conditions option \<Rightarrow> conditions" where
  "some_condition cs = (case cs of Some ((c # cl) # cls) \<Rightarrow> (c # cl) # cls | _ \<Rightarrow> [])"

text \<open>
  The texts of the conditions for the database, with the flags, or the error the query ends with. Without indices
  an error of the conditions on events is passed over, unless there is no text for the jobs either.
\<close>

definition events_where ::
  "(int \<Rightarrow> cstr) \<Rightarrow> query_context \<Rightarrow> bool \<Rightarrow> conditions option \<Rightarrow> conditions option \<Rightarrow>
   (query_err + cstr \<times> cstr \<times> where_flags) res" where
  "events_where source_name ctx noIndex jobs events =
     (let fl0 = \<lparr>fl_sel_status = False, fl_sel_job = False, fl_filter = False, fl_sel_jdl = False\<rparr>;
          err = (\<lambda>e. case e of Wh_EINVAL \<Rightarrow> Q_EINVAL | Wh_EPERM \<Rightarrow> Q_EPERM) in
      rbind (if some_condition events = [] then Inr (Inr None) else ec_to_head_where source_name (some_condition events)) (\<lambda>ew.
      if isl ew \<and> \<not> noIndex then Inr (Inl (err (projl ew)))
      else
        rbind (if some_condition jobs = [] then Inr (Inr (None, fl0)) else jc_to_head_where ctx (some_condition jobs) fl0) (\<lambda>jw.
        case jw of
          Inl e \<Rightarrow> Inr (Inl (err e))
        | Inr (w, fl) \<Rightarrow>
            case ew of
              Inl e \<Rightarrow> if w = None \<and> some_condition jobs \<noteq> [] then Inr (Inl (err e)) else Inr (Inr (w, None, fl))
            | Inr x \<Rightarrow> Inr (Inr (w, x, fl)))))"

definition edg_wll_QueryEventsServer ::
  "junk \<Rightarrow> (int \<Rightarrow> cstr) \<Rightarrow> (cstr \<Rightarrow> cstr \<Rightarrow> where_flags \<Rightarrow> event_row list) \<Rightarrow> bool \<Rightarrow> nat \<Rightarrow> nat \<Rightarrow> query_results \<Rightarrow>
   events_query \<Rightarrow> (query_err option \<times> edg_wll_Event list) res" where
  "edg_wll_QueryEventsServer junk source_name db noIndex softLimit hardEventsLimit mode q =
     (if mode = QUERYRES_ALL \<and> \<not> all_events_query (eq_jobs q) then Inr (Some Q_EINVAL, [])
      else
        rbind (if noIndex then Inr True else check_event_query_index (eq_ctx q) (eq_jobs q) (eq_events q)) (\<lambda>idx.
        if \<not> idx then Inr (Some Q_NOINDEX, [])
        else
          rbind (check_strict_jobid_cond (eq_ctx q) (case eq_jobs q of None \<Rightarrow> [] | Some cs \<Rightarrow> concat cs)) (\<lambda>sj.
          rbind (if sj then check_strict_jobid_cond (eq_ctx q) (case eq_events q of None \<Rightarrow> [] | Some cs \<Rightarrow> concat cs) else Inr False) (\<lambda>se.
          if \<not> se then Inr (Some Q_WRONGJOB, [])
          else
            rbind (events_where source_name (eq_ctx q) noIndex (eq_jobs q) (eq_events q)) (\<lambda>w.
            case w of
              Inl er \<Rightarrow> Inr (Some er, [])
            | Inr (jw, ew, fl) \<Rightarrow>
                rbind (let limit = query_limit softLimit hardEventsLimit in
                  page_loop (fetch_events (q\<lparr>eq_flags := fl\<rparr>) limit mode) limit (db jw ew fl) 0
                    \<lparr>es_events = [], es_error = None, j_old = None, match_status_old = False\<rparr>) (\<lambda>(cleanup, s).
                Inr (if cleanup then (es_error s, [])
                     else if es_events s = [] then (Some Q_ENOENT, [])
                     else (es_error s, edg_wll_SortEvents junk (es_events s)))))))))"

section \<open>Pages\<close>

lemma fetch_events_append:
  "fetch_events q limit mode (xs @ ys) s =
     rbind (fetch_events q limit mode xs s) (\<lambda>(e, s). if e = Go_on then fetch_events q limit mode ys s else Inr (e, s))"
  by (induction xs arbitrary: s)
    (auto simp: rbind_assoc Let_def split: row_verdict.splits prod.splits intro!: arg_cong[where f = "rbind _"])

interpretation event_rows: row_fetcher "fetch_events q limit mode" for q limit mode
  by unfold_locales (simp_all add: fetch_events_append)

section \<open>Which events are found\<close>

text \<open>A row whose event can be read, satisfies the conditions the database does not decide, and belongs to this server.\<close>

definition plain_row :: "events_query \<Rightarrow> event_row \<Rightarrow> edg_wll_Event \<Rightarrow> bool" where
  "plain_row q row e \<longleftrightarrow> er_event row = Some e \<and> match_flesh_conditions (event_head_of e) (eq_events q) = Inr True \<and>
     check_strict_jobid (eq_ctx q) (any_jobId e) = Inr True"

lemma plain_verdict: "plain_row q row e \<Longrightarrow> event_verdict q row s = job_verdict q row e s"
  by (simp add: plain_row_def event_verdict_def)

text \<open>Whether the job of a row satisfies the conditions, given the status of jobs.\<close>

definition job_matches :: "events_query \<Rightarrow> (string \<Rightarrow> edg_wll_JobStat) \<Rightarrow> (string \<Rightarrow> bool) \<Rightarrow> event_row \<Rightarrow> edg_wll_Event \<Rightarrow> bool" where
  "job_matches q st m row e \<longleftrightarrow>
     eq_jobStatus q (any_jobId e) = Inr (st (er_jobid row)) \<and>
     match_status (eq_jdl_attr q) (peerName (eq_ctx q)) None (st (er_jobid row)) (eq_jobs q) = Inr (m (er_jobid row))"

text \<open>
  A query that has to look at jobs finds exactly the events of the jobs that satisfy its conditions, provided that
  every row can be read, satisfies the remaining conditions on events, and the status of its job may be seen by the client.
\<close>

theorem events_of_matching_jobs:
  assumes "fl_filter (eq_flags q)" and "list_all2 (\<lambda>row e. plain_row q row e \<and> job_matches q st m row e) rows evs"
  shows "\<exists>s. page_loop (fetch_events q 0 mode) 0 rows 0 \<lparr>es_events = [], es_error = None, j_old = None, match_status_old = b\<rparr> = Inr (False, s) \<and>
    es_events s = map snd (filter (\<lambda>(row, e). m (er_jobid row)) (zip rows evs))"
proof -
  have "\<exists>s'. fetch_events q 0 mode rows s = Inr (Go_on, s') \<and>
      es_events s' = es_events s @ map snd (filter (\<lambda>(row, e). m (er_jobid row)) (zip rows evs))"
    if "\<And>j. j_old s = Some j \<Longrightarrow> match_status_old s = m j" for s
    using assms(2) that
  proof (induction rows evs arbitrary: s rule: list_all2_induct)
    case (Cons row rows e evs)
    let ?m = "m (er_jobid row)"
    have v: "event_verdict q row s = Inr (if ?m then Row_take e else Row_skip None, ?m)"
      using Cons.hyps(1) Cons.prems assms(1) by (auto simp: plain_verdict job_verdict_def job_matches_def)
    let ?s = "s\<lparr>j_old := Some (er_jobid row), match_status_old := ?m,
        es_events := if ?m then es_events s @ [e] else es_events s, es_error := None\<rparr>"
    have "fetch_events q 0 mode (row # rows) s = fetch_events q 0 mode rows ?s" using v by (cases ?m) (simp_all add: Let_def)
    moreover have "\<exists>s'. fetch_events q 0 mode rows ?s = Inr (Go_on, s') \<and>
        es_events s' = es_events ?s @ map snd (filter (\<lambda>(row, e). m (er_jobid row)) (zip rows evs))"
      by (rule Cons.IH) simp
    ultimately show ?case by auto
  qed simp
  from this[of "\<lparr>es_events = [], es_error = None, j_old = None, match_status_old = b\<rparr>"] show ?thesis
    by (auto simp: event_rows.one_pass)
qed


definition ex_job_id :: "string \<Rightarrow> glite_jobid" where
  "ex_job_id u = \<lparr>jid_id = u, BShost = ''lb'', BSport = 90, jid_info = None\<rparr>"

definition ex_event_of :: "string \<Rightarrow> edg_wll_Event" where
  "ex_event_of u =
     \<lparr>any_timestamp = null_timeval, any_arrived = null_timeval, any_host = Some ''host'', any_level = 8, any_priority = 0,
      any_jobId = Some (ex_job_id u), any_seqcode = [], any_user = Some ''/CN=user'', any_source = SOURCE_USER_INTERFACE,
      any_src_instance = None, ev_body = EvGlite EvPurge\<rparr>"

definition ex_row :: "string \<Rightarrow> event_row" where
  "ex_row u = \<lparr>er_userid = ''someone'', er_jobid = u, er_event = Some (ex_event_of u)\<rparr>"

definition ex_query :: events_query where
  "ex_query =
     \<lparr>eq_jdl_attr = (\<lambda>_ _. None), eq_ctx = tag_index ATTR_USERTAG ''a'',
      eq_jobStatus = (\<lambda>j. if map_option jid_id j = Some ''mine'' then Inr (edg_wll_InitStatus\<lparr>state := 5\<rparr>) else Inl Q_EPERM),
      eq_md5 = (\<lambda>_. []), eq_acl_ok = (\<lambda>_. False), eq_noAuth = False, eq_flags = no_flags\<lparr>fl_filter := True\<rparr>,
      eq_jobs = Some [[ex_condition ATTR_STATUS OP_GREATER 3 None]], eq_events = None\<rparr>"


end
