(* ===== verification/LB_Acl.thy ===== *)
theory LB_Acl
  imports LB_Authz
begin

text \<open>
  Access control lists of jobs (\<^verbatim>\<open>org.glite.lb.server/src/lb_authz.c\<close>): changing a list, its text, and the tables of
  lists and jobs. A list is stored once for all jobs that share it, under the digest of its text and with a count of its
  references; a change of the list of a job adds a reference to the new list, moves the job to it and drops the
  reference to the old one.

  The entries of a list are kept by the GACL library: \<open>auri\<close> is the text that identifies a credential, and an entry is
  added at the end. Statements of SQL are steps on the two tables; the number of rows an update
  reports is that of the rows it changed.
\<close>

section \<open>Entries\<close>

datatype acl_user_type = CHANGEACL_DN | CHANGEACL_GROUP | CHANGEACL_FQAN | CHANGEACL_OTHER_TYPE
datatype acl_perm_type = CHANGEACL_ALLOW | CHANGEACL_DENY | CHANGEACL_OTHER_PERM
datatype acl_operation = CHANGEACL_ADD | CHANGEACL_REMOVE | CHANGEACL_OTHER_OP

datatype acl_cred = Person_dn string | Voms_group string string | Voms_fqan string

record gacl_entry =
  ent_cred :: acl_cred
  ent_allowed :: "gacl_perm set"
  ent_denied :: "gacl_perm set"

datatype acl_change_error = Ch_EINVAL | Ch_EEXIST

definition create_cred :: "string \<Rightarrow> acl_user_type \<Rightarrow> acl_change_error + acl_cred" where
  "create_cred userid t =
     (case t of
        CHANGEACL_DN \<Rightarrow> Inr (Person_dn userid)
      | CHANGEACL_GROUP \<Rightarrow>
          (case strchr userid (CHR '':'') of
             None \<Rightarrow> Inl Ch_EINVAL
           | Some rest \<Rightarrow> Inr (Voms_group (take (length userid - length rest) userid) (tl rest)))
      | CHANGEACL_FQAN \<Rightarrow> Inr (Voms_fqan userid)
      | CHANGEACL_OTHER_TYPE \<Rightarrow> Inl Ch_EINVAL)"

definition cmp_gacl_creds :: "(acl_cred \<Rightarrow> string) \<Rightarrow> acl_cred \<Rightarrow> acl_cred \<Rightarrow> bool" where
  "cmp_gacl_creds auri a b \<longleftrightarrow> auri a = auri b"

definition same_entry :: "(acl_cred \<Rightarrow> string) \<Rightarrow> gacl_entry \<Rightarrow> gacl_entry \<Rightarrow> bool" where
  "same_entry auri e f \<longleftrightarrow>
     cmp_gacl_creds auri (ent_cred e) (ent_cred f) \<and> ent_allowed e = ent_allowed f \<and> ent_denied e = ent_denied f"

definition addEntry :: "(acl_cred \<Rightarrow> string) \<Rightarrow> gacl_entry list \<Rightarrow> gacl_entry \<Rightarrow> acl_change_error + gacl_entry list" where
  "addEntry auri es e =
     (if es = [] then Inr [e]
      else if list_ex (\<lambda>cur. same_entry auri cur e) es then Inl Ch_EEXIST
      else Inr (es @ [e]))"

fun remove_entry :: "(acl_cred \<Rightarrow> string) \<Rightarrow> gacl_entry \<Rightarrow> gacl_entry list \<Rightarrow> gacl_entry list option" where
  "remove_entry auri e [] = None"
| "remove_entry auri e (cur # es) =
     (if same_entry auri cur e then Some es else map_option (\<lambda>r. cur # r) (remove_entry auri e es))"

definition delEntry :: "(acl_cred \<Rightarrow> string) \<Rightarrow> gacl_entry list \<Rightarrow> gacl_entry \<Rightarrow> acl_change_error + gacl_entry list" where
  "delEntry auri es e = (case remove_entry auri e es of None \<Rightarrow> Inl Ch_EINVAL | Some r \<Rightarrow> Inr r)"

definition change_acl ::
  "(acl_cred \<Rightarrow> string) \<Rightarrow> gacl_entry list \<Rightarrow> gacl_entry \<Rightarrow> acl_operation \<Rightarrow> acl_change_error + gacl_entry list" where
  "change_acl auri es e operation =
     (case operation of
        CHANGEACL_ADD \<Rightarrow> addEntry auri es e
      | CHANGEACL_REMOVE \<Rightarrow> delEntry auri es e
      | CHANGEACL_OTHER_OP \<Rightarrow> Inl Ch_EINVAL)"

definition edg_wll_change_acl ::
  "(acl_cred \<Rightarrow> string) \<Rightarrow> gacl_entry list \<Rightarrow> string \<Rightarrow> acl_user_type \<Rightarrow> acl_permission \<Rightarrow> acl_perm_type \<Rightarrow> acl_operation \<Rightarrow>
   acl_change_error + gacl_entry list" where
  "edg_wll_change_acl auri es user_id user_type permission perm_type operation =
     (case create_cred user_id user_type of
        Inl e \<Rightarrow> Inl e
      | Inr cred \<Rightarrow>
          let p = perm_lb2gacl permission in
          if p = {} then Inl Ch_EINVAL
          else
            case perm_type of
              CHANGEACL_ALLOW \<Rightarrow> change_acl auri es \<lparr>ent_cred = cred, ent_allowed = p, ent_denied = {}\<rparr> operation
            | CHANGEACL_DENY \<Rightarrow> change_acl auri es \<lparr>ent_cred = cred, ent_allowed = {}, ent_denied = p\<rparr> operation
            | CHANGEACL_OTHER_PERM \<Rightarrow> Inl Ch_EINVAL)"

section \<open>The text of a list\<close>

text \<open>
  The lines of the file GACL has written, without their ends, are put together in a buffer that starts with 1024 bytes and
  grows by as many.
\<close>

fun encode_lines :: "string list \<Rightarrow> string \<Rightarrow> nat \<Rightarrow> string res" where
  "encode_lines [] buf buf_len = Inr buf"
| "encode_lines (line # ls) buf buf_len =
     (let buf_len = (if length buf + length line > buf_len then buf_len + 1024 else buf_len)
      in if length buf + length line + 1 > buf_len then Inl Heap_overflow
         else encode_lines ls (buf @ line) buf_len)"

definition edg_wll_EncodeACL :: "string list \<Rightarrow> string res" where
  "edg_wll_EncodeACL ls = encode_lines ls [] 1024"

section \<open>The tables\<close>

record acl_db =
  t_acls :: "string \<rightharpoonup> string \<times> nat"
  t_jobs :: "string \<rightharpoonup> string option"

definition acl_insert_or_count :: "string \<Rightarrow> string \<Rightarrow> acl_db \<Rightarrow> acl_db" where
  "acl_insert_or_count aclid val db =
     db\<lparr>t_acls := (t_acls db)(aclid \<mapsto> (case t_acls db aclid of None \<Rightarrow> (val, 1) | Some (v, n) \<Rightarrow> (v, n + 1)))\<rparr>"

text \<open>A null identifier is printed as a text that identifies no list.\<close>

definition acl_release :: "string option \<Rightarrow> acl_db \<Rightarrow> acl_db" where
  "acl_release aclid db =
     (case aclid of
        None \<Rightarrow> db
      | Some a \<Rightarrow>
          (case t_acls db a of
             None \<Rightarrow> db
           | Some (v, n) \<Rightarrow>
               if n < 1 then db
               else if n - 1 = 0 then db\<lparr>t_acls := (t_acls db)(a := None)\<rparr>
               else db\<lparr>t_acls := (t_acls db)(a \<mapsto> (v, n - 1))\<rparr>))"

text \<open>The text of the list of a job; nothing when it has none. A list that is missing is a null pointer to its parser.\<close>

definition edg_wll_GetACL :: "string \<Rightarrow> acl_db \<Rightarrow> string option res" where
  "edg_wll_GetACL job db =
     (case t_jobs db job of
        None \<Rightarrow> Inr None
      | Some None \<Rightarrow> Inr None
      | Some (Some aclid) \<Rightarrow>
          if aclid = [] then Inr None
          else rbind (deref (map_option fst (t_acls db aclid))) (\<lambda>v. Inr (Some v)))"

text \<open>The update counts the rows it finds, changed or not: connections are opened with \<^verbatim>\<open>CLIENT_FOUND_ROWS\<close>.\<close>

definition move_job :: "string \<Rightarrow> string option \<Rightarrow> string \<Rightarrow> acl_db \<Rightarrow> bool \<times> acl_db" where
  "move_job job old new db =
     (if t_jobs db job = Some old then (True, db\<lparr>t_jobs := (t_jobs db)(job \<mapsto> Some new)\<rparr>)
      else (False, db))"

text \<open>
  The loop of \<^verbatim>\<open>edg_wll_UpdateACL\<close>: \<open>change\<close> gives the text of the changed list, \<open>md5\<close> its identifier. A change
  that is already there is no error. A loop that does not end has the value \<open>None\<close>.
\<close>

partial_function (option) edg_wll_UpdateACL ::
  "(string \<Rightarrow> string) \<Rightarrow> (string option \<Rightarrow> acl_change_error + string) \<Rightarrow> string \<Rightarrow> acl_db \<Rightarrow>
   (acl_change_error option \<times> acl_db) res option" where
  "edg_wll_UpdateACL md5 change job db =
     (case edg_wll_GetACL job db of
        Inl f \<Rightarrow> Some (Inl f)
      | Inr cur \<Rightarrow>
          (case change cur of
             Inl e \<Rightarrow> Some (Inr (if e = Ch_EEXIST then None else Some e, db))
           | Inr new \<Rightarrow>
               (case move_job job (map_option md5 cur) (md5 new) (acl_insert_or_count (md5 new) new db) of
                  (moved, db1) \<Rightarrow>
                    if moved then Some (Inr (None, acl_release (map_option md5 cur) db1))
                    else edg_wll_UpdateACL md5 change job (acl_release (Some (md5 new)) db1))))"

section \<open>Properties of entries\<close>

lemma remove_last:
  assumes "\<not> list_ex (\<lambda>cur. same_entry auri cur e) es"
  shows "remove_entry auri e (es @ [e]) = Some es"
  using assms by (induction es) (auto simp: same_entry_def cmp_gacl_creds_def)

text \<open>Adding an entry and removing it again gives the list back.\<close>

lemma add_del_roundtrip:
  assumes "addEntry auri es e = Inr es'"
  shows "delEntry auri es' e = Inr es"
  using assms remove_last[of auri e es]
  by (auto simp: addEntry_def delEntry_def same_entry_def cmp_gacl_creds_def split: if_splits)

section \<open>The buffer\<close>

text \<open>
  The text of a list is put together without overrunning the buffer as long as no line has more than 1023 characters and
  the length of the text after a line is never a multiple of 1024; when the first line has exactly
  1024 characters, or the lines reach a multiple of 1024, the final NUL falls behind the buffer.
\<close>

theorem acl_text_bounds:
  assumes "\<forall>l\<in>set ls. length l < 1024" and "\<forall>k\<le>length ls. concat (take k ls) \<noteq> [] \<longrightarrow> length (concat (take k ls)) mod 1024 \<noteq> 0"
  shows "edg_wll_EncodeACL ls = Inr (concat ls) \<and> edg_wll_EncodeACL [replicate 1024 c] = Inl Heap_overflow"
proof -
  have "encode_lines ls buf n = Inr (buf @ concat ls)"
    if "length buf < n" "n mod 1024 = 0" "\<forall>k\<le>length ls. buf @ concat (take k ls) \<noteq> [] \<longrightarrow> length (buf @ concat (take k ls)) mod 1024 \<noteq> 0"
    for buf n
    using that assms(1)
  proof (induction ls arbitrary: buf n)
    case (Cons l ls)
    let ?n = "if length buf + length l > n then n + 1024 else n"
    have "length (buf @ l) mod 1024 \<noteq> 0 \<or> buf @ l = []"
      using Cons.prems(3)[rule_format, of 1] by fastforce
    then have "length buf + length l \<noteq> n \<or> length buf + length l = 0" using Cons.prems(2) by auto
    then have fits: "length (buf @ l) < ?n" using Cons.prems(1,4) by auto
    have step: "\<forall>k\<le>length ls. (buf @ l) @ concat (take k ls) \<noteq> [] \<longrightarrow> length ((buf @ l) @ concat (take k ls)) mod 1024 \<noteq> 0"
    proof (intro allI impI)
      fix k assume "k \<le> length ls" "(buf @ l) @ concat (take k ls) \<noteq> []"
      then show "length ((buf @ l) @ concat (take k ls)) mod 1024 \<noteq> 0"
        using Cons.prems(3)[rule_format, of "Suc k"] by (simp add: add.assoc)
    qed
    have "encode_lines ls (buf @ l) ?n = Inr ((buf @ l) @ concat ls)"
      using Cons.prems(2,4) fits step by (intro Cons.IH) auto
    then show ?case using fits by (simp add: Let_def)
  qed simp
  from this[of "[]" 1024] show ?thesis using assms(2) by (simp add: edg_wll_EncodeACL_def)
qed

theorem acl_text_bounds_witness:
  "edg_wll_EncodeACL [''<gacl>'', ''</gacl>''] = Inr ''<gacl></gacl>'' \<and> edg_wll_EncodeACL [replicate 1024 CHR ''x''] = Inl Heap_overflow"
  using acl_text_bounds[of "[''<gacl>'', ''</gacl>'']" "CHR ''x''"]
  by (auto simp: le_Suc_eq)

section \<open>References\<close>

definition users_of :: "acl_db \<Rightarrow> string \<Rightarrow> string set" where
  "users_of db a = {j. t_jobs db j = Some (Some a)}"

text \<open>
  The tables are right: a list is there exactly if jobs refer to it, with their number as its count, and under the
  digest of its text.
\<close>

definition acl_inv :: "(string \<Rightarrow> string) \<Rightarrow> acl_db \<Rightarrow> bool" where
  "acl_inv md5 db \<longleftrightarrow> finite (dom (t_jobs db)) \<and>
     (\<forall>a. case t_acls db a of
            None \<Rightarrow> users_of db a = {}
          | Some (v, n) \<Rightarrow> n = card (users_of db a) \<and> n > 0 \<and> a = md5 v)"

lemma users_finite: "acl_inv md5 db \<Longrightarrow> finite (users_of db a)"
  by (rule finite_subset[of _ "dom (t_jobs db)"]) (auto simp: users_of_def acl_inv_def)

lemma used_acl:
  assumes "acl_inv md5 db" and "j \<in> users_of db a"
  shows "\<exists>v n. t_acls db a = Some (v, n) \<and> a = md5 v"
proof -
  have "case t_acls db a of None \<Rightarrow> users_of db a = {} | Some (v, n) \<Rightarrow> n = card (users_of db a) \<and> n > 0 \<and> a = md5 v"
    using assms(1) by (simp add: acl_inv_def)
  then show ?thesis using assms(2) by (cases "t_acls db a") auto
qed

text \<open>The text of the list of a job.\<close>

definition acl_text :: "acl_db \<Rightarrow> string \<Rightarrow> string option" where
  "acl_text db j = Option.bind (Option.bind (t_jobs db j) (\<lambda>a. a)) (\<lambda>a. map_option fst (t_acls db a))"

lemma get_acl_text:
  assumes "acl_inv md5 db" and "\<And>s. md5 s \<noteq> []"
  shows "edg_wll_GetACL j db = Inr (acl_text db j)"
    and "t_jobs db j = Some old \<Longrightarrow> old = map_option md5 (acl_text db j)"
proof -
  have "t_acls db a \<noteq> None" "a \<noteq> []" "md5 (fst (the (t_acls db a))) = a" if "t_jobs db j = Some (Some a)" for a
  proof -
    have "j \<in> users_of db a" using that by (simp add: users_of_def)
    then obtain v n where "t_acls db a = Some (v, n)" "a = md5 v" using used_acl[OF assms(1)] by blast
    then show "t_acls db a \<noteq> None" "a \<noteq> []" "md5 (fst (the (t_acls db a))) = a" using assms(2) by auto
  qed
  note found = this
  show "edg_wll_GetACL j db = Inr (acl_text db j)"
    using found by (auto simp: edg_wll_GetACL_def acl_text_def split: option.splits)
  show "old = map_option md5 (acl_text db j)" if "t_jobs db j = Some old"
    using found that by (cases old) (auto simp: acl_text_def)
qed

lemma count_then_release:
  assumes "acl_inv md5 db"
  shows "acl_release (Some a) (acl_insert_or_count a v db) = db"
proof (cases "t_acls db a")
  case (Some p)
  obtain w n where p: "p = (w, n)" by (cases p)
  then have "0 < n" using assms Some by (auto simp: acl_inv_def dest: spec[of _ a])
  then show ?thesis
    using Some p by (auto simp: acl_release_def acl_insert_or_count_def fun_upd_idem)
qed (auto simp: acl_release_def acl_insert_or_count_def fun_upd_idem)

lemma move_inv:
  assumes inv: "acl_inv md5 db" and job: "t_jobs db j = Some old" and new: "old \<noteq> Some (md5 new)"
    and coll: "\<And>v n. t_acls db (md5 new) = Some (v, n) \<Longrightarrow> v = new"
  defines "db1 \<equiv> (acl_insert_or_count (md5 new) new db)\<lparr>t_jobs := (t_jobs db)(j \<mapsto> Some (md5 new))\<rparr>"
  shows "acl_inv md5 (acl_release old db1)"
proof -
  let ?a = "md5 new"
  have fin: "finite (users_of db b)" for b using users_finite[OF inv] .
  have nj: "j \<notin> users_of db ?a" using job new by (simp add: users_of_def)
  have u: "users_of db1 b = (if b = ?a then insert j (users_of db b) else users_of db b - {j})" for b
    by (auto simp: db1_def users_of_def acl_insert_or_count_def)
  have u': "users_of (acl_release old db1) b = users_of db1 b" for b
    by (auto simp: users_of_def acl_release_def split: option.splits)
  have at: "case t_acls db b of None \<Rightarrow> users_of db b = {} | Some (v, n) \<Rightarrow> n = card (users_of db b) \<and> n > 0 \<and> b = md5 v" for b
    using inv by (simp add: acl_inv_def)
  have acls1: "t_acls db1 b = (if b = ?a then Some (new, card (users_of db b) + 1) else t_acls db b)" for b
    using at[of ?a] coll by (auto simp: db1_def acl_insert_or_count_def split: option.splits)
  have card1: "card (users_of db1 ?a) = card (users_of db ?a) + 1" using u[of ?a] nj fin by simp
  have other: "users_of db1 b = users_of db b" if "b \<noteq> ?a" "old \<noteq> Some b" for b
    using u[of b] that job by (auto simp: users_of_def)
  have less: "card (users_of db1 b) = card (users_of db b) - 1" "j \<in> users_of db b" if "old = Some b" for b
  proof -
    show "j \<in> users_of db b" using job that by (simp add: users_of_def)
    then show "card (users_of db1 b) = card (users_of db b) - 1" using u[of b] that new fin by simp
  qed
  have "finite (dom (t_jobs (acl_release old db1)))"
    using inv by (auto simp: acl_release_def db1_def acl_inv_def acl_insert_or_count_def split: option.splits)
  moreover have "case t_acls (acl_release old db1) b of None \<Rightarrow> users_of db1 b = {}
      | Some (v, n) \<Rightarrow> n = card (users_of db1 b) \<and> n > 0 \<and> b = md5 v" for b
  proof (cases "old = Some b")
    case True
    then have b: "b \<noteq> ?a" using new by auto
    obtain v n where v: "t_acls db b = Some (v, n)" "n = card (users_of db b)" "n > 0" "b = md5 v"
      using at[of b] less(2)[OF True] by (auto split: option.splits)
    have "t_acls (acl_release old db1) b = (if n - 1 = 0 then None else Some (v, n - 1))"
      using True v b acls1[of b] by (simp add: acl_release_def)
    moreover have "users_of db1 b = {}" if "n - 1 = 0"
    proof -
      have "finite (users_of db1 b)" "card (users_of db1 b) = 0" using that less(1)[OF True] v(2) fin[of b] u[of b] b by auto
      then show ?thesis by simp
    qed
    moreover have "n - 1 = card (users_of db1 b)" using less(1)[OF True] v(2) by simp
    ultimately show ?thesis using v(4) by (cases "n - 1 = 0") auto
  next
    case False
    have "t_acls (acl_release old db1) b = t_acls db1 b"
      using False by (auto simp: acl_release_def split: option.splits)
    moreover have "b = ?a \<Longrightarrow> t_acls db1 b = Some (new, card (users_of db1 ?a))" using acls1[of b] card1 by simp
    moreover have "b \<noteq> ?a \<Longrightarrow> t_acls db1 b = t_acls db b \<and> users_of db1 b = users_of db b" using acls1[of b] other[of b] False by simp
    ultimately show ?thesis using card1 at[of b] by (cases "b = ?a"; cases "t_acls db b") auto
  qed
  ultimately show ?thesis unfolding acl_inv_def u' by blast
qed

lemma update_acl_other:
  assumes "acl_inv md5 db" and "\<And>s. md5 s \<noteq> []" and "t_jobs db j \<noteq> None"
    and "change (acl_text db j) = Inr new" and "map_option md5 (acl_text db j) \<noteq> Some (md5 new)"
    and "\<And>v n. t_acls db (md5 new) = Some (v, n) \<Longrightarrow> v = new"
  shows "\<exists>db'. edg_wll_UpdateACL md5 change j db = Some (Inr (None, db')) \<and> acl_inv md5 db' \<and>
    acl_text db' j = Some new \<and> (\<forall>k. k \<noteq> j \<longrightarrow> acl_text db' k = acl_text db k)"
proof -
  obtain old where old: "t_jobs db j = Some old" "old = map_option md5 (acl_text db j)"
    using assms(3) get_acl_text(2)[OF assms(1,2)] by blast
  let ?db1 = "(acl_insert_or_count (md5 new) new db)\<lparr>t_jobs := (t_jobs db)(j \<mapsto> Some (md5 new))\<rparr>"
  let ?db2 = "acl_release old ?db1"
  have "old \<noteq> Some (md5 new)" using assms(5) old(2) by simp
  then have inv: "acl_inv md5 ?db2" by (rule move_inv[OF assms(1) old(1)]) (rule assms(6))
  have move: "move_job j old (md5 new) (acl_insert_or_count (md5 new) new db) = (True, ?db1)"
    using old assms(5) by (simp add: move_job_def acl_insert_or_count_def)
  have "edg_wll_UpdateACL md5 change j db = Some (Inr (None, ?db2))"
    using get_acl_text(1)[OF assms(1,2)] assms(4) move old(2)
    by (simp add: edg_wll_UpdateACL.simps[of md5 change j db])
  moreover have jobs: "t_jobs ?db2 = (t_jobs db)(j \<mapsto> Some (md5 new))"
    by (simp add: acl_release_def split: option.splits)
  moreover have val: "map_option fst (t_acls ?db2 a) = (if a = md5 new then Some new else map_option fst (t_acls db a))"
    if "users_of ?db2 a \<noteq> {}" for a
  proof -
    have "t_acls ?db2 a \<noteq> None" using used_acl[OF inv] that by blast
    moreover have "map_option fst (t_acls ?db1 a) = (if a = md5 new then Some new else map_option fst (t_acls db a))"
      using assms(6) by (auto simp: acl_insert_or_count_def split: option.splits)
    ultimately show ?thesis
      by (auto simp: acl_release_def split: option.splits if_splits)
  qed
  moreover have "acl_text ?db2 j = Some new"
  proof -
    have "j \<in> users_of ?db2 (md5 new)" using jobs by (simp add: users_of_def)
    then have "map_option fst (t_acls ?db2 (md5 new)) = Some new" using val[of "md5 new"] by auto
    then show ?thesis using jobs by (simp add: acl_text_def)
  qed
  moreover have "acl_text ?db2 k = acl_text db k" if "k \<noteq> j" for k
  proof (cases "t_jobs db k")
    case (Some a)
    show ?thesis
    proof (cases a)
      case (Some b)
      have "k \<in> users_of db b" using \<open>t_jobs db k = Some a\<close> Some by (simp add: users_of_def)
      then have "\<exists>v n. t_acls db b = Some (v, n)" using used_acl[OF assms(1)] by blast
      moreover have "users_of ?db2 b \<noteq> {}" using jobs that \<open>t_jobs db k = Some a\<close> Some by (auto simp: users_of_def)
      ultimately show ?thesis
        using val[of b] jobs that \<open>t_jobs db k = Some a\<close> Some assms(6) by (auto simp: acl_text_def)
    qed (use Some jobs that in \<open>simp add: acl_text_def\<close>)
  qed (use jobs that in \<open>simp add: acl_text_def\<close>)
  ultimately show ?thesis using inv by blast
qed

text \<open>
  C40. Changing the list of a job keeps the tables right: for a registered job and a change that succeeds
  the loop ends after one round, the job has the new list, the lists of all other jobs are as before, and every
  list in the table is referred to by exactly as many jobs as its count says, so that no list is removed while it is used
  and none stays that is not.
\<close>

theorem update_acl_keeps_references:
  assumes "acl_inv md5 db" and "\<And>s. md5 s \<noteq> []" and "t_jobs db j \<noteq> None"
    and "change (acl_text db j) = Inr new" and "\<And>v n. t_acls db (md5 new) = Some (v, n) \<Longrightarrow> v = new"
  shows "\<exists>db'. edg_wll_UpdateACL md5 change j db = Some (Inr (None, db')) \<and> acl_inv md5 db' \<and>
    acl_text db' j = Some new \<and> (\<forall>k. k \<noteq> j \<longrightarrow> acl_text db' k = acl_text db k)"
proof (cases "map_option md5 (acl_text db j) = Some (md5 new)")
  case True
  obtain old where old: "t_jobs db j = Some old" "old = map_option md5 (acl_text db j)"
    using assms(3) get_acl_text(2)[OF assms(1,2)] by blast
  have same: "(acl_insert_or_count (md5 new) new db)\<lparr>t_jobs := (t_jobs db)(j \<mapsto> Some (md5 new))\<rparr> =
      acl_insert_or_count (md5 new) new db"
    using old True by (auto simp: acl_insert_or_count_def fun_upd_idem split: option.splits)
  have move: "move_job j old (md5 new) (acl_insert_or_count (md5 new) new db) = (True, acl_insert_or_count (md5 new) new db)"
    using old(1) same by (simp add: move_job_def acl_insert_or_count_def split: option.splits)
  have "edg_wll_UpdateACL md5 change j db = Some (Inr (None, db))"
    using get_acl_text(1)[OF assms(1,2)] assms(4) old(2) True move count_then_release[OF assms(1)]
    by (subst edg_wll_UpdateACL.simps) auto
  moreover have "acl_text db j = Some new"
    using old True assms(5) by (auto simp: acl_text_def split: option.splits bind_splits)
  ultimately show ?thesis using assms(1) by simp
next
  case False
  show ?thesis by (rule update_acl_other) (fact assms False)+
qed

theorem update_acl_keeps_references_witness:
  "\<exists>db'. edg_wll_UpdateACL (\<lambda>s. CHR ''m'' # s) (\<lambda>_. Inr ''new'') ''j'' \<lparr>t_acls = Map.empty, t_jobs = [''j'' \<mapsto> None, ''k'' \<mapsto> None]\<rparr> =
      Some (Inr (None, db')) \<and> acl_inv (\<lambda>s. CHR ''m'' # s) db' \<and> acl_text db' ''j'' = Some ''new'' \<and>
    (\<forall>k. k \<noteq> ''j'' \<longrightarrow> acl_text db' k = acl_text \<lparr>t_acls = Map.empty, t_jobs = [''j'' \<mapsto> None, ''k'' \<mapsto> None]\<rparr> k)"
  by (rule update_acl_keeps_references) (auto simp: acl_inv_def users_of_def acl_text_def)

text \<open>
  For a job that is not in the table the loop never ends: the
  update of the job finds no row, the reference just added is dropped again, and the same is tried once more.
\<close>

theorem update_acl_never_ends:
  assumes "acl_inv md5 db" and "\<And>s. md5 s \<noteq> []" and "change (acl_text db j) = Inr new"
    and "t_jobs db j = None"
  shows "edg_wll_UpdateACL md5 change j db = None"
proof -
  have stuck: "edg_wll_GetACL j db = Inr (acl_text db j)"
    "move_job j (map_option md5 (acl_text db j)) (md5 new) (acl_insert_or_count (md5 new) new db) =
      (False, acl_insert_or_count (md5 new) new db)"
    "acl_release (Some (md5 new)) (acl_insert_or_count (md5 new) new db) = db"
    using get_acl_text(1)[OF assms(1,2)] assms(4) count_then_release[OF assms(1)]
    by (auto simp: move_job_def acl_insert_or_count_def)
  have "\<not> (m = md5 \<and> c = change \<and> i = j \<and> d = db)" if "edg_wll_UpdateACL m c i d = Some y" for m c i d y
  proof (rule edg_wll_UpdateACL.raw_induct[OF _ that, where P = "\<lambda>m c i d y. \<not> (m = md5 \<and> c = change \<and> i = j \<and> d = db)"])
    fix f m c i d y
    assume ih: "\<And>m c i d y. f m c i d = Some y \<Longrightarrow> \<not> (m = md5 \<and> c = change \<and> i = j \<and> d = db)"
      and "(case edg_wll_GetACL i d of
          Inl f \<Rightarrow> Some (Inl f)
        | Inr cur \<Rightarrow>
            (case c cur of
               Inl e \<Rightarrow> Some (Inr (if e = Ch_EEXIST then None else Some e, d))
             | Inr new \<Rightarrow>
                 (case move_job i (map_option m cur) (m new) (acl_insert_or_count (m new) new d) of
                    (moved, db1) \<Rightarrow>
                      if moved then Some (Inr (None, acl_release (map_option m cur) db1))
                      else f m c i (acl_release (Some (m new)) db1)))) = Some y"
    then show "\<not> (m = md5 \<and> c = change \<and> i = j \<and> d = db)"
      using stuck assms(3) ih[of md5 change j db y] by auto
  qed
  from this[of md5 change j db] show ?thesis by (cases "edg_wll_UpdateACL md5 change j db") auto
qed

theorem update_acl_never_ends_witness:
  "edg_wll_UpdateACL (\<lambda>s. CHR ''m'' # s) (\<lambda>_. Inr ''new'') ''j'' \<lparr>t_acls = Map.empty, t_jobs = Map.empty\<rparr> = None"
  by (rule update_acl_never_ends) (auto simp: acl_inv_def users_of_def)

end
