(* ===== verification/LB_Tables.thy ===== *)
theory LB_Tables
  imports LB_QueryEvents LB_Acl LB_Context LB_StatusCodec LB_Process
begin

text \<open>
  The tables of the bookkeeping server and what \<^verbatim>\<open>org.glite.lb.server/src/store.c.T\<close> does with them: storing the row of a
  job, storing an event, the checks before both, and the first states of the subjobs of a collection.

  A table is a map from its primary key, or a list where rows are enumerated. Statements succeed; a statement
  that finds a row with its key already there fails, as the code expects. A transaction is taken back by its caller, who then goes
  on with the tables from before; the counters and what was handed to the statistics are taken back with them, which the code does not do.
\<close>

section \<open>Tables and context\<close>

record job_row =
  jr_id :: glite_jobid
  jr_userid :: string
  jr_proxy :: bool
  jr_server :: bool
  jr_grey :: bool
  jr_nevents :: int

text \<open>
  An event with its number, the user its job belonged to when it came, the event whose head is in the columns, and
  the event as it can be read back from the stored text.
\<close>

record stored_event =
  se_no :: int
  se_userid :: string
  se_row :: edg_wll_Event
  se_event :: "edg_wll_Event option"

record state_row =
  sr_status :: int
  sr_seq :: int
  sr_text :: string
  sr_version :: string
  sr_parent :: string

datatype server_counter = STATS_JOB_EVENTS | STATS_GLITEJOB_REGS | STATS_PBSJOB_REGS | STATS_CONDOR_REGS | STATS_CREAM_REGS
  | STATS_SANDBOX_REGS | STATS_VM_REGS

datatype job_connection = JOBCONNECTION_ACTIVE | JOBCONNECTION_INACTIVE | JOBCONNECTION_CANCELLED

text \<open>
  A purged job is remembered by its unique part without suffix and the numbers of its prefix and suffix, which count
  from one in their tables. Besides the tables: the counters of the server, the changes of states handed to the
  statistics and to the notifications, the events a proxy hands over for the server of their job, and the
  sequence code kept in the context of the request.
\<close>

record lb_db =
  d_users :: "string \<rightharpoonup> string"
  d_jobs :: "string \<rightharpoonup> job_row"
  d_events :: "string \<Rightarrow> stored_event list"
  d_states :: "(string \<times> state_row) list"
  d_tags :: "string \<times> int \<times> string \<rightharpoonup> cstr"
  d_acl :: acl_db
  d_zombies :: "(string \<times> nat \<times> nat) list"
  d_prefixes :: "string list"
  d_suffixes :: "string list"
  d_connections :: "string \<times> string \<rightharpoonup> int \<times> job_connection"
  d_counters :: "server_counter \<Rightarrow> nat"
  d_changes :: "(edg_wll_JobStat option \<times> edg_wll_JobStat) list"
  d_notified :: "(edg_wll_JobStat option \<times> edg_wll_JobStat) list"
  d_sent :: "edg_wll_Event list"
  d_seq :: edg_wll_Context

text \<open>
  What a request reads of its context, and the libraries: \<open>sx_test_user\<close> and \<open>sx_change\<close> evaluate and change the text
  of an access control list, \<open>sx_md5\<close> is OpenSSL's, \<open>sx_event_name\<close> the generated table of names of events, and
  \<open>sx_reread\<close> what the generated parser reads from the line that the generated printer makes of an event; \<open>sx_lcas\<close> is the answer
  of the local authorization service, if it is asked.
\<close>

record server_ctx =
  sx_query :: query_context
  sx_authz :: authz_context
  sx_serverRunning :: bool
  sx_greyjobs :: bool
  sx_async :: bool
  sx_exclusive_zombies :: bool
  sx_noIndex :: bool
  sx_softLimit :: nat
  sx_hardLimit :: nat
  sx_results :: query_results
  sx_fqans :: "string list option"
  sx_identity :: cstr
  sx_host :: cstr
  sx_level :: int
  sx_now :: timeval
  sx_md5 :: "string \<Rightarrow> 8 word list"
  sx_test_user :: "string \<Rightarrow> gacl_cred list \<Rightarrow> gacl_perm set"
  sx_change :: "cstr \<Rightarrow> int \<Rightarrow> int \<Rightarrow> int \<Rightarrow> int \<Rightarrow> string option \<Rightarrow> acl_change_error + string"
  sx_event_name :: "int \<Rightarrow> cstr"
  sx_reread :: "edg_wll_Event \<Rightarrow> edg_wll_Event option"
  sx_proxy_purge :: bool
  sx_lcas :: "(string \<Rightarrow> bool) option"
  sx_policy_file :: bool

datatype store_error = S_ENOENT | S_EIDRM | S_EEXIST | S_EPERM | S_EINVAL | S_ENOMEM | S_PARSE | S_DB_CALL | S_SERVER_RESPONSE | S_JOBID_FORMAT
  | S_QUERY query_err | S_ACL acl_change_error

abbreviation (input) LOG_USER_DEFAULT :: string where "LOG_USER_DEFAULT \<equiv> ''anonymous''"

definition LOGFLAG_DIRECT :: int where "LOGFLAG_DIRECT = 16"
definition LOGFLAG_INTERNAL :: int where "LOGFLAG_INTERNAL = 32"
definition LOGLFLAG_EXCL :: int where "LOGLFLAG_EXCL = 64"

definition has_flag :: "int \<Rightarrow> int \<Rightarrow> bool" where
  "has_flag fl p \<longleftrightarrow> (p div fl) mod 2 = 1"

text \<open>A null pointer is printed as \<^verbatim>\<open>(nil)\<close>.\<close>

definition sql_text :: "cstr \<Rightarrow> string" where
  "sql_text s = (case s of None \<Rightarrow> ''(nil)'' | Some t \<Rightarrow> t)"

definition event_unique :: "edg_wll_Event \<Rightarrow> string" where
  "event_unique e = sql_text (glite_jobid_getUnique (any_jobId e))"

definition user_id :: "server_ctx \<Rightarrow> string \<Rightarrow> string" where
  "user_id sx subj = str2md5 (sx_md5 sx) subj"

section \<open>Jobs and users\<close>

definition store_user :: "string \<Rightarrow> string \<Rightarrow> lb_db \<Rightarrow> lb_db" where
  "store_user userid subj db =
     (if d_users db userid \<noteq> None \<or> subj \<in> ran (d_users db) then db else db\<lparr>d_users := (d_users db)(userid \<mapsto> subj)\<rparr>)"

definition is_job_local :: "server_ctx \<Rightarrow> glite_jobid option \<Rightarrow> bool" where
  "is_job_local sx job =
     (sx_serverRunning sx \<and>
      (case glite_jobid_getServerParts job of
         None \<Rightarrow> False
       | Some (name, port) \<Rightarrow> srvPort (sx_query sx) = port \<and> srvName (sx_query sx) = Some name))"

text \<open>A new row has no events and no access control list.\<close>

definition store_job :: "server_ctx \<Rightarrow> glite_jobid \<Rightarrow> string \<Rightarrow> bool \<Rightarrow> bool \<Rightarrow> bool \<Rightarrow> bool \<Rightarrow> lb_db \<Rightarrow> lb_db" where
  "store_job sx job userid proxy server grey update db =
     (let proxy = (isProxy (sx_query sx) \<or> proxy);
          server = (if isProxy (sx_query sx) then is_job_local sx (Some job) \<or> server else True);
          u = jid_id job in
      case d_jobs db u of
        Some r \<Rightarrow>
          if update then db\<lparr>d_jobs := (d_jobs db)(u \<mapsto> r\<lparr>jr_userid := userid, jr_proxy := proxy, jr_server := server, jr_grey := grey\<rparr>)\<rparr>
          else db
      | None \<Rightarrow>
          if update then db
          else db\<lparr>d_jobs := (d_jobs db)(u \<mapsto> \<lparr>jr_id = job, jr_userid = userid, jr_proxy = proxy, jr_server = server,
                                            jr_grey = grey, jr_nevents = 0\<rparr>),
                  d_acl := (d_acl db)\<lparr>t_jobs := (t_jobs (d_acl db))(u \<mapsto> None)\<rparr>\<rparr>)"

definition job_owner :: "lb_db \<Rightarrow> string \<Rightarrow> cstr" where
  "job_owner db u = Option.bind (d_jobs db u) (\<lambda>r. d_users db (jr_userid r))"

definition update_acl ::
  "server_ctx \<Rightarrow> cstr \<Rightarrow> int \<Rightarrow> int \<Rightarrow> int \<Rightarrow> int \<Rightarrow> string \<Rightarrow> lb_db \<Rightarrow> (store_error + lb_db) res" where
  "update_acl sx user typ perm ptyp oper u db =
     (case edg_wll_UpdateACL (str2md5 (sx_md5 sx)) (sx_change sx user typ perm ptyp oper) u (d_acl db) of
        None \<Rightarrow> Inl Diverges
      | Some (Inl flt) \<Rightarrow> Inl flt
      | Some (Inr (Some err, _)) \<Rightarrow> Inr (Inl (S_ACL err))
      | Some (Inr (None, a)) \<Rightarrow> Inr (Inr (db\<lparr>d_acl := a\<rparr>)))"

text \<open>The names of a registration may end with a new line each; a name behind the last new line is not seen.\<close>

fun ended_lines :: "string \<Rightarrow> string \<Rightarrow> string list" where
  "ended_lines acc [] = []"
| "ended_lines acc (c # cs) = (if c = CHR 0x0A then acc # ended_lines [] cs else ended_lines (acc @ [c]) cs)"

primrec grant_read :: "server_ctx \<Rightarrow> string \<Rightarrow> string list \<Rightarrow> lb_db \<Rightarrow> (store_error + lb_db) res" where
  "grant_read sx u [] db = Inr (Inr db)"
| "grant_read sx u (n # ns) db = ebind (update_acl sx (Some n) 0 1 0 0 u db) (grant_read sx u ns)"

definition regjob_of :: "edg_wll_Event \<Rightarrow> bool" where
  "regjob_of e \<longleftrightarrow> registration e \<noteq> None"

text \<open>
  Whether the first event of a job may come, and what becomes of the job: not registered, as a grey job or for a
  registration that comes later.
\<close>

definition admit_first :: "server_ctx \<Rightarrow> edg_wll_Event \<Rightarrow> lb_db \<Rightarrow> store_error + (bool \<times> bool)" where
  "admit_first sx e db =
     (if regjob_of e then
        if \<not> isProxy (sx_query sx) \<and> \<not> edg_wll_gss_equal_subj (any_user e) (peerName (sx_query sx)) \<and> \<not> sx_greyjobs sx \<and>
           (\<not> sx_async sx \<or> check_authz_policy_ctx (sx_authz sx) REGISTER_FOREIGN)
        then Inl S_EPERM
        else if has_flag LOGLFLAG_EXCL (any_priority e) \<and> sx_exclusive_zombies sx \<and> event_unique e \<in> fst ` set (d_zombies db)
        then Inl S_EEXIST
        else Inr (False, False)
      else if sx_greyjobs sx then Inr (True, False)
      else if sx_async sx then
        if check_authz_policy_ctx (sx_authz sx) REGISTER_FOREIGN then Inl S_EPERM else Inr (False, True)
      else Inl S_ENOENT)"

definition first_owner :: "server_ctx \<Rightarrow> edg_wll_Event \<Rightarrow> bool \<Rightarrow> bool \<Rightarrow> cstr" where
  "first_owner sx e grey async =
     (if grey then Some ''GREY JOB''
      else if async then edg_wll_gss_normalize_subj (peerName (sx_query sx))
      else edg_wll_gss_normalize_subj (any_user e))"

definition wms_names :: "edg_wll_Event \<Rightarrow> string list" where
  "wms_names e = (case ev_body e of EvGlite (EvRegJob _ _ _ _ _ _ (Some dn)) \<Rightarrow> ended_lines [] dn | _ \<Rightarrow> [])"

text \<open>The result tells whether the job is to be registered to job provenance.\<close>

definition store_new_job :: "server_ctx \<Rightarrow> glite_jobid \<Rightarrow> edg_wll_Event \<Rightarrow> lb_db \<Rightarrow> (store_error + bool \<times> lb_db) res" where
  "store_new_job sx job e db =
     (case admit_first sx e db of
        Inl err \<Rightarrow> Inr (Inl err)
      | Inr (grey, async) \<Rightarrow>
          rbind (deref (first_owner sx e grey async)) (\<lambda>subj.
          let db1 = store_user (user_id sx subj) subj db;
              db2 = store_job sx job (user_id sx subj) (isProxy (sx_query sx)) (is_job_local sx (Some job)) (grey \<or> async) False db1 in
          ebind (grant_read sx (jid_id job) (wms_names e) db2) (\<lambda>db3.
          Inr (Inr (is_job_local sx (Some job), db3)))))"

definition store_known_job :: "server_ctx \<Rightarrow> glite_jobid \<Rightarrow> job_row \<Rightarrow> edg_wll_Event \<Rightarrow> lb_db \<Rightarrow> (store_error + bool \<times> lb_db) res" where
  "store_known_job sx job r e db =
     (let prox = isProxy (sx_query sx) in
      if (sx_greyjobs sx \<or> sx_async sx) \<and> jr_grey r \<and> regjob_of e then
        rbind (deref (edg_wll_gss_normalize_subj (any_user e))) (\<lambda>subj.
        Inr (Inr (False, store_job sx job (user_id sx subj) (prox \<or> jr_proxy r)
          (jr_server r \<or> is_job_local sx (Some job) \<and> sx_serverRunning sx) False True (store_user (user_id sx subj) subj db))))
      else if regjob_of e \<and> \<not> edg_wll_gss_equal_subj (any_user e) (job_owner db (jid_id job)) then Inr (Inl S_EPERM)
      else if regjob_of e \<and> has_flag LOGLFLAG_EXCL (any_priority e) then Inr (Inl S_EEXIST)
      else if \<not> jr_proxy r \<and> prox \<or> \<not> jr_server r \<and> \<not> prox
      then Inr (Inr (False, db\<lparr>d_jobs := (d_jobs db)(jid_id job \<mapsto> r\<lparr>jr_server := True, jr_proxy := True\<rparr>)\<rparr>))
      else Inr (Inr (False, db)))"

definition store_job_server_proxy :: "server_ctx \<Rightarrow> edg_wll_Event \<Rightarrow> lb_db \<Rightarrow> (store_error + bool \<times> lb_db) res" where
  "store_job_server_proxy sx e db =
     (if \<not> isProxy (sx_query sx) \<and> peerName (sx_query sx) = None then Inr (Inl S_EPERM)
      else if isProxy (sx_query sx) \<and> (any_user e = None \<or> any_user e = Some LOG_USER_DEFAULT) then Inr (Inl S_EPERM)
      else
        rbind (deref (any_jobId e)) (\<lambda>job.
        case d_jobs db (jid_id job) of
          None \<Rightarrow> store_new_job sx job e db
        | Some r \<Rightarrow> store_known_job sx job r e db))"

section \<open>Events\<close>

definition lowercase_usertag :: "edg_wll_Event \<Rightarrow> edg_wll_Event res" where
  "lowercase_usertag e =
     (case ev_body e of
        EvGlite (EvUserTag n v) \<Rightarrow>
          rbind (deref n) (\<lambda>name. Inr (e\<lparr>ev_body := EvGlite (EvUserTag (Some (map tolower name)) v)\<rparr>))
      | _ \<Rightarrow> Inr e)"

definition check_acl :: "server_ctx \<Rightarrow> edg_wll_Event \<Rightarrow> acl_permission \<Rightarrow> lb_db \<Rightarrow> bool res" where
  "check_acl sx e p db =
     rbind (edg_wll_GetACL (event_unique e) (d_acl db)) (\<lambda>al.
     Inr (edg_wll_CheckACL_princ (sx_test_user sx) al p (Some \<lparr>pr_name = any_user e, pr_fqans = []\<rparr>) = None))"

text \<open>What somebody else than the owner of a job may log for it as a user.\<close>

definition check_foreign :: "server_ctx \<Rightarrow> edg_wll_Event \<Rightarrow> lb_db \<Rightarrow> store_error option res" where
  "check_foreign sx e db =
     (case ev_body e of
        EvGlite (EvUserTag _ _) \<Rightarrow> rbind (check_acl sx e CHANGEACL_TAG db) (\<lambda>ok. Inr (if ok then None else Some S_EPERM))
      | EvGlite EvTakePayloadOwnership \<Rightarrow>
          rbind (deref (any_user e)) (\<lambda>u. Inr (if u \<noteq> LOG_USER_DEFAULT then None else Some S_EPERM))
      | _ \<Rightarrow> Inr (Some S_EPERM))"

definition check_auth :: "server_ctx \<Rightarrow> edg_wll_Event \<Rightarrow> lb_db \<Rightarrow> store_error option res" where
  "check_auth sx e db =
     (if \<not> isProxy (sx_query sx) \<and> peerName (sx_query sx) = None then Inr (Some S_EPERM)
      else
        case job_owner db (event_unique e) of
          None \<Rightarrow> Inr (Some S_ENOENT)
        | Some own \<Rightarrow>
            if any_source e \<in> {SOURCE_USER_INTERFACE, SOURCE_LRMS, SOURCE_APPLICATION} then
              if edg_wll_gss_equal_subj (Some own) (any_user e) then Inr None
              else check_foreign sx e db
            else rbind (deref (any_user e)) (\<lambda>u. Inr (if u = LOG_USER_DEFAULT then Some S_EPERM else None)))"

text \<open>What makes an event a duplicate of a stored one.\<close>

definition same_event :: "string \<Rightarrow> edg_wll_Event \<Rightarrow> stored_event \<Rightarrow> bool" where
  "same_event userid e s \<longleftrightarrow>
     (let f = se_row s in
      event_code (ev_body f) = event_code (ev_body e) \<and> edg_wll_SourceToString (any_source f) = edg_wll_SourceToString (any_source e) \<and>
      sql_text (any_host f) = sql_text (any_host e) \<and> any_timestamp f = any_timestamp e \<and> any_level f = any_level e \<and>
      any_seqcode f = any_seqcode e \<and> se_userid s = userid)"

text \<open>
  \<open>ulm\<close> is the event as it is read from the text that came, if there is one; else the text of the event is stored.
  The result is the number of the event and the event as it goes on.
\<close>

definition edg_wll_StoreEvent ::
  "server_ctx \<Rightarrow> edg_wll_Event \<Rightarrow> edg_wll_Event option \<Rightarrow> lb_db \<Rightarrow> (store_error + int \<times> edg_wll_Event \<times> lb_db) res" where
  "edg_wll_StoreEvent sx e0 ulm db =
     rbind (lowercase_usertag e0) (\<lambda>e.
     rbind (check_auth sx e db) (\<lambda>auth.
     if auth \<noteq> None \<and> \<not> (auth = Some S_EPERM \<and> noAuth (sx_authz sx)) then Inr (Inl (the auth))
     else
       let u = event_unique e; row = d_jobs db u;
           userid = sql_text (map_option jr_userid row);
           nr = (case row of None \<Rightarrow> 0 | Some r \<Rightarrow> jr_nevents r) in
       if list_ex (same_event userid e) (d_events db u) then Inr (Inl S_EEXIST)
       else if list_ex (\<lambda>s. se_no s = nr) (d_events db u) then Inr (Inl S_EEXIST)
       else
         Inr (Inr (nr, e,
           db\<lparr>d_events := (d_events db)(u := d_events db u @
                 [\<lparr>se_no = nr, se_userid = userid, se_row = e, se_event = (case ulm of None \<Rightarrow> sx_reread sx e | Some f \<Rightarrow> Some f)\<rparr>]),
              d_jobs := (d_jobs db)(u := map_option (\<lambda>r. r\<lparr>jr_nevents := nr + 1\<rparr>) row)\<rparr>))))"


section \<open>Registering for somebody else\<close>

text \<open>The user a subject is stored for: nobody else has the same digest.\<close>

definition known_as :: "server_ctx \<Rightarrow> string \<Rightarrow> lb_db \<Rightarrow> bool" where
  "known_as sx subj db \<longleftrightarrow>
     (\<forall>i s. d_users db i = Some s \<longrightarrow> i = user_id sx s) \<and> d_users db (user_id sx subj) \<in> {None, Some subj}"

lemma store_user_known: "known_as sx subj db \<Longrightarrow> d_users (store_user (user_id sx subj) subj db) (user_id sx subj) = Some subj"
  by (auto simp: known_as_def store_user_def ran_def)

lemma store_user_jobs [simp]: "d_jobs (store_user i s db) = d_jobs db"
  by (simp add: store_user_def)

lemma new_job_owner:
  assumes "d_jobs db (jid_id job) = None" and "known_as sx subj db"
  shows "job_owner (store_job sx job (user_id sx subj) p s g False (store_user (user_id sx subj) subj db)) (jid_id job) = Some subj"
  using assms store_user_known[OF assms(2)] by (simp add: store_job_def job_owner_def Let_def)

text \<open>
  C30. Registration in the name of another user, with asynchronous registrations. A client who holds the right
  to register foreign jobs is refused; one who does not hold it gets the job registered, with the other
  user as its owner. The result of the check of the right is used the wrong way round.
\<close>

theorem foreign_registration_inverted:
  assumes "regjob_of e" and "any_jobId e = Some job" and "d_jobs db (jid_id job) = None"
    and "\<not> isProxy (sx_query sx)" and "peerName (sx_query sx) \<noteq> None" and "\<not> edg_wll_gss_equal_subj (any_user e) (peerName (sx_query sx))"
    and "sx_async sx" and "\<not> sx_greyjobs sx" and "\<not> has_flag LOGLFLAG_EXCL (any_priority e)" and "wms_names e = []"
    and "edg_wll_gss_normalize_subj (any_user e) = Some subj" and "known_as sx subj db"
  shows "if check_authz_policy_ctx (sx_authz sx) REGISTER_FOREIGN
    then store_job_server_proxy sx e db = Inr (Inl S_EPERM)
    else \<exists>jp db'. store_job_server_proxy sx e db = Inr (Inr (jp, db')) \<and> job_owner db' (jid_id job) = Some subj"
  using assms new_job_owner[of db job sx subj]
  by (auto simp: store_job_server_proxy_def store_new_job_def admit_first_def first_owner_def Let_def)

section \<open>Events are kept once\<close>

text \<open>What identifies a stored event.\<close>

definition event_key :: "string \<Rightarrow> edg_wll_Event \<Rightarrow> int \<times> string \<times> string \<times> timeval \<times> int \<times> string \<times> string" where
  "event_key userid e = (event_code (ev_body e), edg_wll_SourceToString (any_source e), sql_text (any_host e), any_timestamp e,
     any_level e, any_seqcode e, userid)"

lemma same_event_key: "same_event userid e s \<longleftrightarrow> event_key (se_userid s) (se_row s) = event_key userid e"
  by (auto simp: same_event_def event_key_def Let_def)

text \<open>
  The events of a job have the numbers from zero on, the row of the job knows how many there are, no two are
  the same; a job without a row has no events.
\<close>

definition events_inv :: "lb_db \<Rightarrow> bool" where
  "events_inv db \<longleftrightarrow>
     (\<forall>u. map se_no (d_events db u) = map int [0..<length (d_events db u)] \<and>
          distinct (map (\<lambda>s. event_key (se_userid s) (se_row s)) (d_events db u)) \<and>
          (case d_jobs db u of None \<Rightarrow> d_events db u = [] | Some r \<Rightarrow> jr_nevents r = int (length (d_events db u))))"

lemma events_inv_job:
  assumes "events_inv db"
  shows "map se_no (d_events db u) = map int [0..<length (d_events db u)]"
    and "distinct (map (\<lambda>s. event_key (se_userid s) (se_row s)) (d_events db u))"
    and "d_jobs db u = None \<Longrightarrow> d_events db u = []"
    and "d_jobs db u = Some r \<Longrightarrow> jr_nevents r = int (length (d_events db u))"
  using assms[unfolded events_inv_def, rule_format, of u] by (auto split: option.splits)

text \<open>What remains of an event that has been stored: the tables, with the event behind the others.\<close>

definition with_event :: "server_ctx \<Rightarrow> edg_wll_Event \<Rightarrow> edg_wll_Event option \<Rightarrow> job_row \<Rightarrow> lb_db \<Rightarrow> lb_db" where
  "with_event sx e ulm r db =
     (let u = event_unique e in
      db\<lparr>d_events := (d_events db)(u := d_events db u @ [\<lparr>se_no = jr_nevents r, se_userid = jr_userid r, se_row = e,
           se_event = (case ulm of None \<Rightarrow> sx_reread sx e | Some f \<Rightarrow> Some f)\<rparr>]),
         d_jobs := (d_jobs db)(u \<mapsto> r\<lparr>jr_nevents := jr_nevents r + 1\<rparr>)\<rparr>)"

lemma check_foreign_known: "ok_res (\<lambda>a. a = None \<or> a = Some S_EPERM) (check_foreign sx e db)"
  by (simp add: check_foreign_def split: event_body.split glite_event.split)

lemma check_auth_known:
  "check_auth sx e db = Inr a \<Longrightarrow> a = None \<or> a = Some S_EPERM \<or> a = Some S_ENOENT \<and> job_owner db (event_unique e) = None"
  using check_foreign_known[of sx e db]
  by (auto simp: check_auth_def res_simps split: option.splits if_splits)

lemma tolower_tolower [simp]: "tolower (tolower c) = tolower c"
  by (simp add: tolower_def Let_def)

lemma lowercase_cases:
  assumes "lowercase_usertag e0 = Inr e"
  obtains "e = e0" and "lowercase_usertag e = Inr e"
  | n v where "ev_body e0 = EvGlite (EvUserTag (Some n) v)" and "e = e0\<lparr>ev_body := EvGlite (EvUserTag (Some (map tolower n)) v)\<rparr>"
proof (cases "\<exists>n v. ev_body e0 = EvGlite (EvUserTag n v)")
  case True
  then obtain n v where b: "ev_body e0 = EvGlite (EvUserTag n v)" by blast
  with assms show ?thesis by (cases n) (auto simp: lowercase_usertag_def intro: that(2))
next
  case False
  then have "lowercase_usertag e0 = Inr e0" by (simp add: lowercase_usertag_def split: event_body.split glite_event.split)
  with assms show ?thesis by (auto intro: that(1))
qed

lemma lowercase_head:
  assumes "lowercase_usertag e0 = Inr e"
  shows "event_unique e = event_unique e0 \<and> event_key u e = event_key u e0 \<and> any_user e = any_user e0 \<and> lowercase_usertag e = Inr e"
  using assms
  by (rule lowercase_cases) (simp_all add: event_unique_def event_key_def event_code_def glite_code_def lowercase_usertag_def comp_def)

lemma list_ex_same: "list_ex (same_event i e) xs \<longleftrightarrow> event_key i e \<in> (\<lambda>s. event_key (se_userid s) (se_row s)) ` set xs"
  by (auto simp: list_ex_iff same_event_key image_iff) metis

text \<open>What it takes for an event to be stored.\<close>

definition may_store :: "server_ctx \<Rightarrow> edg_wll_Event \<Rightarrow> lb_db \<Rightarrow> bool" where
  "may_store sx e db \<longleftrightarrow> (\<exists>a. check_auth sx e db = Inr a \<and> (a = None \<or> a = Some S_EPERM \<and> noAuth (sx_authz sx)))"

abbreviation authenticated :: "server_ctx \<Rightarrow> bool" where
  "authenticated sx \<equiv> isProxy (sx_query sx) \<or> peerName (sx_query sx) \<noteq> None"

lemma store_event_cases:
  assumes "authenticated sx" and "edg_wll_StoreEvent sx e0 ulm db = Inr (Inr (n, e, db'))"
  obtains r where "lowercase_usertag e0 = Inr e" and "may_store sx e db" and "d_jobs db (event_unique e) = Some r"
    and "n = jr_nevents r" and "db' = with_event sx e ulm r db" and "\<not> list_ex (same_event (jr_userid r) e) (d_events db (event_unique e))"
proof -
  obtain a where low: "lowercase_usertag e0 = Inr e" and auth: "check_auth sx e db = Inr a"
    and ok: "a = None \<or> a = Some S_EPERM \<and> noAuth (sx_authz sx)"
    using assms by (auto simp: edg_wll_StoreEvent_def Let_def res_simps split: if_splits)
  from auth ok assms(1) have "job_owner db (event_unique e) \<noteq> None"
    by (auto simp: check_auth_def job_owner_def res_simps split: option.splits if_splits)
  then obtain r where row: "d_jobs db (event_unique e) = Some r" by (auto simp: job_owner_def bind_eq_None_conv)
  show thesis
    using assms that[OF low _ row] low auth ok row
    by (auto simp: edg_wll_StoreEvent_def Let_def with_event_def may_store_def sql_text_def split: if_splits)
qed

lemma may_store_bookkeeping:
  assumes "may_store sx e db" and "\<And>u. map_option jr_userid (d_jobs db' u) = map_option jr_userid (d_jobs db u)"
    and "d_users db' = d_users db" and "d_acl db' = d_acl db"
  shows "may_store sx e db'"
proof -
  have "job_owner db' u = job_owner db u" for u
    using assms(2)[of u] assms(3) by (cases "d_jobs db' u"; cases "d_jobs db u") (auto simp: job_owner_def)
  moreover have "check_foreign sx e db' = check_foreign sx e db"
    unfolding check_foreign_def check_acl_def assms(4) ..
  ultimately have "check_auth sx e db' = check_auth sx e db" by (simp add: check_auth_def split: option.split)
  with assms(1) show ?thesis by (simp add: may_store_def)
qed

lemma stored_if:
  assumes "lowercase_usertag e0 = Inr e" and "may_store sx e db" and "d_jobs db (event_unique e) = Some r"
  shows "edg_wll_StoreEvent sx e0 ulm db =
    Inr (if list_ex (same_event (jr_userid r) e) (d_events db (event_unique e)) \<or> list_ex (\<lambda>s. se_no s = jr_nevents r) (d_events db (event_unique e))
         then Inl S_EEXIST else Inr (jr_nevents r, e, with_event sx e ulm r db))"
  using assms by (auto simp: edg_wll_StoreEvent_def may_store_def with_event_def Let_def sql_text_def)

lemma with_event_inv:
  assumes "events_inv db" and "d_jobs db (event_unique e) = Some r" and "\<not> list_ex (same_event (jr_userid r) e) (d_events db (event_unique e))"
  shows "events_inv (with_event sx e ulm r db)"
  unfolding events_inv_def
proof
  fix u
  let ?db' = "with_event sx e ulm r db"
  show "map se_no (d_events ?db' u) = map int [0..<length (d_events ?db' u)] \<and>
        distinct (map (\<lambda>s. event_key (se_userid s) (se_row s)) (d_events ?db' u)) \<and>
        (case d_jobs ?db' u of None \<Rightarrow> d_events ?db' u = [] | Some r \<Rightarrow> jr_nevents r = int (length (d_events ?db' u)))"
    using events_inv_job[OF assms(1), of u] events_inv_job(4)[OF assms(1,2)] assms(3)
    by (cases "u = event_unique e") (auto simp: with_event_def Let_def list_ex_same split: option.split)
qed

text \<open>
  Numbers of events, on an authenticated connection. When the events of every job are numbered from zero without gaps, the count in the row of
  the job is right, and no two events of a job are the same, then storing an event puts it behind the others of its job with the
  next number, and all this stays true.
\<close>

theorem event_numbering:
  assumes "events_inv db" and "authenticated sx" and "edg_wll_StoreEvent sx e0 ulm db = Inr (Inr (n, e, db'))"
  shows "events_inv db' \<and> n = int (length (d_events db (event_unique e0))) \<and>
    (\<exists>s. d_events db' = (d_events db)(event_unique e0 := d_events db (event_unique e0) @ [s]) \<and> se_no s = n \<and> se_row s = e)"
  using assms(2,3)
proof (rule store_event_cases)
  fix r
  let ?u = "event_unique e"
  assume low: "lowercase_usertag e0 = Inr e" and row: "d_jobs db ?u = Some r" and n: "n = jr_nevents r"
    and db': "db' = with_event sx e ulm r db" and new: "\<not> list_ex (same_event (jr_userid r) e) (d_events db ?u)"
  have "n = int (length (d_events db ?u))" using events_inv_job(4)[OF assms(1) row] n by simp
  moreover have "events_inv db'" unfolding db' using assms(1) row new by (rule with_event_inv)
  ultimately show ?thesis
    using low lowercase_head[OF low] n by (auto simp: db' with_event_def Let_def)
qed

text \<open>
  C27. Events may be sent again. An event that has been stored is refused as a duplicate when it comes once more,
  even if its text differs; the request then leaves the tables as they are.
\<close>

theorem resent_event_refused:
  assumes "authenticated sx" and "edg_wll_StoreEvent sx e0 ulm db = Inr (Inr (n, e, db'))"
  shows "edg_wll_StoreEvent sx e0 ulm' db' = Inr (Inl S_EEXIST)"
  using assms
proof (rule store_event_cases)
  fix r
  let ?u = "event_unique e"
  assume low: "lowercase_usertag e0 = Inr e" and ok: "may_store sx e db" and row: "d_jobs db ?u = Some r" and db': "db' = with_event sx e ulm r db"
  have "may_store sx e db'"
    by (rule may_store_bookkeeping[OF ok]) (simp_all add: db' with_event_def Let_def row)
  moreover have "d_jobs db' ?u = Some (r\<lparr>jr_nevents := jr_nevents r + 1\<rparr>)"
    and "list_ex (same_event (jr_userid r) e) (d_events db' ?u)"
    by (simp_all add: db' with_event_def Let_def same_event_key)
  ultimately show ?thesis using stored_if[OF low, of sx db'] by simp
qed

section \<open>Examples\<close>

text \<open>A server with asynchronous registrations, a client without special rights, and a job of somebody else.\<close>

definition ex_sx :: server_ctx where
  "ex_sx =
     \<lparr>sx_query = \<lparr>peerName = Some ''/CN=wms'', srvName = Some ''lb'', srvPort = 90, isProxy = False, job_index = None\<rparr>,
      sx_authz = \<lparr>noAuth = False, ctx_peer = \<lparr>pr_name = Some ''/CN=wms'', pr_fqans = []\<rparr>, ctx_policy = [], id_mapping = []\<rparr>,
      sx_serverRunning = True, sx_greyjobs = False, sx_async = True, sx_exclusive_zombies = True, sx_noIndex = False, sx_softLimit = 0,
      sx_hardLimit = 0, sx_results = QUERYRES_LIMITED, sx_fqans = None, sx_identity = Some ''/CN=lb'', sx_host = Some ''lb'', sx_level = 8,
      sx_now = null_timeval, sx_md5 = example_md5, sx_test_user = (\<lambda>_ _. {}), sx_change = (\<lambda>_ _ _ _ _ _. Inl Ch_EINVAL),
      sx_event_name = (\<lambda>_. Some ''Event''), sx_reread = Some,
      sx_proxy_purge = False, sx_lcas = None, sx_policy_file = False\<rparr>"

definition ex_db :: lb_db where
  "ex_db =
     \<lparr>d_users = [user_id ex_sx ''/CN=user'' \<mapsto> ''/CN=user''],
      d_jobs = [''mine'' \<mapsto> \<lparr>jr_id = ex_job_id ''mine'', jr_userid = user_id ex_sx ''/CN=user'', jr_proxy = False, jr_server = True,
                               jr_grey = False, jr_nevents = 0\<rparr>],
      d_events = (\<lambda>_. []), d_states = [], d_tags = (\<lambda>_. None), d_acl = \<lparr>t_acls = (\<lambda>_. None), t_jobs = [''mine'' \<mapsto> None]\<rparr>,
      d_zombies = [], d_prefixes = [], d_suffixes = [], d_connections = (\<lambda>_. None), d_counters = (\<lambda>_. 0), d_changes = [], d_notified = [], d_sent = [], d_seq = example_ctx\<rparr>"

definition ex_registration :: "string \<Rightarrow> edg_wll_Event" where
  "ex_registration u = (ex_event_of u)\<lparr>ev_body := EvGlite (EvRegJob None None None EDG_WLL_REGJOB_SIMPLE 0 None None)\<rparr>"

lemma ex_db_inv: "events_inv ex_db"
  by (simp add: events_inv_def ex_db_def)

lemma ex_stored: "\<exists>e db'. edg_wll_StoreEvent ex_sx (ex_event_of ''mine'') None ex_db = Inr (Inr (0, e, db'))"
proof -
  have "case edg_wll_StoreEvent ex_sx (ex_event_of ''mine'') None ex_db of Inr (Inr (n, _, _)) \<Rightarrow> n = 0 | _ \<Rightarrow> False" by code_simp
  then show ?thesis by (auto split: sum.splits)
qed

theorem foreign_registration_inverted_witness:
  "\<exists>jp db'. store_job_server_proxy ex_sx (ex_registration ''new'') ex_db = Inr (Inr (jp, db')) \<and> job_owner db' ''new'' = Some ''/CN=user''"
proof -
  have "known_as ex_sx ''/CN=user'' ex_db" by (auto simp: known_as_def ex_db_def)
  moreover have "\<not> edg_wll_gss_equal_subj (any_user (ex_registration ''new'')) (peerName (sx_query ex_sx))" by code_simp
  moreover have "edg_wll_gss_normalize_subj (any_user (ex_registration ''new'')) = Some ''/CN=user''" by code_simp
  moreover have "\<not> check_authz_policy_ctx (sx_authz ex_sx) REGISTER_FOREIGN" by code_simp
  moreover have "regjob_of (ex_registration ''new'')" "any_jobId (ex_registration ''new'') = Some (ex_job_id ''new'')"
    "wms_names (ex_registration ''new'') = []" "\<not> has_flag LOGLFLAG_EXCL (any_priority (ex_registration ''new''))" by code_simp+
  moreover have "d_jobs ex_db (jid_id (ex_job_id ''new'')) = None" by (simp add: ex_db_def ex_job_id_def)
  ultimately show ?thesis
    using foreign_registration_inverted[of "ex_registration ''new''" "ex_job_id ''new''" ex_db ex_sx "''/CN=user''"]
    by (simp add: ex_sx_def ex_job_id_def)
qed

theorem event_numbering_witness:
  "\<exists>e db' s. edg_wll_StoreEvent ex_sx (ex_event_of ''mine'') None ex_db = Inr (Inr (0, e, db')) \<and> events_inv db' \<and>
     d_events db' ''mine'' = [s] \<and> se_no s = 0"
proof -
  obtain e db' where st: "edg_wll_StoreEvent ex_sx (ex_event_of ''mine'') None ex_db = Inr (Inr (0, e, db'))" using ex_stored by blast
  moreover have "event_unique (ex_event_of ''mine'') = ''mine''" by code_simp
  moreover have "authenticated ex_sx" by (simp add: ex_sx_def)
  ultimately show ?thesis using event_numbering[OF ex_db_inv _ st] by (auto simp: ex_db_def)
qed

theorem resent_event_refused_witness:
  "\<exists>e db'. edg_wll_StoreEvent ex_sx (ex_event_of ''mine'') None ex_db = Inr (Inr (0, e, db')) \<and>
     edg_wll_StoreEvent ex_sx (ex_event_of ''mine'') None db' = Inr (Inl S_EEXIST)"
proof -
  obtain e db' where st: "edg_wll_StoreEvent ex_sx (ex_event_of ''mine'') None ex_db = Inr (Inr (0, e, db'))" using ex_stored by blast
  moreover have "authenticated ex_sx" by (simp add: ex_sx_def)
  ultimately show ?thesis using resent_event_refused[OF _ st] by blast
qed

end
