(* ===== verification/LB_JobStat.thy ===== *)
theory LB_JobStat
  imports LB_Tables "HOL-Library.AList"
begin

text \<open>
  The status of jobs in the bookkeeping server (\<^verbatim>\<open>org.glite.lb.server/src/jobstat.c\<close>): the status is kept
  in the table of states and moved on with each event; where the stored one does not fit it is computed anew from all events
  of the job. A change of a subjob moves a counter in the histogram of its collection, and may log an event for the collection.
\<close>

definition INTSTAT_VERSION :: string where
  "INTSTAT_VERSION = ''revision 2.11 - payload owner''"

section \<open>Stored status\<close>

definition state_tags :: "string \<Rightarrow> int \<Rightarrow> intJobStat \<Rightarrow> (string \<times> int \<times> string \<rightharpoonup> cstr) \<Rightarrow> (string \<times> int \<times> string \<rightharpoonup> cstr)" where
  "state_tags u seq stat tags =
     (let new = fold (\<lambda>(n, v) t. if t (u, seq, n) \<noteq> None then t else t((u, seq, n) \<mapsto> Some v))
                  (case user_tags stat of None \<Rightarrow> [] | Some ts \<Rightarrow> ts) tags in
      if seq > 0 then (\<lambda>(k, q, n). if k = u \<and> q < seq then None else new (k, q, n)) else new)"

definition parent_text :: "glite_jobid option \<Rightarrow> string" where
  "parent_text p = (case glite_jobid_getUnique p of None \<Rightarrow> ''*no parent job*'' | Some u \<Rightarrow> u)"

text \<open>The update counts the rows it finds; where it finds none the row is inserted.\<close>

definition edg_wll_StoreIntState :: "intJobStat \<Rightarrow> int \<Rightarrow> lb_db \<Rightarrow> lb_db res" where
  "edg_wll_StoreIntState stat seq db =
     rbind (enc_intJobStat [] stat) (\<lambda>text.
     let u = sql_text (glite_jobid_getUnique (jobId stat));
         row = \<lparr>sr_status = state stat, sr_seq = seq, sr_text = text, sr_version = INTSTAT_VERSION,
                sr_parent = parent_text (parent_job stat)\<rparr>;
         states = AList.update u row (d_states db) in
     Inr (db\<lparr>d_tags := state_tags u seq stat (d_tags db),
             d_states := (if seq > 0 then filter (\<lambda>(k, r). \<not> (k = u \<and> (sr_seq r < seq \<or> sr_version r \<noteq> INTSTAT_VERSION))) states
                          else states)\<rparr>))"

definition edg_wll_LoadIntState :: "glite_jobid option \<Rightarrow> int \<Rightarrow> lb_db \<Rightarrow> (store_error + intJobStat) res" where
  "edg_wll_LoadIntState job seq db =
     (case map_of (d_states db) (sql_text (glite_jobid_getUnique job)) of
        None \<Rightarrow> Inr (Inl S_ENOENT)
      | Some r \<Rightarrow>
          if sr_version r = INTSTAT_VERSION \<and> (seq = - 1 \<or> sr_seq r = seq) then
            rbind (dec_intJobStat (sr_text r)) (\<lambda>(js, rest).
            case rest of
              None \<Rightarrow> Inr (Inl S_DB_CALL)
            | Some _ \<Rightarrow> rbind (deref js) (\<lambda>j. Inr (Inr j)))
          else Inr (Inl S_ENOENT))"

text \<open>Storing the histogram of a parent with its status; the row has to be there.\<close>

definition edg_wll_StoreSubjobHistogram :: "glite_jobid option \<Rightarrow> intJobStat \<Rightarrow> lb_db \<Rightarrow> lb_db res" where
  "edg_wll_StoreSubjobHistogram parent ijs db =
     rbind (enc_intJobStat [] ijs) (\<lambda>text.
     let u = sql_text (glite_jobid_getUnique parent) in
     case map_of (d_states db) u of
       None \<Rightarrow> Inl Assert_fail
     | Some r \<Rightarrow>
         Inr (db\<lparr>d_states := AList.update u (r\<lparr>sr_status := state ijs, sr_text := text, sr_version := INTSTAT_VERSION\<rparr>) (d_states db)\<rparr>))"

definition array_at :: "int list option \<Rightarrow> int \<Rightarrow> int res" where
  "array_at a i =
     rbind (deref a) (\<lambda>xs. if 0 \<le> i \<and> i < int (length xs) then Inr (xs ! nat i) else Inl Out_of_bounds)"

definition edg_wll_GetSubjobHistogram :: "glite_jobid option \<Rightarrow> lb_db \<Rightarrow> (store_error + int list) res" where
  "edg_wll_GetSubjobHistogram parent db =
     (case map_of (d_states db) (sql_text (glite_jobid_getUnique parent)) of
        None \<Rightarrow> Inr (Inl S_ENOENT)
      | Some r \<Rightarrow>
          if sr_version r \<noteq> INTSTAT_VERSION then Inr (Inl S_ENOENT)
          else
            rbind (dec_intJobStat (sr_text r)) (\<lambda>(js, _).
            rbind (deref js) (\<lambda>ijs.
            rbind (array_at (children_hist ijs) EDG_WLL_NUMBER_OF_STATCODES) (\<lambda>_.
            rbind (deref (children_hist ijs)) (\<lambda>h. Inr (Inr (take 13 h)))))))"

section \<open>Computing the status from the events\<close>

definition jobid_condition :: "glite_jobid \<Rightarrow> edg_wll_QueryRec" where
  "jobid_condition job =
     (let v = \<lparr>qv_i = 0, qv_c = None, qv_t = null_timeval, qv_j = Some job\<rparr> in
      \<lparr>q_attr = ATTR_JOBID, q_op = OP_EQUAL, id_tag = None, id_state = 0, q_value = v, q_value2 = v\<rparr>)"

definition type_condition :: "int \<Rightarrow> edg_wll_QueryRec" where
  "type_condition t =
     (let v = \<lparr>qv_i = t, qv_c = None, qv_t = null_timeval, qv_j = None\<rparr> in
      \<lparr>q_attr = ATTR_EVENT_TYPE, q_op = OP_EQUAL, id_tag = None, id_state = 0, q_value = v, q_value2 = v\<rparr>)"

abbreviation (input) EDG_WLL_EVENT_REGJOB :: int where "EDG_WLL_EVENT_REGJOB \<equiv> 17"

text \<open>The rows the database gives for the condition on the job, and on the type of the event if there is one.\<close>

definition job_event_rows :: "server_ctx \<Rightarrow> lb_db \<Rightarrow> string \<Rightarrow> int option \<Rightarrow> event_row list" where
  "job_event_rows sx db u typ =
     (case d_jobs db u of
        None \<Rightarrow> []
      | Some r \<Rightarrow>
          if jr_grey r \<or> \<not> (if isProxy (sx_query sx) then jr_proxy r else jr_server r) then []
          else
            map (\<lambda>s. \<lparr>er_userid = jr_userid r, er_jobid = sql_text (glite_jobid_unparse (Some (jr_id r))), er_event = se_event s\<rparr>)
              (filter (\<lambda>s. d_users db (se_userid s) \<noteq> None \<and>
                  (case typ of None \<Rightarrow> event_code (ev_body (se_row s)) \<noteq> 0 | Some t \<Rightarrow> event_code (ev_body (se_row s)) = t))
                (d_events db u)))"

text \<open>A query of the server itself, without checks of rights.\<close>

definition job_events :: "junk \<Rightarrow> server_ctx \<Rightarrow> lb_db \<Rightarrow> glite_jobid \<Rightarrow> int option \<Rightarrow> (query_err option \<times> edg_wll_Event list) res" where
  "job_events junk sx db job typ =
     edg_wll_QueryEventsServer junk (\<lambda>i. if 0 \<le> i \<and> i < int (length srcNames) then Some (srcNames ! nat i) else None)
       (\<lambda>_ _ _. job_event_rows sx db (jid_id job) typ)
       (sx_noIndex sx) (sx_softLimit sx) (sx_hardLimit sx) (sx_results sx)
       \<lparr>eq_jdl_attr = (\<lambda>_ _. None), eq_ctx = sx_query sx, eq_jobStatus = (\<lambda>_. Inl Q_ENOENT), eq_md5 = sx_md5 sx,
        eq_acl_ok = (\<lambda>_. False), eq_noAuth = True, eq_flags = no_flags,
        eq_jobs = Some [[jobid_condition job]], eq_events = map_option (\<lambda>t. [[type_condition t]]) typ\<rparr>"

definition get_job_parent :: "server_ctx \<Rightarrow> glite_jobid \<Rightarrow> lb_db \<Rightarrow> store_error + glite_jobid" where
  "get_job_parent sx job db =
     (case map_of (d_states db) (jid_id job) of
        None \<Rightarrow> Inl S_ENOENT
      | Some r \<Rightarrow>
          if sr_parent r = ''*no parent job*'' then Inl S_ENOENT
          else
            case glite_jobid_recreate (srvName (sx_query sx)) (sint (srvPort (sx_query sx))) (Some (sr_parent r)) [] of
              Inl _ \<Rightarrow> Inl S_EINVAL
            | Inr p \<Rightarrow> Inr p)"

text \<open>The first status of a subjob, from the registration of its parent.\<close>

definition intJobStat_embryonic :: "glite_jobid \<Rightarrow> edg_wll_Event \<Rightarrow> intJobStat \<Rightarrow> intJobStat res" where
  "intJobStat_embryonic job e js =
     rbind (deref (any_user e)) (\<lambda>u.
     rbind (arr_store (stateEnterTimes js) (1 + EDG_WLL_JOB_SUBMITTED) (c_int (tv_sec (any_timestamp e)))) (\<lambda>times.
     Inr (js\<lparr>jobId := Some job, parent_job := any_jobId e, state := EDG_WLL_JOB_SUBMITTED, owner := Some u,
             jobtype := (if registration e = Some EDG_WLL_REGJOB_FILE_TRANSFER_COLLECTION then EDG_WLL_STAT_FILE_TRANSFER
                         else EDG_WLL_STAT_SIMPLE),
             stateEnterTimes := times, lastUpdateTime := any_timestamp e, stateEnterTime := any_timestamp e\<rparr>)))"

definition edg_wll_RestoreSubjobState :: "junk \<Rightarrow> server_ctx \<Rightarrow> lb_db \<Rightarrow> glite_jobid \<Rightarrow> intJobStat \<Rightarrow> (store_error option \<times> intJobStat) res" where
  "edg_wll_RestoreSubjobState junk sx db job js =
     (case get_job_parent sx job db of
        Inl err \<Rightarrow> Inr (Some err, js)
      | Inr parent \<Rightarrow>
          rbind (job_events junk sx db parent (Some EDG_WLL_EVENT_REGJOB)) (\<lambda>(err, evs).
          case err of
            Some Q_ENOENT \<Rightarrow> Inr (Some S_ENOENT, js)
          | Some er \<Rightarrow> Inr (Some (S_QUERY er), js)
          | None \<Rightarrow>
              (case evs of
                 [] \<Rightarrow> Inl Null_deref
               | e # _ \<Rightarrow> rbind (intJobStat_embryonic job e js) (\<lambda>js1. Inr (None, js1)))))"

definition reg_counter :: "int \<Rightarrow> server_counter option" where
  "reg_counter t =
     (if t = EDG_WLL_STAT_SIMPLE \<or> t = EDG_WLL_STAT_DAG \<or> t = EDG_WLL_STAT_COLLECTION then Some STATS_GLITEJOB_REGS
      else if t = EDG_WLL_STAT_PBS then Some STATS_PBSJOB_REGS
      else if t = EDG_WLL_STAT_CONDOR then Some STATS_CONDOR_REGS
      else if t = EDG_WLL_STAT_CREAM then Some STATS_CREAM_REGS
      else if t = EDG_WLL_STAT_FILE_TRANSFER \<or> t = EDG_WLL_STAT_FILE_TRANSFER_COLLECTION then Some STATS_SANDBOX_REGS
      else if t = EDG_WLL_STAT_VIRTUAL_MACHINE then Some STATS_VM_REGS
      else None)"

definition count_up :: "server_counter option \<Rightarrow> lb_db \<Rightarrow> lb_db" where
  "count_up c db = (case c of None \<Rightarrow> db | Some c \<Rightarrow> db\<lparr>d_counters := (d_counters db)(c := d_counters db c + 1)\<rparr>)"

definition count_event :: "edg_wll_Event \<Rightarrow> intJobStat \<Rightarrow> lb_db \<Rightarrow> lb_db" where
  "count_event e js db =
     count_up (if registration e \<noteq> None then reg_counter (jobtype js) else None) (count_up (Some STATS_JOB_EVENTS) db)"

primrec process_events :: "junk \<Rightarrow> edg_wll_Event list \<Rightarrow> intJobStat \<Rightarrow> lb_db \<Rightarrow> (store_error + intJobStat \<times> lb_db) res" where
  "process_events junk [] js db = Inr (Inr (js, db))"
| "process_events junk (e # es) js db =
     rbind (processEvent junk False e js) (\<lambda>(r, js1).
     if r = RET_FAIL \<or> r = RET_INTERNAL then Inr (Inl S_SERVER_RESPONSE)
     else process_events junk es js1 (count_event e js1 db))"

definition later :: "timeval \<Rightarrow> timeval \<Rightarrow> timeval" where
  "later ts maxts =
     (if tv_sec maxts = 0 \<and> tv_usec maxts = 0 \<or> tv_sec ts > tv_sec maxts \<or> tv_sec ts = tv_sec maxts \<and> tv_usec ts > tv_usec maxts
      then ts else maxts)"

definition undefined_as_unknown :: "edg_wll_Event list \<Rightarrow> intJobStat \<Rightarrow> intJobStat" where
  "undefined_as_unknown evs js =
     (if state js = EDG_WLL_JOB_UNDEF then
        js\<lparr>state := EDG_WLL_JOB_UNKNOWN,
           lastUpdateTime := (if evs \<noteq> [] then fold (\<lambda>e. later (any_timestamp e)) evs null_timeval
                              else (lastUpdateTime js)\<lparr>tv_sec := 1\<rparr>)\<rparr>
      else js)"

text \<open>The status before the events are processed, and the events.\<close>

definition start_status ::
  "junk \<Rightarrow> server_ctx \<Rightarrow> lb_db \<Rightarrow> glite_jobid \<Rightarrow> intJobStat \<Rightarrow> (store_error + intJobStat \<times> edg_wll_Event list) res" where
  "start_status junk sx db job js =
     rbind (job_events junk sx db job None) (\<lambda>(err, evs).
     case err of
       None \<Rightarrow> Inr (Inr (js, evs))
     | Some er \<Rightarrow>
         if er = Q_ENOENT \<or> er = Q_EIDRM then
           rbind (edg_wll_RestoreSubjobState junk sx db job js) (\<lambda>(rerr, js1).
           if rerr \<noteq> None \<and> rerr \<noteq> Some S_ENOENT then Inr (Inl (the rerr)) else Inr (Inr (js1, [])))
         else Inr (Inl (S_QUERY er)))"

text \<open>The end of the computation: the status is stored, unless the job is not registered yet.\<close>

definition store_computed ::
  "server_ctx \<Rightarrow> glite_jobid \<Rightarrow> bool \<Rightarrow> bool \<Rightarrow> edg_wll_Event list \<Rightarrow> intJobStat \<Rightarrow> lb_db \<Rightarrow> (store_error + intJobStat \<times> lb_db) res" where
  "store_computed sx job update_db add_fqans evs js1 db =
     (let js2 = (undefined_as_unknown evs js1)\<lparr>jobId := Some job\<rparr>;
          grey = (case d_jobs db (jid_id job) of None \<Rightarrow> True | Some r \<Rightarrow> jr_grey r);
          tsq = int (length evs) - 1;
          js3 = (if add_fqans \<and> tsq = 0 \<and> sx_fqans sx \<noteq> None then js2\<lparr>user_fqans := sx_fqans sx\<rparr> else js2) in
      if update_db \<and> \<not> grey then rbind (edg_wll_StoreIntState js3 tsq db) (\<lambda>db2. Inr (Inr (js3, db2)))
      else Inr (Inr (js2, db)))"

definition edg_wll_intJobStatus ::
  "junk \<Rightarrow> server_ctx \<Rightarrow> glite_jobid \<Rightarrow> bool \<Rightarrow> bool \<Rightarrow> lb_db \<Rightarrow> (store_error + intJobStat \<times> lb_db) res" where
  "edg_wll_intJobStatus junk sx job update_db add_fqans db =
     (case job_owner db (jid_id job) of
        None \<Rightarrow> Inr (Inl S_ENOENT)
      | Some own \<Rightarrow>
          ebind (start_status junk sx db job (init_intJobStat\<lparr>owner := Some own\<rparr>)) (\<lambda>(js0, evs).
          ebind (process_events junk evs js0 db) (\<lambda>(js1, db1).
          store_computed sx job update_db add_fqans evs js1 db1)))"

section \<open>Collections\<close>

datatype subjobClassCodes = SUBJOB_CLASS_RUNNING | SUBJOB_CLASS_DONE | SUBJOB_CLASS_ABORTED | SUBJOB_CLASS_CLEARED | SUBJOB_CLASS_REST

definition subjob_class :: "'a edg_wll_JobStat_scheme \<Rightarrow> subjobClassCodes" where
  "subjob_class stat =
     (if state stat = EDG_WLL_JOB_RUNNING then SUBJOB_CLASS_RUNNING
      else if state stat = EDG_WLL_JOB_DONE then
        if done_code stat = EDG_WLL_STAT_OK then SUBJOB_CLASS_DONE else SUBJOB_CLASS_REST
      else if state stat = EDG_WLL_JOB_CANCELLED then SUBJOB_CLASS_CLEARED
      else if state stat = EDG_WLL_JOB_ABORTED then SUBJOB_CLASS_ABORTED
      else if state stat = EDG_WLL_JOB_CLEARED then SUBJOB_CLASS_CLEARED
      else SUBJOB_CLASS_REST)"

fun class_to_statCode :: "subjobClassCodes \<Rightarrow> int" where
  "class_to_statCode SUBJOB_CLASS_RUNNING = EDG_WLL_JOB_RUNNING"
| "class_to_statCode SUBJOB_CLASS_DONE = EDG_WLL_JOB_DONE"
| "class_to_statCode SUBJOB_CLASS_ABORTED = EDG_WLL_JOB_ABORTED"
| "class_to_statCode SUBJOB_CLASS_CLEARED = EDG_WLL_JOB_CLEARED"
| "class_to_statCode SUBJOB_CLASS_REST = EDG_WLL_JOB_UNKNOWN"

definition class_count :: "intJobStat \<Rightarrow> subjobClassCodes \<Rightarrow> int res" where
  "class_count pis c = array_at (children_hist pis) (class_to_statCode c + 1)"

definition process_Histogram :: "intJobStat \<Rightarrow> int res" where
  "process_Histogram pis =
     rbind (class_count pis SUBJOB_CLASS_RUNNING) (\<lambda>running.
     if running > 0 then Inr EDG_WLL_JOB_RUNNING
     else
       rbind (class_count pis SUBJOB_CLASS_CLEARED) (\<lambda>cleared.
       if cleared = children_num pis then Inr EDG_WLL_JOB_CLEARED
       else
         rbind (class_count pis SUBJOB_CLASS_DONE) (\<lambda>dn.
         if dn + cleared = children_num pis then Inr EDG_WLL_JOB_DONE
         else
           rbind (class_count pis SUBJOB_CLASS_ABORTED) (\<lambda>aborted.
           if aborted + dn + cleared = children_num pis then Inr EDG_WLL_JOB_ABORTED
           else Inr EDG_WLL_JOB_WAITING))))"

definition process_FT_Histogram :: "intJobStat \<Rightarrow> int res" where
  "process_FT_Histogram pis =
     rbind (class_count pis SUBJOB_CLASS_RUNNING) (\<lambda>running.
     if running > 0 then Inr EDG_WLL_JOB_RUNNING
     else
       rbind (class_count pis SUBJOB_CLASS_DONE) (\<lambda>dn.
       if dn = children_num pis then Inr EDG_WLL_JOB_DONE
       else
         rbind (class_count pis SUBJOB_CLASS_ABORTED) (\<lambda>aborted.
         if dn + aborted = children_num pis then Inr EDG_WLL_JOB_ABORTED
         else Inr EDG_WLL_JOB_WAITING)))"

definition count_class :: "subjobClassCodes \<Rightarrow> int \<Rightarrow> intJobStat \<Rightarrow> intJobStat res" where
  "count_class c d pis =
     rbind (class_count pis c) (\<lambda>n.
     rbind (arr_store (children_hist pis) (class_to_statCode c + 1) (n + d)) (\<lambda>h.
     Inr (pis\<lparr>children_hist := h\<rparr>)))"

definition hist_to_string :: "int list option \<Rightarrow> string res" where
  "hist_to_string h =
     rbind (array_at h 0) (\<lambda>n.
     if n \<noteq> EDG_WLL_NUMBER_OF_STATCODES then Inl Assert_fail
     else
       rbind (array_at h 12) (\<lambda>_.
       rbind (deref h) (\<lambda>xs.
       Inr (sql_text (edg_wll_StatToString 1) @ ''='' @ show_int (xs ! 2) @
            concat (map (\<lambda>i. '', '' @ sql_text (edg_wll_StatToString (int i)) @ ''='' @ show_int (xs ! (i + 1))) [2..<12])))))"

text \<open>The code of the event that is logged for a collection: the last one of the collection, increased by the server.\<close>

definition collection_seqcode :: "server_ctx \<Rightarrow> cstr \<Rightarrow> edg_wll_Context \<Rightarrow> (cstr \<times> edg_wll_Context) res" where
  "collection_seqcode sx lst c =
     (case edg_wll_SetSequenceCode (tv_sec (sx_now sx)) c lst EDG_WLL_SEQ_NORMAL of
        (None, c1) \<Rightarrow> edg_wll_GetSequenceCode (snd (edg_wll_IncSequenceCode (c1\<lparr>p_source := int (source_index SOURCE_LB_SERVER)\<rparr>)))
      | (Some _, c1) \<Rightarrow> edg_wll_GetSequenceCode c1)"

definition collectionState_event :: "server_ctx \<Rightarrow> int \<Rightarrow> int \<Rightarrow> intJobStat \<Rightarrow> intJobStat \<Rightarrow> edg_wll_Event \<Rightarrow> string \<Rightarrow> string \<Rightarrow> edg_wll_Event" where
  "collectionState_event sx st dc cis pis ce seqcode hist =
     \<lparr>any_timestamp = sx_now sx, any_arrived = null_timeval, any_host = sx_host sx, any_level = sx_level sx,
      any_priority = LOGFLAG_INTERNAL, any_jobId = jobId pis, any_seqcode = seqcode,
      any_user = Some (case sx_identity sx of None \<Rightarrow> ''LBProxy'' | Some i \<Rightarrow> i), any_source = SOURCE_LB_SERVER,
      any_src_instance = None,
      ev_body = EvGlite (EvCollectionState (sql_text (edg_wll_StatToString st)) dc (Some hist) (jobId cis)
                  (sx_event_name sx (event_code (ev_body ce))))\<rparr>"

text \<open>Moving on the status of a collection with such an event (\<^verbatim>\<open>edg_wll_StepIntStateParent\<close>).\<close>

definition edg_wll_StepIntStateParent ::
  "junk \<Rightarrow> edg_wll_Event \<Rightarrow> int \<Rightarrow> intJobStat \<Rightarrow> lb_db \<Rightarrow> (store_error + edg_wll_JobStat \<times> edg_wll_JobStat \<times> lb_db) res" where
  "edg_wll_StepIntStateParent junk e seq ijs db =
     rbind (processEvent junk False e ijs) (\<lambda>(r, js).
     if r = RET_FAIL \<or> r = RET_INTERNAL then Inr (Inl S_EINVAL)
     else
       rbind (edg_wll_StoreIntState js seq db) (\<lambda>db1.
       Inr (Inr (intJobStat_to_JobStat ijs, intJobStat_to_JobStat js,
         count_up (Some STATS_JOB_EVENTS)
           (db1\<lparr>d_changes := d_changes db1 @ [(Some (intJobStat_to_JobStat ijs), intJobStat_to_JobStat js)]\<rparr>)))))"

text \<open>Storing the event and moving on the collection (\<^verbatim>\<open>db_parent_store\<close> of \<^verbatim>\<open>db_store.c\<close>). A proxy does not notify here.\<close>

definition db_parent_store :: "junk \<Rightarrow> server_ctx \<Rightarrow> edg_wll_Event \<Rightarrow> intJobStat \<Rightarrow> lb_db \<Rightarrow> (store_error + lb_db) res" where
  "db_parent_store junk sx ev is db =
     rbind (deref (any_user ev)) (\<lambda>_.
     ebind (edg_wll_StoreEvent sx ev None db) (\<lambda>(seq, e, db1).
     ebind (edg_wll_StepIntStateParent junk e seq is db1) (\<lambda>(old, new, db2).
     Inr (Inr (if \<not> isProxy (sx_query sx) \<and> state new \<noteq> EDG_WLL_JOB_UNDEF
               then db2\<lparr>d_notified := d_notified db2 @ [(Some old, new)]\<rparr> else db2)))))"

definition log_collectionState_event ::
  "junk \<Rightarrow> server_ctx \<Rightarrow> int \<Rightarrow> int \<Rightarrow> intJobStat \<Rightarrow> intJobStat \<Rightarrow> edg_wll_Event \<Rightarrow> lb_db \<Rightarrow> (store_error + lb_db) res" where
  "log_collectionState_event junk sx st dc cis pis ce db =
     rbind (collection_seqcode sx (intJobStat_getLastSeqcode pis) (d_seq db)) (\<lambda>(code, c).
     rbind (hist_to_string (children_hist pis)) (\<lambda>hist.
     rbind (deref code) (\<lambda>seqcode.
     db_parent_store junk sx (collectionState_event sx st dc cis pis ce seqcode hist) pis (db\<lparr>d_seq := c\<rparr>))))"

definition update_parent_status ::
  "junk \<Rightarrow> server_ctx \<Rightarrow> edg_wll_JobStat \<Rightarrow> intJobStat \<Rightarrow> edg_wll_Event \<Rightarrow> lb_db \<Rightarrow> (store_error + lb_db) res" where
  "update_parent_status junk sx old cis ce db =
     (let c = subjob_class cis; c_old = subjob_class old in
      if c_old = c then Inr (Inr db)
      else
        ebind (edg_wll_LoadIntState (parent_job cis) (- 1) db) (\<lambda>pis0.
        rbind (count_class c 1 pis0) (\<lambda>pis1.
        rbind (count_class c_old (- 1) pis1) (\<lambda>pis.
        rbind (edg_wll_StoreSubjobHistogram (parent_job cis) pis db) (\<lambda>db1.
        if jobtype pis = EDG_WLL_STAT_COLLECTION \<or> jobtype pis = EDG_WLL_STAT_FILE_TRANSFER_COLLECTION then
          rbind (if jobtype pis = EDG_WLL_STAT_COLLECTION then process_Histogram pis else process_FT_Histogram pis) (\<lambda>new.
          if state pis \<noteq> new then log_collectionState_event junk sx new EDG_WLL_STAT_OK cis pis ce db1 else Inr (Inr db1))
        else Inr (Inr db1))))))"

section \<open>One step\<close>

text \<open>
  The status before and after an event, and the tables. The status before is not known where the
  new one is computed from all events.
\<close>

definition edg_wll_StepIntState ::
  "junk \<Rightarrow> server_ctx \<Rightarrow> glite_jobid \<Rightarrow> edg_wll_Event \<Rightarrow> int \<Rightarrow> lb_db \<Rightarrow>
   (store_error + edg_wll_JobStat option \<times> edg_wll_JobStat \<times> lb_db) res" where
  "edg_wll_StepIntState junk sx job e seq db =
     rbind (edg_wll_LoadIntState (Some job) (seq - 1) db) (\<lambda>stored.
     case stored of
       Inr ijs \<Rightarrow>
         rbind (processEvent junk False e ijs) (\<lambda>(r, js).
         if r = RET_FAIL \<or> r = RET_INTERNAL then Inr (Inl S_EINVAL)
         else
           rbind (edg_wll_StoreIntState js seq db) (\<lambda>db1.
           let old = intJobStat_to_JobStat ijs; new = intJobStat_to_JobStat js;
               db2 = count_up (Some STATS_JOB_EVENTS) (db1\<lparr>d_changes := d_changes db1 @ [(Some old, new)]\<rparr>) in
           if parent_job js \<noteq> None \<and> state old \<noteq> state js then
             rbind (update_parent_status junk sx old js e db2) (\<lambda>up.
             case up of Inl _ \<Rightarrow> Inr (Inl S_EINVAL) | Inr db3 \<Rightarrow> Inr (Inr (Some old, new, db3)))
           else Inr (Inr (Some old, new, db2))))
     | Inl _ \<Rightarrow>
         ebind (edg_wll_intJobStatus junk sx job True True db) (\<lambda>(js, db1).
         let new = intJobStat_to_JobStat js in
         Inr (Inr (None, new, db1\<lparr>d_changes := d_changes db1 @ [(None, new)]\<rparr>))))"

end
