(* ===== verification/LB_JobStatProps.thy ===== *)
theory LB_JobStatProps
  imports LB_JobStat "HOL-Library.Multiset"
begin

text \<open>
  What the status of a job in the tables means: it is the status that the state machine reaches over the stored
  events, and the histogram of a collection counts its subjobs. Both have exceptions, which are shown too.
\<close>

section \<open>The stored status follows the events\<close>

text \<open>A status that can be stored and read again.\<close>

definition keepable :: "intJobStat \<Rightarrow> bool" where
  "keepable js \<longleftrightarrow> storable js \<and> (case enc_intJobStat [] js of Inl _ \<Rightarrow> False | Inr t \<Rightarrow> in_long (int (length t)))"

lemma keepable_text:
  assumes "keepable js"
  obtains t where "enc_intJobStat [] js = Inr t" and "dec_intJobStat t = Inr (Some (stored js), Some [])"
proof -
  obtain t where t: "enc_intJobStat [] js = Inr t" "in_long (int (length t))" and ok: "storable js"
    using assms by (auto simp: keepable_def split: sum.splits)
  from enc_intJobStat_undone[OF ok t] obtain t' where "t = [] @ t'" and "\<forall>rest. dec_intJobStat (t' @ rest) = Inr (Some (stored js), Some rest)"
    by blast
  then have "dec_intJobStat t = Inr (Some (stored js), Some [])" by (metis append_Nil append_Nil2)
  with t(1) show thesis by (rule that)
qed

lemma map_of_filter_keep: "map_of xs k = Some v \<Longrightarrow> P (k, v) \<Longrightarrow> map_of (filter P xs) k = Some v"
  by (induction xs) auto

lemma map_of_filter_other: "(\<And>v. P (k, v)) \<Longrightarrow> map_of (filter P xs) k = map_of xs k"
  by (induction xs) auto

text \<open>Storing a status changes the row of its job only, and can be undone.\<close>

lemma store_load:
  assumes "keepable js" and "jobId js = Some job" and "q = seq \<or> q = - 1"
  obtains db' where "edg_wll_StoreIntState js seq db = Inr db'" and "edg_wll_LoadIntState (Some job) q db' = Inr (Inr (stored js))"
    and "\<And>u. u \<noteq> jid_id job \<Longrightarrow> map_of (d_states db') u = map_of (d_states db) u"
proof -
  obtain t where t: "enc_intJobStat [] js = Inr t" "dec_intJobStat t = Inr (Some (stored js), Some [])"
    using assms(1) by (rule keepable_text)
  let ?row = "\<lparr>sr_status = state js, sr_seq = seq, sr_text = t, sr_version = INTSTAT_VERSION, sr_parent = parent_text (parent_job js)\<rparr>"
  let ?P = "\<lambda>(k, r). \<not> (k = jid_id job \<and> (sr_seq r < seq \<or> sr_version r \<noteq> INTSTAT_VERSION))"
  let ?st = "AList.update (jid_id job) ?row (d_states db)"
  let ?db = "db\<lparr>d_tags := state_tags (jid_id job) seq js (d_tags db), d_states := if seq > 0 then filter ?P ?st else ?st\<rparr>"
  have u: "sql_text (glite_jobid_getUnique (Some job)) = jid_id job" by (simp add: sql_text_def glite_jobid_getUnique_def)
  have "edg_wll_StoreIntState js seq db = Inr ?db"
    using t(1) assms(2) by (simp add: edg_wll_StoreIntState_def Let_def u)
  moreover have "map_of (d_states ?db) (jid_id job) = Some ?row"
    by (auto simp: update_conv' intro: map_of_filter_keep)
  then have "edg_wll_LoadIntState (Some job) q ?db = Inr (Inr (stored js))"
    using t(2) assms(3) by (auto simp: edg_wll_LoadIntState_def u)
  moreover have "map_of (d_states ?db) k = map_of (d_states db) k" if "k \<noteq> jid_id job" for k
    using that by (simp add: map_of_filter_other update_conv')
  ultimately show thesis by (rule that)
qed

text \<open>
  The status after events, where the status is stored and read again between them; \<open>junk\<close> is what comparisons read from
  uninitialised memory.
\<close>

inductive follows :: "junk \<Rightarrow> glite_jobid \<Rightarrow> intJobStat \<Rightarrow> edg_wll_Event list \<Rightarrow> intJobStat \<Rightarrow> bool" for junk job where
  follows_Nil: "follows junk job js [] js"
| follows_Cons: "processEvent junk False e js = Inr (r, js1) \<Longrightarrow> r \<noteq> RET_FAIL \<Longrightarrow> r \<noteq> RET_INTERNAL \<Longrightarrow> keepable js1 \<Longrightarrow>
    jobId js1 = Some job \<Longrightarrow> parent_job js1 = None \<Longrightarrow> follows junk job (stored js1) es js2 \<Longrightarrow> follows junk job js (e # es) js2"

primrec step_all :: "junk \<Rightarrow> server_ctx \<Rightarrow> glite_jobid \<Rightarrow> edg_wll_Event list \<Rightarrow> int \<Rightarrow> lb_db \<Rightarrow> (store_error + lb_db) res" where
  "step_all junk sx job [] seq db = Inr (Inr db)"
| "step_all junk sx job (e # es) seq db =
     ebind (edg_wll_StepIntState junk sx job e seq db) (\<lambda>(_, _, db1). step_all junk sx job es (seq + 1) db1)"

lemma load_states: "d_states a = d_states b \<Longrightarrow> edg_wll_LoadIntState job q a = edg_wll_LoadIntState job q b"
  by (simp add: edg_wll_LoadIntState_def)

lemma count_up_states [simp]: "d_states (count_up c db) = d_states db"
  by (simp add: count_up_def split: option.split)

lemma step_kept:
  assumes "edg_wll_LoadIntState (Some job) (seq - 1) db = Inr (Inr ijs)" and "processEvent junk False e ijs = Inr (r, js)"
    and "r \<noteq> RET_FAIL" and "r \<noteq> RET_INTERNAL" and "keepable js" and "jobId js = Some job" and "parent_job js = None \<or> state ijs = state js"
  obtains db' where "edg_wll_StepIntState junk sx job e seq db = Inr (Inr (Some (intJobStat_to_JobStat ijs), intJobStat_to_JobStat js, db'))"
    and "edg_wll_LoadIntState (Some job) seq db' = Inr (Inr (stored js))"
    and "\<And>u. u \<noteq> jid_id job \<Longrightarrow> map_of (d_states db') u = map_of (d_states db) u"
proof -
  obtain db1 where st: "edg_wll_StoreIntState js seq db = Inr db1" and ld: "edg_wll_LoadIntState (Some job) seq db1 = Inr (Inr (stored js))"
    and ot: "\<And>u. u \<noteq> jid_id job \<Longrightarrow> map_of (d_states db1) u = map_of (d_states db) u"
    using store_load[OF assms(5,6), of seq seq db] by blast
  let ?db = "count_up (Some STATS_JOB_EVENTS)
    (db1\<lparr>d_changes := d_changes db1 @ [(Some (intJobStat_to_JobStat ijs), intJobStat_to_JobStat js)]\<rparr>)"
  have "state (intJobStat_to_JobStat ijs) = state ijs" by (simp add: intJobStat_to_JobStat_def edg_wll_JobStat.defs)
  then have "edg_wll_StepIntState junk sx job e seq db = Inr (Inr (Some (intJobStat_to_JobStat ijs), intJobStat_to_JobStat js, ?db))"
    using assms st by (auto simp: edg_wll_StepIntState_def Let_def)
  moreover have "edg_wll_LoadIntState (Some job) seq ?db = Inr (Inr (stored js))"
    using ld load_states[of ?db db1] by simp
  moreover have "map_of (d_states ?db) u = map_of (d_states db) u" if "u \<noteq> jid_id job" for u
    using ot[OF that] by simp
  ultimately show thesis by (rule that)
qed


section \<open>Collections\<close>

text \<open>The histogram counts the classes \<open>cs\<close> of the subjobs.\<close>

definition hist_counts :: "intJobStat \<Rightarrow> subjobClassCodes list \<Rightarrow> bool" where
  "hist_counts pis cs \<longleftrightarrow> (\<forall>c. class_count pis c = Inr (int (count_list cs c)))"

text \<open>The state of a collection in terms of the classes of its subjobs.\<close>

definition subjobs_state :: "subjobClassCodes list \<Rightarrow> int" where
  "subjobs_state cs =
     (if SUBJOB_CLASS_RUNNING \<in> set cs then EDG_WLL_JOB_RUNNING
      else if set cs \<subseteq> {SUBJOB_CLASS_CLEARED} then EDG_WLL_JOB_CLEARED
      else if set cs \<subseteq> {SUBJOB_CLASS_DONE, SUBJOB_CLASS_CLEARED} then EDG_WLL_JOB_DONE
      else if set cs \<subseteq> {SUBJOB_CLASS_ABORTED, SUBJOB_CLASS_DONE, SUBJOB_CLASS_CLEARED} then EDG_WLL_JOB_ABORTED
      else EDG_WLL_JOB_WAITING)"

lemma length_filter_all: "length (filter P xs) = length xs \<longleftrightarrow> (\<forall>x\<in>set xs. P x)"
proof (induction xs)
  case (Cons x xs)
  then show ?case using length_filter_le[of P xs] by (auto simp del: length_filter_le)
qed simp

lemma count_subset:
  assumes "distinct as"
  shows "(\<Sum>a\<leftarrow>as. count_list cs a) = length cs \<longleftrightarrow> set cs \<subseteq> set as" and "(\<Sum>a\<leftarrow>as. count_list cs a) \<le> length cs"
proof -
  have sum: "(\<Sum>a\<leftarrow>as. count_list cs a) = length (filter (\<lambda>c. c \<in> set as) cs)"
    using assms
  proof (induction cs)
    case (Cons c cs)
    have "(\<Sum>a\<leftarrow>as. count_list (c # cs) a) = (\<Sum>a\<leftarrow>as. count_list cs a) + (\<Sum>a\<leftarrow>as. if c = a then 1 else 0)"
      by (simp add: sum_list_addf[symmetric] if_distrib[of "\<lambda>x. _ + x"] cong: if_cong)
    moreover have "(\<Sum>a\<leftarrow>as. if c = a then 1 else 0) = (if c \<in> set as then 1 else 0::nat)"
      using Cons.prems by (induction as) auto
    ultimately show ?case using Cons by simp
  qed simp
  then show "(\<Sum>a\<leftarrow>as. count_list cs a) \<le> length cs" by simp
  show "(\<Sum>a\<leftarrow>as. count_list cs a) = length cs \<longleftrightarrow> set cs \<subseteq> set as"
    by (auto simp: sum length_filter_all)
qed

lemma histogram_state:
  assumes "hist_counts pis cs" and "children_num pis = int (length cs)"
  shows "process_Histogram pis = Inr (subjobs_state cs)"
proof -
  note c1 = count_subset(1)[of "[SUBJOB_CLASS_CLEARED]" cs]
  note c2 = count_subset(1)[of "[SUBJOB_CLASS_DONE, SUBJOB_CLASS_CLEARED]" cs]
  note c3 = count_subset(1)[of "[SUBJOB_CLASS_ABORTED, SUBJOB_CLASS_DONE, SUBJOB_CLASS_CLEARED]" cs]
  have "(0 < count_list cs SUBJOB_CLASS_RUNNING) = (SUBJOB_CLASS_RUNNING \<in> set cs)"
    by (metis count_list_0_iff gr0I less_irrefl)
  with c1 c2 c3 show ?thesis
    using assms by (auto simp: process_Histogram_def hist_counts_def subjobs_state_def)
qed

lemma count_list_update:
  "i < length cs \<Longrightarrow> int (count_list (cs[i := c]) a) =
     int (count_list cs a) + (if c = a then 1 else 0) - (if cs ! i = a then 1 else 0)"
proof (induction cs arbitrary: i)
  case (Cons x cs)
  show ?case
  proof (cases i)
    case (Suc j)
    with Cons.IH[of j] Cons.prems show ?thesis by (auto split: if_splits)
  qed simp
qed simp

lemma class_index: "0 \<le> class_to_statCode c + 1" "(class_to_statCode c + 1 = class_to_statCode c' + 1) = (c = c')"
  "class_to_statCode c + 1 < 12"
  by (cases c; cases c'; simp)+

lemma class_count_Inr: "class_count pis c = Inr n \<longleftrightarrow>
    (\<exists>xs. children_hist pis = Some xs \<and> class_to_statCode c + 1 < int (length xs) \<and> n = xs ! nat (class_to_statCode c + 1))"
  using class_index(1)[of c] by (auto simp: class_count_def array_at_def deref_def res_simps split: option.splits if_splits)

definition moved :: "subjobClassCodes \<Rightarrow> subjobClassCodes \<Rightarrow> intJobStat \<Rightarrow> intJobStat" where
  "moved c_old c pis =
     (let k = nat (class_to_statCode c + 1); k_old = nat (class_to_statCode c_old + 1) in
      pis\<lparr>children_hist := map_option (\<lambda>xs. xs[k := xs ! k + 1, k_old := xs ! k_old - 1]) (children_hist pis)\<rparr>)"

lemma move_counts:
  assumes "hist_counts pis cs" and "i < length cs" and "c \<noteq> cs ! i"
  shows "rbind (count_class c 1 pis) (count_class (cs ! i) (- 1)) = Inr (moved (cs ! i) c pis)"
    and "hist_counts (moved (cs ! i) c pis) (cs[i := c])"
proof -
  obtain xs where xs: "children_hist pis = Some xs" using assms(1) by (auto simp: hist_counts_def class_count_Inr)
  have in_hist: "class_to_statCode a + 1 < int (length xs) \<and> xs ! nat (class_to_statCode a + 1) = int (count_list cs a)" for a
    using assms(1) xs by (auto simp: hist_counts_def class_count_Inr)
  have ne: "nat (class_to_statCode a + 1) = nat (class_to_statCode b + 1) \<longleftrightarrow> a = b" for a b
    using class_index(1)[of a] class_index(1)[of b] class_index(2)[of a b] by (simp add: eq_nat_nat_iff)
  show "rbind (count_class c 1 pis) (count_class (cs ! i) (- 1)) = Inr (moved (cs ! i) c pis)"
    using in_hist[of c] in_hist[of "cs ! i"] class_index(1)[of c] class_index(1)[of "cs ! i"] assms(3)
    by (simp add: count_class_def class_count_def array_at_def arr_store_def deref_def xs moved_def Let_def ne)
  show "hist_counts (moved (cs ! i) c pis) (cs[i := c])"
    unfolding hist_counts_def
  proof
    fix a
    let ?k = "\<lambda>a. nat (class_to_statCode a + 1)"
    have "?k b < length xs" for b using in_hist[of b] class_index(1)[of b] by (simp add: nat_less_iff)
    then have "xs[?k c := xs ! ?k c + 1, ?k (cs ! i) := xs ! ?k (cs ! i) - 1] ! ?k a = int (count_list (cs[i := c]) a)"
      using in_hist[of a] assms(3) by (auto simp: nth_list_update ne count_list_update[OF assms(2)])
    then show "class_count (moved (cs ! i) c pis) a = Inr (int (count_list (cs[i := c]) a))"
      using in_hist[of a] by (simp add: class_count_Inr moved_def Let_def xs)
  qed
qed

lemma hist_counts_stored: "hist_counts pis cs \<Longrightarrow> hist_counts (stored pis) cs"
  unfolding hist_counts_def
proof
  fix c
  assume "\<forall>c. class_count pis c = Inr (int (count_list cs c))"
  then obtain xs where "children_hist pis = Some xs" and "class_to_statCode c + 1 < int (length xs)"
    and "xs ! nat (class_to_statCode c + 1) = int (count_list cs c)"
    by (metis class_count_Inr)
  then show "class_count (stored pis) c = Inr (int (count_list cs c))"
    using class_index(1,3)[of c]
    by (simp add: class_count_Inr stored_def stored_pub_def norm_hist_def nth_append nat_less_iff)
qed

lemma store_histogram:
  assumes "edg_wll_LoadIntState (Some job) (- 1) db = Inr (Inr pis0)" and "keepable pis"
  obtains db' where "edg_wll_StoreSubjobHistogram (Some job) pis db = Inr db'" and "edg_wll_LoadIntState (Some job) (- 1) db' = Inr (Inr (stored pis))"
    and "\<And>u. u \<noteq> jid_id job \<Longrightarrow> map_of (d_states db') u = map_of (d_states db) u"
proof -
  obtain t where t: "enc_intJobStat [] pis = Inr t" "dec_intJobStat t = Inr (Some (stored pis), Some [])"
    using assms(2) by (rule keepable_text)
  have u: "sql_text (glite_jobid_getUnique (Some job)) = jid_id job" by (simp add: sql_text_def glite_jobid_getUnique_def)
  obtain r where r: "map_of (d_states db) (jid_id job) = Some r" "sr_version r = INTSTAT_VERSION"
    using assms(1) by (auto simp: edg_wll_LoadIntState_def u split: option.splits if_splits)
  let ?db = "db\<lparr>d_states := AList.update (jid_id job) (r\<lparr>sr_status := state pis, sr_text := t, sr_version := INTSTAT_VERSION\<rparr>) (d_states db)\<rparr>"
  have "edg_wll_StoreSubjobHistogram (Some job) pis db = Inr ?db"
    using t(1) r by (simp add: edg_wll_StoreSubjobHistogram_def Let_def u)
  moreover have "edg_wll_LoadIntState (Some job) (- 1) ?db = Inr (Inr (stored pis))"
    using t(2) by (simp add: edg_wll_LoadIntState_def u update_conv')
  moreover have "map_of (d_states ?db) k = map_of (d_states db) k" if "k \<noteq> jid_id job" for k
    using that by (simp add: update_conv')
  ultimately show thesis by (rule that)
qed


lemma process_events_states: "process_events junk es js db = Inr (Inr (js', db')) \<Longrightarrow> d_states db' = d_states db"
  by (induction es arbitrary: js db) (auto simp: res_simps count_event_def split: if_splits prod.splits)

text \<open>Computing a status anew changes the row of its job only.\<close>

lemma intJobStatus_states:
  assumes "edg_wll_intJobStatus junk sx job upd fq db = Inr (Inr (js, db'))" and "u \<noteq> jid_id job"
  shows "map_of (d_states db') u = map_of (d_states db) u"
proof -
  obtain js0 evs js1 db1 where pe: "process_events junk evs js0 db = Inr (Inr (js1, db1))"
    and st: "store_computed sx job upd fq evs js1 db1 = Inr (Inr (js, db'))"
    using assms(1) by (auto simp: edg_wll_intJobStatus_def ebind_eq_Inr split: option.splits)
  from st assms(2) have "map_of (d_states db') u = map_of (d_states db1) u"
    by (auto simp: store_computed_def edg_wll_StoreIntState_def Let_def res_simps glite_jobid_getUnique_def sql_text_def update_conv'
        map_of_filter_other split: if_splits)
  with process_events_states[OF pe] show ?thesis by simp
qed

text \<open>
  A subjob whose status is computed anew, because the stored one is not that of the event before, is not counted: the rows of other jobs,
  and so the histogram of its collection, stay as they are, whatever state the subjob has got into.
\<close>

theorem recomputed_subjob_not_counted:
  assumes "edg_wll_LoadIntState (Some job) (seq - 1) db = Inr (Inl er)" and "edg_wll_StepIntState junk sx job e seq db = Inr (Inr (old, new, db'))"
    and "u \<noteq> jid_id job"
  shows "old = None \<and> map_of (d_states db') u = map_of (d_states db) u"
  using assms intJobStatus_states[OF _ assms(3)]
  by (auto simp: edg_wll_StepIntState_def Let_def res_simps)

lemma hist_counts_unique: "hist_counts pis cs \<Longrightarrow> hist_counts pis cs' \<Longrightarrow> count_list cs c = count_list cs' c"
  by (simp add: hist_counts_def)

text \<open>
  C28. A change of class without a change of state is not counted. If an event changes how a subjob counts (a job that is done, failed
  first and successful later) but not its state, then the histogram of its collection is not
  touched, and is wrong from then on.
\<close>

theorem class_change_missed:
  assumes "edg_wll_LoadIntState (Some job) (seq - 1) db = Inr (Inr ijs)" and "processEvent junk False e ijs = Inr (r, js)"
    and "r \<noteq> RET_FAIL" and "r \<noteq> RET_INTERNAL" and "keepable js" and "jobId js = Some job" and "state js = state ijs"
    and "edg_wll_LoadIntState (Some parent) (- 1) db = Inr (Inr pis)" and "jid_id parent \<noteq> jid_id job" and "hist_counts pis cs"
    and "i < length cs" and "cs ! i = subjob_class ijs" and "subjob_class js \<noteq> subjob_class ijs"
  shows "\<exists>db'. edg_wll_StepIntState junk sx job e seq db = Inr (Inr (Some (intJobStat_to_JobStat ijs), intJobStat_to_JobStat js, db')) \<and>
    edg_wll_LoadIntState (Some parent) (- 1) db' = Inr (Inr pis) \<and> \<not> hist_counts pis (cs[i := subjob_class js])"
proof -
  obtain db' where st: "edg_wll_StepIntState junk sx job e seq db = Inr (Inr (Some (intJobStat_to_JobStat ijs), intJobStat_to_JobStat js, db'))"
    and ot: "\<And>u. u \<noteq> jid_id job \<Longrightarrow> map_of (d_states db') u = map_of (d_states db) u"
    using step_kept[OF assms(1-6)] assms(7) by metis
  have "edg_wll_LoadIntState (Some parent) (- 1) db' = Inr (Inr pis)"
    using assms(8) ot[OF assms(9)] by (simp add: edg_wll_LoadIntState_def glite_jobid_getUnique_def sql_text_def)
  moreover have "\<not> hist_counts pis (cs[i := subjob_class js])"
    using hist_counts_unique[OF assms(10), of "cs[i := subjob_class js]" "subjob_class js"]
      count_list_update[OF assms(11), of "subjob_class js" "subjob_class js"] assms(12,13) by auto
  ultimately show ?thesis using st by blast
qed

section \<open>Examples\<close>

definition ex_sub :: intJobStat where
  "ex_sub = init_intJobStat\<lparr>jobId := Some (ex_job_id ''mine''), parent_job := Some (ex_job_id ''all''), owner := Some ''/CN=user'',
     jobtype := EDG_WLL_STAT_SIMPLE, state := EDG_WLL_JOB_DONE, done_code := EDG_WLL_STAT_FAILED\<rparr>"

definition ex_all :: intJobStat where
  "ex_all = init_intJobStat\<lparr>jobId := Some (ex_job_id ''all''), owner := Some ''/CN=user'', jobtype := EDG_WLL_STAT_COLLECTION,
     state := EDG_WLL_JOB_WAITING, children_num := 2, children_hist := Some [12, 0, 0, 0, 0, 0, 0, 0, 0, 0, 0, 2, 0]\<rparr>"

definition ex_done :: edg_wll_Event where
  "ex_done = (ex_event_of ''mine'')\<lparr>any_seqcode := example_code1, any_source := SOURCE_LOG_MONITOR, ev_body := EvGlite (EvDone EDG_WLL_DONE_OK None 0)\<rparr>"

definition ex_after :: intJobStat where
  "ex_after = (case processEvent (\<lambda>_ _. (0, 0)) False ex_done (stored ex_sub) of Inr (_, js) \<Rightarrow> js | _ \<Rightarrow> ex_sub)"

definition short_text :: "intJobStat \<Rightarrow> bool" where
  "short_text js \<longleftrightarrow> storable js \<and> (case enc_intJobStat [] js of Inl _ \<Rightarrow> False | Inr t \<Rightarrow> length t < 1000)"

lemma keepableI: "short_text js \<Longrightarrow> keepable js"
  by (auto simp: short_text_def keepable_def in_long_def split: sum.splits)

lemma ex_keepable: "keepable ex_sub" "keepable ex_all" "keepable ex_after"
  by (rule keepableI; code_simp)+

lemma ex_after_facts: "case processEvent (\<lambda>_ _. (0, 0)) False ex_done (stored ex_sub) of
    Inr (r, js) \<Rightarrow> r \<noteq> RET_FAIL \<and> r \<noteq> RET_INTERNAL \<and> jobId js = Some (ex_job_id ''mine'') \<and> state js = state ex_sub \<and>
      subjob_class js = SUBJOB_CLASS_DONE \<and> subjob_class ex_sub = SUBJOB_CLASS_REST
  | _ \<Rightarrow> False"
  by code_simp

lemma ex_all_counts: "hist_counts (stored ex_all) [SUBJOB_CLASS_REST, SUBJOB_CLASS_REST]"
proof -
  have "class_count (stored ex_all) c = Inr (int (count_list [SUBJOB_CLASS_REST, SUBJOB_CLASS_REST] c))" for c by (cases c; hypsubst; code_simp)
  then show ?thesis by (simp add: hist_counts_def)
qed

text \<open>The tables with the two stored, and with a job of its own.\<close>

definition ex_states :: lb_db where
  "ex_states = (case edg_wll_StoreIntState ex_all 0 ex_db of
     Inr d \<Rightarrow> (case edg_wll_StoreIntState ex_sub 0 d of Inr d2 \<Rightarrow> d2 | _ \<Rightarrow> d) | _ \<Rightarrow> ex_db)"

lemma ex_states_load:
  "edg_wll_LoadIntState (Some (ex_job_id ''mine'')) 0 ex_states = Inr (Inr (stored ex_sub))"
  "edg_wll_LoadIntState (Some (ex_job_id ''all'')) (- 1) ex_states = Inr (Inr (stored ex_all))"
proof -
  obtain d1 where d1: "edg_wll_StoreIntState ex_all 0 ex_db = Inr d1"
      "edg_wll_LoadIntState (Some (ex_job_id ''all'')) (- 1) d1 = Inr (Inr (stored ex_all))"
    using store_load[OF ex_keepable(2), of "ex_job_id ''all''" "- 1" 0 ex_db] by (auto simp: ex_all_def)
  obtain d2 where d2: "edg_wll_StoreIntState ex_sub 0 d1 = Inr d2"
      "edg_wll_LoadIntState (Some (ex_job_id ''mine'')) 0 d2 = Inr (Inr (stored ex_sub))"
      "\<And>u. u \<noteq> jid_id (ex_job_id ''mine'') \<Longrightarrow> map_of (d_states d2) u = map_of (d_states d1) u"
    using store_load[OF ex_keepable(1), of "ex_job_id ''mine''" 0 0 d1] by (auto simp: ex_sub_def)
  have "map_of (d_states d2) ''all'' = map_of (d_states d1) ''all''" using d2(3)[of "''all''"] by (simp add: ex_job_id_def)
  moreover have "ex_states = d2" by (simp add: ex_states_def d1(1) d2(1))
  ultimately show "edg_wll_LoadIntState (Some (ex_job_id ''mine'')) 0 ex_states = Inr (Inr (stored ex_sub))"
    "edg_wll_LoadIntState (Some (ex_job_id ''all'')) (- 1) ex_states = Inr (Inr (stored ex_all))"
    using d1(2) d2(2) by (simp_all add: edg_wll_LoadIntState_def glite_jobid_getUnique_def sql_text_def ex_job_id_def)
qed

theorem class_change_missed_witness:
  "\<exists>db'. edg_wll_StepIntState (\<lambda>_ _. (0, 0)) ex_sx (ex_job_id ''mine'') ex_done 1 ex_states =
      Inr (Inr (Some (intJobStat_to_JobStat (stored ex_sub)), intJobStat_to_JobStat ex_after, db')) \<and>
    edg_wll_LoadIntState (Some (ex_job_id ''all'')) (- 1) db' = Inr (Inr (stored ex_all)) \<and>
    \<not> hist_counts (stored ex_all) [SUBJOB_CLASS_DONE, SUBJOB_CLASS_REST]"
proof -
  obtain r where r: "processEvent (\<lambda>_ _. (0, 0)) False ex_done (stored ex_sub) = Inr (r, ex_after)" "r \<noteq> RET_FAIL" "r \<noteq> RET_INTERNAL"
    and a: "jobId ex_after = Some (ex_job_id ''mine'')" "state ex_after = state ex_sub"
      "subjob_class ex_after = SUBJOB_CLASS_DONE" "subjob_class ex_sub = SUBJOB_CLASS_REST"
    using ex_after_facts by (auto simp: ex_after_def split: sum.splits)
  have "state (stored ex_sub) = state ex_sub" "subjob_class (stored ex_sub) = SUBJOB_CLASS_REST"
    by (simp_all add: stored_def stored_pub_def subjob_class_def ex_sub_def)
  then show ?thesis
    using class_change_missed[OF _ r ex_keepable(3) a(1) _ ex_states_load(2) _ ex_all_counts, of 1 0 ex_sx] ex_states_load(1) a
    by (simp add: ex_job_id_def)
qed


definition ex_single :: intJobStat where
  "ex_single = ex_sub\<lparr>parent_job := None\<rparr>"


end
