(* ===== verification/LB_JobStatus.thy ===== *)
theory LB_JobStatus
  imports LB_JobStatProps
begin

text \<open>
  The request for the status of a job (\<^verbatim>\<open>edg_wll_JobStatusServer\<close> of \<^verbatim>\<open>org.glite.lb.server/src/jobstat.c\<close>): the stored or
  computed status, what the client may see of it, the subjobs of a collection, the history, and jobs that have been
  purged.
\<close>

section \<open>Purged jobs\<close>

text \<open>What a request reads besides the context: the libraries, and the answer of the database to a condition on the purged jobs.\<close>

record status_env =
  sv_select :: "lb_db \<Rightarrow> string \<Rightarrow> int"
  sv_acl_print :: "string \<Rightarrow> cstr"
  sv_ad_ok :: "string \<Rightarrow> bool"
  sv_jdl_attr :: "string \<Rightarrow> string \<Rightarrow> cstr"
  sv_unparse_ad :: "(string \<times> string) list \<Rightarrow> string"
  sv_sha :: "string \<Rightarrow> string \<Rightarrow> string"
  sv_fresh_salt :: "string option"
  sv_salt :: salt_state
  sv_stale :: cstr
  sv_json :: "edg_wll_Event \<Rightarrow> string option"

text \<open>The places in the tables of purged jobs where a job may be: number of the prefix, unique part, number of the suffix.\<close>

definition suffix_places :: "nat \<Rightarrow> string list \<Rightarrow> string \<Rightarrow> (nat \<times> string \<times> nat) list" where
  "suffix_places k sfx uniq =
     concat (map (\<lambda>(l, s).
       let lendiff = int (length uniq) - int (length s) in
       if lendiff > 0 \<and> drop (nat lendiff) uniq = s then [(k, take (nat lendiff) uniq, l)] else [])
       (zip [1..<Suc (length sfx)] sfx))"

definition zombie_places :: "string list \<Rightarrow> string list \<Rightarrow> string \<Rightarrow> (nat \<times> string \<times> nat) list" where
  "zombie_places pfx sfx dbjob =
     concat (map (\<lambda>(k, p).
       let full = ''https://'' @ p in
       if take (length full) dbjob = full then suffix_places k sfx (drop (length full) dbjob)
       else []) (zip [1..<Suc (length pfx)] pfx))"

definition zombie_atom :: "nat \<times> string \<times> nat \<Rightarrow> string" where
  "zombie_atom z = (case z of (k, ss, l) \<Rightarrow>
     ''((prefix_id='' @ show_int (int k) @ '') AND (jobid='' @ APO # ss @ APO # '') AND (suffix_id='' @ show_int (int l) @ ''))'')"

text \<open>Without a place there is no condition, and a null pointer is printed.\<close>

definition zomb_where :: "(nat \<times> string \<times> nat) list \<Rightarrow> string" where
  "zomb_where zs = sql_text (joined '' OR '' (map zombie_atom zs))"

definition jobids_asked :: "conditions \<Rightarrow> glite_jobid option list" where
  "jobids_asked conds = map (\<lambda>c. qv_j (q_value c)) (filter (\<lambda>c. q_attr c = ATTR_JOBID) (concat conds))"

definition edg_wll_AreThereZombies :: "status_env \<Rightarrow> lb_db \<Rightarrow> conditions \<Rightarrow> int res" where
  "edg_wll_AreThereZombies env db conds =
     (if d_prefixes db = [] \<or> d_suffixes db = [] then Inr 0
      else if None \<in> set (jobids_asked conds) then Inl Null_deref
      else Inr (sv_select env db (zomb_where (concat (map (\<lambda>j. zombie_places (d_prefixes db) (d_suffixes db) (sql_text (glite_jobid_unparse j)))
             (jobids_asked conds))))))"

definition edg_wll_IsJobZombie :: "status_env \<Rightarrow> lb_db \<Rightarrow> glite_jobid \<Rightarrow> int res" where
  "edg_wll_IsJobZombie env db job = edg_wll_AreThereZombies env db [[jobid_condition job]]"

section \<open>History\<close>

definition HISTORY_HEADER :: string where "HISTORY_HEADER = ''['' @ [CHR 0x0A]"
definition HISTORY_FOOTER :: string where "HISTORY_FOOTER = CHR 0x0A # '']''"
definition HISTORY_SEPARATOR :: string where "HISTORY_SEPARATOR = '','' @ [CHR 0x0A]"

text \<open>A digest of a text. Where there is no salt an uninitialised pointer is returned.\<close>

definition anonymize_string :: "status_env \<Rightarrow> cstr \<Rightarrow> cstr" where
  "anonymize_string env s =
     (case get_salt (sv_fresh_salt env) (sv_salt env) of
        None \<Rightarrow> sv_stale env
      | Some salt \<Rightarrow> Some (digest (sv_sha env) salt s))"

definition hide_users :: "status_env \<Rightarrow> authz_flags \<Rightarrow> edg_wll_Event \<Rightarrow> edg_wll_Event" where
  "hide_users env fl e =
     (if fl_anonymized fl \<or> fl_monitoring fl then
        let h = (\<lambda>s. if fl_monitoring fl then None else anonymize_string env s) in
        e\<lparr>any_user := h (any_user e),
          ev_body := (case ev_body e of EvGlite (EvChangeACL u t p pt op) \<Rightarrow> EvGlite (EvChangeACL (h u) t p pt op) | b \<Rightarrow> b)\<rparr>
      else e)"

text \<open>
  The events one after the other into a buffer that grows: its content and its size. A write behind the end of the buffer is a fault.
\<close>

primrec history_loop :: "status_env \<Rightarrow> authz_flags \<Rightarrow> edg_wll_Event list \<Rightarrow> string \<Rightarrow> nat \<Rightarrow> (string \<times> nat) option res" where
  "history_loop env fl [] buf maxsize = Inr (Some (buf, maxsize))"
| "history_loop env fl (e # es) buf maxsize =
     (case sv_json env (hide_users env fl e) of
        None \<Rightarrow> Inr None
      | Some t \<Rightarrow>
          let newsize = length buf + length t + length HISTORY_SEPARATOR + length HISTORY_FOOTER + 1;
              room = (if newsize > maxsize then max (2 * maxsize) newsize else maxsize);
              buf1 = buf @ t @ (if es = [] then [] else HISTORY_SEPARATOR) in
          if length buf1 + 1 > room then Inl Heap_overflow else history_loop env fl es buf1 room)"

text \<open>The history of the status after the call: without events it stays as it was.\<close>

definition collate_history :: "status_env \<Rightarrow> authz_flags \<Rightarrow> edg_wll_Event list \<Rightarrow> cstr \<Rightarrow> cstr res" where
  "collate_history env fl events old =
     (if events = [] then Inr old
      else
        rbind (history_loop env fl events HISTORY_HEADER 1024) (\<lambda>r. case r of
          None \<Rightarrow> Inr old
        | Some (buf, maxsize) \<Rightarrow>
            if length (buf @ HISTORY_FOOTER) + 1 > maxsize then Inl Heap_overflow else Inr (Some (buf @ HISTORY_FOOTER))))"

section \<open>The request\<close>

record status_flags =
  sf_classads :: bool
  sf_children :: bool
  sf_childstat :: bool
  sf_hist_fast :: bool
  sf_hist_thorough :: bool
  sf_anonymized :: bool
  sf_history :: bool

definition load_or_compute :: "junk \<Rightarrow> server_ctx \<Rightarrow> glite_jobid \<Rightarrow> lb_db \<Rightarrow> (store_error + intJobStat \<times> lb_db) res" where
  "load_or_compute junk sx job db =
     rbind (edg_wll_LoadIntState (Some job) (- 1) db) (\<lambda>r. case r of
       Inr js \<Rightarrow> Inr (Inr (js, db))
     | Inl _ \<Rightarrow> edg_wll_intJobStatus junk sx job True False db)"

text \<open>A step that fails goes to the end of the transaction, with the error of the context, or none.\<close>

definition failing :: "(store_error + 'a) res \<Rightarrow> (store_error option + 'a) res" where
  "failing m = rbind m (\<lambda>r. Inr (case r of Inl e \<Rightarrow> Inl (Some e) | Inr x \<Rightarrow> Inr x))"

definition recount ::
  "junk \<Rightarrow> server_ctx \<Rightarrow> glite_jobid \<Rightarrow> string \<Rightarrow> lb_db \<Rightarrow> (store_error option + edg_wll_JobStat \<times> lb_db) res" where
  "recount junk sx job u db =
     rbind (deref (glite_jobid_getServerParts (Some job))) (\<lambda>(name, port).
     case glite_jobid_recreate (Some name) (sint port) (Some u) [] of
       Inl _ \<Rightarrow> Inr (Inl None)
     | Inr sub \<Rightarrow>
         ebind (failing (edg_wll_intJobStatus junk sx sub True False db)) (\<lambda>(js, db1). Inr (Inr (intJobStat_to_JobStat js, db1))))"

primrec child_states ::
  "junk \<Rightarrow> server_ctx \<Rightarrow> glite_jobid \<Rightarrow> (string \<times> state_row) list \<Rightarrow> lb_db \<Rightarrow> (store_error option + edg_wll_JobStat list \<times> lb_db) res" where
  "child_states junk sx job [] db = Inr (Inr ([], db))"
| "child_states junk sx job (row # rows) db =
     (if sr_version (snd row) = INTSTAT_VERSION then
        rbind (dec_intJobStat (sr_text (snd row))) (\<lambda>(js, rest).
        ebind (child_states junk sx job rows db) (\<lambda>(ss, db1).
        Inr (Inr (if rest \<noteq> None \<and> js \<noteq> None then intJobStat_to_JobStat (the js) # ss else ss, db1))))
      else
        ebind (recount junk sx job (fst row) db) (\<lambda>(s, db1).
        ebind (child_states junk sx job rows db1) (\<lambda>(ss, db2). Inr (Inr (s # ss, db2)))))"

definition count_state :: "int \<Rightarrow> int list option \<Rightarrow> int list option res" where
  "count_state st h = rbind (array_at h (st + 1)) (\<lambda>n. arr_store h (st + 1) (n + 1))"

definition state_code :: "int \<Rightarrow> bool" where
  "state_code n \<longleftrightarrow> EDG_WLL_JOB_UNDEF < n \<and> n < EDG_WLL_NUMBER_OF_STATCODES"

primrec count_rows ::
  "junk \<Rightarrow> server_ctx \<Rightarrow> glite_jobid \<Rightarrow> (string \<times> state_row) list \<Rightarrow> int list option \<Rightarrow> lb_db \<Rightarrow>
   (store_error option + int list option \<times> lb_db) res" where
  "count_rows junk sx job [] h db = Inr (Inr (h, db))"
| "count_rows junk sx job (row # rows) h db =
     ebind (if sr_version (snd row) = INTSTAT_VERSION then Inr (Inr (sr_status (snd row), db))
            else ebind (recount junk sx job (fst row) db) (\<lambda>(s, db1). Inr (Inr (state s, db1)))) (\<lambda>(n, db1).
     rbind (if state_code n then count_state n h else Inr h) (\<lambda>h1. count_rows junk sx job rows h1 db1))"

primrec count_states :: "edg_wll_JobStat list \<Rightarrow> int list option \<Rightarrow> int list option res" where
  "count_states [] h = Inr h"
| "count_states (s # ss) h = rbind (count_state (state s) h) (count_states ss)"

text \<open>An empty histogram, in the place of the one that is there.\<close>

definition cleared_hist :: "int list option \<Rightarrow> int list option res" where
  "cleared_hist h =
     (case h of
        None \<Rightarrow> Inr (Some (EDG_WLL_NUMBER_OF_STATCODES # replicate 12 0))
      | Some xs \<Rightarrow> if length xs < 13 then Inl Out_of_bounds else Inr (Some (hd xs # replicate 12 0 @ drop 13 xs)))"

definition child_rows :: "lb_db \<Rightarrow> glite_jobid \<Rightarrow> (string \<times> state_row) list" where
  "child_rows db job = filter (\<lambda>(u, r). sr_parent r = jid_id job) (d_states db)"

definition status_hist ::
  "junk \<Rightarrow> server_ctx \<Rightarrow> glite_jobid \<Rightarrow> status_flags \<Rightarrow> edg_wll_JobStat list \<Rightarrow> int list option \<Rightarrow> lb_db \<Rightarrow>
   (store_error option + int list option \<times> lb_db) res" where
  "status_hist junk sx job fl subs h db =
     (if sf_hist_thorough fl then
        rbind (cleared_hist h) (\<lambda>h0.
        if sf_childstat fl then rbind (count_states subs h0) (\<lambda>h1. Inr (Inr (h1, db)))
        else count_rows junk sx job (child_rows db job) h0 db)
      else if sf_hist_fast fl then
        case h of
          Some _ \<Rightarrow> Inr (Inr (h, db))
        | None \<Rightarrow> ebind (failing (edg_wll_GetSubjobHistogram (Some job) db)) (\<lambda>xs. Inr (Inr (Some xs, db)))
      else Inr (Inr (None, db)))"

definition child_names :: "lb_db \<Rightarrow> glite_jobid \<Rightarrow> string list" where
  "child_names db job =
     concat (map (\<lambda>(u, r). case d_jobs db u of None \<Rightarrow> [] | Some j \<Rightarrow> [sql_text (glite_jobid_unparse (Some (jr_id j)))]) (child_rows db job))"

text \<open>What the status of a collection gets about its subjobs.\<close>

definition add_children ::
  "junk \<Rightarrow> server_ctx \<Rightarrow> glite_jobid \<Rightarrow> status_flags \<Rightarrow> edg_wll_JobStat \<Rightarrow> lb_db \<Rightarrow>
   (store_error option + (edg_wll_JobStat \<times> edg_wll_JobStat list) \<times> lb_db) res" where
  "add_children junk sx job fl stat db =
     (if jobtype stat = EDG_WLL_STAT_DAG \<or> jobtype stat = EDG_WLL_STAT_COLLECTION \<or> jobtype stat = EDG_WLL_STAT_FILE_TRANSFER_COLLECTION then
        ebind (if sf_childstat fl then child_states junk sx job (child_rows db job) db else Inr (Inr ([], db))) (\<lambda>(subs, db1).
        ebind (status_hist junk sx job fl subs (children_hist stat) db1) (\<lambda>(h, db2).
        Inr (Inr ((stat\<lparr>children_hist := h,
             children := (if sf_children fl then fold (\<lambda>n l. add_stringlist l n) (child_names db2 job) (children stat) else children stat)\<rparr>, subs), db2))))
      else Inr (Inr ((stat, []), db)))"

text \<open>The history needs an event of the job; an error of the query stays.\<close>

definition add_history ::
  "junk \<Rightarrow> status_env \<Rightarrow> server_ctx \<Rightarrow> authz_flags \<Rightarrow> edg_wll_JobStat \<Rightarrow> lb_db \<Rightarrow> (store_error option \<times> edg_wll_JobStat) res" where
  "add_history junk env sx fl stat db =
     rbind (deref (jobId stat)) (\<lambda>j.
     rbind (job_events junk sx db j None) (\<lambda>(err, evs).
     rbind (if evs = [] then Inr (history stat) else collate_history env fl evs (history stat)) (\<lambda>h.
     Inr (map_option S_QUERY err, stat\<lparr>history := h\<rparr>))))"

definition with_acl :: "status_env \<Rightarrow> string option \<Rightarrow> edg_wll_JobStat \<Rightarrow> edg_wll_JobStat" where
  "with_acl env al stat = (case al of None \<Rightarrow> stat | Some a \<Rightarrow> stat\<lparr>access_rights := sv_acl_print env a, acl := Some a\<rparr>)"

definition without_classads :: "edg_wll_JobStat \<Rightarrow> edg_wll_JobStat" where
  "without_classads stat = stat\<lparr>jdl := None, matched_jdl := None, condor_jdl := None, rsl := None\<rparr>"

definition client_rights :: "server_ctx \<Rightarrow> status_flags \<Rightarrow> edg_wll_JobStat \<Rightarrow> string option \<Rightarrow> bool \<times> authz_flags" where
  "client_rights sx fl stat al =
     check_jobstat_authz (sx_test_user sx) (sx_authz sx) stat (sf_anonymized fl) al
       (Some \<lparr>pr_name = peerName (sx_query sx), pr_fqans = (case sx_fqans sx of None \<Rightarrow> [] | Some f \<Rightarrow> f)\<rparr>)"

text \<open>The transaction: what the client is allowed to, the status and its subjobs; or the error.\<close>

definition status_transaction ::
  "junk \<Rightarrow> status_env \<Rightarrow> server_ctx \<Rightarrow> glite_jobid \<Rightarrow> status_flags \<Rightarrow> lb_db \<Rightarrow>
   (store_error option + ((authz_flags \<times> store_error option) \<times> (edg_wll_JobStat \<times> edg_wll_JobStat list)) \<times> lb_db) res" where
  "status_transaction junk env sx job fl db =
     (if d_jobs db (jid_id job) = None then
        rbind (edg_wll_IsJobZombie env db job) (\<lambda>z. Inr (Inl (Some (if z \<noteq> 0 then S_EIDRM else S_ENOENT))))
      else
        ebind (failing (load_or_compute junk sx job db)) (\<lambda>(js, db1).
        rbind (edg_wll_GetACL (jid_id job) (d_acl db1)) (\<lambda>al.
        let rights = client_rights sx fl (intJobStat_to_JobStat js) al; afl = snd rights in
        if \<not> fst rights then Inr (Inl (Some S_EPERM))
        else
            let stat = with_acl env al (intJobStat_to_JobStat js) in
            ebind (add_children junk sx job fl (if sf_classads fl then stat else without_classads stat) db1) (\<lambda>((st, subs), db2).
            rbind (if sf_history fl then add_history junk env sx afl st db2 else Inr (None, st)) (\<lambda>(err, st).
            Inr (Inr (((afl, err), (st, subs)), db2)))))))"

text \<open>
  The error, the status with the subjobs, and the tables. A status for monitoring is made anew from some of the fields; a
  status to be anonymized is changed in its own fields. After an error the status is the zeroed one; what hiding fields makes of it
  is left out.
\<close>

definition edg_wll_JobStatusServer ::
  "junk \<Rightarrow> status_env \<Rightarrow> server_ctx \<Rightarrow> glite_jobid \<Rightarrow> status_flags \<Rightarrow> lb_db \<Rightarrow>
   (store_error option \<times> edg_wll_JobStat \<times> edg_wll_JobStat list \<times> lb_db) res" where
  "edg_wll_JobStatusServer junk env sx job fl db =
     rbind (status_transaction junk env sx job fl db) (\<lambda>r. case r of
       Inl err \<Rightarrow> Inr (err, zero_JobStat, [], db)
     | Inr (((afl, err), (stat, subs)), db1) \<Rightarrow>
         rbind (if fl_monitoring afl then blacken_fields (sv_ad_ok env) (sv_jdl_attr env) (sv_unparse_ad env) stat afl else Inr stat) (\<lambda>st.
         Inr (err, if fl_anonymized afl then snd (anonymize_stat (sv_sha env) (sv_fresh_salt env) (sv_salt env) st) else st,
              if fl_monitoring afl then [] else subs, if err = None then db1 else db)))"

section \<open>Histories fit their buffer\<close>

primrec separated :: "string list \<Rightarrow> string" where
  "separated [] = []"
| "separated (t # ts) = t @ (if ts = [] then [] else HISTORY_SEPARATOR) @ separated ts"

lemma those_Nil [simp]: "those (map f xs) = Some [] \<longleftrightarrow> xs = []"
  by (cases xs) (auto split: option.splits)

lemma history_loop_text:
  assumes "length buf + length HISTORY_FOOTER + 1 \<le> maxsize"
  shows "case those (map (\<lambda>e. sv_json env (hide_users env fl e)) es) of
      None \<Rightarrow> history_loop env fl es buf maxsize = Inr None
    | Some ts \<Rightarrow> \<exists>n. history_loop env fl es buf maxsize = Inr (Some (buf @ separated ts, n)) \<and>
        length (buf @ separated ts) + length HISTORY_FOOTER + 1 \<le> n"
  using assms
proof (induction es arbitrary: buf maxsize)
  case (Cons e es)
  show ?case
  proof (cases "sv_json env (hide_users env fl e)")
    case (Some t)
    let ?sep = "if es = [] then [] else HISTORY_SEPARATOR"
    let ?new = "length buf + length t + length HISTORY_SEPARATOR + length HISTORY_FOOTER + 1"
    let ?room = "if ?new > maxsize then max (2 * maxsize) ?new else maxsize"
    have fit: "length (buf @ t @ ?sep) + length HISTORY_FOOTER + 1 \<le> ?room" by auto
    from fit have "history_loop env fl (e # es) buf maxsize = history_loop env fl es (buf @ t @ ?sep) ?room"
      using Some by (auto simp: Let_def)
    then show ?thesis
      using Cons.IH[OF fit] Some by (auto split: option.splits)
  qed simp
qed simp

text \<open>
  C35. The history of a job is built without writing behind the end of its buffer, whatever the lengths of the texts of its
  events; it is the list of these texts, or is left alone when an event has no text.
\<close>

theorem history_fits:
  "collate_history env fl events old =
     Inr (case those (map (\<lambda>e. sv_json env (hide_users env fl e)) events) of
            None \<Rightarrow> old
          | Some ts \<Rightarrow> if ts = [] then old else Some (HISTORY_HEADER @ separated ts @ HISTORY_FOOTER))"
proof (cases "events = []")
  case False
  have "length HISTORY_HEADER + length HISTORY_FOOTER + 1 \<le> 1024" by (simp add: HISTORY_HEADER_def HISTORY_FOOTER_def)
  from history_loop_text[OF this, of env fl events] False show ?thesis
    by (auto simp: collate_history_def split: option.splits)
qed (simp add: collate_history_def)

section \<open>Purged jobs and jobs never seen\<close>


lemma literal_ends:
  assumes "APO \<notin> set u" and "BS \<notin> set u" and "r \<noteq> []" and "hd r \<noteq> APO"
  shows "sql_literal (u @ APO # r) = Some (u, r)"
  using assms
proof (induction u)
  case Nil
  then show ?case by (cases r) auto
next
  case (Cons c u)
  obtain d ds where "u @ APO # r = d # ds" by (cases u) auto
  with Cons show ?case by auto
qed

text \<open>The unique part of an identifier goes into the condition as it is: a quote in it ends the literal.\<close>

theorem zombie_sql_injection:
  assumes "APO \<notin> set u" and "BS \<notin> set u" and "r \<noteq> []" and "hd r \<noteq> APO"
  shows "\<exists>front text. zomb_where [(k, u @ APO # r, l)] = front @ APO # text \<and> front = ''((prefix_id='' @ show_int (int k) @ '') AND (jobid='' \<and>
    sql_literal text = Some (u, r @ APO # '') AND (suffix_id='' @ show_int (int l) @ ''))'')"
proof -
  have "sql_literal (u @ APO # r @ APO # '') AND (suffix_id='' @ show_int (int l) @ ''))'') =
      Some (u, r @ APO # '') AND (suffix_id='' @ show_int (int l) @ ''))'')"
    using assms by (intro literal_ends) auto
  then show ?thesis by (simp add: zomb_where_def joined_def zombie_atom_def sql_text_def)
qed

section \<open>Anonymized collections\<close>

lemma child_states_rows:
  "list_all2 (\<lambda>row k. sr_version (snd row) = INTSTAT_VERSION \<and> (\<exists>rest. dec_intJobStat (sr_text (snd row)) = Inr (Some k, Some rest))) rows ks \<Longrightarrow>
     child_states junk sx job rows db = Inr (Inr (map intJobStat_to_JobStat ks, db))"
  by (induction rows ks rule: list_all2_induct) auto

lemma jobtype_pub [simp]: "jobtype (intJobStat_to_JobStat js) = jobtype js"
  by (simp add: intJobStat_to_JobStat_def edg_wll_JobStat.defs)

lemma owner_pub [simp]: "owner (intJobStat_to_JobStat js) = owner js"
  by (simp add: intJobStat_to_JobStat_def edg_wll_JobStat.defs)

text \<open>
  C36. Anonymization forgets the subjobs. A client who may see anonymized jobs only, and asks for the status of a collection with
  its subjobs, gets a digest in the place of the owner of the collection, but the subjobs as they are stored, with
  the names of their owners.
\<close>

theorem children_not_anonymized:
  assumes "d_jobs db (jid_id job) \<noteq> None" and "edg_wll_LoadIntState (Some job) (- 1) db = Inr (Inr js)"
    and "jobtype js = EDG_WLL_STAT_COLLECTION" and "edg_wll_GetACL (jid_id job) (d_acl db) = Inr None"
    and "client_rights sx fl (intJobStat_to_JobStat js) None = (True, \<lparr>fl_anonymized = True, fl_monitoring = False\<rparr>)"
    and "sf_childstat fl" and "\<not> sf_hist_fast fl" and "\<not> sf_hist_thorough fl" and "\<not> sf_history fl"
    and "list_all2 (\<lambda>row k. sr_version (snd row) = INTSTAT_VERSION \<and> (\<exists>rest. dec_intJobStat (sr_text (snd row)) = Inr (Some k, Some rest)))
      (child_rows db job) ks"
    and "get_salt (sv_fresh_salt env) (sv_salt env) = Some salt"
  shows "\<exists>stat subs. edg_wll_JobStatusServer junk env sx job fl db = Inr (None, stat, subs, db) \<and>
    owner stat = Some (digest (sv_sha env) salt (owner js)) \<and> map owner subs = map owner ks"
proof -
  have lc: "load_or_compute junk sx job db = Inr (Inr (js, db))" using assms(2) by (simp add: load_or_compute_def)
  let ?st = "if sf_classads fl then intJobStat_to_JobStat js else without_classads (intJobStat_to_JobStat js)"
  have "jobtype ?st = EDG_WLL_STAT_COLLECTION" and own: "owner ?st = owner js" using assms(3) by (simp_all add: without_classads_def)
  then obtain st where "add_children junk sx job fl ?st db = Inr (Inr ((st, map intJobStat_to_JobStat ks), db))" and "owner st = owner js"
    using child_states_rows[OF assms(10)] assms(6-8) by (auto simp: add_children_def status_hist_def)
  then have "status_transaction junk env sx job fl db =
      Inr (Inr (((\<lparr>fl_anonymized = True, fl_monitoring = False\<rparr>, None), (st, map intJobStat_to_JobStat ks)), db))"
    using assms(1,4,5,9) lc by (auto simp: status_transaction_def failing_def with_acl_def Let_def)
  with \<open>owner st = owner js\<close> assms(11) show ?thesis
    by (simp add: edg_wll_JobStatusServer_def anonymize_stat_def comp_def)
qed

definition ex_status_env :: status_env where
  "ex_status_env = \<lparr>sv_select = (\<lambda>_ t. if t = ''(nil)'' then - 1 else 0), sv_acl_print = Some, sv_ad_ok = (\<lambda>_. False), sv_jdl_attr = (\<lambda>_ _. None),
     sv_unparse_ad = (\<lambda>_. []), sv_sha = (\<lambda>s salt. ''hidden''), sv_fresh_salt = None, sv_salt = Salt ''s'', sv_stale = None, sv_json = (\<lambda>_. Some ''{}'')\<rparr>"

definition ex_reader :: server_ctx where
  "ex_reader = ex_sx\<lparr>sx_authz := (sx_authz ex_sx)\<lparr>ctx_policy := [(READ_ANONYMIZED, [[(AUTHZ_ATTR_SUBJECT, ''/CN=wms'')]])]\<rparr>\<rparr>"

definition ex_flags :: status_flags where
  "ex_flags = \<lparr>sf_classads = False, sf_children = False, sf_childstat = True, sf_hist_fast = False, sf_hist_thorough = False,
     sf_anonymized = False, sf_history = False\<rparr>"

definition ex_collection :: lb_db where
  "ex_collection = ex_states\<lparr>d_jobs := [''all'' \<mapsto> \<lparr>jr_id = ex_job_id ''all'', jr_userid = [], jr_proxy = False, jr_server = True, jr_grey = False, jr_nevents = 1\<rparr>],
     d_acl := \<lparr>t_acls = Map.empty, t_jobs = Map.empty\<rparr>\<rparr>"

lemma ex_children:
  obtains row where "child_rows ex_collection (ex_job_id ''all'') = [row]" and "sr_version (snd row) = INTSTAT_VERSION"
    and "dec_intJobStat (sr_text (snd row)) = Inr (Some (stored ex_sub), Some [])"
proof -
  obtain ta where a: "enc_intJobStat [] ex_all = Inr ta" using ex_keepable(2) by (rule keepable_text)
  obtain ts where b: "enc_intJobStat [] ex_sub = Inr ts" "dec_intJobStat ts = Inr (Some (stored ex_sub), Some [])"
    using ex_keepable(1) by (rule keepable_text)
  have ids: "jobId ex_all = Some (ex_job_id ''all'')" "parent_job ex_all = None" "jobId ex_sub = Some (ex_job_id ''mine'')"
    "parent_job ex_sub = Some (ex_job_id ''all'')" by (simp_all add: ex_all_def ex_sub_def init_intJobStat_def zero_intJobStat_def edg_wll_InitStatus_def edg_wll_JobStat.defs intJobStat.defs)
  let ?row = "\<lparr>sr_status = state ex_sub, sr_seq = 0, sr_text = ts, sr_version = INTSTAT_VERSION, sr_parent = ''all''\<rparr>"
  have "child_rows ex_collection (ex_job_id ''all'') = [(''mine'', ?row)]"
    by (simp add: child_rows_def ex_collection_def ex_states_def edg_wll_StoreIntState_def a b(1) ids ex_db_def Let_def sql_text_def
        glite_jobid_getUnique_def parent_text_def ex_job_id_def)
  then show thesis using b(2) that[of "(''mine'', ?row)"] by simp
qed

lemma ex_reader_may: "client_rights ex_reader ex_flags (intJobStat_to_JobStat (stored ex_all)) None = (True, \<lparr>fl_anonymized = True, fl_monitoring = False\<rparr>)"
  by code_simp

theorem children_not_anonymized_witness:
  "\<exists>stat sub. edg_wll_JobStatusServer (\<lambda>_ _. (0, 0)) ex_status_env ex_reader (ex_job_id ''all'') ex_flags ex_collection = Inr (None, stat, [sub], ex_collection) \<and>
     owner stat = Some ''hidden'' \<and> owner sub = Some ''/CN=user''"
proof -
  let ?k = "stored ex_sub"
  obtain row where "child_rows ex_collection (ex_job_id ''all'') = [row]" "sr_version (snd row) = INTSTAT_VERSION"
    "dec_intJobStat (sr_text (snd row)) = Inr (Some ?k, Some [])" by (rule ex_children)
  then have "list_all2 (\<lambda>row k. sr_version (snd row) = INTSTAT_VERSION \<and> (\<exists>rest. dec_intJobStat (sr_text (snd row)) = Inr (Some k, Some rest)))
      (child_rows ex_collection (ex_job_id ''all'')) [?k]" by simp
  moreover have "edg_wll_LoadIntState (Some (ex_job_id ''all'')) (- 1) ex_collection = Inr (Inr (stored ex_all))"
    using ex_states_load(2) load_states[of ex_collection ex_states] by (simp add: ex_collection_def)
  moreover have "jobtype (stored ex_all) = EDG_WLL_STAT_COLLECTION" by (simp add: stored_def stored_pub_def ex_all_def)
  moreover have "d_jobs ex_collection (jid_id (ex_job_id ''all'')) \<noteq> None" "edg_wll_GetACL (jid_id (ex_job_id ''all'')) (d_acl ex_collection) = Inr None"
    by (simp_all add: ex_collection_def ex_job_id_def edg_wll_GetACL_def)
  moreover have "owner ?k = Some ''/CN=user''" by (simp add: stored_def stored_pub_def ex_sub_def)
  moreover have "sx_fqans ex_reader = None" by (simp add: ex_reader_def ex_sx_def)
  ultimately show ?thesis
    using children_not_anonymized[of ex_collection "ex_job_id ''all''" "stored ex_all" ex_reader ex_flags "[?k]" ex_status_env "''s''" "\<lambda>_ _. (0, 0)"]
      ex_reader_may
    by (auto simp: ex_flags_def ex_status_env_def get_salt_def digest_def Cons_eq_map_conv)
qed

definition ex_purged :: lb_db where
  "ex_purged = ex_db\<lparr>d_prefixes := [''elsewhere:90/''], d_suffixes := [[]], d_zombies := [(''old'', 1, 1)]\<rparr>"


end
