(* ===== verification/LB_Purge.thy ===== *)
theory LB_Purge
  imports LB_JobStatus
begin

text \<open>
  Purging of old jobs (\<^verbatim>\<open>org.glite.lb.server/src/srv_purge.c\<close>), with the connections between jobs and the deletion of events from
  \<^verbatim>\<open>store.c.T\<close>. A dump file is the list of events written to it; writing does not fail. Throttling and the signal to stop are
  left out. The statements on connections take identifiers without escaping them; the model is that of identifiers without quotes
  and backslashes.
\<close>

section \<open>Connections between jobs\<close>

definition job_key :: "glite_jobid option \<Rightarrow> string" where
  "job_key job = sql_text (glite_jobid_getUnique job)"

definition edg_wll_jobsconnection_create :: "glite_jobid option \<Rightarrow> glite_jobid option \<Rightarrow> int \<Rightarrow> job_connection \<Rightarrow> lb_db \<Rightarrow> lb_db" where
  "edg_wll_jobsconnection_create from to jt c db = db\<lparr>d_connections := (d_connections db)((job_key from, job_key to) \<mapsto> (jt, c))\<rparr>"

definition edg_wll_jobsconnection_modify :: "glite_jobid option \<Rightarrow> glite_jobid option \<Rightarrow> job_connection \<Rightarrow> lb_db \<Rightarrow> lb_db" where
  "edg_wll_jobsconnection_modify from to c db =
     db\<lparr>d_connections := (d_connections db)((job_key from, job_key to) := map_option (\<lambda>(jt, _). (jt, c)) (d_connections db (job_key from, job_key to)))\<rparr>"

definition edg_wll_jobsconnection_modifyall :: "glite_jobid option \<Rightarrow> job_connection \<Rightarrow> job_connection \<Rightarrow> lb_db \<Rightarrow> lb_db" where
  "edg_wll_jobsconnection_modifyall job old new db =
     db\<lparr>d_connections := (\<lambda>(f, t). map_option (\<lambda>(jt, c). (jt, if c = old \<and> (f = job_key job \<or> t = job_key job) then new else c)) (d_connections db (f, t)))\<rparr>"

definition edg_wll_jobsconnection_purgeall :: "glite_jobid option \<Rightarrow> lb_db \<Rightarrow> lb_db" where
  "edg_wll_jobsconnection_purgeall job db =
     db\<lparr>d_connections := (\<lambda>(f, t). if f = job_key job \<or> t = job_key job then None else d_connections db (f, t))\<rparr>"

section \<open>One job\<close>

text \<open>Whether the job belongs to the proxy and to the server.\<close>

definition edg_wll_jobMembership :: "glite_jobid option \<Rightarrow> lb_db \<Rightarrow> (bool \<times> bool) option" where
  "edg_wll_jobMembership job db = map_option (\<lambda>r. (jr_proxy r, jr_server r)) (d_jobs db (job_key job))"

definition unset_proxy_flag :: "glite_jobid option \<Rightarrow> lb_db \<Rightarrow> lb_db" where
  "unset_proxy_flag job db = db\<lparr>d_jobs := (d_jobs db)(job_key job := map_option (\<lambda>r. r\<lparr>jr_proxy := False\<rparr>) (d_jobs db (job_key job)))\<rparr>"

definition unset_server_flag :: "glite_jobid option \<Rightarrow> lb_db \<Rightarrow> lb_db" where
  "unset_server_flag job db = db\<lparr>d_jobs := (d_jobs db)(job_key job := map_option (\<lambda>r. r\<lparr>jr_server := False\<rparr>) (d_jobs db (job_key job)))\<rparr>"

definition job_exists :: "query_context \<Rightarrow> glite_jobid option \<Rightarrow> lb_db \<Rightarrow> bool res" where
  "job_exists ctx job db =
     rbind (check_strict_jobid ctx job) (\<lambda>ok. Inr (ok \<and> d_jobs db (job_key job) \<noteq> None))"

definition plain_status :: status_flags where
  "plain_status = \<lparr>sf_classads = False, sf_children = False, sf_childstat = False, sf_hist_fast = False, sf_hist_thorough = False,
     sf_anonymized = False, sf_history = False\<rparr>"

text \<open>The type of a job takes a request for its status, in a transaction of its own.\<close>

definition get_job_type :: "junk \<Rightarrow> status_env \<Rightarrow> server_ctx \<Rightarrow> glite_jobid \<Rightarrow> lb_db \<Rightarrow> (store_error option + int) res \<times> lb_db" where
  "get_job_type junk env sx job db =
     (case edg_wll_JobStatusServer junk env sx job plain_status db of
        Inl flt \<Rightarrow> (Inl flt, db)
      | Inr (Some err, _, _, db1) \<Rightarrow> (Inr (Inl (Some err)), db1)
      | Inr (None, stat, _, db1) \<Rightarrow> (Inr (Inr (jobtype stat)), db1))"

definition glite_like :: "int \<Rightarrow> bool" where
  "glite_like t \<longleftrightarrow> t \<in> {EDG_WLL_STAT_SIMPLE, EDG_WLL_STAT_DAG, 2, 3, EDG_WLL_STAT_COLLECTION, EDG_WLL_STAT_CREAM,
     EDG_WLL_STAT_FILE_TRANSFER, EDG_WLL_STAT_FILE_TRANSFER_COLLECTION}"

text \<open>The unique part of a job without its suffix, and the suffix; nothing where they are not known.\<close>

definition get_jobid_suffix :: "glite_jobid \<Rightarrow> int \<Rightarrow> (string \<times> string) option res" where
  "get_jobid_suffix job t =
     (if glite_like t then Inr (Some (jid_id job, []))
      else if t = EDG_WLL_STAT_PBS then
        Inr (map_option (\<lambda>s. (take (length (jid_id job) - length s) (jid_id job), s)) (strchr (jid_id job) (CHR ''.'')))
      else if t = EDG_WLL_STAT_CONDOR then Inl Assert_fail
      else Inr None)"

definition get_jobid_prefix :: "glite_jobid \<Rightarrow> int \<Rightarrow> string option res" where
  "get_jobid_prefix job t =
     (if glite_like t \<or> t = EDG_WLL_STAT_PBS then Inr (Some (sql_text (glite_jobid_getServer (Some job)) @ ''/''))
      else if t = EDG_WLL_STAT_CONDOR then Inl Assert_fail
      else Inr None)"

text \<open>
  The prefix is asked for only where there is a suffix; an unknown one of both is reset to none.
\<close>

definition zombie_names :: "glite_jobid \<Rightarrow> int \<Rightarrow> (string \<times> string \<times> string) option res" where
  "zombie_names job t =
     rbind (get_jobid_suffix job t) (\<lambda>su. case su of
       None \<Rightarrow> Inr None
     | Some (root, suffx) \<Rightarrow> rbind (get_jobid_prefix job t) (\<lambda>p. Inr (map_option (\<lambda>pre. (root, pre, suffx)) p)))"

text \<open>The number of a text in its table, which has room for 255; the text is added where it is not there.\<close>

fun index_of :: "string \<Rightarrow> string list \<Rightarrow> nat" where
  "index_of t [] = 1"
| "index_of t (x # xs) = (if x = t then 1 else Suc (index_of t xs))"

definition number_of :: "string \<Rightarrow> string list \<Rightarrow> (nat \<times> string list) option" where
  "number_of t xs = (if t \<in> set xs then Some (index_of t xs, xs) else if length xs < 255 then Some (Suc (length xs), xs @ [t]) else None)"

definition store_zombie :: "string \<times> string \<times> string \<Rightarrow> lb_db \<Rightarrow> lb_db option" where
  "store_zombie z db =
     (case z of (root, pre, suffx) \<Rightarrow>
        case number_of pre (d_prefixes db) of
          None \<Rightarrow> None
        | Some (k, ps) \<Rightarrow>
            case number_of suffx (d_suffixes db) of
              None \<Rightarrow> None
            | Some (l, ss) \<Rightarrow>
                Some (db\<lparr>d_prefixes := ps, d_suffixes := ss,
                         d_zombies := (if root \<in> fst ` set (d_zombies db) then d_zombies db else d_zombies db @ [(root, k, l)])\<rparr>))"

text \<open>The rows of a job. The row in the table of jobs names the access control list; the list itself stays.\<close>

definition delete_rows :: "glite_jobid \<Rightarrow> lb_db \<Rightarrow> lb_db" where
  "delete_rows job db =
     (let u = jid_id job in
      db\<lparr>d_jobs := (d_jobs db)(u := None), d_acl := (d_acl db)\<lparr>t_jobs := (t_jobs (d_acl db))(u := None)\<rparr>,
         d_states := filter (\<lambda>(k, _). k \<noteq> u) (d_states db), d_tags := (\<lambda>(k, q, n). if k = u then None else d_tags db (k, q, n))\<rparr>)"

definition edg_wll_delete_event :: "string \<Rightarrow> int \<Rightarrow> lb_db \<Rightarrow> lb_db" where
  "edg_wll_delete_event u n db = db\<lparr>d_events := (d_events db)(u := filter (\<lambda>s. se_no s \<noteq> n) (d_events db u))\<rparr>"

definition delete_events :: "string \<Rightarrow> lb_db \<Rightarrow> lb_db" where
  "delete_events u db = fold (\<lambda>s. edg_wll_delete_event u (se_no s)) (d_events db u) db"

text \<open>The events that are written to the dump file: those of known users that can be read.\<close>

definition dump_events :: "glite_jobid \<Rightarrow> lb_db \<Rightarrow> edg_wll_Event list" where
  "dump_events job db =
     concat (map (\<lambda>s. if d_users db (se_userid s) = None then [] else (case se_event s of None \<Rightarrow> [] | Some e \<Rightarrow> [e])) (d_events db (jid_id job)))"

text \<open>What the membership of a job leaves to do: nothing, to purge or to dump.\<close>

definition membership_action :: "server_ctx \<Rightarrow> glite_jobid \<Rightarrow> bool \<Rightarrow> bool \<Rightarrow> bool \<times> bool \<Rightarrow> lb_db \<Rightarrow> (bool \<times> lb_db) option" where
  "membership_action sx job purge proxy_only m db =
     (let prox = isProxy (sx_query sx) in
      case m of
        (True, False) \<Rightarrow> if \<not> prox then None else Some (purge, db)
      | (False, True) \<Rightarrow> if proxy_only \<or> prox then None else Some (purge, db)
      | (True, True) \<Rightarrow>
          Some (False, if prox \<or> is_job_local sx (Some job) \<and> proxy_only then unset_proxy_flag (Some job) db else unset_server_flag (Some job) db)
      | (False, False) \<Rightarrow> Some (purge, db))"

text \<open>The notification, the rows and the record of a job that is really purged.\<close>

definition bury :: "glite_jobid \<Rightarrow> edg_wll_JobStat \<Rightarrow> (string \<times> string \<times> string) option \<Rightarrow> lb_db \<Rightarrow> store_error option \<times> lb_db" where
  "bury job stat names db =
     (let db1 = db\<lparr>d_notified := d_notified db @ [(Some stat, stat\<lparr>state := EDG_WLL_JOB_PURGED\<rparr>)]\<rparr>;
          db2 = delete_rows job (edg_wll_jobsconnection_purgeall (Some job) db1) in
      case names of
        None \<Rightarrow> (None, db2)
      | Some z \<Rightarrow> (case store_zombie z db2 of None \<Rightarrow> (Some S_DB_CALL, db2) | Some db3 \<Rightarrow> (None, db3)))"

text \<open>The request for the type of the job has ended the transaction, so that nothing is taken back after it.\<close>

definition purge_rows :: "junk \<Rightarrow> status_env \<Rightarrow> server_ctx \<Rightarrow> glite_jobid \<Rightarrow> edg_wll_JobStat \<Rightarrow> lb_db \<Rightarrow> (store_error option \<times> lb_db) res" where
  "purge_rows junk env sx job stat db =
     (case get_job_type junk env sx job db of
        (Inl flt, _) \<Rightarrow> Inl flt
      | (Inr (Inl err), db1) \<Rightarrow> Inr (err, db1)
      | (Inr (Inr t), db1) \<Rightarrow> rbind (zombie_names job t) (\<lambda>names. Inr (bury job stat names db1)))"

definition purge_one ::
  "junk \<Rightarrow> status_env \<Rightarrow> server_ctx \<Rightarrow> edg_wll_JobStat \<Rightarrow> bool \<Rightarrow> bool \<Rightarrow> bool \<Rightarrow> lb_db \<Rightarrow> (store_error option \<times> edg_wll_Event list \<times> lb_db) res" where
  "purge_one junk env sx stat dump purge0 proxy_only db =
     (if \<not> purge0 \<and> \<not> dump then Inr (None, [], db)
      else
        case edg_wll_jobMembership (jobId stat) db of
          None \<Rightarrow> Inr (Some S_ENOENT, [], db)
        | Some m \<Rightarrow>
            rbind (deref (jobId stat)) (\<lambda>job.
            case membership_action sx job purge0 proxy_only m db of
              None \<Rightarrow> Inr (None, [], db)
            | Some (purge, db1) \<Rightarrow>
                rbind (if purge then purge_rows junk env sx job stat db1 else Inr (None, db1)) (\<lambda>(err, db2).
                if err \<noteq> None then Inr (err, [], db2)
                else Inr (None, if dump then dump_events job db2 else [], if purge then delete_events (jid_id job) db2 else db2))))"

definition edg_wll_PurgeServerProxy :: "junk \<Rightarrow> status_env \<Rightarrow> server_ctx \<Rightarrow> glite_jobid \<Rightarrow> lb_db \<Rightarrow> (store_error option \<times> lb_db) res" where
  "edg_wll_PurgeServerProxy junk env sx job db =
     rbind (purge_one junk env sx (zero_JobStat\<lparr>jobId := Some job\<rparr>) False True True db) (\<lambda>(err, _, db1).
     Inr (if err = Some S_ENOENT then None else err, db1))"

section \<open>The request\<close>

record purge_request =
  pq_jobs :: "string list option"
  pq_timeout :: "int list"
  pq_really :: bool
  pq_dump :: bool
  pq_list :: bool

text \<open>
  What has been done so far: the names of the jobs, if they are asked for, the dumped events, whether an identifier was bad, and whether
  the last call has left the error for a job of another server in the context.
\<close>

record purge_state =
  ps_jobs :: "string list"
  ps_dumped :: "edg_wll_Event list"
  ps_parse :: bool
  ps_left :: bool

definition purge_next ::
  "junk \<Rightarrow> status_env \<Rightarrow> server_ctx \<Rightarrow> purge_request \<Rightarrow> edg_wll_JobStat \<Rightarrow> cstr \<Rightarrow> purge_state \<Rightarrow> lb_db \<Rightarrow>
   (store_error + purge_state \<times> lb_db) res \<times> lb_db" where
  "purge_next junk env sx rq stat name ps db =
     (case purge_one junk env sx stat (pq_dump rq) (pq_really rq) (isProxy (sx_query sx)) db of
        Inl flt \<Rightarrow> (Inl flt, db)
      | Inr (Some err, _, db1) \<Rightarrow> (Inr (Inl err), db1)
      | Inr (None, evs, db1) \<Rightarrow>
          (Inr (Inr (ps\<lparr>ps_jobs := (if pq_list rq then ps_jobs ps @ [sql_text name] else ps_jobs ps), ps_dumped := ps_dumped ps @ evs, ps_left := False\<rparr>, db1)), db1))"

text \<open>The subjobs: their names and their states are two arrays; the array of states ends with a zeroed one.\<close>

fun purge_children ::
  "junk \<Rightarrow> status_env \<Rightarrow> server_ctx \<Rightarrow> purge_request \<Rightarrow> nat \<Rightarrow> string list \<Rightarrow> edg_wll_JobStat list \<Rightarrow> purge_state \<Rightarrow> lb_db \<Rightarrow>
   (store_error option \<times> purge_state \<times> lb_db) res" where
  "purge_children junk env sx rq 0 names subs ps db = Inr (None, ps, db)"
| "purge_children junk env sx rq (Suc n) [] subs ps db = Inr (None, ps, db)"
| "purge_children junk env sx rq (Suc n) (name # names) subs ps db =
     (case subs of
        [] \<Rightarrow> Inr (Some S_ENOENT, ps, db)
      | s # ss \<Rightarrow>
          (case purge_next junk env sx rq s (Some name) ps db of
             (Inl flt, _) \<Rightarrow> Inl flt
           | (Inr (Inl err), db1) \<Rightarrow> Inr (Some err, ps, db1)
           | (Inr (Inr (ps1, db1)), _) \<Rightarrow> purge_children junk env sx rq n names ss ps1 db1))"

definition purge_one_with_subjobs ::
  "junk \<Rightarrow> status_env \<Rightarrow> server_ctx \<Rightarrow> purge_request \<Rightarrow> edg_wll_JobStat \<Rightarrow> edg_wll_JobStat list \<Rightarrow> purge_state \<Rightarrow> lb_db \<Rightarrow>
   (store_error option \<times> purge_state \<times> lb_db) res" where
  "purge_one_with_subjobs junk env sx rq stat subs ps db =
     (case purge_next junk env sx rq stat (glite_jobid_unparse (jobId stat)) ps db of
        (Inl flt, _) \<Rightarrow> Inl flt
      | (Inr (Inl err), db1) \<Rightarrow> Inr (Some err, ps, db1)
      | (Inr (Inr (ps1, db1)), _) \<Rightarrow>
          (case children stat of
             None \<Rightarrow> Inr (None, ps1, db1)
           | Some names \<Rightarrow> purge_children junk env sx rq (nat (children_num stat)) names subs ps1 db1))"

text \<open>
  Whether a job has been left alone for long enough. The second part of the answer of \<open>purge_check\<close> says that \<open>check_strict_jobid\<close>, of the job
  or of its parent, has left its error in the context.
\<close>

definition expired :: "int \<Rightarrow> int list \<Rightarrow> edg_wll_JobStat \<Rightarrow> bool res" where
  "expired start timeout stat =
     (if 0 \<le> state stat \<and> state stat < int (length timeout) then
        let t = timeout ! nat (state stat); upd = tv_sec (lastUpdateTime stat) in
        Inr (0 \<le> t \<and> upd \<noteq> 0 \<and> start - upd > t)
      else Inl Out_of_bounds)"

primrec all_expired :: "int \<Rightarrow> int list \<Rightarrow> edg_wll_JobStat list \<Rightarrow> bool res" where
  "all_expired start timeout [] = Inr True"
| "all_expired start timeout (s # ss) = rbind (expired start timeout s) (\<lambda>ex. if ex then all_expired start timeout ss else Inr False)"

definition purge_check :: "server_ctx \<Rightarrow> int \<Rightarrow> int list \<Rightarrow> edg_wll_JobStat \<Rightarrow> edg_wll_JobStat list \<Rightarrow> lb_db \<Rightarrow> (bool \<times> bool) res" where
  "purge_check sx start timeout stat subs db =
     rbind (expired start timeout stat) (\<lambda>old.
     if \<not> old then Inr (False, False)
     else
       rbind (check_strict_jobid (sx_query sx) (jobId stat)) (\<lambda>mine.
       if \<not> mine then Inr (False, True)
       else
         rbind (case parent_job stat of
                  None \<Rightarrow> Inr (False, False)
                | Some par \<Rightarrow>
                    rbind (check_strict_jobid (sx_query sx) (Some par)) (\<lambda>ours.
                    rbind (job_exists (sx_query sx) (Some par) db) (\<lambda>ex. Inr (ex, \<not> ours)))) (\<lambda>(par, left).
         if par then Inr (False, left)
         else
           rbind (all_expired start timeout (takeWhile (\<lambda>s. state s \<noteq> EDG_WLL_JOB_UNDEF) (take (nat (children_num stat)) subs))) (\<lambda>go.
           Inr (go, left)))))"

definition purge_status :: status_flags where
  "purge_status = plain_status\<lparr>sf_children := True, sf_childstat := True\<rparr>"

text \<open>
  The loops over the jobs of a request and over all jobs; \<open>check\<close> tells which jobs to purge. A job that
  does not exist any more is passed over. The request returns the error that is in the context at the end.
\<close>

primrec purge_jobs ::
  "junk \<Rightarrow> status_env \<Rightarrow> server_ctx \<Rightarrow> purge_request \<Rightarrow> (edg_wll_JobStat \<Rightarrow> edg_wll_JobStat list \<Rightarrow> lb_db \<Rightarrow> (bool \<times> bool) res) \<Rightarrow> string list \<Rightarrow> purge_state \<Rightarrow> lb_db \<Rightarrow>
   (store_error option \<times> purge_state \<times> lb_db) res" where
  "purge_jobs junk env sx rq check [] ps db = Inr (if ps_left ps then Some S_EINVAL else None, ps, db)"
| "purge_jobs junk env sx rq check (name # names) ps db =
     (case glite_jobid_parse name of
        Inl _ \<Rightarrow> purge_jobs junk env sx rq check names (ps\<lparr>ps_parse := True\<rparr>) db
      | Inr job \<Rightarrow>
          rbind (check_strict_jobid (sx_query sx) (Some job)) (\<lambda>ok.
          if \<not> ok then purge_jobs junk env sx rq check names (ps\<lparr>ps_parse := True, ps_left := True\<rparr>) db
          else
            rbind (edg_wll_JobStatusServer junk env sx job purge_status db) (\<lambda>(err, stat, subs, db1).
            case err of
              Some er \<Rightarrow> if er = S_ENOENT \<or> er = S_EIDRM then purge_jobs junk env sx rq check names (ps\<lparr>ps_left := False\<rparr>) db1 else Inr (Some er, ps, db1)
            | None \<Rightarrow>
                rbind (check stat subs db1) (\<lambda>(go, left).
                if \<not> go then purge_jobs junk env sx rq check names (ps\<lparr>ps_left := left\<rparr>) db1
                else
                  rbind (purge_one_with_subjobs junk env sx rq stat subs ps db1) (\<lambda>(perr, ps1, db2).
                  case perr of
                    None \<Rightarrow> purge_jobs junk env sx rq check names ps1 db2
                  | Some er \<Rightarrow>
                      if er = S_ENOENT \<or> er = S_EIDRM \<and> pq_jobs rq = None then purge_jobs junk env sx rq check names (ps1\<lparr>ps_left := False\<rparr>) db2
                      else Inr (Some er, ps1, db2))))))"

text \<open>Minus two stands for no purge, another negative number for the default of the server.\<close>

definition timeouts :: "int list \<Rightarrow> int list \<Rightarrow> int list" where
  "timeouts request defaults = map (\<lambda>(t, d). if t < 0 then (if t = - 2 then t else d) else t) (zip request defaults)"

definition edg_wll_PurgeServer ::
  "junk \<Rightarrow> status_env \<Rightarrow> server_ctx \<Rightarrow> int list \<Rightarrow> (lb_db \<Rightarrow> string list) \<Rightarrow> purge_request \<Rightarrow> lb_db \<Rightarrow> (store_error option \<times> purge_state \<times> lb_db) res" where
  "edg_wll_PurgeServer junk env sx defaults all_jobs rq db =
     (let ps = \<lparr>ps_jobs = [], ps_dumped = [], ps_parse = False, ps_left = False\<rparr> in
      if \<not> noAuth (sx_authz sx) \<and> \<not> check_authz_policy_ctx (sx_authz sx) PURGE then Inr (Some S_EPERM, ps, db)
      else
        case pq_jobs rq of
          Some names \<Rightarrow> purge_jobs junk env sx rq (\<lambda>_ _ _. Inr (True, False)) names ps db
        | None \<Rightarrow>
            purge_jobs junk env sx rq (purge_check sx (tv_sec (sx_now sx)) (timeouts (pq_timeout rq) defaults)) (all_jobs db) ps db)"

section \<open>A request for the status changes no rows of jobs\<close>

definition same_rows :: "lb_db \<Rightarrow> lb_db \<Rightarrow> bool" where
  "same_rows a b \<longleftrightarrow> d_jobs a = d_jobs b \<and> d_users a = d_users b \<and> d_events a = d_events b \<and> d_acl a = d_acl b \<and> d_connections a = d_connections b \<and>
     d_zombies a = d_zombies b \<and> d_prefixes a = d_prefixes b \<and> d_suffixes a = d_suffixes b"

lemma same_rows_refl [simp]: "same_rows a a"
  by (simp add: same_rows_def)

lemma same_rows_trans: "same_rows a b \<Longrightarrow> same_rows b c \<Longrightarrow> same_rows a c"
  by (simp add: same_rows_def)

lemma process_events_rows: "process_events junk es js db = Inr (Inr (js', db')) \<Longrightarrow> same_rows db' db"
proof (induction es arbitrary: js db)
  case (Cons e es)
  then obtain js1 where "process_events junk es js1 (count_event e js1 db) = Inr (Inr (js', db'))"
    by (auto simp: res_simps split: if_splits prod.splits)
  from Cons.IH[OF this] show ?case
    by (auto simp: same_rows_def count_event_def count_up_def split: option.splits if_splits)
qed simp

lemma intJobStatus_rows:
  assumes "edg_wll_intJobStatus junk sx job upd fq db = Inr (Inr (js, db'))"
  shows "same_rows db' db"
proof -
  obtain js0 evs js1 db1 where pe: "process_events junk evs js0 db = Inr (Inr (js1, db1))"
    and st: "store_computed sx job upd fq evs js1 db1 = Inr (Inr (js, db'))"
    using assms by (auto simp: edg_wll_intJobStatus_def ebind_eq_Inr split: option.splits)
  from st have "same_rows db' db1"
    by (auto simp: store_computed_def edg_wll_StoreIntState_def Let_def res_simps same_rows_def split: if_splits)
  with process_events_rows[OF pe] show ?thesis by (rule same_rows_trans[rotated])
qed

lemma load_or_compute_rows:
  assumes "load_or_compute junk sx job db = Inr (Inr (js, db'))"
  shows "same_rows db' db"
proof (cases "edg_wll_LoadIntState (Some job) (- 1) db")
  case (Inr r)
  with assms show ?thesis by (cases r) (auto simp: load_or_compute_def dest: intJobStatus_rows)
qed (use assms in \<open>simp add: load_or_compute_def\<close>)

lemma plain_status_rows:
  assumes "edg_wll_JobStatusServer junk env sx job plain_status db = Inr (err, stat, subs, db')"
  shows "same_rows db' db"
proof -
  have rows: "same_rows d db" if "status_transaction junk env sx job plain_status db = Inr (Inr (x, d))" for x d
  proof -
    have "\<exists>js. load_or_compute junk sx job db = Inr (Inr (js, d))"
      using that
      by (auto simp: status_transaction_def plain_status_def failing_def add_children_def status_hist_def Let_def res_simps
          split: if_splits prod.splits sum.splits bool.splits)
    then show ?thesis using load_or_compute_rows by blast
  qed
  obtain t where t: "status_transaction junk env sx job plain_status db = Inr t"
    using assms by (auto simp: edg_wll_JobStatusServer_def res_simps)
  show ?thesis
  proof (cases t)
    case (Inr x)
    obtain afl er st sb d where "x = (((afl, er), (st, sb)), d)" by (metis surj_pair)
    with Inr t assms have "db' = d \<or> db' = db" by (auto simp: edg_wll_JobStatusServer_def res_simps split: if_splits)
    with Inr t \<open>x = _\<close> show ?thesis using rows by auto
  qed (use t assms in \<open>simp add: edg_wll_JobStatusServer_def\<close>)
qed

lemma get_job_type_rows: "get_job_type junk env sx job db = (r, db') \<Longrightarrow> same_rows db' db"
  using plain_status_rows[of junk env sx job db] by (auto simp: get_job_type_def split: sum.splits prod.splits option.splits)

section \<open>What purging leaves\<close>

lemma delete_rows_simps [simp]:
  "d_events (delete_rows job db) = d_events db" "d_zombies (delete_rows job db) = d_zombies db" "d_prefixes (delete_rows job db) = d_prefixes db"
  "d_suffixes (delete_rows job db) = d_suffixes db" "d_connections (delete_rows job db) = d_connections db" "d_jobs (delete_rows job db) (jid_id job) = None"
  "t_acls (d_acl (delete_rows job db)) = t_acls (d_acl db)" "t_jobs (d_acl (delete_rows job db)) = (t_jobs (d_acl db))(jid_id job := None)"
  "d_jobs (delete_rows job db) = (d_jobs db)(jid_id job := None)"
  by (simp_all add: delete_rows_def Let_def)

lemma purgeall_simps [simp]:
  "d_events (edg_wll_jobsconnection_purgeall job db) = d_events db" "d_zombies (edg_wll_jobsconnection_purgeall job db) = d_zombies db"
  "d_prefixes (edg_wll_jobsconnection_purgeall job db) = d_prefixes db" "d_suffixes (edg_wll_jobsconnection_purgeall job db) = d_suffixes db"
  "d_acl (edg_wll_jobsconnection_purgeall job db) = d_acl db" "d_jobs (edg_wll_jobsconnection_purgeall job db) = d_jobs db"
  by (simp_all add: edg_wll_jobsconnection_purgeall_def)

lemma delete_event_simps [simp]:
  "d_jobs (edg_wll_delete_event u n db) = d_jobs db" "d_states (edg_wll_delete_event u n db) = d_states db" "d_tags (edg_wll_delete_event u n db) = d_tags db"
  "d_acl (edg_wll_delete_event u n db) = d_acl db" "d_connections (edg_wll_delete_event u n db) = d_connections db"
  "d_zombies (edg_wll_delete_event u n db) = d_zombies db" "d_prefixes (edg_wll_delete_event u n db) = d_prefixes db"
  "d_suffixes (edg_wll_delete_event u n db) = d_suffixes db"
  by (simp_all add: edg_wll_delete_event_def)

lemma fold_delete:
  "d_jobs (fold (\<lambda>s. edg_wll_delete_event u (se_no s)) ss db) = d_jobs db \<and> d_states (fold (\<lambda>s. edg_wll_delete_event u (se_no s)) ss db) = d_states db \<and>
   d_tags (fold (\<lambda>s. edg_wll_delete_event u (se_no s)) ss db) = d_tags db \<and> d_acl (fold (\<lambda>s. edg_wll_delete_event u (se_no s)) ss db) = d_acl db \<and>
   d_connections (fold (\<lambda>s. edg_wll_delete_event u (se_no s)) ss db) = d_connections db \<and>
   d_zombies (fold (\<lambda>s. edg_wll_delete_event u (se_no s)) ss db) = d_zombies db \<and>
   d_prefixes (fold (\<lambda>s. edg_wll_delete_event u (se_no s)) ss db) = d_prefixes db \<and>
   d_suffixes (fold (\<lambda>s. edg_wll_delete_event u (se_no s)) ss db) = d_suffixes db \<and>
   d_events (fold (\<lambda>s. edg_wll_delete_event u (se_no s)) ss db) =
     (d_events db)(u := filter (\<lambda>s. se_no s \<notin> se_no ` set ss) (d_events db u))"
  by (induction ss arbitrary: db) (auto simp: edg_wll_delete_event_def conj_commute intro!: filter_cong)

lemma delete_events_simps [simp]:
  "d_jobs (delete_events u db) = d_jobs db" "d_states (delete_events u db) = d_states db" "d_tags (delete_events u db) = d_tags db"
  "d_acl (delete_events u db) = d_acl db" "d_connections (delete_events u db) = d_connections db" "d_zombies (delete_events u db) = d_zombies db"
  "d_prefixes (delete_events u db) = d_prefixes db" "d_suffixes (delete_events u db) = d_suffixes db"
  using fold_delete[of u "d_events db u" db] by (simp_all add: delete_events_def)

lemma delete_events_all: "d_events (delete_events u db) = (d_events db)(u := [])"
  using fold_delete[of u "d_events db u" db] by (simp add: delete_events_def filter_empty_conv)

lemma index_of_place: "t \<in> set xs \<Longrightarrow> index_of t xs - 1 < length xs \<and> 1 \<le> index_of t xs \<and> xs ! (index_of t xs - 1) = t"
proof (induction xs)
  case (Cons x xs)
  then show ?case by (cases "index_of t xs") auto
qed simp

lemma number_of_place: "number_of t xs = Some (k, ys) \<Longrightarrow> 1 \<le> k \<and> k - 1 < length ys \<and> ys ! (k - 1) = t"
  using index_of_place[of t xs] by (auto simp: number_of_def split: if_splits)

lemma in_numbered: "1 \<le> k \<Longrightarrow> k - 1 < length ys \<Longrightarrow> ys ! (k - 1) = t \<Longrightarrow> (k, t) \<in> set (zip [1..<Suc (length ys)] ys)"
  by (auto simp: in_set_zip intro!: exI[of _ "k - 1"] simp del: upt_Suc)

lemma suffix_place_found:
  assumes "(l, s) \<in> set (zip [1..<Suc (length ss)] ss)" and "root \<noteq> []"
  shows "(k, root, l) \<in> set (suffix_places k ss (root @ s))"
proof -
  have "(k, root, l) \<in> set (let lendiff = int (length (root @ s)) - int (length s) in
      if lendiff > 0 \<and> drop (nat lendiff) (root @ s) = s then [(k, take (nat lendiff) (root @ s), l)] else [])"
    using assms(2) by (simp add: Let_def)
  with assms(1) show ?thesis unfolding suffix_places_def set_concat set_map by (intro UN_I[OF imageI]) (assumption, simp del: upt_Suc)
qed

lemma zombie_place_found:
  assumes "(k, p) \<in> set (zip [1..<Suc (length ps)] ps)" and "(l, s) \<in> set (zip [1..<Suc (length ss)] ss)" and "root \<noteq> []"
  shows "(k, root, l) \<in> set (zombie_places ps ss (''https://'' @ p @ root @ s))"
proof -
  let ?t = "''https://'' @ p @ root @ s"
  have "(k, root, l) \<in> set (let full = ''https://'' @ p in
      if take (length full) ?t = full then suffix_places k ss (drop (length full) ?t) else [])"
    using suffix_place_found[OF assms(2,3)] by (simp add: Let_def)
  with assms(1) show ?thesis unfolding zombie_places_def set_concat set_map by (intro UN_I[OF imageI]) (assumption, simp del: upt_Suc)
qed

text \<open>Conditions without quotes and backslashes, which mean to the database what they say.\<close>

definition quotable :: "string \<Rightarrow> bool" where
  "quotable t \<longleftrightarrow> APO \<notin> set t \<and> BS \<notin> set t"

definition selects_zombies :: "status_env \<Rightarrow> bool" where
  "selects_zombies env \<longleftrightarrow>
     (\<forall>db zs. list_all (\<lambda>(_, t, _). quotable t) zs \<longrightarrow> (\<exists>(root, k, l) \<in> set (d_zombies db). (k, root, l) \<in> set zs) \<longrightarrow>
        sv_select env db (zomb_where zs) > 0)"

lemma places_quotable: "quotable t \<Longrightarrow> list_all (\<lambda>(_, t, _). quotable t) (zombie_places ps ss t)"
  by (auto simp: zombie_places_def suffix_places_def list_all_iff quotable_def Let_def dest: in_set_takeD in_set_dropD split: if_splits)

lemma purge_rows_glite:
  assumes "get_job_type junk env sx job db = (Inr (Inr t), db1)" and "glite_like t" and "purge_rows junk env sx job stat db = Inr (None, db2)"
  obtains k ps l ss where "number_of (sql_text (glite_jobid_getServer (Some job)) @ ''/'') (d_prefixes db) = Some (k, ps)" and "number_of [] (d_suffixes db) = Some (l, ss)"
    and "d_prefixes db2 = ps" and "d_suffixes db2 = ss" and "d_jobs db2 = (d_jobs db)(jid_id job := None)" and "d_events db2 = d_events db"
    and "map_of (d_states db2) (jid_id job) = None" and "\<And>q n. d_tags db2 (jid_id job, q, n) = None"
    and "\<And>f t. f = jid_id job \<or> t = jid_id job \<Longrightarrow> d_connections db2 (f, t) = None"
    and "jid_id job \<notin> fst ` set (d_zombies db) \<Longrightarrow> (jid_id job, k, l) \<in> set (d_zombies db2)"
proof -
  have rows: "same_rows db1 db" using get_job_type_rows[OF assms(1)] .
  have "zombie_names job t = Inr (Some (jid_id job, sql_text (glite_jobid_getServer (Some job)) @ ''/'', []))"
    using assms(2) by (simp add: zombie_names_def get_jobid_suffix_def get_jobid_prefix_def)
  moreover have st: "map_of (filter (\<lambda>(k, _). k \<noteq> jid_id job) xs) (jid_id job) = None" for xs :: "(string \<times> state_row) list"
    by (induction xs) auto
  ultimately show thesis
    using assms(1,3) rows
    by (auto simp: purge_rows_def bury_def Let_def store_zombie_def same_rows_def delete_rows_def edg_wll_jobsconnection_purgeall_def job_key_def
        sql_text_def glite_jobid_getUnique_def split: option.splits prod.splits if_splits intro!: that)
qed

lemma unat_of_port: "0 \<le> sint (w :: 32 word) \<Longrightarrow> unat w = nat (sint w)"
proof -
  assume "0 \<le> sint w"
  moreover have "in_int (sint w)" by simp
  ultimately have "uint w = sint w" by (simp add: uint_sint take_bit_eq_mod in_int_def)
  then show ?thesis by (simp add: unat_eq_nat_uint)
qed

lemma store_zombie_rows: "store_zombie z db = Some db' \<Longrightarrow> d_users db' = d_users db \<and> d_acl db' = d_acl db \<and> d_jobs db' = d_jobs db \<and> d_events db' = d_events db"
  by (cases z) (auto simp: store_zombie_def split: option.splits)

lemma purge_rows_kept:
  assumes "purge_rows junk env sx job stat db = Inr (None, db2)"
  shows "d_users db2 = d_users db \<and> d_acl db2 = (d_acl db)\<lparr>t_jobs := (t_jobs (d_acl db))(jid_id job := None)\<rparr> \<and>
    d_jobs db2 = (d_jobs db)(jid_id job := None) \<and> d_events db2 = d_events db"
proof -
  obtain r db1 where ty: "get_job_type junk env sx job db = (r, db1)" by (metis surj_pair)
  have "r \<noteq> Inr (Inl None)"
    using ty by (auto simp: get_job_type_def split: sum.splits prod.splits option.splits)
  then obtain names where names: "bury job stat names db1 = (None, db2)"
    using assms ty by (auto simp: purge_rows_def res_simps split: sum.splits)
  moreover have "same_rows db1 db" using get_job_type_rows[OF ty] .
  ultimately show ?thesis
    by (cases names)
      (auto simp: bury_def Let_def same_rows_def delete_rows_def edg_wll_jobsconnection_purgeall_def dest!: store_zombie_rows split: option.splits)
qed

text \<open>A job of the server alone, purged by the server.\<close>

lemma purge_one_really:
  assumes "jobId stat = Some job" and "d_jobs db (jid_id job) = Some r" and "\<not> jr_proxy r" and "jr_server r" and "\<not> isProxy (sx_query sx)"
    and "purge_one junk env sx stat dump True False db = Inr (None, evs, db')"
  obtains db2 where "purge_rows junk env sx job stat db = Inr (None, db2)" and "db' = delete_events (jid_id job) db2"
    and "evs = (if dump then dump_events job db2 else [])"
proof -
  have "edg_wll_jobMembership (jobId stat) db = Some (False, True)"
    using assms(1-4) by (simp add: edg_wll_jobMembership_def job_key_def sql_text_def glite_jobid_getUnique_def)
  then show thesis
    using assms by (auto simp: purge_one_def membership_action_def res_simps split: if_splits intro: that)
qed


text \<open>
  Purging a job does not release its access control list: the list keeps its count although there is one job fewer that uses
  it, so that it is never deleted.
\<close>

theorem purge_leaks_acl:
  assumes "jobId stat = Some job" and "d_jobs db (jid_id job) = Some r" and "\<not> jr_proxy r" and "jr_server r" and "\<not> isProxy (sx_query sx)"
    and "purge_one junk env sx stat dump True False db = Inr (None, evs, db')" and "acl_inv md5 (d_acl db)"
    and "t_jobs (d_acl db) (jid_id job) = Some (Some a)" and "a \<noteq> []"
  shows "t_acls (d_acl db') = t_acls (d_acl db) \<and> card (users_of (d_acl db') a) < card (users_of (d_acl db) a) \<and> \<not> acl_inv md5 (d_acl db')"
proof -
  obtain db2 where rows: "purge_rows junk env sx job stat db = Inr (None, db2)" and db': "db' = delete_events (jid_id job) db2"
    using purge_one_really[OF assms(1-6)] by auto
  have acl: "d_acl db' = (d_acl db)\<lparr>t_jobs := (t_jobs (d_acl db))(jid_id job := None)\<rparr>"
    using purge_rows_kept[OF rows] by (simp add: db')
  have "finite (users_of (d_acl db) a)" using assms(7) by (rule users_finite)
  moreover have "users_of (d_acl db') a = users_of (d_acl db) a - {jid_id job}" and "jid_id job \<in> users_of (d_acl db) a"
    using assms(8) by (auto simp: users_of_def acl)
  ultimately have less: "card (users_of (d_acl db') a) < card (users_of (d_acl db) a)"
    by (metis card_Diff1_less)
  have "case t_acls (d_acl db) a of None \<Rightarrow> users_of (d_acl db) a = {} | Some (v, n) \<Rightarrow> n = card (users_of (d_acl db) a) \<and> n > 0 \<and> a = md5 v"
    using assms(7) unfolding acl_inv_def by blast
  then obtain v n where "t_acls (d_acl db) a = Some (v, n)" and "n = card (users_of (d_acl db) a)"
    using \<open>jid_id job \<in> users_of (d_acl db) a\<close> by (auto split: option.splits)
  then have "\<not> acl_inv md5 (d_acl db')"
    using less acl by (auto simp: acl_inv_def intro!: exI[of _ a])
  then show ?thesis using less by (simp add: acl)
qed

text \<open>A Condor job brings the server down when it is purged.\<close>

theorem condor_purge_fails:
  "get_job_type junk env sx job db = (Inr (Inr EDG_WLL_STAT_CONDOR), db1) \<Longrightarrow> purge_rows junk env sx job stat db = Inl Assert_fail"
  by (simp add: purge_rows_def zombie_names_def get_jobid_suffix_def glite_like_def)

text \<open>
  When the table of prefixes is full, a job with another prefix loses its rows but is not remembered, and its events stay. The numbers
  of events are wrong then: a job registered again under the same identifier starts with number zero.
\<close>

theorem full_table_loses_job:
  assumes "length (d_prefixes db) = 255" and "pre \<notin> set (d_prefixes db)" and "d_events db (jid_id job) \<noteq> []"
  shows "\<exists>db'. bury job stat (Some (root, pre, suffx)) db = (Some S_DB_CALL, db') \<and> d_jobs db' (jid_id job) = None \<and>
    d_zombies db' = d_zombies db \<and> \<not> events_inv db'"
  using assms by (auto simp: bury_def Let_def store_zombie_def number_of_def events_inv_def intro!: exI[of _ "jid_id job"])

text \<open>Otherwise purging keeps the numbers of events right.\<close>

lemma events_inv_by:
  "events_inv db \<longleftrightarrow>
     (\<forall>u. map se_no (d_events db u) = map int [0..<length (d_events db u)] \<and> distinct (map (\<lambda>s. event_key (se_userid s) (se_row s)) (d_events db u)) \<and>
          (map_option jr_nevents (d_jobs db u) = None \<longrightarrow> d_events db u = []) \<and>
          (\<forall>n. map_option jr_nevents (d_jobs db u) = Some n \<longrightarrow> n = int (length (d_events db u))))"
  by (auto simp: events_inv_def split: option.split)

lemma flag_events:
  "map_option jr_nevents (d_jobs (unset_proxy_flag job db) u) = map_option jr_nevents (d_jobs db u)" "d_events (unset_proxy_flag job db) = d_events db"
  "map_option jr_nevents (d_jobs (unset_server_flag job db) u) = map_option jr_nevents (d_jobs db u)" "d_events (unset_server_flag job db) = d_events db"
  by (cases "d_jobs db (job_key job)"; simp add: unset_proxy_flag_def unset_server_flag_def)+

lemma flags_events_inv: "events_inv (unset_proxy_flag job db) = events_inv db" "events_inv (unset_server_flag job db) = events_inv db"
  unfolding events_inv_by flag_events by simp_all

lemma purge_events_inv:
  assumes "events_inv db" and "purge_one junk env sx stat dump purge po db = Inr (None, evs, db')"
  shows "events_inv db'"
proof (cases "edg_wll_jobMembership (jobId stat) db")
  case (Some m)
  show ?thesis
  proof (cases "jobId stat")
    case (Some job)
    show ?thesis
    proof (cases "membership_action sx job purge po m db")
      case None
      with assms Some \<open>edg_wll_jobMembership _ _ = _\<close> show ?thesis by (auto simp: purge_one_def split: if_splits)
    next
      case act: (Some pd)
      obtain p db1 where pd: "pd = (p, db1)" by (cases pd)
      have inv1: "events_inv db1"
        using act pd assms(1) by (auto simp: membership_action_def Let_def flags_events_inv split: prod.splits bool.splits if_splits)
      show ?thesis
      proof (cases "p \<and> (purge \<or> dump)")
        case True
        then obtain db2 where "purge_rows junk env sx job stat db1 = Inr (None, db2)" and db': "db' = delete_events (jid_id job) db2"
          using assms(2) act pd Some \<open>edg_wll_jobMembership _ _ = _\<close> by (auto simp: purge_one_def res_simps split: if_splits)
        then have "d_jobs db2 = (d_jobs db1)(jid_id job := None) \<and> d_events db2 = d_events db1"
          using purge_rows_kept by blast
        with inv1 show ?thesis unfolding events_inv_by by (simp add: db' delete_events_all)
      next
        case False
        with assms inv1 act pd Some \<open>edg_wll_jobMembership _ _ = _\<close> show ?thesis by (auto simp: purge_one_def split: if_splits)
      qed
    qed
  qed (use assms Some in \<open>auto simp: purge_one_def split: if_splits\<close>)
qed (use assms in \<open>auto simp: purge_one_def split: if_splits\<close>)

section \<open>Example\<close>

lemma load_any: "edg_wll_LoadIntState job q db = Inr (Inr js) \<Longrightarrow> edg_wll_LoadIntState job (- 1) db = Inr (Inr js)"
  by (auto simp: edg_wll_LoadIntState_def split: option.splits if_splits)

definition ex_purger :: server_ctx where
  "ex_purger = ex_sx\<lparr>sx_authz := (sx_authz ex_sx)\<lparr>noAuth := True\<rparr>\<rparr>"

definition ex_purge_env :: status_env where
  "ex_purge_env = ex_status_env\<lparr>sv_select := (\<lambda>_ _. 1)\<rparr>"

lemma ex_states_rows: "same_rows ex_states ex_db"
  by (auto simp: ex_states_def same_rows_def edg_wll_StoreIntState_def Let_def res_simps split: sum.splits)

lemma ex_type: "get_job_type (\<lambda>_ _. (0, 0)) ex_purge_env ex_purger (ex_job_id ''mine'') ex_states = (Inr (Inr EDG_WLL_STAT_SIMPLE), ex_states)"
proof -
  have "jobtype (stored ex_sub) = EDG_WLL_STAT_SIMPLE" by (simp add: stored_def stored_pub_def ex_sub_def)
  moreover have "edg_wll_GetACL ''mine'' (d_acl ex_states) = Inr None" "d_jobs ex_states ''mine'' \<noteq> None"
    using ex_states_rows by (simp_all add: same_rows_def ex_db_def edg_wll_GetACL_def)
  ultimately show ?thesis
    using load_any[OF ex_states_load(1)]
    by (auto simp: get_job_type_def edg_wll_JobStatusServer_def status_transaction_def failing_def load_or_compute_def plain_status_def
        client_rights_def check_jobstat_authz_def ex_purger_def add_children_def with_acl_def without_classads_def ex_job_id_def Let_def)
qed

lemma ex_purge_runs:
  "\<exists>evs db'. purge_one (\<lambda>_ _. (0, 0)) ex_purge_env ex_purger (zero_JobStat\<lparr>jobId := Some (ex_job_id ''mine'')\<rparr>) True True False ex_states = Inr (None, evs, db')"
proof -
  let ?job = "ex_job_id ''mine''" and ?stat = "zero_JobStat\<lparr>jobId := Some (ex_job_id ''mine'')\<rparr>"
  have names: "zombie_names ?job EDG_WLL_STAT_SIMPLE = Inr (Some (''mine'', ''lb:90/'', []))"
    by code_simp
  have "d_prefixes ex_states = []" "d_suffixes ex_states = []"
    using ex_states_rows by (simp_all add: same_rows_def ex_db_def)
  then have "\<exists>db'. bury ?job ?stat (Some (''mine'', ''lb:90/'', [])) ex_states = (None, db')"
    by (simp add: bury_def Let_def store_zombie_def number_of_def)
  moreover have "edg_wll_jobMembership (Some ?job) ex_states = Some (False, True)"
    using ex_states_rows by (simp add: same_rows_def ex_db_def edg_wll_jobMembership_def job_key_def sql_text_def glite_jobid_getUnique_def ex_job_id_def)
  moreover have "\<not> isProxy (sx_query ex_purger)" by (simp add: ex_purger_def ex_sx_def)
  ultimately show ?thesis
    by (auto simp: purge_one_def purge_rows_def ex_type names membership_action_def)
qed


end
