(* ===== verification/LB_DbStore.thy ===== *)
theory LB_DbStore
  imports LB_Purge
begin

text \<open>
  The way of an event into the server (\<^verbatim>\<open>db_store\<close> of \<^verbatim>\<open>org.glite.lb.server/src/db_store.c\<close>): the checks, the row of the job, the event,
  the status, the access control list, the subjobs of a collection, connections between jobs, and what is sent on.
  An event comes as text; it is given here as what the generated parser reads from it, if it can read it. Job provenance is not configured, and
  handing over events and notifications does not fail.
\<close>

section \<open>Types of connected jobs\<close>

text \<open>For an unknown type an uninitialised variable is returned.\<close>

definition get_jobtype_from_connectjob :: "int \<Rightarrow> int \<Rightarrow> int" where
  "get_jobtype_from_connectjob stale t =
     (if t = 1 then EDG_WLL_STAT_SIMPLE
      else if t = 2 then EDG_WLL_STAT_DAG
      else if t = 3 then 2
      else if t = 4 then 3
      else if t = 5 then EDG_WLL_STAT_COLLECTION
      else if t = 6 then EDG_WLL_STAT_PBS
      else if t = 7 then EDG_WLL_STAT_CONDOR
      else if t = 8 then EDG_WLL_STAT_CREAM
      else if t = 9 then EDG_WLL_STAT_FILE_TRANSFER_COLLECTION
      else if t = 10 then EDG_WLL_STAT_FILE_TRANSFER
      else if t = 11 then EDG_WLL_STAT_VIRTUAL_MACHINE
      else stale)"

definition get_connectjobtype_from_jobtype :: "int \<Rightarrow> int \<Rightarrow> int" where
  "get_connectjobtype_from_jobtype stale t =
     (if t = EDG_WLL_STAT_SIMPLE then 1
      else if t = EDG_WLL_STAT_DAG then 2
      else if t = 2 then 3
      else if t = 3 then 4
      else if t = EDG_WLL_STAT_COLLECTION then 5
      else if t = EDG_WLL_STAT_PBS then 6
      else if t = EDG_WLL_STAT_CONDOR then 7
      else if t = EDG_WLL_STAT_CREAM then 8
      else if t = EDG_WLL_STAT_FILE_TRANSFER_COLLECTION then 9
      else if t = EDG_WLL_STAT_FILE_TRANSFER then 10
      else if t = EDG_WLL_STAT_VIRTUAL_MACHINE then 11
      else stale)"

section \<open>Subjobs of a collection\<close>

text \<open>
  The row of the first subjob is made from its status; for the others the unique part of the one before
  is replaced in the text.
\<close>

definition replace_unique :: "string \<Rightarrow> string \<Rightarrow> string \<Rightarrow> string res" where
  "replace_unique old new text =
     (case strstr text old of
        None \<Rightarrow> Inl Assert_fail
      | Some p \<Rightarrow> Inr (take (length text - length p) text @ take (length old) new @ drop (length old) p))"

definition states_values_embryonic :: "glite_jobid \<Rightarrow> edg_wll_Event \<Rightarrow> state_row res" where
  "states_values_embryonic job e =
     rbind (intJobStat_embryonic job e init_intJobStat) (\<lambda>stat.
     rbind (enc_intJobStat [] stat) (\<lambda>text.
     Inr \<lparr>sr_status = state stat, sr_seq = 1, sr_text = text, sr_version = INTSTAT_VERSION, sr_parent = event_unique e\<rparr>))"

text \<open>A row that is there already stays; the error is only logged.\<close>

definition edg_wll_StoreIntStateEmbryonic :: "string \<Rightarrow> state_row \<Rightarrow> lb_db \<Rightarrow> lb_db" where
  "edg_wll_StoreIntStateEmbryonic u row db =
     (if map_of (d_states db) u \<noteq> None then db else db\<lparr>d_states := d_states db @ [(u, row)]\<rparr>)"

primrec subjob_rows ::
  "server_ctx \<Rightarrow> string \<Rightarrow> bool \<times> bool \<Rightarrow> string option \<Rightarrow> state_row \<Rightarrow> glite_jobid list \<Rightarrow> lb_db \<Rightarrow> lb_db res" where
  "subjob_rows sx userid m old row [] db = Inr db"
| "subjob_rows sx userid m old row (j # js) db =
     (let db1 = store_job sx j userid (fst m) (snd m) False False db in
      rbind (case old of None \<Rightarrow> Inr (sr_text row) | Some u \<Rightarrow> replace_unique u (jid_id j) (sr_text row)) (\<lambda>text.
      let row1 = row\<lparr>sr_text := text\<rparr> in
      subjob_rows sx userid m (Some (jid_id j)) row1 js (edg_wll_StoreIntStateEmbryonic (jid_id j) row1 db1)))"

text \<open>Without a row of the parent the function goes to its end with an index that has not been set.\<close>

definition register_subjobs_embryonic :: "server_ctx \<Rightarrow> edg_wll_Event \<Rightarrow> int \<Rightarrow> cstr \<Rightarrow> lb_db \<Rightarrow> (store_error + lb_db) res" where
  "register_subjobs_embryonic sx e nsubjobs sd db =
     (if nsubjobs = 0 then Inr (Inr db)
      else if nsubjobs < 0 then Inr (Inl S_EINVAL)
      else
        case edg_wll_GenerateSubjobIds (sx_md5 sx) (any_jobId e) nsubjobs sd of
          Inl EINVAL \<Rightarrow> Inr (Inl S_EINVAL)
        | Inl ENOMEM \<Rightarrow> Inr (Inl S_ENOMEM)
        | Inr subjobs \<Rightarrow>
            rbind (states_values_embryonic (hd subjobs) e) (\<lambda>row.
            case (edg_wll_jobMembership (any_jobId e) db, d_jobs db (event_unique e)) of
              (Some m, Some r) \<Rightarrow> rbind (subjob_rows sx (jr_userid r) m None row subjobs db) (\<lambda>db1. Inr (Inr db1))
            | _ \<Rightarrow> Inl Out_of_bounds))"

section \<open>The transaction\<close>

text \<open>
  An error comes with the tables it leaves. \<open>base\<close> is what the tables go back to: those at the beginning of the transaction, or none where
  another transaction, opened inside, has made everything before it permanent.
\<close>

definition rolled_back :: "lb_db option \<Rightarrow> lb_db \<Rightarrow> lb_db" where
  "rolled_back base db = (case base of None \<Rightarrow> db | Some b \<Rightarrow> b)"

definition undoing :: "lb_db \<Rightarrow> (store_error + 'a) res \<Rightarrow> (store_error \<times> lb_db + 'a) res" where
  "undoing db m = rbind m (\<lambda>r. Inr (case r of Inl er \<Rightarrow> Inl (er, db) | Inr x \<Rightarrow> Inr x))"

text \<open>The access control list or the status changes with an event; the state of the job before and after.\<close>

definition step_event ::
  "junk \<Rightarrow> status_env \<Rightarrow> server_ctx \<Rightarrow> glite_jobid \<Rightarrow> edg_wll_Event \<Rightarrow> int \<Rightarrow> lb_db \<Rightarrow> lb_db \<Rightarrow>
   (store_error \<times> lb_db + edg_wll_JobStat \<times> edg_wll_JobStat \<times> lb_db option \<times> lb_db) res" where
  "step_event junk env sx job e seq base db =
     (case ev_body e of
        EvGlite (EvChangeACL user ut perm pt op) \<Rightarrow>
          ebind (undoing base (update_acl sx user ut perm pt op (jid_id job) db)) (\<lambda>db1. Inr (Inr (zero_JobStat, zero_JobStat, Some base, db1)))
      | _ \<Rightarrow>
          ebind (undoing base (edg_wll_StepIntState junk sx job e seq db)) (\<lambda>(old, new, db1).
          let old1 = (case old of None \<Rightarrow> zero_JobStat | Some st \<Rightarrow> st) in
          if sx_proxy_purge sx \<and> remove_from_proxy new \<noteq> 0 then
            rbind (edg_wll_PurgeServerProxy junk env sx job db1) (\<lambda>(err, db2).
            Inr (case err of Some er \<Rightarrow> Inl (er, db2) | None \<Rightarrow> Inr (old1, new, None, db2)))
          else Inr (Inr (old1, new, Some base, db1))))"

text \<open>A job that is going to halt has no active connections.\<close>

definition halt_connections :: "glite_jobid \<Rightarrow> edg_wll_JobStat \<Rightarrow> edg_wll_JobStat \<Rightarrow> lb_db \<Rightarrow> lb_db" where
  "halt_connections job old new db =
     (if state new \<noteq> state old \<and> (state new = EDG_WLL_JOB_DONE \<or> state new = EDG_WLL_JOB_ABORTED \<or> state new = EDG_WLL_JOB_CANCELLED)
      then edg_wll_jobsconnection_modifyall (Some job) JOBCONNECTION_ACTIVE JOBCONNECTION_INACTIVE db else db)"

text \<open>The owners of a payload are compared by their addresses, which are the same only for null pointers.\<close>

definition payload_rights ::
  "server_ctx \<Rightarrow> glite_jobid \<Rightarrow> edg_wll_Event \<Rightarrow> edg_wll_JobStat \<Rightarrow> edg_wll_JobStat \<Rightarrow> lb_db option \<Rightarrow> lb_db \<Rightarrow> (store_error \<times> lb_db + lb_db) res" where
  "payload_rights sx job e old new base db =
     (if (case ev_body e of EvGlite EvTakePayloadOwnership \<Rightarrow> True | EvGlite (EvGrantPayloadOwnership _) \<Rightarrow> True | _ \<Rightarrow> False) \<and>
         (payload_owner old \<noteq> None \<or> payload_owner new \<noteq> None)
      then undoing (rolled_back base (halt_connections job old new db)) (update_acl sx (payload_owner new) 0 2 0 0 (jid_id job) db)
      else Inr (Inr db))"

definition register_subjobs :: "server_ctx \<Rightarrow> edg_wll_Event \<Rightarrow> lb_db option \<Rightarrow> lb_db \<Rightarrow> (store_error \<times> lb_db + lb_db) res" where
  "register_subjobs sx e base db =
     (case ev_body e of
        EvGlite (EvRegJob _ _ _ t n sd _) \<Rightarrow>
          if (t = EDG_WLL_REGJOB_DAG \<or> t = EDG_WLL_REGJOB_PARTITIONED \<or> t = EDG_WLL_REGJOB_COLLECTION \<or> t = EDG_WLL_REGJOB_FILE_TRANSFER_COLLECTION) \<and> n > 0
          then undoing (rolled_back base db) (register_subjobs_embryonic sx e n sd db)
          else Inr (Inr db)
      | _ \<Rightarrow> Inr (Inr db))"

text \<open>An event the server logs for the other one of two connected jobs, in the way of any event.\<close>

definition connection_event :: "server_ctx \<Rightarrow> glite_jobid \<Rightarrow> string \<Rightarrow> glite_event \<Rightarrow> edg_wll_Event" where
  "connection_event sx from seqcode body =
     \<lparr>any_timestamp = sx_now sx, any_arrived = null_timeval, any_host = None, any_level = 0,
      any_priority = LOGFLAG_INTERNAL, any_jobId = Some from, any_seqcode = seqcode,
      any_user = Some (case sx_identity sx of None \<Rightarrow> ''LBProxy'' | Some i \<Rightarrow> i), any_source = SOURCE_LB_SERVER,
      any_src_instance = None, ev_body = EvGlite body\<rparr>"

type_synonym store_call = "edg_wll_Event option \<Rightarrow> lb_db \<Rightarrow> (store_error option \<times> lb_db) res"

definition log_connectjob_event ::
  "store_call \<Rightarrow> int \<Rightarrow> server_ctx \<Rightarrow> glite_jobid \<Rightarrow> glite_jobid \<Rightarrow> int \<Rightarrow> lb_db \<Rightarrow> (store_error option \<times> lb_db) res" where
  "log_connectjob_event again stale sx from to t db =
     rbind (edg_wll_GetSequenceCode (d_seq db)) (\<lambda>(code, c).
     rbind (deref code) (\<lambda>seqcode.
     again (sx_reread sx (connection_event sx from seqcode
       (EvConnectJob (glite_jobid_unparse (Some to)) (get_connectjobtype_from_jobtype stale t)))) (db\<lparr>d_seq := c\<rparr>)))"

definition log_disconnectjob_event ::
  "store_call \<Rightarrow> server_ctx \<Rightarrow> glite_jobid \<Rightarrow> glite_jobid \<Rightarrow> lb_db \<Rightarrow> (store_error option \<times> lb_db) res" where
  "log_disconnectjob_event again sx from to db =
     rbind (edg_wll_GetSequenceCode (d_seq db)) (\<lambda>(code, c).
     rbind (deref code) (\<lambda>seqcode.
     again (sx_reread sx (connection_event sx from seqcode (EvDisconnectJob (glite_jobid_unparse (Some to))))) (db\<lparr>d_seq := c\<rparr>)))"

text \<open>
  Connections. A bad identifier of the other job ends the function before the end of the transaction: the tables stay as they are, until
  the next transaction makes them permanent. An error of the event logged for the other job is found at the end.
\<close>

definition connect_jobs ::
  "store_call \<Rightarrow> int \<Rightarrow> server_ctx \<Rightarrow> glite_jobid \<Rightarrow> edg_wll_Event \<Rightarrow> edg_wll_JobStat \<Rightarrow> lb_db \<Rightarrow>
   (store_error \<times> lb_db + store_error option \<times> lb_db) res" where
  "connect_jobs again stale sx job e new db =
     (case ev_body e of
        EvGlite (EvConnectJob dest t) \<Rightarrow>
          rbind (deref dest) (\<lambda>d.
          case glite_jobid_parse d of
            Inl _ \<Rightarrow> Inr (Inl (S_JOBID_FORMAT, db))
          | Inr other \<Rightarrow>
              let db1 = edg_wll_jobsconnection_create (Some job) (Some other) (get_jobtype_from_connectjob stale t) JOBCONNECTION_ACTIVE db in
              if any_source e \<noteq> SOURCE_LB_SERVER
              then rbind (log_connectjob_event again stale sx other job (jobtype new) db1) (\<lambda>r. Inr (Inr r))
              else Inr (Inr (None, db1)))
      | EvGlite (EvDisconnectJob dest) \<Rightarrow>
          rbind (deref dest) (\<lambda>d.
          case glite_jobid_parse d of
            Inl _ \<Rightarrow> Inr (Inl (S_JOBID_FORMAT, db))
          | Inr other \<Rightarrow>
              let db1 = edg_wll_jobsconnection_modify (Some job) (Some other) JOBCONNECTION_CANCELLED db in
              if any_source e \<noteq> SOURCE_LB_SERVER
              then rbind (log_disconnectjob_event again sx other job db1) (\<lambda>r. Inr (Inr r))
              else Inr (Inr (None, db1)))
      | _ \<Rightarrow> Inr (Inr (None, db)))"

text \<open>What follows the storing of an event.\<close>

definition event_effects ::
  "store_call \<Rightarrow> int \<Rightarrow> junk \<Rightarrow> status_env \<Rightarrow> server_ctx \<Rightarrow> glite_jobid \<Rightarrow> edg_wll_Event \<Rightarrow> int \<Rightarrow> lb_db \<Rightarrow> lb_db \<Rightarrow>
   (store_error \<times> lb_db + edg_wll_JobStat \<times> edg_wll_JobStat \<times> lb_db) res" where
  "event_effects again stale junk env sx job e seq base db =
     ebind (step_event junk env sx job e seq base db) (\<lambda>(old, new, base1, db1).
     ebind (payload_rights sx job e old new base1 db1) (\<lambda>db2.
     ebind (register_subjobs sx e base1 db2) (\<lambda>db3.
     ebind (connect_jobs again stale sx job e new db3) (\<lambda>(err, db4).
     let db5 = halt_connections job old new db4 in
     Inr (case err of Some er \<Rightarrow> Inl (er, db5) | None \<Rightarrow> Inr (old, new, db5))))))"

text \<open>An event that has been stored before is accepted again, without effects.\<close>

definition store_transaction ::
  "store_call \<Rightarrow> int \<Rightarrow> junk \<Rightarrow> status_env \<Rightarrow> server_ctx \<Rightarrow> edg_wll_Event \<Rightarrow> lb_db \<Rightarrow>
   (store_error \<times> lb_db + edg_wll_JobStat \<times> edg_wll_JobStat \<times> lb_db) res" where
  "store_transaction again stale junk env sx ev db =
     ebind (undoing db (store_job_server_proxy sx ev db)) (\<lambda>(_, db1).
     if isProxy (sx_query sx) \<and> is_job_local sx (any_jobId ev) \<and> has_flag LOGFLAG_DIRECT (any_priority ev)
     then Inr (Inr (zero_JobStat, zero_JobStat, db1))
     else
       rbind (edg_wll_StoreEvent sx ev (Some ev) db1) (\<lambda>r. case r of
         Inl er \<Rightarrow> Inr (if er = S_EEXIST then Inr (zero_JobStat, zero_JobStat, db1) else Inl (er, db))
       | Inr (seq, e, db2) \<Rightarrow>
           rbind (deref (any_jobId e)) (\<lambda>job. event_effects again stale junk env sx job e seq db db2)))"

section \<open>After the transaction\<close>

definition forward_event_to_server :: "server_ctx \<Rightarrow> edg_wll_Event \<Rightarrow> lb_db \<Rightarrow> lb_db" where
  "forward_event_to_server sx ev db =
     (if isProxy (sx_query sx) \<and> \<not> has_flag LOGFLAG_DIRECT (any_priority ev) \<and> \<not> has_flag LOGFLAG_INTERNAL (any_priority ev) \<and>
         \<not> is_job_local sx (any_jobId ev)
      then db\<lparr>d_sent := d_sent db @ [ev]\<rparr> else db)"

definition db_store_finalize :: "server_ctx \<Rightarrow> edg_wll_Event \<Rightarrow> edg_wll_JobStat \<Rightarrow> edg_wll_JobStat \<Rightarrow> lb_db \<Rightarrow> lb_db" where
  "db_store_finalize sx ev old new db =
     (let db1 = forward_event_to_server sx ev db in
      if state new \<noteq> EDG_WLL_JOB_UNDEF \<and>
         (\<not> isProxy (sx_query sx) \<or> has_flag LOGFLAG_DIRECT (any_priority ev) \<or> is_job_local sx (any_jobId ev))
      then db1\<lparr>d_notified := d_notified db1 @ [(Some old, new)]\<rparr> else db1)"

definition db_store_run :: "store_call \<Rightarrow> int \<Rightarrow> junk \<Rightarrow> status_env \<Rightarrow> server_ctx \<Rightarrow> store_call" where
  "db_store_run again stale junk env sx event db =
     (case event of
        None \<Rightarrow> Inr (Some S_PARSE, db)
      | Some ev \<Rightarrow>
          if \<not> isProxy (sx_query sx) \<and> \<not> check_store_authz (sx_authz sx) (sx_lcas sx) (sx_policy_file sx) (ev_body ev)
          then Inr (Some S_EPERM, db)
          else
            rbind (store_transaction again stale junk env sx ev db) (\<lambda>r.
            Inr (case r of Inl (er, db1) \<Rightarrow> (Some er, db1) | Inr (old, new, db1) \<Rightarrow> (None, db_store_finalize sx ev old new db1))))"

text \<open>
  The events logged for connected jobs are stored by the function itself. They come from the server, so that
  they log nothing more: one level is enough.
\<close>

primrec db_store_depth :: "nat \<Rightarrow> int \<Rightarrow> junk \<Rightarrow> status_env \<Rightarrow> server_ctx \<Rightarrow> store_call" where
  "db_store_depth 0 stale junk env sx = db_store_run (\<lambda>_ _. Inl Diverges) stale junk env sx"
| "db_store_depth (Suc n) stale junk env sx = db_store_run (db_store_depth n stale junk env sx) stale junk env sx"

definition db_store :: "int \<Rightarrow> junk \<Rightarrow> status_env \<Rightarrow> server_ctx \<Rightarrow> store_call" where
  "db_store = db_store_depth 1"

section \<open>Depth\<close>

lemma undoing_eq [simp]:
  "undoing db m = Inr (Inl x) \<longleftrightarrow> (\<exists>er. m = Inr (Inl er) \<and> x = (er, db))" "undoing db m = Inr (Inr y) \<longleftrightarrow> m = Inr (Inr y)"
  "undoing db m = Inl flt \<longleftrightarrow> m = Inl flt"
  by (auto simp: undoing_def rbind_def split: sum.splits)

lemma ebind_error: "ebind m f = Inr (Inl x) \<longleftrightarrow> m = Inr (Inl x) \<or> (\<exists>y. m = Inr (Inr y) \<and> f y = Inr (Inl x))"
  by (auto simp: ebind_def rbind_def split: sum.splits)

lemma lowercase_source:
  assumes "lowercase_usertag e0 = Inr e"
  shows "any_source e = any_source e0 \<and> any_jobId e = any_jobId e0"
  using assms by (rule lowercase_cases) simp_all

lemma store_event_lowered: "edg_wll_StoreEvent sx e0 ulm db = Inr (Inr (n, e, db')) \<Longrightarrow> lowercase_usertag e0 = Inr e"
  by (auto simp: edg_wll_StoreEvent_def Let_def res_simps split: if_splits)

text \<open>The calls for another job are for events from the server.\<close>

definition alike :: "server_ctx \<Rightarrow> store_call \<Rightarrow> store_call \<Rightarrow> bool" where
  "alike sx a b \<longleftrightarrow> (\<forall>e db. any_source e = SOURCE_LB_SERVER \<longrightarrow> a (sx_reread sx e) db = b (sx_reread sx e) db)"

lemma connect_alike:
  assumes "alike sx a b \<or> any_source e = SOURCE_LB_SERVER"
  shows "connect_jobs a stale sx job e new db = connect_jobs b stale sx job e new db"
  using assms
proof
  assume "alike sx a b"
  then have "a (sx_reread sx (connection_event sx j s body)) d = b (sx_reread sx (connection_event sx j s body)) d" for j s body d
    by (simp add: alike_def connection_event_def)
  then have eqs: "log_connectjob_event a stale sx = log_connectjob_event b stale sx" "log_disconnectjob_event a sx = log_disconnectjob_event b sx"
    by (intro ext; simp add: log_connectjob_event_def log_disconnectjob_event_def)+
  show ?thesis unfolding connect_jobs_def eqs ..
next
  assume "any_source e = SOURCE_LB_SERVER"
  then have never: "(any_source e \<noteq> SOURCE_LB_SERVER) = False" by simp
  show ?thesis unfolding connect_jobs_def never if_False ..
qed

lemma run_alike:
  assumes "alike sx a b \<or> (\<forall>e. event = Some e \<longrightarrow> any_source e = SOURCE_LB_SERVER)"
  shows "db_store_run a stale junk env sx event db = db_store_run b stale junk env sx event db"
proof (cases event)
  case (Some ev)
  have "event_effects a stale junk env sx job e seq base d = event_effects b stale junk env sx job e seq base d"
    if "lowercase_usertag ev = Inr e" for job e seq base d
    using assms Some lowercase_source[OF that] by (simp add: event_effects_def connect_alike[of sx a b e])
  then have "store_transaction a stale junk env sx ev db = store_transaction b stale junk env sx ev db"
    by (auto simp: store_transaction_def rbind_def ebind_def split: sum.split dest!: store_event_lowered)
  with Some show ?thesis by (simp add: db_store_run_def)
qed (simp add: db_store_run_def)

text \<open>One level of events logged by the server is all there is, if reading a printed event gives the same source.\<close>

theorem one_level_is_enough:
  assumes "\<And>e f. sx_reread sx e = Some f \<Longrightarrow> any_source f = any_source e"
  shows "db_store_depth (Suc n) stale junk env sx = db_store stale junk env sx"
proof (cases n)
  case (Suc m)
  have "alike sx (db_store_depth n stale junk env sx) (db_store_depth 0 stale junk env sx)"
    unfolding alike_def Suc db_store_depth.simps
  proof (intro allI impI run_alike disjI2)
    fix e f
    assume "any_source e = SOURCE_LB_SERVER" and "sx_reread sx e = Some f"
    then show "any_source f = SOURCE_LB_SERVER" using assms by simp
  qed
  then show ?thesis unfolding db_store_def One_nat_def by (intro ext) (simp add: run_alike)
qed (simp add: db_store_def)

lemma connection_types:
  assumes "0 \<le> t" and "t \<le> 10"
  shows "get_jobtype_from_connectjob s (get_connectjobtype_from_jobtype s' t) = t"
proof -
  have "t \<in> {0, 1, 2, 3, 4, 5, 6, 7, 8, 9, 10}" using assms by (simp; presburger)
  then show ?thesis by (auto simp: get_jobtype_from_connectjob_def get_connectjobtype_from_jobtype_def)
qed

section \<open>All or nothing\<close>

definition connects :: "edg_wll_Event \<Rightarrow> bool" where
  "connects e \<longleftrightarrow> (case ev_body e of EvGlite (EvConnectJob _ _) \<Rightarrow> True | EvGlite (EvDisconnectJob _) \<Rightarrow> True | _ \<Rightarrow> False)"

lemma lowercase_connects:
  assumes "lowercase_usertag e0 = Inr e"
  shows "connects e = connects e0"
  using assms by (rule lowercase_cases) (simp_all add: connects_def)

lemma connects_nothing: "\<not> connects e \<Longrightarrow> connect_jobs again stale sx job e new db = Inr (Inr (None, db))"
  by (simp add: connects_def connect_jobs_def split: event_body.splits glite_event.splits)

lemma step_event_base:
  assumes "\<not> sx_proxy_purge sx"
  shows "step_event junk env sx job e seq base db = Inr (Inl (er, d)) \<Longrightarrow> d = base"
    and "step_event junk env sx job e seq base db = Inr (Inr (old, new, b, d)) \<Longrightarrow> b = Some base"
  using assms by (auto simp: step_event_def ebind_eq_Inr ebind_error Let_def split: if_splits event_body.splits glite_event.splits)

lemma transaction_cases:
  assumes "store_transaction again stale junk env sx ev db = Inr r"
  obtains (failed) er where "r = Inl (er, db)"
  | (kept) jp db1 where "store_job_server_proxy sx ev db = Inr (Inr (jp, db1))" and "r = Inr (zero_JobStat, zero_JobStat, db1)"
  | (effects) jp db1 seq e db2 job where "store_job_server_proxy sx ev db = Inr (Inr (jp, db1))"
    and "edg_wll_StoreEvent sx ev (Some ev) db1 = Inr (Inr (seq, e, db2))" and "event_effects again stale junk env sx job e seq db db2 = Inr r"
proof (cases "store_job_server_proxy sx ev db")
  case (Inr s)
  show thesis
  proof (cases s)
    case (Inl er)
    with Inr assms show thesis by (intro failed[of er]) (simp add: store_transaction_def undoing_def)
  next
    case ok: (Inr x)
    obtain jp db1 where x: "x = (jp, db1)" by (cases x)
    show thesis
    proof (cases "isProxy (sx_query sx) \<and> is_job_local sx (any_jobId ev) \<and> has_flag LOGFLAG_DIRECT (any_priority ev)")
      case True
      with Inr ok x assms show thesis by (intro kept[of jp db1]) (simp_all add: store_transaction_def undoing_def)
    next
      case False
      then have run: "rbind (edg_wll_StoreEvent sx ev (Some ev) db1) (\<lambda>r. case r of
          Inl er \<Rightarrow> Inr (if er = S_EEXIST then Inr (zero_JobStat, zero_JobStat, db1) else Inl (er, db))
        | Inr (seq, e, db2) \<Rightarrow> rbind (deref (any_jobId e)) (\<lambda>job. event_effects again stale junk env sx job e seq db db2)) = Inr r"
        using assms Inr ok x unfolding store_transaction_def undoing_def by (simp only: ebind_simps rbind_Inr sum.case prod.case if_not_P[OF False] if_False)
      then obtain y where y: "edg_wll_StoreEvent sx ev (Some ev) db1 = Inr y" by (auto simp: rbind_eq_Inr)
      show thesis
      proof (cases y)
        case (Inl er)
        with run y Inr ok x show thesis by (cases "er = S_EEXIST") (auto intro: kept failed)
      next
        case st: (Inr z)
        obtain seq e db2 where z: "z = (seq, e, db2)" by (metis surj_pair)
        with run y st obtain job where "event_effects again stale junk env sx job e seq db db2 = Inr r" by (auto simp: rbind_eq_Inr)
        then show thesis using effects[of jp db1 seq e db2 job] Inr ok x y st z by simp
      qed
    qed
  qed
qed (use assms in \<open>simp add: store_transaction_def undoing_def\<close>)

lemma run_cases:
  assumes "db_store_run again stale junk env sx (Some ev) db = Inr (err, db')"
  obtains (refused) "err = Some S_EPERM" and "db' = db"
  | (failed) er where "store_transaction again stale junk env sx ev db = Inr (Inl (er, db'))" and "err = Some er"
  | (stored) old new d where "store_transaction again stale junk env sx ev db = Inr (Inr (old, new, d))" and "err = None"
    and "db' = db_store_finalize sx ev old new d"
proof (cases "\<not> isProxy (sx_query sx) \<and> \<not> check_store_authz (sx_authz sx) (sx_lcas sx) (sx_policy_file sx) (ev_body ev)")
  case True
  with assms show thesis by (intro refused) (simp_all add: db_store_run_def)
next
  case False
  with assms obtain r where r: "store_transaction again stale junk env sx ev db = Inr r"
    and out: "(case r of Inl (er, db1) \<Rightarrow> (Some er, db1) | Inr (old, new, db1) \<Rightarrow> (None, db_store_finalize sx ev old new db1)) = (err, db')"
    by (auto simp: db_store_run_def rbind_eq_Inr split: if_splits)
  show thesis
  proof (cases r)
    case (Inl x)
    with r out show thesis by (cases x) (auto intro: failed)
  next
    case (Inr y)
    with r out show thesis by (cases y) (auto intro: stored)
  qed
qed

lemma effects_base:
  assumes "\<not> sx_proxy_purge sx" and "\<not> connects e" and "event_effects again stale junk env sx job e seq base db = Inr (Inl (er, d))"
  shows "d = base"
proof (cases "step_event junk env sx job e seq base db")
  case (Inr s)
  show ?thesis
  proof (cases s)
    case (Inl x)
    obtain er' d' where x: "x = (er', d')" by (cases x)
    with assms(3) Inr Inl have "d = d'" by (simp add: event_effects_def)
    with step_event_base(1)[OF assms(1)] Inr Inl x show ?thesis by metis
  next
    case ok: (Inr y)
    obtain old new b db1 where y: "y = (old, new, b, db1)" by (metis surj_pair)
    have "b = Some base" using step_event_base(2)[OF assms(1)] Inr ok y by metis
    then show ?thesis
      using assms(2,3) Inr ok y
      by (auto simp: event_effects_def ebind_error connects_nothing payload_rights_def register_subjobs_def rolled_back_def Let_def
          split: if_splits event_body.splits glite_event.splits)
  qed
qed (use assms in \<open>simp add: event_effects_def\<close>)


text \<open>
  An event that connects its job with one whose identifier cannot be read is refused, but stays in the
  tables: the function returns inside of its transaction, and the next request makes permanent what is there.
\<close>

theorem bad_destination_keeps_event:
  assumes "ev_body ev = EvGlite (EvConnectJob (Some d) t)" and "glite_jobid_parse d = Inl x" and "any_jobId ev = Some job"
    and "isProxy (sx_query sx) \<or> check_store_authz (sx_authz sx) (sx_lcas sx) (sx_policy_file sx) (ev_body ev)"
    and "\<not> (isProxy (sx_query sx) \<and> is_job_local sx (any_jobId ev) \<and> has_flag LOGFLAG_DIRECT (any_priority ev))"
    and "store_job_server_proxy sx ev db = Inr (Inr (jp, db1))" and "edg_wll_StoreEvent sx ev (Some ev) db1 = Inr (Inr (seq, e, db2))"
    and "edg_wll_StepIntState junk sx job ev seq db2 = Inr (Inr (old, new, db3))" and "\<not> sx_proxy_purge sx"
  shows "db_store stale junk env sx (Some ev) db = Inr (Some S_JOBID_FORMAT, db3)"
proof -
  have "lowercase_usertag ev = Inr ev" using assms(1) by (simp add: lowercase_usertag_def)
  with store_event_lowered[OF assms(7)] have e: "e = ev" by simp
  show ?thesis
    using assms
    by (auto simp: db_store_def db_store_run_def store_transaction_def undoing_def e event_effects_def step_event_def payload_rights_def
        register_subjobs_def connect_jobs_def Let_def)
qed

section \<open>No event is lost\<close>

text \<open>What requests do to the events: those of every job stay, in their order, others come behind them, and the numbers stay right.\<close>

definition logged :: "lb_db \<Rightarrow> lb_db \<Rightarrow> bool" where
  "logged a b \<longleftrightarrow> (\<forall>u. \<exists>xs. d_events b u = d_events a u @ xs) \<and> (events_inv a \<longrightarrow> events_inv b)"

lemma logged_refl [simp]: "logged a a"
  by (simp add: logged_def)

lemma logged_trans [trans]: "logged a b \<Longrightarrow> logged b c \<Longrightarrow> logged a c"
  unfolding logged_def by (metis append.assoc)

lemma logged_frame:
  assumes "d_events b = d_events a" and "\<And>u. map_option jr_nevents (d_jobs b u) = map_option jr_nevents (d_jobs a u)"
  shows "logged a b"
  unfolding logged_def events_inv_by assms by simp

lemma logged_rows: "same_rows b a \<Longrightarrow> logged a b"
  by (rule logged_frame) (simp_all add: same_rows_def)

lemma logged_fields [simp]:
  "logged db (db\<lparr>d_seq := c\<rparr>)" "logged db (db\<lparr>d_notified := n\<rparr>)" "logged db (db\<lparr>d_sent := s\<rparr>)" "logged db (db\<lparr>d_acl := a\<rparr>)" "logged db (db\<lparr>d_states := st\<rparr>)"
  "logged db (db\<lparr>d_connections := cn\<rparr>)" "logged db (db\<lparr>d_changes := ch\<rparr>)" "logged db (db\<lparr>d_users := us\<rparr>)" "logged db (db\<lparr>d_counters := co\<rparr>)"
  by (rule logged_frame; simp)+

lemma store_event_logged:
  assumes "authenticated sx" and "edg_wll_StoreEvent sx e0 ulm db = Inr (Inr (n, e, db'))"
  shows "logged db db'"
  using assms
proof (rule store_event_cases)
  fix r
  assume "d_jobs db (event_unique e) = Some r" and "db' = with_event sx e ulm r db"
    and "\<not> list_ex (same_event (jr_userid r) e) (d_events db (event_unique e))"
  then show ?thesis using with_event_inv[of db e r sx ulm] by (simp add: logged_def) (simp add: with_event_def Let_def)
qed

lemma store_job_logged: "logged db (store_job sx job userid p s g upd db)"
proof (cases "d_jobs db (jid_id job)")
  case None
  have "events_inv (store_job sx job userid p s g upd db)" if "events_inv db"
    using that None events_inv_job(3)[OF that None] unfolding events_inv_by by (simp add: store_job_def Let_def)
  with None show ?thesis by (simp add: logged_def) (simp add: store_job_def Let_def)
qed (simp add: logged_frame store_job_def Let_def)

lemma update_acl_logged: "update_acl sx user ut p pt op u db = Inr (Inr db') \<Longrightarrow> logged db db'"
  by (auto simp: update_acl_def split: option.splits sum.splits prod.splits)

lemma grant_read_logged: "grant_read sx u ns db = Inr (Inr db') \<Longrightarrow> logged db db'"
  by (induction ns arbitrary: db) (auto simp: ebind_eq_Inr dest: update_acl_logged intro: logged_trans)

lemma store_user_logged: "logged db (store_user i s db)"
  by (simp add: store_user_def)

lemma new_user_job_logged: "logged db (store_job sx job userid p s g upd (store_user i subj db))"
  using store_user_logged store_job_logged by (rule logged_trans)

lemma flags_logged: "d_jobs db u = Some r \<Longrightarrow> logged db (db\<lparr>d_jobs := (d_jobs db)(u \<mapsto> r\<lparr>jr_server := True, jr_proxy := True\<rparr>)\<rparr>)"
  by (rule logged_frame) simp_all

lemma store_job_server_proxy_logged:
  assumes "store_job_server_proxy sx ev db = Inr (Inr (jp, db'))"
  shows "logged db db'"
proof -
  obtain job where "any_jobId ev = Some job"
    using assms by (cases "any_jobId ev") (auto simp: store_job_server_proxy_def deref_def split: if_splits)
  show ?thesis
  proof (cases "d_jobs db (jid_id job)")
    case None
    with assms \<open>any_jobId ev = Some job\<close> have "store_new_job sx job ev db = Inr (Inr (jp, db'))"
      by (simp add: store_job_server_proxy_def split: if_splits)
    then obtain g a subj where "grant_read sx (jid_id job) (wms_names ev)
        (store_job sx job (user_id sx subj) (isProxy (sx_query sx)) (is_job_local sx (Some job)) (g \<or> a) False (store_user (user_id sx subj) subj db)) = Inr (Inr db')"
      by (auto simp: store_new_job_def Let_def rbind_eq_Inr ebind_eq_Inr split: sum.splits prod.splits)
    then show ?thesis by (rule logged_trans[OF new_user_job_logged grant_read_logged])
  next
    case (Some r)
    with assms \<open>any_jobId ev = Some job\<close> have "store_known_job sx job r ev db = Inr (Inr (jp, db'))"
      by (simp add: store_job_server_proxy_def split: if_splits)
    then show ?thesis
      using flags_logged[OF Some] new_user_job_logged by (auto simp: store_known_job_def Let_def rbind_eq_Inr split: if_splits)
  qed
qed

lemma store_state_rows: "edg_wll_StoreIntState js seq db = Inr db' \<Longrightarrow> same_rows db' db"
  by (auto simp: edg_wll_StoreIntState_def Let_def rbind_eq_Inr same_rows_def)

lemma histogram_rows: "edg_wll_StoreSubjobHistogram p ijs db = Inr db' \<Longrightarrow> same_rows db' db"
  by (auto simp: edg_wll_StoreSubjobHistogram_def Let_def rbind_eq_Inr same_rows_def split: option.splits)

lemma counted_logged: "logged db (count_up c (db\<lparr>d_changes := ch\<rparr>))"
  by (rule logged_frame) (simp_all add: count_up_def split: option.split)

text \<open>A status that is stored and counted.\<close>

lemma status_logged: "edg_wll_StoreIntState js seq db = Inr db1 \<Longrightarrow> logged db (count_up c (db1\<lparr>d_changes := ch\<rparr>))"
  by (rule logged_trans[OF logged_rows[OF store_state_rows] counted_logged])

lemma parent_store_logged:
  assumes "authenticated sx" and "db_parent_store junk sx ev is db = Inr (Inr db')"
  shows "logged db db'"
proof -
  obtain seq e db1 old new db2 where st: "edg_wll_StoreEvent sx ev None db = Inr (Inr (seq, e, db1))"
    and step: "edg_wll_StepIntStateParent junk e seq is db1 = Inr (Inr (old, new, db2))"
    and out: "db' = db2 \<or> db' = db2\<lparr>d_notified := d_notified db2 @ [(Some old, new)]\<rparr>"
    using assms(2) by (auto simp: db_parent_store_def rbind_eq_Inr ebind_eq_Inr split: if_splits)
  have "logged db1 db2"
    using step by (auto simp: edg_wll_StepIntStateParent_def rbind_eq_Inr split: if_splits prod.splits intro: status_logged)
  also have "logged db2 db'" using out by auto
  finally show ?thesis using store_event_logged[OF assms(1) st] by (rule logged_trans[rotated])
qed

lemma update_parent_logged:
  assumes "authenticated sx" and "update_parent_status junk sx old cis ce db = Inr (Inr db')"
  shows "logged db db'"
proof (cases "subjob_class old = subjob_class cis")
  case False
  then obtain pis db1 where hist: "edg_wll_StoreSubjobHistogram (parent_job cis) pis db = Inr db1"
    and out: "db' = db1 \<or> (\<exists>st. log_collectionState_event junk sx st EDG_WLL_STAT_OK cis pis ce db1 = Inr (Inr db'))"
    using assms(2) by (auto simp: update_parent_status_def Let_def rbind_eq_Inr ebind_eq_Inr split: if_splits)
  have "logged db1 db'"
    using out
  proof
    assume "\<exists>st. log_collectionState_event junk sx st EDG_WLL_STAT_OK cis pis ce db1 = Inr (Inr db')"
    then obtain ev c where "db_parent_store junk sx ev pis (db1\<lparr>d_seq := c\<rparr>) = Inr (Inr db')"
      by (auto simp: log_collectionState_event_def rbind_eq_Inr)
    then show ?thesis by (rule logged_trans[OF logged_fields(1) parent_store_logged[OF assms(1)]])
  qed simp
  with logged_rows[OF histogram_rows[OF hist]] show ?thesis by (rule logged_trans)
qed (use assms in \<open>simp add: update_parent_status_def Let_def\<close>)

lemma step_logged:
  assumes "authenticated sx" and "edg_wll_StepIntState junk sx job e seq db = Inr (Inr (old, new, db'))"
  shows "logged db db'"
proof -
  obtain s where load: "edg_wll_LoadIntState (Some job) (seq - 1) db = Inr s"
    using assms(2) by (auto simp: edg_wll_StepIntState_def rbind_eq_Inr)
  show ?thesis
  proof (cases s)
    case (Inl er)
    then obtain js db1 where "edg_wll_intJobStatus junk sx job True True db = Inr (Inr (js, db1))"
      and "db' = db1\<lparr>d_changes := d_changes db1 @ [(None, intJobStat_to_JobStat js)]\<rparr>"
      using assms(2) load by (auto simp: edg_wll_StepIntState_def ebind_eq_Inr Let_def)
    with logged_trans[OF logged_rows[OF intJobStatus_rows] logged_fields(7)] show ?thesis by blast
  next
    case (Inr ijs)
    then obtain r js where pe: "processEvent junk False e ijs = Inr (r, js)" using assms(2) load by (auto simp: edg_wll_StepIntState_def rbind_eq_Inr)
    then obtain db1 where st: "edg_wll_StoreIntState js seq db = Inr db1"
      using assms(2) load Inr by (auto simp: edg_wll_StepIntState_def rbind_eq_Inr split: if_splits)
    let ?db2 = "count_up (Some STATS_JOB_EVENTS) (db1\<lparr>d_changes := d_changes db1 @ [(Some (intJobStat_to_JobStat ijs), intJobStat_to_JobStat js)]\<rparr>)"
    have "db' = ?db2 \<or> update_parent_status junk sx (intJobStat_to_JobStat ijs) js e ?db2 = Inr (Inr db')"
      using assms(2) load Inr pe st
      by (cases "update_parent_status junk sx (intJobStat_to_JobStat ijs) js e ?db2")
        (auto simp: edg_wll_StepIntState_def Let_def split: if_splits sum.splits)
    then have "logged ?db2 db'" using update_parent_logged[OF assms(1)] by auto
    with status_logged[OF st] show ?thesis by (rule logged_trans)
  qed
qed

lemma connection_logged [simp]:
  "logged db (edg_wll_jobsconnection_create f t ty c db)" "logged db (edg_wll_jobsconnection_modify f t c db)"
  "logged db (edg_wll_jobsconnection_modifyall j c1 c2 db)" "logged db (halt_connections job old new db)"
  by (simp_all add: edg_wll_jobsconnection_create_def edg_wll_jobsconnection_modify_def edg_wll_jobsconnection_modifyall_def halt_connections_def)

lemma finalize_logged: "logged db (db_store_finalize sx ev old new db)"
  by (rule logged_frame) (simp_all add: db_store_finalize_def forward_event_to_server_def Let_def)

lemma subjob_rows_logged: "subjob_rows sx i m old row js db = Inr db' \<Longrightarrow> logged db db'"
proof (induction js arbitrary: old row db)
  case (Cons j js)
  then obtain old1 row1 where rest: "subjob_rows sx i m old1 row1 js
      (edg_wll_StoreIntStateEmbryonic (jid_id j) row1 (store_job sx j i (fst m) (snd m) False False db)) = Inr db'"
    by (auto simp: Let_def rbind_eq_Inr)
  have "logged db (edg_wll_StoreIntStateEmbryonic (jid_id j) row1 (store_job sx j i (fst m) (snd m) False False db))"
    using logged_trans[OF store_job_logged logged_fields(5)] store_job_logged by (simp add: edg_wll_StoreIntStateEmbryonic_def)
  with Cons.IH[OF rest] show ?case by (rule logged_trans[rotated])
qed simp

lemma register_logged:
  assumes "register_subjobs_embryonic sx e n sd db = Inr (Inr db')"
  shows "logged db db'"
  using assms by (auto simp: register_subjobs_embryonic_def rbind_eq_Inr dest: subjob_rows_logged split: if_splits sum.splits errno.splits option.splits)

definition call_logs :: "store_call \<Rightarrow> bool" where
  "call_logs again \<longleftrightarrow> (\<forall>event db err db'. again event db = Inr (err, db') \<longrightarrow> logged db db')"

lemma log_connection_logged:
  assumes "call_logs again"
  shows "log_connectjob_event again stale sx f t ty db = Inr (err, db') \<Longrightarrow> logged db db'"
    and "log_disconnectjob_event again sx f t db = Inr (err, db') \<Longrightarrow> logged db db'"
proof -
  have "logged db db'" if "again event (db\<lparr>d_seq := c\<rparr>) = Inr (err, db')" for event c
    using that assms logged_trans[OF logged_fields(1)] unfolding call_logs_def by blast
  then show "log_connectjob_event again stale sx f t ty db = Inr (err, db') \<Longrightarrow> logged db db'"
    and "log_disconnectjob_event again sx f t db = Inr (err, db') \<Longrightarrow> logged db db'"
    by (auto simp: log_connectjob_event_def log_disconnectjob_event_def rbind_eq_Inr)
qed

lemma connects_cases:
  assumes "connects e"
  obtains dest t where "ev_body e = EvGlite (EvConnectJob dest t)" | dest where "ev_body e = EvGlite (EvDisconnectJob dest)"
  using assms by (auto simp: connects_def split: event_body.splits glite_event.splits)

lemma connect_logged:
  assumes "call_logs again" and "connect_jobs again stale sx job e new db = Inr r"
  shows "logged db (case r of Inl (_, d) \<Rightarrow> d | Inr (_, d) \<Rightarrow> d)"
proof (cases "connects e")
  case True
  have other: "logged db d" if "logged db db1" and "log_connectjob_event again stale sx f t ty db1 = Inr (err, d) \<or> log_disconnectjob_event again sx f t db1 = Inr (err, d)"
    for d db1 f t ty err
    using that log_connection_logged[OF assms(1)] by (blast intro: logged_trans)
  from True show ?thesis
  proof (rule connects_cases)
    fix dest t
    assume body: "ev_body e = EvGlite (EvConnectJob dest t)"
    with assms(2) obtain d where d: "dest = Some d" by (cases dest) (simp_all add: connect_jobs_def deref_def)
    show ?thesis
    proof (cases "glite_jobid_parse d")
      case (Inr f)
      with assms(2) show ?thesis
        by (cases r) (auto simp: connect_jobs_def body d Let_def rbind_eq_Inr split: if_splits intro: other[OF connection_logged(1)])
    qed (use assms(2) in \<open>auto simp: connect_jobs_def body d\<close>)
  next
    fix dest
    assume body: "ev_body e = EvGlite (EvDisconnectJob dest)"
    with assms(2) obtain d where d: "dest = Some d" by (cases dest) (simp_all add: connect_jobs_def deref_def)
    show ?thesis
    proof (cases "glite_jobid_parse d")
      case (Inr f)
      with assms(2) show ?thesis
        by (cases r) (auto simp: connect_jobs_def body d Let_def rbind_eq_Inr split: if_splits intro: other[OF connection_logged(2)])
    qed (use assms(2) in \<open>auto simp: connect_jobs_def body d\<close>)
  qed
qed (use assms in \<open>auto simp: connects_nothing\<close>)

text \<open>The tables a transaction ends with.\<close>

definition tables_of :: "store_error \<times> lb_db + edg_wll_JobStat \<times> edg_wll_JobStat \<times> lb_db \<Rightarrow> lb_db" where
  "tables_of r = (case r of Inl (_, d) \<Rightarrow> d | Inr (_, _, d) \<Rightarrow> d)"

lemma ebind_tables:
  assumes "ebind m f = Inr r" and "\<And>x. m = Inr (Inl x) \<Longrightarrow> logged base (snd x)"
    and "\<And>y. m = Inr (Inr y) \<Longrightarrow> f y = Inr r \<Longrightarrow> logged base (tables_of r)"
  shows "logged base (tables_of r)"
proof (cases m)
  case (Inr s)
  show ?thesis
  proof (cases s)
    case (Inl x)
    with Inr assms(1,2) show ?thesis by (cases x) (auto simp: tables_of_def)
  next
    case y: (Inr y)
    with Inr assms(1,3) show ?thesis by simp
  qed
qed (use assms in simp)

lemma step_event_logged:
  assumes "authenticated sx" and "\<not> sx_proxy_purge sx" and "step_event junk env sx job e seq base db = Inr (Inr (old, new, b, d))"
  shows "logged db d"
  using assms(2,3)
  by (auto simp: step_event_def ebind_eq_Inr Let_def dest: update_acl_logged step_logged[OF assms(1)] split: if_splits event_body.splits glite_event.splits)

lemma payload_logged:
  "payload_rights sx job e old new (Some base) db = Inr (Inl x) \<Longrightarrow> snd x = base"
  "payload_rights sx job e old new b db = Inr (Inr d) \<Longrightarrow> logged db d"
  by (auto simp: payload_rights_def rolled_back_def dest: update_acl_logged split: if_splits)

lemma subjobs_logged:
  "register_subjobs sx e (Some base) db = Inr (Inl x) \<Longrightarrow> snd x = base"
  "register_subjobs sx e b db = Inr (Inr d) \<Longrightarrow> logged db d"
  by (auto simp: register_subjobs_def rolled_back_def dest: register_logged split: if_splits event_body.splits glite_event.splits)

lemma effects_logged:
  assumes "authenticated sx" and "\<not> sx_proxy_purge sx" and "call_logs again" and "logged base db"
    and "event_effects again stale junk env sx job e seq base db = Inr r"
  shows "logged base (tables_of r)"
  using assms(5) unfolding event_effects_def
proof (rule ebind_tables)
  fix x
  assume "step_event junk env sx job e seq base db = Inr (Inl x)"
  then show "logged base (snd x)" by (cases x) (metis step_event_base(1)[OF assms(2)] logged_refl snd_conv)
next
  fix y
  assume step: "step_event junk env sx job e seq base db = Inr (Inr y)"
  obtain old new b db1 where y: "y = (old, new, b, db1)" by (metis surj_pair)
  have b: "b = Some base" using step_event_base(2)[OF assms(2)] step y by simp
  have "logged base db1" using logged_trans[OF assms(4) step_event_logged[OF assms(1,2)]] step y by simp
  assume "(case y of (old, new, base1, db1) \<Rightarrow> ebind (payload_rights sx job e old new base1 db1) (\<lambda>db2.
      ebind (register_subjobs sx e base1 db2) (\<lambda>db3. ebind (connect_jobs again stale sx job e new db3) (\<lambda>(err, db4).
      let db5 = halt_connections job old new db4 in Inr (case err of Some er \<Rightarrow> Inl (er, db5) | None \<Rightarrow> Inr (old, new, db5)))))) = Inr r"
  then have "ebind (payload_rights sx job e old new (Some base) db1) (\<lambda>db2.
      ebind (register_subjobs sx e (Some base) db2) (\<lambda>db3. ebind (connect_jobs again stale sx job e new db3) (\<lambda>(err, db4).
      let db5 = halt_connections job old new db4 in Inr (case err of Some er \<Rightarrow> Inl (er, db5) | None \<Rightarrow> Inr (old, new, db5))))) = Inr r"
    by (simp add: y b)
  then show "logged base (tables_of r)"
  proof (rule ebind_tables)
    fix db2
    assume "payload_rights sx job e old new (Some base) db1 = Inr (Inr db2)"
    then have db2: "logged base db2" using logged_trans[OF \<open>logged base db1\<close> payload_logged(2)] by blast
    assume "ebind (register_subjobs sx e (Some base) db2) (\<lambda>db3. ebind (connect_jobs again stale sx job e new db3) (\<lambda>(err, db4).
      let db5 = halt_connections job old new db4 in Inr (case err of Some er \<Rightarrow> Inl (er, db5) | None \<Rightarrow> Inr (old, new, db5)))) = Inr r"
    then show ?thesis
    proof (rule ebind_tables)
      fix db3
      assume "register_subjobs sx e (Some base) db2 = Inr (Inr db3)"
      then have db3: "logged base db3" using logged_trans[OF db2 subjobs_logged(2)] by blast
      assume "ebind (connect_jobs again stale sx job e new db3) (\<lambda>(err, db4).
        let db5 = halt_connections job old new db4 in Inr (case err of Some er \<Rightarrow> Inl (er, db5) | None \<Rightarrow> Inr (old, new, db5))) = Inr r"
      then show ?thesis
      proof (rule ebind_tables)
        fix x
        assume x: "connect_jobs again stale sx job e new db3 = Inr (Inl x)"
        show "logged base (snd x)" using logged_trans[OF db3 connect_logged[OF assms(3) x]] by (cases x) auto
      next
        fix c
        assume c: "connect_jobs again stale sx job e new db3 = Inr (Inr c)"
        obtain err db4 where "c = (err, db4)" by (cases c)
        then have "logged base (halt_connections job old new db4)"
          using logged_trans[OF logged_trans[OF db3 connect_logged[OF assms(3) c]] connection_logged(4)] by simp
        moreover assume "(case c of (err, db4) \<Rightarrow>
          let db5 = halt_connections job old new db4 in Inr (case err of Some er \<Rightarrow> Inl (er, db5) | None \<Rightarrow> Inr (old, new, db5))) = Inr r"
        ultimately show ?thesis using \<open>c = _\<close> by (auto simp: tables_of_def Let_def split: option.splits)
      qed
    qed (use subjobs_logged(1) in auto)
  qed (use payload_logged(1) in auto)
qed

lemma run_logged:
  assumes "authenticated sx" and "\<not> sx_proxy_purge sx" and "call_logs again"
  shows "call_logs (db_store_run again stale junk env sx)"
  unfolding call_logs_def
proof (intro allI impI)
  fix event db err db'
  assume run: "db_store_run again stale junk env sx event db = Inr (err, db')"
  show "logged db db'"
  proof (cases event)
    case (Some ev)
    have tr: "logged db (tables_of r)" if "store_transaction again stale junk env sx ev db = Inr r" for r
      using that
    proof (cases rule: transaction_cases)
      case (effects jp db1 seq e db2 job)
      then have "logged db db2" by (blast intro: logged_trans[OF store_job_server_proxy_logged store_event_logged[OF assms(1)]])
      with effects(3) show ?thesis by (intro effects_logged[OF assms])
    qed (auto simp: tables_of_def intro: store_job_server_proxy_logged)
    from run[unfolded Some] show ?thesis
    proof (cases rule: run_cases)
      case (failed er)
      from tr[OF this(1)] show ?thesis by (simp add: tables_of_def)
    next
      case (stored old new d)
      from tr[OF this(1)] have "logged db d" by (simp add: tables_of_def)
      with finalize_logged show ?thesis unfolding stored(3) by (rule logged_trans[rotated])
    qed simp
  qed (use run in \<open>simp add: db_store_run_def\<close>)
qed

lemma store_logged: "authenticated sx \<Longrightarrow> \<not> sx_proxy_purge sx \<Longrightarrow> call_logs (db_store stale junk env sx)"
  unfolding db_store_def One_nat_def db_store_depth.simps by (intro run_logged) (simp_all add: call_logs_def)

text \<open>Requests one after the other, each on a connection of its own; requests that fail are answered and the next one follows.\<close>

primrec store_all :: "int \<Rightarrow> junk \<Rightarrow> status_env \<Rightarrow> (server_ctx \<times> edg_wll_Event option) list \<Rightarrow> lb_db \<Rightarrow> lb_db res" where
  "store_all stale junk env [] db = Inr db"
| "store_all stale junk env (q # qs) db =
     rbind (db_store stale junk env (fst q) (snd q) db) (\<lambda>(_, db1). store_all stale junk env qs db1)"


section \<open>Examples\<close>

text \<open>A server without asynchronous registrations, where a change of an access control list finds nothing to do.\<close>

definition ex_server :: server_ctx where
  "ex_server = ex_sx\<lparr>sx_async := False, sx_change := (\<lambda>_ _ _ _ _ _. Inl Ch_EEXIST)\<rparr>"

definition ex_change :: "string \<Rightarrow> edg_wll_Event" where
  "ex_change u = (ex_event_of u)\<lparr>ev_body := EvGlite (EvChangeACL (Some ''/CN=friend'') 0 1 0 0)\<rparr>"

lemma ex_unknown:
  "db_store 0 (\<lambda>_ _. (0, 0)) ex_status_env ex_server (Some (ex_change ''other'')) ex_db = Inr (Some S_ENOENT, ex_db)"
  by (simp add: db_store_def db_store_run_def ex_server_def ex_sx_def check_store_authz_def store_transaction_def undoing_def store_job_server_proxy_def
      store_new_job_def admit_first_def regjob_of_def registration_def ex_change_def ex_event_of_def ex_job_id_def ex_db_def Let_def)


lemma ex_changed:
  "\<exists>db' s. db_store 0 (\<lambda>_ _. (0, 0)) ex_status_env ex_server (Some (ex_change ''mine'')) ex_db = Inr (None, db') \<and> d_events db' ''mine'' = [s]"
proof -
  let ?ev = "ex_change ''mine''"
  have job: "any_jobId ?ev = Some (ex_job_id ''mine'')" "event_unique ?ev = ''mine''" by code_simp+
  have row: "d_jobs ex_db ''mine'' = Some \<lparr>jr_id = ex_job_id ''mine'', jr_userid = user_id ex_sx ''/CN=user'', jr_proxy = False, jr_server = True, jr_grey = False, jr_nevents = 0\<rparr>"
    (is "_ = Some ?r") by (simp add: ex_db_def)
  have srv: "\<not> isProxy (sx_query ex_server)" "peerName (sx_query ex_server) = Some ''/CN=wms''" "jid_id (ex_job_id ''mine'') = ''mine''"
    by (simp_all add: ex_server_def ex_sx_def ex_job_id_def)
  have unreg: "\<not> regjob_of ?ev" by (simp add: regjob_of_def registration_def ex_change_def)
  have sj: "store_job_server_proxy ex_server ?ev ex_db = Inr (Inr (False, ex_db))"
    by (simp add: store_job_server_proxy_def job row srv unreg store_known_job_def Let_def)
  have low: "lowercase_usertag ?ev = Inr ?ev" by (simp add: lowercase_usertag_def ex_change_def)
  have "job_owner ex_db ''mine'' = Some ''/CN=user''" by (simp add: job_owner_def ex_db_def)
  moreover have "edg_wll_gss_equal_subj (Some ''/CN=user'') (any_user ?ev)" by code_simp
  moreover have "any_source ?ev = SOURCE_USER_INTERFACE" by (simp add: ex_change_def ex_event_of_def)
  ultimately have may: "may_store ex_server ?ev ex_db"
    by (simp add: may_store_def check_auth_def job srv)
  have none: "d_events ex_db ''mine'' = []" by (simp add: ex_db_def)
  have st: "edg_wll_StoreEvent ex_server ?ev (Some ?ev) ex_db = Inr (Inr (0, ?ev, with_event ex_server ?ev (Some ?ev) ?r ex_db))"
    using stored_if[OF low may, of ?r "Some ?ev"] row job none by simp
  let ?db = "with_event ex_server ?ev (Some ?ev) ?r ex_db"
  have "edg_wll_GetACL ''mine'' (d_acl ?db) = Inr None" by (simp add: with_event_def Let_def ex_db_def edg_wll_GetACL_def)
  then have "update_acl ex_server (Some ''/CN=friend'') 0 1 0 0 ''mine'' ?db = Inr (Inr ?db)"
    by (simp add: update_acl_def ex_server_def edg_wll_UpdateACL.simps)
  then have "step_event (\<lambda>_ _. (0, 0)) ex_status_env ex_server (ex_job_id ''mine'') ?ev 0 ex_db ?db = Inr (Inr (zero_JobStat, zero_JobStat, Some ex_db, ?db))"
    by (simp add: step_event_def ex_change_def undoing_def ex_job_id_def)
  moreover have "\<not> connects ?ev" by (simp add: connects_def ex_change_def)
  moreover have "payload_rights ex_server j ?ev o1 n1 b d = Inr (Inr d)" "register_subjobs ex_server ?ev b d = Inr (Inr d)" for j o1 n1 b d
    by (simp_all add: payload_rights_def register_subjobs_def ex_change_def)
  ultimately have "event_effects again 0 (\<lambda>_ _. (0, 0)) ex_status_env ex_server (ex_job_id ''mine'') ?ev 0 ex_db ?db = Inr (Inr (zero_JobStat, zero_JobStat, ?db))" for again
    by (simp add: event_effects_def connects_nothing halt_connections_def)
  moreover have "\<not> isProxy (sx_query ex_server)" "check_store_authz (sx_authz ex_server) (sx_lcas ex_server) (sx_policy_file ex_server) b" for b
    by (simp_all add: ex_server_def ex_sx_def check_store_authz_def Let_def)
  ultimately have "db_store 0 (\<lambda>_ _. (0, 0)) ex_status_env ex_server (Some ?ev) ex_db = Inr (None, db_store_finalize ex_server ?ev zero_JobStat zero_JobStat ?db)"
    by (simp add: db_store_def db_store_run_def store_transaction_def undoing_def sj st job)
  moreover have "d_events (db_store_finalize ex_server ?ev zero_JobStat zero_JobStat ?db) = d_events ?db"
    by (simp add: db_store_finalize_def forward_event_to_server_def Let_def)
  ultimately show ?thesis by (simp add: with_event_def Let_def job none)
qed


end
