(* ===== verification/Spec2Isabelle.thy ===== *)
theory Spec2Isabelle
  imports LB_Process LB_Context LB_StatusCodec LB_StoreRun LB_QueueMove LB_Escape LB_UlmDate LB_Arrival LB_StatsProps LB_Notify LB_DbStore
begin

text \<open>
  \<^bold>\<open>Logging and Bookkeeping\<close> tracks grid jobs. Components of the grid log events about a job
  through a client library; a local logger writes them to files; the interlogger carries them
  to the bookkeeping server of the job, which stores them, computes the status of the job from its events
  with a state machine, answers queries, sends notifications and purges old jobs. The development follows an event along this way.

  \<^bold>\<open>Identifiers and codes.\<close>
  \<^item> \<open>LB_Prelude\<close>: faults and results (\<open>res\<close>), C integers, the string functions and number
    formats of the C library that the sources use, and lemmas on them.
  \<^item> \<open>LB_JobId\<close>: \<^verbatim>\<open>org.glite.jobid.api-c/src/cjobid.c\<close>. A job identifier is a record of
    host, port, unique part and information; parsing and printing are inverse on well-formed
    identifiers.
  \<^item> \<open>LB_Base64\<close>: \<^verbatim>\<open>strmd5.c\<close>. Encoding and decoding, bit by bit; MD5 is the argument \<open>md5\<close>.
  \<^item> \<open>LB_Seqcode\<close>: \<^verbatim>\<open>org.glite.lb.state-machine/src/seqcode_aux.c\<close>. Comparison, components and
    branches of sequence codes; user tags. What a comparison reads from memory that was never
    set is the argument \<open>junk\<close>.
  \<^item> \<open>LB_Context\<close>: the part of \<^verbatim>\<open>org.glite.lb.common/src/context.c\<close> that gives, sets and
    increments the code of a client and generates identifiers of subjobs.

  \<^bold>\<open>The state machine\<close> (\<^verbatim>\<open>org.glite.lb.state-machine/src\<close>).
  \<^item> \<open>LB_Types\<close>: events, states, the public and the internal status as records.
  \<^item> \<open>LB_Branch\<close>: branches of resubmission and certificate subjects
    (\<^verbatim>\<open>process_event.c\<close>, \<^verbatim>\<open>glite_gss.c\<close>).
  \<^item> \<open>LB_Step\<close>: what all processors share: the end of processing, the invariant
    \<open>wf_status\<close>, and the locale \<open>event_processor\<close> (a processor keeps the invariant and does not
    fault on acceptable events) with the soundness of whole runs; every processor is an
    instance.
  \<^item> \<open>LB_Glite\<close>, \<open>LB_GliteProps\<close>, \<open>LB_GliteLate\<close>: \<^verbatim>\<open>process_event.c\<close>, one definition per event,
    the preparation (loops of shallow resubmission, late events) and the end; which events can
    move a job.
  \<^item> \<open>LB_Pbs\<close>, \<open>LB_Condor\<close>, \<open>LB_Cream\<close>, \<open>LB_FileTransfer\<close>, \<open>LB_VirtualMachine\<close>: the
    processors of the other types of jobs; the virtual machine implements an abstract machine.
  \<^item> \<open>LB_Process\<close>: registration and dispatch to the processors; soundness of the whole.
  \<^item> \<open>LB_Codec\<close>, \<open>LB_StatusCodec\<close>: \<^verbatim>\<open>intjobstat_supp.c\<close>, the text a status is stored as; decoding
    undoes encoding.

  \<^bold>\<open>The way of an event\<close> (\<^verbatim>\<open>org.glite.lb.logger/src\<close>, \<^verbatim>\<open>org.glite.lb.common/src\<close>).
  \<^item> \<open>LB_Escape\<close>: \<^verbatim>\<open>org.glite.lbjp-common.trio/src/escape.c\<close>, escaping of values for events,
    XML, SQL and JSON.
  \<^item> \<open>LB_Ulm\<close>, \<open>LB_UlmDate\<close>: \<^verbatim>\<open>ulm_parse.c\<close> and the reading of values from
    \<^verbatim>\<open>events_parse.c.T\<close>: the parser of event lines, its index arrays, and dates against a calendar.
  \<^item> \<open>LB_IlMsg\<close>: \<^verbatim>\<open>il_int.c\<close>, \<^verbatim>\<open>il_string.c\<close>, \<^verbatim>\<open>il_msg.c\<close>, the messages to the server and
    its replies.
  \<^item> \<open>LB_Ring\<close>, \<open>LB_EventQueue\<close>, \<open>LB_QueueMove\<close>: \<^verbatim>\<open>event_queue.c\<close>. Cells live in a heap,
    a queue is a circular doubly linked list; insertion, search, removal and moving are shown to
    implement operations on lists.
  \<^item> \<open>LB_Delivery\<close>: executions of a queue with any number of delivery threads. The locale
    \<open>job_queue\<close> states what the threads rely on, the circular list is the instance; and the
    sending loop of \<^verbatim>\<open>send_event.c\<close>.
  \<^item> \<open>LB_EventStore\<close>: \<^verbatim>\<open>event_store.c\<close> and \<^verbatim>\<open>server_msg.c\<close>, event files and control files.
  \<^item> \<open>LB_StoreRun\<close>: a store together with its queue, across restarts. The locale
    \<open>message_queue\<close> states what the store relies on, the circular list is the instance.
  \<^item> \<open>LB_Arrival\<close>: the parts put together, from the fields a client logs to the fields the
    server reads.

  \<^bold>\<open>The bookkeeping server\<close> (\<^verbatim>\<open>org.glite.lb.server/src\<close>).
  \<^item> \<open>LB_Tables\<close>: the tables (\<^verbatim>\<open>config/glite-lb-dbsetup.sql\<close>) as the record \<open>lb_db\<close>, the context of
    a request as the record \<open>server_ctx\<close>, and \<^verbatim>\<open>store.c.T\<close>: rows of jobs and users, rights to log, numbers
    of events, duplicates.
  \<^item> \<open>LB_JobStat\<close>, \<open>LB_JobStatProps\<close>: \<^verbatim>\<open>jobstat.c\<close>: storing and loading the status, one step with an
    event, computing the status from all events, collections. The stored status is that of the state machine; the
    histogram of a collection counts its subjobs.
  \<^item> \<open>LB_JobStatus\<close>: the request for the status of a job (\<^verbatim>\<open>edg_wll_JobStatusServer\<close>), with subjobs, history and purged jobs.
  \<^item> \<open>LB_Purge\<close>: \<^verbatim>\<open>srv_purge.c\<close> and the connections between jobs. A purged job is gone and remembered.
  \<^item> \<open>LB_DbStore\<close>: \<^verbatim>\<open>db_store.c\<close>, the whole way of an event into the tables. A failed request leaves nothing
    behind, and no sequence of requests loses an event or its number.
  \<^item> \<open>LB_Query\<close>, \<open>LB_QueryProps\<close>, \<open>LB_QueryWhere\<close>, \<open>LB_QueryJobs\<close>, \<open>LB_QueryEvents\<close>: \<^verbatim>\<open>query.c\<close>: meaning and evaluation of
    conditions, their text for the database, and the queries page by page. The locale \<open>row_fetcher\<close> states what the loop over pages relies
    on; the loops over jobs and over events are its instances.
  \<^item> \<open>LB_Authz\<close>, \<open>LB_Acl\<close>: \<^verbatim>\<open>authz_policy.c\<close>, \<^verbatim>\<open>lb_authz.c\<close>: policies, who may see and store what, access control lists with the
    counts of their users, hiding and anonymization.
  \<^item> \<open>LB_Notify\<close>: \<^verbatim>\<open>notif_match.c\<close>: who gets a notification of a change, and what it shows.
  \<^item> \<open>LB_Stats\<close>, \<open>LB_StatsProps\<close>: \<^verbatim>\<open>stats.c\<close>: archives of counts and durations, hash tables of processes.

  \<^bold>\<open>How the model reads.\<close> A function that can read outside of an array, follow a null pointer,
  touch freed memory or fail an assertion returns \<open>'a res\<close>, with the fault on the left. Strings
  are lists of characters; buffers of fixed size are modelled where the code can overrun them.
  Integers are words or are wrapped (\<open>c_int\<close>, \<open>u32\<close>, \<open>u64\<close>) where they can overflow.
  Code outside of the repository is an argument: \<open>md5\<close>, the time \<open>now\<close>, the
  unique part \<open>fresh\<close> of new identifiers, the outcome of sending (\<open>answer\<close>, \<open>commit_ok\<close>,
  \<open>confirm\<close>), the parser of events \<open>getJobId\<close>, addresses returned by \<^verbatim>\<open>malloc\<close>; in the server the attributes of job
  descriptions \<open>jdl_attr\<close>, the rights \<open>test_user\<close> of a user by an access control list, the rows \<open>db\<close> that a statement selects,
  the digest \<open>sha\<close>, and the fields \<open>sx_md5\<close>, \<open>sx_test_user\<close>, \<open>sx_change\<close>, \<open>sx_event_name\<close>, \<open>sx_reread\<close>, \<open>sx_lcas\<close> of the
  context and \<open>sv_select\<close>, \<open>sv_acl_print\<close>, \<open>sv_jdl_attr\<close>, \<open>sv_json\<close> and the like of a request for a status. Errors that are
  returned to the caller are the left side of a second sum (\<open>ebind\<close>); a transaction that fails goes on with the tables from before, as
  long as no other transaction was opened inside of it.

  \<^bold>\<open>Loops and bounds.\<close> Loops over strings and arrays are recursive functions with termination
  proofs. Loops over linked cells take fuel and return the fault \<open>Diverges\<close> without it: the
  search and the moving loop get the length of the queue, which the refinement lemmas show to
  be enough for every represented queue; the sending loop gets any number above the
  length, and is shown to come to its end with it. The loop of \<^verbatim>\<open>edg_wll_UpdateACL\<close>, which may not end, is a partial
  function with the value \<open>None\<close> then; it is shown to return for jobs with a row. The request
  \<^verbatim>\<open>db_store\<close> calls itself for connected jobs: one level is shown to be enough.

  \<^bold>\<open>Not modelled.\<close> Sockets, the security layer, threads and locks other than as interleaved
  operations, failures of single statements of the database and deadlocks, the processes and the protocol of the server (\<^verbatim>\<open>bkserverd.c\<close>,
  \<^verbatim>\<open>lb_proto.c\<close>), registrations of notifications, registration to job provenance, the web services, the
  client library apart from its codes, the harvester, the notification variant of the interlogger and its start, the printers and
  parsers generated from templates, memory exhaustion, release of memory where nothing reads it afterwards, and third-party code.
\<close>

end
